(* ===== verification/Prelude.thy ===== *)
theory Prelude
  imports Main "HOL-Library.Word" "HOL-Library.Monad_Syntax"
begin

text \<open>
  Shared vocabulary of the development: the C++ integer and byte types, the parts of the C++
  standard library that the modelled sources use on strings and spans (\<open>find\<close>, \<open>rfind\<close>,
  \<open>from_chars\<close>, \<open>to_string\<close>, the character classes of the C locale), and the generic lemmas
  on them that the component theories use.

  Conventions.  A \<open>std::vector<std::uint8_t>\<close>, a \<open>std::span\<close> and a \<open>std::array\<close> of bytes are
  lists of \<open>8 word\<close>; fixed-width unsigned integers are words of that width; \<open>std::size_t\<close> values
  are \<open>nat\<close> (every size that occurs is the length of an existing container); a
  \<open>std::chrono::steady_clock::time_point\<close> is an \<open>int\<close> counting nanoseconds since the clock's
  epoch, so that \<open>now - t\<close> is a signed duration as in the source; \<open>std::string\<close> and
  \<open>std::string_view\<close> are \<open>string\<close>.
\<close>

unbundle bit_operations_syntax

section \<open>Types\<close>

type_synonym u8 = "8 word"
type_synonym u16 = "16 word"
type_synonym u32 = "32 word"
type_synonym u64 = "64 word"
type_synonym bytes = "8 word list"
type_synonym time_point = int

named_theorems wire_simps \<open>big-endian encoding and decoding of words\<close>
named_theorems text_simps \<open>the string scanning functions\<close>

section \<open>Bytes and words\<close>

text \<open>\<open>static_cast<std::uint8_t>(c)\<close> of a \<open>char\<close>, and back.\<close>

definition byte_of_char :: "char \<Rightarrow> u8" where
  "byte_of_char c = word_of_nat (of_char c)"

definition bytes_of_string :: "string \<Rightarrow> bytes" where
  "bytes_of_string s = map byte_of_char s"

lemma length_bytes_of_string [simp]: "length (bytes_of_string s) = length s"
  by (simp add: bytes_of_string_def)

text \<open>Most significant byte first, two and four bytes wide.\<close>

definition be16 :: "u16 \<Rightarrow> bytes" where
  "be16 v = [ucast (drop_bit 8 v), ucast v]"

definition be32 :: "u32 \<Rightarrow> bytes" where
  "be32 v = [ucast (drop_bit 24 v), ucast (drop_bit 16 v), ucast (drop_bit 8 v), ucast v]"

definition of_be16 :: "u8 \<Rightarrow> u8 \<Rightarrow> u16" where
  "of_be16 a b = push_bit 8 (ucast a) OR ucast b"

definition of_be32 :: "u8 \<Rightarrow> u8 \<Rightarrow> u8 \<Rightarrow> u8 \<Rightarrow> u32" where
  "of_be32 a b c d =
     push_bit 24 (ucast a) OR push_bit 16 (ucast b) OR push_bit 8 (ucast c) OR ucast d"

lemma not_bit_u8 [simp]: "8 \<le> n \<Longrightarrow> \<not> bit (a :: u8) n"
  by (auto dest: bit_imp_le_length)

lemma length_be16 [simp]: "length (be16 v) = 2"
  by (simp add: be16_def)

lemma length_be32 [simp]: "length (be32 v) = 4"
  by (simp add: be32_def)

lemma of_be16_be16 [wire_simps]: "of_be16 (ucast (drop_bit 8 v)) (ucast v) = v"
  by (rule bit_word_eqI) (auto simp: of_be16_def bit_simps)

lemma of_be32_be32 [wire_simps]:
  "of_be32 (ucast (drop_bit 24 v)) (ucast (drop_bit 16 v)) (ucast (drop_bit 8 v)) (ucast v) = v"
proof (rule bit_word_eqI)
  fix n assume "n < LENGTH(32)"
  then have n: "n < 32" by simp
  consider "n < 8" | "8 \<le> n" "n < 16" | "16 \<le> n" "n < 24" | "24 \<le> n" by linarith
  then show "bit (of_be32 (ucast (drop_bit 24 v)) (ucast (drop_bit 16 v)) (ucast (drop_bit 8 v))
      (ucast v)) n = bit v n"
    using n by cases (auto simp: of_be32_def bit_simps)
qed

lemma be16_of_be16 [wire_simps]: "be16 (of_be16 a b) = [a, b]"
  by (auto simp: be16_def of_be16_def bit_simps intro!: bit_word_eqI)

lemma be32_of_be32 [wire_simps]: "be32 (of_be32 a b c d) = [a, b, c, d]"
  by (auto simp: be32_def of_be32_def bit_simps intro!: bit_word_eqI)

lemma mask_ff: "(0xff :: 'a::len word) = mask 8"
  by (simp add: mask_eq_exp_minus_1)

lemma ucast_and_ff [wire_simps]: "(ucast ((v :: u32) AND 0xff) :: u8) = ucast v"
  by (rule bit_word_eqI) (simp add: mask_ff bit_simps)

lemma high_bits_clear:
  fixes v :: "'a::len word"
  assumes "unat v < 2 ^ k" and "k \<le> n"
  shows "\<not> bit v n"
proof -
  have "unat (take_bit k v) = unat v"
    using assms(1) by (simp add: unsigned_take_bit_eq take_bit_nat_eq_self)
  then have "take_bit k v = v" by (rule unsigned_word_eqI)
  then have "bit v n = bit (take_bit k v) n" by simp
  with assms(2) show ?thesis by (simp add: bit_simps)
qed

lemma and_high_mask_eq_iff:
  fixes a b :: u32
  assumes "k \<le> 32"
  shows "a AND push_bit k (NOT 0) = b AND push_bit k (NOT 0) \<longleftrightarrow> drop_bit k a = drop_bit k b"
proof
  assume eq: "a AND push_bit k (NOT 0) = b AND push_bit k (NOT 0)"
  show "drop_bit k a = drop_bit k b"
  proof (rule bit_word_eqI)
    fix n assume "n < LENGTH(32)"
    have "bit (a AND push_bit k (NOT 0)) (k + n) = bit (b AND push_bit k (NOT 0)) (k + n)" by (simp only: eq)
    then show "bit (drop_bit k a) n = bit (drop_bit k b) n"
      by (auto simp: bit_simps dest: bit_imp_le_length)
  qed
next
  assume eq: "drop_bit k a = drop_bit k b"
  show "a AND push_bit k (NOT 0) = b AND push_bit k (NOT 0)"
  proof (rule bit_word_eqI)
    fix n assume n: "n < LENGTH(32)"
    have "bit (drop_bit k a) (n - k) = bit (drop_bit k b) (n - k)" by (simp add: eq)
    then show "bit (a AND push_bit k (NOT 0)) n = bit (b AND push_bit k (NOT 0)) n"
      using n by (cases "k \<le> n") (auto simp: bit_simps)
  qed
qed

lemma header_split:
  assumes "h @ t = b @ q" and "length h \<le> length b"
  obtains r where "b = h @ r" and "t = r @ q"
  using assms by (auto simp: append_eq_append_conv2)

lemma unat_word_of_nat_u32: "n < 4294967296 \<Longrightarrow> unat (word_of_nat n :: u32) = n"
  by (simp add: unat_of_nat)

section \<open>Lists\<close>

lemma find_SomeD: "find P xs = Some x \<Longrightarrow> x \<in> set xs \<and> P x"
  by (induction xs) (auto split: if_splits)

lemma fold_inv: "Q s \<Longrightarrow> (\<And>x s. x \<in> set xs \<Longrightarrow> Q s \<Longrightarrow> Q (f x s)) \<Longrightarrow> Q (fold f xs s)"
  by (induction xs arbitrary: s) auto

section \<open>Bounds of spans\<close>

text \<open>
  \<open>span[i]\<close>, \<open>subspan\<close>, \<open>memcpy\<close> and pointer reads outside the span are undefined behaviour.
  The parsers of untrusted packets are modelled in the option monad over these reads: \<open>None\<close> is
  undefined behaviour and nothing else, so that a theorem that a parser is never \<open>None\<close> says that
  it reads only inside the packet.
\<close>

definition rd8 :: "bytes \<Rightarrow> nat \<Rightarrow> u8 option" where
  "rd8 bs i = (if i < length bs then Some (bs ! i) else None)"

definition rd_span :: "bytes \<Rightarrow> nat \<Rightarrow> nat \<Rightarrow> bytes option" where
  "rd_span bs i n = (if i + n \<le> length bs then Some (take n (drop i bs)) else None)"

lemma rd8_inside: "i < length bs \<Longrightarrow> rd8 bs i = Some (bs ! i)"
  by (simp add: rd8_def)

lemma rd_span_inside: "i + n \<le> length bs \<Longrightarrow> rd_span bs i n = Some (take n (drop i bs))"
  by (simp add: rd_span_def)

lemma bind_inside: "m = Some a \<Longrightarrow> Option.bind m f = f a"
  by simp

section \<open>Characters of the C locale\<close>

abbreviation cval :: "char \<Rightarrow> nat" where
  "cval c \<equiv> of_char c"

definition isdigit :: "char \<Rightarrow> bool" where
  "isdigit c = (48 \<le> cval c \<and> cval c \<le> 57)"

definition isupper :: "char \<Rightarrow> bool" where
  "isupper c = (65 \<le> cval c \<and> cval c \<le> 90)"

definition islower :: "char \<Rightarrow> bool" where
  "islower c = (97 \<le> cval c \<and> cval c \<le> 122)"

definition isalnum :: "char \<Rightarrow> bool" where
  "isalnum c = (isdigit c \<or> isupper c \<or> islower c)"

definition isxdigit :: "char \<Rightarrow> bool" where
  "isxdigit c = (isdigit c \<or> (65 \<le> cval c \<and> cval c \<le> 70) \<or> (97 \<le> cval c \<and> cval c \<le> 102))"

definition isspace :: "char \<Rightarrow> bool" where
  "isspace c = (cval c = 32 \<or> (9 \<le> cval c \<and> cval c \<le> 13))"

definition tolower :: "char \<Rightarrow> char" where
  "tolower c = (if isupper c then char_of (cval c + 32) else c)"

definition toupper :: "char \<Rightarrow> char" where
  "toupper c = (if islower c then char_of (cval c - 32) else c)"

definition digit_char :: "nat \<Rightarrow> char" where
  "digit_char d = char_of (48 + d)"

lemma cval_char_of [simp]: "n < 256 \<Longrightarrow> cval (char_of n) = n"
  by simp

lemma cval_digit_char [simp]: "d < 10 \<Longrightarrow> cval (digit_char d) = 48 + d"
  by (simp add: digit_char_def)

lemma isdigit_digit_char [simp]: "d < 10 \<Longrightarrow> isdigit (digit_char d)"
  by (simp add: isdigit_def)

section \<open>Decimal numbers: to\_string and from\_chars\<close>

fun to_string :: "nat \<Rightarrow> string" where
  "to_string n = (if n < 10 then [digit_char n] else to_string (n div 10) @ [digit_char (n mod 10)])"

declare to_string.simps [simp del]

definition dec_value :: "string \<Rightarrow> nat" where
  "dec_value s = foldl (\<lambda>acc c. acc * 10 + (cval c - 48)) 0 s"

text \<open>
  \<open>std::from_chars\<close> consumes the longest run of digits.  \<open>None\<close> stands for a non-zero
  \<open>ec\<close> (no digit, or the value does not fit); \<open>Some (v, rest)\<close> for the value and the text
  from \<open>ptr\<close> on.  The unsigned overload accepts no sign, the signed one a leading minus.
\<close>

definition from_chars_unsigned :: "string \<Rightarrow> (nat \<times> string) option" where
  "from_chars_unsigned s =
     (let ds = takeWhile isdigit s in
      if ds = [] \<or> dec_value ds > 4294967295 then None
      else Some (dec_value ds, dropWhile isdigit s))"

definition from_chars_int :: "string \<Rightarrow> (int \<times> string) option" where
  "from_chars_int s =
     (let neg = (case s of [] \<Rightarrow> False | c # _ \<Rightarrow> c = CHR ''-'');
          body = (if neg then tl s else s);
          ds = takeWhile isdigit body;
          v = int (dec_value ds)
      in if ds = [] \<or> (if neg then v > 2147483648 else v > 2147483647) then None
         else Some (if neg then - v else v, dropWhile isdigit body))"

lemma to_string_not_Nil [simp]: "to_string n \<noteq> []"
  by (subst to_string.simps) simp

lemma to_string_digits: "c \<in> set (to_string n) \<Longrightarrow> isdigit c"
proof (induction n rule: to_string.induct)
  case (1 n)
  then show ?case
    by (cases "n < 10") (auto simp: to_string.simps [of n])
qed

lemma dec_value_snoc: "dec_value (s @ [c]) = dec_value s * 10 + (cval c - 48)"
  by (simp add: dec_value_def)

lemma dec_value_to_string [simp]: "dec_value (to_string n) = n"
proof (induction n rule: to_string.induct)
  case (1 n)
  show ?case
  proof (cases "n < 10")
    case True
    then show ?thesis by (simp add: to_string.simps [of n] dec_value_def)
  next
    case False
    with 1 show ?thesis by (simp add: to_string.simps [of n] dec_value_snoc)
  qed
qed

lemma length_to_string_le: "n < 10 ^ Suc k \<Longrightarrow> length (to_string n) \<le> Suc k"
proof (induction k arbitrary: n)
  case 0
  then show ?case by (simp add: to_string.simps [of n])
next
  case (Suc k)
  then have "n div 10 < 10 ^ Suc k" by (simp add: less_mult_imp_div_less)
  then have "length (to_string (n div 10)) \<le> Suc k" by (rule Suc.IH)
  then show ?case by (simp add: to_string.simps [of n])
qed

lemma takeWhile_isdigit_to_string [simp]: "takeWhile isdigit (to_string n) = to_string n"
  by (simp add: takeWhile_eq_all_conv to_string_digits)

lemma dropWhile_isdigit_to_string [simp]: "dropWhile isdigit (to_string n) = []"
  by (simp add: dropWhile_eq_Nil_conv to_string_digits)

lemma from_chars_unsigned_to_string [text_simps]:
  "n \<le> 4294967295 \<Longrightarrow> from_chars_unsigned (to_string n) = Some (n, [])"
  by (simp add: from_chars_unsigned_def)

lemma dec_value_bound: "dec_value s < 10 ^ length s" if "list_all isdigit s"
  using that
proof (induction s rule: rev_induct)
  case Nil
  then show ?case by (simp add: dec_value_def)
next
  case (snoc c s)
  then have "dec_value s < 10 ^ length s" and "cval c - 48 < 10"
    by (auto simp: isdigit_def)
  then show ?case by (simp add: dec_value_snoc)
qed

section \<open>Searching strings\<close>

text \<open>
  The scanning loops of the sources look for the next separator with \<open>find(c, begin)\<close> and
  continue behind it; \<open>pieces c s\<close> is the sequence of texts such a loop visits.
  \<open>cut c s\<close> is one \<open>find\<close>: the text before the first \<open>c\<close>, and the text behind it when
  there is one.  \<open>rcut c s\<close> is \<open>rfind\<close>: the texts around the last \<open>c\<close>.
\<close>

fun pieces :: "char \<Rightarrow> string \<Rightarrow> string list" where
  "pieces c [] = [[]]"
| "pieces c (x # xs) =
     (if x = c then [] # pieces c xs
      else (case pieces c xs of [] \<Rightarrow> [[x]] | p # ps \<Rightarrow> (x # p) # ps))"

fun cut :: "char \<Rightarrow> string \<Rightarrow> string \<times> string option" where
  "cut c [] = ([], None)"
| "cut c (x # xs) =
     (if x = c then ([], Some xs) else (case cut c xs of (p, r) \<Rightarrow> (x # p, r)))"

definition rcut :: "char \<Rightarrow> string \<Rightarrow> (string \<times> string) option" where
  "rcut c s = (case cut c (rev s) of (p, None) \<Rightarrow> None | (p, Some r) \<Rightarrow> Some (rev r, rev p))"

fun has_substr :: "string \<Rightarrow> string \<Rightarrow> bool" where
  "has_substr p [] = (p = [])"
| "has_substr p (x # xs) = (take (length p) (x # xs) = p \<or> has_substr p xs)"

definition starts_with :: "string \<Rightarrow> string \<Rightarrow> bool" where
  "starts_with p s = (take (length p) s = p)"

definition ends_with :: "string \<Rightarrow> string \<Rightarrow> bool" where
  "ends_with p s = (length p \<le> length s \<and> drop (length s - length p) s = p)"

lemma pieces_not_Nil [simp]: "pieces c s \<noteq> []"
  by (induction s) (auto split: list.splits)

lemma pieces_no_sep [text_simps]: "c \<notin> set s \<Longrightarrow> pieces c s = [s]"
  by (induction s) auto

lemma pieces_append_sep [text_simps]: "c \<notin> set p \<Longrightarrow> pieces c (p @ c # s) = p # pieces c s"
  by (induction p) auto

lemma sep_not_in_pieces: "p \<in> set (pieces c s) \<Longrightarrow> c \<notin> set p"
proof (induction s arbitrary: p)
  case Nil
  then show ?case by simp
next
  case (Cons x xs)
  then show ?case by (auto split: if_splits list.splits)
qed

lemma cut_no_sep [text_simps]: "c \<notin> set s \<Longrightarrow> cut c s = (s, None)"
  by (induction s) auto

lemma cut_append_sep [text_simps]: "c \<notin> set p \<Longrightarrow> cut c (p @ c # s) = (p, Some s)"
  by (induction p) auto

lemma cut_SomeD: "cut c s = (p, Some r) \<Longrightarrow> s = p @ c # r \<and> c \<notin> set p"
  by (induction s arbitrary: p) (auto split: if_splits prod.splits)

lemma cut_NoneD: "cut c s = (p, None) \<Longrightarrow> p = s \<and> c \<notin> set s"
  by (induction s arbitrary: p) (auto split: if_splits prod.splits)

lemma rcut_append_sep [text_simps]: "c \<notin> set s \<Longrightarrow> rcut c (p @ c # s) = Some (p, s)"
  using cut_append_sep [of c "rev s" "rev p"] by (simp add: rcut_def)

lemma digits_no_sep: "\<not> isdigit c \<Longrightarrow> c \<notin> set (to_string n)"
  by (auto dest: to_string_digits)

lemma not_isdigit_sep [simp]:
  "\<not> isdigit (CHR ''.'')" "\<not> isdigit (CHR '':'')" "\<not> isdigit (CHR ''/'')" "\<not> isdigit (CHR '','')"
  by (simp_all add: isdigit_def)

lemma sep_not_in_to_string [simp]:
  "CHR ''.'' \<notin> set (to_string n)" "CHR '':'' \<notin> set (to_string n)"
  "CHR ''/'' \<notin> set (to_string n)" "CHR '','' \<notin> set (to_string n)"
  by (rule digits_no_sep; simp)+

section \<open>Trimming\<close>

text \<open>White space removed at both ends, as several sources do by hand.\<close>

definition trim :: "string \<Rightarrow> string" where
  "trim s = rev (dropWhile isspace (rev (dropWhile isspace s)))"

lemma dropWhile_id: "s \<noteq> [] \<Longrightarrow> \<not> P (hd s) \<Longrightarrow> dropWhile P s = s"
  by (cases s) auto

lemma trim_id: "s \<noteq> [] \<Longrightarrow> \<not> isspace (hd s) \<Longrightarrow> \<not> isspace (last s) \<Longrightarrow> trim s = s"
  using dropWhile_id [of s isspace] dropWhile_id [of "rev s" isspace] by (simp add: trim_def hd_rev)

end
