(* ===== verification/Interfaces.thy ===== *)
theory Interfaces
  imports Prelude
begin

text \<open>
  The interfaces the components share, as locales.

  \<^item> \<open>stream_decoder\<close>: a reassembly buffer with \<open>append\<close> and \<open>take\<close> over a length-prefixed
    frame encoding.  The sources have four of them (\<open>DerpFrameDecoder\<close>, \<open>DerpCodec\<close>,
    \<open>Http2FrameDecoder\<close>, \<open>MapFrameDecoder\<close>); what a client relies on, that the frames come out whole and in order
    however the transport cuts the byte stream, is proved here once.
  \<^item> \<open>normalizer\<close>: a function that forces a value into its valid range and leaves valid values
    alone, the contract of the clamping and sanitising functions of the settings layer.
\<close>

section \<open>Stream decoders\<close>

text \<open>
  The way every client uses a decoder: append a chunk as it arrives, then take frames until
  there is none.  The fuel of \<open>drain\<close> is the number of buffered bytes, and every frame
  occupies at least one.
\<close>

fun drain :: "('s \<Rightarrow> 'f option \<times> 's) \<Rightarrow> nat \<Rightarrow> 's \<Rightarrow> 'f list \<times> 's" where
  "drain tk 0 s = ([], s)"
| "drain tk (Suc n) s =
     (case tk s of
        (None, s') \<Rightarrow> ([], s')
      | (Some f, s') \<Rightarrow> (case drain tk n s' of (fs, s'') \<Rightarrow> (f # fs, s'')))"

fun feed :: "('s \<Rightarrow> bytes) \<Rightarrow> ('s \<Rightarrow> bytes \<Rightarrow> 's option) \<Rightarrow> ('s \<Rightarrow> 'f option \<times> 's) \<Rightarrow>
    's \<Rightarrow> bytes list \<Rightarrow> ('f list \<times> 's) option" where
  "feed bf app tk s [] = Some ([], s)"
| "feed bf app tk s (c # cs) =
     (case app s c of
        None \<Rightarrow> None
      | Some s1 \<Rightarrow>
          (case drain tk (Suc (length (bf s1))) s1 of
             (fs, s2) \<Rightarrow> (case feed bf app tk s2 cs of None \<Rightarrow> None | Some (gs, s3) \<Rightarrow> Some (fs @ gs, s3))))"

locale stream_decoder =
  fixes bf :: "'s \<Rightarrow> bytes"
    and app :: "'s \<Rightarrow> bytes \<Rightarrow> 's option"
    and tk :: "'s \<Rightarrow> 'f option \<times> 's"
    and enc :: "'f \<Rightarrow> bytes"
    and fits :: "'f \<Rightarrow> bool"
    and limit :: nat
  assumes app_fits: "length (bf s) + length c \<le> limit \<Longrightarrow> \<exists>s'. app s c = Some s' \<and> bf s' = bf s @ c"
    and app_refuses: "limit < length (bf s) + length c \<Longrightarrow> app s c = None"
    and tk_complete: "fits f \<Longrightarrow> bf s = enc f @ rest \<Longrightarrow> \<exists>s'. tk s = (Some f, s') \<and> bf s' = rest"
    and tk_partial: "fits f \<Longrightarrow> enc f = bf s @ q \<Longrightarrow> q \<noteq> [] \<Longrightarrow> tk s = (None, s)"
    and tk_empty: "bf s = [] \<Longrightarrow> tk s = (None, s)"
    and enc_not_Nil: "fits f \<Longrightarrow> enc f \<noteq> []"
begin

lemma enc_inj:
  assumes "fits f" "fits g" "enc f @ r = enc g @ r'" "bf s = enc f @ r"
  shows "f = g \<and> r = r'"
proof -
  from tk_complete [OF assms(1,4)] obtain s1 where s1: "tk s = (Some f, s1)" "bf s1 = r"
    by blast
  from tk_complete [OF assms(2), of s r'] assms(3,4) obtain s2
    where "tk s = (Some g, s2)" "bf s2 = r'" by auto
  with s1 show ?thesis by simp
qed

text \<open>The buffer after a chunk: whole frames, then the beginning of the next one.\<close>

lemma split_prefix:
  assumes "\<forall>f \<in> set fs. fits f" and "b @ r = concat (map enc fs)"
  shows "\<exists>gs hs p. fs = gs @ hs \<and> b = concat (map enc gs) @ p \<and> p @ r = concat (map enc hs)
    \<and> (p \<noteq> [] \<longrightarrow> (\<exists>h hs' q. hs = h # hs' \<and> enc h = p @ q \<and> q \<noteq> []))"
  using assms
proof (induction fs arbitrary: b)
  case Nil
  then show ?case by simp
next
  case (Cons f fs)
  from Cons.prems(2) have eq: "b @ r = enc f @ concat (map enc fs)" by simp
  show ?case
  proof (cases "length (enc f) \<le> length b")
    case True
    then obtain b' where b': "b = enc f @ b'"
      using eq by (metis append_eq_append_conv_if append_take_drop_id)
    with eq have "b' @ r = concat (map enc fs)" by simp
    from Cons.IH [OF _ this] Cons.prems(1) obtain gs hs p
      where "fs = gs @ hs" "b' = concat (map enc gs) @ p" "p @ r = concat (map enc hs)"
        "p \<noteq> [] \<longrightarrow> (\<exists>h hs' q. hs = h # hs' \<and> enc h = p @ q \<and> q \<noteq> [])"
      by auto
    with b' show ?thesis by (intro exI [of _ "f # gs"] exI [of _ hs] exI [of _ p]) simp
  next
    case False
    then have short: "length b < length (enc f)" by simp
    then obtain q where q: "enc f = b @ q"
      using eq by (auto simp: append_eq_append_conv2 dest: sym)
    with short have "q \<noteq> []" by auto
    with q eq Cons.prems(2) show ?thesis
      by (intro exI [of _ "[]"] exI [of _ "f # fs"] exI [of _ b]) auto
  qed
qed

lemma drain_frames:
  assumes "\<forall>f \<in> set gs. fits f" and "bf s = concat (map enc gs) @ p" and "length gs < n"
    and "p \<noteq> [] \<longrightarrow> (\<exists>h q. fits h \<and> enc h = p @ q \<and> q \<noteq> [])"
  shows "\<exists>s'. drain tk n s = (gs, s') \<and> bf s' = p"
  using assms
proof (induction gs arbitrary: s n)
  case Nil
  then obtain m where n: "n = Suc m" by (cases n) auto
  have "tk s = (None, s)"
  proof (cases "p = []")
    case True
    with Nil show ?thesis by (simp add: tk_empty)
  next
    case False
    with Nil tk_partial show ?thesis by fastforce
  qed
  with n Nil show ?case by simp
next
  case (Cons g gs)
  then obtain m where n: "n = Suc m" "length gs < m" by (cases n) auto
  from Cons.prems tk_complete [of g s "concat (map enc gs) @ p"]
  obtain s1 where s1: "tk s = (Some g, s1)" "bf s1 = concat (map enc gs) @ p" by auto
  from Cons.IH [OF _ s1(2) n(2)] Cons.prems obtain s'
    where "drain tk m s1 = (gs, s')" "bf s' = p" by auto
  with s1 n show ?case by simp
qed

lemma length_le_concat: "\<forall>f \<in> set gs. fits f \<Longrightarrow> length gs \<le> length (concat (map enc gs))"
proof (induction gs)
  case Nil
  then show ?case by simp
next
  case (Cons g gs)
  moreover from Cons.prems have "enc g \<noteq> []" by (simp add: enc_not_Nil)
  then have "1 \<le> length (enc g)" by (cases "enc g") auto
  ultimately show ?case by simp
qed

text \<open>
  Reassembly: whatever the chunks, as long as a chunk fits beside an incomplete frame, the
  decoder refuses nothing, delivers exactly the frames of the stream in order and is empty
  afterwards.
\<close>

definition begins :: "bytes \<Rightarrow> 'f list \<Rightarrow> bool" where
  "begins p fs = (p \<noteq> [] \<longrightarrow> (\<exists>h hs q. fs = h # hs \<and> enc h = p @ q \<and> q \<noteq> []))"

lemma feed_frames_aux:
  assumes "\<forall>f \<in> set fs. fits f \<and> length (enc f) \<le> big"
    and "\<forall>c \<in> set cs. length c + big \<le> Suc limit"
    and "bf s @ concat cs = concat (map enc fs)"
    and "begins (bf s) fs" and "0 < big"
  shows "\<exists>s'. feed bf app tk s cs = Some (fs, s') \<and> bf s' = []"
  using assms
proof (induction cs arbitrary: s fs)
  case Nil
  have empty: "bf s = []"
  proof (rule ccontr)
    assume "bf s \<noteq> []"
    with Nil.prems(4) obtain h hs q where "fs = h # hs" "enc h = bf s @ q" "q \<noteq> []"
      by (auto simp: begins_def)
    with Nil.prems(3) show False by simp
  qed
  with Nil.prems have "fs = []" using enc_not_Nil by (cases fs) auto
  with empty show ?case by simp
next
  case (Cons c cs)
  have "length (bf s) < big"
  proof (cases "bf s = []")
    case False
    with Cons.prems(4) obtain h hs q where "fs = h # hs" "enc h = bf s @ q" "q \<noteq> []"
      by (auto simp: begins_def)
    with Cons.prems(1) show ?thesis by (cases q) auto
  qed (simp add: Cons.prems(5))
  with Cons.prems(2) have "length (bf s) + length c \<le> limit" by fastforce
  then obtain s1 where s1: "app s c = Some s1" "bf s1 = bf s @ c" using app_fits by blast
  from Cons.prems(3) have "(bf s @ c) @ concat cs = concat (map enc fs)" by simp
  from split_prefix [OF _ this] Cons.prems(1) obtain gs hs p
    where fs: "fs = gs @ hs" and b1: "bf s @ c = concat (map enc gs) @ p"
      and rest: "p @ concat cs = concat (map enc hs)"
      and part: "p \<noteq> [] \<longrightarrow> (\<exists>h hs' q. hs = h # hs' \<and> enc h = p @ q \<and> q \<noteq> [])"
    by auto
  have gs: "\<forall>f \<in> set gs. fits f" using Cons.prems(1) fs by auto
  have enough: "length gs < Suc (length (bf s1))"
    using length_le_concat [OF gs] b1 s1(2) by simp
  have open_frame: "p \<noteq> [] \<longrightarrow> (\<exists>h q. fits h \<and> enc h = p @ q \<and> q \<noteq> [])"
    using part fs Cons.prems(1) by fastforce
  have "bf s1 = concat (map enc gs) @ p" using s1(2) b1 by simp
  from drain_frames [OF gs this enough open_frame]
  obtain s2 where s2: "drain tk (Suc (length (bf s1))) s1 = (gs, s2)" "bf s2 = p" by blast
  from Cons.IH [of hs s2] Cons.prems fs rest part s2(2) obtain s3
    where "feed bf app tk s2 cs = Some (hs, s3)" "bf s3 = []" by (auto simp: begins_def)
  with s1(1) s2(1) fs show ?case by simp
qed

lemma feed_frames:
  assumes "\<forall>f \<in> set fs. fits f \<and> length (enc f) \<le> big"
    and "\<forall>c \<in> set cs. length c + big \<le> Suc limit"
    and "concat cs = concat (map enc fs)" and "bf s = []" and "0 < big"
  shows "\<exists>s'. feed bf app tk s cs = Some (fs, s') \<and> bf s' = []"
  using feed_frames_aux [of fs big cs s] assms by (simp add: begins_def)

end

section \<open>Normalising functions\<close>

locale normalizer =
  fixes norm :: "'a \<Rightarrow> 'a" and ok :: "'a \<Rightarrow> bool"
  assumes norm_ok: "ok (norm x)"
    and norm_id: "ok x \<Longrightarrow> norm x = x"
begin

lemma norm_idem: "norm (norm x) = norm x"
  by (simp add: norm_id norm_ok)

lemma norm_fixpoint_iff: "norm x = x \<longleftrightarrow> ok x"
  using norm_ok [of x] norm_id [of x] by auto

lemma range_norm: "range norm = Collect ok"
  using norm_ok norm_id by (auto simp: image_iff) metis

end

end
