(* ===== verification/TailscaleProtocol.thy ===== *)
theory TailscaleProtocol
  imports Interfaces
begin

text \<open>
  Model of \<open>app/src/remote_access/tailscale/TailscaleProtocol.hpp\<close> and \<open>.cpp\<close>: the DERP frame
  decoder and encoder with a 64 KiB payload limit, the STUN binding request and response, and the
  cleartext Disco payload.  A function that reports through \<open>std::string* error\<close> returns the
  message beside its result.
\<close>

section \<open>Data\<close>

record DerpFrame =
  df_type :: u8
  df_payload :: bytes

record DerpFrameDecoder =
  dfd_buffer :: bytes

record StunEndpoint =
  se_address :: string
  se_port :: u16

text \<open>\<open>DiscoType\<close> has an underlying byte, and \<open>static_cast\<close> can make values without a name.\<close>

datatype DiscoType = Ping | Pong | CallMeMaybe | OtherType u8

record DiscoMessage =
  dm_type :: DiscoType
  dm_version :: u8
  dm_transaction :: bytes
  dm_nodeKey :: bytes
  dm_hasNodeKey :: bool

definition kMaxPayload :: nat where
  "kMaxPayload = 64 * 1024"

definition kStunCookie :: u32 where
  "kStunCookie = 0x2112A442"

definition kDiscoMagic :: bytes where
  "kDiscoMagic = [0x54, 0x53, 0xf0, 0x9f, 0x92, 0xac]"

section \<open>Big-endian reads and writes\<close>

definition read16 :: "bytes \<Rightarrow> nat \<Rightarrow> u16 option" where
  "read16 bs i = do {
     a \<leftarrow> rd8 bs i;
     b \<leftarrow> rd8 bs (i + 1);
     Some (of_be16 a b)
   }"

definition read32 :: "bytes \<Rightarrow> nat \<Rightarrow> u32 option" where
  "read32 bs i = do {
     a \<leftarrow> rd8 bs i;
     b \<leftarrow> rd8 bs (i + 1);
     c \<leftarrow> rd8 bs (i + 2);
     d \<leftarrow> rd8 bs (i + 3);
     Some (of_be32 a b c d)
   }"

definition append32 :: "bytes \<Rightarrow> u32 \<Rightarrow> bytes" where
  "append32 out v = out @ be32 v"

section \<open>DERP frames\<close>

definition DerpFrameDecoder_reset :: "DerpFrameDecoder \<Rightarrow> DerpFrameDecoder" where
  "DerpFrameDecoder_reset d = d\<lparr>dfd_buffer := []\<rparr>"

text \<open>The first component is the error message; \<open>None\<close> is \<open>return true\<close>.\<close>

definition DerpFrameDecoder_append ::
    "DerpFrameDecoder \<Rightarrow> bytes \<Rightarrow> string option \<times> DerpFrameDecoder" where
  "DerpFrameDecoder_append d bs =
     (if length bs > kMaxPayload + 5 \<or> length (dfd_buffer d) > kMaxPayload + 5 - length bs
      then (Some ''DERP receive buffer limit exceeded'', DerpFrameDecoder_reset d)
      else (None, d\<lparr>dfd_buffer := dfd_buffer d @ bs\<rparr>))"

definition DerpFrameDecoder_take ::
    "DerpFrameDecoder \<Rightarrow> ((string + DerpFrame option) \<times> DerpFrameDecoder) option" where
  "DerpFrameDecoder_take d =
     (if length (dfd_buffer d) < 5 then Some (Inr None, d)
      else do {
        payloadSize \<leftarrow> read32 (dfd_buffer d) 1;
        if unat payloadSize > kMaxPayload
        then Some (Inl ''DERP frame is oversized'', DerpFrameDecoder_reset d)
        else let frameSize = unat payloadSize + 5 in
          if length (dfd_buffer d) < frameSize then Some (Inr None, d)
          else do {
            ty \<leftarrow> rd8 (dfd_buffer d) 0;
            payload \<leftarrow> rd_span (dfd_buffer d) 5 (frameSize - 5);
            Some (Inr (Some \<lparr>df_type = ty, df_payload = payload\<rparr>),
                  d\<lparr>dfd_buffer := drop frameSize (dfd_buffer d)\<rparr>)
          }
      })"

definition encodeDerpFrame :: "u8 \<Rightarrow> bytes \<Rightarrow> bytes" where
  "encodeDerpFrame ty payload =
     (if length payload > kMaxPayload then []
      else append32 [ty] (word_of_nat (length payload)) @ payload)"

section \<open>STUN\<close>

definition makeStunBindingRequest :: "bytes \<Rightarrow> bytes" where
  "makeStunBindingRequest tx =
     [0x00, 0x01, 0x00, 0x00, 0x21, 0x12, 0xa4, 0x42] @ tx"

definition dotted_quad :: "u32 \<Rightarrow> string" where
  "dotted_quad a =
     to_string (unat (drop_bit 24 a AND 0xff)) @ ''.'' @
     to_string (unat (drop_bit 16 a AND 0xff)) @ ''.'' @
     to_string (unat (drop_bit 8 a AND 0xff)) @ ''.'' @
     to_string (unat (a AND 0xff))"

text \<open>\<open>(n + 3U) & ~std::size_t{3U}\<close>.\<close>

definition padded4 :: "nat \<Rightarrow> nat" where
  "padded4 n = (n + 3) div 4 * 4"

function stun_attributes :: "bytes \<Rightarrow> nat \<Rightarrow> nat \<Rightarrow> (string + StunEndpoint) option" where
  "stun_attributes packet fin off =
     (if off + 4 \<le> fin then do {
        ty \<leftarrow> read16 packet off;
        len \<leftarrow> read16 packet (off + 2);
        if off + 4 + unat len > fin then Some (Inl ''truncated STUN attribute'')
        else do {
          ipv4 \<leftarrow> (if ty = 0x0020 \<and> unat len = 8 then do { fam \<leftarrow> rd8 packet (off + 5); Some (fam = 0x01) }
                  else Some False);
          if ipv4 then do {
            port \<leftarrow> read16 packet (off + 6);
            address \<leftarrow> read32 packet (off + 8);
            Some (Inr \<lparr>se_address = dotted_quad (address XOR kStunCookie),
                       se_port = port XOR ucast (drop_bit 16 kStunCookie)\<rparr>)
          }
          else if padded4 (unat len) > fin - (off + 4)
          then Some (Inl ''truncated STUN attribute padding'')
          else stun_attributes packet fin (off + 4 + padded4 (unat len))
        }
      }
      else Some (Inl ''STUN response has no IPv4 XOR-MAPPED-ADDRESS''))"
  by pat_completeness auto
termination
  by (relation "measure (\<lambda>(packet, fin, off). fin - off)") auto

declare stun_attributes.simps [simp del]

text \<open>Short-circuit evaluation: the reads behind \<open>||\<close> happen only when the operands before are false.\<close>

definition parseStunBindingResponse :: "bytes \<Rightarrow> bytes \<Rightarrow> (string + StunEndpoint) option" where
  "parseStunBindingResponse packet tx = do {
     invalid \<leftarrow> (if length packet < 20 then Some True
                 else do {
                   ty \<leftarrow> read16 packet 0;
                   if ty \<noteq> 0x0101 then Some True
                   else do { cookie \<leftarrow> read32 packet 4; Some (cookie \<noteq> kStunCookie) }
                 });
     if invalid then Some (Inl ''invalid STUN binding response'')
     else do {
       got \<leftarrow> rd_span packet 8 (length tx);
       if got \<noteq> tx then Some (Inl ''STUN transaction mismatch'')
       else do {
         messageLength \<leftarrow> read16 packet 2;
         if messageLength AND 3 \<noteq> 0 \<or> unat messageLength > length packet - 20
         then Some (Inl ''truncated STUN response'')
         else stun_attributes packet (20 + unat messageLength) 20
       }
     }
   }"

section \<open>Cleartext Disco payloads\<close>

definition discoTypeByte :: "DiscoType \<Rightarrow> u8" where
  "discoTypeByte t = (case t of Ping \<Rightarrow> 1 | Pong \<Rightarrow> 2 | CallMeMaybe \<Rightarrow> 3 | OtherType b \<Rightarrow> b)"

definition discoTypeOf :: "u8 \<Rightarrow> DiscoType" where
  "discoTypeOf b = (if b = 1 then Ping else if b = 2 then Pong else if b = 3 then CallMeMaybe
     else OtherType b)"

definition looksLikeDiscoWrapper :: "bytes \<Rightarrow> bool" where
  "looksLikeDiscoWrapper packet =
     (length packet \<ge> length kDiscoMagic + 32 + 24 \<and> take (length kDiscoMagic) packet = kDiscoMagic)"

definition zeroKey :: bytes where
  "zeroKey = replicate 32 0"

definition parseDiscoPayload :: "bytes \<Rightarrow> (string + DiscoMessage) option" where
  "parseDiscoPayload payload =
     (if length payload < 14 then Some (Inl ''short Disco payload'')
      else do {
        t \<leftarrow> rd8 payload 0;
        v \<leftarrow> rd8 payload 1;
        if v \<noteq> 0 \<or> (discoTypeOf t \<noteq> Ping \<and> discoTypeOf t \<noteq> Pong)
        then Some (Inl ''unsupported Disco message'')
        else do {
          tx \<leftarrow> rd_span payload 2 12;
          if discoTypeOf t = Ping \<and> length payload \<ge> 46 then do {
            k \<leftarrow> rd_span payload 14 32;
            Some (Inr \<lparr>dm_type = discoTypeOf t, dm_version = v, dm_transaction = tx,
                       dm_nodeKey = k, dm_hasNodeKey = True\<rparr>)
          }
          else Some (Inr \<lparr>dm_type = discoTypeOf t, dm_version = v, dm_transaction = tx,
                          dm_nodeKey = zeroKey, dm_hasNodeKey = False\<rparr>)
        }
      })"

definition encodeDiscoPayload :: "DiscoMessage \<Rightarrow> bytes" where
  "encodeDiscoPayload m =
     [discoTypeByte (dm_type m), dm_version m] @ dm_transaction m @
     (if dm_type m = Ping \<and> dm_hasNodeKey m then dm_nodeKey m else [])"

section \<open>Reads stay inside the packet\<close>

lemma read16_inside [wire_simps]:
  "i + 2 \<le> length bs \<Longrightarrow> read16 bs i = Some (of_be16 (bs ! i) (bs ! (i + 1)))"
  by (simp add: read16_def rd8_def)

lemma read32_inside [wire_simps]:
  "i + 4 \<le> length bs \<Longrightarrow>
   read32 bs i = Some (of_be32 (bs ! i) (bs ! (i + 1)) (bs ! (i + 2)) (bs ! (i + 3)))"
  by (simp add: read32_def rd8_def)

lemma stun_attributes_safe:
  assumes "fin \<le> length packet"
  shows "\<exists>r. stun_attributes packet fin off = Some r"
proof (induction "fin - off" arbitrary: off rule: less_induct)
  case less
  show ?case
  proof (cases "off + 4 \<le> fin")
    case True
    then have "\<exists>r. stun_attributes packet fin (off + 4 + n) = Some r" for n
      by (intro less) simp
    with True assms show ?thesis
      by (subst stun_attributes.simps) (auto simp: wire_simps rd8_inside)
  next
    case False
    then show ?thesis by (subst stun_attributes.simps) simp
  qed
qed

text \<open>
  Whatever bytes arrive, parsing a STUN binding response reads only inside the packet: the
  parser returns an endpoint or an error message, for every packet and every 12-byte transaction.
\<close>

theorem parseStunBindingResponse_safe:
  assumes "length tx = 12"
  shows "\<exists>r. parseStunBindingResponse packet tx = Some r"
proof (cases "length packet < 20")
  case True
  then show ?thesis by (simp add: parseStunBindingResponse_def)
next
  case False
  then have rest: "\<exists>r. stun_attributes packet (20 + n) 20 = Some r" if "\<not> length packet - 20 < n" for n
    using that by (intro stun_attributes_safe) simp
  show ?thesis
    using False assms by (auto simp: parseStunBindingResponse_def wire_simps rd_span_inside rest)
qed

theorem parseStunBindingResponse_safe_witness:
  "length (replicate 12 (0::u8)) = 12 \<and>
   (\<exists>r. parseStunBindingResponse (replicate 19 (255::u8)) (replicate 12 0) = Some r)"
  using parseStunBindingResponse_safe [of "replicate 12 0" "replicate 19 255"] by simp

section \<open>The DERP frame decoder\<close>

lemma DerpFrameDecoder_append_iff [simp]:
  "DerpFrameDecoder_append d bs =
     (if length (dfd_buffer d) + length bs \<le> kMaxPayload + 5
      then (None, d\<lparr>dfd_buffer := dfd_buffer d @ bs\<rparr>)
      else (Some ''DERP receive buffer limit exceeded'', DerpFrameDecoder_reset d))"
  by (auto simp: DerpFrameDecoder_append_def)

definition decoder_append :: "DerpFrameDecoder \<Rightarrow> bytes \<Rightarrow> DerpFrameDecoder option" where
  "decoder_append d bs =
     (case DerpFrameDecoder_append d bs of (None, d') \<Rightarrow> Some d' | (Some e, d') \<Rightarrow> None)"

definition decoder_take :: "DerpFrameDecoder \<Rightarrow> DerpFrame option \<times> DerpFrameDecoder" where
  "decoder_take d =
     (case DerpFrameDecoder_take d of
        Some (Inr r, d') \<Rightarrow> (r, d') | Some (Inl e, d') \<Rightarrow> (None, d') | None \<Rightarrow> (None, d))"

definition frame_bytes :: "DerpFrame \<Rightarrow> bytes" where
  "frame_bytes f = encodeDerpFrame (df_type f) (df_payload f)"

lemma frame_bytes_eq:
  "length (df_payload f) \<le> kMaxPayload \<Longrightarrow>
   frame_bytes f = df_type f # be32 (word_of_nat (length (df_payload f))) @ df_payload f"
  by (simp add: frame_bytes_def encodeDerpFrame_def append32_def)

lemma unat_payload_length:
  "n \<le> kMaxPayload \<Longrightarrow> unat (word_of_nat n :: u32) = n"
  by (simp add: unat_word_of_nat_u32 kMaxPayload_def)

lemma derp_take_header:
  assumes "dfd_buffer d = t # be32 v @ rest"
  shows "DerpFrameDecoder_take d =
    (if unat v > kMaxPayload then Some (Inl ''DERP frame is oversized'', DerpFrameDecoder_reset d)
     else if length rest < unat v then Some (Inr None, d)
     else Some (Inr (Some \<lparr>df_type = t, df_payload = take (unat v) rest\<rparr>),
                d\<lparr>dfd_buffer := drop (unat v) rest\<rparr>))"
proof -
  have "read32 (dfd_buffer d) 1 = Some v"
    using assms by (simp add: read32_def rd8_def be32_def of_be32_be32 nth_Cons')
  moreover have "drop (unat v + 5) (dfd_buffer d) = drop (unat v) rest"
    using assms by (simp add: be32_def flip: drop_drop)
  ultimately show ?thesis
    using assms by (simp add: DerpFrameDecoder_take_def rd8_def rd_span_def Let_def)
qed

lemma derp_take_partial:
  assumes "length (df_payload f) \<le> kMaxPayload" "frame_bytes f = dfd_buffer d @ q" "q \<noteq> []"
  shows "decoder_take d = (None, d)"
proof (cases "length (dfd_buffer d) < 5")
  case True
  then show ?thesis by (simp add: decoder_take_def DerpFrameDecoder_take_def)
next
  case False
  let ?h = "df_type f # be32 (word_of_nat (length (df_payload f)))"
  from assms have eq: "?h @ df_payload f = dfd_buffer d @ q" by (simp add: frame_bytes_eq)
  moreover from False have "length ?h \<le> length (dfd_buffer d)" by simp
  ultimately obtain rest where rest: "dfd_buffer d = ?h @ rest" "df_payload f = rest @ q"
    by (rule header_split)
  then have "length rest < length (df_payload f)" using assms(3) by simp
  with rest(1) assms(1) show ?thesis
    using derp_take_header [of d "df_type f" "word_of_nat (length (df_payload f))" rest]
    by (simp add: decoder_take_def unat_payload_length)
qed

interpretation derp_decoder: stream_decoder dfd_buffer decoder_append decoder_take frame_bytes
  "\<lambda>f. length (df_payload f) \<le> kMaxPayload" "kMaxPayload + 5"
proof unfold_locales
  fix f and d :: DerpFrameDecoder and rest
  assume "length (df_payload f) \<le> kMaxPayload" "dfd_buffer d = frame_bytes f @ rest"
  then show "\<exists>d'. decoder_take d = (Some f, d') \<and> dfd_buffer d' = rest"
    using derp_take_header [of d "df_type f" "word_of_nat (length (df_payload f))" "df_payload f @ rest"]
    by (simp add: decoder_take_def frame_bytes_eq unat_payload_length)
next
  fix f and d :: DerpFrameDecoder and q
  assume "length (df_payload f) \<le> kMaxPayload" "frame_bytes f = dfd_buffer d @ q" "q \<noteq> []"
  then show "decoder_take d = (None, d)" by (rule derp_take_partial)
qed (auto simp: decoder_append_def frame_bytes_eq decoder_take_def DerpFrameDecoder_take_def)

text \<open>
  However the transport cuts a DERP byte stream into chunks, the decoder hands back exactly
  the frames that were encoded, in order, and ends with an empty buffer, provided no chunk plus
  payload exceeds the receive limit.
\<close>

theorem DerpFrameDecoder_reassembles:
  assumes "\<forall>f \<in> set fs. length (df_payload f) \<le> p" and "\<forall>c \<in> set cs. length c \<le> k"
    and "p + k \<le> kMaxPayload + 1" and "0 < k"
    and "concat cs = concat (map (\<lambda>f. encodeDerpFrame (df_type f) (df_payload f)) fs)"
  shows "feed dfd_buffer decoder_append decoder_take \<lparr>dfd_buffer = []\<rparr> cs = Some (fs, \<lparr>dfd_buffer = []\<rparr>)"
proof -
  have "length (df_payload f) \<le> kMaxPayload \<and> length (frame_bytes f) \<le> p + 5"
    if "f \<in> set fs" for f
    using that assms(1,3,4) frame_bytes_eq [of f] by fastforce
  moreover have "\<forall>c \<in> set cs. length c + (p + 5) \<le> Suc (kMaxPayload + 5)"
    using assms(2,3) by fastforce
  moreover have "concat cs = concat (map frame_bytes fs)"
    using assms(5) by (simp add: frame_bytes_def [abs_def])
  ultimately obtain d where
    "feed dfd_buffer decoder_append decoder_take \<lparr>dfd_buffer = []\<rparr> cs = Some (fs, d)" "dfd_buffer d = []"
    using derp_decoder.feed_frames [of fs "p + 5" cs "\<lparr>dfd_buffer = []\<rparr>"] by auto
  then show ?thesis by simp
qed

theorem DerpFrameDecoder_reassembles_witness:
  "feed dfd_buffer decoder_append decoder_take \<lparr>dfd_buffer = []\<rparr>
     [[4, 0, 0], [0, 1, 7, 6, 0, 0], [0, 0]] =
   Some ([\<lparr>df_type = 4, df_payload = [7]\<rparr>, \<lparr>df_type = 6, df_payload = []\<rparr>], \<lparr>dfd_buffer = []\<rparr>)"
proof -
  have "concat [[4, 0, 0], [0, 1, 7, 6, 0, 0], [0, 0]] =
    concat (map (\<lambda>f. encodeDerpFrame (df_type f) (df_payload f))
      [\<lparr>df_type = 4, df_payload = [7]\<rparr>, \<lparr>df_type = 6, df_payload = []\<rparr>])"
    by (simp add: encodeDerpFrame_def append32_def be32_def kMaxPayload_def)
  from DerpFrameDecoder_reassembles [OF _ _ _ _ this, of 1 6] show ?thesis
    by (simp add: kMaxPayload_def)
qed

section \<open>Round trip of the cleartext Disco payload\<close>

lemma discoType_inverse [simp]: "discoTypeOf 1 = Ping" "discoTypeOf 2 = Pong"
  by (simp_all add: discoTypeOf_def)

text \<open>
  A version 0 ping or pong survives encoding and parsing; a ping keeps its node key when it
  carries one.
\<close>

theorem parseDiscoPayload_encode:
  assumes "dm_type m = Ping \<or> dm_type m = Pong" and "dm_version m = 0"
    and "length (dm_transaction m) = 12" and "length (dm_nodeKey m) = 32"
  shows "parseDiscoPayload (encodeDiscoPayload m) =
    Some (Inr (m\<lparr>dm_nodeKey := if dm_type m = Ping \<and> dm_hasNodeKey m then dm_nodeKey m else zeroKey,
                 dm_hasNodeKey := dm_type m = Ping \<and> dm_hasNodeKey m\<rparr>))"
  using assms by (auto simp: parseDiscoPayload_def encodeDiscoPayload_def discoTypeByte_def
      rd8_def rd_span_def)

theorem parseDiscoPayload_encode_witness:
  "parseDiscoPayload (encodeDiscoPayload \<lparr>dm_type = Ping, dm_version = 0,
      dm_transaction = replicate 12 9, dm_nodeKey = replicate 32 7, dm_hasNodeKey = True\<rparr>) =
   Some (Inr \<lparr>dm_type = Ping, dm_version = 0, dm_transaction = replicate 12 9,
      dm_nodeKey = replicate 32 7, dm_hasNodeKey = True\<rparr>)"
  using parseDiscoPayload_encode [of "\<lparr>dm_type = Ping, dm_version = 0,
      dm_transaction = replicate 12 9, dm_nodeKey = replicate 32 7, dm_hasNodeKey = True\<rparr>"]
  by simp

end
