(* ===== verification/TailscaleHttp2.thy ===== *)
theory TailscaleHttp2
  imports Interfaces
begin

text \<open>
  Model of \<open>app/src/remote_access/tailscale/TailscaleHttp2.hpp\<close> and \<open>.cpp\<close>: the frame builders of
  the single-stream HTTP/2 control client, its frame decoder, and the receive-window bookkeeping.
\<close>

section \<open>Data\<close>

record Http2Frame =
  h2_length :: u32
  h2_type :: u8
  h2_flags :: u8
  h2_streamId :: u32
  h2_payload :: bytes

record Http2ReceiveWindow =
  rw_size :: u32
  rw_unacknowledged :: u64

record Http2FrameDecoder =
  h2_buffer :: bytes

definition kHttp2DefaultWindow :: u32 where
  "kHttp2DefaultWindow = 65535"

definition kHttp2ClientStreamWindow :: u32 where
  "kHttp2ClientStreamWindow = 4 * 1024 * 1024"

definition kHttp2ClientConnectionWindow :: u32 where
  "kHttp2ClientConnectionWindow = 16 * 1024 * 1024"

definition kHttp2HeaderLen :: nat where
  "kHttp2HeaderLen = 9"

definition kMaxFrameSize :: nat where
  "kMaxFrameSize = 1024 * 1024"

section \<open>Integers on the wire\<close>

definition write24 :: "bytes \<Rightarrow> u32 \<Rightarrow> bytes" where
  "write24 out v =
     out @ [ucast (drop_bit 16 v AND 0xff), ucast (drop_bit 8 v AND 0xff), ucast (v AND 0xff)]"

definition write32 :: "bytes \<Rightarrow> u32 \<Rightarrow> bytes" where
  "write32 out v =
     out @ [ucast (drop_bit 24 v AND 0xff), ucast (drop_bit 16 v AND 0xff),
            ucast (drop_bit 8 v AND 0xff), ucast (v AND 0xff)]"

definition read24 :: "bytes \<Rightarrow> nat \<Rightarrow> u32 option" where
  "read24 p i = do {
     a \<leftarrow> rd8 p i;
     b \<leftarrow> rd8 p (i + 1);
     c \<leftarrow> rd8 p (i + 2);
     Some (push_bit 16 (ucast a) OR push_bit 8 (ucast b) OR ucast c)
   }"

text \<open>The reserved top bit of a stream identifier is dropped.\<close>

definition read32 :: "bytes \<Rightarrow> nat \<Rightarrow> u32 option" where
  "read32 p i = do {
     a \<leftarrow> rd8 p i;
     b \<leftarrow> rd8 p (i + 1);
     c \<leftarrow> rd8 p (i + 2);
     d \<leftarrow> rd8 p (i + 3);
     Some (push_bit 24 (ucast a AND 0x7f) OR push_bit 16 (ucast b) OR push_bit 8 (ucast c) OR ucast d)
   }"

section \<open>Frame builders\<close>

definition buildHttp2WindowUpdate :: "u32 \<Rightarrow> u32 \<Rightarrow> bytes" where
  "buildHttp2WindowUpdate streamId increment =
     write32 (write32 (write24 [] 4 @ [0x08, 0x00]) (streamId AND 0x7fffffff)) (increment AND 0x7fffffff)"

definition buildHttp2ClientPreface :: bytes where
  "buildHttp2ClientPreface =
     (let preface = bytes_of_string (''PRI * HTTP/2.0'' @ [CHR 0x0d, CHR 0x0a, CHR 0x0d, CHR 0x0a] @
            ''SM'' @ [CHR 0x0d, CHR 0x0a, CHR 0x0d, CHR 0x0a]);
          settings = write32 (write32 (write24 preface 6 @ [0x04, 0x00]) 0 @ [0x00, 0x04])
            kHttp2ClientStreamWindow
      in settings @ buildHttp2WindowUpdate 0 (kHttp2ClientConnectionWindow - kHttp2DefaultWindow))"

definition buildHttp2SettingsAck :: bytes where
  "buildHttp2SettingsAck = write32 (write24 [] 0 @ [0x04, 0x01]) 0"

definition buildHttp2PingAck :: "bytes \<Rightarrow> bytes" where
  "buildHttp2PingAck opaqueData =
     write32 (write24 [] (word_of_nat (length opaqueData)) @ [0x06, 0x01]) 0 @ opaqueData"

text \<open>The HPACK block of the POST request, then the HEADERS frame around it.\<close>

definition postHpack :: "string \<Rightarrow> string \<Rightarrow> bytes" where
  "postHpack authority path =
     [0x83, 0x87] @
     [0x04, word_of_nat (length path)] @ bytes_of_string path @
     [0x01, word_of_nat (length authority)] @ bytes_of_string authority @
     [0x0f, 0x10, word_of_nat (length ''application/json'')] @ bytes_of_string ''application/json''"

definition buildHttp2PostHeaders :: "u32 \<Rightarrow> string \<Rightarrow> string \<Rightarrow> bytes" where
  "buildHttp2PostHeaders streamId authority path =
     (let hpack = postHpack authority path in
      write32 (write24 [] (word_of_nat (length hpack)) @ [0x01, 0x04]) streamId @ hpack)"

definition buildHttp2DataFrame :: "u32 \<Rightarrow> bytes \<Rightarrow> bool \<Rightarrow> bytes" where
  "buildHttp2DataFrame streamId data endStream =
     write32 (write24 [] (word_of_nat (length data)) @ [0x00, if endStream then 0x01 else 0x00]) streamId
     @ data"

section \<open>Receive window\<close>

definition Http2ReceiveWindow_consume ::
    "Http2ReceiveWindow \<Rightarrow> u32 \<Rightarrow> u32 option \<times> Http2ReceiveWindow" where
  "Http2ReceiveWindow_consume w flowControlledBytes =
     (let unack = rw_unacknowledged w + ucast flowControlledBytes in
      if unack = 0 \<or> unack < ucast (rw_size w div 2)
      then (None, w\<lparr>rw_unacknowledged := unack\<rparr>)
      else let increment = (ucast (min unack 0x7fffffff) :: u32) in
        (Some increment, w\<lparr>rw_unacknowledged := unack - ucast increment\<rparr>))"

definition Http2ReceiveWindow_reset :: "Http2ReceiveWindow \<Rightarrow> Http2ReceiveWindow" where
  "Http2ReceiveWindow_reset w = w\<lparr>rw_unacknowledged := 0\<rparr>"

section \<open>Frame decoder\<close>

text \<open>\<open>None\<close> is \<open>return false\<close>; the buffer keeps what it had.\<close>

definition Http2FrameDecoder_append ::
    "Http2FrameDecoder \<Rightarrow> bytes \<Rightarrow> Http2FrameDecoder option" where
  "Http2FrameDecoder_append d bs =
     (if length (h2_buffer d) + length bs > kMaxFrameSize + kHttp2HeaderLen then None
      else Some (d\<lparr>h2_buffer := h2_buffer d @ bs\<rparr>))"

definition Http2FrameDecoder_take ::
    "Http2FrameDecoder \<Rightarrow> (Http2Frame option \<times> Http2FrameDecoder) option" where
  "Http2FrameDecoder_take d =
     (if length (h2_buffer d) < kHttp2HeaderLen then Some (None, d)
      else do {
        len \<leftarrow> read24 (h2_buffer d) 0;
        if unat len > kMaxFrameSize then Some (None, d\<lparr>h2_buffer := []\<rparr>)
        else if length (h2_buffer d) < kHttp2HeaderLen + unat len then Some (None, d)
        else do {
          ty \<leftarrow> rd8 (h2_buffer d) 3;
          fl \<leftarrow> rd8 (h2_buffer d) 4;
          sid \<leftarrow> read32 (h2_buffer d) 5;
          payload \<leftarrow> rd_span (h2_buffer d) kHttp2HeaderLen (unat len);
          Some (Some \<lparr>h2_length = len, h2_type = ty, h2_flags = fl, h2_streamId = sid,
                      h2_payload = payload\<rparr>,
                d\<lparr>h2_buffer := drop (kHttp2HeaderLen + unat len) (h2_buffer d)\<rparr>)
        }
      })"

section \<open>Wire integers\<close>

lemma be24_value:
  fixes v :: u32
  assumes "unat v < 2 ^ 24"
  shows "push_bit 16 (ucast (ucast (drop_bit 16 v) :: u8)) OR
    push_bit 8 (ucast (ucast (drop_bit 8 v) :: u8)) OR ucast (ucast v :: u8) = v"
    (is "?w = v")
proof (rule bit_word_eqI)
  fix n assume "n < LENGTH(32)"
  consider "n < 8" | "8 \<le> n" "n < 16" | "16 \<le> n" "n < 24" | "24 \<le> n" by linarith
  then show "bit ?w n = bit v n"
    using high_bits_clear [OF assms] by cases (auto simp: bit_simps)
qed

lemma be31_value:
  fixes v :: u32
  assumes "unat v < 2 ^ 31"
  shows "push_bit 24 (ucast (ucast (drop_bit 24 v) :: u8) AND 0x7f) OR
    push_bit 16 (ucast (ucast (drop_bit 16 v) :: u8)) OR
    push_bit 8 (ucast (ucast (drop_bit 8 v) :: u8)) OR ucast (ucast v :: u8) = v"
    (is "?w = v")
proof (rule bit_word_eqI)
  fix n assume "n < LENGTH(32)"
  have m: "(0x7f :: u32) = mask 7" by (simp add: mask_eq_exp_minus_1)
  consider "n < 8" | "8 \<le> n" "n < 16" | "16 \<le> n" "n < 24" | "24 \<le> n" "n < 31" | "31 \<le> n"
    by linarith
  then show "bit ?w n = bit v n"
    using high_bits_clear [OF assms] by cases (auto simp: bit_simps m)
qed

text \<open>The nine header bytes as the decoder reads them.\<close>

definition header :: "u32 \<Rightarrow> u8 \<Rightarrow> u8 \<Rightarrow> u32 \<Rightarrow> bytes" where
  "header len ty fl sid = write32 (write24 [] len @ [ty, fl]) sid"

lemma length_header [simp]: "length (header len ty fl sid) = 9"
  by (simp add: header_def write32_def write24_def)

lemma take_header:
  assumes "h2_buffer d = header len ty fl sid @ rest"
    and "unat len < 2 ^ 24" and "unat sid < 2 ^ 31"
  shows "Http2FrameDecoder_take d =
    (if unat len > kMaxFrameSize then Some (None, d\<lparr>h2_buffer := []\<rparr>)
     else if length rest < unat len then Some (None, d)
     else Some (Some \<lparr>h2_length = len, h2_type = ty, h2_flags = fl, h2_streamId = sid,
                      h2_payload = take (unat len) rest\<rparr>,
                d\<lparr>h2_buffer := drop (unat len) rest\<rparr>))"
proof -
  have "read24 (h2_buffer d) 0 = Some len" and "read32 (h2_buffer d) 5 = Some sid"
    using assms(1) be24_value [OF assms(2)] be31_value [OF assms(3)]
    by (simp_all add: header_def write32_def write24_def read24_def read32_def rd8_def wire_simps)
  moreover have "rd8 (h2_buffer d) 3 = Some ty" and "rd8 (h2_buffer d) 4 = Some fl"
    using assms(1) by (simp_all add: header_def write32_def write24_def rd8_def)
  ultimately show ?thesis
    using assms(1) by (simp add: Http2FrameDecoder_take_def rd_span_def kHttp2HeaderLen_def)
qed

section \<open>Reassembly\<close>

definition decoder_take :: "Http2FrameDecoder \<Rightarrow> Http2Frame option \<times> Http2FrameDecoder" where
  "decoder_take d = (case Http2FrameDecoder_take d of Some r \<Rightarrow> r | None \<Rightarrow> (None, d))"

definition frame_bytes :: "Http2Frame \<Rightarrow> bytes" where
  "frame_bytes f =
     header (word_of_nat (length (h2_payload f))) (h2_type f) (h2_flags f) (h2_streamId f) @ h2_payload f"

definition well_formed :: "Http2Frame \<Rightarrow> bool" where
  "well_formed f =
     (length (h2_payload f) \<le> kMaxFrameSize \<and> h2_length f = word_of_nat (length (h2_payload f)) \<and>
      unat (h2_streamId f) < 2 ^ 31)"

lemma well_formed_length:
  "well_formed f \<Longrightarrow> unat (word_of_nat (length (h2_payload f)) :: u32) = length (h2_payload f)"
  by (simp add: well_formed_def unat_word_of_nat_u32 kMaxFrameSize_def)

lemma well_formed_small:
  "well_formed f \<Longrightarrow> length (h2_payload f) < 2 ^ 24"
  by (simp add: well_formed_def kMaxFrameSize_def)

lemma decoder_take_whole:
  assumes "well_formed f" "h2_buffer d = frame_bytes f @ rest"
  shows "decoder_take d = (Some f, d\<lparr>h2_buffer := rest\<rparr>)"
  using take_header [of d "word_of_nat (length (h2_payload f))" "h2_type f" "h2_flags f"
      "h2_streamId f" "h2_payload f @ rest"]
    assms well_formed_length [OF assms(1)] well_formed_small [OF assms(1)]
  by (simp add: decoder_take_def frame_bytes_def well_formed_def)

lemma decoder_take_partial:
  assumes "well_formed f" "frame_bytes f = h2_buffer d @ q" "q \<noteq> []"
  shows "decoder_take d = (None, d)"
proof (cases "length (h2_buffer d) < kHttp2HeaderLen")
  case True
  then show ?thesis by (simp add: decoder_take_def Http2FrameDecoder_take_def)
next
  case False
  let ?h = "header (word_of_nat (length (h2_payload f))) (h2_type f) (h2_flags f) (h2_streamId f)"
  from assms(2) have "?h @ h2_payload f = h2_buffer d @ q" by (simp add: frame_bytes_def)
  moreover from False have "length ?h \<le> length (h2_buffer d)" by (simp add: kHttp2HeaderLen_def)
  ultimately obtain rest where rest: "h2_buffer d = ?h @ rest" "h2_payload f = rest @ q"
    by (rule header_split)
  then have "length rest < length (h2_payload f)" using assms(3) by simp
  with rest(1) assms(1) well_formed_length [OF assms(1)] well_formed_small [OF assms(1)]
  show ?thesis
    using take_header [of d "word_of_nat (length (h2_payload f))" "h2_type f" "h2_flags f"
        "h2_streamId f" rest]
    by (simp add: decoder_take_def well_formed_def)
qed

interpretation http2_decoder: stream_decoder h2_buffer Http2FrameDecoder_append decoder_take
  frame_bytes well_formed "kMaxFrameSize + kHttp2HeaderLen"
proof unfold_locales
  fix f and d :: Http2FrameDecoder and rest
  assume "well_formed f" "h2_buffer d = frame_bytes f @ rest"
  then show "\<exists>d'. decoder_take d = (Some f, d') \<and> h2_buffer d' = rest"
    by (simp add: decoder_take_whole)
next
  fix f and d :: Http2FrameDecoder and q
  assume "well_formed f" "frame_bytes f = h2_buffer d @ q" "q \<noteq> []"
  then show "decoder_take d = (None, d)" by (rule decoder_take_partial)
next
  fix f assume "well_formed f"
  show "frame_bytes f \<noteq> []" by (simp add: frame_bytes_def header_def write32_def)
qed (auto simp: Http2FrameDecoder_append_def decoder_take_def Http2FrameDecoder_take_def
    kHttp2HeaderLen_def)

text \<open>
  However the control connection cuts the HTTP/2 byte stream, the frame decoder hands back
  exactly the frames on the wire, in order, and ends with an empty buffer, as long as a read fits
  beside an incomplete frame.
\<close>

theorem Http2FrameDecoder_reassembles:
  assumes "\<forall>f \<in> set fs. well_formed f \<and> length (h2_payload f) \<le> p"
    and "\<forall>c \<in> set cs. length c \<le> k" and "p + k \<le> kMaxFrameSize + 1"
    and "concat cs = concat (map frame_bytes fs)"
  shows "feed h2_buffer Http2FrameDecoder_append decoder_take \<lparr>h2_buffer = []\<rparr> cs =
    Some (fs, \<lparr>h2_buffer = []\<rparr>)"
proof -
  have "\<forall>f \<in> set fs. well_formed f \<and> length (frame_bytes f) \<le> p + 9"
    using assms(1) by (auto simp: frame_bytes_def)
  moreover have "\<forall>c \<in> set cs. length c + (p + 9) \<le> Suc (kMaxFrameSize + kHttp2HeaderLen)"
    using assms(2,3) by (fastforce simp: kHttp2HeaderLen_def)
  ultimately obtain d where
    "feed h2_buffer Http2FrameDecoder_append decoder_take \<lparr>h2_buffer = []\<rparr> cs = Some (fs, d)"
    "h2_buffer d = []"
    using http2_decoder.feed_frames [of fs "p + 9" cs "\<lparr>h2_buffer = []\<rparr>"] assms(4) by auto
  then show ?thesis by simp
qed

theorem Http2FrameDecoder_reassembles_witness:
  "feed h2_buffer Http2FrameDecoder_append decoder_take \<lparr>h2_buffer = []\<rparr>
     [[0, 0, 2, 0], [1, 0, 0, 0, 3, 7], [8]] =
   Some ([\<lparr>h2_length = 2, h2_type = 0, h2_flags = 1, h2_streamId = 3, h2_payload = [7, 8]\<rparr>],
     \<lparr>h2_buffer = []\<rparr>)"
proof -
  have "concat [[0, 0, 2, 0], [1, 0, 0, 0, 3, 7], [8]] =
    concat (map frame_bytes
      [\<lparr>h2_length = 2, h2_type = 0, h2_flags = 1, h2_streamId = 3, h2_payload = [7, 8]\<rparr>])"
    by (simp add: frame_bytes_def header_def write32_def write24_def)
  from Http2FrameDecoder_reassembles [OF _ _ _ this, of 2 6] show ?thesis
    by (simp add: kMaxFrameSize_def well_formed_def)
qed

section \<open>What the builders put on the wire\<close>

lemma buildHttp2DataFrame_bytes:
  "buildHttp2DataFrame sid data e =
     frame_bytes \<lparr>h2_length = word_of_nat (length data), h2_type = 0, h2_flags = (if e then 1 else 0),
       h2_streamId = sid, h2_payload = data\<rparr>"
  by (simp add: buildHttp2DataFrame_def frame_bytes_def header_def)

lemma buildHttp2PostHeaders_bytes:
  "buildHttp2PostHeaders sid authority path =
     frame_bytes \<lparr>h2_length = word_of_nat (length (postHpack authority path)), h2_type = 1,
       h2_flags = 4, h2_streamId = sid, h2_payload = postHpack authority path\<rparr>"
  by (simp add: buildHttp2PostHeaders_def frame_bytes_def header_def Let_def)

text \<open>
  What the client writes first is the 24-byte HTTP/2 connection preface, a SETTINGS frame that
  sets the stream window to 4 MiB, and a WINDOW\_UPDATE on stream 0 that raises the connection
  window from the default 65535 bytes to exactly 16 MiB.
\<close>

theorem buildHttp2ClientPreface_frames:
  "take 24 buildHttp2ClientPreface =
     bytes_of_string ''PRI * HTTP/2.0'' @ [13, 10, 13, 10] @ bytes_of_string ''SM'' @ [13, 10, 13, 10] \<and>
   feed h2_buffer Http2FrameDecoder_append decoder_take \<lparr>h2_buffer = []\<rparr>
     [drop 24 buildHttp2ClientPreface] =
   Some ([\<lparr>h2_length = 6, h2_type = 4, h2_flags = 0, h2_streamId = 0,
           h2_payload = [0, 4] @ be32 kHttp2ClientStreamWindow\<rparr>,
          \<lparr>h2_length = 4, h2_type = 8, h2_flags = 0, h2_streamId = 0,
           h2_payload = be32 (kHttp2ClientConnectionWindow - kHttp2DefaultWindow)\<rparr>],
     \<lparr>h2_buffer = []\<rparr>)"
proof
  show "take 24 buildHttp2ClientPreface =
     bytes_of_string ''PRI * HTTP/2.0'' @ [13, 10, 13, 10] @ bytes_of_string ''SM'' @ [13, 10, 13, 10]"
    by code_simp
  let ?fs = "[\<lparr>h2_length = 6, h2_type = 4, h2_flags = 0, h2_streamId = 0,
           h2_payload = [0, 4] @ be32 kHttp2ClientStreamWindow\<rparr>,
          \<lparr>h2_length = 4, h2_type = 8, h2_flags = 0, h2_streamId = 0,
           h2_payload = be32 (kHttp2ClientConnectionWindow - kHttp2DefaultWindow)\<rparr>]"
  have "drop 24 buildHttp2ClientPreface = concat (map frame_bytes ?fs)"
    by code_simp
  moreover have "length (drop 24 buildHttp2ClientPreface) = 28" by code_simp
  moreover have "\<forall>f \<in> set ?fs. well_formed f \<and> length (frame_bytes f) \<le> 15"
    by (simp add: well_formed_def frame_bytes_def kMaxFrameSize_def)
  ultimately obtain d where
    "feed h2_buffer Http2FrameDecoder_append decoder_take \<lparr>h2_buffer = []\<rparr>
      [drop 24 buildHttp2ClientPreface] = Some (?fs, d)" "h2_buffer d = []"
    using http2_decoder.feed_frames [of ?fs 15 "[drop 24 buildHttp2ClientPreface]" "\<lparr>h2_buffer = []\<rparr>"]
    by (auto simp: kMaxFrameSize_def kHttp2HeaderLen_def)
  then show "feed h2_buffer Http2FrameDecoder_append decoder_take \<lparr>h2_buffer = []\<rparr>
      [drop 24 buildHttp2ClientPreface] = Some (?fs, \<lparr>h2_buffer = []\<rparr>)" by simp
qed

text \<open>
  A reader of the subset of HPACK (RFC 7541) the client writes: indexed fields 3 and 7, literal
  fields without indexing whose name is an index of the static table, and string literals with a
  one-byte length, Huffman bit clear.  \<open>None\<close> is a block this reader refuses.
\<close>

definition hpack_string :: "bytes \<Rightarrow> (bytes \<times> bytes) option" where
  "hpack_string bs =
     (case bs of [] \<Rightarrow> None
      | l # r \<Rightarrow> if unat l < 127 \<and> unat l \<le> length r then Some (take (unat l) r, drop (unat l) r)
                else None)"

fun hpack_fields :: "nat \<Rightarrow> bytes \<Rightarrow> (string \<times> bytes) list option" where
  "hpack_fields 0 bs = None"
| "hpack_fields (Suc n) bs =
     (case bs of [] \<Rightarrow> Some []
      | b # r \<Rightarrow>
          if b = 0x83 then map_option ((#) ('':method'', bytes_of_string ''POST'')) (hpack_fields n r)
          else if b = 0x87 then map_option ((#) ('':scheme'', bytes_of_string ''https'')) (hpack_fields n r)
          else do {
            (name, r1) \<leftarrow> (if b = 0x04 then Some ('':path'', r)
              else if b = 0x01 then Some ('':authority'', r)
              else if b = 0x0f \<and> r \<noteq> [] \<and> hd r = 0x10 then Some (''content-type'', tl r) else None);
            (v, r2) \<leftarrow> hpack_string r1;
            map_option ((#) (name, v)) (hpack_fields n r2)
          })"

lemma hpack_string_literal:
  "length s < 127 \<Longrightarrow>
   hpack_string (word_of_nat (length s) # bytes_of_string s @ r) = Some (bytes_of_string s, r)"
  by (simp add: hpack_string_def unat_of_nat)

text \<open>
  The header block of the control client's POST is valid HPACK for exactly the five header
  fields method, scheme, path, authority and content-type, when path and authority are shorter than
  127 bytes.
\<close>

theorem postHpack_fields:
  assumes "length path < 127" and "length authority < 127"
  shows "hpack_fields 6 (postHpack authority path) =
    Some [('':method'', bytes_of_string ''POST''), ('':scheme'', bytes_of_string ''https''),
      ('':path'', bytes_of_string path), ('':authority'', bytes_of_string authority),
      (''content-type'', bytes_of_string ''application/json'')]"
proof -
  have six: "(6::nat) = Suc (Suc (Suc (Suc (Suc (Suc 0)))))" by simp
  note ct = hpack_string_literal [of "''application/json''" "[]", simplified]
  show ?thesis
    unfolding postHpack_def six using hpack_string_literal [OF assms(1)] hpack_string_literal [OF assms(2)] ct
    by simp
qed

theorem postHpack_fields_witness:
  "hpack_fields 6 (postHpack ''controlplane.tailscale.com'' ''/machine/map'') =
    Some [('':method'', bytes_of_string ''POST''), ('':scheme'', bytes_of_string ''https''),
      ('':path'', bytes_of_string ''/machine/map''),
      ('':authority'', bytes_of_string ''controlplane.tailscale.com''),
      (''content-type'', bytes_of_string ''application/json'')]"
  using postHpack_fields [of "''/machine/map''" "''controlplane.tailscale.com''"] by simp

section \<open>Flow control\<close>

fun consume_all :: "Http2ReceiveWindow \<Rightarrow> u32 list \<Rightarrow> u32 list \<times> Http2ReceiveWindow" where
  "consume_all w [] = ([], w)"
| "consume_all w (n # ns) =
     (case Http2ReceiveWindow_consume w n of
        (None, w') \<Rightarrow> consume_all w' ns
      | (Some i, w') \<Rightarrow> (case consume_all w' ns of (is, w'') \<Rightarrow> (i # is, w'')))"

definition window_open :: "Http2ReceiveWindow \<Rightarrow> bool" where
  "window_open w = (unat (rw_unacknowledged w) < max 1 (unat (rw_size w) div 2))"

lemma unat_ucast_u64: "unat (ucast (n :: u32) :: u64) = unat n"
proof -
  have "unat n < 2 ^ 64" using unsigned_less [of n, where 'a = nat] by simp
  then show ?thesis by (simp add: unsigned_ucast_eq take_bit_nat_eq_self)
qed

lemma unat_ucast_u32: "unat u \<le> 0x7fffffff \<Longrightarrow> unat (ucast (u :: u64) :: u32) = unat u"
  by (simp add: unsigned_ucast_eq take_bit_nat_eq_self)

lemma unat_size_half: "unat (ucast (v div 2 :: u32) :: u64) = unat v div 2"
  by (simp add: unat_ucast_u64 unat_div)

lemma unat_consumed:
  fixes n :: u32
  assumes "window_open w" and "unat n \<le> 0x7fffffff"
  shows "unat (rw_unacknowledged w + ucast n) = unat (rw_unacknowledged w) + unat n"
proof -
  have "unat (rw_size w) < 2 ^ 32" using unsigned_less [of "rw_size w", where 'a = nat] by simp
  with assms have "unat (rw_unacknowledged w) + unat (ucast n :: u64) < 2 ^ 64"
    by (simp add: window_open_def unat_ucast_u64)
  then show ?thesis by (simp add: unat_word_ariths unat_ucast_u64)
qed

lemma unat_min_increment:
  fixes u :: u64
  shows "unat (ucast (min u 0x7fffffff) :: u32) = min (unat u) 0x7fffffff"
    and "unat (u - ucast (ucast (min u 0x7fffffff) :: u32)) = unat u - min (unat u) 0x7fffffff"
proof -
  have m: "unat (min u 0x7fffffff) = min (unat u) 0x7fffffff"
    by (simp add: min_def word_le_nat_alt)
  then show i: "unat (ucast (min u 0x7fffffff) :: u32) = min (unat u) 0x7fffffff"
    by (simp add: unat_ucast_u32)
  then have j: "unat (ucast (ucast (min u 0x7fffffff) :: u32) :: u64) = min (unat u) 0x7fffffff"
    by (simp add: unat_ucast_u64)
  then have "(ucast (ucast (min u 0x7fffffff) :: u32) :: u64) \<le> u"
    by (simp add: word_le_nat_alt)
  with j show "unat (u - ucast (ucast (min u 0x7fffffff) :: u32)) = unat u - min (unat u) 0x7fffffff"
    by (simp add: unat_sub)
qed

lemma consume_cases:
  assumes "window_open w" and "unat n \<le> 0x7fffffff"
  defines "tot \<equiv> unat (rw_unacknowledged w) + unat n"
  obtains "Http2ReceiveWindow_consume w n = (None, w\<lparr>rw_unacknowledged := rw_unacknowledged w + ucast n\<rparr>)"
      and "tot < max 1 (unat (rw_size w) div 2)"
      and "unat (rw_unacknowledged w + ucast n) = tot"
  | i u where "Http2ReceiveWindow_consume w n = (Some i, w\<lparr>rw_unacknowledged := u\<rparr>)"
      and "0 < tot" and "unat i = min tot 0x7fffffff" and "unat u = tot - min tot 0x7fffffff"
proof -
  note tot = unat_consumed [OF assms(1,2), folded tot_def]
  have zero: "rw_unacknowledged w + ucast n = 0 \<longleftrightarrow> tot = 0"
    using tot by (simp add: unat_eq_zero flip: tot)
  have less: "rw_unacknowledged w + ucast n < ucast (rw_size w div 2) \<longleftrightarrow> tot < unat (rw_size w) div 2"
    by (simp add: word_less_nat_alt tot unat_size_half)
  show thesis
  proof (cases "tot = 0 \<or> tot < unat (rw_size w) div 2")
    case True
    then show ?thesis
      using tot zero less by (intro that(1)) (auto simp: Http2ReceiveWindow_consume_def)
  next
    case False
    then show ?thesis
      using tot zero less unat_min_increment [of "rw_unacknowledged w + ucast n"]
      by (intro that(2)) (auto simp: Http2ReceiveWindow_consume_def Let_def)
  qed
qed

lemma consume_step:
  assumes "window_open w" and "unat n \<le> 0x7fffffff"
    and "Http2ReceiveWindow_consume w n = (r, w')"
  shows "window_open w' \<and> rw_size w' = rw_size w \<and>
    (case r of None \<Rightarrow> 0 | Some i \<Rightarrow> unat i) + unat (rw_unacknowledged w') =
      unat (rw_unacknowledged w) + unat n \<and>
    (\<forall>i. r = Some i \<longrightarrow> 0 < unat i \<and> unat i \<le> 0x7fffffff)"
  using assms(1,2)
proof (cases rule: consume_cases)
  case 1
  with assms show ?thesis by (auto simp: window_open_def)
next
  case (2 i u)
  with assms show ?thesis by (auto simp: window_open_def min_def)
qed

text \<open>
  Flow control loses nothing and never stalls the sender: over any sequence of received DATA
  sizes, the WINDOW\_UPDATE increments sent plus the bytes still unacknowledged are exactly the
  bytes consumed, every increment is a legal 1..2^31-1, and less than half of the advertised window
  is ever outstanding between calls.
\<close>

theorem Http2ReceiveWindow_conserves:
  assumes "window_open w" and "\<forall>n \<in> set ns. unat n \<le> 0x7fffffff"
    and "consume_all w ns = (is, w')"
  shows "sum_list (map unat is) + unat (rw_unacknowledged w') =
      unat (rw_unacknowledged w) + sum_list (map unat ns)
    \<and> (\<forall>i \<in> set is. 0 < unat i \<and> unat i \<le> 0x7fffffff)
    \<and> unat (rw_unacknowledged w') < max 1 (unat (rw_size w) div 2)"
  using assms
proof (induction ns arbitrary: w "is")
  case Nil
  then show ?case by (simp add: window_open_def)
next
  case (Cons n ns)
  obtain r v where rv: "Http2ReceiveWindow_consume w n = (r, v)" by fastforce
  from Cons.prems have "unat n \<le> 0x7fffffff" by simp
  note step = consume_step [OF Cons.prems(1) this rv]
  obtain js where js: "consume_all v ns = (js, w')"
    using Cons.prems(3) rv by (cases r) (auto split: prod.splits)
  with step Cons.prems(2) Cons.IH [of v js] have ih:
    "sum_list (map unat js) + unat (rw_unacknowledged w') =
       unat (rw_unacknowledged v) + sum_list (map unat ns)"
    "\<forall>i \<in> set js. 0 < unat i \<and> unat i \<le> 0x7fffffff"
    "unat (rw_unacknowledged w') < max 1 (unat (rw_size w) div 2)" by auto
  from Cons.prems(3) rv js have "is = (case r of None \<Rightarrow> js | Some i \<Rightarrow> i # js)"
    by (cases r) auto
  with ih step show ?case by (cases r) auto
qed

theorem Http2ReceiveWindow_conserves_witness:
  "consume_all \<lparr>rw_size = 10, rw_unacknowledged = 0\<rparr> [3, 4, 2] =
     ([7], \<lparr>rw_size = 10, rw_unacknowledged = 2\<rparr>) \<and>
   sum_list (map unat [7 :: u32]) + unat (2 :: u64) = sum_list (map unat [3 :: u32, 4, 2])"
proof -
  have run: "consume_all \<lparr>rw_size = 10, rw_unacknowledged = 0\<rparr> [3, 4, 2] =
      ([7], \<lparr>rw_size = 10, rw_unacknowledged = 2\<rparr>)"
    by code_simp
  have "window_open \<lparr>rw_size = 10, rw_unacknowledged = 0\<rparr>" by (simp add: window_open_def)
  from Http2ReceiveWindow_conserves [OF this _ run] run show ?thesis by simp
qed

end
