(* ===== verification/TailscaleBox.thy ===== *)
theory TailscaleBox
  imports Prelude
begin

text \<open>
  Model of \<open>app/src/remote_access/tailscale/TailscaleBox.cpp\<close>: the Salsa20 core, HSalsa20, the
  XSalsa20 keystream and NaCl's \<open>crypto_box\<close> built from them.  X25519 and Poly1305 come from
  Monocypher, which is not part of the repository, so they are parameters: \<open>x25519 sk pk\<close> is the
  32-byte shared secret and \<open>poly1305 msg key\<close> the 16-byte tag.  \<open>crypto_verify16\<close> compares
  16 bytes and \<open>crypto_wipe\<close> clears memory that is not read again.
\<close>

section \<open>Words\<close>

definition kSigma :: bytes where
  "kSigma = bytes_of_string ''expand 32-byte k''"

definition kBoxMacLen :: nat where
  "kBoxMacLen = 16"

definition rotl :: "u32 \<Rightarrow> nat \<Rightarrow> u32" where
  "rotl v s = push_bit s v OR drop_bit (32 - s) v"

definition load32le :: "bytes \<Rightarrow> nat \<Rightarrow> u32" where
  "load32le src i =
     ucast (src ! i) OR push_bit 8 (ucast (src ! (i + 1))) OR push_bit 16 (ucast (src ! (i + 2))) OR
     push_bit 24 (ucast (src ! (i + 3)))"

definition store32le :: "u32 \<Rightarrow> bytes" where
  "store32le v = [ucast v, ucast (drop_bit 8 v), ucast (drop_bit 16 v), ucast (drop_bit 24 v)]"

section \<open>The Salsa20 core\<close>

definition xor_rotl :: "u32 list \<Rightarrow> nat \<Rightarrow> nat \<Rightarrow> nat \<Rightarrow> nat \<Rightarrow> u32 list" where
  "xor_rotl x t p q s = x[t := x ! t XOR rotl (x ! p + x ! q) s]"

definition box_qr :: "nat \<Rightarrow> nat \<Rightarrow> nat \<Rightarrow> nat \<Rightarrow> u32 list \<Rightarrow> u32 list" where
  "box_qr a b c d x =
     xor_rotl (xor_rotl (xor_rotl (xor_rotl x b a d 7) c b a 9) d c b 13) a d c 18"

definition double_round :: "u32 list \<Rightarrow> u32 list" where
  "double_round x =
     box_qr 15 12 13 14 (box_qr 10 11 8 9 (box_qr 5 6 7 4 (box_qr 0 1 2 3
       (box_qr 15 3 7 11 (box_qr 10 14 2 6 (box_qr 5 9 13 1 (box_qr 0 4 8 12 x)))))))"

fun rounds :: "nat \<Rightarrow> u32 list \<Rightarrow> u32 list" where
  "rounds 0 x = x"
| "rounds (Suc n) x = rounds n (double_round x)"

definition initial_state :: "bytes \<Rightarrow> bytes \<Rightarrow> u32 list" where
  "initial_state inp key =
     [load32le kSigma 0,
      load32le key 0, load32le key 4, load32le key 8, load32le key 12,
      load32le kSigma 4,
      load32le inp 0, load32le inp 4, load32le inp 8, load32le inp 12,
      load32le kSigma 8,
      load32le key 16, load32le key 20, load32le key 24, load32le key 28,
      load32le kSigma 12]"

definition salsa20Block :: "bytes \<Rightarrow> bytes \<Rightarrow> bytes" where
  "salsa20Block inp key =
     (let original = initial_state inp key; x = rounds 10 original in
      concat (map (\<lambda>i. store32le (x ! i + original ! i)) [0..<16]))"

definition hsalsa20 :: "bytes \<Rightarrow> bytes \<Rightarrow> bytes" where
  "hsalsa20 nonce key =
     (let x = rounds 10 (initial_state nonce key) in
      concat (map (\<lambda>i. store32le (x ! i)) [0, 5, 10, 15, 6, 7, 8, 9]))"

text \<open>Bytes 8 to 15 of the counter block: the block number, least significant byte first.\<close>

definition counterBytes :: "u64 \<Rightarrow> bytes" where
  "counterBytes block = map (\<lambda>i. ucast (drop_bit (8 * i) block)) [0..<8]"

function keystream_loop :: "bytes \<Rightarrow> bytes \<Rightarrow> u64 \<Rightarrow> nat \<Rightarrow> bytes" where
  "keystream_loop prefix subkey block len =
     (if len > 0 then
        let keystream = salsa20Block (prefix @ counterBytes block) subkey;
            n = min len 64
        in take n keystream @ keystream_loop prefix subkey (block + 1) (len - n)
      else [])"
  by pat_completeness auto
termination
  by (relation "measure (\<lambda>(prefix, subkey, block, len). len)") auto

declare keystream_loop.simps [simp del]

definition xsalsa20Keystream :: "nat \<Rightarrow> bytes \<Rightarrow> bytes \<Rightarrow> bytes" where
  "xsalsa20Keystream len nonce key =
     keystream_loop (take 8 (drop 16 nonce)) (hsalsa20 (take 16 nonce) key) 0 len"

section \<open>crypto\_box\<close>

definition boxKey :: "(bytes \<Rightarrow> bytes \<Rightarrow> bytes) \<Rightarrow> bytes \<Rightarrow> bytes \<Rightarrow> string + bytes" where
  "boxKey x25519 myPrivate theirPublic =
     (let shared = x25519 myPrivate theirPublic in
      if list_all (\<lambda>b. b = 0) shared
      then Inl ''crypto_box: weak or invalid X25519 shared secret''
      else Inr (hsalsa20 (replicate 16 0) shared))"

definition boxSeal :: "(bytes \<Rightarrow> bytes \<Rightarrow> bytes) \<Rightarrow> (bytes \<Rightarrow> bytes \<Rightarrow> bytes) \<Rightarrow>
    bytes \<Rightarrow> bytes \<Rightarrow> bytes \<Rightarrow> bytes \<Rightarrow> string + bytes" where
  "boxSeal x25519 poly1305 plainText myPrivate theirPublic nonce =
     (case boxKey x25519 myPrivate theirPublic of
        Inl e \<Rightarrow> Inl e
      | Inr key \<Rightarrow>
          let stream = xsalsa20Keystream (32 + length plainText) nonce key;
              padded = map2 (XOR) (replicate 32 0 @ plainText) stream;
              mac = poly1305 (drop 32 padded) (take 32 stream)
          in Inr (mac @ drop 32 padded))"

definition boxOpen :: "(bytes \<Rightarrow> bytes \<Rightarrow> bytes) \<Rightarrow> (bytes \<Rightarrow> bytes \<Rightarrow> bytes) \<Rightarrow>
    bytes \<Rightarrow> bytes \<Rightarrow> bytes \<Rightarrow> bytes \<Rightarrow> string + bytes" where
  "boxOpen x25519 poly1305 cipherText myPrivate theirPublic nonce =
     (if length cipherText < kBoxMacLen then Inl ''crypto_box: ciphertext shorter than auth tag''
      else case boxKey x25519 myPrivate theirPublic of
        Inl e \<Rightarrow> Inl e
      | Inr key \<Rightarrow>
          let cipherLen = length cipherText - kBoxMacLen;
              stream = xsalsa20Keystream (32 + cipherLen) nonce key;
              expectedMac = poly1305 (drop kBoxMacLen cipherText) (take 32 stream)
          in if expectedMac \<noteq> take kBoxMacLen cipherText
             then Inl ''crypto_box: ciphertext authentication failed''
             else Inr (map2 (XOR) (drop kBoxMacLen cipherText) (drop 32 stream)))"

section \<open>Sizes\<close>

lemma length_store32le [simp]: "length (store32le v) = 4"
  by (simp add: store32le_def)

lemma length_box_qr [simp]: "length (box_qr a b c d x) = length x"
  by (simp add: box_qr_def xor_rotl_def)

lemma length_rounds [simp]: "length (rounds n x) = length x"
  by (induction n arbitrary: x) (simp_all add: double_round_def)

lemma length_salsa20Block [simp]: "length (salsa20Block inp key) = 64"
  by (simp add: salsa20Block_def Let_def length_concat o_def sum_list_triv)

lemma length_hsalsa20 [simp]: "length (hsalsa20 nonce key) = 32"
  by (simp add: hsalsa20_def Let_def)

lemma length_keystream_loop [simp]: "length (keystream_loop p k b len) = len"
proof (induction p k b len rule: keystream_loop.induct)
  case (1 p k b len)
  then show ?case
    by (subst keystream_loop.simps) (auto simp: Let_def)
qed

lemma length_xsalsa20Keystream [simp]: "length (xsalsa20Keystream len nonce key) = len"
  by (simp add: xsalsa20Keystream_def)

lemma map2_xor_cancel:
  fixes a :: "'a::len word list"
  shows "length a = length k \<Longrightarrow> map2 (XOR) (map2 (XOR) a k) k = a"
  by (induction a k rule: list_induct2) (simp_all add: xor.assoc)

lemma drop_map2: "drop n (map2 f a b) = map2 f (drop n a) (drop n b)"
  by (simp add: drop_map drop_zip)

lemma box_roundtrip:
  assumes dh: "x25519 skA pkB = x25519 skB pkA"
    and nonzero: "\<exists>b \<in> set (x25519 skA pkB). b \<noteq> 0"
    and tag: "\<And>m k. length (poly1305 m k) = 16"
  shows "\<exists>c. boxSeal x25519 poly1305 m skA pkB nonce = Inr c \<and> length c = 16 + length m
    \<and> boxOpen x25519 poly1305 c skB pkA nonce = Inr m"
proof -
  let ?key = "hsalsa20 (replicate 16 0) (x25519 skA pkB)"
  let ?stream = "xsalsa20Keystream (32 + length m) nonce ?key"
  let ?body = "map2 (XOR) m (drop 32 ?stream)"
  let ?c = "poly1305 ?body (take 32 ?stream) @ ?body"
  have keyA: "boxKey x25519 skA pkB = Inr ?key" and keyB: "boxKey x25519 skB pkA = Inr ?key"
    using dh nonzero by (auto simp: boxKey_def list_all_iff Let_def)
  have "boxSeal x25519 poly1305 m skA pkB nonce = Inr ?c"
    using keyA by (simp add: boxSeal_def Let_def drop_map2)
  moreover have "boxOpen x25519 poly1305 ?c skB pkA nonce = Inr m"
    using keyB by (simp add: boxOpen_def Let_def tag kBoxMacLen_def map2_xor_cancel)
  ultimately show ?thesis by (auto simp: tag)
qed

text \<open>
  The box opens what it sealed: when X25519 gives both sides the same non-zero shared secret
  and Poly1305 tags have 16 bytes, the receiver recovers the plaintext from the ciphertext, which
  is 16 bytes longer.
\<close>

theorem boxOpen_boxSeal:
  assumes dh: "x25519 skA pkB = x25519 skB pkA"
    and nonzero: "\<exists>b \<in> set (x25519 skA pkB). b \<noteq> 0"
    and tag: "\<And>m k. length (poly1305 m k) = 16"
  shows "\<exists>c. boxSeal x25519 poly1305 m skA pkB nonce = Inr c \<and> length c = 16 + length m
    \<and> boxOpen x25519 poly1305 c skB pkA nonce = Inr m"
  using assms by (rule box_roundtrip)

theorem boxOpen_boxSeal_witness:
  "\<exists>c. boxSeal (\<lambda>a b. map2 (+) a b) (\<lambda>m k. replicate 16 0) [7, 9] [1] [2] (replicate 24 3) = Inr c
     \<and> length c = 16 + length [7 :: u8, 9]
     \<and> boxOpen (\<lambda>a b. map2 (+) a b) (\<lambda>m k. replicate 16 0) c [2] [1] (replicate 24 3) = Inr [7, 9]"
  by (rule boxOpen_boxSeal) simp_all

text \<open>
  Nothing is decrypted without authentication: whenever opening a box yields a plaintext, the
  first 16 bytes of the ciphertext are the Poly1305 tag of the rest under the one-time key, the
  first 32 bytes of the keystream.
\<close>

theorem boxOpen_authentic:
  assumes "boxOpen x25519 poly1305 c sk pk nonce = Inr m"
  shows "\<exists>key. boxKey x25519 sk pk = Inr key \<and> length c = 16 + length m \<and>
    take 16 c = poly1305 (drop 16 c) (take 32 (xsalsa20Keystream (16 + length c) nonce key))"
proof -
  from assms have len: "16 \<le> length c"
    by (auto simp: boxOpen_def kBoxMacLen_def split: if_splits)
  with assms obtain key where key: "boxKey x25519 sk pk = Inr key"
    by (auto simp: boxOpen_def kBoxMacLen_def split: sum.splits)
  from len have "32 + (length c - 16) = 16 + length c" by simp
  with assms key len show ?thesis
    by (auto simp: boxOpen_def kBoxMacLen_def Let_def split: if_splits)
qed

theorem boxOpen_authentic_witness:
  "\<exists>key. boxKey (\<lambda>a b. [1]) [1] [1] = Inr key \<and> length (replicate 16 (5::u8)) = 16 + length ([] :: bytes) \<and>
    take 16 (replicate 16 5) = (\<lambda>m k. replicate 16 (5 :: u8)) (drop 16 (replicate 16 (5 :: u8)))
      (take 32 (xsalsa20Keystream (16 + length (replicate 16 (5::u8))) (replicate 24 0) key))"
proof -
  have "boxOpen (\<lambda>a b. [1]) (\<lambda>m k. replicate 16 5) (replicate 16 5) [1] [1] (replicate 24 0) = Inr []"
    by (simp add: boxOpen_def boxKey_def kBoxMacLen_def Let_def)
  from boxOpen_authentic [OF this] show ?thesis .
qed

end
