(* ===== verification/TailscaleBoxVector.thy ===== *)
theory TailscaleBoxVector
  imports TailscaleBox
begin

text \<open>
  A known-answer check of the Salsa20 core of \<open>TailscaleBox.cpp\<close> as modelled in
  \<open>TailscaleBox\<close>: the model is run by the simplifier on the key of the NaCl documentation.
\<close>

section \<open>A published vector\<close>

lemma rounds_numeral: "rounds (numeral k) x = rounds (pred_numeral k) (double_round x)"
  by (simp add: numeral_eq_Suc)

text \<open>The rotation on the integer value, reduced to 32 bits, for evaluation.\<close>

lemma rotl_eval:
  "rotl v s = word_of_int (take_bit 32 (push_bit s (uint v)) OR drop_bit (32 - s) (uint v))"
  by (rule bit_word_eqI) (auto simp: rotl_def bit_simps)

lemmas salsa_eval = hsalsa20_def initial_state_def load32le_def kSigma_def bytes_of_string_def
  byte_of_char_def rounds_numeral double_round_def box_qr_def xor_rotl_def rotl_eval store32le_def

text \<open>
  The HSalsa20 core computes the published NaCl vector: the first-level key of the shared
  secret of the NaCl test keys.
\<close>

theorem hsalsa20_nacl_vector:
  "hsalsa20 (replicate 16 0)
     [0x4a, 0x5d, 0x9d, 0x5b, 0xa4, 0xce, 0x2d, 0xe1, 0x72, 0x8e, 0x3b, 0xf4, 0x80, 0x35, 0x0f, 0x25,
      0xe0, 0x7e, 0x21, 0xc9, 0x47, 0xd1, 0x9e, 0x33, 0x76, 0xf0, 0x9b, 0x3c, 0x1e, 0x16, 0x17, 0x42] =
     [0x1b, 0x27, 0x55, 0x64, 0x73, 0xe9, 0x85, 0xd4, 0x62, 0xcd, 0x51, 0x19, 0x7a, 0x9a, 0x46, 0xc7,
      0x60, 0x09, 0x54, 0x9e, 0xac, 0x64, 0x74, 0xf2, 0x06, 0xc4, 0xee, 0x08, 0x44, 0xf6, 0x83, 0x89]"
  by (simp add: salsa_eval)

end
