(* ===== verification/TailscaleDisco.thy ===== *)
theory TailscaleDisco
  imports Interfaces TailscaleBox
begin

text \<open>
  Model of \<open>app/src/remote_access/tailscale/TailscaleDisco.hpp\<close> and \<open>.cpp\<close> without the class
  \<open>DirectPath\<close> (theory \<open>TailscaleDirectPath\<close>): IPv4 endpoints and their text form, the Disco
  messages peers exchange to find a UDP path, the sealed packets around them, and the STUN binding
  request and response.  Reads through \<open>p\<close>, \<open>packet.data()\<close> and \<open>body.data()\<close> are the bounded
  reads of \<open>Prelude\<close>.
\<close>

section \<open>Endpoints\<close>

record IPv4Endpoint =
  ep_address :: u32
  ep_port :: u16

definition valid :: "IPv4Endpoint \<Rightarrow> bool" where
  "valid ep = (ep_address ep \<noteq> 0 \<and> ep_port ep \<noteq> 0)"

definition no_endpoint :: IPv4Endpoint where
  "no_endpoint = \<lparr>ep_address = 0, ep_port = 0\<rparr>"

definition endpoint_toString :: "IPv4Endpoint \<Rightarrow> string" where
  "endpoint_toString ep =
     to_string (unat (drop_bit 24 (ep_address ep) AND 0xff)) @ ''.'' @
     to_string (unat (drop_bit 16 (ep_address ep) AND 0xff)) @ ''.'' @
     to_string (unat (drop_bit 8 (ep_address ep) AND 0xff)) @ ''.'' @
     to_string (unat (ep_address ep AND 0xff)) @ '':'' @ to_string (unat (ep_port ep))"

fun parse_octets :: "string list \<Rightarrow> u32 \<Rightarrow> nat \<Rightarrow> (u32 \<times> nat) option" where
  "parse_octets [] v parts = Some (v, parts)"
| "parse_octets (piece # ps) v parts =
     (case from_chars_unsigned piece of
        None \<Rightarrow> None
      | Some (octet, rest) \<Rightarrow>
          if piece = [] \<or> length piece > 3 \<or> rest \<noteq> [] \<or> octet > 255 then None
          else parse_octets ps (push_bit 8 v OR word_of_nat octet) (parts + 1))"

definition endpoint_parse :: "string \<Rightarrow> IPv4Endpoint option" where
  "endpoint_parse text =
     (case rcut (CHR '':'') text of
        None \<Rightarrow> None
      | Some (host, portText) \<Rightarrow>
          (case from_chars_unsigned portText of
             None \<Rightarrow> None
           | Some (port, rest) \<Rightarrow>
               if portText = [] \<or> rest \<noteq> [] \<or> port = 0 \<or> port > 65535 then None
               else (case parse_octets (pieces (CHR ''.'') host) 0 0 of
                       None \<Rightarrow> None
                     | Some (v, parts) \<Rightarrow>
                         if parts \<noteq> 4 then None
                         else let ep = \<lparr>ep_address = v, ep_port = word_of_nat port\<rparr> in
                           if valid ep then Some ep else None)))"

section \<open>Integers and addresses on the wire\<close>

definition putU16 :: "bytes \<Rightarrow> u16 \<Rightarrow> bytes" where
  "putU16 out v = out @ be16 v"

definition putU32 :: "bytes \<Rightarrow> u32 \<Rightarrow> bytes" where
  "putU32 out v = out @ be32 v"

definition getU16 :: "bytes \<Rightarrow> nat \<Rightarrow> u16 option" where
  "getU16 p i = do { a \<leftarrow> rd8 p i; b \<leftarrow> rd8 p (i + 1); Some (of_be16 a b) }"

definition getU32 :: "bytes \<Rightarrow> nat \<Rightarrow> u32 option" where
  "getU32 p i = do {
     a \<leftarrow> rd8 p i; b \<leftarrow> rd8 p (i + 1); c \<leftarrow> rd8 p (i + 2); d \<leftarrow> rd8 p (i + 3);
     Some (of_be32 a b c d)
   }"

definition kAddrPortLen :: nat where
  "kAddrPortLen = 18"

definition putAddrPort :: "bytes \<Rightarrow> IPv4Endpoint \<Rightarrow> bytes" where
  "putAddrPort out ep = putU16 (putU32 (out @ replicate 10 0 @ [0xff, 0xff]) (ep_address ep)) (ep_port ep)"

fun leading_zeros :: "bytes \<Rightarrow> nat \<Rightarrow> nat \<Rightarrow> bool option" where
  "leading_zeros p i 0 = Some True"
| "leading_zeros p i (Suc n) = do { b \<leftarrow> rd8 p i; if b \<noteq> 0 then Some False else leading_zeros p (i + 1) n }"

text \<open>Outer \<open>None\<close>: a read outside the span; inner \<open>None\<close>: not an IPv4 endpoint.\<close>

definition getAddrPort :: "bytes \<Rightarrow> nat \<Rightarrow> IPv4Endpoint option option" where
  "getAddrPort p i = do {
     zeros \<leftarrow> leading_zeros p i 10;
     if \<not> zeros then Some None
     else do {
       a \<leftarrow> rd8 p (i + 10);
       notMapped \<leftarrow> (if a \<noteq> 0xff then Some True else do { b \<leftarrow> rd8 p (i + 11); Some (b \<noteq> 0xff) });
       if notMapped then Some None
       else do {
         address \<leftarrow> getU32 p (i + 12);
         port \<leftarrow> getU16 p (i + 16);
         let ep = \<lparr>ep_address = address, ep_port = port\<rparr>;
         Some (if valid ep then Some ep else None)
       }
     }
   }"

section \<open>Disco messages\<close>

datatype MessageType = MsgPing | MsgPong | MsgCallMeMaybe

record Message =
  msg_type :: MessageType
  msg_txid :: bytes
  msg_nodeKey :: bytes
  msg_hasNodeKey :: bool
  msg_source :: IPv4Endpoint
  msg_endpoints :: "IPv4Endpoint list"

definition kMagic :: bytes where
  "kMagic = [0x54, 0x53, 0xf0, 0x9f, 0x92, 0xac]"

definition kNonceLen :: nat where
  "kNonceLen = 24"

definition kHeaderLen :: nat where
  "kHeaderLen = length kMagic + 32 + kNonceLen"

definition kMaxCandidates :: nat where
  "kMaxCandidates = 16"

text \<open>The default-constructed \<open>Message\<close>.\<close>

definition empty_message :: Message where
  "empty_message = \<lparr>msg_type = MsgPing, msg_txid = replicate 12 0, msg_nodeKey = replicate 32 0,
     msg_hasNodeKey = False, msg_source = no_endpoint, msg_endpoints = []\<rparr>"

definition looksLikeDisco :: "bytes \<Rightarrow> bool" where
  "looksLikeDisco packet = (length packet \<ge> kHeaderLen \<and> take (length kMagic) packet = kMagic)"

definition senderKey :: "bytes \<Rightarrow> bytes option option" where
  "senderKey packet =
     (if \<not> looksLikeDisco packet then Some None
      else do { key \<leftarrow> rd_span packet (length kMagic) 32; Some (Some key) })"

definition encodePlaintext :: "Message \<Rightarrow> bytes" where
  "encodePlaintext m =
     (case msg_type m of
        MsgPing \<Rightarrow> [0x01, 0] @ msg_txid m @ msg_nodeKey m
      | MsgPong \<Rightarrow> putAddrPort ([0x02, 0] @ msg_txid m) (msg_source m)
      | MsgCallMeMaybe \<Rightarrow> foldl putAddrPort [0x03, 0] (msg_endpoints m))"

function callMeMaybe_loop :: "bytes \<Rightarrow> nat \<Rightarrow> IPv4Endpoint list \<Rightarrow> IPv4Endpoint list option" where
  "callMeMaybe_loop body off eps =
     (if off < length body then
        if length eps \<ge> kMaxCandidates then Some eps
        else do {
          ep \<leftarrow> getAddrPort body off;
          callMeMaybe_loop body (off + kAddrPortLen) (case ep of Some e \<Rightarrow> eps @ [e] | None \<Rightarrow> eps)
        }
      else Some eps)"
  by pat_completeness auto
termination
  by (relation "measure (\<lambda>(body, off, eps). length body - off)") (auto simp: kAddrPortLen_def)

declare callMeMaybe_loop.simps [simp del]

definition decodePlaintext :: "bytes \<Rightarrow> Message option option" where
  "decodePlaintext plaintext =
     (if length plaintext < 2 then Some None
      else do {
        let body = drop 2 plaintext;
        t \<leftarrow> rd8 plaintext 0;
        if t = 0x01 then
          if length body < 12 then Some None
          else do {
            txid \<leftarrow> rd_span body 0 12;
            let m = empty_message\<lparr>msg_type := MsgPing, msg_txid := txid\<rparr>;
            if length body \<ge> 12 + 32 then do {
              key \<leftarrow> rd_span body 12 32;
              Some (Some (m\<lparr>msg_nodeKey := key, msg_hasNodeKey := True\<rparr>))
            }
            else Some (Some m)
          }
        else if t = 0x02 then
          if length body < 12 + kAddrPortLen then Some None
          else do {
            txid \<leftarrow> rd_span body 0 12;
            ep \<leftarrow> getAddrPort body 12;
            Some (Some (empty_message\<lparr>msg_type := MsgPong, msg_txid := txid,
                          msg_source := (case ep of Some e \<Rightarrow> e | None \<Rightarrow> no_endpoint)\<rparr>))
          }
        else if t = 0x03 then
          if length body mod kAddrPortLen \<noteq> 0 then Some None
          else do {
            eps \<leftarrow> callMeMaybe_loop body 0 [];
            Some (Some (empty_message\<lparr>msg_type := MsgCallMeMaybe, msg_endpoints := eps\<rparr>))
          }
        else Some None
      })"

text \<open>\<open>seal\<close> and \<open>open\<close>; the empty list is what \<open>seal\<close> returns when the box cannot be made.\<close>

definition disco_seal :: "(bytes \<Rightarrow> bytes \<Rightarrow> bytes) \<Rightarrow> (bytes \<Rightarrow> bytes \<Rightarrow> bytes) \<Rightarrow>
    Message \<Rightarrow> bytes \<Rightarrow> bytes \<Rightarrow> bytes \<Rightarrow> bytes \<Rightarrow> bytes" where
  "disco_seal x25519 poly1305 message myPrivate myPublic theirPublic nonce =
     (case boxSeal x25519 poly1305 (encodePlaintext message) myPrivate theirPublic nonce of
        Inl e \<Rightarrow> []
      | Inr boxed \<Rightarrow> kMagic @ myPublic @ nonce @ boxed)"

definition disco_open :: "(bytes \<Rightarrow> bytes \<Rightarrow> bytes) \<Rightarrow> (bytes \<Rightarrow> bytes \<Rightarrow> bytes) \<Rightarrow>
    bytes \<Rightarrow> bytes \<Rightarrow> (bytes \<times> Message) option option" where
  "disco_open x25519 poly1305 packet myPrivate = do {
     sender \<leftarrow> senderKey packet;
     case sender of
       None \<Rightarrow> Some None
     | Some key \<Rightarrow> do {
         nonce \<leftarrow> rd_span packet (length kMagic + 32) kNonceLen;
         case boxOpen x25519 poly1305 (drop kHeaderLen packet) myPrivate key nonce of
           Inl e \<Rightarrow> Some None
         | Inr plaintext \<Rightarrow> do {
             message \<leftarrow> decodePlaintext plaintext;
             Some (case message of None \<Rightarrow> None | Some m \<Rightarrow> Some (key, m))
           }
       }
   }"

section \<open>STUN\<close>

definition kMagicCookie :: u32 where
  "kMagicCookie = 0x2112A442"

definition kStunHeaderLen :: nat where
  "kStunHeaderLen = 20"

definition crc_bit :: "u32 \<Rightarrow> u32" where
  "crc_bit crc = drop_bit 1 crc XOR (0xedb88320 AND (0 - (crc AND 1)))"

definition crc_byte :: "u32 \<Rightarrow> u8 \<Rightarrow> u32" where
  "crc_byte crc b = (crc_bit ^^ 8) (crc XOR ucast b)"

definition fingerprint :: "bytes \<Rightarrow> u32" where
  "fingerprint bs = NOT (foldl crc_byte 0xffffffff bs) XOR 0x5354554e"

definition bindingRequest :: "bytes \<Rightarrow> bytes" where
  "bindingRequest txid =
     (let software = ''tailnode'';
          out = putU16 [] 0x0001;
          out = putU16 out (word_of_nat (4 + length software) + 8);
          out = putU32 out kMagicCookie @ txid;
          out = putU16 out 0x8022;
          out = putU16 out (word_of_nat (length software)) @ bytes_of_string software;
          fp = fingerprint out;
          out = putU16 out 0x8028;
          out = putU16 out 4
      in putU32 out fp)"

definition looksLikeStun :: "bytes \<Rightarrow> bool option" where
  "looksLikeStun packet =
     (if length packet < kStunHeaderLen then Some False
      else do {
        b \<leftarrow> rd8 packet 0;
        if b AND 0xc0 \<noteq> 0 then Some False
        else do { c \<leftarrow> getU32 packet 4; Some (c = kMagicCookie) }
      })"

definition padded :: "nat \<Rightarrow> nat" where
  "padded n = (n + 3) div 4 * 4"

text \<open>The attribute loop: \<open>mapped\<close> is the legacy address seen so far.\<close>

function response_loop :: "bytes \<Rightarrow> nat \<Rightarrow> nat \<Rightarrow> IPv4Endpoint option \<Rightarrow> IPv4Endpoint option option" where
  "response_loop packet fin off mapped =
     (if off + 4 \<le> fin then do {
        ty \<leftarrow> getU16 packet off;
        len \<leftarrow> getU16 packet (off + 2);
        if off + 4 + unat len > fin then Some mapped
        else do {
          addr \<leftarrow> (if (ty = 0x0020 \<or> ty = 0x0001) \<and> unat len \<ge> 8
                  then do { fam \<leftarrow> rd8 packet (off + 5); Some (fam = 0x01) } else Some False);
          if addr then do {
            port \<leftarrow> getU16 packet (off + 6);
            address \<leftarrow> getU32 packet (off + 8);
            let xep = \<lparr>ep_address = address XOR kMagicCookie,
                       ep_port = port XOR ucast (drop_bit 16 kMagicCookie)\<rparr>;
            let ep = \<lparr>ep_address = address, ep_port = port\<rparr>;
            if ty = 0x0020 then
              if valid xep then Some (Some xep)
              else response_loop packet fin (off + 4 + padded (unat len)) mapped
            else response_loop packet fin (off + 4 + padded (unat len))
                   (if mapped = None \<and> valid ep then Some ep else mapped)
          }
          else response_loop packet fin (off + 4 + padded (unat len)) mapped
        }
      }
      else Some mapped)"
  by pat_completeness auto
termination
  by (relation "measure (\<lambda>(packet, fin, off, mapped). fin - off)") auto

declare response_loop.simps [simp del]

definition parseBindingResponse :: "bytes \<Rightarrow> bytes \<Rightarrow> IPv4Endpoint option option" where
  "parseBindingResponse packet txid = do {
     stun \<leftarrow> looksLikeStun packet;
     if \<not> stun then Some None
     else do {
       ty \<leftarrow> getU16 packet 0;
       if ty \<noteq> 0x0101 then Some None
       else do {
         got \<leftarrow> rd_span packet 8 (length txid);
         if got \<noteq> txid then Some None
         else do {
           len \<leftarrow> getU16 packet 2;
           if kStunHeaderLen + unat len > length packet then Some None
           else response_loop packet (kStunHeaderLen + unat len) kStunHeaderLen None
         }
       }
     }
   }"

section \<open>Endpoint text\<close>

lemma endpoint_eta [simp]: "\<lparr>ep_address = ep_address ep, ep_port = ep_port ep\<rparr> = ep"
  by simp

lemma unat_and_ff: "unat ((v :: u32) AND 0xff) < 256"
proof -
  have "unat (v AND 0xff) = unat (take_bit 8 v)" by (simp add: mask_ff take_bit_eq_mask)
  also have "\<dots> = take_bit 8 (unat v)" by (rule unsigned_take_bit_eq)
  also have "\<dots> < 256" using take_bit_nat_less_exp [of 8 "unat v"] by simp
  finally show ?thesis .
qed

lemma parse_octets_to_string:
  assumes "n < 256"
  shows "parse_octets (to_string n # ps) v parts = parse_octets ps (push_bit 8 v OR word_of_nat n) (parts + 1)"
proof -
  from assms length_to_string_le [of n 2] have "length (to_string n) \<le> 3" by simp
  with assms show ?thesis by (simp add: text_simps)
qed

lemma octets_address:
  "push_bit 8 (push_bit 8 (push_bit 8 (push_bit 8 0 OR (drop_bit 24 v AND 0xff)) OR (drop_bit 16 v AND 0xff))
     OR (drop_bit 8 v AND 0xff)) OR (v AND 0xff) = (v :: u32)"
proof (rule bit_word_eqI)
  fix n assume "n < LENGTH(32)"
  then have n: "n < 32" by simp
  consider "n < 8" | "8 \<le> n" "n < 16" | "16 \<le> n" "n < 24" | "24 \<le> n" by linarith
  then show "bit (push_bit 8 (push_bit 8 (push_bit 8 (push_bit 8 0 OR (drop_bit 24 v AND 0xff)) OR (drop_bit 16 v AND 0xff))
     OR (drop_bit 8 v AND 0xff)) OR (v AND 0xff)) n = bit v n"
    using n by cases (auto simp: mask_ff bit_simps)
qed

text \<open>
  An endpoint survives its text form: parsing what \<open>toString\<close> prints for a valid endpoint
  gives the endpoint back.
\<close>

theorem endpoint_parse_toString:
  assumes "valid ep"
  shows "endpoint_parse (endpoint_toString ep) = Some ep"
proof -
  let ?o = "\<lambda>k. unat (drop_bit k (ep_address ep) AND 0xff)"
  let ?host = "to_string (?o 24) @ ''.'' @ to_string (?o 16) @ ''.'' @ to_string (?o 8) @ ''.'' @
    to_string (unat (ep_address ep AND 0xff))"
  have "unat (ep_port ep) < 2 ^ LENGTH(16)" by (rule unsigned_less)
  then have port: "unat (ep_port ep) \<le> 65535" "unat (ep_port ep) \<noteq> 0"
    using assms by (auto simp: valid_def unat_eq_0)
  have host: "pieces (CHR ''.'') ?host = [to_string (?o 24), to_string (?o 16), to_string (?o 8),
    to_string (unat (ep_address ep AND 0xff))]"
    by (simp add: text_simps)
  have oct: "parse_octets (pieces (CHR ''.'') ?host) 0 0 = Some (ep_address ep, 4)"
    unfolding host
    by (simp only: parse_octets_to_string unat_and_ff) (simp add: octets_address [simplified])
  have printed: "endpoint_toString ep = ?host @ CHR '':'' # to_string (unat (ep_port ep))"
    by (simp add: endpoint_toString_def)
  have "rcut (CHR '':'') (endpoint_toString ep) = Some (?host, to_string (unat (ep_port ep)))"
    unfolding printed by (rule rcut_append_sep) simp
  with oct port assms show ?thesis
    unfolding endpoint_parse_def
    by (simp del: parse_octets.simps add: from_chars_unsigned_to_string Let_def)
qed

theorem endpoint_parse_toString_witness:
  "endpoint_parse (endpoint_toString \<lparr>ep_address = 0xC0A80102, ep_port = 41641\<rparr>) =
     Some \<lparr>ep_address = 0xC0A80102, ep_port = 41641\<rparr>"
  by (rule endpoint_parse_toString) (simp add: valid_def)

section \<open>Wire addresses\<close>

lemma getU16_inside: "i + 2 \<le> length p \<Longrightarrow> \<exists>v. getU16 p i = Some v"
  by (simp add: getU16_def rd8_inside)

lemma getU32_inside: "i + 4 \<le> length p \<Longrightarrow> \<exists>v. getU32 p i = Some v"
  by (simp add: getU32_def rd8_inside)

lemma leading_zeros_inside: "i + n \<le> length p \<Longrightarrow> \<exists>b. leading_zeros p i n = Some b"
  by (induction n arbitrary: i) (auto simp: rd8_inside)

lemma getAddrPort_inside:
  assumes "i + kAddrPortLen \<le> length p"
  shows "\<exists>r. getAddrPort p i = Some r"
proof -
  from assms leading_zeros_inside [of i 10 p] obtain z where "leading_zeros p i 10 = Some z"
    by (auto simp: kAddrPortLen_def)
  moreover from assms getU32_inside [of "i + 12" p] obtain a where "getU32 p (i + 12) = Some a"
    by (auto simp: kAddrPortLen_def)
  moreover from assms getU16_inside [of "i + 16" p] obtain q where "getU16 p (i + 16) = Some q"
    by (auto simp: kAddrPortLen_def)
  ultimately show ?thesis
    using assms by (simp add: getAddrPort_def rd8_inside kAddrPortLen_def Let_def)
qed

lemma rd8_append: "rd8 (a @ b) (length a + i) = rd8 b i"
  by (simp add: rd8_def)

lemma leading_zeros_append: "leading_zeros (a @ b) (length a + i) n = leading_zeros b i n"
proof (induction n arbitrary: i)
  case (Suc n)
  have "leading_zeros (a @ b) (length a + i + 1) n = leading_zeros b (i + 1) n"
    using Suc [of "i + 1"] by (simp add: add.assoc)
  then show ?case by (simp add: rd8_append cong: if_cong)
qed simp

lemma getU_append:
  "getU16 (a @ b) (length a + i) = getU16 b i" "getU32 (a @ b) (length a + i) = getU32 b i"
  by (simp_all add: getU16_def getU32_def add.assoc rd8_append [of a b, simplified] del: add_2_eq_Suc' add_Suc_right One_nat_def)

lemma getAddrPort_append: "getAddrPort (a @ b) (length a) = getAddrPort b 0"
  using leading_zeros_append [of a b 0] rd8_append [of a b] getU_append [of a b]
  by (simp add: getAddrPort_def cong: if_cong)

lemma getU_be:
  "getU16 (a @ be16 v @ b) (length a) = Some v" "getU32 (a @ be32 w @ b) (length a) = Some w"
proof -
  have "getU16 (be16 v @ b) 0 = Some v" "getU32 (be32 w @ b) 0 = Some w"
    by (simp_all add: getU16_def getU32_def rd8_def be16_def be32_def wire_simps)
  then show "getU16 (a @ be16 v @ b) (length a) = Some v" "getU32 (a @ be32 w @ b) (length a) = Some w"
    using getU_append [of a _ 0] by simp_all
qed

lemma leading_zeros_replicate: "leading_zeros (replicate n 0 @ b) 0 n = Some True"
proof (induction n)
  case (Suc n)
  have "leading_zeros ([0] @ replicate n 0 @ b) (length [0 :: u8]) n = leading_zeros (replicate n 0 @ b) 0 n"
    using leading_zeros_append [of "[0]" "replicate n 0 @ b" 0 n] by simp
  with Suc show ?case by (simp add: rd8_def)
qed simp

lemma putAddrPort_append: "putAddrPort out ep = out @ putAddrPort [] ep"
  by (simp add: putAddrPort_def putU16_def putU32_def)

lemma length_putAddrPort [simp]: "length (putAddrPort out ep) = length out + kAddrPortLen"
  by (simp add: putAddrPort_def putU16_def putU32_def kAddrPortLen_def)

lemma getAddrPort_putAddrPort:
  "getAddrPort (a @ putAddrPort [] ep @ b) (length a) = Some (if valid ep then Some ep else None)"
proof -
  let ?p = "replicate 10 (0 :: u8) @ [0xff, 0xff] @ be32 (ep_address ep) @ be16 (ep_port ep) @ b"
  have "getU32 ?p 12 = Some (ep_address ep)"
    using getU_be(2) [of "replicate 10 0 @ [0xff, 0xff]"] by simp
  moreover have "getU16 ?p 16 = Some (ep_port ep)"
    using getU_be(1) [of "replicate 10 0 @ [0xff, 0xff] @ be32 (ep_address ep)"] by simp
  moreover have "leading_zeros ?p 0 10 = Some True" by (rule leading_zeros_replicate)
  moreover have "rd8 ?p 10 = Some 0xff" "rd8 ?p 11 = Some 0xff"
    by (simp_all add: rd8_def nth_append)
  ultimately have "getAddrPort ?p 0 = Some (if valid ep then Some ep else None)"
    unfolding getAddrPort_def by (simp add: Let_def)
  then show ?thesis
    unfolding getAddrPort_append by (simp add: putAddrPort_def putU16_def putU32_def)
qed

section \<open>Disco messages\<close>

lemma foldl_putAddrPort: "foldl putAddrPort out eps = out @ concat (map (putAddrPort []) eps)"
proof (induction eps arbitrary: out)
  case (Cons ep eps)
  then show ?case using putAddrPort_append [of out ep] by simp
qed simp

lemma callMeMaybe_loop_encode:
  "callMeMaybe_loop (pre @ concat (map (putAddrPort []) eps)) (length pre) acc =
     Some (acc @ take (kMaxCandidates - length acc) (filter valid eps))"
proof (induction eps arbitrary: pre acc)
  case Nil
  then show ?case by (simp add: callMeMaybe_loop.simps)
next
  case (Cons ep eps)
  let ?acc = "if valid ep then acc @ [ep] else acc"
  have "callMeMaybe_loop ((pre @ putAddrPort [] ep) @ concat (map (putAddrPort []) eps))
      (length (pre @ putAddrPort [] ep)) ?acc = Some (?acc @ take (kMaxCandidates - length ?acc) (filter valid eps))"
    by (rule Cons.IH)
  then show ?case
    by (subst callMeMaybe_loop.simps)
      (auto simp: getAddrPort_putAddrPort kAddrPortLen_def take_Cons' Suc_diff_le)
qed

lemma foldl_encode_length: "length (concat (map (putAddrPort []) eps)) = kAddrPortLen * length eps"
  by (induction eps) simp_all

text \<open>What a receiver makes of a message: the fields its type carries, the others at their defaults.\<close>

definition on_the_wire :: "Message \<Rightarrow> Message" where
  "on_the_wire m =
     (case msg_type m of
        MsgPing \<Rightarrow> empty_message\<lparr>msg_txid := msg_txid m, msg_nodeKey := msg_nodeKey m, msg_hasNodeKey := True\<rparr>
      | MsgPong \<Rightarrow> empty_message\<lparr>msg_type := MsgPong, msg_txid := msg_txid m,
          msg_source := (if valid (msg_source m) then msg_source m else no_endpoint)\<rparr>
      | MsgCallMeMaybe \<Rightarrow> empty_message\<lparr>msg_type := MsgCallMeMaybe,
          msg_endpoints := take kMaxCandidates (filter valid (msg_endpoints m))\<rparr>)"

lemma decodePlaintext_encode:
  assumes "length (msg_txid m) = 12" and "length (msg_nodeKey m) = 32"
  shows "decodePlaintext (encodePlaintext m) = Some (Some (on_the_wire m))"
proof (cases "msg_type m")
  case MsgPing
  with assms show ?thesis
    by (simp add: decodePlaintext_def encodePlaintext_def on_the_wire_def rd8_def rd_span_def Let_def
        empty_message_def)
next
  case MsgPong
  have enc: "encodePlaintext m = [2, 0] @ msg_txid m @ putAddrPort [] (msg_source m)"
    using MsgPong putAddrPort_append [of "[2, 0] @ msg_txid m" "msg_source m"]
    by (simp add: encodePlaintext_def)
  have "getAddrPort (msg_txid m @ putAddrPort [] (msg_source m)) 12 =
      Some (if valid (msg_source m) then Some (msg_source m) else None)"
    using getAddrPort_putAddrPort [of "msg_txid m" "msg_source m" "[]"] assms by simp
  with MsgPong assms show ?thesis
    by (simp add: decodePlaintext_def enc on_the_wire_def rd8_def rd_span_def Let_def empty_message_def)
next
  case MsgCallMeMaybe
  have enc: "encodePlaintext m = [3, 0] @ concat (map (putAddrPort []) (msg_endpoints m))"
    using MsgCallMeMaybe by (simp add: encodePlaintext_def foldl_putAddrPort)
  show ?thesis
    using MsgCallMeMaybe callMeMaybe_loop_encode [of "[]" "msg_endpoints m" "[]"]
    by (simp add: decodePlaintext_def enc on_the_wire_def rd8_def Let_def empty_message_def foldl_encode_length)
qed

lemma callMeMaybe_loop_inside:
  "(length body - off) mod kAddrPortLen = 0 \<Longrightarrow> length eps \<le> kMaxCandidates \<Longrightarrow>
   \<exists>r. callMeMaybe_loop body off eps = Some r \<and> length r \<le> kMaxCandidates"
proof (induction body off eps rule: callMeMaybe_loop.induct)
  case (1 body off eps)
  show ?case
  proof (cases "off < length body \<and> length eps < kMaxCandidates")
    case True
    then have "kAddrPortLen \<le> length body - off"
      using 1(2) by (metis mod_less not_less zero_less_diff less_not_refl)
    then have inside: "off + kAddrPortLen \<le> length body"
      and next_mod: "(length body - (off + kAddrPortLen)) mod kAddrPortLen = 0"
      using 1(2) True by (auto simp: le_mod_geq)
    from getAddrPort_inside [OF inside] obtain r where r: "getAddrPort body off = Some r" by blast
    have "length (case r of None \<Rightarrow> eps | Some e \<Rightarrow> eps @ [e]) \<le> kMaxCandidates"
      using True by (simp split: option.split)
    from 1(1) [OF _ _ r next_mod this] True r show ?thesis
      by (subst callMeMaybe_loop.simps) simp
  qed (use 1 in \<open>auto simp: callMeMaybe_loop.simps\<close>)
qed

lemma decodePlaintext_inside: "\<exists>r. decodePlaintext p = Some r"
proof (cases "length p < 2")
  case False
  have pong: "30 \<le> length (drop 2 p) \<Longrightarrow> \<exists>r. getAddrPort (drop 2 p) 12 = Some r"
    using getAddrPort_inside [of 12 "drop 2 p"] by (simp add: kAddrPortLen_def)
  have cmm: "length (drop 2 p) mod kAddrPortLen = 0 \<Longrightarrow> \<exists>r. callMeMaybe_loop (drop 2 p) 0 [] = Some r"
    using callMeMaybe_loop_inside [of "drop 2 p" 0 "[]"] by auto
  from False obtain t where t: "rd8 p 0 = Some t" by (cases p) (auto simp: rd8_def)
  consider "t = 1" | "t = 2" | "t = 3" | "t \<noteq> 1" "t \<noteq> 2" "t \<noteq> 3" by blast
  then show ?thesis
  proof cases
    case 2
    with False t pong show ?thesis
      by (cases "length (drop 2 p) < 30")
        (auto simp: decodePlaintext_def Let_def rd_span_def kAddrPortLen_def)
  next
    case 3
    with False t cmm show ?thesis
      by (cases "length (drop 2 p) mod kAddrPortLen = 0") (auto simp: decodePlaintext_def Let_def)
  qed (use False t in \<open>auto simp: decodePlaintext_def Let_def rd_span_def\<close>)
qed (simp add: decodePlaintext_def)


section \<open>STUN responses\<close>

text \<open>
  A binding response as a server writes it: the header, then attributes of a type and a value,
  each padded to four bytes, then whatever else the datagram holds.
\<close>

definition stun_attr :: "u16 \<times> bytes \<Rightarrow> bytes" where
  "stun_attr a = be16 (fst a) @ be16 (word_of_nat (length (snd a))) @ snd a @
     replicate (padded (length (snd a)) - length (snd a)) 0"

definition stun_response :: "bytes \<Rightarrow> (u16 \<times> bytes) list \<Rightarrow> bytes \<Rightarrow> bytes" where
  "stun_response txid attrs rest =
     (let body = concat (map stun_attr attrs) in
      be16 0x0101 @ be16 (word_of_nat (length body)) @ be32 kMagicCookie @ txid @ body @ rest)"

definition attr_endpoint :: "bytes \<Rightarrow> IPv4Endpoint option" where
  "attr_endpoint v =
     (if 8 \<le> length v \<and> v ! 1 = 0x01
      then Some \<lparr>ep_address = of_be32 (v ! 4) (v ! 5) (v ! 6) (v ! 7), ep_port = of_be16 (v ! 2) (v ! 3)\<rparr>
      else None)"

definition unmask :: "IPv4Endpoint \<Rightarrow> IPv4Endpoint" where
  "unmask ep = \<lparr>ep_address = ep_address ep XOR 0x2112A442, ep_port = ep_port ep XOR 0x2112\<rparr>"

definition attr_xor_mapped :: "u16 \<times> bytes \<Rightarrow> IPv4Endpoint option" where
  "attr_xor_mapped a = (if fst a = 0x0020 then Option.bind (attr_endpoint (snd a))
     (\<lambda>ep. if valid (unmask ep) then Some (unmask ep) else None) else None)"

definition attr_mapped :: "u16 \<times> bytes \<Rightarrow> IPv4Endpoint option" where
  "attr_mapped a = (if fst a = 0x0001 then Option.bind (attr_endpoint (snd a))
     (\<lambda>ep. if valid ep then Some ep else None) else None)"

fun first_some :: "('a \<Rightarrow> 'b option) \<Rightarrow> 'a list \<Rightarrow> 'b option" where
  "first_some f [] = None"
| "first_some f (x # xs) = (case f x of Some y \<Rightarrow> Some y | None \<Rightarrow> first_some f xs)"

lemma padded_bounds: "n \<le> padded n" "padded n < n + 4" "4 dvd padded n"
  unfolding padded_def by presburger+

lemma length_stun_attr: "length (stun_attr a) = 4 + padded (length (snd a))"
  using padded_bounds(1) [of "length (snd a)"] by (simp add: stun_attr_def)

lemma response_loop_attr:
  fixes pre :: bytes
  assumes len: "length v < 65536"
    and fin: "length pre + 4 + length v \<le> fin"
  shows "response_loop (pre @ stun_attr (ty, v) @ post) fin (length pre) mapped =
    (case attr_xor_mapped (ty, v) of
       Some ep \<Rightarrow> Some (Some ep)
     | None \<Rightarrow> response_loop (pre @ stun_attr (ty, v) @ post) fin (length pre + length (stun_attr (ty, v)))
                (case mapped of Some m \<Rightarrow> Some m | None \<Rightarrow> attr_mapped (ty, v)))"
proof -
  let ?tail = "replicate (padded (length v) - length v) 0 @ post"
  let ?p = "pre @ be16 ty @ be16 (word_of_nat (length v)) @ v @ ?tail"
  have ty: "getU16 ?p (length pre) = Some ty" by (rule getU_be)
  have "getU16 ((pre @ be16 ty) @ be16 (word_of_nat (length v)) @ v @ ?tail) (length (pre @ be16 ty))
    = Some (word_of_nat (length v))" by (rule getU_be)
  then have ln: "getU16 ?p (length pre + 2) = Some (word_of_nat (length v))" by simp
  have un: "unat (word_of_nat (length v) :: u16) = length v" using len by (simp add: unat_of_nat)
  have val: "rd8 ?p k = Some (v ! i)" if "i < length v" "k = length pre + 4 + i" for i k
  proof -
    have "rd8 ((pre @ be16 ty @ be16 (word_of_nat (length v))) @ v @ ?tail)
      (length (pre @ be16 ty @ be16 (word_of_nat (length v))) + i) = rd8 (v @ ?tail) i"
      by (rule rd8_append)
    with that show ?thesis by (simp add: rd8_def nth_append add.assoc)
  qed
  have reads: "rd8 ?p (length pre + 5) = Some (v ! 1)"
      "getU16 ?p (length pre + 6) = Some (of_be16 (v ! 2) (v ! 3))"
      "getU32 ?p (length pre + 8) = Some (of_be32 (v ! 4) (v ! 5) (v ! 6) (v ! 7))" if "8 \<le> length v"
    unfolding getU16_def getU32_def using that
    by (simp_all only: val [of 1] val [of 2] val [of 3] val [of 4] val [of 5] val [of 6] val [of 7]) simp_all
  have packet: "pre @ stun_attr (ty, v) @ post = ?p" by (simp add: stun_attr_def)
  have adv: "length pre + 4 + padded (length v) = length pre + length (stun_attr (ty, v))"
    by (simp add: length_stun_attr)
  have cookie: "ucast (drop_bit 16 kMagicCookie) = (0x2112 :: u16)" by (simp add: kMagicCookie_def)
  show ?thesis
  proof (cases "(ty = 0x0020 \<or> ty = 0x0001) \<and> 8 \<le> length v \<and> v ! 1 = 1")
    case True
    then show ?thesis
      unfolding packet using fin
      by (subst response_loop.simps)
        (auto simp: ty ln un reads adv cookie Let_def attr_xor_mapped_def attr_mapped_def
          attr_endpoint_def unmask_def kMagicCookie_def simp del: add_2_eq_Suc' split: option.split)
  next
    case False
    then have "attr_xor_mapped (ty, v) = None" "attr_mapped (ty, v) = None"
      by (auto simp: attr_xor_mapped_def attr_mapped_def attr_endpoint_def)
    with False show ?thesis
      unfolding packet using fin
      by (subst response_loop.simps)
        (auto simp: ty ln un reads adv simp del: add_2_eq_Suc' split: option.split)
  qed
qed

lemma response_loop_attrs:
  assumes "\<forall>a \<in> set attrs. length (snd a) < 65536"
    and "fin = length pre + length (concat (map stun_attr attrs))"
  shows "response_loop (pre @ concat (map stun_attr attrs) @ rest) fin (length pre) mapped =
    Some (case first_some attr_xor_mapped attrs of
            Some ep \<Rightarrow> Some ep
          | None \<Rightarrow> (case mapped of Some m \<Rightarrow> Some m | None \<Rightarrow> first_some attr_mapped attrs))"
  using assms
proof (induction attrs arbitrary: pre mapped)
  case Nil
  then show ?case by (simp add: response_loop.simps split: option.split)
next
  case (Cons a attrs)
  obtain ty v where a: "a = (ty, v)" by (cases a)
  let ?post = "concat (map stun_attr attrs) @ rest"
  let ?m = "case mapped of Some m \<Rightarrow> Some m | None \<Rightarrow> attr_mapped (ty, v)"
  have "response_loop (pre @ stun_attr (ty, v) @ ?post) fin (length pre) mapped =
    (case attr_xor_mapped (ty, v) of
       Some ep \<Rightarrow> Some (Some ep)
     | None \<Rightarrow> response_loop (pre @ stun_attr (ty, v) @ ?post) fin (length pre + length (stun_attr (ty, v))) ?m)"
    using Cons.prems a padded_bounds(1) [of "length v"]
    by (intro response_loop_attr) (auto simp: length_stun_attr)
  moreover have "response_loop ((pre @ stun_attr a) @ ?post) fin (length (pre @ stun_attr a)) ?m =
    Some (case first_some attr_xor_mapped attrs of
            Some ep \<Rightarrow> Some ep
          | None \<Rightarrow> (case ?m of Some m \<Rightarrow> Some m | None \<Rightarrow> first_some attr_mapped attrs))"
    using Cons.prems by (intro Cons.IH) auto
  ultimately show ?case by (simp add: a split: option.split)
qed

text \<open>
  The STUN client reports the first valid XOR-MAPPED-ADDRESS of a binding response, wherever
  it stands among the attributes, and only without one the first valid MAPPED-ADDRESS; other
  attributes, other address families and bytes behind the message change nothing.
\<close>

theorem parseBindingResponse_prefers_xor:
  assumes txid: "length txid = 12"
    and size: "length (concat (map stun_attr attrs)) < 65536"
  shows "parseBindingResponse (stun_response txid attrs rest) txid =
    Some (case first_some attr_xor_mapped attrs of
            Some ep \<Rightarrow> Some ep
          | None \<Rightarrow> first_some attr_mapped attrs)"
proof -
  let ?body = "concat (map stun_attr attrs)"
  let ?len = "word_of_nat (length ?body) :: u16"
  let ?h = "be16 0x0101 @ be16 ?len @ be32 kMagicCookie"
  let ?p = "stun_response txid attrs rest"
  have p: "?p = (?h @ txid) @ ?body @ rest" by (simp add: stun_response_def Let_def)
  have len: "unat ?len = length ?body" using size by (simp add: unat_of_nat)
  have "getU16 ([] @ be16 0x0101 @ be16 ?len @ be32 kMagicCookie @ txid @ ?body @ rest) (length ([] :: bytes)) = Some 0x0101"
    by (rule getU_be)
  then have ty: "getU16 ?p 0 = Some 0x0101" by (simp add: p)
  have "getU16 (be16 0x0101 @ be16 ?len @ be32 kMagicCookie @ txid @ ?body @ rest) (length (be16 0x0101)) = Some ?len"
    by (rule getU_be)
  then have ln: "getU16 ?p 2 = Some ?len" by (simp add: p)
  have "getU32 ((be16 0x0101 @ be16 ?len) @ be32 kMagicCookie @ txid @ ?body @ rest) (length (be16 0x0101 @ be16 ?len)) = Some kMagicCookie"
    by (rule getU_be)
  then have ck: "getU32 ?p 4 = Some kMagicCookie" by (simp add: p)
  have "rd8 ?p 0 = Some 1" by (simp add: p rd8_def be16_def)
  with ck txid have stun: "looksLikeStun ?p = Some True"
    by (simp add: looksLikeStun_def kStunHeaderLen_def p)
  have id: "rd_span ?p 8 12 = Some txid" using txid by (simp add: p rd_span_def)
  have "\<forall>a \<in> set attrs. length (snd a) < 65536"
  proof
    fix a assume "a \<in> set attrs"
    then have "length (stun_attr a) \<le> length ?body"
      by (auto simp: length_concat intro: member_le_sum_list)
    with size padded_bounds(1) [of "length (snd a)"] show "length (snd a) < 65536"
      by (simp add: length_stun_attr)
  qed
  from response_loop_attrs [OF this, of "20 + length ?body" "?h @ txid" rest None] txid
  have "response_loop ?p (20 + length ?body) 20 None =
      Some (case first_some attr_xor_mapped attrs of Some ep \<Rightarrow> Some ep | None \<Rightarrow> first_some attr_mapped attrs)"
    by (simp add: p split: option.split)
  with stun ty ln id txid len show ?thesis
    by (simp add: parseBindingResponse_def kStunHeaderLen_def) (simp add: p)
qed

theorem parseBindingResponse_prefers_xor_witness:
  "parseBindingResponse (stun_response (replicate 12 7)
       [(0x0001, [0, 1, 0x1f, 0x90, 10, 0, 0, 1]), (0x8022, [1, 2, 3]),
        (0x0020, [0, 1, 0x3e, 0x82, 0xd2, 0x12, 0xa4, 0x43])] [9]) (replicate 12 7) =
     Some (Some \<lparr>ep_address = 0xF3000001, ep_port = 0x1f90\<rparr>)"
proof -
  let ?as = "[(0x0001, [0, 1, 0x1f, 0x90, 10, 0, 0, 1]), (0x8022, [1, 2, 3]),
        (0x0020, [0, 1, 0x3e, 0x82, 0xd2, 0x12, 0xa4, 0x43])] :: (u16 \<times> bytes) list"
  have "first_some attr_xor_mapped ?as = Some \<lparr>ep_address = 0xF3000001, ep_port = 0x1f90\<rparr>"
    by (simp add: attr_xor_mapped_def attr_endpoint_def unmask_def valid_def of_be16_def of_be32_def)
  moreover have "length (concat (map stun_attr ?as)) < 65536"
    by (simp add: length_stun_attr padded_def)
  ultimately show ?thesis
    using parseBindingResponse_prefers_xor [of "replicate 12 7" ?as "[9]"] by simp
qed

lemma response_loop_inside:
  "fin \<le> length packet \<Longrightarrow> \<exists>r. response_loop packet fin off mapped = Some r"
proof (induction "fin - off" arbitrary: off mapped rule: less_induct)
  case less
  show ?case
  proof (cases "off + 4 \<le> fin")
    case True
    with less.prems getU16_inside [of off packet] getU16_inside [of "off + 2" packet] obtain ty len
      where reads: "getU16 packet off = Some ty" "getU16 packet (off + 2) = Some len" by auto
    have IH: "\<exists>r. response_loop packet fin (off + 4 + k) m = Some r" for k m
      using less.prems True by (intro less.hyps) auto
    show ?thesis
    proof (cases "8 \<le> unat len \<and> off + 4 + unat len \<le> fin")
      case long: True
      with less.prems getU16_inside [of "off + 6" packet] getU32_inside [of "off + 8" packet]
      obtain port address where "getU16 packet (off + 6) = Some port" "getU32 packet (off + 8) = Some address"
        by auto
      moreover from long less.prems have "rd8 packet (off + 5) = Some (packet ! (off + 5))"
        by (simp add: rd8_def)
      ultimately show ?thesis
        using True reads IH by (subst response_loop.simps) (simp add: Let_def del: add_2_eq_Suc')
    qed (use True reads IH in \<open>subst response_loop.simps, auto simp del: add_2_eq_Suc'\<close>)
  qed (simp add: response_loop.simps)
qed

text \<open>
  The STUN binding-response parser of the direct path never reads outside the datagram,
  whatever arrives.
\<close>

theorem parseBindingResponse_inside:
  assumes "length txid = 12"
  shows "\<exists>r. parseBindingResponse packet txid = Some r"
proof (cases "length packet < kStunHeaderLen")
  case True
  then show ?thesis by (simp add: parseBindingResponse_def looksLikeStun_def)
next
  case False
  then have len: "20 \<le> length packet" by (simp add: kStunHeaderLen_def)
  then obtain c ty ln where "getU32 packet 4 = Some c" "getU16 packet 0 = Some ty" "getU16 packet 2 = Some ln"
    using getU32_inside [of 4 packet] getU16_inside [of 0 packet] getU16_inside [of 2 packet] by auto
  moreover have "rd8 packet 0 = Some (packet ! 0)" using len by (intro rd8_inside) linarith
  ultimately show ?thesis
    using len assms response_loop_inside [of "20 + unat ln" packet 20 None]
    by (simp add: parseBindingResponse_def looksLikeStun_def kStunHeaderLen_def rd_span_def
        del: bind_eq_Some_conv)
qed

theorem parseBindingResponse_inside_witness:
  "\<exists>r. parseBindingResponse [1, 1, 0, 8, 0x21, 0x12, 0xA4, 0x42, 0, 0, 0, 0, 0, 0, 0, 0, 0, 0, 0, 0,
     0, 0x20, 0xff, 0xff] (replicate 12 0) = Some r"
  by (rule parseBindingResponse_inside) simp

section \<open>Sealed packets\<close>

text \<open>
  Opening a Disco packet never reads outside it, whatever arrives on the UDP socket or over
  DERP and whatever the key.
\<close>

theorem disco_open_inside: "\<exists>r. disco_open x25519 poly1305 packet myPrivate = Some r"
proof (cases "looksLikeDisco packet")
  case True
  then have len: "kHeaderLen \<le> length packet" by (simp add: looksLikeDisco_def)
  then have "rd_span packet (length kMagic) 32 = Some (take 32 (drop (length kMagic) packet))"
    "rd_span packet (length kMagic + 32) kNonceLen = Some (take kNonceLen (drop (length kMagic + 32) packet))"
    by (auto simp: rd_span_def kHeaderLen_def)
  moreover have "\<exists>r. Option.bind (decodePlaintext q) (\<lambda>message. Some (f message)) = Some r" for q f
    using decodePlaintext_inside [of q] by auto
  ultimately show ?thesis
    using True by (auto simp: disco_open_def senderKey_def split: sum.splits)
qed (simp add: disco_open_def senderKey_def)



end
