(* ===== verification/TailscaleDirectPath.thy ===== *)
theory TailscaleDirectPath
  imports TailscaleDisco
begin

text \<open>
  Model of the class \<open>DirectPath\<close> of \<open>app/src/remote_access/tailscale/TailscaleDisco.hpp\<close> and
  \<open>.cpp\<close>: which UDP endpoint of a peer is trusted for WireGuard traffic.  The class keeps the
  candidate endpoints, the pings that are waiting for a pong, and the best endpoint with the time
  and round trip of its last pong.  Times are nanoseconds of the steady clock.  The step relation
  \<open>reach\<close> runs the operations in any order under a clock that never goes back, and the
  invariants say what the sequence of operations implies about the trusted endpoint.
\<close>

section \<open>State\<close>

record Candidate =
  cand_endpoint :: IPv4Endpoint
  lastPing :: time_point
  pinged :: bool

record Pending =
  pend_txid :: bytes
  pend_endpoint :: IPv4Endpoint
  sent :: time_point

record DirectPath =
  candidates :: "Candidate list"
  pending :: "Pending list"
  bestEndpoint :: IPv4Endpoint
  bestPong :: time_point
  bestRttMs :: int

definition kTrustDuration :: int where
  "kTrustDuration = 6500 * 1000000"

definition kHeartbeat :: int where
  "kHeartbeat = 3 * 1000000000"

definition kPingTimeout :: int where
  "kPingTimeout = 5 * 1000000000"

definition new_DirectPath :: DirectPath where
  "new_DirectPath = \<lparr>candidates = [], pending = [], bestEndpoint = no_endpoint, bestPong = 0, bestRttMs = -1\<rparr>"

section \<open>Operations\<close>

definition isCandidate :: "DirectPath \<Rightarrow> IPv4Endpoint \<Rightarrow> bool" where
  "isCandidate s endpoint = list_ex (\<lambda>c. cand_endpoint c = endpoint) (candidates s)"

definition addCandidate :: "IPv4Endpoint \<Rightarrow> DirectPath \<Rightarrow> DirectPath" where
  "addCandidate endpoint s =
     (if \<not> valid endpoint \<or> isCandidate s endpoint then s
      else
        let kept = (if length (candidates s) \<ge> kMaxCandidates then tl (candidates s) else candidates s)
        in s\<lparr>candidates := kept @ [\<lparr>cand_endpoint = endpoint, lastPing = 0, pinged = False\<rparr>]\<rparr>)"

definition due :: "time_point \<Rightarrow> DirectPath \<Rightarrow> IPv4Endpoint list \<times> DirectPath" where
  "due now s =
     (map cand_endpoint (filter (\<lambda>c. \<not> pinged c \<or> now - lastPing c \<ge> kHeartbeat) (candidates s)),
      s\<lparr>pending := filter (\<lambda>p. \<not> now - sent p > kPingTimeout) (pending s)\<rparr>)"

definition notePingSent :: "bytes \<Rightarrow> IPv4Endpoint \<Rightarrow> time_point \<Rightarrow> DirectPath \<Rightarrow> DirectPath" where
  "notePingSent txid endpoint now s =
     (let kept = (if length (pending s) \<ge> kMaxCandidates * 4 then tl (pending s) else pending s)
      in s\<lparr>candidates := map (\<lambda>c. if cand_endpoint c = endpoint
                                then c\<lparr>lastPing := now, pinged := True\<rparr> else c) (candidates s),
           pending := kept @ [\<lparr>pend_txid = txid, pend_endpoint = endpoint, sent = now\<rparr>]\<rparr>)"

definition best :: "time_point \<Rightarrow> DirectPath \<Rightarrow> IPv4Endpoint option" where
  "best now s =
     (if \<not> valid (bestEndpoint s) \<or> now - bestPong s > kTrustDuration then None else Some (bestEndpoint s))"

text \<open>\<open>duration_cast\<close> to milliseconds rounds towards zero.\<close>

definition to_ms :: "int \<Rightarrow> int" where
  "to_ms d = sgn d * (\<bar>d\<bar> div 1000000)"

text \<open>\<open>pending_.erase(found)\<close> at the first entry with the transaction id.\<close>

fun erase_txid :: "bytes \<Rightarrow> Pending list \<Rightarrow> Pending list" where
  "erase_txid t [] = []"
| "erase_txid t (p # ps) = (if pend_txid p = t then ps else p # erase_txid t ps)"

definition notePong :: "bytes \<Rightarrow> IPv4Endpoint \<Rightarrow> time_point \<Rightarrow> DirectPath \<Rightarrow> int option \<times> DirectPath" where
  "notePong txid from now s =
     (case find (\<lambda>p. pend_txid p = txid) (pending s) of
        None \<Rightarrow> (None, s)
      | Some found \<Rightarrow>
          let s1 = s\<lparr>pending := erase_txid txid (pending s)\<rparr> in
          if pend_endpoint found \<noteq> from \<or> now - sent found > kPingTimeout then (None, s1)
          else
            let rtt = to_ms (now - sent found);
                bestValid = (best now s1 \<noteq> None)
            in (Some rtt,
                if \<not> bestValid \<or> from = bestEndpoint s1 \<or> rtt * 10 < bestRttMs s1 * 9
                then s1\<lparr>bestEndpoint := from, bestRttMs := rtt, bestPong := now\<rparr> else s1))"

definition DirectPath_reset :: "DirectPath \<Rightarrow> DirectPath" where
  "DirectPath_reset s = s\<lparr>candidates := [], pending := [], bestEndpoint := no_endpoint, bestPong := 0, bestRttMs := -1\<rparr>"

section \<open>Runs\<close>

datatype event =
    AddCandidate IPv4Endpoint
  | Due
  | PingSent bytes IPv4Endpoint
  | Pong bytes IPv4Endpoint
  | Reset

fun dp_event :: "time_point \<Rightarrow> event \<Rightarrow> DirectPath \<Rightarrow> DirectPath" where
  "dp_event now (AddCandidate ep) s = addCandidate ep s"
| "dp_event now Due s = snd (due now s)"
| "dp_event now (PingSent txid ep) s = notePingSent txid ep now s"
| "dp_event now (Pong txid from) s = snd (notePong txid from now s)"
| "dp_event now Reset s = DirectPath_reset s"

text \<open>\<open>reach evs now s\<close>: the timed calls \<open>evs\<close> lead from a new object to \<open>s\<close> at \<open>now\<close>.\<close>

inductive reach :: "(time_point \<times> event) list \<Rightarrow> time_point \<Rightarrow> DirectPath \<Rightarrow> bool" where
  reach_new: "reach [] t new_DirectPath"
| reach_event: "reach evs t s \<Longrightarrow> t \<le> t' \<Longrightarrow> reach (evs @ [(t', e)]) t' (dp_event t' e s)"

section \<open>Bounds\<close>

definition dp_inv :: "DirectPath \<Rightarrow> bool" where
  "dp_inv s = (length (candidates s) \<le> 16 \<and> length (pending s) \<le> 64 \<and>
     distinct (map cand_endpoint (candidates s)) \<and> list_all (\<lambda>c. valid (cand_endpoint c)) (candidates s) \<and>
     bestRttMs s \<le> 5000)"

lemma length_erase_txid: "length (erase_txid t ps) \<le> length ps"
  by (induction ps) auto

lemma set_erase_txid: "set (erase_txid t ps) \<subseteq> set ps"
  by (induction ps) auto

lemma to_ms_le: "d \<le> kPingTimeout \<Longrightarrow> to_ms d \<le> 5000"
  by (auto simp: to_ms_def kPingTimeout_def sgn_if)

lemma to_ms_nonneg: "0 \<le> d \<Longrightarrow> 0 \<le> to_ms d"
  by (auto simp: to_ms_def sgn_if)

lemma addCandidate_inv: "dp_inv s \<Longrightarrow> dp_inv (addCandidate ep s)"
  by (cases "candidates s")
    (auto simp: dp_inv_def addCandidate_def isCandidate_def Let_def kMaxCandidates_def list_ex_iff list_all_iff)

lemma notePingSent_inv:
  assumes "dp_inv s"
  shows "dp_inv (notePingSent txid ep now s)"
proof -
  have eps: "map cand_endpoint (map (\<lambda>c. if cand_endpoint c = ep then c\<lparr>lastPing := now, pinged := True\<rparr> else c) cs)
      = map cand_endpoint cs" for cs :: "Candidate list"
    by simp
  show ?thesis
    using assms eps [of "candidates s"]
    by (auto simp: dp_inv_def notePingSent_def Let_def kMaxCandidates_def list_all_iff o_def
        simp del: map_map)
qed

lemma notePong_inv: "dp_inv s \<Longrightarrow> dp_inv (snd (notePong txid from now s))"
  using length_erase_txid [of txid "pending s"]
  by (auto simp: dp_inv_def notePong_def Let_def to_ms_le split: option.split)

lemma dp_event_inv: "dp_inv s \<Longrightarrow> dp_inv (dp_event now e s)"
proof (cases e)
  case Due
  assume "dp_inv s"
  moreover have "length (filter P (pending s)) \<le> length (pending s)" for P by (rule length_filter_le)
  ultimately show ?thesis using Due by (auto simp: dp_inv_def due_def elim: le_trans [rotated])
qed (simp_all add: addCandidate_inv notePingSent_inv notePong_inv, simp add: dp_inv_def DirectPath_reset_def)

lemma reach_inv: "reach evs now s \<Longrightarrow> dp_inv s"
proof (induction rule: reach.induct)
  case (reach_new t)
  then show ?case by (simp add: dp_inv_def new_DirectPath_def)
qed (rule dp_event_inv)

text \<open>
  Memory of the path chooser stays bounded under any sequence of calls: at most 16 candidates,
  all valid and pairwise different, and at most 64 outstanding pings, however many endpoints a
  peer announces and however many pings go unanswered.
\<close>

theorem DirectPath_bounded:
  assumes "reach evs now s"
  shows "length (candidates s) \<le> 16 \<and> length (pending s) \<le> 64
    \<and> distinct (map cand_endpoint (candidates s)) \<and> (\<forall>c \<in> set (candidates s). valid (cand_endpoint c))"
  using reach_inv [OF assms] by (simp add: dp_inv_def list_all_iff)

theorem DirectPath_bounded_witness:
  "\<exists>s. reach [(5, AddCandidate \<lparr>ep_address = 1, ep_port = 2\<rparr>)] 5 s
     \<and> length (candidates s) \<le> 16 \<and> length (pending s) \<le> 64
     \<and> distinct (map cand_endpoint (candidates s)) \<and> (\<forall>c \<in> set (candidates s). valid (cand_endpoint c))"
  using DirectPath_bounded reach_event [OF reach_new [of 0], of 5 "AddCandidate \<lparr>ep_address = 1, ep_port = 2\<rparr>"]
  by fastforce

section \<open>Trust\<close>

definition no_reset :: "(time_point \<times> event) list \<Rightarrow> bool" where
  "no_reset evs = (Reset \<notin> snd ` set evs)"

lemma no_reset_simps [simp]:
  "no_reset []" "no_reset (x # xs) = (snd x \<noteq> Reset \<and> no_reset xs)"
  "no_reset (xs @ ys) = (no_reset xs \<and> no_reset ys)"
  by (auto simp: no_reset_def)

text \<open>\<open>ping_in evs p\<close>: the pending entry \<open>p\<close> was sent in \<open>evs\<close>, after the last reset.\<close>

definition ping_in :: "(time_point \<times> event) list \<Rightarrow> Pending \<Rightarrow> bool" where
  "ping_in evs p = (\<exists>as bs. evs = as @ (sent p, PingSent (pend_txid p) (pend_endpoint p)) # bs \<and> no_reset bs)"

text \<open>\<open>answered evs t0 t1 ep\<close>: a ping sent to \<open>ep\<close> at \<open>t0\<close> was answered from \<open>ep\<close> at \<open>t1\<close>.\<close>

definition answered :: "(time_point \<times> event) list \<Rightarrow> time_point \<Rightarrow> time_point \<Rightarrow> IPv4Endpoint \<Rightarrow> bool" where
  "answered evs t0 t1 ep = (\<exists>txid as bs cs.
     evs = as @ (t0, PingSent txid ep) # bs @ (t1, Pong txid ep) # cs \<and> no_reset (bs @ cs))"

definition trusted :: "(time_point \<times> event) list \<Rightarrow> DirectPath \<Rightarrow> bool" where
  "trusted evs s = (valid (bestEndpoint s) \<longrightarrow>
     (\<exists>t0. answered evs t0 (bestPong s) (bestEndpoint s) \<and> t0 \<le> bestPong s
        \<and> bestPong s - t0 \<le> kPingTimeout \<and> bestRttMs s = to_ms (bestPong s - t0)))"

lemma ping_in_snoc: "ping_in evs p \<Longrightarrow> snd x \<noteq> Reset \<Longrightarrow> ping_in (evs @ [x]) p"
  unfolding ping_in_def by (metis append_Cons append_assoc no_reset_simps)

lemma answered_snoc: "answered evs t0 t1 ep \<Longrightarrow> snd x \<noteq> Reset \<Longrightarrow> answered (evs @ [x]) t0 t1 ep"
  unfolding answered_def by (metis append_Cons append_assoc no_reset_simps)

lemma ping_in_new: "ping_in (evs @ [(t, PingSent txid ep)]) \<lparr>pend_txid = txid, pend_endpoint = ep, sent = t\<rparr>"
  by (force simp: ping_in_def)

lemma answered_new:
  assumes "ping_in evs p"
  shows "answered (evs @ [(t, Pong (pend_txid p) (pend_endpoint p))]) (sent p) t (pend_endpoint p)"
proof -
  from assms obtain as bs where "evs = as @ (sent p, PingSent (pend_txid p) (pend_endpoint p)) # bs" "no_reset bs"
    by (auto simp: ping_in_def)
  then show ?thesis
    unfolding answered_def
    by (intro exI [of _ "pend_txid p"] exI [of _ as] exI [of _ bs] exI [of _ "[]"]) simp
qed

lemma trusted_snoc:
  assumes "trusted evs s" "snd x \<noteq> Reset"
    and "bestEndpoint s' = bestEndpoint s" "bestPong s' = bestPong s" "bestRttMs s' = bestRttMs s"
  shows "trusted (evs @ [x]) s'"
  using assms answered_snoc [of evs _ _ _ x] unfolding trusted_def by metis

definition pings_known :: "(time_point \<times> event) list \<Rightarrow> time_point \<Rightarrow> DirectPath \<Rightarrow> bool" where
  "pings_known evs now s = (\<forall>p \<in> set (pending s). ping_in evs p \<and> sent p \<le> now)"

lemma pings_known_sub:
  assumes "pings_known evs now s" "set (pending s') \<subseteq> set (pending s)" "now \<le> now'" "snd x \<noteq> Reset"
  shows "pings_known (evs @ [x]) now' s'"
  using assms ping_in_snoc [of evs _ x] unfolding pings_known_def by (meson order_trans subsetD)

lemma Pong_trust:
  assumes "pings_known evs now s" "trusted evs s" "now \<le> t"
  shows "trusted (evs @ [(t, Pong txid from)]) (snd (notePong txid from t s))"
proof (cases "find (\<lambda>p. pend_txid p = txid) (pending s)")
  case None
  then have "snd (notePong txid from t s) = s" by (simp add: notePong_def)
  with assms(2) show ?thesis by (simp add: trusted_snoc)
next
  case (Some p)
  let ?s' = "snd (notePong txid from t s)"
  from find_SomeD [OF Some] assms(1) have p: "pend_txid p = txid" "ping_in evs p" "sent p \<le> now"
    by (auto simp: pings_known_def)
  show ?thesis
  proof (cases "bestEndpoint ?s' = bestEndpoint s \<and> bestPong ?s' = bestPong s \<and> bestRttMs ?s' = bestRttMs s")
    case True
    with assms(2) show ?thesis by (simp add: trusted_snoc)
  next
    case False
    with Some have eq: "pend_endpoint p = from" and "\<not> t - sent p > kPingTimeout"
      and new: "bestEndpoint ?s' = from" "bestPong ?s' = t" "bestRttMs ?s' = to_ms (t - sent p)"
      by (auto simp: notePong_def Let_def split: if_splits)
    moreover have "answered (evs @ [(t, Pong txid from)]) (sent p) t from"
      using answered_new [OF p(2), of t] p(1) eq by simp
    ultimately show ?thesis
      using p(3) assms(3) by (auto simp: trusted_def intro!: exI [of _ "sent p"])
  qed
qed

lemma dp_event_trust:
  assumes "pings_known evs now s" "trusted evs s" "now \<le> t"
  shows "pings_known (evs @ [(t, e)]) t (dp_event t e s) \<and> trusted (evs @ [(t, e)]) (dp_event t e s)"
proof (cases e)
  case (AddCandidate ep)
  with assms show ?thesis
    by (auto simp: addCandidate_def Let_def intro!: trusted_snoc pings_known_sub)
next
  case Due
  with assms show ?thesis by (auto simp: due_def intro!: trusted_snoc pings_known_sub)
next
  case (PingSent txid ep)
  let ?s' = "notePingSent txid ep t s"
  have "set (pending ?s') \<subseteq> insert \<lparr>pend_txid = txid, pend_endpoint = ep, sent = t\<rparr> (set (pending s))"
    by (cases "pending s") (auto simp: notePingSent_def Let_def)
  then have "pings_known (evs @ [(t, e)]) t ?s'"
    using assms(1,3) PingSent ping_in_new [of evs t txid ep] ping_in_snoc [of evs _ "(t, e)"]
    by (force simp: pings_known_def)
  moreover have "trusted (evs @ [(t, e)]) ?s'"
    using assms(2) PingSent by (auto simp: notePingSent_def Let_def intro!: trusted_snoc)
  ultimately show ?thesis using PingSent by simp
next
  case (Pong txid source)
  have "set (pending (snd (notePong txid source t s))) \<subseteq> set (pending s)"
    using set_erase_txid by (auto simp: notePong_def Let_def split: option.split)
  then show ?thesis
    using Pong Pong_trust [OF assms] pings_known_sub [OF assms(1) _ assms(3)] by simp
next
  case Reset
  then show ?thesis
    by (simp add: DirectPath_reset_def pings_known_def trusted_def valid_def no_endpoint_def)
qed

lemma reach_trust: "reach evs now s \<Longrightarrow> pings_known evs now s \<and> trusted evs s"
proof (induction rule: reach.induct)
  case (reach_new t)
  then show ?case by (simp add: pings_known_def trusted_def new_DirectPath_def valid_def no_endpoint_def)
next
  case (reach_event evs t s t' e)
  then show ?case using dp_event_trust by blast
qed

text \<open>
  C1: Traffic goes to an endpoint only on fresh evidence: whenever \<open>best\<close> names an endpoint, a
  ping was sent to exactly that endpoint and answered from it, with the same transaction id, within
  five seconds, at most 6.5 seconds ago and after the last reset; forged, late or misdirected pongs
  never steer it.  The recorded round trip is that ping's, between 0 and 5000 ms, so the comparison
  of round trips does not overflow an \<open>int\<close>.
\<close>

theorem best_only_answered:
  assumes "reach evs t s" and "best now s = Some ep"
  shows "\<exists>t0 t1. answered evs t0 t1 ep \<and> t0 \<le> t1 \<and> t1 - t0 \<le> kPingTimeout \<and> now - t1 \<le> kTrustDuration
    \<and> bestRttMs s = to_ms (t1 - t0) \<and> 0 \<le> bestRttMs s \<and> bestRttMs s \<le> 5000"
proof -
  from assms(2) have best: "valid (bestEndpoint s)" "ep = bestEndpoint s" "now - bestPong s \<le> kTrustDuration"
    by (auto simp: best_def split: if_splits)
  with reach_trust [OF assms(1)] obtain t0
    where t0: "answered evs t0 (bestPong s) ep" "t0 \<le> bestPong s" "bestPong s - t0 \<le> kPingTimeout"
      "bestRttMs s = to_ms (bestPong s - t0)"
    by (auto simp: trusted_def)
  then have "0 \<le> bestRttMs s" "bestRttMs s \<le> 5000" by (simp_all add: to_ms_nonneg to_ms_le)
  with t0 best(3) show ?thesis by blast
qed

lemma reach_example:
  "reach [(1, PingSent [7] \<lparr>ep_address = 1, ep_port = 2\<rparr>), (3, Pong [7] \<lparr>ep_address = 1, ep_port = 2\<rparr>)] 3
     \<lparr>candidates = [], pending = [], bestEndpoint = \<lparr>ep_address = 1, ep_port = 2\<rparr>, bestPong = 3, bestRttMs = 0\<rparr>"
proof -
  let ?ep = "\<lparr>ep_address = 1, ep_port = 2\<rparr>"
  have "reach [(1, PingSent [7] ?ep)] 1 (notePingSent [7] ?ep 1 new_DirectPath)"
    using reach_event [OF reach_new [of 0], of 1 "PingSent [7] ?ep"] by simp
  from reach_event [OF this, of 3 "Pong [7] ?ep"] show ?thesis
    by (simp add: notePong_def notePingSent_def new_DirectPath_def Let_def best_def valid_def no_endpoint_def
        kPingTimeout_def to_ms_def kMaxCandidates_def)
qed

theorem best_only_answered_witness:
  "\<exists>evs s t0 t1. reach evs 3 s \<and> best 6500000003 s = Some \<lparr>ep_address = 1, ep_port = 2\<rparr>
    \<and> answered evs t0 t1 \<lparr>ep_address = 1, ep_port = 2\<rparr> \<and> t0 \<le> t1 \<and> 6500000003 - t1 \<le> kTrustDuration"
proof -
  let ?ep = "\<lparr>ep_address = 1, ep_port = 2\<rparr>"
  let ?s = "\<lparr>candidates = [], pending = [], bestEndpoint = ?ep, bestPong = 3, bestRttMs = 0\<rparr>"
  have "best 6500000003 ?s = Some ?ep" by (simp add: best_def valid_def kTrustDuration_def)
  with best_only_answered [OF reach_example this] reach_example show ?thesis by blast
qed

end
