(* ===== verification/TailscaleDerp.thy ===== *)
theory TailscaleDerp
  imports Interfaces TailscaleBox
begin

text \<open>
  Model of \<open>app/src/remote_access/tailscale/TailscaleDerp.hpp\<close> and \<open>.cpp\<close>: the DERP frame codec,
  the relay session on top of it (greeting, handshake, packets) and the HTTP upgrade that precedes
  it.  A frame type is the byte it is on the wire: the source converts any byte to the enumeration
  type \<open>DerpFrameType\<close>.

  The transport of a session is the interface \<open>ITransport\<close>.  Here it is the script of what its
  successive reads return, the results of its successive writes and the list of what was written;
  an exhausted read script is the orderly close of the connection, so the loop of \<open>recvFrame\<close>
  ends on every script.  The error out-parameter is a string threaded through the calls.
\<close>

section \<open>Frames\<close>

record DerpFrame =
  frame_type :: u8
  frame_payload :: bytes

definition ServerKey :: u8 where "ServerKey = 0x01"
definition ClientInfo :: u8 where "ClientInfo = 0x02"
definition ServerInfo :: u8 where "ServerInfo = 0x03"
definition SendPacket :: u8 where "SendPacket = 0x04"
definition PingFrame :: u8 where "PingFrame = 0x12"

definition kDerpFrameHeaderLen :: nat where "kDerpFrameHeaderLen = 5"
definition kDerpKeyLen :: nat where "kDerpKeyLen = 32"
definition kDerpNonceLen :: nat where "kDerpNonceLen = 24"
definition kDerpTagLen :: nat where "kDerpTagLen = 16"
definition kDerpMaxPacketSize :: nat where "kDerpMaxPacketSize = 64 * 1024"

definition kDerpMagic :: bytes where
  "kDerpMagic = [0x44, 0x45, 0x52, 0x50, 0xF0, 0x9F, 0x94, 0x91]"

definition kMaxFramePayload :: nat where
  "kMaxFramePayload = 1048576"

record DerpCodec =
  codec_buffer :: bytes

definition writeBigEndian32 :: "bytes \<Rightarrow> u32 \<Rightarrow> bytes" where
  "writeBigEndian32 out v =
     out @ [ucast (drop_bit 24 v), ucast (drop_bit 16 v AND 0xff), ucast (drop_bit 8 v AND 0xff), ucast (v AND 0xff)]"

definition readBigEndian32 :: "bytes \<Rightarrow> u32 option" where
  "readBigEndian32 b = (if length b < 4 then None else Some (of_be32 (b ! 0) (b ! 1) (b ! 2) (b ! 3)))"

definition DerpCodec_encode :: "u8 \<Rightarrow> bytes \<Rightarrow> bytes" where
  "DerpCodec_encode type payload = writeBigEndian32 [type] (word_of_nat (length payload)) @ payload"

definition DerpCodec_parse :: "bytes \<Rightarrow> DerpFrame option" where
  "DerpCodec_parse bs =
     (if length bs < kDerpFrameHeaderLen then None
      else case readBigEndian32 (take 4 (drop 1 bs)) of
        None \<Rightarrow> None
      | Some len \<Rightarrow>
          if unat len > kMaxFramePayload \<or> length bs < kDerpFrameHeaderLen + unat len then None
          else Some \<lparr>frame_type = bs ! 0, frame_payload = take (unat len) (drop kDerpFrameHeaderLen bs)\<rparr>)"

definition DerpCodec_append :: "string \<Rightarrow> bytes \<Rightarrow> DerpCodec \<Rightarrow> bool \<times> string \<times> DerpCodec" where
  "DerpCodec_append err bs c =
     (let limit = kMaxFramePayload + kDerpFrameHeaderLen in
      if length bs > limit \<or> length (codec_buffer c) > limit - length bs
      then (False, ''DERP receive buffer limit exceeded'', c\<lparr>codec_buffer := []\<rparr>)
      else (True, err, c\<lparr>codec_buffer := codec_buffer c @ bs\<rparr>))"

text \<open>The body of the \<open>while\<close> loop returns on every path.\<close>

definition DerpCodec_take :: "string \<Rightarrow> DerpCodec \<Rightarrow> DerpFrame option \<times> string \<times> DerpCodec" where
  "DerpCodec_take err c =
     (if length (codec_buffer c) \<ge> kDerpFrameHeaderLen then
        case readBigEndian32 (take 4 (drop 1 (codec_buffer c))) of
          None \<Rightarrow> (None, ''DERP frame oversized'', c\<lparr>codec_buffer := []\<rparr>)
        | Some len \<Rightarrow>
            if unat len > kMaxFramePayload then (None, ''DERP frame oversized'', c\<lparr>codec_buffer := []\<rparr>)
            else if length (codec_buffer c) < kDerpFrameHeaderLen + unat len then (None, err, c)
            else (case DerpCodec_parse (take (kDerpFrameHeaderLen + unat len) (codec_buffer c)) of
                    None \<Rightarrow> (None, err, c)
                  | Some frame \<Rightarrow>
                      (Some frame, err, c\<lparr>codec_buffer := drop (kDerpFrameHeaderLen + unat len) (codec_buffer c)\<rparr>))
      else (None, err, c))"

section \<open>Sessions\<close>

datatype read_result = ReadBytes bytes | ReadError string

record Transport =
  incoming :: "read_result list"
  write_results :: "string option list"
  outgoing :: "bytes list"
  closed :: bool

record DerpSession =
  transport :: "Transport option"
  codec :: DerpCodec
  clientPrivate :: bytes
  clientPublic :: bytes
  serverKey :: bytes
  connected :: bool

definition new_DerpSession :: "Transport option \<Rightarrow> bytes \<Rightarrow> bytes \<Rightarrow> DerpSession" where
  "new_DerpSession tr sk pk = \<lparr>transport = tr, codec = \<lparr>codec_buffer = []\<rparr>, clientPrivate = sk,
     clientPublic = pk, serverKey = replicate 32 0, connected = False\<rparr>"

definition DerpCrypto_seal :: "(bytes \<Rightarrow> bytes \<Rightarrow> bytes) \<Rightarrow> (bytes \<Rightarrow> bytes \<Rightarrow> bytes) \<Rightarrow>
    bytes \<Rightarrow> bytes \<Rightarrow> bytes \<Rightarrow> bytes \<Rightarrow> string + bytes" where
  "DerpCrypto_seal x25519 poly1305 plainText myPrivate theirPublic nonce =
     boxSeal x25519 poly1305 plainText myPrivate theirPublic nonce"

definition DerpCrypto_open :: "(bytes \<Rightarrow> bytes \<Rightarrow> bytes) \<Rightarrow> (bytes \<Rightarrow> bytes \<Rightarrow> bytes) \<Rightarrow>
    bytes \<Rightarrow> bytes \<Rightarrow> bytes \<Rightarrow> bytes \<Rightarrow> string + bytes" where
  "DerpCrypto_open x25519 poly1305 cipherText myPrivate theirPublic nonce =
     (if length cipherText < kDerpTagLen then Inl ''DERP crypto: ciphertext shorter than auth tag''
      else boxOpen x25519 poly1305 cipherText myPrivate theirPublic nonce)"

text \<open>The \<open>for (;;)\<close> loop of \<open>recvFrame\<close> over what the transport still delivers.\<close>

fun recv_loop :: "string \<Rightarrow> read_result list \<Rightarrow> DerpCodec \<Rightarrow> DerpFrame option \<times> string \<times> read_result list \<times> DerpCodec" where
  "recv_loop err [] c = (None, ''DERP connection closed'', [], c)"
| "recv_loop err (ReadError e # rs) c = (None, e, rs, c)"
| "recv_loop err (ReadBytes [] # rs) c = (None, ''DERP connection closed'', rs, c)"
| "recv_loop err (ReadBytes (b # bs) # rs) c =
     (case DerpCodec_append err (b # bs) c of
        (False, err', c') \<Rightarrow> (None, err', rs, c')
      | (True, err', c') \<Rightarrow>
          (case DerpCodec_take err' c' of
             (Some f, err'', c'') \<Rightarrow> (Some f, err'', rs, c'')
           | (None, err'', c'') \<Rightarrow> recv_loop err'' rs c''))"

definition recvFrame :: "string \<Rightarrow> DerpSession \<Rightarrow> DerpFrame option \<times> string \<times> DerpSession" where
  "recvFrame err s =
     (case transport s of
        None \<Rightarrow> (None, ''DERP transport is not open'', s)
      | Some tr \<Rightarrow>
          (case DerpCodec_take err (codec s) of
             (Some f, err', c') \<Rightarrow> (Some f, err', s\<lparr>codec := c'\<rparr>)
           | (None, err', c') \<Rightarrow>
               (case recv_loop err' (incoming tr) c' of
                  (r, err'', rs, c'') \<Rightarrow>
                    (r, err'', s\<lparr>codec := c'', transport := Some (tr\<lparr>incoming := rs\<rparr>)\<rparr>))))"

definition transport_write :: "string \<Rightarrow> bytes \<Rightarrow> Transport \<Rightarrow> bool \<times> string \<times> Transport" where
  "transport_write err bs tr =
     (case write_results tr of
        Some e # ws \<Rightarrow> (False, e, tr\<lparr>write_results := ws\<rparr>)
      | None # ws \<Rightarrow> (True, err, tr\<lparr>write_results := ws, outgoing := outgoing tr @ [bs]\<rparr>)
      | [] \<Rightarrow> (True, err, tr\<lparr>outgoing := outgoing tr @ [bs]\<rparr>))"

definition writeRaw :: "u8 \<Rightarrow> bytes \<Rightarrow> string \<Rightarrow> DerpSession \<Rightarrow> bool \<times> string \<times> DerpSession" where
  "writeRaw type payload err s =
     (case transport s of
        None \<Rightarrow> (False, ''DERP transport is not open'', s)
      | Some tr \<Rightarrow>
          (case transport_write err (DerpCodec_encode type payload) tr of
             (ok, err', tr') \<Rightarrow>
               if ok then (True, err', s\<lparr>transport := Some tr'\<rparr>)
               else (False, if err' = [] then ''DERP write failed'' else err', s\<lparr>transport := Some tr'\<rparr>)))"

definition sendPacket :: "bytes \<Rightarrow> bytes \<Rightarrow> string \<Rightarrow> DerpSession \<Rightarrow> bool \<times> string \<times> DerpSession" where
  "sendPacket destKey packet err s =
     (if transport s = None \<or> length destKey \<noteq> kDerpKeyLen \<or> packet = [] then (False, ''invalid DERP SendPacket'', s)
      else if length packet > kDerpMaxPacketSize then (False, ''DERP packet oversized'', s)
      else writeRaw SendPacket (destKey @ packet) err s)"

definition sendPing :: "u64 \<Rightarrow> string \<Rightarrow> DerpSession \<Rightarrow> bool \<times> string \<times> DerpSession" where
  "sendPing token err s = writeRaw PingFrame (map (\<lambda>i. ucast (drop_bit (i * 8) token)) [0..<8]) err s"

definition DerpSession_close :: "DerpSession \<Rightarrow> DerpSession" where
  "DerpSession_close s = s\<lparr>connected := False,
     transport := (case transport s of None \<Rightarrow> None | Some tr \<Rightarrow> Some (tr\<lparr>closed := True\<rparr>))\<rparr>"

definition clientInfoJson :: string where
  "clientInfoJson = [CHR ''{'', CHR 0x22] @ ''version'' @ [CHR 0x22, CHR '':'', CHR ''2'', CHR ''}'']"

text \<open>
  \<open>connect\<close>; \<open>clientNonce\<close> is what \<open>secureRandomBytes\<close> yields.  The steps after the greeting and
  after the client's frame are functions of their own, in the order of the source.
\<close>

definition connect_serverInfo :: "(bytes \<Rightarrow> bytes \<Rightarrow> bytes) \<Rightarrow> (bytes \<Rightarrow> bytes \<Rightarrow> bytes) \<Rightarrow>
    string \<Rightarrow> DerpSession \<Rightarrow> bool \<times> string \<times> DerpSession" where
  "connect_serverInfo x25519 poly1305 err s =
     (case recvFrame err s of
        (None, err', s') \<Rightarrow> (False, if err' = [] then ''DERP connect: failed to receive ServerInfo'' else err', s')
      | (Some info, err', s') \<Rightarrow>
          if frame_type info \<noteq> ServerInfo \<or> length (frame_payload info) < kDerpNonceLen + kDerpTagLen
          then (False, ''DERP connect: invalid ServerInfo frame'', s')
          else (case DerpCrypto_open x25519 poly1305 (drop kDerpNonceLen (frame_payload info))
                       (clientPrivate s') (serverKey s') (take kDerpNonceLen (frame_payload info)) of
                  Inl e \<Rightarrow> (False, e, s')
                | Inr decryptedInfo \<Rightarrow> (True, err', s'\<lparr>connected := True\<rparr>)))"

definition connect_clientInfo :: "(bytes \<Rightarrow> bytes \<Rightarrow> bytes) \<Rightarrow> (bytes \<Rightarrow> bytes \<Rightarrow> bytes) \<Rightarrow> bytes \<Rightarrow>
    string \<Rightarrow> DerpSession \<Rightarrow> bool \<times> string \<times> DerpSession" where
  "connect_clientInfo x25519 poly1305 clientNonce err s =
     (case DerpCrypto_seal x25519 poly1305 (bytes_of_string clientInfoJson) (clientPrivate s) (serverKey s) clientNonce of
        Inl e \<Rightarrow> (False, e, s)
      | Inr sealed \<Rightarrow>
          (case writeRaw ClientInfo (clientPublic s @ clientNonce @ sealed) err s of
             (False, err', s') \<Rightarrow> (False, err', s')
           | (True, err', s') \<Rightarrow> connect_serverInfo x25519 poly1305 err' s'))"

definition DerpSession_connect :: "(bytes \<Rightarrow> bytes \<Rightarrow> bytes) \<Rightarrow> (bytes \<Rightarrow> bytes \<Rightarrow> bytes) \<Rightarrow> bytes \<Rightarrow>
    DerpSession \<Rightarrow> bool \<times> string \<times> DerpSession" where
  "DerpSession_connect x25519 poly1305 clientNonce s =
     (if transport s = None then (False, ''DERP transport is not open'', s)
      else if list_all (\<lambda>b. b = 0) (clientPrivate s)
      then (False, ''DERP relay requires valid client node key; refusing to open'', s)
      else (case recvFrame [] s of
        (None, err', s') \<Rightarrow>
          (False, if err' = [] then ''DERP connect: failed to receive server greeting'' else err', s')
      | (Some greeting, err', s') \<Rightarrow>
          if frame_type greeting \<noteq> ServerKey \<or> length (frame_payload greeting) < length kDerpMagic + kDerpKeyLen
          then (False, ''DERP connect: invalid ServerKey greeting'', s')
          else if take (length kDerpMagic) (frame_payload greeting) \<noteq> kDerpMagic
          then (False, ''DERP connect: invalid magic in ServerKey greeting'', s')
          else connect_clientInfo x25519 poly1305 clientNonce err'
                 (s'\<lparr>serverKey := take kDerpKeyLen (drop (length kDerpMagic) (frame_payload greeting))\<rparr>)))"

section \<open>The HTTP upgrade\<close>

definition crlf :: string where
  "crlf = [CHR 0x0D, CHR 0x0A]"

definition buildDerpUpgradeRequest :: "string \<Rightarrow> string" where
  "buildDerpUpgradeRequest host =
     ''GET /derp HTTP/1.1'' @ crlf @ ''Host: '' @ host @ crlf @ ''Upgrade: DERP'' @ crlf @
     ''Connection: Upgrade'' @ crlf @ ''User-Agent: artemis-switch'' @ crlf @ crlf"

text \<open>\<open>find\<close> of CR LF: the text before it, and the text behind it when there is one.\<close>

fun cut_crlf :: "string \<Rightarrow> string \<times> string option" where
  "cut_crlf [] = ([], None)"
| "cut_crlf (x # xs) =
     (if x = CHR 0x0D \<and> xs \<noteq> [] \<and> hd xs = CHR 0x0A then ([], Some (tl xs))
      else (case cut_crlf xs of (p, r) \<Rightarrow> (x # p, r)))"

lemma cut_crlf_shorter: "cut_crlf s = (p, Some r) \<Longrightarrow> length r < length s"
  by (induction s arbitrary: p) (fastforce split: if_splits prod.splits)+

definition names_derp :: "string \<Rightarrow> bool" where
  "names_derp line =
     (case cut (CHR '':'') line of
        (name, None) \<Rightarrow> False
      | (name, Some v) \<Rightarrow> map tolower name = ''upgrade'' \<and> has_substr ''derp'' (map tolower v))"

function upgrade_scan :: "string \<Rightarrow> bool" where
  "upgrade_scan rest =
     (if rest = [] then False
      else (case cut_crlf rest of
              (line, None) \<Rightarrow> names_derp line
            | (line, Some rest') \<Rightarrow> names_derp line \<or> upgrade_scan rest'))"
  by pat_completeness auto
termination
  by (relation "measure length") (auto dest: cut_crlf_shorter [OF sym])

declare upgrade_scan.simps [simp del]

definition validateDerpUpgradeResponse :: "string \<Rightarrow> string + unit" where
  "validateDerpUpgradeResponse header =
     (if length header < 16 \<or> drop (length header - 4) header \<noteq> crlf @ crlf
      then Inl ''DERP upgrade response is incomplete''
      else (case cut_crlf header of
        (_, None) \<Rightarrow> Inl ''DERP upgrade response has no status line''
      | (status, Some rest) \<Rightarrow>
          let http11 = starts_with ''HTTP/1.1 '' status;
              http10 = starts_with ''HTTP/1.0 '' status;
              is101 = (length status \<ge> 12 \<and> take 3 (drop 9 status) = ''101'')
          in if \<not> (http11 \<or> http10) \<or> \<not> is101 then Inl (''DERP upgrade rejected: '' @ status)
             else if upgrade_scan rest then Inr ()
             else Inl ''DERP upgrade response lacks an Upgrade: DERP header''))"

section \<open>The codec is a stream decoder\<close>

definition encode_frame :: "DerpFrame \<Rightarrow> bytes" where
  "encode_frame f = DerpCodec_encode (frame_type f) (frame_payload f)"

definition codec_append :: "DerpCodec \<Rightarrow> bytes \<Rightarrow> DerpCodec option" where
  "codec_append c bs = (case DerpCodec_append [] bs c of (ok, _, c') \<Rightarrow> if ok then Some c' else None)"

definition codec_take :: "DerpCodec \<Rightarrow> DerpFrame option \<times> DerpCodec" where
  "codec_take c = (case DerpCodec_take [] c of (f, _, c') \<Rightarrow> (f, c'))"

lemmas derp_consts = kDerpFrameHeaderLen_def kMaxFramePayload_def kDerpKeyLen_def kDerpNonceLen_def kDerpTagLen_def

lemma encode_frame_eq: "encode_frame f = frame_type f # be32 (word_of_nat (length (frame_payload f))) @ frame_payload f"
  by (simp add: encode_frame_def DerpCodec_encode_def writeBigEndian32_def be32_def ucast_and_ff)

lemma unat_frame_length: "n \<le> kMaxFramePayload \<Longrightarrow> unat (word_of_nat n :: u32) = n"
  by (simp add: unat_word_of_nat_u32 kMaxFramePayload_def)

lemma DerpCodec_take_header:
  assumes "codec_buffer c = t # be32 v @ rest"
  shows "DerpCodec_take err c =
    (if unat v > kMaxFramePayload then (None, ''DERP frame oversized'', c\<lparr>codec_buffer := []\<rparr>)
     else if length rest < unat v then (None, err, c)
     else (Some \<lparr>frame_type = t, frame_payload = take (unat v) rest\<rparr>, err, c\<lparr>codec_buffer := drop (unat v) rest\<rparr>))"
proof -
  have word: "readBigEndian32 (take 4 (be32 v @ xs)) = Some v" for xs
    by (simp add: readBigEndian32_def be32_def of_be32_be32)
  have len: "length (codec_buffer c) = 5 + length rest" using assms by simp
  have all: "take (5 + n) (codec_buffer c) = t # be32 v @ take n rest"
    "drop (5 + n) (codec_buffer c) = drop n rest" for n
    using assms by (simp add: be32_def take_add) (simp add: assms be32_def add.commute [of 5] flip: drop_drop)
  show ?thesis
    using word [of rest] word [of "take (unat v) rest"] len all [of "unat v"]
    by (auto simp: DerpCodec_take_def DerpCodec_parse_def kDerpFrameHeaderLen_def assms min_def)
qed

lemma DerpCodec_take_short: "length (codec_buffer c) < 5 \<Longrightarrow> DerpCodec_take err c = (None, err, c)"
  by (simp add: DerpCodec_take_def kDerpFrameHeaderLen_def)

lemma DerpCodec_take_complete:
  assumes "length (frame_payload f) \<le> kMaxFramePayload" "codec_buffer c = encode_frame f @ rest"
  shows "DerpCodec_take err c = (Some f, err, c\<lparr>codec_buffer := rest\<rparr>)"
  using DerpCodec_take_header [of c "frame_type f" "word_of_nat (length (frame_payload f))" "frame_payload f @ rest" err]
    assms by (simp add: encode_frame_eq unat_frame_length)

lemma DerpCodec_take_partial:
  assumes "length (frame_payload f) \<le> kMaxFramePayload" "encode_frame f = codec_buffer c @ q" "q \<noteq> []"
  shows "DerpCodec_take err c = (None, err, c)"
proof (cases "length (codec_buffer c) < 5")
  case True
  then show ?thesis by (rule DerpCodec_take_short)
next
  case False
  let ?h = "frame_type f # be32 (word_of_nat (length (frame_payload f)))"
  from assms(2) have "?h @ frame_payload f = codec_buffer c @ q" by (simp add: encode_frame_eq)
  moreover from False have "length ?h \<le> length (codec_buffer c)" by simp
  ultimately obtain rest where rest: "codec_buffer c = ?h @ rest" "frame_payload f = rest @ q"
    by (rule header_split)
  with assms(3) have "length rest < length (frame_payload f)" by simp
  with rest(1) assms(1) show ?thesis
    using DerpCodec_take_header [of c "frame_type f" "word_of_nat (length (frame_payload f))" rest err]
    by (simp add: unat_frame_length)
qed

lemma DerpCodec_append_fits:
  "length (codec_buffer c) + length bs \<le> kMaxFramePayload + 5 \<Longrightarrow>
   DerpCodec_append err bs c = (True, err, c\<lparr>codec_buffer := codec_buffer c @ bs\<rparr>)"
  by (simp add: DerpCodec_append_def Let_def kDerpFrameHeaderLen_def)

interpretation derp_codec: stream_decoder codec_buffer codec_append codec_take encode_frame
  "\<lambda>f. length (frame_payload f) \<le> kMaxFramePayload" "kMaxFramePayload + 5"
proof unfold_locales
  fix c :: DerpCodec and bs :: bytes
  assume "length (codec_buffer c) + length bs \<le> kMaxFramePayload + 5"
  then show "\<exists>c'. codec_append c bs = Some c' \<and> codec_buffer c' = codec_buffer c @ bs"
    by (simp add: codec_append_def DerpCodec_append_fits)
next
  fix c :: DerpCodec and bs :: bytes
  assume "kMaxFramePayload + 5 < length (codec_buffer c) + length bs"
  then show "codec_append c bs = None"
    by (auto simp: codec_append_def DerpCodec_append_def Let_def kDerpFrameHeaderLen_def)
qed (auto simp: codec_take_def DerpCodec_take_complete DerpCodec_take_partial DerpCodec_take_short encode_frame_eq)

section \<open>Receiving frames\<close>

fun read_bytes :: "read_result \<Rightarrow> bytes" where
  "read_bytes (ReadBytes bs) = bs"
| "read_bytes (ReadError e) = []"

text \<open>A read that delivers data: at least one byte, at most the 2048 of the buffer.\<close>

definition data_read :: "read_result \<Rightarrow> bool" where
  "data_read r = (0 < length (read_bytes r) \<and> length (read_bytes r) \<le> 2048)"

definition unread :: "DerpSession \<Rightarrow> bytes" where
  "unread s = codec_buffer (codec s) @
     (case transport s of None \<Rightarrow> [] | Some tr \<Rightarrow> concat (map read_bytes (incoming tr)))"

definition fits_relay :: "DerpFrame \<Rightarrow> bool" where
  "fits_relay f = (length (frame_payload f) + 2048 \<le> kMaxFramePayload)"

lemma data_readE:
  assumes "data_read r"
  obtains b bs where "r = ReadBytes (b # bs)" "Suc (length bs) \<le> 2048"
  using assms by (cases r rule: read_bytes.cases; cases "read_bytes r") (auto simp: data_read_def)

lemma recv_loop_delivers:
  assumes "fits_relay f" "list_all data_read rs" "encode_frame f = codec_buffer c @ q" "q \<noteq> []"
    and "concat (map read_bytes rs) = q @ rest"
  shows "\<exists>rs' c'. recv_loop err rs c = (Some f, err, rs', c') \<and> list_all data_read rs'
    \<and> codec_buffer c' @ concat (map read_bytes rs') = rest"
  using assms(2-)
proof (induction rs arbitrary: c q)
  case Nil
  then show ?case by simp
next
  case (Cons r rs)
  from Cons.prems(1) have "data_read r" by simp
  then obtain b bs where r: "r = ReadBytes (b # bs)" and small: "Suc (length bs) \<le> 2048"
    by (rule data_readE)
  let ?c = "c\<lparr>codec_buffer := codec_buffer c @ b # bs\<rparr>"
  have fits: "length (frame_payload f) \<le> kMaxFramePayload" using assms(1) by (simp add: fits_relay_def)
  have "length (codec_buffer c) + length q = 5 + length (frame_payload f)"
    using arg_cong [OF Cons.prems(2), of length] by (simp add: encode_frame_eq)
  then have app: "DerpCodec_append err (b # bs) c = (True, err, ?c)"
    using small assms(1) by (intro DerpCodec_append_fits) (simp add: fits_relay_def)
  have split: "(b # bs) @ concat (map read_bytes rs) = q @ rest" using Cons.prems(4) r by simp
  show ?case
  proof (cases "length q \<le> Suc (length bs)")
    case True
    then obtain u where u: "b # bs = q @ u" "rest = u @ concat (map read_bytes rs)"
      using header_split [OF split [symmetric]] by auto
    then have "codec_buffer ?c = encode_frame f @ u" using Cons.prems(2) by simp
    from DerpCodec_take_complete [OF fits this, of err]
    have "recv_loop err (r # rs) c = (Some f, err, rs, c\<lparr>codec_buffer := u\<rparr>)" using app r by simp
    with u(2) Cons.prems(1) show ?thesis by simp
  next
    case False
    then obtain u where u: "q = (b # bs) @ u" "concat (map read_bytes rs) = u @ rest"
      using header_split [OF split] by auto
    with False have "u \<noteq> []" by auto
    moreover have enc: "encode_frame f = codec_buffer ?c @ u" using Cons.prems(2) u by simp
    ultimately have "DerpCodec_take err ?c = (None, err, ?c)" by (intro DerpCodec_take_partial [OF fits])
    with app r Cons.IH [OF _ enc \<open>u \<noteq> []\<close> u(2)] Cons.prems(1) show ?thesis by simp
  qed
qed

lemma recvFrame_delivers:
  assumes "fits_relay f" "transport s = Some tr" "list_all data_read (incoming tr)" "unread s = encode_frame f @ rest"
  shows "\<exists>c' rs'. recvFrame err s = (Some f, err, s\<lparr>codec := c', transport := Some (tr\<lparr>incoming := rs'\<rparr>)\<rparr>)
    \<and> list_all data_read rs' \<and> codec_buffer c' @ concat (map read_bytes rs') = rest"
proof -
  let ?b = "codec_buffer (codec s)" and ?in = "concat (map read_bytes (incoming tr))"
  have fits: "length (frame_payload f) \<le> kMaxFramePayload" using assms(1) by (simp add: fits_relay_def)
  have eq: "?b @ ?in = encode_frame f @ rest" using assms by (simp add: unread_def)
  show ?thesis
  proof (cases "length (encode_frame f) \<le> length ?b")
    case True
    then obtain u where u: "?b = encode_frame f @ u" "rest = u @ ?in"
      using header_split [OF eq [symmetric]] by auto
    from DerpCodec_take_complete [OF fits u(1), of err] u(2) assms(2,3) show ?thesis
      by (intro exI [of _ "codec s\<lparr>codec_buffer := u\<rparr>"] exI [of _ "incoming tr"]) (simp add: recvFrame_def)
  next
    case False
    then obtain u where u: "encode_frame f = ?b @ u" "?in = u @ rest"
      using header_split [OF eq] by auto
    with False have ne: "u \<noteq> []" by auto
    then have "DerpCodec_take err (codec s) = (None, err, codec s)"
      using DerpCodec_take_partial [OF fits u(1)] by simp
    with recv_loop_delivers [OF assms(1,3) u(1) ne u(2), of err] assms(2) show ?thesis
      by (fastforce simp: recvFrame_def)
  qed
qed

text \<open>
  A relay session delivers the frames of its connection in order and loses none: however the
  reads cut the byte stream, the next call of \<open>recvFrame\<close> returns the next frame, and what is
  left unread is exactly the rest of the stream, ready for the following call.
\<close>

theorem recvFrame_next:
  assumes "fits_relay f" "transport s = Some tr" "list_all data_read (incoming tr)" "unread s = encode_frame f @ rest"
  shows "\<exists>s'. recvFrame err s = (Some f, err, s') \<and> unread s' = rest \<and> connected s' = connected s
    \<and> (\<exists>tr'. transport s' = Some tr' \<and> list_all data_read (incoming tr') \<and> outgoing tr' = outgoing tr)"
  using recvFrame_delivers [OF assms, of err] by (auto simp: unread_def)

definition example_transport :: Transport where
  "example_transport = \<lparr>incoming = [ReadBytes [6, 0], ReadBytes [0, 0, 1, 9, 6]], write_results = [],
     outgoing = [], closed = False\<rparr>"

theorem recvFrame_next_witness:
  "\<exists>s'. recvFrame [] (new_DerpSession (Some example_transport) [1] [2]) =
      (Some \<lparr>frame_type = 6, frame_payload = [9]\<rparr>, [], s') \<and> unread s' = [6]"
proof -
  let ?s = "new_DerpSession (Some example_transport) [1] [2]" and ?f = "\<lparr>frame_type = 6, frame_payload = [9]\<rparr>"
  have "unread ?s = encode_frame ?f @ [6]"
    by (simp add: unread_def new_DerpSession_def example_transport_def encode_frame_eq be32_def)
  moreover have "transport ?s = Some example_transport" by (simp add: new_DerpSession_def)
  moreover have "list_all data_read (incoming example_transport)" by (simp add: example_transport_def data_read_def)
  moreover have "fits_relay ?f" by (simp add: fits_relay_def kMaxFramePayload_def)
  ultimately show ?thesis using recvFrame_next by blast
qed

section \<open>The handshake\<close>

lemma writeRaw_ok:
  assumes "transport s = Some tr" "write_results tr = []"
  shows "writeRaw t p err s = (True, err, s\<lparr>transport := Some (tr\<lparr>outgoing := outgoing tr @ [DerpCodec_encode t p]\<rparr>)\<rparr>)"
  using assms by (simp add: writeRaw_def transport_write_def)

lemma handshake_ok:
  assumes dh: "x25519 sk spk = x25519 ssk pk" and nonzero: "\<exists>b \<in> set (x25519 sk spk). b \<noteq> 0"
    and tag: "\<And>m k. length (poly1305 m k) = 16"
    and sizes: "length spk = 32" "length snonce = 24"
    and key: "\<exists>b \<in> set sk. b \<noteq> 0"
    and tr: "list_all data_read (incoming tr)" "write_results tr = []" "outgoing tr = []"
    and info: "boxSeal x25519 poly1305 info ssk pk snonce = Inr boxed"
    and greeting: "greeting = \<lparr>frame_type = ServerKey, frame_payload = kDerpMagic @ spk @ extra\<rparr>" "fits_relay greeting"
    and answer: "answer = \<lparr>frame_type = ServerInfo, frame_payload = snonce @ boxed\<rparr>" "fits_relay answer"
    and stream: "concat (map read_bytes (incoming tr)) = encode_frame greeting @ encode_frame answer @ rest"
  shows "\<exists>s' tr' c. DerpSession_connect x25519 poly1305 cnonce (new_DerpSession (Some tr) sk pk) = (True, [], s')
    \<and> connected s' \<and> serverKey s' = spk \<and> transport s' = Some tr' \<and> unread s' = rest
    \<and> outgoing tr' = [DerpCodec_encode ClientInfo (pk @ cnonce @ c)]
    \<and> boxOpen x25519 poly1305 c ssk pk cnonce = Inr (bytes_of_string clientInfoJson)"
proof -
  let ?s = "new_DerpSession (Some tr) sk pk"
  have "unread ?s = encode_frame greeting @ encode_frame answer @ rest"
    using stream by (simp add: unread_def new_DerpSession_def)
  from recvFrame_delivers [OF greeting(2) _ tr(1) this, of "[]"] obtain c1 rs1
    where r1: "recvFrame [] ?s = (Some greeting, [], ?s\<lparr>codec := c1, transport := Some (tr\<lparr>incoming := rs1\<rparr>)\<rparr>)"
      and rs1: "list_all data_read rs1" "codec_buffer c1 @ concat (map read_bytes rs1) = encode_frame answer @ rest"
    by (auto simp: new_DerpSession_def)
  let ?s1 = "?s\<lparr>codec := c1, transport := Some (tr\<lparr>incoming := rs1\<rparr>), serverKey := spk\<rparr>"
  have start: "DerpSession_connect x25519 poly1305 cnonce ?s = connect_clientInfo x25519 poly1305 cnonce [] ?s1"
    using r1 key greeting(1) sizes(1)
    by (auto simp: DerpSession_connect_def new_DerpSession_def kDerpMagic_def kDerpKeyLen_def list_all_iff)
  obtain c where c: "boxSeal x25519 poly1305 (bytes_of_string clientInfoJson) sk spk cnonce = Inr c"
      "boxOpen x25519 poly1305 c ssk pk cnonce = Inr (bytes_of_string clientInfoJson)"
    using box_roundtrip [of x25519 sk spk ssk pk poly1305 "bytes_of_string clientInfoJson" cnonce] dh nonzero tag
    by blast
  let ?tr2 = "tr\<lparr>incoming := rs1, outgoing := [DerpCodec_encode ClientInfo (pk @ cnonce @ c)]\<rparr>"
  let ?s2 = "?s1\<lparr>transport := Some ?tr2\<rparr>"
  have middle: "connect_clientInfo x25519 poly1305 cnonce [] ?s1 = connect_serverInfo x25519 poly1305 [] ?s2"
    using c(1) tr(2,3) by (simp add: connect_clientInfo_def DerpCrypto_seal_def new_DerpSession_def writeRaw_ok)
  have "unread ?s2 = encode_frame answer @ rest" using rs1(2) by (simp add: unread_def)
  from recvFrame_delivers [OF answer(2) _ _ this, of ?tr2 "[]"] rs1(1) obtain c2 rs2
    where r2: "recvFrame [] ?s2 = (Some answer, [], ?s2\<lparr>codec := c2, transport := Some (?tr2\<lparr>incoming := rs2\<rparr>)\<rparr>)"
      and rs2: "codec_buffer c2 @ concat (map read_bytes rs2) = rest"
    by auto
  have "\<exists>b. boxSeal x25519 poly1305 info ssk pk snonce = Inr b \<and> length b = 16 + length info
      \<and> boxOpen x25519 poly1305 b sk spk snonce = Inr info"
    using dh nonzero tag by (intro box_roundtrip) auto
  with info have boxed: "boxOpen x25519 poly1305 boxed sk spk snonce = Inr info" "16 \<le> length boxed" by auto
  have "connect_serverInfo x25519 poly1305 [] ?s2 =
      (True, [], ?s2\<lparr>codec := c2, transport := Some (?tr2\<lparr>incoming := rs2\<rparr>), connected := True\<rparr>)"
    using r2 boxed sizes(2) answer(1)
    by (simp add: connect_serverInfo_def DerpCrypto_open_def kDerpNonceLen_def kDerpTagLen_def new_DerpSession_def)
  with start middle rs2 c(2) show ?thesis by (auto simp: unread_def)
qed

text \<open>
  C21: The handshake succeeds with an honest relay: when the relay greets with its key and answers
  with a ServerInfo box sealed for the client, however the stream is cut into reads, \<open>connect\<close>
  returns true with the relay's key recorded, and the single frame it wrote is a ClientInfo frame
  whose box the relay opens to the client's version.
\<close>

theorem connect_handshake:
  assumes dh: "x25519 sk spk = x25519 ssk pk" and nonzero: "\<exists>b \<in> set (x25519 sk spk). b \<noteq> 0"
    and tag: "\<And>m k. length (poly1305 m k) = 16"
    and sizes: "length spk = 32" "length snonce = 24"
    and key: "\<exists>b \<in> set sk. b \<noteq> 0"
    and tr: "list_all data_read (incoming tr)" "write_results tr = []" "outgoing tr = []"
    and info: "boxSeal x25519 poly1305 info ssk pk snonce = Inr boxed"
    and greeting: "greeting = \<lparr>frame_type = ServerKey, frame_payload = kDerpMagic @ spk @ extra\<rparr>" "fits_relay greeting"
    and answer: "answer = \<lparr>frame_type = ServerInfo, frame_payload = snonce @ boxed\<rparr>" "fits_relay answer"
    and stream: "concat (map read_bytes (incoming tr)) = encode_frame greeting @ encode_frame answer @ rest"
  shows "\<exists>s' tr' c. DerpSession_connect x25519 poly1305 cnonce (new_DerpSession (Some tr) sk pk) = (True, [], s')
    \<and> connected s' \<and> serverKey s' = spk \<and> transport s' = Some tr' \<and> unread s' = rest
    \<and> outgoing tr' = [DerpCodec_encode ClientInfo (pk @ cnonce @ c)]
    \<and> boxOpen x25519 poly1305 c ssk pk cnonce = Inr (bytes_of_string clientInfoJson)"
  by (rule handshake_ok [OF assms])

theorem connect_handshake_witness:
  "\<exists>boxed s' tr' c.
     let x = (\<lambda>a b. map2 (+) a b); p = (\<lambda>m k. replicate 16 (0 :: u8));
         greeting = \<lparr>frame_type = ServerKey, frame_payload = kDerpMagic @ replicate 32 2 @ []\<rparr>;
         answer = \<lparr>frame_type = ServerInfo, frame_payload = replicate 24 3 @ boxed\<rparr>;
         tr = \<lparr>incoming = [ReadBytes (encode_frame greeting @ encode_frame answer @ [])], write_results = [],
               outgoing = [], closed = False\<rparr>
     in boxSeal x p [7] (replicate 32 2) (replicate 32 1) (replicate 24 3) = Inr boxed \<and>
        DerpSession_connect x p (replicate 24 4) (new_DerpSession (Some tr) (replicate 32 1) (replicate 32 1)) = (True, [], s')
        \<and> connected s' \<and> serverKey s' = replicate 32 2 \<and> transport s' = Some tr' \<and> unread s' = []
        \<and> outgoing tr' = [DerpCodec_encode ClientInfo (replicate 32 1 @ replicate 24 4 @ c)]
        \<and> boxOpen x p c (replicate 32 2) (replicate 32 1) (replicate 24 4) = Inr (bytes_of_string clientInfoJson)"
proof -
  let ?x = "\<lambda>a b. map2 (+) a b" and ?p = "\<lambda>m k. replicate 16 (0 :: u8)"
  have "\<exists>b. boxSeal ?x ?p [7] (replicate 32 2) (replicate 32 1) (replicate 24 3) = Inr b \<and> length b = 16 + length [7 :: u8]
      \<and> boxOpen ?x ?p b (replicate 32 1) (replicate 32 2) (replicate 24 3) = Inr [7]"
    by (rule box_roundtrip) (simp_all add: zip_replicate)
  then obtain boxed where b: "boxSeal ?x ?p [7] (replicate 32 2) (replicate 32 1) (replicate 24 3) = Inr boxed"
    "length boxed = 17" by auto
  let ?g = "\<lparr>frame_type = ServerKey, frame_payload = kDerpMagic @ replicate 32 2 @ []\<rparr>"
  let ?a = "\<lparr>frame_type = ServerInfo, frame_payload = replicate 24 3 @ boxed\<rparr>"
  let ?tr = "\<lparr>incoming = [ReadBytes (encode_frame ?g @ encode_frame ?a @ [])], write_results = [],
               outgoing = [], closed = False\<rparr>"
  have small: "fits_relay ?g" "fits_relay ?a" "list_all data_read (incoming ?tr)"
    using b(2) by (simp_all add: fits_relay_def data_read_def encode_frame_eq kMaxFramePayload_def kDerpMagic_def)
  show ?thesis
    using connect_handshake [where ?x25519.0 = ?x and ?poly1305.0 = ?p and sk = "replicate 32 1" and pk = "replicate 32 1"
        and ssk = "replicate 32 2" and spk = "replicate 32 2" and snonce = "replicate 24 3" and cnonce = "replicate 24 4"
        and tr = ?tr and info = "[7]" and boxed = boxed and extra = "[]" and rest = "[]", OF _ _ _ _ _ _ small(3) _ _ b(1) refl small(1) refl small(2)]
      b(1) by (simp add: Let_def zip_replicate)
qed

lemma example_handshake:
  "\<exists>tr s'. DerpSession_connect (\<lambda>a b. map2 (+) a b) (\<lambda>m k. replicate 16 0) (replicate 24 4)
       (new_DerpSession (Some tr) (replicate 32 1) (replicate 32 1)) = (True, [], s')"
proof -
  let ?x = "\<lambda>a b. map2 (+) a b" and ?p = "\<lambda>m k. replicate 16 (0 :: u8)"
  have "\<exists>b. boxSeal ?x ?p [7] (replicate 32 2) (replicate 32 1) (replicate 24 3) = Inr b \<and> length b = 16 + length [7 :: u8]
      \<and> boxOpen ?x ?p b (replicate 32 1) (replicate 32 2) (replicate 24 3) = Inr [7]"
    by (rule box_roundtrip) (simp_all add: zip_replicate)
  then obtain boxed where b: "boxSeal ?x ?p [7] (replicate 32 2) (replicate 32 1) (replicate 24 3) = Inr boxed"
    "length boxed = 17" by auto
  let ?g = "\<lparr>frame_type = ServerKey, frame_payload = kDerpMagic @ replicate 32 2 @ []\<rparr>"
  let ?a = "\<lparr>frame_type = ServerInfo, frame_payload = replicate 24 3 @ boxed\<rparr>"
  let ?tr = "\<lparr>incoming = [ReadBytes (encode_frame ?g @ encode_frame ?a @ [])], write_results = [],
               outgoing = [], closed = False\<rparr>"
  have small: "fits_relay ?g" "fits_relay ?a" "list_all data_read (incoming ?tr)"
    using b(2) by (simp_all add: fits_relay_def data_read_def encode_frame_eq kMaxFramePayload_def kDerpMagic_def)
  show ?thesis
    using handshake_ok [where ?x25519.0 = ?x and ?poly1305.0 = ?p and sk = "replicate 32 1" and pk = "replicate 32 1"
        and ssk = "replicate 32 2" and spk = "replicate 32 2" and snonce = "replicate 24 3" and cnonce = "replicate 24 4"
        and tr = ?tr and info = "[7]" and boxed = boxed and extra = "[]" and rest = "[]", OF _ _ _ _ _ _ small(3) _ _ b(1) refl small(1) refl small(2)]
    by (auto simp: zip_replicate)
qed

lemma recvFrame_frame:
  "recvFrame err s = (r, err', s') \<Longrightarrow> connected s' = connected s \<and> serverKey s' = serverKey s
     \<and> clientPrivate s' = clientPrivate s \<and> clientPublic s' = clientPublic s"
  by (auto simp: recvFrame_def split: option.splits prod.splits)

lemma writeRaw_frame:
  "writeRaw t p err s = (r, err', s') \<Longrightarrow> connected s' = connected s \<and> serverKey s' = serverKey s
     \<and> clientPrivate s' = clientPrivate s \<and> clientPublic s' = clientPublic s"
  by (auto simp: writeRaw_def split: option.splits prod.splits if_splits)

text \<open>The relay sent a box that opens under the key shared with \<open>spk\<close>.\<close>

definition proves_key :: "(bytes \<Rightarrow> bytes \<Rightarrow> bytes) \<Rightarrow> (bytes \<Rightarrow> bytes \<Rightarrow> bytes) \<Rightarrow> bytes \<Rightarrow> bytes \<Rightarrow> bool" where
  "proves_key x25519 poly1305 sk spk = (\<exists>nonce boxed info. boxOpen x25519 poly1305 boxed sk spk nonce = Inr info)"

lemma proves_keyI [intro]: "boxOpen x25519 poly1305 boxed sk spk nonce = Inr info \<Longrightarrow> proves_key x25519 poly1305 sk spk"
  unfolding proves_key_def by blast

lemma connect_serverInfo_authentic:
  assumes "connect_serverInfo x25519 poly1305 err s = (ok, err', s')"
  shows "(ok \<longrightarrow> connected s' \<and> proves_key x25519 poly1305 (clientPrivate s) (serverKey s))
    \<and> (\<not> ok \<longrightarrow> connected s' = connected s) \<and> serverKey s' = serverKey s"
  using assms
  by (auto simp: connect_serverInfo_def DerpCrypto_open_def dest!: recvFrame_frame
      split: prod.splits option.splits if_splits sum.splits)

lemma connect_clientInfo_authentic:
  assumes "connect_clientInfo x25519 poly1305 cnonce err s = (ok, err', s')"
  shows "(ok \<longrightarrow> connected s' \<and> proves_key x25519 poly1305 (clientPrivate s) (serverKey s))
    \<and> (\<not> ok \<longrightarrow> connected s' = connected s) \<and> serverKey s' = serverKey s"
  using assms
  by (auto simp: connect_clientInfo_def dest!: writeRaw_frame connect_serverInfo_authentic
      split: prod.splits if_splits sum.splits bool.splits)

text \<open>
  A session counts as connected only after an authenticated answer: when \<open>connect\<close> succeeds,
  the relay proved possession of the key it greeted with by a box that opens under the session's
  shared key; when it fails, for whatever reason, the session is not connected.
\<close>

theorem connect_authenticated:
  assumes "DerpSession_connect x25519 poly1305 cnonce (new_DerpSession tr sk pk) = (ok, err, s')"
  shows "connected s' = ok \<and> (ok \<longrightarrow> proves_key x25519 poly1305 sk (serverKey s'))"
proof (cases "transport (new_DerpSession tr sk pk) = None \<or> list_all (\<lambda>b. b = 0) sk")
  case True
  have start: "connected (new_DerpSession tr sk pk) = False" "clientPrivate (new_DerpSession tr sk pk) = sk"
    by (simp_all add: new_DerpSession_def)
  with True assms show ?thesis by (auto simp: DerpSession_connect_def split: if_splits)
next
  case False
  obtain g err1 s1 where r: "recvFrame [] (new_DerpSession tr sk pk) = (g, err1, s1)" by (cases "recvFrame [] (new_DerpSession tr sk pk)") auto
  from recvFrame_frame [OF r] have s1: "connected s1 = False" "clientPrivate s1 = sk"
    by (simp_all add: new_DerpSession_def)
  from False have guard: "transport (new_DerpSession tr sk pk) \<noteq> None" "\<not> list_all (\<lambda>b. b = 0) (clientPrivate (new_DerpSession tr sk pk))"
    by (auto simp: new_DerpSession_def)
  from assms s1 guard show ?thesis
    by (auto simp: DerpSession_connect_def r dest!: connect_clientInfo_authentic split: option.splits if_splits)
qed

theorem connect_authenticated_witness:
  "\<exists>tr s'. DerpSession_connect (\<lambda>a b. map2 (+) a b) (\<lambda>m k. replicate 16 0) (replicate 24 4)
       (new_DerpSession (Some tr) (replicate 32 1) (replicate 32 1)) = (True, [], s')
     \<and> connected s' \<and> proves_key (\<lambda>a b. map2 (+) a b) (\<lambda>m k. replicate 16 0) (replicate 32 1) (serverKey s')"
  using example_handshake connect_authenticated by (metis (no_types, lifting))

text \<open>
  After an oversized frame the session does not fail: the codec drops its buffer and \<open>recvFrame\<close>
  keeps reading, so the payload of the oversized frame, which the sender chooses, is taken for the
  next frames of the connection.  (The error text is set although a frame is returned.)
\<close>

theorem recvFrame_resyncs_in_payload:
  assumes "transport s = Some tr" "codec_buffer (codec s) = []" "kMaxFramePayload < unat v"
    and "incoming tr = ReadBytes (t # be32 v) # ReadBytes (encode_frame f) # rs" "fits_relay f"
  shows "\<exists>s'. recvFrame err s = (Some f, ''DERP frame oversized'', s')"
proof -
  let ?big = "codec s\<lparr>codec_buffer := t # be32 v\<rparr>"
  have first: "DerpCodec_take err (codec s) = (None, err, codec s)"
    using assms(2) by (intro DerpCodec_take_short) simp
  have app: "DerpCodec_append err (t # be32 v) (codec s) = (True, err, ?big)"
    using DerpCodec_append_fits [of "codec s" "t # be32 v" err] assms(2) by simp
  have drop: "DerpCodec_take err ?big = (None, ''DERP frame oversized'', ?big\<lparr>codec_buffer := []\<rparr>)"
    using DerpCodec_take_header [of ?big t v "[]" err] assms(3) by simp
  let ?c = "?big\<lparr>codec_buffer := []\<rparr>"
  have fits: "length (frame_payload f) \<le> kMaxFramePayload" using assms(5) by (simp add: fits_relay_def)
  have "DerpCodec_append e (encode_frame f) ?c = (True, e, ?c\<lparr>codec_buffer := encode_frame f\<rparr>)" for e
    using DerpCodec_append_fits [of ?c "encode_frame f" e] assms(5)
    by (simp add: encode_frame_eq fits_relay_def)
  moreover have "DerpCodec_take e (?c\<lparr>codec_buffer := encode_frame f\<rparr>) = (Some f, e, ?c\<lparr>codec_buffer := []\<rparr>)" for e
    using DerpCodec_take_complete [OF fits, of "?c\<lparr>codec_buffer := encode_frame f\<rparr>" "[]" e] by simp
  moreover obtain b bs where "encode_frame f = b # bs" by (auto simp: encode_frame_eq)
  ultimately have loop: "recv_loop err (incoming tr) (codec s) = (Some f, ''DERP frame oversized'', rs, ?c\<lparr>codec_buffer := []\<rparr>)"
    using app drop assms(4) by (simp del: append_Cons)
  show ?thesis using first loop assms(1) by (simp add: recvFrame_def)
qed

theorem recvFrame_resyncs_in_payload_witness:
  "\<exists>s'. recvFrame [] (new_DerpSession (Some \<lparr>incoming = [ReadBytes (5 # be32 0x00200000),
       ReadBytes (encode_frame \<lparr>frame_type = 5, frame_payload = [66]\<rparr>)], write_results = [], outgoing = [], closed = False\<rparr>) [1] [2]) =
     (Some \<lparr>frame_type = 5, frame_payload = [66]\<rparr>, ''DERP frame oversized'', s')"
  by (rule recvFrame_resyncs_in_payload [where v = "0x00200000" and t = 5 and rs = "[]" and
        tr = "\<lparr>incoming = [ReadBytes (5 # be32 0x00200000),
       ReadBytes (encode_frame \<lparr>frame_type = 5, frame_payload = [66]\<rparr>)], write_results = [], outgoing = [], closed = False\<rparr>"])
    (simp_all add: new_DerpSession_def kMaxFramePayload_def fits_relay_def)

section \<open>The upgrade response\<close>

lemma cut_crlf_line: "CHR 0x0D \<notin> set l \<Longrightarrow> cut_crlf (l @ crlf @ r) = (l, Some r)"
  by (induction l) (auto simp: crlf_def)

lemma upgrade_scan_lines:
  assumes "\<forall>l \<in> set ls. CHR 0x0D \<notin> set l"
  shows "upgrade_scan (concat (map (\<lambda>l. l @ crlf) ls) @ crlf) = (\<exists>l \<in> set ls. names_derp l)"
  using assms
proof (induction ls)
  case Nil
  have "upgrade_scan [] = False" "names_derp [] = False" by (simp_all add: upgrade_scan.simps names_derp_def)
  then show ?case using cut_crlf_line [of "[]" "[]"]
    by (subst upgrade_scan.simps) (simp add: crlf_def)
next
  case (Cons l ls)
  have "upgrade_scan (l @ crlf @ concat (map (\<lambda>l. l @ crlf) ls) @ crlf) =
      (names_derp l \<or> upgrade_scan (concat (map (\<lambda>l. l @ crlf) ls) @ crlf))"
    using Cons.prems by (subst upgrade_scan.simps) (simp add: cut_crlf_line, simp add: crlf_def)
  with Cons show ?case by simp
qed

text \<open>
  The upgrade check accepts exactly the right responses: for a response of a 101 status line
  and any header lines, it succeeds if and only if some line is an \<open>Upgrade\<close> header, in any
  capitalisation, whose value mentions \<open>derp\<close>.
\<close>

theorem validateDerpUpgradeResponse_iff:
  assumes "CHR 0x0D \<notin> set reason" and "\<forall>l \<in> set ls. CHR 0x0D \<notin> set l"
  shows "validateDerpUpgradeResponse (''HTTP/1.1 101'' @ reason @ crlf @ concat (map (\<lambda>l. l @ crlf) ls) @ crlf) = Inr ()
    \<longleftrightarrow> (\<exists>l \<in> set ls. names_derp l)"
proof -
  let ?status = "''HTTP/1.1 101'' @ reason" and ?rest = "concat (map (\<lambda>l. l @ crlf) ls) @ crlf"
  have "\<exists>h. ?status @ crlf @ concat (map (\<lambda>l. l @ crlf) ls) = h @ crlf"
  proof (cases ls rule: rev_cases)
    case (snoc ks k)
    then show ?thesis by (intro exI [of _ "?status @ crlf @ concat (map (\<lambda>l. l @ crlf) ks) @ k"]) simp
  qed auto
  then obtain h where h: "?status @ crlf @ ?rest = h @ crlf @ crlf" by (metis append.assoc)
  then have ends: "drop (length (?status @ crlf @ ?rest) - 4) (?status @ crlf @ ?rest) = crlf @ crlf"
    by (simp only: h) (simp add: crlf_def)
  have len: "16 \<le> length (?status @ crlf @ ?rest)" by (simp add: crlf_def)
  have cut: "cut_crlf (?status @ crlf @ ?rest) = (?status, Some ?rest)"
    using assms(1) by (intro cut_crlf_line) auto
  show ?thesis
    using ends len cut upgrade_scan_lines [OF assms(2)]
    unfolding validateDerpUpgradeResponse_def
    by (simp add: starts_with_def)
qed

theorem validateDerpUpgradeResponse_iff_witness:
  "validateDerpUpgradeResponse (''HTTP/1.1 101'' @ '' Switching'' @ crlf @
     concat (map (\<lambda>l. l @ crlf) [''Date: x'', ''UPGRADE: websocket, Derp'']) @ crlf) = Inr ()"
proof -
  have "names_derp ''UPGRADE: websocket, Derp''"
    by (simp add: names_derp_def tolower_def isupper_def char_of_eq_iff)
  then show ?thesis
    using validateDerpUpgradeResponse_iff [of "'' Switching''" "[''Date: x'', ''UPGRADE: websocket, Derp'']"]
    by simp
qed

end
