(* ===== verification/RemoteTypes.thy ===== *)
theory RemoteTypes
  imports Prelude "HOL-Library.AList"
begin

text \<open>
  The data the remote-access components exchange:
  \<open>app/src/remote_access/tailscale/TailscaleTypes.hpp\<close> and the target and path types of
  \<open>app/src/remote_access/IRemoteAccessProvider.hpp\<close>.  A \<open>std::unordered_map\<close> is an association
  list with distinct keys; its order is the unspecified iteration order, and the theorems hold for
  every order.
\<close>

record Identity =
  machinePrivate :: bytes
  nodePrivate :: bytes
  discoPrivate :: bytes

definition isWeakIdentity :: "Identity \<Rightarrow> bool" where
  "isWeakIdentity i = (machinePrivate i = nodePrivate i \<or> nodePrivate i = discoPrivate i \<or>
     machinePrivate i = discoPrivate i)"

datatype EndpointType = EndpointLocal | EndpointStunMapped | EndpointObserved

record Endpoint =
  endpoint_address :: string
  endpoint_port :: u16
  endpoint_type :: EndpointType
  discoveredAt :: time_point
  lastValidatedAt :: time_point

record Peer =
  stableId :: string
  peer_nodeKey :: bytes
  peer_discoKey :: bytes
  peer_hostname :: string
  addresses :: "string list"
  allowedIPs :: "string list"
  endpoints :: "Endpoint list"
  homeDerp :: int
  online :: bool
  peer_os :: string
  tcpServicePorts :: "u16 list"
  servicesKnown :: bool

record PeerOnlineChange =
  change_stableId :: string
  change_online :: bool

record PeerDelta =
  changed :: "Peer list"
  removedStableIds :: "string list"
  onlineChanges :: "PeerOnlineChange list"

datatype RemoteRouteMode = NativeRoute | ProxyRoute

record RemoteRouteTarget =
  rt_peerId :: string
  rt_peerAddress :: string
  rt_targetAddress :: string
  rt_connectAddress :: string
  rt_mode :: RemoteRouteMode

datatype RemotePathType = PathUnknown | DirectIPv4 | DirectIPv6 | PathDerp | PeerRelayIPv4 | PeerRelayIPv6

record RemotePathInfo =
  path_type :: RemotePathType
  path_endpoint :: string
  path_relayRegion :: string
  path_rttMs :: int

end
