(* ===== verification/TailscalePeerDirectory.thy ===== *)
theory TailscalePeerDirectory
  imports RemoteTypes
begin

text \<open>
  Model of \<open>app/src/remote_access/tailscale/TailscalePeerDirectory.hpp\<close> and \<open>.cpp\<close>: the peers of
  the tailnet by stable ID, replaced by full network maps and patched by deltas, and the resolution
  of an IPv4 address to the peer that owns or routes it.  The shared mutex makes every operation
  atomic, so an operation is a function of the directory.
\<close>

section \<open>Addresses and prefixes\<close>

definition parseOctet :: "string \<Rightarrow> bool" where
  "parseOctet v =
     (if v = [] \<or> length v > 3 then False
      else (case from_chars_unsigned v of None \<Rightarrow> False | Some (octet, rest) \<Rightarrow> rest = [] \<and> octet \<le> 255))"

fun ipv4_loop :: "string list \<Rightarrow> u32 \<Rightarrow> nat \<Rightarrow> (u32 \<times> nat) option" where
  "ipv4_loop [] val components = Some (val, components)"
| "ipv4_loop (piece # ps) val components =
     (if \<not> parseOctet piece then None
      else
        let octet = (case from_chars_unsigned piece of Some (v, _) \<Rightarrow> v | None \<Rightarrow> 0)
        in ipv4_loop ps (push_bit 8 val OR ucast (word_of_nat octet :: u8)) (components + 1))"

definition parseIPv4Value :: "string \<Rightarrow> u32 option" where
  "parseIPv4Value ip =
     (case ipv4_loop (pieces (CHR ''.'') ip) 0 0 of
        None \<Rightarrow> None
      | Some (val, components) \<Rightarrow> if components \<noteq> 4 then None else Some val)"

definition parseIPv4Cidr :: "string \<Rightarrow> (u32 \<times> int) option" where
  "parseIPv4Cidr cidr =
     (case cut (CHR ''/'') cidr of
        (address, None) \<Rightarrow> (case parseIPv4Value address of None \<Rightarrow> None | Some v \<Rightarrow> Some (v, 32))
      | (address, Some prefixText) \<Rightarrow>
          if prefixText = [] \<or> length prefixText > 2 then None
          else (case from_chars_int prefixText of
                  None \<Rightarrow> None
                | Some (bits, rest) \<Rightarrow>
                    if rest \<noteq> [] \<or> bits < 0 \<or> bits > 32 then None
                    else (case parseIPv4Value address of None \<Rightarrow> None | Some v \<Rightarrow> Some (v, bits))))"

definition prefixMask :: "int \<Rightarrow> u32" where
  "prefixMask prefix = (if prefix = 0 then 0 else push_bit (nat (32 - prefix)) (NOT 0))"

definition cidrMatchLength :: "u32 \<Rightarrow> string \<Rightarrow> int" where
  "cidrMatchLength candidate cidr =
     (case parseIPv4Cidr cidr of
        None \<Rightarrow> -1
      | Some (network, prefix) \<Rightarrow>
          if candidate AND prefixMask prefix = network AND prefixMask prefix then prefix else -1)"

fun literal_loop :: "string list \<Rightarrow> nat \<Rightarrow> nat option" where
  "literal_loop [] components = Some components"
| "literal_loop (piece # ps) components =
     (if \<not> parseOctet piece then None else literal_loop ps (components + 1))"

definition isLiteralIPv4 :: "string \<Rightarrow> bool" where
  "isLiteralIPv4 address = (literal_loop (pieces (CHR ''.'') address) 0 = Some 4)"

fun firstIPv4 :: "string list \<Rightarrow> string" where
  "firstIPv4 [] = []"
| "firstIPv4 (address # rest) = (if isLiteralIPv4 address then address else firstIPv4 rest)"

definition isRoutableIPv4Subnet :: "string \<Rightarrow> string list \<Rightarrow> bool" where
  "isRoutableIPv4Subnet cidr ownAddresses =
     (case parseIPv4Cidr cidr of
        None \<Rightarrow> False
      | Some (network, prefix) \<Rightarrow>
          if prefix = 0 then False
          else if prefix = 32 then \<not> list_ex (\<lambda>own. parseIPv4Value own = Some network) ownAddresses
          else True)"

section \<open>The directory\<close>

record PeerDirectory =
  peers :: "(string \<times> Peer) list"

definition kMaxPeers :: nat where "kMaxPeers = 1024"
definition kMaxEndpointsPerPeer :: nat where "kMaxEndpointsPerPeer = 32"
definition kMaxAllowedIPsPerPeer :: nat where "kMaxAllowedIPsPerPeer = 64"

text \<open>\<open>None\<close> is success, \<open>Some e\<close> failure with the error text.\<close>

definition validatePeer :: "Peer \<Rightarrow> string option" where
  "validatePeer peer =
     (if stableId peer = [] then Some ''peer has no stable ID''
      else if length (endpoints peer) > kMaxEndpointsPerPeer then Some ''peer endpoint limit exceeded''
      else if length (allowedIPs peer) > kMaxAllowedIPsPerPeer then Some ''peer allowed IP limit exceeded''
      else if list_ex (\<lambda>a. length a > 128) (addresses peer) then Some ''peer address is oversized''
      else None)"

fun replace_loop :: "Peer list \<Rightarrow> (string \<times> Peer) list \<Rightarrow> string + (string \<times> Peer) list" where
  "replace_loop [] replacement = Inr replacement"
| "replace_loop (peer # ps) replacement =
     (case validatePeer peer of
        Some e \<Rightarrow> Inl e
      | None \<Rightarrow>
          if map_of replacement (stableId peer) \<noteq> None then Inl ''duplicate stable peer ID''
          else replace_loop ps (replacement @ [(stableId peer, peer)]))"

definition PeerDirectory_replace :: "Peer list \<Rightarrow> PeerDirectory \<Rightarrow> string option \<times> PeerDirectory" where
  "PeerDirectory_replace ps d =
     (if length ps > kMaxPeers then (Some ''peer limit exceeded'', d)
      else (case replace_loop ps [] of
              Inl e \<Rightarrow> (Some e, d)
            | Inr replacement \<Rightarrow> (None, d\<lparr>peers := replacement\<rparr>)))"

fun check_changed :: "Peer list \<Rightarrow> string list \<Rightarrow> string option" where
  "check_changed [] changedIds = None"
| "check_changed (peer # ps) changedIds =
     (case validatePeer peer of
        Some e \<Rightarrow> Some e
      | None \<Rightarrow> if stableId peer \<in> set changedIds then Some ''duplicate stable peer ID in delta''
               else check_changed ps (stableId peer # changedIds))"

definition projectedIds :: "PeerDelta \<Rightarrow> PeerDirectory \<Rightarrow> string list" where
  "projectedIds delta d =
     (let kept = fold removeAll (removedStableIds delta) (map fst (peers d))
      in fold List.insert (map stableId (changed delta)) kept)"

definition set_online :: "PeerOnlineChange \<Rightarrow> (string \<times> Peer) list \<Rightarrow> (string \<times> Peer) list" where
  "set_online change ps =
     (case map_of ps (change_stableId change) of
        None \<Rightarrow> ps
      | Some peer \<Rightarrow> AList.update (change_stableId change) (peer\<lparr>online := change_online change\<rparr>) ps)"

definition PeerDirectory_apply :: "PeerDelta \<Rightarrow> PeerDirectory \<Rightarrow> string option \<times> PeerDirectory" where
  "PeerDirectory_apply delta d =
     (case check_changed (changed delta) [] of
        Some e \<Rightarrow> (Some e, d)
      | None \<Rightarrow>
          if length (projectedIds delta d) > kMaxPeers then (Some ''peer limit exceeded'', d)
          else
            let removed = fold AList.delete (removedStableIds delta) (peers d);
                updated = fold (\<lambda>peer. AList.update (stableId peer) peer) (changed delta) removed
            in (None, d\<lparr>peers := fold set_online (onlineChanges delta) updated\<rparr>))"

definition snapshot :: "PeerDirectory \<Rightarrow> Peer list" where
  "snapshot d = map snd (peers d)"

definition findByStableId :: "string \<Rightarrow> PeerDirectory \<Rightarrow> Peer option" where
  "findByStableId sid d = map_of (peers d) sid"

definition proxy_target :: "string \<Rightarrow> string \<Rightarrow> string \<Rightarrow> RemoteRouteTarget" where
  "proxy_target pid peerAddress target = \<lparr>rt_peerId = pid, rt_peerAddress = peerAddress, rt_targetAddress = target,
     rt_connectAddress = ''127.0.0.1'', rt_mode = ProxyRoute\<rparr>"

definition direct_match :: "string \<Rightarrow> (string \<times> Peer) list \<Rightarrow> string option" where
  "direct_match address ps =
     (case find (\<lambda>(pid, peer). address \<in> set (addresses peer)) ps of None \<Rightarrow> None | Some (pid, _) \<Rightarrow> Some pid)"

text \<open>The subnet loop: the best peer with its key and the length of its prefix so far.\<close>

definition consider_subnet :: "u32 \<Rightarrow> string \<times> Peer \<Rightarrow> string \<Rightarrow>
    (string \<times> Peer) option \<times> int \<Rightarrow> (string \<times> Peer) option \<times> int" where
  "consider_subnet candidate entry subnet st =
     (let prefix = cidrMatchLength candidate subnet; (found, bestPrefix) = st in
      if prefix > bestPrefix \<or>
         (prefix = bestPrefix \<and> prefix \<ge> 0 \<and>
          (case found of None \<Rightarrow> False | Some (_, b) \<Rightarrow> \<not> online b) \<and> online (snd entry))
      then if firstIPv4 (addresses (snd entry)) = [] then st else (Some entry, prefix)
      else st)"

definition subnet_search :: "u32 \<Rightarrow> (string \<times> Peer) list \<Rightarrow> (string \<times> Peer) option \<times> int" where
  "subnet_search candidate ps =
     fold (\<lambda>entry. fold (consider_subnet candidate entry) (allowedIPs (snd entry))) ps (None, -1)"

definition resolveIPv4 :: "string \<Rightarrow> PeerDirectory \<Rightarrow> RemoteRouteTarget option" where
  "resolveIPv4 address d =
     (case parseIPv4Value address of
        None \<Rightarrow> None
      | Some candidate \<Rightarrow>
          (case direct_match address (peers d) of
             Some pid \<Rightarrow> Some (proxy_target pid address address)
           | None \<Rightarrow>
               (case fst (subnet_search candidate (peers d)) of
                  Some (pid, peer) \<Rightarrow> Some (proxy_target pid (firstIPv4 (addresses peer)) address)
                | None \<Rightarrow> None)))"

section \<open>The directory invariant\<close>

definition wf_directory :: "PeerDirectory \<Rightarrow> bool" where
  "wf_directory d = (distinct (map fst (peers d)) \<and> length (peers d) \<le> kMaxPeers \<and>
     (\<forall>(k, p) \<in> set (peers d). k = stableId p \<and> validatePeer p = None))"

definition entries_ok :: "(string \<times> Peer) list \<Rightarrow> bool" where
  "entries_ok ps = (distinct (map fst ps) \<and> (\<forall>(k, p) \<in> set ps. k = stableId p \<and> validatePeer p = None))"

lemma wf_directory_alt: "wf_directory d = (entries_ok (peers d) \<and> length (peers d) \<le> kMaxPeers)"
  by (auto simp: wf_directory_def entries_ok_def)

lemma replace_loop_ok:
  "replace_loop ps acc = Inr r \<Longrightarrow> entries_ok acc \<Longrightarrow>
   entries_ok r \<and> r = acc @ map (\<lambda>p. (stableId p, p)) ps"
proof (induction ps acc rule: replace_loop.induct)
  case (2 peer ps acc)
  from 2(2) have ok: "validatePeer peer = None" "map_of acc (stableId peer) = None"
    "replace_loop ps (acc @ [(stableId peer, peer)]) = Inr r"
    by (auto split: option.splits if_splits)
  moreover have "entries_ok (acc @ [(stableId peer, peer)])"
    using 2(3) ok by (auto simp: entries_ok_def map_of_eq_None_iff)
  ultimately show ?case using 2(1) by auto
qed simp

lemma PeerDirectory_replace_wf: "wf_directory d \<Longrightarrow> wf_directory (snd (PeerDirectory_replace ps d))"
  using replace_loop_ok [of ps "[]"]
  by (auto simp: PeerDirectory_replace_def wf_directory_alt entries_ok_def split: sum.splits)

lemma set_delete: "set (AList.delete k ps) \<subseteq> set ps"
  by (induction ps) auto

lemma entries_ok_delete: "entries_ok ps \<Longrightarrow> entries_ok (AList.delete k ps)"
  using set_delete [of k ps] by (auto simp: entries_ok_def AList.distinct_delete)

lemma entries_ok_update:
  assumes "entries_ok ps" "validatePeer p = None" "stableId p = k"
  shows "entries_ok (AList.update k p ps)"
proof -
  have "set (AList.update k p ps) \<subseteq> insert (k, p) (set ps)"
    by (induction ps) auto
  moreover have "distinct (map fst (AList.update k p ps))"
    using assms(1) by (simp add: entries_ok_def AList.distinct_update)
  ultimately show ?thesis using assms by (fastforce simp: entries_ok_def)
qed

lemma validatePeer_online [simp]: "validatePeer (p\<lparr>online := b\<rparr>) = validatePeer p"
  by (simp add: validatePeer_def)

lemma entries_ok_set_online: "entries_ok ps \<Longrightarrow> entries_ok (set_online c ps)"
proof (cases "map_of ps (change_stableId c)")
  case (Some p)
  assume ok: "entries_ok ps"
  with map_of_SomeD [OF Some] have "stableId p = change_stableId c" "validatePeer p = None"
    by (auto simp: entries_ok_def)
  with Some ok show ?thesis by (simp add: set_online_def entries_ok_update)
qed (simp add: set_online_def)

lemma fst_set_online: "map fst (set_online c ps) = map fst ps"
  by (auto simp: set_online_def AList.update_keys map_of_eq_None_iff split: option.split
      dest: map_of_SomeD intro: rev_image_eqI)

lemma check_changed_ok:
  "check_changed ps ids = None \<Longrightarrow>
   (\<forall>p \<in> set ps. validatePeer p = None) \<and> distinct (map stableId ps) \<and> set (map stableId ps) \<inter> set ids = {}"
  by (induction ps ids rule: check_changed.induct) (auto split: option.splits if_splits)

lemma fst_fold_set_online: "map fst (fold set_online cs ps) = map fst ps"
  by (induction cs arbitrary: ps) (simp_all add: fst_set_online)

lemma delete_fst_set: "fst ` set (AList.delete k ps) = fst ` set ps - {k}"
  using arg_cong [OF AList.delete_keys [of k ps], of set] by simp

lemma keys_fold_delete: "fst ` set (fold AList.delete ks ps) = fst ` set ps - set ks"
  by (induction ks arbitrary: ps) (auto simp: delete_fst_set)

lemma keys_fold_update: "fst ` set (fold (\<lambda>p. AList.update (stableId p) p) qs ps) = fst ` set ps \<union> stableId ` set qs"
  by (induction qs arbitrary: ps) (auto simp: AList.dom_update)

lemma set_fold_removeAll: "set (fold removeAll ks xs) = set xs - set ks"
  by (induction ks arbitrary: xs) auto

lemma distinct_fold_removeAll: "distinct xs \<Longrightarrow> distinct (fold removeAll ks xs)"
  by (induction ks arbitrary: xs) (auto simp: distinct_removeAll)

lemma fold_insert: "set (fold List.insert ks xs) = set xs \<union> set ks" "distinct xs \<Longrightarrow> distinct (fold List.insert ks xs)"
  by (induction ks arbitrary: xs) auto

lemma PeerDirectory_apply_wf:
  assumes "wf_directory d"
  shows "wf_directory (snd (PeerDirectory_apply delta d))"
proof (cases "check_changed (changed delta) [] = None \<and> length (projectedIds delta d) \<le> kMaxPeers")
  case True
  let ?r = "fold AList.delete (removedStableIds delta) (peers d)"
  let ?u = "fold (\<lambda>p. AList.update (stableId p) p) (changed delta) ?r"
  let ?o = "fold set_online (onlineChanges delta) ?u"
  have valid: "\<forall>p \<in> set (changed delta). validatePeer p = None"
    using check_changed_ok True by blast
  have "entries_ok (peers d)" using assms by (simp add: wf_directory_alt)
  then have r: "entries_ok ?r" by (rule fold_inv) (rule entries_ok_delete)
  have "entries_ok ?u" by (rule fold_inv [where s = ?r and Q = entries_ok, OF r]) (use valid in \<open>simp add: entries_ok_update\<close>)
  then have ok: "entries_ok ?o" by (rule fold_inv) (rule entries_ok_set_online)
  have keys: "map fst ?o = map fst ?u" by (rule fst_fold_set_online)
  have "length ?o = length (map fst ?u)" using arg_cong [OF keys, of length] by simp
  also have "\<dots> = card (set (map fst ?u))"
    using ok keys by (simp add: entries_ok_def distinct_card del: set_map)
  also have "set (map fst ?u) = fst ` set ?u" by simp
  also have "fst ` set ?u = set (projectedIds delta d)"
    by (simp add: keys_fold_update keys_fold_delete projectedIds_def set_fold_removeAll fold_insert)
  also have "card \<dots> \<le> length (projectedIds delta d)" by (rule card_length)
  finally show ?thesis using True ok by (simp add: PeerDirectory_apply_def wf_directory_alt Let_def)
next
  case False
  with assms show ?thesis by (auto simp: PeerDirectory_apply_def Let_def split: option.split)
qed

text \<open>
  C22: The peer directory keeps its limits under every update: full replacements and deltas, accepted
  or refused, leave at most 1024 peers, each under its own non-empty stable ID and within the
  endpoint, prefix and address limits; a refused update changes nothing.
\<close>

theorem PeerDirectory_invariant:
  assumes "wf_directory d"
  shows "wf_directory (snd (PeerDirectory_replace ps d)) \<and> wf_directory (snd (PeerDirectory_apply delta d))
    \<and> (fst (PeerDirectory_replace ps d) \<noteq> None \<longrightarrow> snd (PeerDirectory_replace ps d) = d)
    \<and> (fst (PeerDirectory_apply delta d) \<noteq> None \<longrightarrow> snd (PeerDirectory_apply delta d) = d)"
  using PeerDirectory_replace_wf [OF assms] PeerDirectory_apply_wf [OF assms]
  by (auto simp: PeerDirectory_replace_def PeerDirectory_apply_def Let_def split: sum.split option.split)

theorem PeerDirectory_invariant_witness:
  "wf_directory (snd (PeerDirectory_apply \<lparr>changed = [], removedStableIds = [''a''], onlineChanges = []\<rparr> \<lparr>peers = []\<rparr>))"
  using PeerDirectory_invariant [of "\<lparr>peers = []\<rparr>" "[]" "\<lparr>changed = [], removedStableIds = [''a''], onlineChanges = []\<rparr>"]
  by (simp add: wf_directory_def)

section \<open>What a delta does to a lookup\<close>

definition patch_online :: "PeerOnlineChange list \<Rightarrow> string \<Rightarrow> Peer \<Rightarrow> Peer" where
  "patch_online cs sid p = fold (\<lambda>c p. if change_stableId c = sid then p\<lparr>online := change_online c\<rparr> else p) cs p"

lemma map_of_fold_delete: "map_of (fold AList.delete ks ps) sid = (if sid \<in> set ks then None else map_of ps sid)"
  by (induction ks arbitrary: ps) (auto simp: AList.delete_conv')

lemma map_of_fold_update:
  "distinct (map stableId qs) \<Longrightarrow> map_of (fold (\<lambda>p. AList.update (stableId p) p) qs ps) sid =
     (case find (\<lambda>p. stableId p = sid) qs of Some p \<Rightarrow> Some p | None \<Rightarrow> map_of ps sid)"
proof (induction qs arbitrary: ps)
  case (Cons q qs)
  moreover have "find (\<lambda>p. stableId p = stableId q) qs = None"
    using Cons.prems by (auto simp: find_None_iff rev_image_eqI)
  ultimately show ?case by (auto simp: AList.update_conv' split: option.split)
qed simp

lemma map_of_set_online:
  "map_of (set_online c ps) sid =
     map_option (\<lambda>p. if change_stableId c = sid then p\<lparr>online := change_online c\<rparr> else p) (map_of ps sid)"
  by (cases "map_of ps sid"; cases "map_of ps (change_stableId c)")
    (auto simp: set_online_def AList.update_conv')

lemma map_of_fold_set_online: "map_of (fold set_online cs ps) sid = map_option (patch_online cs sid) (map_of ps sid)"
proof (induction cs arbitrary: ps)
  case Nil
  then show ?case by (cases "map_of ps sid") (auto simp: patch_online_def)
next
  case (Cons c cs)
  then show ?case by (cases "map_of ps sid") (auto simp: patch_online_def map_of_set_online)
qed

text \<open>
  A delta that is accepted has exactly its meaning: the lookup of an ID afterwards is the peer
  the delta carries for it, else nothing if the delta removes it, else the previous peer, in each
  case with the last presence change for that ID applied.
\<close>

theorem PeerDirectory_apply_lookup:
  assumes "PeerDirectory_apply delta d = (None, d')"
  shows "findByStableId sid d' = map_option (patch_online (onlineChanges delta) sid)
    (case find (\<lambda>p. stableId p = sid) (changed delta) of
       Some p \<Rightarrow> Some p
     | None \<Rightarrow> if sid \<in> set (removedStableIds delta) then None else findByStableId sid d)"
proof -
  from assms have ok: "check_changed (changed delta) [] = None"
    by (auto simp: PeerDirectory_apply_def split: option.splits)
  then have "distinct (map stableId (changed delta))" using check_changed_ok by blast
  with assms ok show ?thesis
    by (auto simp: PeerDirectory_apply_def Let_def findByStableId_def map_of_fold_set_online
        map_of_fold_update map_of_fold_delete split: if_splits option.split)
qed

definition example_peer :: "string \<Rightarrow> string \<Rightarrow> string list \<Rightarrow> bool \<Rightarrow> Peer" where
  "example_peer sid address nets on =
     \<lparr>stableId = sid, peer_nodeKey = [], peer_discoKey = [], peer_hostname = sid, addresses = [address], allowedIPs = nets,
      endpoints = [], homeDerp = 1, online = on, peer_os = ''linux'', tcpServicePorts = [], servicesKnown = False\<rparr>"

definition example_directory :: PeerDirectory where
  "example_directory = \<lparr>peers = [(''a'', example_peer ''a'' ''100.64.0.1'' [''10.0.0.0/8''] True),
                                (''b'', example_peer ''b'' ''100.64.0.2'' [''10.2.0.0/16''] False)]\<rparr>"

theorem PeerDirectory_apply_lookup_witness:
  "\<exists>d'. PeerDirectory_apply \<lparr>changed = [], removedStableIds = [''a''],
       onlineChanges = [\<lparr>change_stableId = ''b'', change_online = True\<rparr>]\<rparr> example_directory = (None, d')
    \<and> findByStableId ''a'' d' = None \<and> findByStableId ''b'' d' = Some (example_peer ''b'' ''100.64.0.2'' [''10.2.0.0/16''] True)"
proof -
  let ?delta = "\<lparr>changed = [], removedStableIds = [''a''], onlineChanges = [\<lparr>change_stableId = ''b'', change_online = True\<rparr>]\<rparr>"
  obtain d' where d': "PeerDirectory_apply ?delta example_directory = (None, d')"
    by (simp add: PeerDirectory_apply_def projectedIds_def example_directory_def kMaxPeers_def)
  from PeerDirectory_apply_lookup [OF d', of "''a''"] PeerDirectory_apply_lookup [OF d', of "''b''"] d'
  show ?thesis
    by (simp add: findByStableId_def example_directory_def example_peer_def patch_online_def)
qed

section \<open>Resolution\<close>

lemma cidrMatchLength_ge: "-1 \<le> cidrMatchLength c s"
proof (cases "parseIPv4Cidr s")
  case (Some np)
  then have "0 \<le> snd np"
    by (auto simp: parseIPv4Cidr_def split: prod.splits option.splits if_splits)
  with Some show ?thesis by (auto simp: cidrMatchLength_def split: prod.splits)
qed (simp add: cidrMatchLength_def)

definition eligible :: "string \<times> Peer \<Rightarrow> bool" where
  "eligible e = (firstIPv4 (addresses (snd e)) \<noteq> [])"

text \<open>\<open>found\<close> is the best of the pairs \<open>seen\<close>: no eligible peer covers the address with a longer
  prefix, and an online one with the same prefix only if the choice is online too.\<close>

definition best_of :: "u32 \<Rightarrow> ((string \<times> Peer) \<times> string) set \<Rightarrow> (string \<times> Peer) option \<times> int \<Rightarrow> bool" where
  "best_of c seen st =
     (case fst st of
        None \<Rightarrow> snd st = -1 \<and> (\<forall>(e, s) \<in> seen. eligible e \<longrightarrow> cidrMatchLength c s = -1)
      | Some b \<Rightarrow> eligible b \<and> 0 \<le> snd st \<and> (\<exists>s. (b, s) \<in> seen \<and> cidrMatchLength c s = snd st) \<and>
          (\<forall>(e, s) \<in> seen. eligible e \<longrightarrow> cidrMatchLength c s \<le> snd st \<and>
             (cidrMatchLength c s = snd st \<and> online (snd e) \<longrightarrow> online (snd b))))"

lemma consider_subnet_best:
  assumes "best_of c seen st"
  shows "best_of c (insert (e, s) seen) (consider_subnet c e s st)"
proof -
  obtain found bp where st: "st = (found, bp)" by (cases st)
  have ge: "-1 \<le> cidrMatchLength c s" by (rule cidrMatchLength_ge)
  show ?thesis
  proof (cases found)
    case None
    with assms st have "bp = -1" "\<forall>(e, s) \<in> seen. eligible e \<longrightarrow> cidrMatchLength c s = -1"
      by (auto simp: best_of_def)
    with st None ge show ?thesis
      by (auto simp: best_of_def consider_subnet_def Let_def eligible_def)
  next
    case (Some b)
    obtain i p where b: "b = (i, p)" by (cases b)
    from Some assms st b have "eligible (i, p)" "0 \<le> bp" "\<exists>s. ((i, p), s) \<in> seen \<and> cidrMatchLength c s = bp"
      "\<forall>(e, s) \<in> seen. eligible e \<longrightarrow> cidrMatchLength c s \<le> bp \<and> (cidrMatchLength c s = bp \<and> online (snd e) \<longrightarrow> online p)"
      by (auto simp: best_of_def)
    with st Some b show ?thesis
      by (fastforce simp: best_of_def consider_subnet_def Let_def eligible_def)
  qed
qed

definition routes :: "PeerDirectory \<Rightarrow> ((string \<times> Peer) \<times> string) set" where
  "routes d = {(e, s). e \<in> set (peers d) \<and> s \<in> set (allowedIPs (snd e))}"

lemma fold_subnets_best:
  "best_of c seen st \<Longrightarrow> best_of c (seen \<union> {(e, s) | s. s \<in> set ss}) (fold (consider_subnet c e) ss st)"
proof (induction ss arbitrary: seen st)
  case Nil
  then show ?case by simp
next
  case (Cons x xs)
  have "insert (e, x) seen \<union> {(e, s) | s. s \<in> set xs} = seen \<union> {(e, s) | s. s \<in> set (x # xs)}" by auto
  with Cons.IH [OF consider_subnet_best [OF Cons.prems, of e x]] show ?case by simp
qed

lemma subnet_search_best:
  "best_of c seen st \<Longrightarrow>
   best_of c (seen \<union> {(e, s). e \<in> set ps \<and> s \<in> set (allowedIPs (snd e))})
     (fold (\<lambda>entry. fold (consider_subnet c entry) (allowedIPs (snd entry))) ps st)"
proof (induction ps arbitrary: seen st)
  case Nil
  then show ?case by simp
next
  case (Cons p ps)
  have "(seen \<union> {(p, s) | s. s \<in> set (allowedIPs (snd p))}) \<union> {(e, s). e \<in> set ps \<and> s \<in> set (allowedIPs (snd e))} =
      seen \<union> {(e, s). e \<in> set (p # ps) \<and> s \<in> set (allowedIPs (snd e))}" by auto
  with Cons.IH [OF fold_subnets_best [OF Cons.prems, of p "allowedIPs (snd p)"]] show ?case by simp
qed

lemma direct_match_None: "direct_match a ps = None \<longleftrightarrow> (\<forall>(i, p) \<in> set ps. a \<notin> set (addresses p))"
proof (cases "find (\<lambda>(i, p). a \<in> set (addresses p)) ps")
  case (Some e)
  from find_SomeD [OF this] have "e \<in> set ps" "a \<in> set (addresses (snd e))" by auto
  with Some show ?thesis by (cases e) (auto simp: direct_match_def)
next
  case None
  then have "direct_match a ps = None" by (simp add: direct_match_def)
  moreover from None have "\<forall>(i, p) \<in> set ps. a \<notin> set (addresses p)" by (auto simp: find_None_iff)
  ultimately show ?thesis by simp
qed

lemma direct_match_Some: "direct_match a ps = Some i \<Longrightarrow> \<exists>p. (i, p) \<in> set ps \<and> a \<in> set (addresses p)"
  by (auto simp: direct_match_def find_Some_iff split: option.splits) (metis nth_mem)

definition owns :: "PeerDirectory \<Rightarrow> string \<Rightarrow> string \<Rightarrow> bool" where
  "owns d address sid = (\<exists>p. (sid, p) \<in> set (peers d) \<and> address \<in> set (addresses p))"

text \<open>
  C20: Addresses resolve the way routing does: a peer's own address goes to a peer that has it;
  otherwise the peer is one that advertises a subnet containing the address, no usable peer
  advertises a longer prefix containing it, and an online one with the same prefix is preferred to
  an offline one; nothing is returned only if the text is no IPv4 address or no usable peer owns or
  covers it.
\<close>

theorem resolveIPv4_longest_prefix:
  "case resolveIPv4 address d of
     Some t \<Rightarrow>
       (\<exists>sid. owns d address sid \<and> t = proxy_target sid address address) \<or>
       ((\<forall>sid. \<not> owns d address sid) \<and>
        (\<exists>c b s. parseIPv4Value address = Some c \<and> (b, s) \<in> routes d \<and> eligible b \<and>
           t = proxy_target (fst b) (firstIPv4 (addresses (snd b))) address \<and> 0 \<le> cidrMatchLength c s \<and>
           (\<forall>(e, s') \<in> routes d. eligible e \<longrightarrow> cidrMatchLength c s' \<le> cidrMatchLength c s \<and>
              (cidrMatchLength c s' = cidrMatchLength c s \<and> online (snd e) \<longrightarrow> online (snd b)))))
   | None \<Rightarrow> parseIPv4Value address = None \<or>
       ((\<forall>sid. \<not> owns d address sid) \<and>
        (\<exists>c. parseIPv4Value address = Some c \<and> (\<forall>(e, s) \<in> routes d. eligible e \<longrightarrow> cidrMatchLength c s = -1)))"
proof (cases "parseIPv4Value address")
  case None
  then show ?thesis by (simp add: resolveIPv4_def)
next
  case (Some c)
  show ?thesis
  proof (cases "direct_match address (peers d)")
    case (Some i)
    with \<open>parseIPv4Value address = Some c\<close> direct_match_Some [OF Some] show ?thesis
      by (auto simp: resolveIPv4_def owns_def)
  next
    case None
    then have free: "\<forall>sid. \<not> owns d address sid" by (auto simp: direct_match_None owns_def)
    have "best_of c {} (None, -1)" by (simp add: best_of_def)
    from subnet_search_best [OF this, of "peers d"]
    have best: "best_of c (routes d) (subnet_search c (peers d))" by (simp add: subnet_search_def routes_def)
    show ?thesis
    proof (cases "fst (subnet_search c (peers d))")
      case None
      with best free \<open>direct_match address (peers d) = None\<close> \<open>parseIPv4Value address = Some c\<close> show ?thesis
        by (simp add: resolveIPv4_def best_of_def)
    next
      case (Some b)
      with best obtain s where s: "eligible b" "(b, s) \<in> routes d" "0 \<le> cidrMatchLength c s"
        "\<forall>(e, s') \<in> routes d. eligible e \<longrightarrow> cidrMatchLength c s' \<le> cidrMatchLength c s \<and>
           (cidrMatchLength c s' = cidrMatchLength c s \<and> online (snd e) \<longrightarrow> online (snd b))"
        by (auto simp: best_of_def)
      have "resolveIPv4 address d = Some (proxy_target (fst b) (firstIPv4 (addresses (snd b))) address)"
        using Some \<open>direct_match address (peers d) = None\<close> \<open>parseIPv4Value address = Some c\<close>
        by (cases b) (simp add: resolveIPv4_def)
      moreover have "\<exists>c b s. parseIPv4Value address = Some c \<and> (b, s) \<in> routes d \<and> eligible b \<and>
           proxy_target (fst b') (firstIPv4 (addresses (snd b'))) address = proxy_target (fst b) (firstIPv4 (addresses (snd b))) address
           \<and> 0 \<le> cidrMatchLength c s \<and>
           (\<forall>(e, s') \<in> routes d. eligible e \<longrightarrow> cidrMatchLength c s' \<le> cidrMatchLength c s \<and>
              (cidrMatchLength c s' = cidrMatchLength c s \<and> online (snd e) \<longrightarrow> online (snd b)))" if "b' = b" for b'
        using s \<open>parseIPv4Value address = Some c\<close> that by blast
      ultimately show ?thesis using free by simp
    qed
  qed
qed

lemmas ipv4_eval = parseIPv4Cidr_def parseIPv4Value_def parseOctet_def from_chars_int_def from_chars_unsigned_def
  isdigit_def dec_value_def Let_def

lemma example_resolves:
  "resolveIPv4 ''10.2.3.4'' example_directory = Some (proxy_target ''b'' ''100.64.0.2'' ''10.2.3.4'')"
proof -
  have "parseIPv4Value ''10.2.3.4'' = Some 0x0A020304" by (simp add: ipv4_eval)
  moreover have "cidrMatchLength 0x0A020304 ''10.0.0.0/8'' = 8" "cidrMatchLength 0x0A020304 ''10.2.0.0/16'' = 16"
    by (simp_all add: cidrMatchLength_def prefixMask_def ipv4_eval mask_eq_exp_minus_1)
  moreover have "firstIPv4 [''100.64.0.1''] = ''100.64.0.1''" "firstIPv4 [''100.64.0.2''] = ''100.64.0.2''"
    by (simp_all add: isLiteralIPv4_def ipv4_eval)
  ultimately show ?thesis
    by (simp add: resolveIPv4_def example_directory_def example_peer_def direct_match_def subnet_search_def
        consider_subnet_def)
qed

theorem resolveIPv4_longest_prefix_witness:
  "resolveIPv4 ''10.2.3.4'' example_directory = Some (proxy_target ''b'' ''100.64.0.2'' ''10.2.3.4'')
   \<and> ((\<exists>sid. owns example_directory ''10.2.3.4'' sid) \<or>
      (\<exists>c b s. parseIPv4Value ''10.2.3.4'' = Some c \<and> (b, s) \<in> routes example_directory \<and>
         (\<forall>(e, s') \<in> routes example_directory. eligible e \<longrightarrow> cidrMatchLength c s' \<le> cidrMatchLength c s)))"
  using resolveIPv4_longest_prefix [of "''10.2.3.4''" example_directory] example_resolves by fastforce

section \<open>What a prefix match means\<close>

lemma parseIPv4Cidr_range: "parseIPv4Cidr cidr = Some (n, p) \<Longrightarrow> 0 \<le> p \<and> p \<le> 32"
  by (auto simp: parseIPv4Cidr_def split: prod.splits option.splits if_splits)

lemma prefixMask_0: "prefixMask 0 = push_bit 32 (NOT 0)"
  by (rule bit_word_eqI) (simp add: prefixMask_def bit_simps)

text \<open>
  A subnet covers an address exactly when the leading bits agree: the match length of
  \<open>a.b.c.d/p\<close> is \<open>p\<close> if the upper \<open>p\<close> bits of the address and of the network are the same, for
  every \<open>p\<close> from 0 to 32 (where the shift by 32 bits is avoided), and -1 otherwise.
\<close>

theorem cidrMatchLength_leading_bits:
  assumes "parseIPv4Cidr cidr = Some (network, p)"
  shows "0 \<le> p \<and> p \<le> 32 \<and> cidrMatchLength c cidr =
    (if drop_bit (nat (32 - p)) c = drop_bit (nat (32 - p)) network then p else -1)"
proof -
  have p: "0 \<le> p" "p \<le> 32" using parseIPv4Cidr_range [OF assms] by auto
  have mask: "prefixMask p = push_bit (nat (32 - p)) (NOT 0)"
    using prefixMask_0 by (cases "p = 0") (auto simp: prefixMask_def)
  have "nat (32 - p) \<le> 32" using p by simp
  from and_high_mask_eq_iff [OF this] show ?thesis
    using assms p by (simp add: cidrMatchLength_def mask)
qed

theorem cidrMatchLength_leading_bits_witness:
  "parseIPv4Cidr ''10.2.0.0/15'' = Some (0x0A020000, 15) \<and> cidrMatchLength 0x0A030405 ''10.2.0.0/15'' = 15
    \<and> cidrMatchLength 0x0A040405 ''10.2.0.0/15'' = -1"
proof -
  have "parseIPv4Cidr ''10.2.0.0/15'' = Some (0x0A020000, 15)"
    by (simp add: parseIPv4Cidr_def parseIPv4Value_def parseOctet_def from_chars_int_def from_chars_unsigned_def
        isdigit_def dec_value_def Let_def)
  from cidrMatchLength_leading_bits [OF this] this show ?thesis by simp
qed

end
