(* ===== verification/TailscalePathManager.thy ===== *)
theory TailscalePathManager
  imports RemoteTypes
begin

text \<open>
  Model of \<open>app/src/remote_access/tailscale/TailscalePathManager.hpp\<close> and \<open>.cpp\<close>: the path (DERP
  or direct) shown for every peer.  The mutex makes each operation atomic; the map from peer IDs to
  path states is a partial function, and \<open>paths_[id]\<close> creates a default state.
\<close>

section \<open>State and operations\<close>

record PathState =
  derpRegion :: string
  directEndpoint :: string
  directRttMs :: int
  probeStarted :: time_point
  lastDirectPacket :: time_point
  probing :: bool
  direct :: bool

record PathManager =
  paths :: "string \<rightharpoonup> PathState"

definition kDirectFreshness :: int where
  "kDirectFreshness = 15 * 1000000000"

definition kProbeTimeout :: int where
  "kProbeTimeout = 3 * 1000000000"

definition default_path :: PathState where
  "default_path = \<lparr>derpRegion = [], directEndpoint = [], directRttMs = -1, probeStarted = 0,
     lastDirectPacket = 0, probing = False, direct = False\<rparr>"

definition path_at :: "string \<Rightarrow> PathManager \<Rightarrow> PathState" where
  "path_at peerId m = (case paths m peerId of None \<Rightarrow> default_path | Some st \<Rightarrow> st)"

definition setDerp :: "string \<Rightarrow> string \<Rightarrow> PathManager \<Rightarrow> PathManager" where
  "setDerp peerId region m = m\<lparr>paths := (paths m)(peerId \<mapsto> (path_at peerId m)\<lparr>derpRegion := region\<rparr>)\<rparr>"

definition beginDirectProbe :: "string \<Rightarrow> string \<Rightarrow> time_point \<Rightarrow> PathManager \<Rightarrow> PathManager" where
  "beginDirectProbe peerId endpoint now m =
     m\<lparr>paths := (paths m)(peerId \<mapsto> (path_at peerId m)\<lparr>directEndpoint := endpoint, probeStarted := now, probing := True\<rparr>)\<rparr>"

definition directPong :: "string \<Rightarrow> string \<Rightarrow> int \<Rightarrow> time_point \<Rightarrow> PathManager \<Rightarrow> PathManager" where
  "directPong peerId endpoint rttMs now m =
     m\<lparr>paths := (paths m)(peerId \<mapsto> (path_at peerId m)\<lparr>directEndpoint := endpoint, directRttMs := rttMs,
        lastDirectPacket := now, probing := False, direct := True\<rparr>)\<rparr>"

definition noteDirectPacket :: "string \<Rightarrow> time_point \<Rightarrow> PathManager \<Rightarrow> PathManager" where
  "noteDirectPacket peerId now m =
     (case paths m peerId of
        Some st \<Rightarrow> if direct st then m\<lparr>paths := (paths m)(peerId \<mapsto> st\<lparr>lastDirectPacket := now\<rparr>)\<rparr> else m
      | None \<Rightarrow> m)"

definition directLost :: "string \<Rightarrow> PathManager \<Rightarrow> PathManager" where
  "directLost peerId m =
     (case paths m peerId of
        None \<Rightarrow> m
      | Some st \<Rightarrow> m\<lparr>paths := (paths m)(peerId \<mapsto> st\<lparr>direct := False, probing := False, directRttMs := -1\<rparr>)\<rparr>)"

definition networkChanged :: "PathManager \<Rightarrow> PathManager" where
  "networkChanged m = m\<lparr>paths := (\<lambda>k. map_option (\<lambda>st. st\<lparr>direct := False, probing := False,
     directEndpoint := [], directRttMs := -1\<rparr>) (paths m k))\<rparr>"

definition poll_path :: "time_point \<Rightarrow> PathState \<Rightarrow> PathState" where
  "poll_path now st =
     (let st1 = (if probing st \<and> now - probeStarted st > kProbeTimeout then st\<lparr>probing := False\<rparr> else st)
      in if direct st1 \<and> now - lastDirectPacket st1 > kDirectFreshness
         then st1\<lparr>direct := False, directRttMs := -1\<rparr> else st1)"

definition PathManager_poll :: "time_point \<Rightarrow> PathManager \<Rightarrow> PathManager" where
  "PathManager_poll now m = m\<lparr>paths := (\<lambda>k. map_option (poll_path now) (paths m k))\<rparr>"

definition unknown_path :: RemotePathInfo where
  "unknown_path = \<lparr>path_type = PathUnknown, path_endpoint = [], path_relayRegion = [], path_rttMs = -1\<rparr>"

definition pathInfo :: "string \<Rightarrow> PathManager \<Rightarrow> RemotePathInfo" where
  "pathInfo peerId m =
     (case paths m peerId of
        None \<Rightarrow> unknown_path
      | Some st \<Rightarrow>
          if direct st then \<lparr>path_type = DirectIPv4, path_endpoint = directEndpoint st, path_relayRegion = [],
                             path_rttMs = directRttMs st\<rparr>
          else if derpRegion st \<noteq> [] then \<lparr>path_type = PathDerp, path_endpoint = [],
                             path_relayRegion = derpRegion st, path_rttMs = -1\<rparr>
          else unknown_path)"

section \<open>Direct paths need pongs\<close>

datatype path_event =
    SetDerp string string
  | BeginDirectProbe string string
  | DirectPong string string int
  | NoteDirectPacket string
  | DirectLost string
  | NetworkChanged
  | Poll

fun path_step :: "time_point \<times> path_event \<Rightarrow> PathManager \<Rightarrow> PathManager" where
  "path_step (now, SetDerp p r) m = setDerp p r m"
| "path_step (now, BeginDirectProbe p e) m = beginDirectProbe p e now m"
| "path_step (now, DirectPong p e rtt) m = directPong p e rtt now m"
| "path_step (now, NoteDirectPacket p) m = noteDirectPacket p now m"
| "path_step (now, DirectLost p) m = directLost p m"
| "path_step (now, NetworkChanged) m = networkChanged m"
| "path_step (now, Poll) m = PathManager_poll now m"

text \<open>Events that end a direct path of peer \<open>p\<close>.\<close>

fun ends_direct :: "string \<Rightarrow> time_point \<times> path_event \<Rightarrow> bool" where
  "ends_direct p (now, DirectLost q) = (q = p)"
| "ends_direct p (now, NetworkChanged) = True"
| "ends_direct p e = False"

fun is_direct_sign :: "string \<Rightarrow> time_point \<times> path_event \<Rightarrow> bool" where
  "is_direct_sign p (now, DirectPong q e rtt) = (q = p)"
| "is_direct_sign p (now, NoteDirectPacket q) = (q = p)"
| "is_direct_sign p e = False"

definition ponged :: "(time_point \<times> path_event) list \<Rightarrow> string \<Rightarrow> int \<Rightarrow> bool" where
  "ponged evs p rtt = (\<exists>as t e cs. evs = as @ (t, DirectPong p e rtt) # cs \<and> \<not> list_ex (ends_direct p) cs)"

definition signed_at :: "(time_point \<times> path_event) list \<Rightarrow> string \<Rightarrow> time_point \<Rightarrow> bool" where
  "signed_at evs p t = (\<exists>x \<in> set evs. is_direct_sign p x \<and> fst x = t)"

definition pong_backed :: "(time_point \<times> path_event) list \<Rightarrow> string \<Rightarrow> PathState \<Rightarrow> bool" where
  "pong_backed evs p st = (direct st \<longrightarrow> ponged evs p (directRttMs st) \<and> signed_at evs p (lastDirectPacket st))"

lemma ponged_snoc:
  assumes "ponged evs p rtt" "\<not> ends_direct p x"
  shows "ponged (evs @ [x]) p rtt"
proof -
  from assms(1) obtain as t e cs where "evs = as @ (t, DirectPong p e rtt) # cs" "\<not> list_ex (ends_direct p) cs"
    by (auto simp: ponged_def)
  with assms(2) have "evs @ [x] = as @ (t, DirectPong p e rtt) # (cs @ [x])" "\<not> list_ex (ends_direct p) (cs @ [x])"
    by auto
  then show ?thesis unfolding ponged_def by blast
qed

lemma ponged_new: "ponged (evs @ [(t, DirectPong p e rtt)]) p rtt"
  by (force simp: ponged_def)

lemma signed_at_snoc: "signed_at evs p t \<Longrightarrow> signed_at (evs @ [x]) p t"
  by (auto simp: signed_at_def)

lemma signed_at_new: "is_direct_sign p (t, e) \<Longrightarrow> signed_at (evs @ [(t, e)]) p t"
  by (force simp: signed_at_def)

lemma path_step_backed:
  assumes IH: "\<And>st. paths m p = Some st \<Longrightarrow> pong_backed evs p st" and "paths (path_step x m) p = Some st'"
  shows "pong_backed (evs @ [x]) p st'"
proof -
  obtain t e where x: "x = (t, e)" by (cases x)
  have IH': "pong_backed evs p (path_at p m)"
    using IH by (auto simp: path_at_def pong_backed_def default_path_def split: option.split)
  show ?thesis
  proof (cases "paths (path_step x m) p = paths m p \<and> \<not> ends_direct p x")
    case True
    with assms have "pong_backed evs p st'" by simp
    with True show ?thesis by (simp add: pong_backed_def ponged_snoc signed_at_snoc)
  next
    case False
    with assms(2) x IH' IH show ?thesis
      by (cases e) (auto simp: setDerp_def beginDirectProbe_def directPong_def noteDirectPacket_def directLost_def
          networkChanged_def PathManager_poll_def poll_path_def Let_def pong_backed_def ponged_new signed_at_new
          split: if_splits option.splits intro: ponged_snoc signed_at_snoc)
  qed
qed

lemma run_backed: "paths (fold path_step evs \<lparr>paths = Map.empty\<rparr>) p = Some st \<Longrightarrow> pong_backed evs p st"
proof (induction evs arbitrary: st rule: rev_induct)
  case Nil
  then show ?case by simp
next
  case (snoc x evs)
  then show ?case using path_step_backed [where m = "fold path_step evs \<lparr>paths = Map.empty\<rparr>"] by simp
qed

text \<open>
  A path is shown as direct only on evidence: after any sequence of operations and a final poll,
  if the path of a peer is direct then its round trip is that of a pong from the peer after which
  neither the peer's direct path was lost nor the network changed, and a pong or data packet of
  the peer arrived within the last 15 seconds.
\<close>

theorem pathInfo_direct_evidence:
  assumes "path_type (pathInfo p (PathManager_poll now (fold path_step evs \<lparr>paths = Map.empty\<rparr>))) = DirectIPv4"
  shows "(\<exists>as t e cs. evs = as @ (t, DirectPong p e
        (path_rttMs (pathInfo p (PathManager_poll now (fold path_step evs \<lparr>paths = Map.empty\<rparr>))))) # cs
      \<and> \<not> list_ex (ends_direct p) cs)
    \<and> (\<exists>x \<in> set evs. is_direct_sign p x \<and> now - fst x \<le> kDirectFreshness)"
proof -
  let ?m = "fold path_step evs \<lparr>paths = Map.empty\<rparr>"
  from assms obtain st where st: "paths ?m p = Some st"
    by (auto simp: pathInfo_def PathManager_poll_def unknown_path_def split: option.splits)
  with assms have dir: "direct (poll_path now st)"
    by (auto simp: pathInfo_def PathManager_poll_def unknown_path_def split: if_splits)
  then have fresh: "direct st" "now - lastDirectPacket st \<le> kDirectFreshness" "directRttMs (poll_path now st) = directRttMs st"
    by (auto simp: poll_path_def Let_def split: if_splits)
  have rtt: "path_rttMs (pathInfo p (PathManager_poll now ?m)) = directRttMs st"
    using st dir fresh(3) by (simp add: pathInfo_def PathManager_poll_def)
  from run_backed [OF st] fresh(1) have "ponged evs p (directRttMs st)" "signed_at evs p (lastDirectPacket st)"
    by (simp_all add: pong_backed_def)
  with fresh(2) rtt show ?thesis unfolding ponged_def signed_at_def by fastforce
qed

theorem pathInfo_direct_evidence_witness:
  "\<exists>x \<in> set [(7, DirectPong ''n'' ''1.2.3.4:5'' 17)]. is_direct_sign ''n'' x \<and> 9 - fst x \<le> kDirectFreshness"
proof -
  have "path_type (pathInfo ''n'' (PathManager_poll 9 (fold path_step [(7, DirectPong ''n'' ''1.2.3.4:5'' 17)] \<lparr>paths = Map.empty\<rparr>))) = DirectIPv4"
    by (simp add: directPong_def PathManager_poll_def poll_path_def Let_def pathInfo_def kDirectFreshness_def
        path_at_def default_path_def)
  from pathInfo_direct_evidence [OF this] show ?thesis by blast
qed

text \<open>
  Starting a probe renames the direct path: while a path is direct, \<open>beginDirectProbe\<close> replaces
  the endpoint that is shown for it by the one being probed, with the old round trip, although
  nothing has answered from there.
\<close>

theorem beginDirectProbe_renames_direct:
  assumes "paths m p = Some st" "direct st"
  shows "pathInfo p (beginDirectProbe p e now m) = (pathInfo p m)\<lparr>path_endpoint := e\<rparr>"
  using assms by (simp add: pathInfo_def beginDirectProbe_def path_at_def)

theorem beginDirectProbe_renames_direct_witness:
  "path_endpoint (pathInfo ''n'' (beginDirectProbe ''n'' ''9.9.9.9:1'' 8
     (directPong ''n'' ''1.2.3.4:5'' 17 7 \<lparr>paths = Map.empty\<rparr>))) = ''9.9.9.9:1''"
  using beginDirectProbe_renames_direct [where p = "''n''" and e = "''9.9.9.9:1''" and now = 8 and
      m = "directPong ''n'' ''1.2.3.4:5'' 17 7 \<lparr>paths = Map.empty\<rparr>"]
  by (simp add: directPong_def)

end
