(* ===== verification/HostAddressParse.thy ===== *)
theory HostAddressParse
  imports Prelude
begin

text \<open>
  Model of \<open>app/src/features/host/HostAddressParse.hpp\<close> and \<open>.cpp\<close>: the host addresses a user
  types (IPv4, host name or bracketed IPv6, with an optional port), how they are written back, and
  which of them are stored as remote addresses.
\<close>

section \<open>Parsing and printing\<close>

record ParsedHostAddress =
  pa_host :: string
  pa_port :: "u16 option"
  pa_isIpv6 :: bool
  pa_isIpv4 :: bool
  pa_isHostname :: bool

definition no_address :: ParsedHostAddress where
  "no_address = \<lparr>pa_host = [], pa_port = None, pa_isIpv6 = False, pa_isIpv4 = False, pa_isHostname = False\<rparr>"

fun ipv4_scan :: "string \<Rightarrow> nat \<Rightarrow> nat \<Rightarrow> bool" where
  "ipv4_scan [] dots digits = (dots = 3 \<and> digits > 0)"
| "ipv4_scan (ch # rest) dots digits =
     (if ch = CHR ''.'' then (if digits = 0 then False else ipv4_scan rest (dots + 1) 0)
      else if \<not> isdigit ch then False
      else ipv4_scan rest dots (digits + 1))"

definition looks_like_ipv4 :: "string \<Rightarrow> bool" where
  "looks_like_ipv4 host = ipv4_scan host 0 0"

text \<open>The loop over the four octets; \<open>n\<close> octets are still to be read.\<close>

fun octets_loop :: "nat \<Rightarrow> string \<Rightarrow> nat list option" where
  "octets_loop 0 remaining = Some []"
| "octets_loop (Suc n) remaining =
     (case cut (CHR ''.'') remaining of
        (part, rest) \<Rightarrow>
          (case from_chars_unsigned part of
             None \<Rightarrow> None
           | Some (octet, left) \<Rightarrow>
               if left \<noteq> [] \<or> octet > 255 then None
               else if n > 0 then
                 (case rest of None \<Rightarrow> None | Some r \<Rightarrow> map_option (Cons octet) (octets_loop n r))
               else if rest \<noteq> None then None
               else Some [octet]))"

definition is_private_ipv4_host :: "string \<Rightarrow> bool" where
  "is_private_ipv4_host host =
     (if \<not> looks_like_ipv4 host then False
      else (case octets_loop 4 host of
              None \<Rightarrow> False
            | Some octets \<Rightarrow>
                let a = octets ! 0; b = octets ! 1 in
                a = 10 \<or> a = 127 \<or> (a = 169 \<and> b = 254) \<or> (a = 192 \<and> b = 168) \<or> (a = 172 \<and> 16 \<le> b \<and> b \<le> 31)))"

definition parse_port :: "string \<Rightarrow> u16 option" where
  "parse_port s =
     (if s = [] then None
      else (case from_chars_unsigned s of
              None \<Rightarrow> None
            | Some (v, rest) \<Rightarrow> if rest \<noteq> [] \<or> v = 0 \<or> v > 65535 then None else Some (word_of_nat v)))"

definition parse_host_address :: "string \<Rightarrow> ParsedHostAddress" where
  "parse_host_address input =
     (let value = trim input in
      if value = [] then no_address
      else if hd value = CHR ''['' then
        (case cut (CHR '']'') value of
           (_, None) \<Rightarrow> no_address\<lparr>pa_host := value, pa_isHostname := True\<rparr>
         | (bracketed, Some rest) \<Rightarrow>
             no_address\<lparr>pa_host := tl bracketed, pa_isIpv6 := True,
               pa_port := (if rest \<noteq> [] \<and> hd rest = CHR '':'' then parse_port (tl rest) else None)\<rparr>)
      else
        (case cut (CHR '':'') value of
           (_, None) \<Rightarrow> no_address\<lparr>pa_host := value, pa_isIpv4 := looks_like_ipv4 value,
                          pa_isHostname := \<not> looks_like_ipv4 value\<rparr>
         | (before, Some rest) \<Rightarrow>
             if CHR '':'' \<in> set rest then no_address\<lparr>pa_host := value, pa_isIpv6 := True\<rparr>
             else no_address\<lparr>pa_host := before, pa_port := parse_port rest,
                    pa_isIpv4 := looks_like_ipv4 before, pa_isHostname := \<not> looks_like_ipv4 before\<rparr>))"

definition should_store_as_remote :: "ParsedHostAddress \<Rightarrow> bool" where
  "should_store_as_remote parsed =
     (if pa_host parsed = [] then False
      else if pa_isHostname parsed \<or> pa_isIpv6 parsed then True
      else if pa_isIpv4 parsed then \<not> is_private_ipv4_host (pa_host parsed)
      else False)"

definition format_host_address :: "ParsedHostAddress \<Rightarrow> string" where
  "format_host_address parsed =
     (if pa_host parsed = [] then []
      else (if pa_isIpv6 parsed then ''['' @ pa_host parsed @ '']'' else pa_host parsed) @
           (case pa_port parsed of None \<Rightarrow> [] | Some p \<Rightarrow> '':'' @ to_string (unat p)))"

section \<open>Round trip\<close>

text \<open>
  The addresses the program itself makes: a bracket-free IPv6 literal, or a host without colon whose
  kind is the one its text has; no white space at the ends, no port 0.
\<close>

definition canonical :: "ParsedHostAddress \<Rightarrow> bool" where
  "canonical p =
     (pa_host p \<noteq> [] \<and> pa_port p \<noteq> Some 0 \<and>
      (if pa_isIpv6 p then CHR '']'' \<notin> set (pa_host p) \<and> \<not> pa_isIpv4 p \<and> \<not> pa_isHostname p
       else CHR '':'' \<notin> set (pa_host p) \<and> hd (pa_host p) \<noteq> CHR ''['' \<and> \<not> isspace (hd (pa_host p)) \<and>
         \<not> isspace (last (pa_host p)) \<and> pa_isIpv4 p = looks_like_ipv4 (pa_host p) \<and>
         pa_isHostname p = (\<not> looks_like_ipv4 (pa_host p))))"

lemma digit_not_space: "isdigit c \<Longrightarrow> \<not> isspace c"
  by (auto simp: isdigit_def isspace_def)

lemma last_to_string_not_space: "\<not> isspace (last (to_string n))"
  using to_string_digits [of "last (to_string n)" n] digit_not_space by auto

lemma parse_port_to_string:
  assumes "p \<noteq> (0 :: u16)"
  shows "parse_port (to_string (unat p)) = Some p"
proof -
  have "unat p < 2 ^ LENGTH(16)" by (rule unsigned_less)
  then have "unat p \<le> 65535" "unat p \<noteq> 0" using assms by (auto simp: unat_eq_0)
  then show ?thesis by (simp add: parse_port_def text_simps)
qed

lemma format_last_not_space:
  assumes "canonical p"
  shows "\<not> isspace (last (format_host_address p))"
  using assms last_to_string_not_space
  by (auto simp: canonical_def format_host_address_def isspace_def [of "CHR '']''"] split: option.split)

lemma parse_format:
  assumes "canonical p"
  shows "parse_host_address (format_host_address p) = p"
proof -
  let ?port = "case pa_port p of None \<Rightarrow> [] | Some q \<Rightarrow> '':'' @ to_string (unat q)"
  have last: "\<not> isspace (last (format_host_address p))" using assms by (rule format_last_not_space)
  have port: "pa_port p = Some q \<Longrightarrow> parse_port (to_string (unat q)) = Some q" for q
    using assms by (auto simp: canonical_def intro: parse_port_to_string)
  show ?thesis
  proof (cases "pa_isIpv6 p")
    case True
    let ?v = "''['' @ pa_host p @ CHR '']'' # ?port"
    have fmt: "format_host_address p = ?v" using assms True by (simp add: format_host_address_def canonical_def)
    have "trim ?v = ?v" using last fmt by (intro trim_id) (auto simp: isspace_def)
    moreover have "cut (CHR '']'') ?v = (''['' @ pa_host p, Some ?port)"
      using assms True cut_append_sep [of "CHR '']''" "''['' @ pa_host p" ?port] by (simp add: canonical_def)
    ultimately show ?thesis
      unfolding fmt using assms True port
      by (auto simp: parse_host_address_def Let_def canonical_def no_address_def split: option.split)
  next
    case False
    let ?v = "pa_host p @ ?port"
    have fmt: "format_host_address p = ?v" using assms False by (simp add: format_host_address_def canonical_def)
    have hd: "hd ?v = hd (pa_host p)" using assms by (simp add: canonical_def)
    have "trim ?v = ?v" using last fmt hd assms False by (intro trim_id) (auto simp: canonical_def)
    moreover have "cut (CHR '':'') ?v = (pa_host p, map_option (\<lambda>q. to_string (unat q)) (pa_port p))"
      using assms False by (auto simp: canonical_def text_simps split: option.split)
    ultimately show ?thesis
      unfolding fmt using assms False port hd
      by (auto simp: parse_host_address_def Let_def canonical_def no_address_def split: option.split)
  qed
qed

text \<open>
  Writing an address and parsing it again gives the same address: host, port and kind survive,
  for IPv4, host names and IPv6 alike, so a stored host is the host that was entered.
\<close>

theorem parse_format_host_address:
  assumes "canonical p"
  shows "parse_host_address (format_host_address p) = p"
  using assms by (rule parse_format)

theorem parse_format_host_address_witness:
  "parse_host_address (format_host_address \<lparr>pa_host = ''2001:db8::1'', pa_port = Some 47989, pa_isIpv6 = True,
     pa_isIpv4 = False, pa_isHostname = False\<rparr>) =
   \<lparr>pa_host = ''2001:db8::1'', pa_port = Some 47989, pa_isIpv6 = True, pa_isIpv4 = False, pa_isHostname = False\<rparr>"
  by (rule parse_format_host_address) (simp add: canonical_def)

lemma parse_port_nonzero: "parse_port s \<noteq> Some 0"
proof -
  have "word_of_nat v \<noteq> (0 :: u16)" if "v \<noteq> 0" "v \<le> 65535" for v
  proof -
    have "unat (word_of_nat v :: u16) = v" using that by (simp add: unat_of_nat)
    with that show ?thesis by auto
  qed
  then show ?thesis by (auto simp: parse_port_def split: option.split)
qed

lemma parse_host_address_port: "pa_port (parse_host_address s) \<noteq> Some 0"
  using parse_port_nonzero
  by (auto simp: parse_host_address_def no_address_def Let_def split: option.split prod.split)

section \<open>Private addresses\<close>

definition dotted :: "nat \<Rightarrow> nat \<Rightarrow> nat \<Rightarrow> nat \<Rightarrow> string" where
  "dotted a b c d = to_string a @ ''.'' @ to_string b @ ''.'' @ to_string c @ ''.'' @ to_string d"

text \<open>The private, loopback and link-local blocks of RFC 1918, RFC 1122 and RFC 3927.\<close>

definition private_block :: "nat \<Rightarrow> nat \<Rightarrow> bool" where
  "private_block a b = (a = 10 \<or> a = 127 \<or> (a, b) = (169, 254) \<or> (a, b) = (192, 168) \<or> (a = 172 \<and> b \<in> {16..31}))"

lemma ipv4_scan_digits:
  "\<forall>c \<in> set s. isdigit c \<Longrightarrow> ipv4_scan (s @ r) dots digits = ipv4_scan r dots (digits + length s)"
proof (induction s arbitrary: digits)
  case (Cons x xs)
  then have "x \<noteq> CHR ''.''" by auto
  with Cons show ?case by simp
qed simp

lemma ipv4_scan_to_string: "ipv4_scan (to_string n @ r) dots 0 = ipv4_scan r dots (length (to_string n))"
  using ipv4_scan_digits [of "to_string n" r dots 0] to_string_digits by auto

lemma looks_like_ipv4_dotted: "looks_like_ipv4 (dotted a b c d)"
  using ipv4_scan_to_string [of d "[]"] by (simp add: looks_like_ipv4_def dotted_def ipv4_scan_to_string)

lemma octets_loop_dotted:
  assumes "a < 256" "b < 256" "c < 256" "d < 256"
  shows "octets_loop 4 (dotted a b c d) = Some [a, b, c, d]"
proof -
  have "octets_loop (Suc 0) (to_string d) = Some [d]" using assms by (simp add: text_simps)
  then have "octets_loop (Suc (Suc 0)) (to_string c @ CHR ''.'' # to_string d) = Some [c, d]"
    using assms by (simp add: text_simps)
  then have "octets_loop (Suc (Suc (Suc 0))) (to_string b @ CHR ''.'' # to_string c @ CHR ''.'' # to_string d) = Some [b, c, d]"
    using assms by (simp add: text_simps)
  then have "octets_loop (Suc (Suc (Suc (Suc 0)))) (dotted a b c d) = Some [a, b, c, d]"
    unfolding dotted_def using assms by (simp add: text_simps)
  then show ?thesis by (simp add: eval_nat_numeral)
qed

lemma parse_dotted:
  "parse_host_address (dotted a b c d) = no_address\<lparr>pa_host := dotted a b c d, pa_isIpv4 := True\<rparr>"
proof -
  let ?p = "no_address\<lparr>pa_host := dotted a b c d, pa_isIpv4 := True\<rparr>"
  have hd: "hd (dotted a b c d) \<in> set (to_string a)" by (simp add: dotted_def)
  have last: "last (dotted a b c d) = last (to_string d)" by (simp add: dotted_def)
  have digit: "isdigit (hd (dotted a b c d))" using to_string_digits [OF hd] .
  then have "hd (dotted a b c d) \<noteq> CHR ''[''" by (auto simp: isdigit_def)
  moreover have "trim (dotted a b c d) = dotted a b c d"
    using digit last last_to_string_not_space [of d] digit_not_space by (intro trim_id) (auto simp: dotted_def)
  moreover have "cut (CHR '':'') (dotted a b c d) = (dotted a b c d, None)"
    by (rule cut_no_sep) (auto simp: dotted_def)
  moreover have "dotted a b c d \<noteq> []" by (simp add: dotted_def)
  ultimately show ?thesis
    by (simp add: parse_host_address_def Let_def looks_like_ipv4_dotted no_address_def)
qed

text \<open>
  A typed IPv4 address is stored as a remote address exactly when it is public: private,
  loopback and link-local addresses stay local.
\<close>

theorem should_store_as_remote_dotted:
  assumes "a < 256" "b < 256" "c < 256" "d < 256"
  shows "should_store_as_remote (parse_host_address (dotted a b c d)) \<longleftrightarrow> \<not> private_block a b"
  using octets_loop_dotted [OF assms]
  by (auto simp: parse_dotted should_store_as_remote_def no_address_def is_private_ipv4_host_def
      looks_like_ipv4_dotted private_block_def Let_def) (simp_all add: dotted_def)

theorem should_store_as_remote_dotted_witness:
  "should_store_as_remote (parse_host_address (dotted 172 32 0 1))
    \<and> \<not> should_store_as_remote (parse_host_address (dotted 172 31 0 1))"
  using should_store_as_remote_dotted [of 172 32 0 1] should_store_as_remote_dotted [of 172 31 0 1]
  by (simp add: private_block_def)

end
