(* ===== verification/RemoteAccessManager.thy ===== *)
theory RemoteAccessManager
  imports RemoteTypes
begin

text \<open>
  Model of \<open>app/src/remote_access/RemoteAccessManager.hpp\<close> and \<open>.cpp\<close>: which VPN provider is
  active, and the reference-counted routes to its peers that hosts in use hold.

  The class is called from many threads.  A function of this theory is one critical section of
  \<open>mutex_\<close>; the calls into a provider happen between the sections, and their results are
  arguments.  Route entries are shared pointers whose identity the code compares, so they live in a
  store and the route map holds their addresses.  \<open>activateRoute\<close> is three sections: entering
  (\<open>activate_enter\<close>), waking from the condition variable (\<open>activate_resume\<close>) and publishing the
  result of the provider (\<open>activate_finish\<close>).  Theory \<open>RemoteRouteInterleaving\<close> runs the sections of all
  threads in any order.
\<close>

section \<open>State\<close>

record RouteKey =
  rk_providerId :: string
  rk_peerId :: string
  rk_targetAddress :: string

datatype RouteState = Activating | Active | Failed

record RouteEntry =
  re_target :: RemoteRouteTarget
  re_generation :: u64
  re_references :: nat
  re_state :: RouteState

record ProviderSlot =
  slot_id :: string
  slot_exclusive :: bool

record Manager =
  providers :: "ProviderSlot list"
  activeProviderId :: string
  providerGeneration :: u64
  activeRoutes :: "(RouteKey \<times> nat) list"
  store :: "RouteEntry list"

record RemoteAccessSelectionResult =
  sel_providerId :: string
  sel_found :: bool
  sel_available :: bool
  sel_started :: bool
  sel_status :: string

definition new_Manager :: Manager where
  "new_Manager = \<lparr>providers = [], activeProviderId = [], providerGeneration = 0, activeRoutes = [], store = []\<rparr>"

section \<open>Providers\<close>

definition registerProvider :: "ProviderSlot \<Rightarrow> Manager \<Rightarrow> Manager" where
  "registerProvider slot m = m\<lparr>providers := providers m @ [slot]\<rparr>"

definition providerSlot :: "string \<Rightarrow> Manager \<Rightarrow> ProviderSlot option" where
  "providerSlot pid m = find (\<lambda>slot. slot_id slot = pid) (providers m)"

definition setActiveProviderId :: "string \<Rightarrow> Manager \<Rightarrow> Manager" where
  "setActiveProviderId pid m = m\<lparr>activeProviderId := pid, providerGeneration := providerGeneration m + 1\<rparr>"

definition set_state :: "RouteState \<Rightarrow> nat \<Rightarrow> RouteEntry list \<Rightarrow> RouteEntry list" where
  "set_state st h es = es[h := (es ! h)\<lparr>re_state := st\<rparr>]"

definition fail_all :: "(RouteKey \<times> nat) list \<Rightarrow> RouteEntry list \<Rightarrow> RouteEntry list" where
  "fail_all gone es = fold (\<lambda>(k, h). set_state Failed h) gone es"

text \<open>The locked part of \<open>stopActiveProviderLocked\<close>; the provider returned is then stopped.\<close>

definition stopActiveProviderLocked :: "Manager \<Rightarrow> ProviderSlot option \<times> Manager" where
  "stopActiveProviderLocked m =
     (let active = activeProviderId m;
          gone = filter (\<lambda>(k, h). rk_providerId k = active) (activeRoutes m)
      in (providerSlot active m,
          m\<lparr>activeProviderId := [], providerGeneration := providerGeneration m + 1,
            activeRoutes := filter (\<lambda>(k, h). rk_providerId k \<noteq> active) (activeRoutes m),
            store := fail_all gone (store m)\<rparr>))"

text \<open>The locked part of \<open>selectAndStartProvider\<close> once the provider has started.\<close>

definition publish_started :: "string \<Rightarrow> Manager \<Rightarrow> Manager" where
  "publish_started pid m = m\<lparr>activeProviderId := pid, providerGeneration := providerGeneration m + 1\<rparr>"

text \<open>
  \<open>selectAndStartProvider\<close>, after the running provider has been stopped: \<open>avail\<close>, \<open>started\<close> and
  \<open>status\<close> are the answers of the selected provider.
\<close>

definition selectAndStartProvider :: "string \<Rightarrow> bool \<Rightarrow> bool \<Rightarrow> string \<Rightarrow> Manager \<Rightarrow>
    RemoteAccessSelectionResult \<times> Manager" where
  "selectAndStartProvider pid avail started status m0 =
     (let m = snd (stopActiveProviderLocked m0);
          result = \<lparr>sel_providerId = pid, sel_found = False, sel_available = False, sel_started = False, sel_status = []\<rparr>
      in if pid = [] then (result\<lparr>sel_found := True, sel_available := True, sel_status := ''Off''\<rparr>, m)
         else (case providerSlot pid m of
                 None \<Rightarrow> (result\<lparr>sel_status := ''Provider not found''\<rparr>, m)
               | Some _ \<Rightarrow>
                   if \<not> avail then (result\<lparr>sel_found := True, sel_status := status\<rparr>, m)
                   else (result\<lparr>sel_found := True, sel_available := True, sel_started := started, sel_status := status\<rparr>,
                         if started then publish_started pid m else m)))"

definition manager_status :: "(string \<Rightarrow> string) \<Rightarrow> Manager \<Rightarrow> string" where
  "manager_status status m =
     (if activeProviderId m = [] then ''No provider active''
      else (case providerSlot (activeProviderId m) m of
              Some slot \<Rightarrow> status (slot_id slot)
            | None \<Rightarrow> ''Provider not found''))"

section \<open>Routes\<close>

definition hasActiveRoute :: "Manager \<Rightarrow> bool" where
  "hasActiveRoute m = list_ex (\<lambda>(k, h). re_state (store m ! h) = Active \<or> re_state (store m ! h) = Activating) (activeRoutes m)"

definition route_key :: "string \<Rightarrow> RemoteRouteTarget \<Rightarrow> RouteKey" where
  "route_key pid target = \<lparr>rk_providerId = pid, rk_peerId = rt_peerId target, rk_targetAddress = rt_targetAddress target\<rparr>"

text \<open>Exclusive providers: every other route of the provider fails; the active ones are returned.\<close>

definition retire_others :: "string \<Rightarrow> RouteKey \<Rightarrow> Manager \<Rightarrow> RemoteRouteTarget list \<times> Manager" where
  "retire_others pid key m =
     (let gone = filter (\<lambda>(k, h). rk_providerId k = pid \<and> k \<noteq> key) (activeRoutes m);
          retired = map (\<lambda>(k, h). re_target (store m ! h)) (filter (\<lambda>(k, h). re_state (store m ! h) = Active) gone)
      in (retired, m\<lparr>activeRoutes := filter (\<lambda>(k, h). \<not> (rk_providerId k = pid \<and> k \<noteq> key)) (activeRoutes m),
                    store := fail_all gone (store m)\<rparr>))"

datatype enter_result =
    Refused
  | WaitFor nat
  | Opened nat "RemoteRouteTarget list"

definition activate_enter :: "string \<Rightarrow> RemoteRouteTarget \<Rightarrow> Manager \<Rightarrow> enter_result \<times> Manager" where
  "activate_enter pid target m =
     (case providerSlot pid m of
        None \<Rightarrow> (Refused, m)
      | Some slot \<Rightarrow>
          if rt_peerId target = [] then (Refused, m)
          else if activeProviderId m \<noteq> pid then (Refused, m)
          else
            let key = route_key pid target in
            (case map_of (activeRoutes m) key of
               Some h \<Rightarrow> (WaitFor h, m)
             | None \<Rightarrow>
                 let h = length (store m);
                     entry = \<lparr>re_target = target, re_generation = providerGeneration m, re_references = 1, re_state = Activating\<rparr>;
                     m1 = m\<lparr>store := store m @ [entry], activeRoutes := activeRoutes m @ [(key, h)]\<rparr>
                 in if slot_exclusive slot
                    then (case retire_others pid key m1 of (retired, m2) \<Rightarrow> (Opened h retired, m2))
                    else (Opened h [], m1)))"

text \<open>Waking up: \<open>None\<close> while the wait goes on, otherwise the result of \<open>activateRoute\<close>.\<close>

definition activate_resume :: "nat \<Rightarrow> Manager \<Rightarrow> (bool \<times> Manager) option" where
  "activate_resume h m =
     (let entry = store m ! h in
      if re_state entry = Activating then None
      else if re_state entry \<noteq> Active \<or> re_generation entry \<noteq> providerGeneration m then Some (False, m)
      else Some (True, m\<lparr>store := (store m)[h := entry\<lparr>re_references := re_references entry + 1\<rparr>]\<rparr>))"

text \<open>
  Publishing: the result of \<open>activateRoute\<close>, whether the provider's route is stale and has to be
  deactivated again, and the new state.
\<close>

definition activate_finish :: "string \<Rightarrow> RemoteRouteTarget \<Rightarrow> nat \<Rightarrow> bool \<Rightarrow> Manager \<Rightarrow> bool \<times> bool \<times> Manager" where
  "activate_finish pid target h activated m =
     (let key = route_key pid target;
          current = map_of (activeRoutes m) key;
          generationMatches = (activeProviderId m = pid \<and> re_generation (store m ! h) = providerGeneration m \<and> current = Some h)
      in if \<not> activated \<or> \<not> generationMatches
         then (False, activated,
               m\<lparr>store := set_state Failed h (store m),
                 activeRoutes := (if current = Some h then AList.delete key (activeRoutes m) else activeRoutes m)\<rparr>)
         else (True, False, m\<lparr>store := set_state Active h (store m)\<rparr>))"

definition findRouteLocked :: "string \<Rightarrow> string \<Rightarrow> string \<Rightarrow> Manager \<Rightarrow> (RouteKey \<times> nat) option" where
  "findRouteLocked pid peerId targetAddress m =
     (let key = \<lparr>rk_providerId = pid, rk_peerId = peerId, rk_targetAddress = targetAddress\<rparr> in
      case map_of (activeRoutes m) key of
        Some h \<Rightarrow> Some (key, h)
      | None \<Rightarrow>
          if targetAddress \<noteq> [] then None
          else find (\<lambda>(k, h). rk_providerId k = pid \<and> rk_peerId k = peerId) (activeRoutes m))"

text \<open>The two sections of \<open>prepareRouteForStreaming\<close> around the provider's call.\<close>

definition prepare_enter :: "string \<Rightarrow> string \<Rightarrow> string \<Rightarrow> Manager \<Rightarrow> (RemoteRouteTarget \<times> u64) option" where
  "prepare_enter pid peerId targetAddress m =
     (case findRouteLocked pid peerId targetAddress m of
        None \<Rightarrow> None
      | Some (k, h) \<Rightarrow>
          if re_state (store m ! h) \<noteq> Active then None
          else if providerSlot pid m = None then None
          else Some (re_target (store m ! h), re_generation (store m ! h)))"

definition prepare_finish :: "string \<Rightarrow> u64 \<Rightarrow> bool \<Rightarrow> Manager \<Rightarrow> bool" where
  "prepare_finish pid generation prepared m =
     (prepared \<and> activeProviderId m = pid \<and> generation = providerGeneration m)"

text \<open>The locked part of \<open>deactivateRoute\<close>; a target returned is then deactivated at the provider.\<close>

definition deactivate_locked :: "string \<Rightarrow> string \<Rightarrow> string \<Rightarrow> Manager \<Rightarrow> RemoteRouteTarget option \<times> Manager" where
  "deactivate_locked pid peerId targetAddress m =
     (case findRouteLocked pid peerId targetAddress m of
        None \<Rightarrow> (None, m)
      | Some (k, h) \<Rightarrow>
          if re_state (store m ! h) \<noteq> Active then (None, m)
          else if re_references (store m ! h) > 1
          then (None, m\<lparr>store := (store m)[h := (store m ! h)\<lparr>re_references := re_references (store m ! h) - 1\<rparr>]\<rparr>)
          else (if activeProviderId m = pid \<and> providerSlot pid m \<noteq> None then Some (re_target (store m ! h)) else None,
                m\<lparr>activeRoutes := AList.delete k (activeRoutes m)\<rparr>))"

section \<open>Reference counting\<close>

definition handles_ok :: "Manager \<Rightarrow> bool" where
  "handles_ok m = (\<forall>(k, h) \<in> set (activeRoutes m). h < length (store m))"

definition ready :: "string \<Rightarrow> RemoteRouteTarget \<Rightarrow> Manager \<Rightarrow> bool" where
  "ready pid target m = (providerSlot pid m \<noteq> None \<and> rt_peerId target \<noteq> [] \<and> activeProviderId m = pid)"

text \<open>\<open>held pid target h n m\<close>: the route is active at its entry \<open>h\<close> with \<open>n\<close> references.\<close>

definition held :: "string \<Rightarrow> RemoteRouteTarget \<Rightarrow> nat \<Rightarrow> nat \<Rightarrow> Manager \<Rightarrow> bool" where
  "held pid target h n m =
     (ready pid target m \<and> map_of (activeRoutes m) (route_key pid target) = Some h \<and> h < length (store m) \<and>
      store m ! h = \<lparr>re_target = target, re_generation = providerGeneration m, re_references = n, re_state = Active\<rparr>)"

fun activate_times :: "string \<Rightarrow> RemoteRouteTarget \<Rightarrow> nat \<Rightarrow> Manager \<Rightarrow> Manager option" where
  "activate_times pid target 0 m = Some m"
| "activate_times pid target (Suc k) m =
     (case activate_enter pid target m of
        (WaitFor h, m1) \<Rightarrow>
          (case activate_resume h m1 of Some (True, m2) \<Rightarrow> activate_times pid target k m2 | _ \<Rightarrow> None)
      | _ \<Rightarrow> None)"

text \<open>\<open>k\<close> calls of \<open>deactivateRoute\<close>: the targets the provider is told to deactivate.\<close>

fun deactivate_times :: "string \<Rightarrow> RemoteRouteTarget \<Rightarrow> nat \<Rightarrow> Manager \<Rightarrow> RemoteRouteTarget list \<times> Manager" where
  "deactivate_times pid target 0 m = ([], m)"
| "deactivate_times pid target (Suc k) m =
     (case deactivate_locked pid (rt_peerId target) (rt_targetAddress target) m of
        (call, m1) \<Rightarrow> (case deactivate_times pid target k m1 of
           (calls, m2) \<Rightarrow> ((case call of None \<Rightarrow> [] | Some t \<Rightarrow> [t]) @ calls, m2)))"

lemma providerSlot_update [simp]:
  "providerSlot pid (m\<lparr>activeRoutes := r\<rparr>) = providerSlot pid m"
  "providerSlot pid (m\<lparr>store := es\<rparr>) = providerSlot pid m"
  "providerSlot pid (m\<lparr>activeProviderId := i\<rparr>) = providerSlot pid m"
  "providerSlot pid (m\<lparr>providerGeneration := g\<rparr>) = providerSlot pid m"
  by (simp_all add: providerSlot_def)

lemma providerSlot_eq: "providers m' = providers m \<Longrightarrow> providerSlot pid m' = providerSlot pid m"
  by (simp add: providerSlot_def)

lemma length_fail_all [simp]: "length (fail_all gone es) = length es"
  unfolding fail_all_def by (induction gone arbitrary: es) (auto simp: set_state_def)

lemma fail_all_other: "h \<notin> snd ` set gone \<Longrightarrow> fail_all gone es ! h = es ! h"
  unfolding fail_all_def by (induction gone arbitrary: es) (auto simp: set_state_def)

lemma held_find:
  "held pid target h n m \<Longrightarrow> findRouteLocked pid (rt_peerId target) (rt_targetAddress target) m = Some (route_key pid target, h)"
  by (simp add: held_def findRouteLocked_def route_key_def)

lemma held_enter: "held pid target h n m \<Longrightarrow> activate_enter pid target m = (WaitFor h, m)"
  by (auto simp: held_def ready_def activate_enter_def Let_def)

lemma held_resume:
  assumes "held pid target h n m"
  shows "\<exists>m'. activate_resume h m = Some (True, m') \<and> held pid target h (Suc n) m'"
  using assms by (simp add: held_def activate_resume_def Let_def ready_def)

lemma held_deactivate_more:
  assumes "held pid target h (Suc (Suc n)) m"
  shows "\<exists>m'. deactivate_locked pid (rt_peerId target) (rt_targetAddress target) m = (None, m') \<and> held pid target h (Suc n) m'"
  using assms held_find [OF assms] by (simp add: held_def deactivate_locked_def ready_def)

lemma held_deactivate_last:
  assumes "held pid target h (Suc 0) m"
  shows "deactivate_locked pid (rt_peerId target) (rt_targetAddress target) m =
    (Some target, m\<lparr>activeRoutes := AList.delete (route_key pid target) (activeRoutes m)\<rparr>)"
  using assms held_find [OF assms] by (auto simp: held_def deactivate_locked_def ready_def)

lemma activate_times_held:
  "held pid target h n m \<Longrightarrow> \<exists>m'. activate_times pid target k m = Some m' \<and> held pid target h (n + k) m'"
proof (induction k arbitrary: n m)
  case (Suc k)
  from held_resume [OF Suc.prems] obtain m1 where "activate_resume h m = Some (True, m1)" "held pid target h (Suc n) m1"
    by blast
  with Suc.IH [of "Suc n" m1] held_enter [OF Suc.prems] show ?case by simp
qed auto

lemma deactivate_times_held:
  "held pid target h (Suc k) m \<Longrightarrow> \<exists>m'. deactivate_times pid target (Suc k) m = ([target], m')
     \<and> map_of (activeRoutes m') (route_key pid target) = None"
proof (induction k arbitrary: m)
  case 0
  then show ?case using held_deactivate_last [OF 0] by (simp add: AList.delete_conv')
next
  case (Suc k)
  from held_deactivate_more [OF Suc.prems] obtain m1
    where "deactivate_locked pid (rt_peerId target) (rt_targetAddress target) m = (None, m1)" "held pid target h (Suc k) m1"
    by blast
  with Suc.IH [of m1] show ?case by (auto simp del: deactivate_times.simps(2) simp: deactivate_times.simps(2) [of _ _ "Suc k"])
qed

lemma retire_others_frame [simp]:
  "length (store (snd (retire_others pid key m))) = length (store m)"
  "providers (snd (retire_others pid key m)) = providers m"
  "activeProviderId (snd (retire_others pid key m)) = activeProviderId m"
  "providerGeneration (snd (retire_others pid key m)) = providerGeneration m"
  by (simp_all add: retire_others_def Let_def)

lemma map_of_filter_key: "(\<And>h. P (key, h)) \<Longrightarrow> map_of (filter P rs) key = map_of rs key"
  by (induction rs) auto

lemma retire_others_key [simp]: "map_of (activeRoutes (snd (retire_others pid key m))) key = map_of (activeRoutes m) key"
  by (simp add: retire_others_def Let_def map_of_filter_key)

lemma retire_others_store:
  assumes "\<forall>(k, h') \<in> set (activeRoutes m). h' = h \<longrightarrow> k = key"
  shows "store (snd (retire_others pid key m)) ! h = store m ! h"
  using assms by (auto simp: retire_others_def Let_def intro!: fail_all_other)

lemma enter_opened:
  assumes "handles_ok m" "ready pid target m" "map_of (activeRoutes m) (route_key pid target) = None"
  shows "\<exists>retired m1. activate_enter pid target m = (Opened (length (store m)) retired, m1)
    \<and> store m1 ! length (store m) = \<lparr>re_target = target, re_generation = providerGeneration m, re_references = 1, re_state = Activating\<rparr>
    \<and> length (store m1) = Suc (length (store m)) \<and> map_of (activeRoutes m1) (route_key pid target) = Some (length (store m))
    \<and> ready pid target m1 \<and> providerGeneration m1 = providerGeneration m"
proof -
  let ?key = "route_key pid target" and ?h = "length (store m)"
  let ?e = "\<lparr>re_target = target, re_generation = providerGeneration m, re_references = 1, re_state = Activating\<rparr>"
  let ?m1 = "m\<lparr>store := store m @ [?e], activeRoutes := activeRoutes m @ [(?key, ?h)]\<rparr>"
  from assms(2) obtain slot where slot: "providerSlot pid m = Some slot" by (auto simp: ready_def)
  have key: "map_of (activeRoutes ?m1) ?key = Some ?h" using assms(3) by (simp add: map_add_def)
  show ?thesis
  proof (cases "slot_exclusive slot")
    case False
    then have "activate_enter pid target m = (Opened ?h [], ?m1)"
      using assms slot by (simp add: activate_enter_def ready_def Let_def)
    then show ?thesis using assms(2) key by (auto simp: ready_def)
  next
    case True
    let ?r = "retire_others pid ?key ?m1"
    have enter: "activate_enter pid target m = (Opened ?h (fst ?r), snd ?r)"
      using assms slot True by (simp add: activate_enter_def ready_def Let_def split: prod.split)
    have "store (snd ?r) ! ?h = store ?m1 ! ?h"
      using assms(1) by (intro retire_others_store) (auto simp: handles_ok_def)
    moreover have "providerSlot pid (snd ?r) = providerSlot pid m" by (rule providerSlot_eq) simp
    ultimately show ?thesis using enter assms(2) key by (simp add: ready_def)
  qed
qed

lemma finish_opened:
  assumes "store m1 ! h = \<lparr>re_target = target, re_generation = providerGeneration m1, re_references = 1, re_state = Activating\<rparr>"
    "h < length (store m1)" "map_of (activeRoutes m1) (route_key pid target) = Some h" "ready pid target m1"
  shows "activate_finish pid target h True m1 = (True, False, m1\<lparr>store := set_state Active h (store m1)\<rparr>)
    \<and> held pid target h 1 (m1\<lparr>store := set_state Active h (store m1)\<rparr>)"
  using assms by (simp add: activate_finish_def Let_def held_def ready_def set_state_def)

lemma open_route:
  assumes "handles_ok m" "ready pid target m" "map_of (activeRoutes m) (route_key pid target) = None"
  shows "\<exists>retired m1 m2. activate_enter pid target m = (Opened (length (store m)) retired, m1)
    \<and> activate_finish pid target (length (store m)) True m1 = (True, False, m2)
    \<and> held pid target (length (store m)) 1 m2
    \<and> activate_enter pid target m1 = (WaitFor (length (store m)), m1) \<and> activate_resume (length (store m)) m1 = None"
proof -
  from enter_opened [OF assms] obtain retired m1 where 1: "activate_enter pid target m = (Opened (length (store m)) retired, m1)"
    "store m1 ! length (store m) = \<lparr>re_target = target, re_generation = providerGeneration m1, re_references = 1, re_state = Activating\<rparr>"
    "length (store m) < length (store m1)" "map_of (activeRoutes m1) (route_key pid target) = Some (length (store m))"
    "ready pid target m1"
    by auto
  have "activate_enter pid target m1 = (WaitFor (length (store m)), m1)" "activate_resume (length (store m)) m1 = None"
    using 1 by (auto simp: activate_enter_def ready_def Let_def activate_resume_def)
  with 1(1) finish_opened [OF 1(2-5)] show ?thesis by blast
qed

text \<open>
  Routes are reference counted: after a route has been opened, any number of further activations
  of it succeed without another call to the provider, and of as many deactivations exactly the last
  one reaches the provider, with the route's target, and removes the route.
\<close>

theorem routes_reference_counted:
  assumes "handles_ok m" "ready pid target m" "map_of (activeRoutes m) (route_key pid target) = None"
  shows "\<exists>h retired m1 m2 m3 m4. activate_enter pid target m = (Opened h retired, m1)
    \<and> activate_finish pid target h True m1 = (True, False, m2)
    \<and> activate_times pid target k m2 = Some m3 \<and> re_references (store m3 ! h) = Suc k
    \<and> deactivate_times pid target (Suc k) m3 = ([target], m4)
    \<and> map_of (activeRoutes m4) (route_key pid target) = None"
proof -
  from open_route [OF assms] obtain retired m1 m2 where 1: "activate_enter pid target m = (Opened (length (store m)) retired, m1)"
    "activate_finish pid target (length (store m)) True m1 = (True, False, m2)" "held pid target (length (store m)) 1 m2"
    by blast
  from activate_times_held [OF 1(3), of k] obtain m3 where 3: "activate_times pid target k m2 = Some m3"
    "held pid target (length (store m)) (Suc k) m3" by auto
  from deactivate_times_held [OF 3(2)] obtain m4 where 4: "deactivate_times pid target (Suc k) m3 = ([target], m4)"
    "map_of (activeRoutes m4) (route_key pid target) = None" by blast
  have "re_references (store m3 ! length (store m)) = Suc k" using 3(2) by (simp add: held_def)
  with 1(1,2) 3(1) 4 show ?thesis by blast
qed

definition example_manager :: Manager where
  "example_manager = \<lparr>providers = [\<lparr>slot_id = ''ts'', slot_exclusive = True\<rparr>], activeProviderId = ''ts'',
     providerGeneration = 1, activeRoutes = [], store = []\<rparr>"

definition example_target :: RemoteRouteTarget where
  "example_target = \<lparr>rt_peerId = ''p'', rt_peerAddress = ''100.64.0.2'', rt_targetAddress = ''100.64.0.2'',
     rt_connectAddress = ''127.0.0.1'', rt_mode = ProxyRoute\<rparr>"

lemma example_ready: "handles_ok example_manager" "ready ''ts'' example_target example_manager"
    "map_of (activeRoutes example_manager) (route_key ''ts'' example_target) = None"
  by (simp_all add: handles_ok_def ready_def example_manager_def example_target_def providerSlot_def)

theorem routes_reference_counted_witness:
  "\<exists>h retired m1 m2 m3 m4. activate_enter ''ts'' example_target example_manager = (Opened h retired, m1)
    \<and> activate_finish ''ts'' example_target h True m1 = (True, False, m2)
    \<and> activate_times ''ts'' example_target 2 m2 = Some m3 \<and> re_references (store m3 ! h) = Suc 2
    \<and> deactivate_times ''ts'' example_target (Suc 2) m3 = ([example_target], m4)
    \<and> map_of (activeRoutes m4) (route_key ''ts'' example_target) = None"
  by (rule routes_reference_counted [OF example_ready])

section \<open>A waiter can be handed a route that is gone\<close>

text \<open>
  Deactivation does not mark the entry: if the thread that opened a route releases it before a
  thread that waited for the same route gets the mutex again, the waiter's \<open>activateRoute\<close> returns
  true although the provider has been told to deactivate the route and the manager no longer knows
  it.
\<close>

theorem waiter_gets_deactivated_route:
  assumes "handles_ok m" "ready pid target m" "map_of (activeRoutes m) (route_key pid target) = None"
  shows "\<exists>h retired m1 m2 m3 m4. activate_enter pid target m = (Opened h retired, m1)
    \<and> activate_enter pid target m1 = (WaitFor h, m1) \<and> activate_resume h m1 = None
    \<and> activate_finish pid target h True m1 = (True, False, m2)
    \<and> deactivate_locked pid (rt_peerId target) (rt_targetAddress target) m2 = (Some target, m3)
    \<and> activate_resume h m3 = Some (True, m4) \<and> map_of (activeRoutes m4) (route_key pid target) = None"
proof -
  let ?h = "length (store m)"
  from open_route [OF assms] obtain retired m1 m2 where 1: "activate_enter pid target m = (Opened ?h retired, m1)"
    "activate_finish pid target ?h True m1 = (True, False, m2)" and held: "held pid target ?h 1 m2"
    and wait: "activate_enter pid target m1 = (WaitFor ?h, m1)" "activate_resume ?h m1 = None"
    by blast
  let ?m3 = "m2\<lparr>activeRoutes := AList.delete (route_key pid target) (activeRoutes m2)\<rparr>"
  have gone: "deactivate_locked pid (rt_peerId target) (rt_targetAddress target) m2 = (Some target, ?m3)"
    using held_deactivate_last held by simp
  have "\<exists>m4. activate_resume ?h ?m3 = Some (True, m4) \<and> map_of (activeRoutes m4) (route_key pid target) = None"
    using held by (simp add: activate_resume_def held_def Let_def AList.delete_conv')
  with 1 wait gone show ?thesis by blast
qed

theorem waiter_gets_deactivated_route_witness:
  "\<exists>h retired m1 m2 m3 m4. activate_enter ''ts'' example_target example_manager = (Opened h retired, m1)
    \<and> activate_enter ''ts'' example_target m1 = (WaitFor h, m1) \<and> activate_resume h m1 = None
    \<and> activate_finish ''ts'' example_target h True m1 = (True, False, m2)
    \<and> deactivate_locked ''ts'' (rt_peerId example_target) (rt_targetAddress example_target) m2 = (Some example_target, m3)
    \<and> activate_resume h m3 = Some (True, m4) \<and> map_of (activeRoutes m4) (route_key ''ts'' example_target) = None"
  by (rule waiter_gets_deactivated_route [OF example_ready])

end
