(* ===== verification/RemoteRouteInterleaving.thy ===== *)
theory RemoteRouteInterleaving
  imports RemoteAccessManager
begin

text \<open>
  The critical sections of \<open>RemoteAccessManager\<close> interleaved: any number of threads activate,
  wait, publish, deactivate, select and stop in any order.  A thread that opened a route and is
  calling the provider is in \<open>calling\<close>; a thread blocked on the condition variable of an entry is
  in \<open>waiting\<close>.  What the provider answers is arbitrary.
\<close>

section \<open>The step relation\<close>

record Call =
  call_provider :: string
  call_target :: RemoteRouteTarget
  call_handle :: nat

record System =
  mgr :: Manager
  calling :: "Call list"
  waiting :: "nat list"

definition new_System :: System where
  "new_System = \<lparr>mgr = new_Manager, calling = [], waiting = []\<rparr>"

inductive sys_step :: "System \<Rightarrow> System \<Rightarrow> bool" where
  step_register: "sys_step s (s\<lparr>mgr := registerProvider slot (mgr s)\<rparr>)"
| step_set_active: "sys_step s (s\<lparr>mgr := setActiveProviderId pid (mgr s)\<rparr>)"
| step_stop: "sys_step s (s\<lparr>mgr := snd (stopActiveProviderLocked (mgr s))\<rparr>)"
| step_started: "sys_step s (s\<lparr>mgr := publish_started pid (mgr s)\<rparr>)"
| step_open: "activate_enter pid target (mgr s) = (Opened h retired, m) \<Longrightarrow>
    sys_step s (s\<lparr>mgr := m, calling := \<lparr>call_provider = pid, call_target = target, call_handle = h\<rparr> # calling s\<rparr>)"
| step_wait: "activate_enter pid target (mgr s) = (WaitFor h, m) \<Longrightarrow>
    sys_step s (s\<lparr>mgr := m, waiting := h # waiting s\<rparr>)"
| step_resume: "h \<in> set (waiting s) \<Longrightarrow> activate_resume h (mgr s) = Some (b, m) \<Longrightarrow>
    sys_step s (s\<lparr>mgr := m, waiting := remove1 h (waiting s)\<rparr>)"
| step_finish: "c \<in> set (calling s) \<Longrightarrow>
    activate_finish (call_provider c) (call_target c) (call_handle c) activated (mgr s) = (b, stale, m) \<Longrightarrow>
    sys_step s (s\<lparr>mgr := m, calling := remove1 c (calling s)\<rparr>)"
| step_deactivate: "sys_step s (s\<lparr>mgr := snd (deactivate_locked pid peer addr (mgr s))\<rparr>)"

inductive sys_reach :: "System \<Rightarrow> bool" where
  sys_new: "sys_reach new_System"
| sys_next: "sys_reach s \<Longrightarrow> sys_step s s' \<Longrightarrow> sys_reach s'"

section \<open>The invariant\<close>

definition route_ok :: "Manager \<Rightarrow> RouteKey \<Rightarrow> nat \<Rightarrow> bool" where
  "route_ok m k h = (h < length (store m) \<and> k = route_key (rk_providerId k) (re_target (store m ! h)) \<and>
     1 \<le> re_references (store m ! h) \<and> re_state (store m ! h) \<noteq> Failed \<and> providerSlot (rk_providerId k) m \<noteq> None)"

definition call_ok :: "Manager \<Rightarrow> Call \<Rightarrow> bool" where
  "call_ok m c = (call_handle c < length (store m) \<and> re_state (store m ! call_handle c) \<noteq> Active \<and>
     re_target (store m ! call_handle c) = call_target c \<and>
     (\<forall>k. (k, call_handle c) \<in> set (activeRoutes m) \<longrightarrow> rk_providerId k = call_provider c))"

definition is_exclusive :: "string \<Rightarrow> Manager \<Rightarrow> bool" where
  "is_exclusive pid m = (case providerSlot pid m of None \<Rightarrow> False | Some slot \<Rightarrow> slot_exclusive slot)"

definition exclusive_ok :: "Manager \<Rightarrow> bool" where
  "exclusive_ok m = (\<forall>x \<in> set (activeRoutes m). \<forall>y \<in> set (activeRoutes m).
     rk_providerId (fst x) = rk_providerId (fst y) \<longrightarrow> is_exclusive (rk_providerId (fst x)) m \<longrightarrow> fst x = fst y)"

definition sys_inv :: "System \<Rightarrow> bool" where
  "sys_inv s = (let m = mgr s in
     distinct (map fst (activeRoutes m)) \<and> distinct (map snd (activeRoutes m)) \<and>
     (\<forall>(k, h) \<in> set (activeRoutes m). route_ok m k h) \<and>
     (\<forall>h < length (store m). re_state (store m ! h) = Activating \<longrightarrow> h \<in> call_handle ` set (calling s)) \<and>
     distinct (map call_handle (calling s)) \<and> (\<forall>c \<in> set (calling s). call_ok m c) \<and> exclusive_ok m)"

lemma fail_all_nth:
  "h < length es \<Longrightarrow> fail_all gone es ! h =
     (if h \<in> snd ` set gone then (es ! h)\<lparr>re_state := Failed\<rparr> else es ! h)"
proof (induction gone arbitrary: es)
  case (Cons x gone)
  obtain k b where x: "x = (k, b)" by (cases x)
  have "fail_all (x # gone) es = fail_all gone (set_state Failed b es)" by (simp add: fail_all_def x)
  then show ?case
    using Cons.IH [of "set_state Failed b es"] Cons.prems x
    by (cases "h = b") (simp_all add: set_state_def)
qed (simp add: fail_all_def)

text \<open>Dropping routes and failing their entries keeps the invariant.\<close>

lemma sys_inv_shrink:
  assumes inv: "sys_inv s" and prov: "providers m' = providers (mgr s)"
    and len: "length (store m') = length (store (mgr s))"
    and nth: "\<And>h. h < length (store (mgr s)) \<Longrightarrow>
      store m' ! h = (if h \<in> F then (store (mgr s) ! h)\<lparr>re_state := Failed\<rparr> else store (mgr s) ! h)"
    and routes: "activeRoutes m' = filter Q (activeRoutes (mgr s))" "\<And>k h. Q (k, h) \<Longrightarrow> h \<notin> F"
    and calls: "set cs \<subseteq> set (calling s)" "distinct (map call_handle cs)"
      "\<And>c. c \<in> set (calling s) \<Longrightarrow> c \<notin> set cs \<Longrightarrow> call_handle c \<in> F"
  shows "sys_inv (s\<lparr>mgr := m', calling := cs\<rparr>)"
proof -
  have slot: "providerSlot pid m' = providerSlot pid (mgr s)" for pid using prov by (rule providerSlot_eq)
  have sub: "set (activeRoutes m') \<subseteq> set (activeRoutes (mgr s))" using routes by auto
  have "\<forall>(k, h) \<in> set (activeRoutes m'). route_ok m' k h"
    using inv routes len nth slot by (auto simp: sys_inv_def Let_def route_ok_def)
  moreover have "\<forall>h < length (store m'). re_state (store m' ! h) = Activating \<longrightarrow> h \<in> call_handle ` set cs"
  proof (intro allI impI)
    fix h assume h: "h < length (store m')" "re_state (store m' ! h) = Activating"
    with nth len have "h \<notin> F" "re_state (store (mgr s) ! h) = Activating" by (auto split: if_splits)
    with inv h len obtain c where "c \<in> set (calling s)" "call_handle c = h" by (auto simp: sys_inv_def Let_def)
    with calls(3) \<open>h \<notin> F\<close> show "h \<in> call_handle ` set cs" by blast
  qed
  moreover have "\<forall>c \<in> set cs. call_ok m' c"
  proof
    fix c assume "c \<in> set cs"
    then have "call_ok (mgr s) c" using calls(1) inv by (auto simp: sys_inv_def Let_def)
    then show "call_ok m' c" using sub nth [of "call_handle c"] len by (auto simp: call_ok_def)
  qed
  moreover have "exclusive_ok m'"
  proof -
    have "exclusive_ok (mgr s)" using inv by (simp add: sys_inv_def Let_def)
    moreover have "is_exclusive i m' = is_exclusive i (mgr s)" for i by (simp add: is_exclusive_def slot)
    ultimately show ?thesis using sub unfolding exclusive_ok_def by blast
  qed
  moreover have "distinct (map fst (activeRoutes m'))" "distinct (map snd (activeRoutes m'))"
    using inv routes by (auto simp: sys_inv_def Let_def distinct_map_filter)
  ultimately show ?thesis using calls(2) by (simp add: sys_inv_def Let_def)
qed

lemma filter_by_handles:
  assumes "distinct (map snd rs)"
  shows "filter (\<lambda>x. \<not> P x) rs = filter (\<lambda>(k, h). h \<notin> snd ` set (filter P rs)) rs"
proof (rule filter_cong [OF refl])
  fix x assume x: "x \<in> set rs"
  have "snd x \<in> snd ` set (filter P rs) \<longleftrightarrow> P x"
    using assms x by (auto simp: distinct_map inj_on_def)
  then show "(\<not> P x) = (case x of (k, h) \<Rightarrow> h \<notin> snd ` set (filter P rs))" by (cases x) simp
qed

lemma sys_inv_drop:
  assumes "sys_inv s" "providers m' = providers (mgr s)"
    and "activeRoutes m' = filter (\<lambda>x. \<not> P x) (activeRoutes (mgr s))"
    and "store m' = fail_all (filter P (activeRoutes (mgr s))) (store (mgr s))"
  shows "sys_inv (s\<lparr>mgr := m'\<rparr>)"
proof -
  have "distinct (map snd (activeRoutes (mgr s)))" using assms(1) by (simp add: sys_inv_def Let_def)
  then have "activeRoutes m' = filter (\<lambda>(k, h). h \<notin> snd ` set (filter P (activeRoutes (mgr s)))) (activeRoutes (mgr s))"
    unfolding assms(3) by (rule filter_by_handles)
  moreover have "distinct (map call_handle (calling s))" using assms(1) by (simp add: sys_inv_def Let_def)
  ultimately have "sys_inv (s\<lparr>mgr := m', calling := calling s\<rparr>)"
    using assms
    by (intro sys_inv_shrink [where F = "snd ` set (filter P (activeRoutes (mgr s)))" and
          Q = "\<lambda>(k, h). h \<notin> snd ` set (filter P (activeRoutes (mgr s)))"]) (auto simp: fail_all_nth)
  then show ?thesis by simp
qed

section \<open>Preservation\<close>

lemma stop_inv: "sys_inv s \<Longrightarrow> sys_inv (s\<lparr>mgr := snd (stopActiveProviderLocked (mgr s))\<rparr>)"
  by (rule sys_inv_drop [where P = "\<lambda>(k, h). rk_providerId k = activeProviderId (mgr s)"])
    (auto simp: stopActiveProviderLocked_def Let_def intro!: filter_cong)

lemma providerSlot_register: "providerSlot pid m \<noteq> None \<Longrightarrow> providerSlot pid (registerProvider slot m) = providerSlot pid m"
proof -
  have "find P (xs @ ys) = (case find P xs of None \<Rightarrow> find P ys | Some y \<Rightarrow> Some y)" for P :: "ProviderSlot \<Rightarrow> bool" and xs ys
    by (induction xs) auto
  then show "providerSlot pid m \<noteq> None \<Longrightarrow> ?thesis" by (auto simp: providerSlot_def registerProvider_def)
qed

lemma register_inv:
  assumes "sys_inv s"
  shows "sys_inv (s\<lparr>mgr := registerProvider slot (mgr s)\<rparr>)"
proof -
  let ?m = "mgr s" and ?m' = "registerProvider slot (mgr s)"
  have same: "activeRoutes ?m' = activeRoutes ?m" "store ?m' = store ?m" by (simp_all add: registerProvider_def)
  have known: "providerSlot (rk_providerId k) ?m' = providerSlot (rk_providerId k) ?m" if "(k, h) \<in> set (activeRoutes ?m)" for k h
    using assms that by (intro providerSlot_register) (auto simp: sys_inv_def Let_def route_ok_def)
  have "\<forall>(k, h) \<in> set (activeRoutes ?m'). route_ok ?m' k h"
    using assms same known by (auto simp: sys_inv_def Let_def route_ok_def)
  moreover have "is_exclusive (rk_providerId (fst x)) ?m' = is_exclusive (rk_providerId (fst x)) ?m"
    if "x \<in> set (activeRoutes ?m)" for x
    using known [of "fst x" "snd x"] that by (simp add: is_exclusive_def)
  then have "exclusive_ok ?m'"
    using assms same by (simp add: sys_inv_def Let_def exclusive_ok_def)
  moreover have "\<forall>c \<in> set (calling s). call_ok ?m' c"
    using assms same by (auto simp: sys_inv_def Let_def call_ok_def)
  ultimately show ?thesis using assms same by (simp add: sys_inv_def Let_def)
qed

lemma selection_inv:
  assumes "sys_inv s"
  shows "sys_inv (s\<lparr>mgr := setActiveProviderId pid (mgr s)\<rparr>)" "sys_inv (s\<lparr>mgr := publish_started pid (mgr s)\<rparr>)"
  using assms
  by (simp_all add: sys_inv_def Let_def setActiveProviderId_def publish_started_def route_ok_def call_ok_def
      exclusive_ok_def is_exclusive_def)

lemma add_route_inv:
  assumes inv: "sys_inv s" and new: "route_key pid target \<notin> fst ` set (activeRoutes (mgr s))"
    and slot: "providerSlot pid (mgr s) = Some slot"
    and excl: "slot_exclusive slot \<Longrightarrow> \<forall>(k, h) \<in> set (activeRoutes (mgr s)). rk_providerId k \<noteq> pid"
    and m': "store m' = store (mgr s) @ [\<lparr>re_target = target, re_generation = g, re_references = 1, re_state = Activating\<rparr>]"
      "activeRoutes m' = activeRoutes (mgr s) @ [(route_key pid target, length (store (mgr s)))]"
      "providers m' = providers (mgr s)"
  shows "sys_inv (s\<lparr>mgr := m', calling := \<lparr>call_provider = pid, call_target = target, call_handle = length (store (mgr s))\<rparr> # calling s\<rparr>)"
proof -
  let ?m = "mgr s" and ?h = "length (store (mgr s))" and ?key = "route_key pid target"
  have old: "\<forall>(k, h) \<in> set (activeRoutes ?m). route_ok ?m k h" "\<forall>c \<in> set (calling s). call_ok ?m c"
    using inv by (auto simp: sys_inv_def Let_def)
  then have below: "\<forall>(k, h) \<in> set (activeRoutes ?m). h < ?h" "\<forall>c \<in> set (calling s). call_handle c < ?h"
    by (auto simp: route_ok_def call_ok_def)
  have key: "rk_providerId ?key = pid" by (simp add: route_key_def)
  have slots: "providerSlot i m' = providerSlot i ?m" for i using m'(3) by (rule providerSlot_eq)
  have "\<forall>(k, h) \<in> set (activeRoutes m'). route_ok m' k h"
    using old(1) below(1) slot key by (auto simp: m' slots route_ok_def nth_append)
  moreover have "\<forall>c \<in> set (calling s). call_ok m' c"
    using old(2) below by (auto simp: m' call_ok_def nth_append)
  moreover have "exclusive_ok m'"
  proof -
    have "exclusive_ok ?m" using inv by (simp add: sys_inv_def Let_def)
    moreover have "is_exclusive i m' = is_exclusive i ?m" for i by (simp add: is_exclusive_def slots)
    moreover have "is_exclusive pid ?m \<longrightarrow> (\<forall>x \<in> set (activeRoutes ?m). rk_providerId (fst x) \<noteq> pid)"
      using excl slot by (auto simp: is_exclusive_def)
    ultimately show ?thesis by (auto simp: exclusive_ok_def m' key)
  qed
  moreover have "\<forall>h < length (store m'). re_state (store m' ! h) = Activating \<longrightarrow> h \<in> insert ?h (call_handle ` set (calling s))"
    using inv by (auto simp: m' sys_inv_def Let_def nth_append)
  moreover have "distinct (map fst (activeRoutes m'))" "distinct (map snd (activeRoutes m'))" "?h \<notin> call_handle ` set (calling s)"
    using inv new below by (auto simp: m' sys_inv_def Let_def)
  moreover have "call_ok m' \<lparr>call_provider = pid, call_target = target, call_handle = ?h\<rparr>"
    using below(1) key by (auto simp: m' call_ok_def)
  ultimately show ?thesis using inv by (simp add: sys_inv_def Let_def)
qed

lemma fail_all_append: "\<forall>(k, h) \<in> set gone. h < length es \<Longrightarrow> fail_all gone (es @ [e]) = fail_all gone es @ [e]"
  unfolding fail_all_def
  by (induction gone arbitrary: es) (auto simp: set_state_def nth_append list_update_append)

lemma open_inv:
  assumes inv: "sys_inv s" and "activate_enter pid target (mgr s) = (Opened h retired, m)"
  shows "sys_inv (s\<lparr>mgr := m, calling := \<lparr>call_provider = pid, call_target = target, call_handle = h\<rparr> # calling s\<rparr>)"
proof -
  let ?m = "mgr s" and ?key = "route_key pid target" and ?n = "length (store (mgr s))"
  let ?e = "\<lparr>re_target = target, re_generation = providerGeneration ?m, re_references = 1, re_state = Activating\<rparr>"
  let ?m1 = "?m\<lparr>store := store ?m @ [?e], activeRoutes := activeRoutes ?m @ [(?key, ?n)]\<rparr>"
  from assms(2) obtain slot where slot: "providerSlot pid ?m = Some slot" and new: "map_of (activeRoutes ?m) ?key = None" and h: "h = ?n"
    and m: "m = (if slot_exclusive slot then snd (retire_others pid ?key ?m1) else ?m1)"
    by (auto simp: activate_enter_def Let_def split: option.splits if_splits prod.splits)
  from new have fresh: "?key \<notin> fst ` set (activeRoutes ?m)" by (simp add: map_of_eq_None_iff)
  show ?thesis
  proof (cases "slot_exclusive slot")
    case False
    with add_route_inv [OF inv fresh slot] m h show ?thesis by simp
  next
    case True
    let ?P = "\<lambda>(k, h :: nat). rk_providerId k = pid \<and> k \<noteq> ?key"
    let ?gone = "filter ?P (activeRoutes ?m)"
    let ?m2 = "?m\<lparr>activeRoutes := filter (\<lambda>x. \<not> ?P x) (activeRoutes ?m), store := fail_all ?gone (store ?m)\<rparr>"
    have inv2: "sys_inv (s\<lparr>mgr := ?m2\<rparr>)" using inv by (rule sys_inv_drop) simp_all
    have "\<forall>(k, h) \<in> set ?gone. h < ?n" using inv by (auto simp: sys_inv_def Let_def route_ok_def)
    then have m': "store m = store ?m2 @ [?e]" "activeRoutes m = activeRoutes ?m2 @ [(?key, length (store ?m2))]"
      "providers m = providers ?m2"
      using True m by (auto simp: retire_others_def Let_def fail_all_append intro!: filter_cong)
    have none: "\<forall>(k, h) \<in> set (activeRoutes ?m2). rk_providerId k \<noteq> pid"
      using fresh by (auto simp: rev_image_eqI)
    show ?thesis
      using add_route_inv [OF inv2, of pid target slot m "providerGeneration ?m"] m' none fresh slot h by auto
  qed
qed

lemma nth_list_update': "es[h := r] ! i = (if h = i \<and> h < length es then r else es ! i)"
  by (cases "h < length es") (simp_all add: nth_list_update list_update_beyond)

lemma resume_inv:
  assumes inv: "sys_inv s" and "activate_resume h (mgr s) = Some (b, m)"
  shows "sys_inv (s\<lparr>mgr := m, waiting := w\<rparr>)"
proof -
  let ?m = "mgr s"
  have same: "activeRoutes m = activeRoutes ?m" "providers m = providers ?m" "length (store m) = length (store ?m)"
    and ent: "re_target (store m ! i) = re_target (store ?m ! i)" "re_state (store m ! i) = re_state (store ?m ! i)"
      "re_references (store ?m ! i) \<le> re_references (store m ! i)" for i
    using assms(2) by (auto simp: activate_resume_def Let_def nth_list_update' split: if_splits)
  have slot: "providerSlot pid m = providerSlot pid ?m" for pid using same(2) by (rule providerSlot_eq)
  have "\<forall>(k, h) \<in> set (activeRoutes m). route_ok m k h"
    using inv same ent slot by (fastforce simp: sys_inv_def Let_def route_ok_def intro: le_trans)
  with inv same ent slot show ?thesis
    by (simp add: sys_inv_def Let_def call_ok_def exclusive_ok_def is_exclusive_def)
qed

lemma finish_inv:
  assumes inv: "sys_inv s" and c: "c \<in> set (calling s)"
    and fin: "activate_finish (call_provider c) (call_target c) (call_handle c) activated (mgr s) = (b, stale, m)"
  shows "sys_inv (s\<lparr>mgr := m, calling := remove1 c (calling s)\<rparr>)"
proof -
  let ?m = "mgr s" and ?h = "call_handle c" and ?key = "route_key (call_provider c) (call_target c)"
  let ?cs = "remove1 c (calling s)"
  have ok: "call_ok ?m c" and dist: "distinct (map call_handle (calling s))"
    and keys: "distinct (map fst (activeRoutes ?m))" "distinct (map snd (activeRoutes ?m))"
    using inv c by (auto simp: sys_inv_def Let_def)
  have cs: "set ?cs \<subseteq> set (calling s)" "distinct (map call_handle ?cs)" "set ?cs = set (calling s) - {c}"
    using dist by (auto simp: distinct_map set_remove1_eq intro: inj_on_subset dest: in_set_remove1 notin_set_remove1)
  have at: "(k, ?h) \<in> set (activeRoutes ?m) \<Longrightarrow> k = ?key" for k
    using inv ok by (auto simp: sys_inv_def Let_def route_ok_def call_ok_def)
  show ?thesis
  proof (cases b)
    case False
    then have m: "store m = set_state Failed ?h (store ?m)" "providers m = providers ?m"
      "activeRoutes m = (if map_of (activeRoutes ?m) ?key = Some ?h then AList.delete ?key (activeRoutes ?m) else activeRoutes ?m)"
      using fin by (auto simp: activate_finish_def Let_def split: if_splits)
    have "activeRoutes m = filter (\<lambda>(k, h). h \<noteq> ?h) (activeRoutes ?m)"
    proof (cases "map_of (activeRoutes ?m) ?key = Some ?h")
      case True
      then have "(?key, ?h) \<in> set (activeRoutes ?m)" by (rule map_of_SomeD)
      then have "k \<noteq> ?key \<longleftrightarrow> h \<noteq> ?h" if "(k, h) \<in> set (activeRoutes ?m)" for k h
        using that at keys(1) by (metis eq_key_imp_eq_value)
      then have "filter (\<lambda>(k, h). ?key \<noteq> k) (activeRoutes ?m) = filter (\<lambda>(k, h). h \<noteq> ?h) (activeRoutes ?m)"
        by (intro filter_cong) auto
      with True m(3) show ?thesis by (simp add: AList.delete_eq)
    next
      case False
      then have "h \<noteq> ?h" if "(k, h) \<in> set (activeRoutes ?m)" for k h
        using that at keys(1) by (metis map_of_eq_Some_iff)
      then have "filter (\<lambda>(k, h). h \<noteq> ?h) (activeRoutes ?m) = activeRoutes ?m" by (intro filter_True) auto
      with False m(3) show ?thesis by simp
    qed
    with inv m cs show ?thesis
      by (intro sys_inv_shrink [where F = "{?h}" and Q = "\<lambda>(k, h). h \<noteq> ?h"]) (auto simp: set_state_def nth_list_update)
  next
    case True
    then have m: "store m = set_state Active ?h (store ?m)" "providers m = providers ?m" "activeRoutes m = activeRoutes ?m"
      using fin by (auto simp: activate_finish_def Let_def split: if_splits)
    have slot: "providerSlot pid m = providerSlot pid ?m" for pid using m(2) by (rule providerSlot_eq)
    have ent: "re_target (store m ! i) = re_target (store ?m ! i)" "re_references (store m ! i) = re_references (store ?m ! i)"
      "re_state (store ?m ! i) \<noteq> Failed \<Longrightarrow> re_state (store m ! i) \<noteq> Failed" "length (store m) = length (store ?m)" for i
      by (auto simp: m set_state_def nth_list_update')
    have "\<forall>(k, h) \<in> set (activeRoutes m). route_ok m k h"
      using inv m(3) slot ent by (simp add: sys_inv_def Let_def route_ok_def split_beta)
    moreover have "\<forall>h < length (store m). re_state (store m ! h) = Activating \<longrightarrow> h \<in> call_handle ` set ?cs"
    proof (intro allI impI)
      fix h assume h: "h < length (store m)" "re_state (store m ! h) = Activating"
      have "?h < length (store ?m)" using ok by (simp add: call_ok_def)
      with h have "h \<noteq> ?h" "re_state (store ?m ! h) = Activating" "h < length (store ?m)"
        by (auto simp: m set_state_def nth_list_update' split: if_splits)
      with inv obtain c' where "c' \<in> set (calling s)" "call_handle c' = h" by (auto simp: sys_inv_def Let_def)
      with \<open>h \<noteq> ?h\<close> cs(3) show "h \<in> call_handle ` set ?cs" by blast
    qed
    moreover have "\<forall>c' \<in> set ?cs. call_ok m c'"
    proof
      fix c' assume c': "c' \<in> set ?cs"
      then have "call_handle c' \<noteq> ?h" using dist c cs(3) by (auto simp: distinct_map inj_on_def)
      with c' cs(1) inv m show "call_ok m c'" by (auto simp: sys_inv_def Let_def call_ok_def set_state_def)
    qed
    moreover have "exclusive_ok m" using inv m slot by (simp add: sys_inv_def Let_def exclusive_ok_def is_exclusive_def)
    ultimately show ?thesis using inv m cs(2) by (simp add: sys_inv_def Let_def)
  qed
qed

lemma deactivate_inv:
  assumes inv: "sys_inv s"
  shows "sys_inv (s\<lparr>mgr := snd (deactivate_locked pid peer addr (mgr s))\<rparr>)"
proof (cases "findRouteLocked pid peer addr (mgr s)")
  case None
  with inv show ?thesis by (simp add: deactivate_locked_def)
next
  case (Some kh)
  obtain k h where kh: "kh = (k, h)" by (cases kh)
  let ?m = "mgr s" and ?e = "store (mgr s) ! h"
  have dist: "distinct (map call_handle (calling s))" using inv by (simp add: sys_inv_def Let_def)
  consider "re_state ?e \<noteq> Active" | "re_state ?e = Active" "re_references ?e > 1" | "re_state ?e = Active" "\<not> re_references ?e > 1"
    by blast
  then show ?thesis
  proof cases
    case 1
    with inv Some kh show ?thesis by (simp add: deactivate_locked_def)
  next
    case 2
    let ?m' = "?m\<lparr>store := (store ?m)[h := ?e\<lparr>re_references := re_references ?e - 1\<rparr>]\<rparr>"
    have "snd (deactivate_locked pid peer addr ?m) = ?m'" using 2 Some kh by (simp add: deactivate_locked_def)
    moreover have "re_target (store ?m' ! i) = re_target (store ?m ! i)" "re_state (store ?m' ! i) = re_state (store ?m ! i)"
      "1 \<le> re_references (store ?m ! i) \<Longrightarrow> 1 \<le> re_references (store ?m' ! i)" for i
      using 2 by (auto simp: nth_list_update')
    ultimately show ?thesis
      using inv by (simp add: sys_inv_def Let_def route_ok_def call_ok_def exclusive_ok_def is_exclusive_def split_beta)
  next
    case 3
    let ?m' = "?m\<lparr>activeRoutes := AList.delete k (activeRoutes ?m)\<rparr>"
    have "sys_inv (s\<lparr>mgr := ?m', calling := calling s\<rparr>)"
      using inv dist
      by (intro sys_inv_shrink [where F = "{}" and Q = "\<lambda>(k', h). k \<noteq> k'"]) (auto simp: AList.delete_eq)
    moreover have "snd (deactivate_locked pid peer addr ?m) = ?m'" using 3 Some kh by (simp add: deactivate_locked_def)
    ultimately show ?thesis by simp
  qed
qed

lemma wait_inv:
  "sys_inv s \<Longrightarrow> activate_enter pid target (mgr s) = (WaitFor h, m) \<Longrightarrow> sys_inv (s\<lparr>mgr := m, waiting := w\<rparr>)"
  by (auto simp: activate_enter_def Let_def sys_inv_def split: option.splits if_splits prod.splits)

lemma sys_step_inv: "sys_step s s' \<Longrightarrow> sys_inv s \<Longrightarrow> sys_inv s'"
  by (induction rule: sys_step.induct)
    (simp_all add: register_inv selection_inv stop_inv open_inv wait_inv resume_inv finish_inv deactivate_inv)

lemma sys_reach_inv: "sys_reach s \<Longrightarrow> sys_inv s"
proof (induction rule: sys_reach.induct)
  case sys_new
  then show ?case by (simp add: sys_inv_def new_System_def new_Manager_def exclusive_ok_def)
next
  case (sys_next s s')
  then show ?case by (simp add: sys_step_inv)
qed

section \<open>Properties of every interleaving\<close>

text \<open>
  C24: Under every interleaving the route table is consistent: one route per key and one key per
  entry, every route has at least one reference, is active or being activated, names its own target
  and belongs to a registered provider; and a provider whose routes are exclusive has at most one.
\<close>

theorem routes_consistent:
  assumes "sys_reach s"
  shows "distinct (map fst (activeRoutes (mgr s))) \<and> distinct (map snd (activeRoutes (mgr s)))
    \<and> (\<forall>(k, h) \<in> set (activeRoutes (mgr s)). route_ok (mgr s) k h) \<and> exclusive_ok (mgr s)"
  using sys_reach_inv [OF assms] by (simp add: sys_inv_def Let_def)


text \<open>
  C36: No waiter is forgotten: under every interleaving, a thread that waits for a route being
  activated waits for an activation whose provider call is still running, and whatever that
  call answers, publishing its result ends the wait.
\<close>

theorem waiters_are_released:
  assumes "sys_reach s" and "h < length (store (mgr s))" and "activate_resume h (mgr s) = None"
  shows "\<exists>c \<in> set (calling s). call_handle c = h \<and>
    (\<forall>activated. \<exists>b stale m. activate_finish (call_provider c) (call_target c) h activated (mgr s) = (b, stale, m)
       \<and> activate_resume h m \<noteq> None)"
proof -
  have "re_state (store (mgr s) ! h) = Activating"
    using assms(3) by (auto simp: activate_resume_def Let_def split: if_splits)
  with sys_reach_inv [OF assms(1)] assms(2) obtain c where c: "c \<in> set (calling s)" "call_handle c = h"
    by (auto simp: sys_inv_def Let_def)
  have "\<exists>b stale m. activate_finish (call_provider c) (call_target c) h activated (mgr s) = (b, stale, m)
       \<and> activate_resume h m \<noteq> None" for activated
    using assms(2) by (auto simp: activate_finish_def activate_resume_def Let_def set_state_def)
  with c show ?thesis by blast
qed

definition waiting_system :: System where
  "waiting_system =
     (let m = publish_started ''ts'' (registerProvider \<lparr>slot_id = ''ts'', slot_exclusive = True\<rparr> new_Manager)
      in \<lparr>mgr = snd (activate_enter ''ts'' example_target m),
          calling = [\<lparr>call_provider = ''ts'', call_target = example_target, call_handle = 0\<rparr>], waiting = []\<rparr>)"

lemma waiting_system_eq:
  "waiting_system = \<lparr>mgr = \<lparr>providers = [\<lparr>slot_id = ''ts'', slot_exclusive = True\<rparr>], activeProviderId = ''ts'',
     providerGeneration = 1, activeRoutes = [(route_key ''ts'' example_target, 0)],
     store = [\<lparr>re_target = example_target, re_generation = 1, re_references = 1, re_state = Activating\<rparr>]\<rparr>,
     calling = [\<lparr>call_provider = ''ts'', call_target = example_target, call_handle = 0\<rparr>], waiting = []\<rparr>"
  by (simp add: waiting_system_def publish_started_def registerProvider_def new_Manager_def activate_enter_def
      providerSlot_def example_target_def route_key_def retire_others_def fail_all_def Let_def)

lemma waiting_system_reach: "sys_reach waiting_system"
proof -
  let ?m1 = "registerProvider \<lparr>slot_id = ''ts'', slot_exclusive = True\<rparr> new_Manager"
  let ?m2 = "publish_started ''ts'' ?m1"
  have 1: "sys_reach (new_System\<lparr>mgr := ?m1\<rparr>)"
    using sys_next [OF sys_new step_register] by (simp add: new_System_def)
  have 2: "sys_reach (new_System\<lparr>mgr := ?m2\<rparr>)"
    using sys_next [OF 1 step_started [of _ "''ts''"]] by simp
  have "activate_enter ''ts'' example_target ?m2 = (Opened 0 [], mgr waiting_system)"
    by (simp add: waiting_system_eq publish_started_def registerProvider_def new_Manager_def activate_enter_def
      providerSlot_def example_target_def route_key_def retire_others_def fail_all_def Let_def)
  then have "sys_step (new_System\<lparr>mgr := ?m2\<rparr>) waiting_system"
    using step_open [of "''ts''" example_target "new_System\<lparr>mgr := ?m2\<rparr>" 0 "[]" "mgr waiting_system"]
    by (simp add: waiting_system_eq new_System_def)
  with 2 show ?thesis by (rule sys_next)
qed

theorem routes_consistent_witness:
  "route_ok (mgr waiting_system) (route_key ''ts'' example_target) 0 \<and> exclusive_ok (mgr waiting_system)"
  using routes_consistent [OF waiting_system_reach] by (simp add: waiting_system_eq)

theorem waiters_are_released_witness:
  "\<exists>c \<in> set (calling waiting_system). call_handle c = 0"
  using waiters_are_released [OF waiting_system_reach, of 0]
  by (auto simp: waiting_system_eq activate_resume_def Let_def)



end
