(* ===== verification/RemoteRouteLease.thy ===== *)
theory RemoteRouteLease
  imports RemoteTypes "HOL-Library.Multiset"
begin

text \<open>
  Model of \<open>app/src/remote_access/RemoteRouteLease.hpp\<close>: the owner of one reference to a route,
  which can be moved but not copied.  The results of the manager's \<open>activateRoute\<close> and
  \<open>prepareRouteForStreaming\<close> are arguments; a call of \<open>deactivateRoute\<close> is an output.  The strings
  of a moved-from object are unspecified in C++ and are the argument \<open>junk\<close>.
\<close>

section \<open>Leases\<close>

record Lease =
  l_mgr :: bool
  l_providerId :: string
  l_peerId :: string
  l_targetAddress :: string
  l_connectAddress :: string
  l_active :: bool
  l_refused :: bool

type_synonym route_ref = "string \<times> string \<times> string"

definition default_lease :: Lease where
  "default_lease = \<lparr>l_mgr = False, l_providerId = [], l_peerId = [], l_targetAddress = [], l_connectAddress = [],
     l_active = False, l_refused = False\<rparr>"

definition new_lease :: "string \<Rightarrow> RemoteRouteTarget \<Rightarrow> bool \<Rightarrow> Lease" where
  "new_lease pid target activated =
     (let l = \<lparr>l_mgr = True, l_providerId = pid, l_peerId = rt_peerId target, l_targetAddress = rt_targetAddress target,
               l_connectAddress = rt_connectAddress target, l_active = False, l_refused = False\<rparr>
      in if pid \<noteq> [] then l\<lparr>l_active := activated, l_refused := \<not> activated\<rparr> else l\<lparr>l_active := True\<rparr>)"

definition release :: "Lease \<Rightarrow> route_ref option \<times> Lease" where
  "release l =
     (if l_active l \<and> l_mgr l \<and> l_providerId l \<noteq> []
      then (Some (l_providerId l, l_peerId l, l_targetAddress l), l\<lparr>l_active := False\<rparr>)
      else (None, l))"

definition moved_from :: "string \<Rightarrow> Lease \<Rightarrow> Lease" where
  "moved_from junk l = l\<lparr>l_mgr := False, l_active := False, l_refused := False, l_providerId := junk,
     l_peerId := junk, l_targetAddress := junk, l_connectAddress := junk\<rparr>"

text \<open>The move constructor: the new object and what is left of the old one.\<close>

definition move_construct :: "string \<Rightarrow> Lease \<Rightarrow> Lease \<times> Lease" where
  "move_construct junk other = (other, moved_from junk other)"

text \<open>Move assignment between two different objects: the call made, the target, the source.\<close>

definition move_assign :: "string \<Rightarrow> Lease \<Rightarrow> Lease \<Rightarrow> route_ref option \<times> Lease \<times> Lease" where
  "move_assign junk this other =
     (case release this of (call, released) \<Rightarrow>
        (call,
         released\<lparr>l_mgr := l_mgr other, l_providerId := l_providerId other, l_peerId := l_peerId other,
           l_targetAddress := l_targetAddress other, l_connectAddress := l_connectAddress other,
           l_active := l_active other, l_refused := l_refused other\<rparr>,
         moved_from junk other))"

definition prepareForStreaming :: "bool \<Rightarrow> Lease \<Rightarrow> bool" where
  "prepareForStreaming prepared l = (l_active l \<and> l_mgr l \<and> (l_providerId l = [] \<or> prepared))"

section \<open>Programs with leases\<close>

text \<open>
  A program with an array of leases: a temporary is constructed and moved into a slot, slots are
  moved, released, and finally destroyed.  \<open>acquired\<close> and \<open>returned\<close> collect the references that
  \<open>activateRoute\<close> granted and that \<open>deactivateRoute\<close> was called for.
\<close>

datatype lease_op =
    Acquire nat string RemoteRouteTarget bool
  | Move nat nat string
  | Release nat

record Program =
  leases :: "Lease list"
  acquired :: "route_ref multiset"
  returned :: "route_ref multiset"

definition ref_of :: "Lease \<Rightarrow> route_ref" where
  "ref_of l = (l_providerId l, l_peerId l, l_targetAddress l)"

definition holds :: "Lease \<Rightarrow> bool" where
  "holds l = (l_active l \<and> l_mgr l \<and> l_providerId l \<noteq> [])"

definition refs :: "Lease \<Rightarrow> route_ref multiset" where
  "refs l = (if holds l then {#ref_of l#} else {#})"

definition call_refs :: "route_ref option \<Rightarrow> route_ref multiset" where
  "call_refs c = (case c of None \<Rightarrow> {#} | Some r \<Rightarrow> {#r#})"

fun lease_step :: "lease_op \<Rightarrow> Program \<Rightarrow> Program" where
  "lease_step (Acquire i pid target activated) p =
     (if i < length (leases p) then
        let tmp = new_lease pid target activated in
        (case move_assign [] (leases p ! i) tmp of
           (call, l, tmp') \<Rightarrow> p\<lparr>leases := (leases p)[i := l], acquired := acquired p + refs tmp,
              returned := returned p + call_refs call + call_refs (fst (release tmp'))\<rparr>)
      else p)"
| "lease_step (Move i j junk) p =
     (if i < length (leases p) \<and> j < length (leases p) \<and> i \<noteq> j then
        (case move_assign junk (leases p ! i) (leases p ! j) of
           (call, l, other) \<Rightarrow> p\<lparr>leases := (leases p)[i := l, j := other], returned := returned p + call_refs call\<rparr>)
      else p)"
| "lease_step (Release i) p =
     (if i < length (leases p) then
        (case release (leases p ! i) of
           (call, l) \<Rightarrow> p\<lparr>leases := (leases p)[i := l], returned := returned p + call_refs call\<rparr>)
      else p)"

definition start_program :: "nat \<Rightarrow> Program" where
  "start_program n = \<lparr>leases = replicate n default_lease, acquired = {#}, returned = {#}\<rparr>"

section \<open>Balance\<close>

definition balanced :: "Program \<Rightarrow> bool" where
  "balanced p = (acquired p = returned p + sum_list (map refs (leases p)))"

lemma release_refs: "release l = (c, l') \<Longrightarrow> call_refs c + refs l' = refs l \<and> refs l' = {#}"
  by (auto simp: release_def refs_def holds_def call_refs_def ref_of_def split: if_splits)

lemma moved_from_refs [simp]: "refs (moved_from junk l) = {#}" "fst (release (moved_from junk l)) = None"
  by (simp_all add: refs_def holds_def moved_from_def release_def)

lemma move_assign_refs:
  "move_assign junk this other = (c, l, o') \<Longrightarrow> call_refs c = refs this \<and> refs l = refs other \<and> refs o' = {#}"
  using release_refs [of this]
  by (auto simp: move_assign_def refs_def holds_def ref_of_def moved_from_def split: prod.splits)

lemma sum_list_refs_update:
  "i < length ls \<Longrightarrow> sum_list (map refs (ls[i := l])) + refs (ls ! i) = sum_list (map refs ls) + refs l"
proof (induction ls arbitrary: i)
  case (Cons a ls)
  then show ?case by (cases i) (simp_all add: ac_simps)
qed simp

lemma lease_step_balanced:
  assumes "balanced p"
  shows "balanced (lease_step op p)"
proof (cases op)
  case (Acquire i pid target activated)
  let ?tmp = "new_lease pid target activated"
  obtain c l o' where m: "move_assign [] (leases p ! i) ?tmp = (c, l, o')" by (metis prod_cases3)
  then have o': "o' = moved_from [] ?tmp" by (auto simp: move_assign_def split: prod.splits)
  show ?thesis
  proof (cases "i < length (leases p)")
    case True
    from sum_list_refs_update [OF True, of l] move_assign_refs [OF m] o'
    have "sum_list (map refs ((leases p)[i := l])) + call_refs c = sum_list (map refs (leases p)) + refs ?tmp" by simp
    with assms True Acquire m o' show ?thesis
      by (simp add: balanced_def call_refs_def [of None] ac_simps)
  qed (use assms Acquire in simp)
next
  case (Move i j junk)
  obtain c l o' where m: "move_assign junk (leases p ! i) (leases p ! j) = (c, l, o')" by (metis prod_cases3)
  show ?thesis
  proof (cases "i < length (leases p) \<and> j < length (leases p) \<and> i \<noteq> j")
    case True
    then have "sum_list (map refs ((leases p)[i := l])) + refs (leases p ! i) = sum_list (map refs (leases p)) + refs l"
      and "sum_list (map refs ((leases p)[i := l, j := o'])) + refs (leases p ! j) = sum_list (map refs ((leases p)[i := l])) + refs o'"
      using sum_list_refs_update [of i "leases p" l] sum_list_refs_update [of j "(leases p)[i := l]" o'] by auto
    with move_assign_refs [OF m]
    have "refs (leases p ! j) + (sum_list (map refs ((leases p)[i := l, j := o'])) + call_refs c) =
        refs (leases p ! j) + sum_list (map refs (leases p))" by (simp add: ac_simps)
    then have "sum_list (map refs ((leases p)[i := l, j := o'])) + call_refs c = sum_list (map refs (leases p))"
      by (simp only: add_left_cancel)
    with assms True Move m show ?thesis by (simp add: balanced_def ac_simps)
  qed (use assms Move in auto)
next
  case (Release i)
  obtain c l where r: "release (leases p ! i) = (c, l)" by (cases "release (leases p ! i)")
  show ?thesis
  proof (cases "i < length (leases p)")
    case True
    from sum_list_refs_update [OF True, of l] release_refs [OF r]
    have "sum_list (map refs ((leases p)[i := l])) + call_refs c = sum_list (map refs (leases p))"
      by (auto simp: ac_simps)
    with assms True Release r show ?thesis by (simp add: balanced_def ac_simps)
  qed (use assms Release in simp)
qed

lemma run_balanced: "balanced p \<Longrightarrow> balanced (fold lease_step ops p)"
  by (induction ops arbitrary: p) (simp_all add: lease_step_balanced)

lemma release_all_refs: "mset (List.map_filter (\<lambda>l. fst (release l)) ls) = sum_list (map refs ls)"
  by (induction ls) (auto simp: List.map_filter_simps release_def refs_def holds_def ref_of_def)

text \<open>
  C40: Every route reference is given back exactly once: however leases are assigned, moved between
  variables and released, the deactivations made on the way together with those of the destructors
  at the end are exactly the activations that were granted, for every route.
\<close>

theorem leases_balance:
  "acquired (fold lease_step ops (start_program n)) =
     returned (fold lease_step ops (start_program n)) +
     mset (List.map_filter (\<lambda>l. fst (release l)) (leases (fold lease_step ops (start_program n))))"
proof -
  have none: "sum_list (replicate n {#}) = ({#} :: route_ref multiset)" by (induction n) auto
  have "balanced (start_program n)"
    using none by (simp add: balanced_def start_program_def refs_def holds_def default_lease_def)
  from run_balanced [OF this, of ops] show ?thesis by (simp add: balanced_def release_all_refs)
qed

end
