(* ===== verification/RemoteRouting.thy ===== *)
theory RemoteRouting
  imports RemoteAccessManager RemoteRouteLease HostAddressParse
begin

text \<open>
  Model of \<open>app/src/remote_access/RemoteRouting.hpp\<close> and \<open>.cpp\<close>: how the streaming code turns a host
  address into a route lease and the address it dials.  The provider's \<open>resolveRoute\<close>, the result of
  \<open>activateRoute\<close>, provider names and errors are arguments; what the logging functions append to
  \<open>vpn.log\<close> is their result.
\<close>

section \<open>Acquiring a route\<close>

definition kProxyAddress :: string where
  "kProxyAddress = ''127.0.0.1''"

definition acquireRouteFor :: "Manager \<Rightarrow> (string \<Rightarrow> RemoteRouteTarget option) \<Rightarrow> (RemoteRouteTarget \<Rightarrow> bool) \<Rightarrow>
    string \<Rightarrow> Lease" where
  "acquireRouteFor m resolveRoute activate address =
     (if address = [] then default_lease
      else let providerId = activeProviderId m in
        if providerId = [] then default_lease
        else if providerSlot providerId m = None then default_lease
        else let parsed = parse_host_address address in
          if pa_host parsed = [] then default_lease
          else (case resolveRoute (pa_host parsed) of
                  None \<Rightarrow> default_lease
                | Some target0 \<Rightarrow>
                    let target1 = (if rt_targetAddress target0 = [] then target0\<lparr>rt_targetAddress := pa_host parsed\<rparr> else target0);
                        target = (if rt_connectAddress target1 = [] then target1\<lparr>rt_connectAddress := kProxyAddress\<rparr> else target1);
                        lease = new_lease providerId target (activate target)
                    in if \<not> l_active lease then default_lease else lease))"

definition connectAddressFor :: "Lease \<Rightarrow> string \<Rightarrow> string" where
  "connectAddressFor lease address =
     (if \<not> l_active lease then address
      else (case pa_port (parse_host_address address) of
              Some port \<Rightarrow> kProxyAddress @ '':'' @ to_string (unat port)
            | None \<Rightarrow> kProxyAddress))"

definition routeRefusalReason :: "Manager \<Rightarrow> (string \<Rightarrow> string) \<Rightarrow> Lease \<Rightarrow> string" where
  "routeRefusalReason m lastError lease =
     (if \<not> l_refused lease \<or> l_providerId lease = [] then []
      else if providerSlot (l_providerId lease) m \<noteq> None \<and> lastError (l_providerId lease) \<noteq> []
      then lastError (l_providerId lease)
      else ''tunnel route refused for peer '' @ l_peerId lease)"

section \<open>Log records\<close>

datatype Severity = Info | Error

definition route_provider_label :: "Manager \<Rightarrow> (string \<Rightarrow> string) \<Rightarrow> Lease \<Rightarrow> string" where
  "route_provider_label m name lease =
     (if providerSlot (l_providerId lease) m \<noteq> None then name (l_providerId lease)
      else if l_providerId lease = [] then ''RemoteAccess'' else l_providerId lease)"

definition oneLine :: "string \<Rightarrow> string" where
  "oneLine detail = map (\<lambda>c. if c = CHR 0x0A \<or> c = CHR 0x0D then CHR '' '' else c) detail"

definition logConnectionAttempt :: "Manager \<Rightarrow> (string \<Rightarrow> string) \<Rightarrow> Lease \<Rightarrow> string \<Rightarrow> string \<Rightarrow>
    (string \<times> Severity \<times> string) option" where
  "logConnectionAttempt m name lease requestedAddress dialAddress =
     (if \<not> l_active lease then None
      else Some (route_provider_label m name lease, Info,
             ''GameStream route: requested='' @ requestedAddress @ '' effective='' @ dialAddress @ '' remote='' @ l_peerId lease))"

definition logConnectionResult :: "Manager \<Rightarrow> (string \<Rightarrow> string) \<Rightarrow> Lease \<Rightarrow> string \<Rightarrow> bool \<Rightarrow> string \<Rightarrow>
    (string \<times> Severity \<times> string) option" where
  "logConnectionResult m name lease dialAddress succeeded detail =
     (if \<not> l_active lease \<and> \<not> l_refused lease then None
      else Some (route_provider_label m name lease, if succeeded then Info else Error,
             ''GameStream handshake '' @ (if succeeded then ''succeeded'' else ''failed'') @
             '' for peer '' @ l_peerId lease @ '' via '' @ dialAddress @
             (if oneLine detail \<noteq> [] then '': '' @ oneLine detail else [])))"

definition logProxiedPairingResult :: "string \<Rightarrow> bool \<Rightarrow> string \<Rightarrow> (string \<times> Severity \<times> string) option" where
  "logProxiedPairingResult dialAddress succeeded detail =
     (if dialAddress \<noteq> kProxyAddress then None
      else Some (''Remote'', if succeeded then Info else Error,
             ''Pairing through tunnel '' @ (if succeeded then ''succeeded'' else ''failed'') @
             (if oneLine detail \<noteq> [] then '': '' @ oneLine detail else [])))"

definition logHostSaveResult :: "string \<Rightarrow> string \<Rightarrow> string \<Rightarrow> nat \<Rightarrow> nat \<Rightarrow> bool \<Rightarrow> string \<times> Severity \<times> string" where
  "logHostSaveResult hostname address mac hostsBefore hostsAfter foundAfterSave =
     (''Remote'', if foundAfterSave then Info else Error,
      ''host save: name='' @ hostname @ '' address='' @ address @ '' mac='' @ (if mac = [] then ''none'' else mac) @
      '' hosts '' @ to_string hostsBefore @ '' -> '' @ to_string hostsAfter @
      (if \<not> foundAfterSave then '' (NOT in the saved list)''
       else if hostsAfter = hostsBefore then '' (merged into an existing host with the same name/address)''
       else '' (added)''))"

section \<open>Properties\<close>

lemma connectAddressFor_port:
  "parse_host_address (connectAddressFor lease address) =
     (if l_active lease
      then no_address\<lparr>pa_host := kProxyAddress, pa_isIpv4 := True, pa_port := pa_port (parse_host_address address)\<rparr>
      else parse_host_address address)"
proof (cases "l_active lease")
  case True
  let ?p = "no_address\<lparr>pa_host := kProxyAddress, pa_isIpv4 := True, pa_port := pa_port (parse_host_address address)\<rparr>"
  have ipv4: "looks_like_ipv4 kProxyAddress" by (simp add: kProxyAddress_def looks_like_ipv4_def isdigit_def)
  have "connectAddressFor lease address = format_host_address ?p"
    using True by (simp add: connectAddressFor_def format_host_address_def no_address_def kProxyAddress_def split: option.split)
  moreover have "canonical ?p"
    using ipv4 parse_host_address_port [of address]
    by (auto simp: canonical_def no_address_def kProxyAddress_def isspace_def)
  ultimately show ?thesis using True parse_format by simp
qed (simp add: connectAddressFor_def)

text \<open>
  The address dialled for a tunnelled host is the loopback proxy with the port of the host:
  parsing it gives \<open>127.0.0.1\<close> and the same optional port as the host's own address.  Without an
  active lease the address is dialled unchanged.
\<close>

theorem connectAddressFor_keeps_port:
  "parse_host_address (connectAddressFor lease address) =
     (if l_active lease
      then no_address\<lparr>pa_host := kProxyAddress, pa_isIpv4 := True, pa_port := pa_port (parse_host_address address)\<rparr>
      else parse_host_address address)"
  by (rule connectAddressFor_port)

text \<open>
  A refused route is never reported: \<open>acquireRouteFor\<close> replaces every lease that is not active by
  a default one, so no lease it returns is \<open>refused\<close> and \<open>routeRefusalReason\<close> of it is empty.  A host
  whose tunnel route was refused is therefore dialled at its own address.
\<close>

theorem acquireRouteFor_never_refused:
  "\<not> l_refused (acquireRouteFor m resolveRoute activate address)
   \<and> routeRefusalReason m lastError (acquireRouteFor m resolveRoute activate address) = []
   \<and> ((\<forall>t. \<not> activate t) \<longrightarrow> connectAddressFor (acquireRouteFor m resolveRoute activate address) address = address)"
  by (auto simp: acquireRouteFor_def Let_def default_lease_def new_lease_def routeRefusalReason_def connectAddressFor_def
      split: option.split)

theorem acquireRouteFor_never_refused_witness:
  "connectAddressFor (acquireRouteFor example_manager (\<lambda>a. Some example_target) (\<lambda>t. False) ''100.64.0.2'') ''100.64.0.2'' = ''100.64.0.2''"
  using acquireRouteFor_never_refused [of example_manager "\<lambda>a. Some example_target" "\<lambda>t. False" "''100.64.0.2''"] by simp

end
