(* ===== verification/AddHostPeerFilter.thy ===== *)
theory AddHostPeerFilter
  imports RemoteTypes
begin

text \<open>
  Model of \<open>app/src/remote_access/AddHostPeerFilter.hpp\<close> and \<open>.cpp\<close>: which peers and subnets the Add
  Host screen offers, and the cache of probe results.
\<close>

section \<open>Peers and subnets\<close>

record RemoteAccessPeer =
  rp_providerId :: string
  rp_peerId :: string
  rp_name :: string
  rp_address :: string
  rp_online :: bool
  rp_metadata :: string
  rp_os :: string
  rp_tcpPortsKnown :: bool
  rp_tcpPorts :: "u16 list"
  rp_subnets :: "string list"

datatype PeerVerdict = Hidden | Host | Probe

definition kGameStreamHttpPort :: u16 where "kGameStreamHttpPort = 47989"
definition kGameStreamHttpsPort :: u16 where "kGameStreamHttpsPort = 47984"

definition isMobileOs :: "string \<Rightarrow> bool" where
  "isMobileOs os = (map tolower os \<in> {''android'', ''ios'', ''ipados''})"

definition classifyPeerForAddHost :: "RemoteAccessPeer \<Rightarrow> PeerVerdict" where
  "classifyPeerForAddHost peer =
     (if \<not> rp_online peer \<or> rp_address peer = [] then Hidden
      else if isMobileOs (rp_os peer) then Hidden
      else if rp_tcpPortsKnown peer \<and>
              list_ex (\<lambda>port. port = kGameStreamHttpPort \<or> port = kGameStreamHttpsPort) (rp_tcpPorts peer) then Host
      else Probe)"

definition peerDisplayName :: "RemoteAccessPeer \<Rightarrow> string" where
  "peerDisplayName peer =
     (let name = (if rp_name peer = [] then rp_address peer else rp_name peer);
          name = rev (dropWhile (\<lambda>c. c = CHR ''.'') (rev name))
      in if name = [] then rp_address peer else name)"

fun prefix_octets :: "nat \<Rightarrow> string \<Rightarrow> string option" where
  "prefix_octets 0 network = Some []"
| "prefix_octets (Suc n) network =
     (case cut (CHR ''.'') network of
        (_, None) \<Rightarrow> None
      | (octet, Some rest) \<Rightarrow> map_option (\<lambda>out. octet @ ''.'' @ out) (prefix_octets n rest))"

definition subnetInputPrefix :: "string \<Rightarrow> string" where
  "subnetInputPrefix cidr =
     (case cut (CHR ''/'') cidr of
        (_, None) \<Rightarrow> []
      | (network, Some prefixText) \<Rightarrow>
          (case from_chars_int prefixText of
             None \<Rightarrow> []
           | Some (bits, rest) \<Rightarrow>
               if rest \<noteq> [] \<or> bits < 8 \<or> bits > 32 then []
               else (case prefix_octets (nat (min (bits div 8) 3)) network of None \<Rightarrow> [] | Some out \<Rightarrow> out)))"

record SubnetShortcut =
  ss_subnet :: string
  ss_inputPrefix :: string
  ss_viaName :: string

definition add_subnet :: "RemoteAccessPeer \<Rightarrow> string \<Rightarrow> SubnetShortcut list \<Rightarrow> SubnetShortcut list" where
  "add_subnet peer subnet out =
     (let prefix = subnetInputPrefix subnet in
      if prefix = [] then out
      else if list_ex (\<lambda>s. ss_subnet s = subnet) out then out
      else out @ [\<lparr>ss_subnet = subnet, ss_inputPrefix = prefix, ss_viaName = peerDisplayName peer\<rparr>])"

definition subnetShortcuts :: "RemoteAccessPeer list \<Rightarrow> SubnetShortcut list" where
  "subnetShortcuts peers =
     fold (\<lambda>peer out. if \<not> rp_online peer then out else fold (add_subnet peer) (rp_subnets peer) out) peers []"

section \<open>Probe results\<close>

record ProbeEntry =
  pe_isHost :: bool
  pe_at :: time_point

type_synonym ProbeCache = "string \<rightharpoonup> ProbeEntry"

definition kNegativeTtl :: int where
  "kNegativeTtl = 10 * 60 * 1000000000"

definition ProbeCache_lookup :: "string \<Rightarrow> time_point \<Rightarrow> ProbeCache \<Rightarrow> bool option" where
  "ProbeCache_lookup peerId now c =
     (case c peerId of
        None \<Rightarrow> None
      | Some e \<Rightarrow> if \<not> pe_isHost e \<and> now - pe_at e > kNegativeTtl then None else Some (pe_isHost e))"

definition ProbeCache_store :: "string \<Rightarrow> bool \<Rightarrow> time_point \<Rightarrow> ProbeCache \<Rightarrow> ProbeCache" where
  "ProbeCache_store peerId isHost now c = c(peerId \<mapsto> \<lparr>pe_isHost = isHost, pe_at = now\<rparr>)"

definition ProbeCache_forgetMisses :: "ProbeCache \<Rightarrow> ProbeCache" where
  "ProbeCache_forgetMisses c = (\<lambda>k. case c k of None \<Rightarrow> None | Some e \<Rightarrow> if pe_isHost e then Some e else None)"

definition ProbeCache_clear :: "ProbeCache \<Rightarrow> ProbeCache" where
  "ProbeCache_clear c = Map.empty"

section \<open>The offered subnets\<close>

definition offered :: "RemoteAccessPeer list \<Rightarrow> string set" where
  "offered peers = {s. \<exists>p \<in> set peers. rp_online p \<and> s \<in> set (rp_subnets p) \<and> subnetInputPrefix s \<noteq> []}"

definition shortcuts_ok :: "string set \<Rightarrow> SubnetShortcut list \<Rightarrow> bool" where
  "shortcuts_ok S out = (distinct (map ss_subnet out) \<and> ss_subnet ` set out = S \<and>
     (\<forall>s \<in> set out. ss_inputPrefix s = subnetInputPrefix (ss_subnet s)))"

lemma add_subnet_ok:
  "shortcuts_ok S out \<Longrightarrow> shortcuts_ok (S \<union> (if subnetInputPrefix s \<noteq> [] then {s} else {})) (add_subnet p s out)"
  by (auto simp: shortcuts_ok_def add_subnet_def Let_def list_ex_iff)

lemma fold_add_subnet_ok:
  "shortcuts_ok S out \<Longrightarrow> shortcuts_ok (S \<union> {s \<in> set ss. subnetInputPrefix s \<noteq> []}) (fold (add_subnet p) ss out)"
proof (induction ss arbitrary: S out)
  case (Cons s ss)
  have "S \<union> (if subnetInputPrefix s \<noteq> [] then {s} else {}) \<union> {s \<in> set ss. subnetInputPrefix s \<noteq> []} =
      S \<union> {t \<in> set (s # ss). subnetInputPrefix t \<noteq> []}" by auto
  with Cons.IH [OF add_subnet_ok [OF Cons.prems, of s p]] show ?case by simp
qed simp

lemma fold_peers_ok:
  "shortcuts_ok S out \<Longrightarrow> shortcuts_ok (S \<union> offered peers)
     (fold (\<lambda>peer out. if \<not> rp_online peer then out else fold (add_subnet peer) (rp_subnets peer) out) peers out)"
proof (induction peers arbitrary: S out)
  case Nil
  then show ?case by (simp add: offered_def)
next
  case (Cons p peers)
  show ?case
  proof (cases "rp_online p")
    case True
    have "S \<union> {s \<in> set (rp_subnets p). subnetInputPrefix s \<noteq> []} \<union> offered peers = S \<union> offered (p # peers)"
      using True by (auto simp: offered_def)
    with True Cons.IH [OF fold_add_subnet_ok [OF Cons.prems, of "rp_subnets p" p]] show ?thesis by simp
  next
    case False
    then have "offered (p # peers) = offered peers" by (auto simp: offered_def)
    with False Cons show ?thesis by simp
  qed
qed

text \<open>
  The Add Host screen offers every subnet that an online peer shares and that gives an input
  prefix, each exactly once, and no other, with its own prefix.
\<close>

theorem subnetShortcuts_offered:
  "distinct (map ss_subnet (subnetShortcuts peers)) \<and> ss_subnet ` set (subnetShortcuts peers) = offered peers
   \<and> (\<forall>s \<in> set (subnetShortcuts peers). ss_inputPrefix s = subnetInputPrefix (ss_subnet s))"
  using fold_peers_ok [of "{}" "[]" peers] by (simp add: shortcuts_ok_def subnetShortcuts_def)

theorem subnetShortcuts_offered_witness:
  "\<forall>s \<in> set (subnetShortcuts []). ss_inputPrefix s = subnetInputPrefix (ss_subnet s)"
  using subnetShortcuts_offered [of "[]"] by blast

section \<open>The probe cache\<close>

datatype probe_event = StoreProbe string bool | ForgetMisses | ClearProbes

fun probe_step :: "time_point \<times> probe_event \<Rightarrow> ProbeCache \<Rightarrow> ProbeCache" where
  "probe_step (t, StoreProbe p b) c = ProbeCache_store p b t c"
| "probe_step (t, ForgetMisses) c = ProbeCache_forgetMisses c"
| "probe_step (t, ClearProbes) c = ProbeCache_clear c"

text \<open>What the history says about a peer: its last answer, unless it was dropped since.\<close>

fun last_answer :: "string \<Rightarrow> (time_point \<times> probe_event) list \<Rightarrow> (bool \<times> time_point) option" where
  "last_answer p [] = None"
| "last_answer p ((t, StoreProbe q b) # evs) = (if q = p then Some (b, t) else last_answer p evs)"
| "last_answer p ((t, ForgetMisses) # evs) =
     (case last_answer p evs of Some (True, u) \<Rightarrow> Some (True, u) | _ \<Rightarrow> None)"
| "last_answer p ((t, ClearProbes) # evs) = None"

lemma run_last_answer:
  "fold probe_step evs Map.empty p = map_option (\<lambda>(b, t). \<lparr>pe_isHost = b, pe_at = t\<rparr>) (last_answer p (rev evs))"
proof (induction evs rule: rev_induct)
  case Nil
  then show ?case by simp
next
  case (snoc x evs)
  obtain t e where x: "x = (t, e)" by (cases x)
  show ?case
  proof (cases e)
    case (StoreProbe q b)
    with snoc x show ?thesis by (auto simp: ProbeCache_store_def)
  next
    case ForgetMisses
    obtain a where a: "last_answer p (rev evs) = a" by blast
    show ?thesis
      using snoc x ForgetMisses a
      by (cases a) (auto simp: ProbeCache_forgetMisses_def split: bool.splits)
  next
    case ClearProbes
    with x show ?thesis by (simp add: ProbeCache_clear_def)
  qed
qed

text \<open>
  The probe cache answers from the history: a lookup after any sequence of operations gives the
  last stored answer of the peer since the cache was cleared; a positive answer never expires and
  survives \<open>forgetMisses\<close>, a negative one is dropped by \<open>forgetMisses\<close> and expires after ten minutes.
\<close>

theorem ProbeCache_lookup_history:
  "ProbeCache_lookup p now (fold probe_step evs Map.empty) =
     (case last_answer p (rev evs) of
        None \<Rightarrow> None
      | Some (True, t) \<Rightarrow> Some True
      | Some (False, t) \<Rightarrow> if now - t \<le> kNegativeTtl then Some False else None)"
  by (auto simp: ProbeCache_lookup_def run_last_answer split: option.split bool.split)

end
