(* ===== verification/WireGuardConfig.thy ===== *)
theory WireGuardConfig
  imports HostAddressParse
begin

text \<open>
  Model of \<open>app/src/vpn/WireGuardConfig.hpp\<close> and \<open>.cpp\<close>: parsing a WireGuard \<open>.conf\<close>, validating it,
  and deciding whether an IPv4 host is covered by the peer's \<open>AllowedIPs\<close>.  \<open>load_text_file\<close> (file
  input) and \<open>wireguard_scrub\<close> (clearing memory before it is freed) have no functional content.
\<close>

section \<open>Data\<close>

record WireGuardPeerConfig =
  wp_publicKey :: string
  wp_presharedKey :: string
  wp_endpoint :: string
  wp_allowedIps :: string
  wp_persistentKeepalive :: int

record WireGuardConfig =
  wg_privateKey :: string
  wg_address :: string
  wg_dns :: string
  wg_listenPort :: int
  wg_mtu :: int
  wg_peers :: "WireGuardPeerConfig list"

datatype Problem =
    NoProblem | MissingPrivateKey | MalformedPrivateKey | MissingAddress | MalformedAddress | NoPeers
  | MultiplePeersUnsupported | MissingPeerPublicKey | MalformedPeerPublicKey | MalformedPeerPresharedKey
  | MalformedEndpoint | InvalidListenPort | InvalidKeepalive | InvalidMtu

definition empty_peer :: WireGuardPeerConfig where
  "empty_peer = \<lparr>wp_publicKey = [], wp_presharedKey = [], wp_endpoint = [], wp_allowedIps = [], wp_persistentKeepalive = 0\<rparr>"

definition empty_config :: WireGuardConfig where
  "empty_config = \<lparr>wg_privateKey = [], wg_address = [], wg_dns = [], wg_listenPort = 0, wg_mtu = 0, wg_peers = []\<rparr>"

section \<open>Scanning\<close>

text \<open>\<open>std::stol\<close>: white space, a sign, digits; \<open>None\<close> for an exception, else the value and the rest.\<close>

definition stol :: "string \<Rightarrow> (int \<times> string) option" where
  "stol s =
     (let t = dropWhile isspace s;
          neg = (t \<noteq> [] \<and> hd t = CHR ''-'');
          u = (if t \<noteq> [] \<and> (hd t = CHR ''-'' \<or> hd t = CHR ''+'') then tl t else t);
          ds = takeWhile isdigit u;
          v = (if neg then - int (dec_value ds) else int (dec_value ds))
      in if ds = [] \<or> v < - 9223372036854775808 \<or> v > 9223372036854775807 then None
         else Some (v, dropWhile isdigit u))"

definition parse_int :: "string \<Rightarrow> int option" where
  "parse_int s =
     (if s = [] then None
      else (case stol s of
              None \<Rightarrow> None
            | Some (parsed, rest) \<Rightarrow> if rest \<noteq> [] \<or> parsed < 0 \<or> parsed > 0x7fffffff then None else Some parsed))"

definition looks_like_wg_key :: "string \<Rightarrow> bool" where
  "looks_like_wg_key s =
     (length s = 44 \<and> last s = CHR ''='' \<and>
      list_all (\<lambda>c. isalnum c \<or> c = CHR ''+'' \<or> c = CHR ''/'') (take 43 s))"

definition valid_octet :: "string \<Rightarrow> bool" where
  "valid_octet part = (part \<noteq> [] \<and> length part \<le> 3 \<and> list_all isdigit part \<and>
     (case parse_int part of None \<Rightarrow> False | Some n \<Rightarrow> n \<le> 255))"

definition valid_ipv4 :: "string \<Rightarrow> bool" where
  "valid_ipv4 s = (let ps = pieces (CHR ''.'') s in list_all valid_octet ps \<and> length ps = 4)"

fun ipv4_value :: "nat \<Rightarrow> string \<Rightarrow> u32 \<Rightarrow> u32 option" where
  "ipv4_value 0 s result = Some result"
| "ipv4_value (Suc n) s result =
     (case cut (CHR ''.'') s of
        (part, rest) \<Rightarrow>
          (case parse_int part of
             None \<Rightarrow> None
           | Some number \<Rightarrow> ipv4_value n (case rest of None \<Rightarrow> [] | Some r \<Rightarrow> r) (push_bit 8 result OR word_of_int number)))"

definition parse_ipv4 :: "string \<Rightarrow> u32 option" where
  "parse_ipv4 s = (if \<not> valid_ipv4 s then None else ipv4_value 4 s 0)"

definition valid_address_entry :: "string \<Rightarrow> bool" where
  "valid_address_entry entry0 =
     (let entry = trim entry0 in
      entry \<noteq> [] \<and>
      (case cut (CHR ''/'') entry of
         (host, slash) \<Rightarrow>
           (case slash of
              None \<Rightarrow> True
            | Some prefixText \<Rightarrow>
                (case parse_int prefixText of
                   None \<Rightarrow> False
                 | Some prefix \<Rightarrow> \<not> prefix > (if CHR '':'' \<in> set host then 128 else 32))) \<and>
           (if CHR '':'' \<in> set host then list_all (\<lambda>c. isxdigit c \<or> c = CHR '':'') host else valid_ipv4 host)))"

definition valid_address :: "string \<Rightarrow> bool" where
  "valid_address s = (s \<noteq> [] \<and> list_all valid_address_entry (pieces (CHR '','') s))"

definition valid_endpoint :: "string \<Rightarrow> bool" where
  "valid_endpoint s =
     (case rcut (CHR '':'') s of
        None \<Rightarrow> False
      | Some (host, portText) \<Rightarrow>
          host \<noteq> [] \<and> portText \<noteq> [] \<and>
          (case parse_int portText of None \<Rightarrow> False | Some port \<Rightarrow> port \<ge> 1 \<and> port \<le> 65535))"

section \<open>Validation\<close>

fun validate_peers :: "WireGuardPeerConfig list \<Rightarrow> Problem" where
  "validate_peers [] = NoProblem"
| "validate_peers (peer # ps) =
     (if wp_publicKey peer = [] then MissingPeerPublicKey
      else if \<not> looks_like_wg_key (wp_publicKey peer) then MalformedPeerPublicKey
      else if wp_presharedKey peer \<noteq> [] \<and> \<not> looks_like_wg_key (wp_presharedKey peer) then MalformedPeerPresharedKey
      else if wp_endpoint peer \<noteq> [] \<and> \<not> valid_endpoint (wp_endpoint peer) then MalformedEndpoint
      else if wp_persistentKeepalive peer < 0 \<or> wp_persistentKeepalive peer > 65535 then InvalidKeepalive
      else validate_peers ps)"

definition validate :: "WireGuardConfig \<Rightarrow> Problem" where
  "validate c =
     (if wg_privateKey c = [] then MissingPrivateKey
      else if \<not> looks_like_wg_key (wg_privateKey c) then MalformedPrivateKey
      else if wg_address c = [] then MissingAddress
      else if \<not> valid_address (wg_address c) then MalformedAddress
      else if wg_listenPort c \<noteq> 0 \<and> (wg_listenPort c < 1 \<or> wg_listenPort c > 65535) then InvalidListenPort
      else if wg_mtu c \<noteq> 0 \<and> (wg_mtu c < 576 \<or> wg_mtu c > 1500) then InvalidMtu
      else if wg_peers c = [] then NoPeers
      else (case validate_peers (wg_peers c) of
              NoProblem \<Rightarrow> if length (wg_peers c) > 1 then MultiplePeersUnsupported else NoProblem
            | p \<Rightarrow> p))"

section \<open>AllowedIPs\<close>

definition allowed_entry :: "u32 \<Rightarrow> string \<Rightarrow> bool" where
  "allowed_entry candidate entry0 =
     (let entry = trim entry0 in
      entry \<noteq> [] \<and> CHR '':'' \<notin> set entry \<and>
      (case cut (CHR ''/'') entry of
         (host, slash) \<Rightarrow>
           let prefix = (case slash of
                 None \<Rightarrow> 32
               | Some prefixText \<Rightarrow>
                   (case parse_int prefixText of None \<Rightarrow> -1 | Some p \<Rightarrow> if p > 32 then -1 else p))
           in (case parse_ipv4 host of
                 None \<Rightarrow> False
               | Some network \<Rightarrow>
                   prefix \<ge> 0 \<and>
                   (let mask = (if prefix = 0 then 0 else push_bit (nat (32 - prefix)) 0xffffffff)
                    in candidate AND mask = network AND mask))))"

definition wireguard_ipv4_matches_allowed_ips :: "string \<Rightarrow> string \<Rightarrow> bool" where
  "wireguard_ipv4_matches_allowed_ips address allowedIps =
     (case parse_ipv4 (trim address) of
        None \<Rightarrow> False
      | Some candidate \<Rightarrow>
          if allowedIps = [] then False else list_ex (allowed_entry candidate) (pieces (CHR '','') allowedIps))"

section \<open>Parsing\<close>

datatype Section = NoSection | InterfaceSection | PeerSection

record ParserState =
  ps_config :: WireGuardConfig
  ps_section :: Section
  ps_peer :: WireGuardPeerConfig
  ps_badListenPort :: bool
  ps_badMtu :: bool
  ps_badKeepalive :: bool

definition flushPeer :: "ParserState \<Rightarrow> ParserState" where
  "flushPeer st =
     (let st1 = (if ps_section st = PeerSection \<and> wp_publicKey (ps_peer st) \<noteq> []
                 then st\<lparr>ps_config := (ps_config st)\<lparr>wg_peers := wg_peers (ps_config st) @ [ps_peer st]\<rparr>\<rparr> else st)
      in st1\<lparr>ps_peer := empty_peer\<rparr>)"

definition interface_key :: "string \<Rightarrow> string \<Rightarrow> ParserState \<Rightarrow> ParserState" where
  "interface_key key v st =
     (let c = ps_config st in
      if key = ''privatekey'' then st\<lparr>ps_config := c\<lparr>wg_privateKey := v\<rparr>\<rparr>
      else if key = ''address'' then st\<lparr>ps_config := c\<lparr>wg_address := v\<rparr>\<rparr>
      else if key = ''dns'' then st\<lparr>ps_config := c\<lparr>wg_dns := v\<rparr>\<rparr>
      else if key = ''listenport'' then
        (case parse_int v of None \<Rightarrow> st\<lparr>ps_badListenPort := True\<rparr> | Some n \<Rightarrow> st\<lparr>ps_config := c\<lparr>wg_listenPort := n\<rparr>\<rparr>)
      else if key = ''mtu'' then
        (case parse_int v of None \<Rightarrow> st\<lparr>ps_badMtu := True\<rparr> | Some n \<Rightarrow> st\<lparr>ps_config := c\<lparr>wg_mtu := n\<rparr>\<rparr>)
      else st)"

definition peer_key :: "string \<Rightarrow> string \<Rightarrow> ParserState \<Rightarrow> ParserState" where
  "peer_key key v st =
     (let p = ps_peer st in
      if key = ''publickey'' then st\<lparr>ps_peer := p\<lparr>wp_publicKey := v\<rparr>\<rparr>
      else if key = ''presharedkey'' then st\<lparr>ps_peer := p\<lparr>wp_presharedKey := v\<rparr>\<rparr>
      else if key = ''endpoint'' then st\<lparr>ps_peer := p\<lparr>wp_endpoint := v\<rparr>\<rparr>
      else if key = ''allowedips'' then st\<lparr>ps_peer := p\<lparr>wp_allowedIps := v\<rparr>\<rparr>
      else if key = ''persistentkeepalive'' then
        (case parse_int v of None \<Rightarrow> st\<lparr>ps_badKeepalive := True\<rparr> | Some n \<Rightarrow> st\<lparr>ps_peer := p\<lparr>wp_persistentKeepalive := n\<rparr>\<rparr>)
      else st)"

definition process_line :: "string \<Rightarrow> ParserState \<Rightarrow> ParserState" where
  "process_line line0 st =
     (let line = trim (takeWhile (\<lambda>c. c \<noteq> CHR ''#'' \<and> c \<noteq> CHR '';'') line0) in
      if line = [] then st
      else if hd line = CHR ''['' then
        let header = map tolower line in
        if header = ''[interface]'' then (flushPeer st)\<lparr>ps_section := InterfaceSection\<rparr>
        else if header = ''[peer]'' then (flushPeer st)\<lparr>ps_section := PeerSection\<rparr>
        else (flushPeer st)\<lparr>ps_section := NoSection\<rparr>
      else (case cut (CHR ''='') line of
              (_, None) \<Rightarrow> st
            | (before, Some after) \<Rightarrow>
                let key = map tolower (trim before); v = trim after in
                if ps_section st = InterfaceSection then interface_key key v st
                else if ps_section st = PeerSection then peer_key key v st
                else st))"

text \<open>\<open>std::getline\<close>: no line behind a final line feed.\<close>

definition getlines :: "string \<Rightarrow> string list" where
  "getlines s = (let ps = pieces (CHR 0x0A) s in if last ps = [] then butlast ps else ps)"

definition parse_wireguard_conf :: "string \<Rightarrow> WireGuardConfig" where
  "parse_wireguard_conf s =
     (let st = flushPeer (fold process_line (getlines s)
            \<lparr>ps_config = empty_config, ps_section = NoSection, ps_peer = empty_peer,
             ps_badListenPort = False, ps_badMtu = False, ps_badKeepalive = False\<rparr>);
          c = ps_config st;
          c = (if ps_badListenPort st then c\<lparr>wg_listenPort := -1\<rparr> else c);
          c = (if ps_badMtu st then c\<lparr>wg_mtu := -1\<rparr> else c)
      in if ps_badKeepalive st \<and> wg_peers c \<noteq> []
         then c\<lparr>wg_peers := (hd (wg_peers c))\<lparr>wp_persistentKeepalive := -1\<rparr> # tl (wg_peers c)\<rparr> else c)"

section \<open>Messages\<close>

definition wireguard_problem_i18n_key :: "Problem \<Rightarrow> string" where
  "wireguard_problem_i18n_key p = ''artemis/settings/wireguard_problem_'' @
     (case p of
        NoProblem \<Rightarrow> ''none''
      | MissingPrivateKey \<Rightarrow> ''missing_private_key''
      | MalformedPrivateKey \<Rightarrow> ''malformed_private_key''
      | MissingAddress \<Rightarrow> ''missing_address''
      | MalformedAddress \<Rightarrow> ''malformed_address''
      | NoPeers \<Rightarrow> ''no_peers''
      | MultiplePeersUnsupported \<Rightarrow> ''multiple_peers''
      | MissingPeerPublicKey \<Rightarrow> ''missing_peer_key''
      | MalformedPeerPublicKey \<Rightarrow> ''malformed_peer_key''
      | MalformedPeerPresharedKey \<Rightarrow> ''malformed_psk''
      | MalformedEndpoint \<Rightarrow> ''malformed_endpoint''
      | InvalidListenPort \<Rightarrow> ''listen_port''
      | InvalidKeepalive \<Rightarrow> ''keepalive''
      | InvalidMtu \<Rightarrow> ''mtu'')"

section \<open>Numbers\<close>

lemma to_string_hd: "isdigit (hd (to_string n))"
  by (rule to_string_digits [OF hd_in_set]) simp

lemma parse_int_to_string:
  assumes "0 \<le> n" "n \<le> 0x7fffffff"
  shows "parse_int (to_string (nat n)) = Some n"
proof -
  let ?s = "to_string (nat n)"
  have h: "\<not> isspace (hd ?s)" "hd ?s \<noteq> CHR ''-''" "hd ?s \<noteq> CHR ''+''"
    using to_string_hd [of "nat n"] by (auto simp: isdigit_def isspace_def)
  then have "dropWhile isspace ?s = ?s" by (intro dropWhile_id) simp
  then have "stol ?s = Some (n, [])" using assms h by (simp add: stol_def Let_def)
  then show ?thesis using assms by (simp add: parse_int_def)
qed

section \<open>Writing a configuration\<close>

text \<open>The lines of a configuration file with the given contents.\<close>

definition kv :: "string \<Rightarrow> string \<Rightarrow> string" where
  "kv key v = key @ '' = '' @ v"

definition interface_lines :: "WireGuardConfig \<Rightarrow> string list" where
  "interface_lines c = [''[Interface]'', kv ''PrivateKey'' (wg_privateKey c), kv ''Address'' (wg_address c),
     kv ''DNS'' (wg_dns c), kv ''ListenPort'' (to_string (nat (wg_listenPort c))), kv ''MTU'' (to_string (nat (wg_mtu c)))]"

definition peer_lines :: "WireGuardPeerConfig \<Rightarrow> string list" where
  "peer_lines p = [''[Peer]'', kv ''PublicKey'' (wp_publicKey p), kv ''PresharedKey'' (wp_presharedKey p),
     kv ''Endpoint'' (wp_endpoint p), kv ''AllowedIPs'' (wp_allowedIps p),
     kv ''PersistentKeepalive'' (to_string (nat (wp_persistentKeepalive p)))]"

definition config_text :: "WireGuardConfig \<Rightarrow> string" where
  "config_text c = concat (map (\<lambda>l. l @ [CHR 0x0A]) (interface_lines c @ concat (map peer_lines (wg_peers c))))"

text \<open>A value that a line can carry: no line feed or comment sign, no white space at its ends.\<close>

definition plain_value :: "string \<Rightarrow> bool" where
  "plain_value v = (trim v = v \<and> CHR 0x0A \<notin> set v \<and> CHR ''#'' \<notin> set v \<and> CHR '';'' \<notin> set v)"

definition number_ok :: "int \<Rightarrow> bool" where
  "number_ok n = (0 \<le> n \<and> n \<le> 0x7fffffff)"

definition peer_writable :: "WireGuardPeerConfig \<Rightarrow> bool" where
  "peer_writable p = (wp_publicKey p \<noteq> [] \<and> plain_value (wp_publicKey p) \<and> plain_value (wp_presharedKey p) \<and>
     plain_value (wp_endpoint p) \<and> plain_value (wp_allowedIps p) \<and> number_ok (wp_persistentKeepalive p))"

definition config_writable :: "WireGuardConfig \<Rightarrow> bool" where
  "config_writable c = (plain_value (wg_privateKey c) \<and> plain_value (wg_address c) \<and> plain_value (wg_dns c) \<and>
     number_ok (wg_listenPort c) \<and> number_ok (wg_mtu c) \<and> list_all peer_writable (wg_peers c))"

definition plain_key :: "string \<Rightarrow> bool" where
  "plain_key k = (k \<noteq> [] \<and> list_all isalnum k)"

lemma isalnum_plain: "isalnum c \<Longrightarrow> \<not> isspace c \<and> c \<noteq> CHR ''='' \<and> c \<noteq> CHR ''#'' \<and> c \<noteq> CHR '';'' \<and> c \<noteq> CHR ''['' \<and> c \<noteq> CHR 0x0A"
  by (auto simp: isalnum_def isdigit_def isupper_def islower_def isspace_def)

lemma isspace_space: "isspace (CHR '' '')"
  by (simp add: isspace_def)

lemma trim_last: "trim v = v \<Longrightarrow> v \<noteq> [] \<Longrightarrow> \<not> isspace (last v)"
proof
  assume t: "trim v = v" and ne: "v \<noteq> []" and sp: "isspace (last v)"
  let ?w = "rev (dropWhile isspace v)"
  from t have w: "rev (dropWhile isspace ?w) = v" by (simp add: trim_def)
  then have d: "dropWhile isspace ?w = rev v" by (metis rev_rev_ident)
  then have "dropWhile isspace ?w \<noteq> []" using ne by simp
  then have "\<not> isspace (hd (dropWhile isspace ?w))" by (rule hd_dropWhile)
  with d ne sp show False by (simp add: hd_rev)
qed

lemma trim_key: "plain_key k \<Longrightarrow> trim k = k \<and> trim (k @ '' '') = k"
proof -
  assume k: "plain_key k"
  then have ne: "k \<noteq> []" "\<not> isspace (hd k)" "\<not> isspace (last k)"
    using isalnum_plain by (auto simp: plain_key_def list_all_iff)
  have "dropWhile isspace (k @ '' '') = k @ '' ''" using ne by (intro dropWhile_id) auto
  moreover have "dropWhile isspace (rev k) = rev k" using ne by (intro dropWhile_id) (auto simp: hd_rev)
  ultimately show ?thesis using ne trim_id by (simp add: trim_def isspace_space)
qed

lemma trim_space_value: "trim v = v \<Longrightarrow> trim (CHR '' '' # v) = v"
  by (simp add: trim_def isspace_space)

lemma kv_trim:
  assumes "plain_key k" "plain_value v"
  shows "trim (kv k v) = (if v = [] then k @ '' ='' else kv k v)"
proof (cases "v = []")
  case True
  from assms(1) have ne: "k \<noteq> []" "\<not> isspace (hd k)" using isalnum_plain by (auto simp: plain_key_def list_all_iff)
  have "dropWhile isspace (k @ '' = '') = k @ '' = ''" using ne by (intro dropWhile_id) auto
  with True show ?thesis by (simp add: kv_def trim_def isspace_def)
next
  case False
  from assms(1) have "k \<noteq> []" "\<not> isspace (hd k)" using isalnum_plain by (auto simp: plain_key_def list_all_iff)
  moreover have "\<not> isspace (last v)" using trim_last False assms(2) by (auto simp: plain_value_def)
  ultimately have "trim (kv k v) = kv k v" using False by (intro trim_id) (auto simp: kv_def)
  with False show ?thesis by simp
qed

lemma process_kv:
  assumes "plain_key k" "plain_value v"
  shows "process_line (kv k v) st =
    (if ps_section st = InterfaceSection then interface_key (map tolower k) v st
     else if ps_section st = PeerSection then peer_key (map tolower k) v st else st)"
proof -
  have chars: "c \<in> set k \<Longrightarrow> c \<noteq> CHR ''='' \<and> c \<noteq> CHR ''#'' \<and> c \<noteq> CHR '';'' \<and> c \<noteq> CHR ''[''" for c
    using assms(1) isalnum_plain by (auto simp: plain_key_def list_all_iff)
  have comment: "takeWhile (\<lambda>c. c \<noteq> CHR ''#'' \<and> c \<noteq> CHR '';'') (kv k v) = kv k v"
    using chars assms(2) by (auto simp: takeWhile_eq_all_conv kv_def plain_value_def)
  have ne: "k \<noteq> []" using assms(1) by (simp add: plain_key_def)
  let ?l = "trim (kv k v)"
  have l: "?l = (k @ '' '') @ CHR ''='' # (if v = [] then [] else CHR '' '' # v)"
    unfolding kv_trim [OF assms] by (simp add: kv_def)
  have "cut (CHR ''='') ?l = (k @ '' '', Some (if v = [] then [] else CHR '' '' # v))"
    unfolding l using chars by (intro cut_append_sep) auto
  moreover have "hd ?l \<noteq> CHR ''[''" "?l \<noteq> []" unfolding l using chars ne by (auto simp: neq_Nil_conv)
  moreover have "trim (if v = [] then [] else CHR '' '' # v) = v"
    using trim_space_value assms(2) by (auto simp: plain_value_def trim_def [of "[]"])
  ultimately show ?thesis
    using trim_key [OF assms(1)] unfolding process_line_def comment Let_def by simp
qed

lemma plain_keys:
  "plain_key ''PrivateKey''" "plain_key ''Address''" "plain_key ''DNS''" "plain_key ''ListenPort''" "plain_key ''MTU''"
  "plain_key ''PublicKey''" "plain_key ''PresharedKey''" "plain_key ''Endpoint''" "plain_key ''AllowedIPs''"
  "plain_key ''PersistentKeepalive''"
  by (simp_all add: plain_key_def isalnum_def isdigit_def isupper_def islower_def)

lemma lower_keys:
  "map tolower ''PrivateKey'' = ''privatekey''" "map tolower ''Address'' = ''address''" "map tolower ''DNS'' = ''dns''"
  "map tolower ''ListenPort'' = ''listenport''" "map tolower ''MTU'' = ''mtu''" "map tolower ''PublicKey'' = ''publickey''"
  "map tolower ''PresharedKey'' = ''presharedkey''" "map tolower ''Endpoint'' = ''endpoint''"
  "map tolower ''AllowedIPs'' = ''allowedips''" "map tolower ''PersistentKeepalive'' = ''persistentkeepalive''"
  by (simp_all add: tolower_def isupper_def char_of_eq_iff)

lemma process_headers:
  "process_line ''[Interface]'' st = (flushPeer st)\<lparr>ps_section := InterfaceSection\<rparr>"
  "process_line ''[Peer]'' st = (flushPeer st)\<lparr>ps_section := PeerSection\<rparr>"
  by (simp_all add: process_line_def trim_def isspace_def tolower_def isupper_def char_of_eq_iff)

lemma plain_number: "plain_value (to_string n)"
proof -
  have d: "c \<in> set (to_string n) \<Longrightarrow> isdigit c" for c by (rule to_string_digits)
  have ne: "to_string n \<noteq> []" by simp
  have "\<not> isspace (hd (to_string n))" "\<not> isspace (last (to_string n))"
    using d [OF hd_in_set [OF ne]] d [OF last_in_set [OF ne]] digit_not_space by blast+
  then have "trim (to_string n) = to_string n" using ne by (intro trim_id)
  moreover have "CHR 0x0A \<notin> set (to_string n)" "CHR ''#'' \<notin> set (to_string n)" "CHR '';'' \<notin> set (to_string n)"
    by (rule digits_no_sep; simp add: isdigit_def)+
  ultimately show ?thesis by (simp add: plain_value_def)
qed

section \<open>Round trip\<close>

lemmas parser_simps = process_kv [OF plain_keys(1)] process_kv [OF plain_keys(2)] process_kv [OF plain_keys(3)]
  process_kv [OF plain_keys(4)] process_kv [OF plain_keys(5)] process_kv [OF plain_keys(6)] process_kv [OF plain_keys(7)]
  process_kv [OF plain_keys(8)] process_kv [OF plain_keys(9)] process_kv [OF plain_keys(10)]
  lower_keys plain_number process_headers

lemma peer_block:
  assumes "peer_writable p"
  shows "fold process_line (peer_lines p) st = (flushPeer st)\<lparr>ps_section := PeerSection, ps_peer := p\<rparr>"
proof -
  have "ps_peer (flushPeer st) = empty_peer" by (simp add: flushPeer_def Let_def)
  moreover have "parse_int (to_string (nat (wp_persistentKeepalive p))) = Some (wp_persistentKeepalive p)"
    using assms by (intro parse_int_to_string) (auto simp: peer_writable_def number_ok_def)
  ultimately show ?thesis
    using assms by (simp add: peer_lines_def parser_simps peer_key_def peer_writable_def empty_peer_def del: list.map)
qed

lemma peer_blocks:
  assumes "list_all peer_writable ps"
  shows "flushPeer (fold process_line (concat (map peer_lines ps)) st) =
    (if ps = [] then flushPeer st
     else (flushPeer st)\<lparr>ps_section := PeerSection, ps_config := (ps_config (flushPeer st))\<lparr>wg_peers := wg_peers (ps_config (flushPeer st)) @ ps\<rparr>\<rparr>)"
  using assms
proof (induction ps arbitrary: st)
  case (Cons p ps)
  let ?st = "(flushPeer st)\<lparr>ps_section := PeerSection, ps_peer := p\<rparr>"
  have "flushPeer ?st = (flushPeer st)\<lparr>ps_section := PeerSection,
      ps_config := (ps_config (flushPeer st))\<lparr>wg_peers := wg_peers (ps_config (flushPeer st)) @ [p]\<rparr>\<rparr>"
    using Cons.prems by (simp add: flushPeer_def Let_def peer_writable_def)
  with Cons peer_block [of p st] show ?case by simp
qed simp

lemma getlines_lines:
  assumes "\<forall>l \<in> set ls. CHR 0x0A \<notin> set l"
  shows "getlines (concat (map (\<lambda>l. l @ [CHR 0x0A]) ls)) = ls"
proof -
  have "pieces (CHR 0x0A) (concat (map (\<lambda>l. l @ [CHR 0x0A]) ls)) = ls @ [[]]"
    using assms by (induction ls) (simp_all add: pieces_append_sep)
  then show ?thesis by (simp add: getlines_def)
qed

lemma kv_no_newline: "plain_key k \<Longrightarrow> plain_value v \<Longrightarrow> CHR 0x0A \<notin> set (kv k v)"
  using isalnum_plain by (auto simp: kv_def plain_key_def plain_value_def list_all_iff)

lemma interface_lines_no_newline:
  assumes "config_writable c" "l \<in> set (interface_lines c)"
  shows "CHR 0x0A \<notin> set l"
proof -
  from assms(2) consider "l = ''[Interface]''" | "l = kv ''PrivateKey'' (wg_privateKey c)" | "l = kv ''Address'' (wg_address c)"
    | "l = kv ''DNS'' (wg_dns c)" | "l = kv ''ListenPort'' (to_string (nat (wg_listenPort c)))"
    | "l = kv ''MTU'' (to_string (nat (wg_mtu c)))"
    by (auto simp: interface_lines_def)
  then show ?thesis
    using assms(1) by cases (simp_all add: kv_no_newline plain_keys plain_number config_writable_def)
qed

lemma peer_lines_no_newline:
  assumes "peer_writable p" "l \<in> set (peer_lines p)"
  shows "CHR 0x0A \<notin> set l"
proof -
  from assms(2) consider "l = ''[Peer]''" | "l = kv ''PublicKey'' (wp_publicKey p)" | "l = kv ''PresharedKey'' (wp_presharedKey p)"
    | "l = kv ''Endpoint'' (wp_endpoint p)" | "l = kv ''AllowedIPs'' (wp_allowedIps p)"
    | "l = kv ''PersistentKeepalive'' (to_string (nat (wp_persistentKeepalive p)))"
    by (auto simp: peer_lines_def)
  then show ?thesis
    using assms(1) by cases (simp_all add: kv_no_newline plain_keys plain_number peer_writable_def)
qed

lemma lines_no_newline:
  assumes "config_writable c" "l \<in> set (interface_lines c @ concat (map peer_lines (wg_peers c)))"
  shows "CHR 0x0A \<notin> set l"
proof (cases "l \<in> set (interface_lines c)")
  case True
  with assms(1) show ?thesis by (rule interface_lines_no_newline)
next
  case False
  with assms(2) have "l \<in> set (concat (map peer_lines (wg_peers c)))" by simp
  then obtain p where p: "p \<in> set (wg_peers c)" "l \<in> set (peer_lines p)"
    unfolding set_concat by auto
  then have "peer_writable p" using assms(1) by (simp add: config_writable_def list_all_iff)
  with p(2) show ?thesis by (intro peer_lines_no_newline)
qed

text \<open>
  Reading a configuration file gives back what was written: for a configuration whose values fit
  on a line and whose numbers are in range, parsing the standard text of its interface section and
  peer sections yields the same configuration, with the peers in order.
\<close>

theorem parse_wireguard_conf_text:
  assumes "config_writable c"
  shows "parse_wireguard_conf (config_text c) = c"
proof -
  let ?st0 = "\<lparr>ps_config = empty_config, ps_section = NoSection, ps_peer = empty_peer,
             ps_badListenPort = False, ps_badMtu = False, ps_badKeepalive = False\<rparr>"
  let ?st1 = "?st0\<lparr>ps_section := InterfaceSection, ps_config := c\<lparr>wg_peers := []\<rparr>\<rparr>"
  have lines: "getlines (config_text c) = interface_lines c @ concat (map peer_lines (wg_peers c))"
    unfolding config_text_def using lines_no_newline [OF assms] by (intro getlines_lines) blast
  have "parse_int (to_string (nat (wg_listenPort c))) = Some (wg_listenPort c)"
    "parse_int (to_string (nat (wg_mtu c))) = Some (wg_mtu c)"
    using assms by (auto simp: config_writable_def number_ok_def intro!: parse_int_to_string)
  then have "fold process_line (interface_lines c) ?st0 = ?st1"
    using assms
    by (simp add: interface_lines_def parser_simps interface_key_def config_writable_def flushPeer_def empty_config_def
        Let_def del: list.map)
  moreover have "flushPeer ?st1 = ?st1" by (simp add: flushPeer_def)
  moreover have "list_all peer_writable (wg_peers c)" using assms by (simp add: config_writable_def)
  ultimately show ?thesis
    using peer_blocks [of "wg_peers c" ?st1]
    by (auto simp: parse_wireguard_conf_def lines Let_def)
qed

theorem parse_wireguard_conf_text_witness:
  "\<exists>c. wg_peers c \<noteq> [] \<and> wg_mtu c = 1420 \<and> parse_wireguard_conf (config_text c) = c"
proof -
  let ?p = "empty_peer\<lparr>wp_publicKey := ''pub='', wp_allowedIps := ''10.0.0.0/8, 192.168.1.0/24''\<rparr>"
  let ?c = "empty_config\<lparr>wg_privateKey := ''key='', wg_address := ''10.0.0.2/32'', wg_mtu := 1420, wg_peers := [?p]\<rparr>"
  have "config_writable ?c"
    by (simp add: config_writable_def peer_writable_def plain_value_def number_ok_def empty_config_def empty_peer_def
        trim_def isspace_def)
  from parse_wireguard_conf_text [OF this] show ?thesis by (intro exI [of _ ?c]) simp
qed

section \<open>Coverage by AllowedIPs\<close>

fun join_with :: "char \<Rightarrow> string list \<Rightarrow> string" where
  "join_with c [] = []"
| "join_with c [s] = s"
| "join_with c (s # t # ss) = s @ c # join_with c (t # ss)"

lemma pieces_join_with: "ss \<noteq> [] \<Longrightarrow> \<forall>s \<in> set ss. c \<notin> set s \<Longrightarrow> pieces c (join_with c ss) = ss"
  by (induction c ss rule: join_with.induct) (auto simp: text_simps)

text \<open>An address is its four bytes, a route is an address and a prefix length.\<close>

type_synonym address = "u8 \<times> u8 \<times> u8 \<times> u8"

fun address_text :: "address \<Rightarrow> string" where
  "address_text (a, b, c, d) = dotted (unat a) (unat b) (unat c) (unat d)"

fun address_value :: "address \<Rightarrow> u32" where
  "address_value (a, b, c, d) = of_be32 a b c d"

fun route_text :: "address \<times> nat \<Rightarrow> string" where
  "route_text (n, p) = address_text n @ CHR ''/'' # to_string p"

fun covers :: "address \<times> nat \<Rightarrow> address \<Rightarrow> bool" where
  "covers (n, p) x = (drop_bit (32 - p) (address_value x) = drop_bit (32 - p) (address_value n))"

lemma unat_u8_less: "unat (a :: u8) < 256"
  using unsigned_less [of a] by simp

lemma uint_u8_le: "uint (a :: u8) \<le> 255"
  using uint_bounded [of a] by simp

lemma parse_int_octet: "parse_int (to_string (unat (a :: u8))) = Some (uint a)"
  using parse_int_to_string [of "uint a"] uint_u8_le [of a] by simp

lemma valid_octet_to_string: "valid_octet (to_string (unat (a :: u8)))"
  using unat_u8_less [of a] uint_u8_le [of a] length_to_string_le [of "unat a" 2] to_string_digits
  by (auto simp: valid_octet_def parse_int_octet list_all_iff)

lemma pieces_dotted: "pieces (CHR ''.'') (dotted a b c d) = [to_string a, to_string b, to_string c, to_string d]"
  by (simp add: dotted_def text_simps)

lemma word_of_octet: "word_of_int (uint (a :: u8)) = (ucast a :: u32)"
  by (rule bit_word_eqI) (simp add: bit_simps)

lemma ipv4_value_dotted: "ipv4_value 4 (address_text x) 0 = Some (address_value x)"
proof (cases x)
  case (fields a b c d)
  have "ipv4_value (Suc (Suc (Suc (Suc 0)))) (address_text x) 0 = Some
      (push_bit 8 (push_bit 8 (push_bit 8 (ucast a) OR ucast b) OR ucast c) OR ucast d)"
    using parse_int_octet word_of_octet by (simp add: fields dotted_def text_simps)
  also have "push_bit 8 (push_bit 8 (push_bit 8 (ucast a) OR ucast b) OR ucast c) OR ucast d = of_be32 a b c d"
    by (rule bit_word_eqI) (auto simp: of_be32_def bit_simps)
  finally show ?thesis by (simp add: fields eval_nat_numeral)
qed

lemma parse_ipv4_text: "parse_ipv4 (address_text x) = Some (address_value x)"
  using ipv4_value_dotted [of x] valid_octet_to_string
  by (cases x) (simp add: parse_ipv4_def valid_ipv4_def pieces_dotted)

lemma address_text_chars: "ch \<in> set (address_text x) \<Longrightarrow> isdigit ch \<or> ch = CHR ''.''"
  by (cases x) (auto simp: dotted_def dest: to_string_digits)

lemma route_text_trim: "trim (address_text x) = address_text x" "trim (route_text r) = route_text r"
proof -
  have ends: "\<not> isspace (hd (address_text y))" "\<not> isspace (last (address_text y))" "address_text y \<noteq> []" for y
    using last_to_string_not_space to_string_hd digit_not_space by (cases y; simp add: dotted_def)+
  show "trim (address_text x) = address_text x" using ends by (intro trim_id)
  show "trim (route_text r) = route_text r"
    using ends last_to_string_not_space by (cases r) (intro trim_id, simp_all)
qed

lemma allowed_entry_route:
  assumes "p \<le> 32"
  shows "allowed_entry (address_value x) (route_text (n, p)) = covers (n, p) x"
proof -
  have sep: "CHR '':'' \<notin> set (address_text n)" "CHR ''/'' \<notin> set (address_text n)"
    using address_text_chars [of "CHR '':''" n] address_text_chars [of "CHR ''/''" n] by auto
  have mask: "(if p = 0 then 0 else push_bit (32 - p) 0xffffffff) = push_bit (32 - p) (NOT 0 :: u32)"
  proof (cases "p = 0")
    case True
    show ?thesis by (rule bit_word_eqI) (simp add: True bit_simps)
  next
    case False
    have "(0xffffffff :: u32) = NOT 0" by simp
    with False show ?thesis by (simp only: if_False)
  qed
  have "parse_int (to_string p) = Some (int p)" using parse_int_to_string [of "int p"] assms by simp
  moreover have "nat (32 - int p) = 32 - p" by simp
  ultimately show ?thesis
    using assms sep mask and_high_mask_eq_iff [of "32 - p" "address_value x" "address_value n"]
    unfolding allowed_entry_def route_text_trim Let_def
    by (cases "p = 0") (simp_all add: cut_append_sep parse_ipv4_text)
qed

text \<open>
  A host is routed through the tunnel exactly when a route of \<open>AllowedIPs\<close> covers it: for every
  list of IPv4 routes, the host's address matches the comma separated text of the list if and only if
  some route agrees with it on the leading bits of its prefix, for prefixes from 0 to 32.
\<close>

theorem allowed_ips_leading_bits:
  assumes "\<forall>(n, p) \<in> set routes. p \<le> 32"
  shows "wireguard_ipv4_matches_allowed_ips (address_text x) (join_with (CHR '','') (map route_text routes))
    \<longleftrightarrow> (\<exists>r \<in> set routes. covers r x)"
proof (cases "routes = []")
  case True
  then show ?thesis by (simp add: wireguard_ipv4_matches_allowed_ips_def route_text_trim parse_ipv4_text)
next
  case False
  let ?text = "join_with (CHR '','') (map route_text routes)"
  have "CHR '','' \<notin> set (route_text r)" for r
    using address_text_chars [of "CHR '',''" "fst r"] not_isdigit_sep by (cases r) auto
  then have pieces: "pieces (CHR '','') ?text = map route_text routes"
    using False by (intro pieces_join_with) auto
  have "?text \<noteq> []" using pieces False by (cases routes) (auto simp: dotted_def)
  moreover have "list_ex (allowed_entry (address_value x)) (map route_text routes) = (\<exists>r \<in> set routes. covers r x)"
    unfolding list_ex_iff set_map bex_simps
  proof (rule bex_cong)
    fix r assume r: "r \<in> set routes"
    obtain n p where np: "r = (n, p)" by (cases r)
    then have "p \<le> 32" using assms r by auto
    then show "allowed_entry (address_value x) (route_text r) = covers r x" unfolding np by (rule allowed_entry_route)
  qed simp
  ultimately show ?thesis
    by (simp add: wireguard_ipv4_matches_allowed_ips_def route_text_trim parse_ipv4_text pieces)
qed

theorem allowed_ips_leading_bits_witness:
  "wireguard_ipv4_matches_allowed_ips (address_text (10, 3, 4, 5))
     (join_with (CHR '','') (map route_text [((192, 168, 1, 0), 24), ((10, 2, 0, 0), 15)]))"
  by (subst allowed_ips_leading_bits) (simp_all add: of_be32_def)

end
