(* ===== verification/TailscaleStateStore.thy ===== *)
theory TailscaleStateStore
  imports RemoteTypes
begin

text \<open>
  Model of \<open>app/src/remote_access/tailscale/TailscaleStateStore.hpp\<close> and \<open>.cpp\<close>: the node identity
  on the SD card, in a versioned file that is either checksummed or encrypted under a passphrase,
  written beside the old one and then renamed.

  Argon2id, the AEAD and BLAKE2b come from Monocypher and are the fields of a \<open>StateCrypto\<close> argument;
  salt and nonce are arguments.  The directory holds three files, \<open>path\<close>, \<open>path.tmp\<close> and \<open>path.bak\<close>;
  each call of \<open>std::filesystem\<close> either takes effect or fails without effect, as the flags of a
  \<open>SaveFaults\<close>, \<open>LoadFaults\<close> or \<open>RemoveFaults\<close> say.  Saving returns every state the directory goes
  through, so that a theorem about all of them is one about a crash at any moment.  An \<open>ofstream\<close>
  buffers its output until it is destroyed, where an error is not reported: \<open>sf_kept\<close> is the number of
  bytes that reach the card.  Overwriting secrets in memory has no functional content.
\<close>

section \<open>Data\<close>

datatype StateProtection = PlainState | PassphraseState

record StateKdfParameters =
  memoryKiB :: u32
  passes :: u32
  lanes :: u32

record StateCrypto =
  sc_argon2 :: "StateKdfParameters \<Rightarrow> bytes \<Rightarrow> bytes \<Rightarrow> bytes"
  sc_lock :: "bytes \<Rightarrow> bytes \<Rightarrow> bytes \<Rightarrow> bytes \<Rightarrow> bytes \<times> bytes"
  sc_unlock :: "bytes \<Rightarrow> bytes \<Rightarrow> bytes \<Rightarrow> bytes \<Rightarrow> bytes \<Rightarrow> bytes option"
  sc_blake2b :: "bytes \<Rightarrow> bytes"

record StateFiles =
  sf_primary :: "bytes option"
  sf_temporary :: "bytes option"
  sf_backup :: "bytes option"

definition state_kMagic :: bytes where
  "state_kMagic = [0x41, 0x52, 0x54, 0x54, 0x53, 0x30, 0x31, 0]"

definition state_kVersion :: u16 where
  "state_kVersion = 1"

definition kIdentitySize :: nat where
  "kIdentitySize = 96"

definition kMinMemoryKiB :: u32 where
  "kMinMemoryKiB = 8 * 1024"

definition kMaxMemoryKiB :: u32 where
  "kMaxMemoryKiB = 32 * 1024"

section \<open>Encoding\<close>

definition state_append16 :: "u16 \<Rightarrow> bytes" where
  "state_append16 v = [ucast v, ucast (drop_bit 8 v)]"

definition state_append32 :: "u32 \<Rightarrow> bytes" where
  "state_append32 v = [ucast v, ucast (drop_bit 8 v), ucast (drop_bit 16 v), ucast (drop_bit 24 v)]"

definition state_read16 :: "bytes \<Rightarrow> u16" where
  "state_read16 bs = ucast (bs ! 0) OR push_bit 8 (ucast (bs ! 1))"

definition state_read32 :: "bytes \<Rightarrow> u32" where
  "state_read32 bs = ucast (bs ! 0) OR push_bit 8 (ucast (bs ! 1)) OR push_bit 16 (ucast (bs ! 2)) OR push_bit 24 (ucast (bs ! 3))"

definition serialize :: "Identity \<Rightarrow> bytes" where
  "serialize i = machinePrivate i @ nodePrivate i @ discoPrivate i"

definition deserialize :: "bytes \<Rightarrow> Identity" where
  "deserialize bs = \<lparr>machinePrivate = take 32 bs, nodePrivate = take 32 (drop 32 bs), discoPrivate = take 32 (drop 64 bs)\<rparr>"

definition validateKdf :: "StateKdfParameters \<Rightarrow> bool" where
  "validateKdf p = (\<not> (memoryKiB p < kMinMemoryKiB \<or> memoryKiB p > kMaxMemoryKiB \<or> passes p = 0 \<or> passes p > 10 \<or> lanes p \<noteq> 1))"

definition deriveKey :: "StateCrypto \<Rightarrow> bytes \<Rightarrow> bytes \<Rightarrow> StateKdfParameters \<Rightarrow> string + bytes" where
  "deriveKey crypto passphrase salt parameters =
     (if passphrase = [] then Inl ''passphrase is required''
      else if \<not> validateKdf parameters then Inl ''unsupported state KDF parameters''
      else Inr (sc_argon2 crypto parameters passphrase salt))"

record ParsedHeader =
  ph_protection :: StateProtection
  ph_kdf :: StateKdfParameters
  ph_salt :: bytes
  ph_nonce :: bytes
  ph_payloadSize :: u32
  ph_payloadOffset :: nat

definition parseHeader :: "bytes \<Rightarrow> string + ParsedHeader" where
  "parseHeader bs =
     (let headerSize = 8 + 2 + 2 + 12 + 16 + 24 + 4 in
      if length bs < headerSize + 16 \<or> take 8 bs \<noteq> state_kMagic \<or> state_read16 (take 2 (drop 8 bs)) \<noteq> state_kVersion
      then Inl ''invalid Tailscale state header''
      else if bs ! 10 > 1 then Inl ''unknown Tailscale state protection''
      else
        let payloadSize = state_read32 (take 4 (drop 64 bs)) in
        if unat payloadSize \<noteq> kIdentitySize \<or> length bs \<noteq> headerSize + unat payloadSize + 16
        then Inl ''invalid Tailscale state size''
        else Inr \<lparr>ph_protection = (if bs ! 10 = 0 then PlainState else PassphraseState),
                  ph_kdf = \<lparr>memoryKiB = state_read32 (take 4 (drop 12 bs)), passes = state_read32 (take 4 (drop 16 bs)),
                            lanes = state_read32 (take 4 (drop 20 bs))\<rparr>,
                  ph_salt = take 16 (drop 24 bs), ph_nonce = take 24 (drop 40 bs),
                  ph_payloadSize = payloadSize, ph_payloadOffset = headerSize\<rparr>)"

definition state_header :: "StateProtection \<Rightarrow> StateKdfParameters \<Rightarrow> bytes \<Rightarrow> bytes \<Rightarrow> bytes \<Rightarrow> bytes" where
  "state_header protection parameters salt nonce payload =
     state_kMagic @ state_append16 state_kVersion @ [case protection of PlainState \<Rightarrow> 0 | PassphraseState \<Rightarrow> 1] @ [0] @
     state_append32 (memoryKiB parameters) @ state_append32 (passes parameters) @ state_append32 (lanes parameters) @
     salt @ nonce @ state_append32 (word_of_nat (length payload))"

text \<open>The first half of \<open>save\<close>: the bytes of the file.\<close>

definition encode_state :: "StateCrypto \<Rightarrow> Identity \<Rightarrow> StateProtection \<Rightarrow> bytes \<Rightarrow> StateKdfParameters \<Rightarrow> bytes \<Rightarrow> bytes \<Rightarrow> string + bytes" where
  "encode_state crypto i protection passphrase parameters salt nonce =
     (if protection = PassphraseState \<and> \<not> validateKdf parameters then Inl ''unsupported state KDF parameters''
      else
        let payload = serialize i; header = state_header protection parameters salt nonce payload in
        case protection of
          PassphraseState \<Rightarrow>
            (case deriveKey crypto passphrase salt parameters of
               Inl e \<Rightarrow> Inl e
             | Inr key \<Rightarrow> (case sc_lock crypto key nonce header payload of (ciphertext, tag) \<Rightarrow> Inr (header @ ciphertext @ tag)))
        | PlainState \<Rightarrow> Inr (header @ payload @ sc_blake2b crypto payload))"

section \<open>Replacing the file\<close>

record SaveFaults =
  sf_createFails :: bool
  sf_openFails :: bool
  sf_writeFails :: "nat option"
  sf_kept :: nat
  sf_removeFails :: bool
  sf_backupFails :: bool
  sf_installFails :: bool
  sf_restoreFails :: bool
  sf_cleanupFails :: bool

text \<open>The last rename and what follows it.\<close>

definition install_temporary :: "SaveFaults \<Rightarrow> StateFiles \<Rightarrow> string option \<times> StateFiles list" where
  "install_temporary faults fs =
     (if sf_installFails faults then
        (Some ''cannot replace Tailscale state'',
         [fs, if sf_backup fs \<noteq> None \<and> \<not> sf_restoreFails faults
              then fs\<lparr>sf_primary := sf_backup fs, sf_backup := None\<rparr> else fs])
      else
        let fs1 = fs\<lparr>sf_primary := sf_temporary fs, sf_temporary := None\<rparr> in
        (None, [fs, fs1, if sf_cleanupFails faults then fs1 else fs1\<lparr>sf_backup := None\<rparr>]))"

text \<open>The second half of \<open>save\<close>: the error, and the states of the directory in order.\<close>

definition replace_state :: "SaveFaults \<Rightarrow> bytes \<Rightarrow> StateFiles \<Rightarrow> string option \<times> StateFiles list" where
  "replace_state faults output fs =
     (if sf_createFails faults then (Some ''cannot create Tailscale state directory'', [fs])
      else if sf_openFails faults then (Some ''cannot write Tailscale state'', [fs])
      else
        let fs0 = fs\<lparr>sf_temporary := Some []\<rparr> in
        case sf_writeFails faults of
          Some n \<Rightarrow> (Some ''cannot write Tailscale state'', [fs, fs0, fs\<lparr>sf_temporary := Some (take n output)\<rparr>])
        | None \<Rightarrow>
            let fs1 = fs\<lparr>sf_temporary := Some (take (sf_kept faults) output)\<rparr> in
            if sf_primary fs1 \<noteq> None then
              let fs2 = (if sf_removeFails faults then fs1 else fs1\<lparr>sf_backup := None\<rparr>) in
              if sf_backupFails faults then (Some ''cannot back up Tailscale state'', [fs, fs0, fs1, fs2])
              else (case install_temporary faults (fs2\<lparr>sf_primary := None, sf_backup := sf_primary fs2\<rparr>) of
                      (e, states) \<Rightarrow> (e, [fs, fs0, fs1, fs2] @ states))
            else (case install_temporary faults fs1 of (e, states) \<Rightarrow> (e, [fs, fs0, fs1] @ states)))"

definition save :: "StateCrypto \<Rightarrow> SaveFaults \<Rightarrow> Identity \<Rightarrow> StateProtection \<Rightarrow> bytes \<Rightarrow> StateKdfParameters \<Rightarrow>
    bytes \<Rightarrow> bytes \<Rightarrow> StateFiles \<Rightarrow> string option \<times> StateFiles list" where
  "save crypto faults i protection passphrase parameters salt nonce fs =
     (case encode_state crypto i protection passphrase parameters salt nonce of
        Inl e \<Rightarrow> (Some e, [fs])
      | Inr output \<Rightarrow> replace_state faults output fs)"

section \<open>Loading\<close>

definition loadFile :: "StateCrypto \<Rightarrow> bytes \<Rightarrow> bool \<Rightarrow> bytes option \<Rightarrow> string + Identity" where
  "loadFile crypto passphrase readFails content =
     (case content of
        None \<Rightarrow> Inl ''Tailscale state does not exist''
      | Some bs \<Rightarrow>
          if length bs = 0 \<or> length bs > 4096 then Inl ''invalid Tailscale state size''
          else if readFails then Inl ''cannot read Tailscale state''
          else (case parseHeader bs of
             Inl e \<Rightarrow> Inl e
           | Inr header \<Rightarrow>
               let ciphertext = take (unat (ph_payloadSize header)) (drop (ph_payloadOffset header) bs);
                   tag = take 16 (drop (ph_payloadOffset header + unat (ph_payloadSize header)) bs);
                   payload =
                     (case ph_protection header of
                        PassphraseState \<Rightarrow>
                          (case deriveKey crypto passphrase (ph_salt header) (ph_kdf header) of
                             Inl e \<Rightarrow> None
                           | Inr key \<Rightarrow> sc_unlock crypto key (ph_nonce header) (take (ph_payloadOffset header) bs) tag ciphertext)
                      | PlainState \<Rightarrow> if sc_blake2b crypto ciphertext = tag then Some ciphertext else None)
               in (case payload of
                     None \<Rightarrow> Inl ''Tailscale state authentication failed''
                   | Some p \<Rightarrow> Inr (deserialize p))))"

record LoadFaults =
  lf_readPrimaryFails :: bool
  lf_readBackupFails :: bool
  lf_existsFails :: bool
  lf_renameFails :: bool

definition load :: "StateCrypto \<Rightarrow> LoadFaults \<Rightarrow> bytes \<Rightarrow> StateFiles \<Rightarrow> (string + Identity) \<times> StateFiles" where
  "load crypto faults passphrase fs =
     (case loadFile crypto passphrase (lf_readPrimaryFails faults) (sf_primary fs) of
        Inr i \<Rightarrow> (Inr i, fs)
      | Inl primaryError \<Rightarrow>
          if sf_backup fs \<noteq> None \<and> \<not> lf_existsFails faults then
            (case loadFile crypto passphrase (lf_readBackupFails faults) (sf_backup fs) of
               Inr i \<Rightarrow>
                 (Inr i, if sf_primary fs = None \<and> \<not> lf_renameFails faults
                         then fs\<lparr>sf_primary := sf_backup fs, sf_backup := None\<rparr> else fs)
             | Inl backupError \<Rightarrow> (Inl (primaryError @ ''; backup recovery failed: '' @ backupError), fs))
          else (Inl primaryError, fs))"

definition state_protection :: "StateFiles \<Rightarrow> string + StateProtection" where
  "state_protection fs =
     (case sf_primary fs of
        None \<Rightarrow> Inl ''cannot read Tailscale state header''
      | Some bs \<Rightarrow>
          let prefix = take 12 bs in
          if length prefix < 12 then Inl ''cannot read Tailscale state header''
          else if take 8 prefix \<noteq> state_kMagic \<or> state_read16 (take 2 (drop 8 prefix)) \<noteq> state_kVersion \<or> prefix ! 10 > 1
          then Inl ''invalid Tailscale state header''
          else Inr (if prefix ! 10 = 0 then PlainState else PassphraseState))"

text \<open>Each \<open>std::filesystem::remove\<close> sets the same error code, and clears it when it succeeds.\<close>

record RemoveFaults =
  rf_primaryFails :: bool
  rf_temporaryFails :: bool
  rf_backupFails :: bool

definition remove_state :: "RemoveFaults \<Rightarrow> StateFiles \<Rightarrow> string option \<times> StateFiles" where
  "remove_state faults fs =
     (let failed0 = rf_primaryFails faults;
          fs1 = (if failed0 then fs else fs\<lparr>sf_primary := None\<rparr>);
          failed1 = rf_temporaryFails faults;
          fs2 = (if failed1 then fs1 else fs1\<lparr>sf_temporary := None\<rparr>);
          failed2 = rf_backupFails faults;
          fs3 = (if failed2 then fs2 else fs2\<lparr>sf_backup := None\<rparr>)
      in (if failed2 then Some ''cannot remove Tailscale state'' else None, fs3))"

section \<open>Round trip of the encoding\<close>

lemma state_read16_append: "state_read16 (state_append16 v) = v"
  by (rule bit_word_eqI) (auto simp: state_read16_def state_append16_def bit_simps)

lemma state_read32_append: "state_read32 (state_append32 v) = v"
  using of_be32_be32 [of v] by (simp add: state_read32_def state_append32_def of_be32_def ac_simps)

lemma length_state_append [simp]: "length (state_append16 w) = 2" "length (state_append32 v) = 4"
  by (simp_all add: state_append16_def state_append32_def)

text \<open>What the store relies on: sizes, and that an AEAD opens what it sealed.\<close>

definition crypto_ok :: "StateCrypto \<Rightarrow> bool" where
  "crypto_ok crypto =
     ((\<forall>key nonce ad p. length (fst (sc_lock crypto key nonce ad p)) = length p \<and>
         length (snd (sc_lock crypto key nonce ad p)) = 16 \<and>
         sc_unlock crypto key nonce ad (snd (sc_lock crypto key nonce ad p)) (fst (sc_lock crypto key nonce ad p)) = Some p) \<and>
      (\<forall>p. length (sc_blake2b crypto p) = 16))"

definition sizes_ok :: "Identity \<Rightarrow> bytes \<Rightarrow> bytes \<Rightarrow> bool" where
  "sizes_ok i salt nonce =
     (length (machinePrivate i) = 32 \<and> length (nodePrivate i) = 32 \<and> length (discoPrivate i) = 32 \<and>
      length salt = 16 \<and> length nonce = 24)"

lemma deserialize_serialize: "sizes_ok i salt nonce \<Longrightarrow> deserialize (serialize i) = i"
  by (simp add: serialize_def deserialize_def sizes_ok_def)

lemma length_serialize: "sizes_ok i salt nonce \<Longrightarrow> length (serialize i) = 96"
  by (simp add: serialize_def sizes_ok_def)

lemma length_state_header: "length salt = 16 \<Longrightarrow> length nonce = 24 \<Longrightarrow> length (state_header pr k salt nonce p) = 68"
  by (simp add: state_header_def state_kMagic_def)

lemma parseHeader_encoded:
  assumes "length salt = 16" "length nonce = 24" "length payload = 96" "length c = 96" "length t = 16"
  shows "parseHeader (state_header pr k salt nonce payload @ c @ t) =
    Inr \<lparr>ph_protection = pr, ph_kdf = k, ph_salt = salt, ph_nonce = nonce, ph_payloadSize = 96, ph_payloadOffset = 68\<rparr>"
proof -
  let ?pb = "case pr of PlainState \<Rightarrow> 0 | PassphraseState \<Rightarrow> (1 :: u8)"
  let ?m = "state_append32 (memoryKiB k)" and ?p = "state_append32 (passes k)" and ?l = "state_append32 (lanes k)"
  let ?n = "state_append32 (96 :: u32)"
  let ?bs = "state_header pr k salt nonce payload @ c @ t"
  have bs: "?bs = state_kMagic @ state_append16 state_kVersion @ [?pb, 0] @ ?m @ ?p @ ?l @ salt @ nonce @ ?n @ c @ t"
    using assms(3) by (simp add: state_header_def)
  have magic: "length state_kMagic = 8" by (simp add: state_kMagic_def)
  have fields: "take 8 ?bs = state_kMagic" "take 2 (drop 8 ?bs) = state_append16 state_kVersion" "?bs ! 10 = ?pb"
    "take 4 (drop 12 ?bs) = ?m" "take 4 (drop 16 ?bs) = ?p" "take 4 (drop 20 ?bs) = ?l"
    "take 16 (drop 24 ?bs) = salt" "take 24 (drop 40 ?bs) = nonce" "take 4 (drop 64 ?bs) = ?n" "length ?bs = 180"
    unfolding bs using assms magic by (simp_all add: nth_append)
  show ?thesis
    unfolding parseHeader_def Let_def fields state_read16_append state_read32_append
    by (cases pr) (simp_all add: kIdentitySize_def)
qed

lemma loadFile_encode:
  assumes "crypto_ok crypto" "sizes_ok i salt nonce" "encode_state crypto i pr pass k salt nonce = Inr output"
  shows "loadFile crypto pass False (Some output) = Inr i"
proof -
  let ?p = "serialize i" and ?h = "state_header pr k salt nonce (serialize i)"
  have sizes: "length salt = 16" "length nonce = 24" "length ?p = 96" "length ?h = 68"
    using assms(2) length_serialize [OF assms(2)] length_state_header by (auto simp: sizes_ok_def)
  show ?thesis
  proof (cases pr)
    case PlainState
    with assms(3) have out: "output = ?h @ ?p @ sc_blake2b crypto ?p" by (simp add: encode_state_def Let_def)
    have "length (sc_blake2b crypto ?p) = 16" using assms(1) by (simp add: crypto_ok_def)
    with sizes PlainState parseHeader_encoded [OF sizes(1,2,3,3) this, of pr k] show ?thesis
      by (simp add: loadFile_def out deserialize_serialize [OF assms(2)])
  next
    case PassphraseState
    with assms(3) obtain key where key: "deriveKey crypto pass salt k = Inr key"
      by (auto simp: encode_state_def Let_def split: if_splits sum.splits)
    let ?c = "fst (sc_lock crypto key nonce ?h ?p)" and ?t = "snd (sc_lock crypto key nonce ?h ?p)"
    from assms(3) PassphraseState key have out: "output = ?h @ ?c @ ?t"
      by (auto simp: encode_state_def Let_def split: if_splits prod.splits)
    have lock: "length ?c = 96" "length ?t = 16" "sc_unlock crypto key nonce ?h ?t ?c = Some ?p"
      using assms(1) sizes(3) by (simp_all add: crypto_ok_def)
    from sizes lock key PassphraseState parseHeader_encoded [OF sizes(1,2,3) lock(1,2), of pr k] show ?thesis
      by (simp add: loadFile_def out deserialize_serialize [OF assms(2)])
  qed
qed

section \<open>Crash safety\<close>

definition no_load_faults :: LoadFaults where
  "no_load_faults = \<lparr>lf_readPrimaryFails = False, lf_readBackupFails = False, lf_existsFails = False, lf_renameFails = False\<rparr>"

definition recovered :: "StateCrypto \<Rightarrow> bytes \<Rightarrow> StateFiles \<Rightarrow> string + Identity" where
  "recovered crypto pass fs = fst (load crypto no_load_faults pass fs)"

text \<open>The identity is in the primary file, or there is none and it is in the backup.\<close>

definition stored :: "StateCrypto \<Rightarrow> bytes \<Rightarrow> Identity \<Rightarrow> StateFiles \<Rightarrow> bool" where
  "stored crypto pass i fs =
     (loadFile crypto pass False (sf_primary fs) = Inr i \<or>
      (sf_primary fs = None \<and> loadFile crypto pass False (sf_backup fs) = Inr i))"

lemma loadFile_None [simp]: "loadFile crypto pass f None = Inl ''Tailscale state does not exist''"
  by (simp add: loadFile_def)

lemma stored_recovered:
  assumes "stored crypto pass i fs"
  shows "recovered crypto pass fs = Inr i"
proof (cases "loadFile crypto pass False (sf_primary fs) = Inr i")
  case True
  then show ?thesis by (simp add: recovered_def load_def no_load_faults_def)
next
  case False
  with assms have "sf_primary fs = None" "loadFile crypto pass False (sf_backup fs) = Inr i" by (simp_all add: stored_def)
  then show ?thesis by (cases "sf_backup fs") (simp_all add: recovered_def load_def no_load_faults_def)
qed

text \<open>Every state of a replacement holds the old or the new identity, and the outcome says which.\<close>

definition swapped :: "StateCrypto \<Rightarrow> bytes \<Rightarrow> Identity \<Rightarrow> Identity \<Rightarrow> string option \<times> StateFiles list \<Rightarrow> bool" where
  "swapped crypto pass old new r =
     ((\<forall>s \<in> set (snd r). stored crypto pass old s \<or> stored crypto pass new s) \<and> snd r \<noteq> [] \<and>
      stored crypto pass (if fst r = None then new else old) (last (snd r)))"

lemma install_temporary_swapped:
  assumes "loadFile crypto pass False (sf_temporary fs) = Inr new" "stored crypto pass old fs" "sf_primary fs = None"
  shows "swapped crypto pass old new (install_temporary faults fs)"
proof -
  have "sf_backup fs \<noteq> None" using assms(2,3) by (cases "sf_backup fs") (auto simp: stored_def)
  with assms show ?thesis by (simp add: swapped_def install_temporary_def stored_def Let_def)
qed

lemma swapped_prefix:
  assumes "swapped crypto pass old new (e, states)" "\<forall>s \<in> set pre. stored crypto pass old s"
  shows "swapped crypto pass old new (e, pre @ states)"
  using assms by (auto simp: swapped_def)

lemma replace_state_swapped:
  assumes "loadFile crypto pass False (Some output) = Inr new" "stored crypto pass old fs" "length output \<le> sf_kept faults"
  shows "swapped crypto pass old new (replace_state faults output fs)"
proof -
  have tmp: "stored crypto pass old (fs\<lparr>sf_temporary := x\<rparr>)" for x using assms(2) by (simp add: stored_def)
  have early: "swapped crypto pass old new (Some e, states)" if "\<forall>s \<in> set states. stored crypto pass old s" "states \<noteq> []" for e states
    using that by (simp add: swapped_def)
  let ?fs0 = "fs\<lparr>sf_temporary := Some []\<rparr>"
  let ?fs1 = "fs\<lparr>sf_temporary := Some output\<rparr>"
  let ?fs2 = "if sf_removeFails faults then ?fs1 else ?fs1\<lparr>sf_backup := None\<rparr>"
  let ?fs3 = "?fs2\<lparr>sf_primary := None, sf_backup := sf_primary ?fs2\<rparr>"
  have keep: "take (sf_kept faults) output = output" using assms(3) by simp
  show ?thesis
  proof (cases "sf_createFails faults \<or> sf_openFails faults \<or> sf_writeFails faults \<noteq> None")
    case True
    then show ?thesis using assms(2) tmp by (auto simp: replace_state_def intro!: early)
  next
    case False
    show ?thesis
    proof (cases "sf_primary fs = None")
      case True
      have "swapped crypto pass old new (install_temporary faults ?fs1)"
        using assms(1) tmp True by (intro install_temporary_swapped) simp_all
      then have "swapped crypto pass old new
          (fst (install_temporary faults ?fs1), [fs, ?fs0, ?fs1] @ snd (install_temporary faults ?fs1))"
        using assms(2) tmp by (intro swapped_prefix) simp_all
      with False True keep show ?thesis by (simp add: replace_state_def split_beta Let_def)
    next
      case primary: False
      then have old: "loadFile crypto pass False (sf_primary fs) = Inr old" using assms(2) by (auto simp: stored_def)
      have pre: "\<forall>s \<in> set [fs, ?fs0, ?fs1, ?fs2]. stored crypto pass old s" using old by (simp add: stored_def)
      have "swapped crypto pass old new (install_temporary faults ?fs3)"
        using assms(1) old by (intro install_temporary_swapped) (simp_all add: stored_def)
      then have "swapped crypto pass old new
          (fst (install_temporary faults ?fs3), [fs, ?fs0, ?fs1, ?fs2] @ snd (install_temporary faults ?fs3))"
        using pre by (intro swapped_prefix) simp_all
      with False primary keep pre show ?thesis by (simp add: replace_state_def split_beta early Let_def)
    qed
  qed
qed



definition example_crypto :: StateCrypto where
  "example_crypto = \<lparr>sc_argon2 = (\<lambda>k pass salt. pass @ salt), sc_lock = (\<lambda>key nonce ad p. (p, replicate 16 7)),
     sc_unlock = (\<lambda>key nonce ad t c. if t = replicate 16 7 then Some c else None), sc_blake2b = (\<lambda>p. replicate 16 9)\<rparr>"

definition example_identity :: "u8 \<Rightarrow> Identity" where
  "example_identity b = \<lparr>machinePrivate = replicate 32 b, nodePrivate = replicate 32 (b + 1), discoPrivate = replicate 32 (b + 2)\<rparr>"

definition no_save_faults :: SaveFaults where
  "no_save_faults = \<lparr>sf_createFails = False, sf_openFails = False, sf_writeFails = None, sf_kept = 4096, sf_removeFails = False,
     sf_backupFails = False, sf_installFails = False, sf_restoreFails = False, sf_cleanupFails = False\<rparr>"

definition default_kdf :: StateKdfParameters where
  "default_kdf = \<lparr>memoryKiB = 16 * 1024, passes = 3, lanes = 1\<rparr>"

text \<open>An encoded file of the example.\<close>

definition example_file :: "u8 \<Rightarrow> bytes" where
  "example_file b = (case encode_state example_crypto (example_identity b) PlainState [] default_kdf (replicate 16 1) (replicate 24 2) of
     Inl e \<Rightarrow> [] | Inr out \<Rightarrow> out)"

lemma example_crypto_ok: "crypto_ok example_crypto" "sizes_ok (example_identity b) (replicate 16 1) (replicate 24 2)"
  by (simp_all add: crypto_ok_def example_crypto_def sizes_ok_def example_identity_def)

lemma example_encodes:
  "encode_state example_crypto (example_identity b) PlainState [] default_kdf (replicate 16 1) (replicate 24 2) = Inr (example_file b)"
  "length (example_file b) = 180"
  by (simp_all add: example_file_def encode_state_def Let_def length_serialize [OF example_crypto_ok(2)]
      length_state_header) (simp_all add: example_crypto_def)

lemma example_stored: "stored example_crypto [] (example_identity b) \<lparr>sf_primary = Some (example_file b), sf_temporary = None, sf_backup = None\<rparr>"
  using loadFile_encode [OF example_crypto_ok example_encodes(1)] by (simp add: stored_def)


section \<open>What is not protected\<close>

lemma loadFile_short:
  assumes "length bs < 84"
  shows "\<exists>e. loadFile crypto pass f (Some bs) = Inl e"
  using assms by (auto simp: loadFile_def parseHeader_def)

text \<open>
  A full card loses the identity: the stream is closed without looking at its state, so when fewer
  bytes than a header reach the card, \<open>save\<close> still renames the truncated file over the old one,
  removes the backup and reports success, and nothing can be loaded any more.
\<close>

theorem save_truncated_loses_identity:
  assumes "encode_state crypto new pr pass k salt nonce = Inr out"
  shows "\<exists>states. save crypto (no_save_faults\<lparr>sf_kept := 83\<rparr>) new pr pass k salt nonce fs = (None, states)
    \<and> (\<exists>e. recovered crypto pass (last states) = Inl e)"
proof -
  let ?final = "fs\<lparr>sf_primary := Some (take 83 out), sf_temporary := None, sf_backup := None\<rparr>"
  have "length (take 83 out) < 84" by simp
  then obtain e where e: "loadFile crypto pass False (Some (take 83 out)) = Inl e"
    using loadFile_short by blast
  have "\<exists>states. save crypto (no_save_faults\<lparr>sf_kept := 83\<rparr>) new pr pass k salt nonce fs = (None, states) \<and> last states = ?final"
    using assms by (auto simp: save_def replace_state_def install_temporary_def no_save_faults_def Let_def)
  then obtain states where "save crypto (no_save_faults\<lparr>sf_kept := 83\<rparr>) new pr pass k salt nonce fs = (None, states)"
    "last states = ?final" by blast
  moreover have "recovered crypto pass ?final = Inl e"
    using e by (simp add: recovered_def load_def no_load_faults_def)
  ultimately show ?thesis by auto
qed

theorem save_truncated_loses_identity_witness:
  "\<exists>states. save example_crypto (no_save_faults\<lparr>sf_kept := 83\<rparr>) (example_identity 2) PlainState [] default_kdf (replicate 16 1)
      (replicate 24 2) \<lparr>sf_primary = Some (example_file 1), sf_temporary = None, sf_backup = None\<rparr> = (None, states)
    \<and> (\<exists>e. recovered example_crypto [] (last states) = Inl e)"
  by (rule save_truncated_loses_identity [OF example_encodes(1)])

text \<open>
  Removing the state reports only the last removal: the error code is overwritten by each call, so
  when the state file itself cannot be removed but the backup can, \<open>remove\<close> returns success and the
  identity is still loaded.
\<close>

theorem remove_hides_failure:
  assumes "loadFile crypto pass False (sf_primary fs) = Inr i"
  shows "\<exists>fs'. remove_state \<lparr>rf_primaryFails = True, rf_temporaryFails = False, rf_backupFails = False\<rparr> fs = (None, fs')
    \<and> recovered crypto pass fs' = Inr i"
  using assms by (simp add: remove_state_def recovered_def load_def no_load_faults_def)

theorem remove_hides_failure_witness:
  "\<exists>fs'. remove_state \<lparr>rf_primaryFails = True, rf_temporaryFails = False, rf_backupFails = False\<rparr>
      \<lparr>sf_primary = Some (example_file 1), sf_temporary = None, sf_backup = None\<rparr> = (None, fs')
    \<and> recovered example_crypto [] fs' = Inr (example_identity 1)"
  by (rule remove_hides_failure) (simp add: loadFile_encode [OF example_crypto_ok example_encodes(1)])

end
