(* ===== verification/StreamOptions.thy ===== *)
theory StreamOptions
  imports Prelude Interfaces "HOL-Library.Signed_Division"
begin

text \<open>
  Model of the rules for stream settings: \<open>app/src/features/stream/BitrateSteps.cpp\<close>,
  \<open>FrameRateOptions.cpp\<close>, \<open>AdvancedStreamOptions.cpp\<close>, \<open>VideoCodecFormats.cpp\<close>,
  \<open>app/src/features/input/ControllerTopology.cpp\<close> and \<open>app/src/features/host/CodecCapabilities.cpp\<close>.

  C++ \<open>int\<close> values are \<open>int\<close>: the inputs are settings whose sums and products stay far below the
  width.  The conversions between a bitrate and the position of a slider, a \<open>float\<close>, are not
  modelled.  The sanitising functions are instances of the locale \<open>normalizer\<close>.
\<close>

definition clamp :: "int \<Rightarrow> int \<Rightarrow> int \<Rightarrow> int" where
  "clamp v lo hi = (if v < lo then lo else if hi < v then hi else v)"

section \<open>Bitrate\<close>

record BitrateSliderRange =
  minKbps :: int
  maxKbps :: int

datatype Platform = PSV | Switch | Desktop

definition bitrateSliderRange :: "Platform \<Rightarrow> BitrateSliderRange" where
  "bitrateSliderRange p =
     (case p of PSV \<Rightarrow> \<lparr>minKbps = 500, maxKbps = 20000\<rparr>
      | Switch \<Rightarrow> \<lparr>minKbps = 500, maxKbps = 100000\<rparr>
      | Desktop \<Rightarrow> \<lparr>minKbps = 500, maxKbps = 150000\<rparr>)"

definition kFineStepKbps :: int where
  "kFineStepKbps = 500"

definition kCoarseStepKbps :: int where
  "kCoarseStepKbps = 1000"

definition kCoarseThresholdKbps :: int where
  "kCoarseThresholdKbps = 20000"

definition stepForKbps :: "int \<Rightarrow> int" where
  "stepForKbps kbps = (if kbps < kCoarseThresholdKbps then kFineStepKbps else kCoarseStepKbps)"

definition quantizeBitrateKbps :: "int \<Rightarrow> BitrateSliderRange \<Rightarrow> int" where
  "quantizeBitrateKbps kbps rng =
     (if maxKbps rng \<le> minKbps rng then minKbps rng
      else
        let clamped = clamp kbps (minKbps rng) (maxKbps rng);
            step = stepForKbps clamped;
            snapped = ((clamped + step sdiv 2) sdiv step) * step
        in clamp snapped (minKbps rng) (maxKbps rng))"

section \<open>Frame rate\<close>

record FrameRatePreset =
  preset_fps :: int
  preset_clientRefreshRateX100 :: int
  preset_labelKey :: string

definition isNtscX100 :: "int \<Rightarrow> bool" where
  "isNtscX100 x100 = (x100 = 2997 \<or> x100 = 5994 \<or> x100 = 11988)"

definition availableFrameRatePresets :: "FrameRatePreset list" where
  "availableFrameRatePresets =
     [\<lparr>preset_fps = 30, preset_clientRefreshRateX100 = 0, preset_labelKey = ''30 FPS''\<rparr>,
      \<lparr>preset_fps = 40, preset_clientRefreshRateX100 = 0, preset_labelKey = ''40 FPS''\<rparr>,
      \<lparr>preset_fps = 60, preset_clientRefreshRateX100 = 5994, preset_labelKey = ''59.94 FPS (NTSC)''\<rparr>,
      \<lparr>preset_fps = 60, preset_clientRefreshRateX100 = 0, preset_labelKey = ''60 FPS''\<rparr>,
      \<lparr>preset_fps = 90, preset_clientRefreshRateX100 = 0, preset_labelKey = ''90 FPS''\<rparr>,
      \<lparr>preset_fps = 120, preset_clientRefreshRateX100 = 11988, preset_labelKey = ''119.88 FPS (NTSC)''\<rparr>,
      \<lparr>preset_fps = 120, preset_clientRefreshRateX100 = 0, preset_labelKey = ''120 FPS''\<rparr>]"

definition resolveClientRefreshRateX100 :: "int \<Rightarrow> int \<Rightarrow> int" where
  "resolveClientRefreshRateX100 fps x100 = (if x100 > 0 then x100 else if fps \<le> 0 then 6000 else fps * 100)"

definition launchModeFpsValue :: "int \<Rightarrow> int \<Rightarrow> bool \<Rightarrow> int" where
  "launchModeFpsValue fps clientX100 apolloHost =
     (let x100 = resolveClientRefreshRateX100 fps clientX100 in
      if apolloHost \<and> isNtscX100 x100 then x100 * 10 else if fps > 0 then fps else 60)"

text \<open>The first index at which a list satisfies a predicate, as the search loops do.\<close>

fun find_index :: "('a \<Rightarrow> bool) \<Rightarrow> 'a list \<Rightarrow> nat option" where
  "find_index P [] = None"
| "find_index P (x # xs) = (if P x then Some 0 else map_option Suc (find_index P xs))"

fun nearest_preset :: "int \<Rightarrow> nat \<Rightarrow> FrameRatePreset list \<Rightarrow> nat \<times> int \<Rightarrow> nat \<times> int" where
  "nearest_preset fps i [] best = best"
| "nearest_preset fps i (p # ps) best =
     (let distance = \<bar>preset_fps p - fps\<bar>
      in nearest_preset fps (Suc i) ps (if distance < snd best then (i, distance) else best))"

definition frameRatePresetIndex :: "int \<Rightarrow> int \<Rightarrow> nat" where
  "frameRatePresetIndex fps clientX100 =
     (let presets = availableFrameRatePresets; x100 = (if clientX100 > 0 then clientX100 else 0) in
      case find_index (\<lambda>p. preset_fps p = fps \<and> preset_clientRefreshRateX100 p = x100) presets of
        Some i \<Rightarrow> i
      | None \<Rightarrow>
          (case find_index (\<lambda>p. preset_fps p = fps \<and> preset_clientRefreshRateX100 p = 0) presets of
             Some i \<Rightarrow> i
           | None \<Rightarrow> fst (nearest_preset fps 0 presets (3, \<bar>preset_fps (presets ! 3) - fps\<bar>))))"

definition availableFrameRates :: "int list" where
  "availableFrameRates = [30, 40, 60, 90, 120]"

text \<open>\<open>std::min_element\<close>: the first least element under a strict order.\<close>

fun min_element :: "('a \<Rightarrow> 'a \<Rightarrow> bool) \<Rightarrow> 'a \<Rightarrow> 'a list \<Rightarrow> 'a" where
  "min_element lt m [] = m"
| "min_element lt m (x # xs) = min_element lt (if lt x m then x else m) xs"

definition normalizeFrameRate :: "int \<Rightarrow> int" where
  "normalizeFrameRate requestedFps =
     min_element (\<lambda>lhs rhs. \<bar>lhs - requestedFps\<bar> < \<bar>rhs - requestedFps\<bar>) (hd availableFrameRates) (tl availableFrameRates)"

section \<open>Packet size\<close>

definition kPacketSizeAuto :: int where "kPacketSizeAuto = 0"
definition kPacketSizeMin :: int where "kPacketSizeMin = 200"
definition kPacketSizeMax :: int where "kPacketSizeMax = 65535"
definition kPacketSizeDefault :: int where "kPacketSizeDefault = 1392"
definition kPacketSizeVpnFriendly :: int where "kPacketSizeVpnFriendly = 1024"

definition clampPacketSize :: "int \<Rightarrow> int" where
  "clampPacketSize packetSize =
     (if packetSize \<le> kPacketSizeAuto then kPacketSizeAuto else clamp packetSize kPacketSizeMin kPacketSizeMax)"

definition resolveStreamPacketSize :: "int \<Rightarrow> bool \<Rightarrow> int" where
  "resolveStreamPacketSize packetSize preventPacketLoss =
     (let clamped = clampPacketSize packetSize in
      if clamped = kPacketSizeAuto then (if preventPacketLoss then kPacketSizeVpnFriendly else kPacketSizeDefault)
      else if preventPacketLoss \<and> clamped = kPacketSizeDefault then kPacketSizeVpnFriendly
      else clamped)"

section \<open>Controllers\<close>

definition MaxSupportedControllers :: int where
  "MaxSupportedControllers = 5"

definition clampControllerCount :: "int \<Rightarrow> int" where
  "clampControllerCount reportedCount = clamp reportedCount 0 MaxSupportedControllers"

definition connectedControllerMask :: "int \<Rightarrow> u16" where
  "connectedControllerMask reportedCount =
     (let count = clampControllerCount reportedCount in
      if count = 0 then 0 else ucast (push_bit (nat count) 1 - 1 :: u32))"

definition launchControllerMask :: "int \<Rightarrow> u16" where
  "launchControllerMask reportedCount =
     (let connected = connectedControllerMask reportedCount in if connected = 0 then 1 else connected)"

definition connectedControllerPlayers :: "int \<Rightarrow> int list" where
  "connectedControllerPlayers reportedCount = [1..clampControllerCount reportedCount]"

section \<open>Codecs\<close>

datatype CodecKind = H264 | H265 | AV1

record CodecCapabilities =
  cap_h264 :: bool
  cap_hevc :: bool
  cap_hevcMain10 :: bool
  cap_av1 :: bool
  cap_av1Main10 :: bool

definition decodeServerCodecMask :: "u32 \<Rightarrow> CodecCapabilities" where
  "decodeServerCodecMask m =
     \<lparr>cap_h264 = True, cap_hevc = (m AND 0x100 \<noteq> 0), cap_hevcMain10 = (m AND 0x200 \<noteq> 0),
      cap_av1 = (m AND 0x10000 \<noteq> 0), cap_av1Main10 = (m AND 0x20000 \<noteq> 0)\<rparr>"

definition supportsCodec :: "CodecCapabilities \<Rightarrow> CodecKind \<Rightarrow> bool \<Rightarrow> bool" where
  "supportsCodec caps codec hdr =
     (case codec of
        H264 \<Rightarrow> cap_h264 caps
      | H265 \<Rightarrow> if hdr then cap_hevcMain10 caps else cap_hevc caps
      | AV1 \<Rightarrow> if hdr then cap_av1Main10 caps else cap_av1 caps)"

datatype StreamVideoCodec = StreamH264 | StreamH265 | StreamAV1

definition supportedVideoFormats :: "StreamVideoCodec \<Rightarrow> bool \<Rightarrow> int" where
  "supportedVideoFormats codec requestHdr =
     (case codec of
        StreamH264 \<Rightarrow> 0x0001
      | StreamH265 \<Rightarrow> if requestHdr then 0x0100 OR 0x0200 else 0x0100
      | StreamAV1 \<Rightarrow> if requestHdr then 0x1000 OR 0x2000 else 0x1000)"

section \<open>Sanitising is normalising\<close>

text \<open>A range whose bounds are themselves on the grid; the ranges of all platforms are.\<close>

definition on_grid :: "int \<Rightarrow> bool" where
  "on_grid v = (v mod (if v < 20000 then 500 else 1000) = 0)"

definition grid_range :: "BitrateSliderRange \<Rightarrow> bool" where
  "grid_range r = (0 \<le> minKbps r \<and> minKbps r < maxKbps r \<and> on_grid (minKbps r) \<and> on_grid (maxKbps r))"

definition bitrate_ok :: "BitrateSliderRange \<Rightarrow> int \<Rightarrow> bool" where
  "bitrate_ok r v = (minKbps r \<le> v \<and> v \<le> maxKbps r \<and> on_grid v)"

lemma grid_range_platform: "grid_range (bitrateSliderRange p)"
  by (cases p) (simp_all add: grid_range_def bitrateSliderRange_def on_grid_def)

abbreviation snap :: "int \<Rightarrow> int \<Rightarrow> int" where
  "snap s v \<equiv> (v + s div 2) div s * s"

lemma snap_near: "0 < s \<Longrightarrow> even s \<Longrightarrow> \<bar>snap s v - v\<bar> \<le> s div 2"
proof -
  assume s: "0 < s" "even s"
  have "snap s v = v + s div 2 - (v + s div 2) mod s" by (simp add: minus_mod_eq_div_mult [symmetric])
  moreover have "0 \<le> (v + s div 2) mod s" "(v + s div 2) mod s < s" using s by simp_all
  moreover have "s = 2 * (s div 2)" using s by simp
  ultimately show ?thesis by linarith
qed

lemma snap_mono: "0 < s \<Longrightarrow> v \<le> w \<Longrightarrow> snap s v \<le> snap s w"
  by (simp add: zdiv_mono1)

lemma snap_id: "0 < s \<Longrightarrow> v mod s = 0 \<Longrightarrow> snap s v = v"
  by (auto simp: div_add)

lemma snap_low: "v \<le> 20000 \<Longrightarrow> snap 500 v \<le> 20000"
  using snap_mono [of 500 v 20000] by simp

lemma snap_high: "20000 \<le> v \<Longrightarrow> 20000 \<le> snap 1000 v"
  using snap_mono [of 1000 20000 v] by simp

lemmas step_simps = stepForKbps_def kCoarseThresholdKbps_def kFineStepKbps_def kCoarseStepKbps_def

lemma snap_on_grid: "on_grid (snap (stepForKbps v) v)"
proof (cases "v < 20000")
  case True
  then have "snap 500 v < 20000 \<or> snap 500 v = 20000" using snap_low [of v] by linarith
  then have "on_grid (snap 500 v)" by (auto simp: on_grid_def)
  with True show ?thesis by (simp add: step_simps)
next
  case False
  then have "\<not> snap 1000 v < 20000" using snap_high [of v] by linarith
  then have "on_grid (snap 1000 v)" by (simp add: on_grid_def)
  with False show ?thesis by (simp add: step_simps)
qed

lemma snap_grid_id: "on_grid v \<Longrightarrow> snap (stepForKbps v) v = v"
  by (rule snap_id) (auto simp: step_simps on_grid_def split: if_splits)

lemma snap_step_mono:
  assumes "v \<le> w"
  shows "snap (stepForKbps v) v \<le> snap (stepForKbps w) w"
proof -
  consider "w < 20000" | "v < 20000" "20000 \<le> w" | "20000 \<le> v" by linarith
  then show ?thesis
  proof cases
    case 1
    then show ?thesis using assms snap_mono [of 500 v w] by (simp add: step_simps)
  next
    case 2
    then have "snap 500 v \<le> snap 1000 w" using snap_low [of v] snap_high [of w] by linarith
    then show ?thesis using 2 by (simp add: step_simps)
  next
    case 3
    then show ?thesis using assms snap_mono [of 1000 v w] by (simp add: step_simps)
  qed
qed

lemma quantize_eq: "grid_range r \<Longrightarrow> quantizeBitrateKbps v r =
    clamp (snap (stepForKbps (clamp v (minKbps r) (maxKbps r))) (clamp v (minKbps r) (maxKbps r))) (minKbps r) (maxKbps r)"
proof -
  assume r: "grid_range r"
  let ?c = "clamp v (minKbps r) (maxKbps r)"
  have "0 \<le> ?c" "0 < stepForKbps ?c" using r by (simp_all add: clamp_def grid_range_def step_simps)
  then have "(?c + stepForKbps ?c sdiv 2) sdiv stepForKbps ?c = (?c + stepForKbps ?c div 2) div stepForKbps ?c"
    by (simp add: signed_divide_int_def sgn_if)
  with r show ?thesis by (simp add: quantizeBitrateKbps_def Let_def grid_range_def)
qed

lemma clamp_grid: "on_grid x \<Longrightarrow> grid_range r \<Longrightarrow> bitrate_ok r (clamp x (minKbps r) (maxKbps r))"
  by (auto simp: clamp_def bitrate_ok_def grid_range_def)

lemma quantize_ok: "grid_range r \<Longrightarrow> bitrate_ok r (quantizeBitrateKbps v r)"
  unfolding quantize_eq by (rule clamp_grid [OF snap_on_grid])

lemma quantize_id:
  assumes "grid_range r" "bitrate_ok r v"
  shows "quantizeBitrateKbps v r = v"
proof -
  have "clamp v (minKbps r) (maxKbps r) = v" "on_grid v" using assms(2) by (simp_all add: clamp_def bitrate_ok_def)
  then show ?thesis unfolding quantize_eq [OF assms(1)] by (simp add: snap_grid_id)
qed

definition packet_size_ok :: "int \<Rightarrow> bool" where
  "packet_size_ok v = (v = kPacketSizeAuto \<or> (kPacketSizeMin \<le> v \<and> v \<le> kPacketSizeMax))"

interpretation bitrate: normalizer "\<lambda>v. quantizeBitrateKbps v (bitrateSliderRange p)" "bitrate_ok (bitrateSliderRange p)"
  for p
  by unfold_locales (simp_all add: quantize_ok quantize_id grid_range_platform)

interpretation packet_size: normalizer clampPacketSize packet_size_ok
  by unfold_locales
    (auto simp: clampPacketSize_def packet_size_ok_def clamp_def kPacketSizeAuto_def kPacketSizeMin_def kPacketSizeMax_def)

lemma min_element_in: "min_element lt m xs \<in> set (m # xs)"
  by (induction lt m xs rule: min_element.induct) (auto split: if_splits)

interpretation frame_rate: normalizer normalizeFrameRate "\<lambda>v. v \<in> set availableFrameRates"
proof
  show "normalizeFrameRate x \<in> set availableFrameRates" for x
    using min_element_in [of "\<lambda>lhs rhs. \<bar>lhs - x\<bar> < \<bar>rhs - x\<bar>" "hd availableFrameRates" "tl availableFrameRates"]
    by (simp add: normalizeFrameRate_def availableFrameRates_def)
  show "normalizeFrameRate x = x" if "x \<in> set availableFrameRates" for x
  proof -
    from that consider "x = 30" | "x = 40" | "x = 60" | "x = 90" | "x = 120" by (auto simp: availableFrameRates_def)
    then show ?thesis by cases (simp_all add: normalizeFrameRate_def availableFrameRates_def)
  qed
qed

interpretation controllers: normalizer clampControllerCount "\<lambda>v. v \<in> {0..MaxSupportedControllers}"
  by unfold_locales (auto simp: clampControllerCount_def clamp_def MaxSupportedControllers_def)

section \<open>What the rules give\<close>

lemma clamp_nearer: "lo \<le> v \<Longrightarrow> v \<le> hi \<Longrightarrow> \<bar>clamp x lo hi - v\<bar> \<le> \<bar>x - v\<bar>"
  by (auto simp: clamp_def)

lemma clamp_mono: "x \<le> y \<Longrightarrow> lo \<le> hi \<Longrightarrow> clamp x lo hi \<le> clamp y lo hi"
  by (auto simp: clamp_def)

lemma quantize_near:
  assumes "grid_range r" "minKbps r \<le> v" "v \<le> maxKbps r"
  shows "\<bar>quantizeBitrateKbps v r - v\<bar> \<le> stepForKbps v div 2"
proof -
  have "clamp v (minKbps r) (maxKbps r) = v" using assms(2,3) by (simp add: clamp_def)
  moreover have "\<bar>snap (stepForKbps v) v - v\<bar> \<le> stepForKbps v div 2" by (rule snap_near) (simp_all add: step_simps)
  ultimately show ?thesis
    unfolding quantize_eq [OF assms(1)] using clamp_nearer [OF assms(2,3), of "snap (stepForKbps v) v"] by simp
qed

lemma quantize_mono:
  assumes "grid_range r" "v \<le> w"
  shows "quantizeBitrateKbps v r \<le> quantizeBitrateKbps w r"
proof -
  have r: "minKbps r \<le> maxKbps r" using assms(1) by (simp add: grid_range_def)
  show ?thesis unfolding quantize_eq [OF assms(1)] by (intro clamp_mono snap_step_mono assms(2) r)
qed

text \<open>
  The bitrate setting is normalised on every platform: the result is in range and on the grid of
  0.5 Mbps steps below 20 Mbps and 1 Mbps steps from there, quantising again changes nothing, exactly
  the grid values are kept, a larger request never gives a smaller bitrate, and a request in
  range moves by at most half a step.
\<close>

theorem quantizeBitrateKbps_normalises:
  "bitrate_ok (bitrateSliderRange p) (quantizeBitrateKbps v (bitrateSliderRange p))
   \<and> quantizeBitrateKbps (quantizeBitrateKbps v (bitrateSliderRange p)) (bitrateSliderRange p) = quantizeBitrateKbps v (bitrateSliderRange p)
   \<and> (quantizeBitrateKbps v (bitrateSliderRange p) = v \<longleftrightarrow> bitrate_ok (bitrateSliderRange p) v)
   \<and> (v \<le> w \<longrightarrow> quantizeBitrateKbps v (bitrateSliderRange p) \<le> quantizeBitrateKbps w (bitrateSliderRange p))
   \<and> (minKbps (bitrateSliderRange p) \<le> v \<and> v \<le> maxKbps (bitrateSliderRange p) \<longrightarrow>
        \<bar>quantizeBitrateKbps v (bitrateSliderRange p) - v\<bar> \<le> stepForKbps v div 2)"
  using bitrate.norm_ok [where p = p and x = v] bitrate.norm_idem [where p = p and x = v] bitrate.norm_fixpoint_iff [where p = p and x = v]
    quantize_mono [OF grid_range_platform [of p], of v w] quantize_near [OF grid_range_platform [of p], of v] by blast

theorem quantizeBitrateKbps_normalises_witness:
  "\<bar>quantizeBitrateKbps 10347 (bitrateSliderRange Switch) - 10347\<bar> \<le> 250
    \<and> quantizeBitrateKbps 10347 (bitrateSliderRange Switch) \<le> quantizeBitrateKbps 21600 (bitrateSliderRange Switch)"
  using quantizeBitrateKbps_normalises [of Switch 10347 21600]
  by (simp add: bitrateSliderRange_def stepForKbps_def kCoarseThresholdKbps_def kFineStepKbps_def)

text \<open>Every preset is found again under its own stored pair.\<close>

lemma frameRatePresetIndex_presets:
  "i < length availableFrameRatePresets \<Longrightarrow>
   frameRatePresetIndex (preset_fps (availableFrameRatePresets ! i)) (preset_clientRefreshRateX100 (availableFrameRatePresets ! i)) = i"
  by (auto simp: availableFrameRatePresets_def frameRatePresetIndex_def less_Suc_eq nth_Cons')

text \<open>The mask has one bit per connected player.\<close>

lemma connectedControllerMask_bits:
  "bit (connectedControllerMask n) i \<longleftrightarrow> int i < clampControllerCount n"
proof -
  have c: "0 \<le> clampControllerCount n" "clampControllerCount n \<le> 5"
    using controllers.norm_ok [of n] by (auto simp: MaxSupportedControllers_def)
  have "push_bit k 1 - 1 = (mask k :: u32)" for k by (simp add: mask_eq_exp_minus_1 push_bit_eq_mult)
  then have "connectedControllerMask n = (ucast (mask (nat (clampControllerCount n)) :: u32) :: u16)"
    by (simp add: connectedControllerMask_def Let_def)
  then show ?thesis using c by (auto simp: bit_simps)
qed

end
