(* ===== verification/HostCapabilities.thy ===== *)
theory HostCapabilities
  imports StreamOptions
begin

text \<open>
  Model of \<open>app/src/host/HostCapabilities.hpp\<close> and \<open>.cpp\<close>: which server a host runs, and which of
  the extensions of Apollo and its forks the client may use with it.
\<close>

section \<open>Data\<close>

datatype HostKind = Unknown | Sunshine | Apollo | Vibeshine | Punktfunk | Vibepollo | Polaris | SolarFlare | FoundationSunshine

record HostIdentity =
  id_kind :: HostKind
  id_product :: string
  id_version :: string
  id_webConsolePort :: u16

record HostCapabilities =
  hc_kind :: HostKind
  hc_standardGameStream :: bool
  hc_gamepadInput :: bool
  hc_extendedLaunchOptions :: bool
  hc_preciseRefreshRate :: bool
  hc_virtualDisplay :: bool
  hc_hostManagedVirtualDisplay :: bool
  hc_virtualDisplayDriverReady :: bool
  hc_serverCommands :: bool
  hc_clipboardSync :: bool
  hc_inputOnly :: bool
  hc_permissionAdvertised :: bool
  hc_permissions :: u32
  hc_serverCommandList :: "string list"
  hc_detectionReason :: string
  hc_codecs :: CodecCapabilities

record HostMetadata =
  md_appVersion :: string
  md_gfeVersion :: string
  md_gsVersion :: string
  md_advertisedExtensions :: string

definition default_codecs :: CodecCapabilities where
  "default_codecs = \<lparr>cap_h264 = True, cap_hevc = False, cap_hevcMain10 = False, cap_av1 = False, cap_av1Main10 = False\<rparr>"

definition default_capabilities :: HostCapabilities where
  "default_capabilities =
     \<lparr>hc_kind = Unknown, hc_standardGameStream = True, hc_gamepadInput = False, hc_extendedLaunchOptions = False,
      hc_preciseRefreshRate = False, hc_virtualDisplay = False, hc_hostManagedVirtualDisplay = False,
      hc_virtualDisplayDriverReady = False, hc_serverCommands = False, hc_clipboardSync = False, hc_inputOnly = False,
      hc_permissionAdvertised = False, hc_permissions = 0, hc_serverCommandList = [], hc_detectionReason = [],
      hc_codecs = default_codecs\<rparr>"

section \<open>The servers\<close>

definition contains :: "string \<Rightarrow> string \<Rightarrow> bool" where
  "contains haystack needle = has_substr needle (map tolower haystack)"

definition isApolloFamily :: "HostKind \<Rightarrow> bool" where
  "isApolloFamily kind = (kind = Apollo \<or> kind = Vibepollo)"

definition standardSunshine :: HostCapabilities where
  "standardSunshine = default_capabilities\<lparr>hc_kind := Sunshine, hc_standardGameStream := True, hc_gamepadInput := True,
     hc_detectionReason := ''standard GameStream/Sunshine fallback''\<rparr>"

definition apollo :: HostCapabilities where
  "apollo = default_capabilities\<lparr>hc_kind := Apollo, hc_standardGameStream := True, hc_gamepadInput := True,
     hc_extendedLaunchOptions := True, hc_preciseRefreshRate := True, hc_virtualDisplay := True,
     hc_detectionReason := ''explicit Apollo identity''\<rparr>"

definition vibeshine :: HostCapabilities where
  "vibeshine = default_capabilities\<lparr>hc_kind := Vibeshine, hc_standardGameStream := True, hc_gamepadInput := True,
     hc_extendedLaunchOptions := True, hc_preciseRefreshRate := True, hc_detectionReason := ''explicit Vibeshine identity''\<rparr>"

definition punktfunk :: HostCapabilities where
  "punktfunk = default_capabilities\<lparr>hc_kind := Punktfunk, hc_standardGameStream := True, hc_gamepadInput := True,
     hc_hostManagedVirtualDisplay := True, hc_detectionReason := ''Punktfunk health probe''\<rparr>"

definition vibepollo :: HostCapabilities where
  "vibepollo = apollo\<lparr>hc_kind := Vibepollo, hc_detectionReason := ''explicit Vibepollo identity''\<rparr>"

definition polaris :: HostCapabilities where
  "polaris = standardSunshine\<lparr>hc_kind := Polaris, hc_detectionReason := ''explicit Polaris identity''\<rparr>"

definition solarFlare :: HostCapabilities where
  "solarFlare = standardSunshine\<lparr>hc_kind := SolarFlare, hc_detectionReason := ''explicit Solar Flare identity''\<rparr>"

definition foundationSunshine :: HostCapabilities where
  "foundationSunshine = standardSunshine\<lparr>hc_kind := FoundationSunshine, hc_detectionReason := ''explicit Foundation Sunshine identity''\<rparr>"

definition identityFor :: "HostKind \<Rightarrow> HostIdentity" where
  "identityFor kind =
     \<lparr>id_kind = kind,
      id_product = (case kind of
          Sunshine \<Rightarrow> ''Sunshine-compatible'' | Apollo \<Rightarrow> ''Apollo'' | Vibeshine \<Rightarrow> ''Vibeshine'' | Punktfunk \<Rightarrow> ''Punktfunk''
        | Vibepollo \<Rightarrow> ''Vibepollo'' | Polaris \<Rightarrow> ''Polaris'' | SolarFlare \<Rightarrow> ''Solar Flare''
        | FoundationSunshine \<Rightarrow> ''Foundation Sunshine'' | Unknown \<Rightarrow> ''GameStream host''),
      id_version = [], id_webConsolePort = (if kind = Punktfunk then 47992 else 47990)\<rparr>"

section \<open>Detection\<close>

text \<open>One of the four fields of the server information names the server.\<close>

definition mentions :: "HostMetadata \<Rightarrow> string \<Rightarrow> bool" where
  "mentions md name =
     (contains (md_appVersion md) name \<or> contains (md_gfeVersion md) name \<or> contains (md_gsVersion md) name \<or>
      contains (md_advertisedExtensions md) name)"

definition detect :: "HostMetadata \<Rightarrow> HostCapabilities" where
  "detect md =
     (let extension = contains (md_advertisedExtensions md) in
      if mentions md ''vibeshine'' then vibeshine
      else if mentions md ''punktfunk'' then punktfunk
      else
        let explicitVibepollo = mentions md ''vibepollo''; explicitApollo = (explicitVibepollo \<or> mentions md ''apollo'') in
        if \<not> explicitApollo then
          if mentions md ''polaris'' then polaris
          else if mentions md ''solar-flare'' \<or> mentions md ''solarflare'' then solarFlare
          else if mentions md ''foundation'' then foundationSunshine
          else standardSunshine
        else
          let result = (if explicitVibepollo then vibepollo else apollo) in
          if md_advertisedExtensions md \<noteq> [] then
            result\<lparr>hc_virtualDisplay := extension ''virtual-display'' \<or> extension ''virtual_display'',
                   hc_serverCommands := extension ''client-commands'' \<or> extension ''server-commands'',
                   hc_clipboardSync := extension ''clipboard'',
                   hc_inputOnly := extension ''input-only'' \<or> extension ''input_only'',
                   hc_detectionReason := (if explicitVibepollo then ''Vibepollo identity with explicit extension list''
                                          else ''Apollo identity with explicit extension list'')\<rparr>
          else result)"

definition clipboardSet :: u32 where "clipboardSet = 0x00010000"
definition clipboardRead :: u32 where "clipboardRead = 0x00020000"
definition serverCommand :: u32 where "serverCommand = 0x00100000"

definition base_capabilities :: "HostKind \<Rightarrow> HostCapabilities" where
  "base_capabilities kind =
     (case kind of
        Apollo \<Rightarrow> apollo | Vibepollo \<Rightarrow> vibepollo | Vibeshine \<Rightarrow> vibeshine | Punktfunk \<Rightarrow> punktfunk | Polaris \<Rightarrow> polaris
      | SolarFlare \<Rightarrow> solarFlare | FoundationSunshine \<Rightarrow> foundationSunshine | Sunshine \<Rightarrow> standardSunshine
      | Unknown \<Rightarrow> standardSunshine)"

definition fromServerInfo :: "HostKind \<Rightarrow> bool \<Rightarrow> bool \<Rightarrow> bool \<Rightarrow> u32 \<Rightarrow> string list \<Rightarrow> bool \<Rightarrow> HostCapabilities" where
  "fromServerInfo identity virtualDisplayCapable driverReady permissionAdvertised permissions commands currentAppHasUuid =
     (let r0 = base_capabilities identity;
          r1 = (if hc_kind r0 = Sunshine \<and> (permissionAdvertised \<or> commands \<noteq> []) then apollo else r0);
          r2 = (if virtualDisplayCapable
                then r1\<lparr>hc_virtualDisplay := True, hc_extendedLaunchOptions := True, hc_preciseRefreshRate := True\<rparr> else r1);
          r3 = r2\<lparr>hc_virtualDisplayDriverReady := driverReady, hc_permissionAdvertised := permissionAdvertised,
                  hc_permissions := permissions, hc_serverCommandList := commands,
                  hc_serverCommands := isApolloFamily (hc_kind r2) \<and> commands \<noteq> [] \<and>
                    (\<not> permissionAdvertised \<or> permissions AND serverCommand \<noteq> 0),
                  hc_clipboardSync := isApolloFamily (hc_kind r2) \<and> permissionAdvertised \<and>
                    permissions AND (clipboardSet OR clipboardRead) \<noteq> 0,
                  hc_inputOnly := isApolloFamily (hc_kind r2) \<and> currentAppHasUuid\<rparr>
      in if hc_kind r3 = Vibepollo then r3\<lparr>hc_detectionReason := ''Vibepollo identity or server-info fields''\<rparr>
         else if hc_kind r3 = Apollo then r3\<lparr>hc_detectionReason := ''Apollo identity or server-info fields''\<rparr>
         else if hc_kind r3 = Vibeshine then r3\<lparr>hc_detectionReason := ''Vibeshine identity with server-info fields''\<rparr>
         else r3)"

section \<open>Gating\<close>

lemmas server_defs = apollo_def vibepollo_def vibeshine_def punktfunk_def polaris_def solarFlare_def
  foundationSunshine_def standardSunshine_def default_capabilities_def

lemma base_kind: "hc_kind (base_capabilities kind) = (if kind = Unknown then Sunshine else kind)"
  by (cases kind) (simp_all add: base_capabilities_def server_defs)

lemma fromServerInfo_fields:
  fixes identity vd ready adv perms cmds uuid
  defines "c \<equiv> fromServerInfo identity vd ready adv perms cmds uuid"
  defines "k \<equiv> (if identity \<in> {Sunshine, Unknown} then (if adv \<or> cmds \<noteq> [] then Apollo else Sunshine) else identity)"
  shows "hc_kind c = k"
    and "hc_serverCommands c \<longleftrightarrow> isApolloFamily k \<and> cmds \<noteq> [] \<and> (adv \<longrightarrow> perms AND serverCommand \<noteq> 0)"
    and "hc_clipboardSync c \<longleftrightarrow> isApolloFamily k \<and> adv \<and> perms AND (clipboardSet OR clipboardRead) \<noteq> 0"
    and "hc_inputOnly c \<longleftrightarrow> isApolloFamily k \<and> uuid"
  using base_kind [of identity] unfolding c_def k_def
  by (auto simp: fromServerInfo_def Let_def apollo_def isApolloFamily_def)

lemma and_single_bit: "(v :: u32) AND 2 ^ n \<noteq> 0 \<longleftrightarrow> n < 32 \<and> bit v n"
  by (auto simp: bit_eq_iff [of "v AND 2 ^ n" 0] bit_simps)

lemma and_or_nonzero: "(v :: u32) AND (a OR b) \<noteq> 0 \<longleftrightarrow> v AND a \<noteq> 0 \<or> v AND b \<noteq> 0"
  by (auto simp: bit_eq_iff [of "v AND (a OR b)" 0] bit_eq_iff [of "v AND a" 0] bit_eq_iff [of "v AND b" 0] bit_simps)

text \<open>
  The Apollo extensions are granted on Apollo evidence only: the host counts as Apollo exactly
  if it is identified as Apollo or Vibepollo, or as plain Sunshine and it advertises permissions
  or server commands; the clipboard further needs advertised permissions with the set or the read
  bit (16, 17), server commands need a command list and, when permissions are advertised, bit 20, and
  input-only mode needs the application's UUID.
\<close>

theorem fromServerInfo_gated:
  fixes identity vd ready adv perms cmds uuid
  defines "c \<equiv> fromServerInfo identity vd ready adv perms cmds uuid"
  defines "family \<equiv> identity \<in> {Apollo, Vibepollo} \<or> (identity \<in> {Sunshine, Unknown} \<and> (adv \<or> cmds \<noteq> []))"
  shows "isApolloFamily (hc_kind c) = family
    \<and> hc_clipboardSync c = (family \<and> adv \<and> (bit perms 16 \<or> bit perms 17))
    \<and> hc_serverCommands c = (family \<and> cmds \<noteq> [] \<and> (\<not> adv \<or> bit perms 20))
    \<and> hc_inputOnly c = (family \<and> uuid)"
proof -
  have bits: "perms AND serverCommand \<noteq> 0 \<longleftrightarrow> bit perms 20"
    using and_single_bit [of perms 20] by (simp add: serverCommand_def push_bit_eq_mult)
  have clip: "perms AND (clipboardSet OR clipboardRead) \<noteq> 0 \<longleftrightarrow> bit perms 16 \<or> bit perms 17"
    unfolding and_or_nonzero using and_single_bit [of perms 16] and_single_bit [of perms 17]
    by (simp add: clipboardSet_def clipboardRead_def push_bit_eq_mult)
  show ?thesis
    unfolding c_def family_def fromServerInfo_fields bits clip by (cases identity) (auto simp: isApolloFamily_def)
qed

theorem fromServerInfo_gated_witness:
  "hc_clipboardSync (fromServerInfo Sunshine False False True 0x00020000 [] False)
    \<and> \<not> hc_clipboardSync (fromServerInfo Vibeshine False False True 0x00020000 [] False)"
  using fromServerInfo_gated [of Sunshine False False True "0x00020000" "[]" False]
    fromServerInfo_gated [of Vibeshine False False True "0x00020000" "[]" False]
  by simp

text \<open>
  The server is found by precedence: of the names found in the server information, in any of its
  four fields and in any letter case, the first in the order Vibeshine, Punktfunk, Vibepollo,
  Apollo, Polaris, Solar Flare, Foundation decides, and a host that names none is treated as
  Sunshine; so an Apollo fork is not taken for Apollo.
\<close>

definition precedence :: "(string list \<times> HostKind) list" where
  "precedence = [([''vibeshine''], Vibeshine), ([''punktfunk''], Punktfunk), ([''vibepollo''], Vibepollo), ([''apollo''], Apollo),
     ([''polaris''], Polaris), ([''solar-flare'', ''solarflare''], SolarFlare), ([''foundation''], FoundationSunshine)]"

theorem detect_precedence:
  "hc_kind (detect md) =
     (case find (\<lambda>(names, k). list_ex (mentions md) names) precedence of Some (names, k) \<Rightarrow> k | None \<Rightarrow> Sunshine)"
  by (simp add: precedence_def detect_def Let_def server_defs)

end
