(* ===== verification/WakeOnLan.thy ===== *)
theory WakeOnLan
  imports Prelude
begin

text \<open>
  Model of \<open>app/src/features/host/WakeOnLanTargets.hpp\<close> and \<open>.cpp\<close>: MAC addresses as typed by the
  user, the magic packet, and the addresses and ports it is sent to.
\<close>

section \<open>Definitions\<close>

record WakeOnLanOverride =
  ov_mac :: string
  ov_address :: string
  ov_port :: u16
  ov_secureOnPassword :: string
  ov_resendAttempts :: int

definition kDefaultSunshinePort :: u16 where
  "kDefaultSunshinePort = 47989"

definition kStaticPorts :: "u16 list" where
  "kStaticPorts = [9, 47009]"

definition kDynamicPorts :: "u16 list" where
  "kDynamicPorts = [47998, 47999, 48000, 48002, 48010]"

definition pushUniqueString :: "string \<Rightarrow> string list \<Rightarrow> string list" where
  "pushUniqueString v out = (if v \<noteq> [] \<and> v \<notin> set out then out @ [v] else out)"

definition pushUniquePort :: "u16 \<Rightarrow> u16 list \<Rightarrow> u16 list" where
  "pushUniquePort p out = (if p \<notin> set out then out @ [p] else out)"

text \<open>The scan of a MAC address; \<open>None\<close> is the early return for a character that does not belong.\<close>

fun mac_digits :: "string \<Rightarrow> string option" where
  "mac_digits [] = Some []"
| "mac_digits (ch # s) =
     (if isxdigit ch then map_option ((#) (toupper ch)) (mac_digits s)
      else if ch = CHR '':'' \<or> ch = CHR ''-'' \<or> isspace ch then mac_digits s
      else None)"

definition normalizeMacAddress :: "string \<Rightarrow> string" where
  "normalizeMacAddress m =
     (case mac_digits m of
        None \<Rightarrow> []
      | Some normalized \<Rightarrow>
          if length normalized \<noteq> 12 then []
          else if list_all (\<lambda>c. c = CHR ''0'') normalized then []
          else normalized)"

definition hasUsableOverrideMac :: "WakeOnLanOverride \<Rightarrow> bool" where
  "hasUsableOverrideMac over = (normalizeMacAddress (ov_mac over) \<noteq> [])"

definition wakeTargetAddresses :: "string \<Rightarrow> WakeOnLanOverride \<Rightarrow> string list \<Rightarrow> bool \<Rightarrow> string list" where
  "wakeTargetAddresses storedMac over hostAddresses includeBroadcast =
     fold pushUniqueString hostAddresses (pushUniqueString (ov_address over) [])"

definition wakeTargetPorts :: "WakeOnLanOverride \<Rightarrow> u16 \<Rightarrow> u16 list" where
  "wakeTargetPorts over basePort =
     (if ov_port over \<noteq> 0 then [ov_port over]
      else
        let base = (if basePort \<noteq> 0 then basePort else kDefaultSunshinePort) in
        fold (\<lambda>p. pushUniquePort ((p - kDefaultSunshinePort) + base)) kDynamicPorts (fold pushUniquePort kStaticPorts []))"

definition nibble :: "char \<Rightarrow> int" where
  "nibble c =
     (if 48 \<le> cval c \<and> cval c \<le> 57 then int (cval c) - 48
      else if 65 \<le> cval c \<and> cval c \<le> 70 then int (cval c) - 65 + 10
      else if 97 \<le> cval c \<and> cval c \<le> 102 then int (cval c) - 97 + 10
      else -1)"

fun mac_pairs :: "string \<Rightarrow> bytes option" where
  "mac_pairs (hi # lo # rest) =
     (if nibble hi < 0 \<or> nibble lo < 0 then None
      else map_option ((#) (word_of_int (push_bit 4 (nibble hi) OR nibble lo))) (mac_pairs rest))"
| "mac_pairs rest = Some []"

definition macToBytes :: "string \<Rightarrow> bytes option" where
  "macToBytes normalized = (if length normalized \<noteq> 12 then None else mac_pairs normalized)"

definition buildMagicPacket :: "string \<Rightarrow> string \<Rightarrow> bytes" where
  "buildMagicPacket normalizedMac secureOnPassword =
     (case macToBytes (normalizeMacAddress normalizedMac) of
        None \<Rightarrow> []
      | Some m \<Rightarrow>
          let packet = replicate 6 0xFF @ concat (replicate 16 m) in
          if secureOnPassword \<noteq> [] then
            (case macToBytes (normalizeMacAddress secureOnPassword) of
               None \<Rightarrow> []
             | Some pwd \<Rightarrow>
                 let packet = packet @ pwd in if length packet \<noteq> 102 \<and> length packet \<noteq> 108 then [] else packet)
          else if length packet \<noteq> 102 \<and> length packet \<noteq> 108 then [] else packet)"

section \<open>MAC addresses\<close>

text \<open>The text of a MAC address, two digits per byte, with separators between the bytes.\<close>

definition hex_digit :: "nat \<Rightarrow> char" where
  "hex_digit n = (if n < 10 then char_of (48 + n) else char_of (55 + n))"

fun mac_text :: "string \<Rightarrow> bytes \<Rightarrow> string" where
  "mac_text sep [] = []"
| "mac_text sep [b] = [hex_digit (unat b div 16), hex_digit (unat b mod 16)]"
| "mac_text sep (b # bs) = hex_digit (unat b div 16) # hex_digit (unat b mod 16) # sep @ mac_text sep bs"

definition separator :: "string \<Rightarrow> bool" where
  "separator sep = list_all (\<lambda>c. c = CHR '':'' \<or> c = CHR ''-'' \<or> isspace c) sep"

lemma cval_hex_digit: "n < 16 \<Longrightarrow> cval (hex_digit n) = (if n < 10 then 48 + n else 55 + n)"
  by (simp add: hex_digit_def)

lemma hex_digit_props:
  assumes "n < 16"
  shows "isxdigit (hex_digit n)" "toupper (hex_digit n) = hex_digit n" "nibble (hex_digit n) = int n"
  using assms by (auto simp: isxdigit_def isdigit_def toupper_def islower_def nibble_def cval_hex_digit)

lemma byte_nibbles: "unat (b :: u8) div 16 < 16" "unat b mod 16 < 16"
proof -
  have "unat b < 2 ^ LENGTH(8)" by (rule unsigned_less)
  then have "unat b < 256" by simp
  then show "unat b div 16 < 16" "unat b mod 16 < 16" by auto
qed

lemma mac_digits_separator:
  assumes "separator sep"
  shows "mac_digits (sep @ s) = mac_digits s"
  using assms
proof (induction sep)
  case (Cons c sep)
  then have "\<not> isxdigit c" by (auto simp: separator_def isxdigit_def isdigit_def isspace_def)
  with Cons show ?case by (auto simp: separator_def)
qed simp

lemma mac_digits_text:
  assumes "separator sep"
  shows "mac_digits (mac_text sep bs) = Some (mac_text [] bs)"
  using assms by (induction sep bs rule: mac_text.induct) (simp_all add: hex_digit_props byte_nibbles mac_digits_separator)

lemma length_mac_text: "length (mac_text [] bs) = 2 * length bs"
  by (induction "[] :: string" bs rule: mac_text.induct) simp_all

lemma mac_text_zero: "list_all (\<lambda>c. c = CHR ''0'') (mac_text [] bs) \<longleftrightarrow> list_all (\<lambda>b. b = 0) bs"
proof -
  have z: "n < 16 \<Longrightarrow> hex_digit n = CHR ''0'' \<longleftrightarrow> n = 0" for n
  proof
    assume n: "n < 16" and "hex_digit n = CHR ''0''"
    then have "cval (hex_digit n) = 48" by simp
    with n show "n = 0" by (simp add: cval_hex_digit split: if_splits)
  qed (simp add: hex_digit_def char_of_eq_iff)
  have "hex_digit (unat b div 16) = CHR ''0'' \<and> hex_digit (unat b mod 16) = CHR ''0'' \<longleftrightarrow> b = 0" for b :: u8
  proof -
    have "unat b div 16 = 0 \<and> unat b mod 16 = 0 \<longleftrightarrow> b = 0" by (metis add_0 div_mult_mod_eq mult_0 unat_eq_0 div_0 mod_0)
    with z byte_nibbles show ?thesis by simp
  qed
  then show ?thesis by (induction "[] :: string" bs rule: mac_text.induct) auto
qed

lemma or_nibbles:
  assumes "lo < 16"
  shows "push_bit 4 (int hi) OR int lo = int (hi * 16 + lo)"
proof -
  have lo: "int lo = take_bit 4 (int lo)" using assms by (simp add: take_bit_int_eq_self)
  have "push_bit 4 (int hi) + int lo = push_bit 4 (int hi) OR int lo"
    by (subst (1 2) lo) (rule disjunctive_add, auto simp: bit_simps)
  then show ?thesis by (simp add: push_bit_eq_mult)
qed

lemma mac_pairs_text: "mac_pairs (mac_text [] bs) = Some bs"
proof -
  have "word_of_int (push_bit 4 (int (unat b div 16)) OR int (unat b mod 16)) = (b :: u8)" for b
  proof -
    have "push_bit 4 (int (unat b div 16)) OR int (unat b mod 16) = uint b"
      using byte_nibbles [of b] or_nibbles [of "unat b mod 16" "unat b div 16"] by simp
    then show ?thesis by simp
  qed
  then show ?thesis
    by (induction "[] :: string" bs rule: mac_text.induct) (simp_all add: hex_digit_props byte_nibbles)
qed

lemma macToBytes_text:
  assumes "separator sep" "length bs = 6" "\<not> list_all (\<lambda>b. b = 0) bs"
  shows "normalizeMacAddress (mac_text sep bs) = mac_text [] bs" "macToBytes (normalizeMacAddress (mac_text sep bs)) = Some bs"
  using assms by (simp_all add: normalizeMacAddress_def mac_digits_text length_mac_text mac_text_zero macToBytes_def mac_pairs_text)

text \<open>
  A magic packet wakes the address that was typed: for every non-zero MAC address of six bytes,
  written with two hexadecimal digits per byte and any of the separators, the packet is six bytes FF
  and sixteen copies of the address, 102 bytes in all, and with a SecureOn password its six
  bytes follow.
\<close>

theorem buildMagicPacket_text:
  assumes "separator sep" "length m = 6" "\<not> list_all (\<lambda>b. b = 0) m"
    and "length pwd = 6" "\<not> list_all (\<lambda>b. b = 0) pwd"
  shows "buildMagicPacket (mac_text sep m) [] = replicate 6 0xFF @ concat (replicate 16 m)
    \<and> length (buildMagicPacket (mac_text sep m) []) = 102
    \<and> buildMagicPacket (mac_text sep m) (mac_text sep pwd) = replicate 6 0xFF @ concat (replicate 16 m) @ pwd"
proof -
  have len: "length (concat (replicate 16 m)) = 96" using assms(2) by (simp add: length_concat sum_list_replicate)
  have "mac_text sep pwd \<noteq> []" using assms(4) by (cases "(sep, pwd)" rule: mac_text.cases) auto
  with len assms macToBytes_text [OF assms(1-3)] macToBytes_text [OF assms(1,4,5)] show ?thesis
    by (simp add: buildMagicPacket_def Let_def)
qed

theorem buildMagicPacket_text_witness:
  "length (buildMagicPacket (mac_text '':'' [0xAA, 0xBB, 0xCC, 0xDD, 0xEE, 0xFF]) []) = 102"
  using buildMagicPacket_text [of "'':''" "[0xAA, 0xBB, 0xCC, 0xDD, 0xEE, 0xFF]" "[1, 2, 3, 4, 5, 6]"]
  by (simp add: separator_def length_concat sum_list_replicate del: mac_text.simps)

section \<open>Targets\<close>

lemma fold_pushUniqueString:
  "distinct out \<Longrightarrow> [] \<notin> set out \<Longrightarrow> distinct (fold pushUniqueString xs out) \<and>
     set (fold pushUniqueString xs out) = set out \<union> (set xs - {[]})"
  by (induction xs arbitrary: out) (auto simp: pushUniqueString_def)

lemma fold_pushUnique_hd: "out \<noteq> [] \<Longrightarrow> fold pushUniqueString xs out \<noteq> [] \<and> hd (fold pushUniqueString xs out) = hd out"
  by (induction xs arbitrary: out) (auto simp: pushUniqueString_def)

text \<open>Every given address is tried exactly once, an explicit override first.\<close>

lemma wakeTargetAddresses_targets:
  "distinct (wakeTargetAddresses storedMac over addresses bc)
   \<and> set (wakeTargetAddresses storedMac over addresses bc) = insert (ov_address over) (set addresses) - {[]}
   \<and> (ov_address over \<noteq> [] \<longrightarrow> hd (wakeTargetAddresses storedMac over addresses bc) = ov_address over)"
proof (cases "ov_address over = []")
  case True
  with fold_pushUniqueString [of "[]" addresses] show ?thesis
    by (auto simp: wakeTargetAddresses_def pushUniqueString_def)
next
  case False
  with fold_pushUniqueString [of "[ov_address over]" addresses] fold_pushUnique_hd [of "[ov_address over]" addresses]
  show ?thesis by (auto simp: wakeTargetAddresses_def pushUniqueString_def)
qed

end
