(* ===== verification/TailscaleNoise.thy ===== *)
theory TailscaleNoise
  imports Prelude
begin

text \<open>
  Model of \<open>app/src/remote_access/tailscale/TailscaleNoise.hpp\<close> and \<open>.cpp\<close>: the client half of the
  TS2021 control transport, a Noise IK handshake and the encrypted records that follow it.

  BLAKE2s, X25519 and the ChaCha20-Poly1305 AEAD come from libraries and are the fields of a
  \<open>NoiseCrypto\<close> argument.  An operation returns \<open>Inl\<close> the error text where the code returns false, and
  the client object as it leaves it in either case.  Output pointers are not null.  Wiping keys
  has no functional content.  The fields of \<open>NoiseClient\<close> carry the names of the class's members
  with the prefix \<open>ns_\<close> in place of the trailing underscore.
\<close>

section \<open>Primitives\<close>

record NoiseCrypto =
  nc_blake2s :: "bytes \<Rightarrow> bytes"
  nc_x25519 :: "bytes \<Rightarrow> bytes \<Rightarrow> bytes"
  nc_public :: "bytes \<Rightarrow> bytes"
  nc_seal :: "bytes \<Rightarrow> bytes \<Rightarrow> bytes \<Rightarrow> bytes \<Rightarrow> bytes \<times> bytes"
  nc_open :: "bytes \<Rightarrow> bytes \<Rightarrow> bytes \<Rightarrow> bytes \<Rightarrow> bytes \<Rightarrow> bytes option"

definition kProtocolName :: string where
  "kProtocolName = ''Noise_IK_25519_ChaChaPoly_BLAKE2s''"

definition kProloguePrefix :: string where
  "kProloguePrefix = ''Tailscale Control Protocol v''"

definition kMaxBufferedCiphertext :: nat where
  "kMaxBufferedCiphertext = 64 * 1024"

definition kInitiationSize :: nat where
  "kInitiationSize = 101"

definition kResponseSize :: nat where
  "kResponseSize = 51"

definition kMaxRecordSize :: nat where
  "kMaxRecordSize = 4096"

definition kMaxPlaintextSize :: nat where
  "kMaxPlaintextSize = 4077"

definition hashParts :: "NoiseCrypto \<Rightarrow> bytes \<Rightarrow> bytes \<Rightarrow> bytes" where
  "hashParts c first second = nc_blake2s c (first @ second)"

definition hmac :: "NoiseCrypto \<Rightarrow> bytes \<Rightarrow> bytes \<Rightarrow> bytes" where
  "hmac c key data =
     (let used = (if length key > 64 then hashParts c key [] else key);
          padded = used @ replicate (64 - length used) 0;
          innerPad = map (\<lambda>b. b XOR 0x36) padded;
          outerPad = map (\<lambda>b. b XOR 0x5c) padded;
          inner = hashParts c innerPad data
      in hashParts c outerPad inner)"

definition hkdf2 :: "NoiseCrypto \<Rightarrow> bytes \<Rightarrow> bytes \<Rightarrow> bytes \<times> bytes" where
  "hkdf2 c salt input =
     (let prk = hmac c salt input; first = hmac c prk [1]; second = hmac c prk (first @ [2]) in (first, second))"

definition nonceBytes :: "u64 \<Rightarrow> bytes" where
  "nonceBytes nonce = replicate 4 0 @ map (\<lambda>i. ucast (drop_bit (i * 8) nonce)) (rev [0..<8])"

definition noise_encrypt :: "NoiseCrypto \<Rightarrow> bytes \<Rightarrow> u64 \<Rightarrow> bytes \<Rightarrow> bytes \<Rightarrow> nat \<Rightarrow> bytes option" where
  "noise_encrypt c key nonce additionalData plaintext sz =
     (if sz \<noteq> length plaintext + 16 then None
      else (case nc_seal c key (nonceBytes nonce) additionalData plaintext of (ciphertext, tag) \<Rightarrow> Some (ciphertext @ tag)))"

definition noise_decrypt :: "NoiseCrypto \<Rightarrow> bytes \<Rightarrow> u64 \<Rightarrow> bytes \<Rightarrow> bytes \<Rightarrow> nat \<Rightarrow> bytes option" where
  "noise_decrypt c key nonce additionalData ciphertextAndTag sz =
     (if length ciphertextAndTag \<noteq> sz + 16 then None
      else nc_open c key (nonceBytes nonce) additionalData (take sz ciphertextAndTag) (drop sz ciphertextAndTag))"

section \<open>The client\<close>

record NoiseClient =
  ns_machinePrivate :: bytes
  ns_controlPublic :: bytes
  ns_ephemeralPrivate :: bytes
  ns_chainingKey :: bytes
  ns_hash :: bytes
  ns_txKey :: bytes
  ns_rxKey :: bytes
  ns_protocolVersion :: u16
  ns_txNonce :: u64
  ns_rxNonce :: u64
  ns_begun :: bool
  ns_ready :: bool
  ns_receiveBuffer :: bytes

definition new_NoiseClient :: "bytes \<Rightarrow> bytes \<Rightarrow> bytes \<Rightarrow> u16 \<Rightarrow> NoiseClient" where
  "new_NoiseClient machinePrivate controlPublic ephemeralPrivate version =
     \<lparr>ns_machinePrivate = machinePrivate, ns_controlPublic = controlPublic, ns_ephemeralPrivate = ephemeralPrivate,
      ns_chainingKey = replicate 32 0, ns_hash = replicate 32 0, ns_txKey = replicate 32 0, ns_rxKey = replicate 32 0,
      ns_protocolVersion = version, ns_txNonce = 0, ns_rxNonce = 0, ns_begun = False, ns_ready = False, ns_receiveBuffer = []\<rparr>"

definition noise_fail :: "string \<Rightarrow> NoiseClient \<Rightarrow> (string + 'a) \<times> NoiseClient" where
  "noise_fail message s = (Inl message, if ns_begun s then s\<lparr>ns_ready := False\<rparr> else s)"

definition mixHash :: "NoiseCrypto \<Rightarrow> bytes \<Rightarrow> NoiseClient \<Rightarrow> NoiseClient" where
  "mixHash c data s = s\<lparr>ns_hash := hashParts c (ns_hash s) data\<rparr>"

definition mixDh :: "NoiseCrypto \<Rightarrow> bytes \<Rightarrow> bytes \<Rightarrow> NoiseClient \<Rightarrow> (string + bytes) \<times> NoiseClient" where
  "mixDh c privateKey publicKey s =
     (let shared = nc_x25519 c privateKey publicKey in
      if list_all (\<lambda>b. b = 0) shared then noise_fail ''invalid TS2021 X25519 peer key'' s
      else (case hkdf2 c (ns_chainingKey s) shared of (ck, k) \<Rightarrow> (Inr k, s\<lparr>ns_chainingKey := ck\<rparr>)))"

text \<open>\<open>begin\<close> after the protocol and the keys have been hashed.\<close>

definition begin_encrypt :: "NoiseCrypto \<Rightarrow> bytes \<Rightarrow> bytes \<Rightarrow> NoiseClient \<Rightarrow> (string + bytes) \<times> NoiseClient" where
  "begin_encrypt c ephemeralPublic machinePublic s0 =
     (case mixDh c (ns_ephemeralPrivate s0) (ns_controlPublic s0) s0 of
        (Inl e, s1) \<Rightarrow> (Inl e, s1)
      | (Inr cipherKey, s1) \<Rightarrow>
          (case noise_encrypt c cipherKey 0 (ns_hash s1) machinePublic 48 of
             None \<Rightarrow> noise_fail ''could not encrypt TS2021 machine key'' s1
           | Some encryptedMachine \<Rightarrow>
               let s2 = mixHash c encryptedMachine s1 in
               (case mixDh c (ns_machinePrivate s2) (ns_controlPublic s2) s2 of
                  (Inl e, s3) \<Rightarrow> (Inl e, s3)
                | (Inr cipherKey', s3) \<Rightarrow>
                    (case noise_encrypt c cipherKey' 0 (ns_hash s3) [] 16 of
                       None \<Rightarrow> noise_fail ''could not authenticate TS2021 initiation'' s3
                     | Some tag \<Rightarrow>
                         (Inr (be16 (ns_protocolVersion s3) @ [1] @ be16 96 @ ephemeralPublic @ encryptedMachine @ tag),
                          (mixHash c tag s3)\<lparr>ns_begun := True\<rparr>)))))"

definition noise_begin :: "NoiseCrypto \<Rightarrow> NoiseClient \<Rightarrow> (string + bytes) \<times> NoiseClient" where
  "noise_begin c s =
     (if ns_begun s \<or> ns_protocolVersion s = 0 then noise_fail ''invalid TS2021 handshake state'' s
      else
        let h = hashParts c [] (bytes_of_string kProtocolName);
            prologue = bytes_of_string (kProloguePrefix @ to_string (unat (ns_protocolVersion s)));
            ephemeralPublic = nc_public c (ns_ephemeralPrivate s);
            machinePublic = nc_public c (ns_machinePrivate s);
            s1 = mixHash c ephemeralPublic (mixHash c (ns_controlPublic s) (mixHash c prologue (s\<lparr>ns_hash := h, ns_chainingKey := h\<rparr>)))
        in begin_encrypt c ephemeralPublic machinePublic s1)"

definition noise_split :: "NoiseCrypto \<Rightarrow> NoiseClient \<Rightarrow> NoiseClient" where
  "noise_split c s =
     (case hkdf2 c (ns_chainingKey s) [] of (k0, k1) \<Rightarrow> s\<lparr>ns_txKey := k0, ns_rxKey := k1, ns_txNonce := 0, ns_rxNonce := 0\<rparr>)"

definition noise_complete :: "NoiseCrypto \<Rightarrow> bytes \<Rightarrow> NoiseClient \<Rightarrow> (string + unit) \<times> NoiseClient" where
  "noise_complete c response s =
     (if \<not> ns_begun s \<or> ns_ready s \<or> length response \<noteq> kResponseSize \<or>
         response ! 0 \<noteq> 2 \<or> response ! 1 \<noteq> 0 \<or> response ! 2 \<noteq> 48
      then noise_fail ''invalid TS2021 handshake response'' s
      else
        let controlEphemeral = take 32 (drop 3 response); s1 = mixHash c controlEphemeral s in
        case mixDh c (ns_ephemeralPrivate s1) controlEphemeral s1 of
          (Inl e, s2) \<Rightarrow> (Inl e, s2)
        | (Inr _, s2) \<Rightarrow>
            (case mixDh c (ns_machinePrivate s2) controlEphemeral s2 of
               (Inl e, s3) \<Rightarrow> (Inl e, s3)
             | (Inr cipherKey, s3) \<Rightarrow>
                 (case noise_decrypt c cipherKey 0 (ns_hash s3) (take 16 (drop 35 response)) 0 of
                    None \<Rightarrow> noise_fail ''TS2021 response authentication failed'' s3
                  | Some _ \<Rightarrow> (Inr (), (noise_split c (mixHash c (take 16 (drop 35 response)) s3))\<lparr>ns_ready := True\<rparr>))))"

section \<open>Records\<close>

function frame_loop :: "NoiseCrypto \<Rightarrow> bytes \<Rightarrow> bytes \<Rightarrow> NoiseClient \<Rightarrow> (string + bytes) \<times> NoiseClient" where
  "frame_loop c plaintext framed s =
     (if plaintext = [] then (Inr framed, s)
      else
        let len = min kMaxPlaintextSize (length plaintext);
            s1 = s\<lparr>ns_txNonce := ns_txNonce s + 1\<rparr>
        in case noise_encrypt c (ns_txKey s) (ns_txNonce s) [] (take len plaintext) (len + 16) of
             None \<Rightarrow> noise_fail ''TS2021 record encryption failed'' s1
           | Some sealed \<Rightarrow> frame_loop c (drop len plaintext) (framed @ [4] @ be16 (word_of_nat (len + 16)) @ sealed) s1)"
  by pat_completeness auto
termination
  by (relation "measure (\<lambda>(c, plaintext, framed, s). length plaintext)") (auto simp: kMaxPlaintextSize_def)

declare frame_loop.simps [simp del]

definition noise_frame :: "NoiseCrypto \<Rightarrow> bytes \<Rightarrow> NoiseClient \<Rightarrow> (string + bytes) \<times> NoiseClient" where
  "noise_frame c plaintext s =
     (if \<not> ns_ready s then noise_fail ''TS2021 session is not ready'' s else frame_loop c plaintext [] s)"

text \<open>
  The loop of \<open>consume\<close>: \<open>rest\<close> is the receive buffer from the offset on, \<open>plaintext\<close> what has been
  delivered.  The result carries the buffer behind the complete records when there was no error.
\<close>

function consume_loop :: "NoiseCrypto \<Rightarrow> bytes \<Rightarrow> bytes list \<Rightarrow> NoiseClient \<Rightarrow> (string + bytes) \<times> bytes list \<times> NoiseClient" where
  "consume_loop c rest plaintext s =
     (if length rest < 3 then (Inr rest, plaintext, s)
      else if rest ! 0 \<noteq> 4 then
        (case noise_fail ''unexpected TS2021 record type'' s of (r, s') \<Rightarrow> (r, plaintext, s'))
      else
        let ciphertextLength = unat (of_be16 (rest ! 1) (rest ! 2)) in
        if ciphertextLength < 16 \<or> ciphertextLength > kMaxRecordSize - 3 then
          (case noise_fail ''invalid TS2021 record length'' s of (r, s') \<Rightarrow> (r, plaintext, s'))
        else if length rest < 3 + ciphertextLength then (Inr rest, plaintext, s)
        else
          let s1 = s\<lparr>ns_rxNonce := ns_rxNonce s + 1\<rparr> in
          case noise_decrypt c (ns_rxKey s) (ns_rxNonce s) [] (take ciphertextLength (drop 3 rest)) (ciphertextLength - 16) of
            None \<Rightarrow> (case noise_fail ''TS2021 record authentication failed'' s1 of (r, s') \<Rightarrow> (r, plaintext, s'))
          | Some decoded \<Rightarrow> consume_loop c (drop (3 + ciphertextLength) rest) (plaintext @ [decoded]) s1)"
  by pat_completeness auto
termination
  by (relation "measure (\<lambda>(c, rest, plaintext, s). length rest)") auto

declare consume_loop.simps [simp del]

definition noise_consume :: "NoiseCrypto \<Rightarrow> bytes \<Rightarrow> NoiseClient \<Rightarrow> (string + unit) \<times> bytes list \<times> NoiseClient" where
  "noise_consume c bs s =
     (if \<not> ns_ready s \<or> length (ns_receiveBuffer s) + length bs > kMaxBufferedCiphertext
      then (case noise_fail ''invalid or oversized TS2021 receive buffer'' s of (r, s') \<Rightarrow> (r, [], s'))
      else
        let s1 = s\<lparr>ns_receiveBuffer := ns_receiveBuffer s @ bs\<rparr> in
        case consume_loop c (ns_receiveBuffer s1) [] s1 of
          (Inl e, out, s2) \<Rightarrow> (Inl e, out, s2)
        | (Inr rest, out, s2) \<Rightarrow> (Inr (), out, s2\<lparr>ns_receiveBuffer := rest\<rparr>))"

section \<open>The primitives' contracts and the responder of the Noise specification\<close>

text \<open>
  What the libraries document: Diffie-Hellman commutes, public keys are 32 bytes, the AEAD keeps
  the length, its tag is 16 bytes and opening what was sealed under the same key, nonce and
  additional data gives the plaintext back.
\<close>

definition noise_crypto_ok :: "NoiseCrypto \<Rightarrow> bool" where
  "noise_crypto_ok c \<longleftrightarrow>
     (\<forall>a b. length a = 32 \<longrightarrow> length b = 32 \<longrightarrow> nc_x25519 c a (nc_public c b) = nc_x25519 c b (nc_public c a)) \<and>
     (\<forall>a. length a = 32 \<longrightarrow> length (nc_public c a) = 32) \<and>
     (\<forall>k n ad p. length (fst (nc_seal c k n ad p)) = length p \<and> length (snd (nc_seal c k n ad p)) = 16 \<and>
        nc_open c k n ad (fst (nc_seal c k n ad p)) (snd (nc_seal c k n ad p)) = Some p)"

text \<open>
  The symmetric state of the Noise Protocol Framework (section 5.2 there) and the responder of the
  pattern \<open>IK: <- s ... -> e, es, s, ss  <- e, ee, se\<close>.  The keys are 32-byte strings; \<open>rs\<close>
  is the responder's static private key, \<open>re\<close> its ephemeral one.
\<close>

definition MixKey :: "NoiseCrypto \<Rightarrow> bytes \<Rightarrow> bytes \<Rightarrow> bytes \<times> bytes" where
  "MixKey c ck ikm = hkdf2 c ck ikm"

definition DecryptAndHash :: "NoiseCrypto \<Rightarrow> bytes \<Rightarrow> bytes \<Rightarrow> bytes \<Rightarrow> (bytes \<times> bytes) option" where
  "DecryptAndHash c k h sealed =
     map_option (\<lambda>p. (p, nc_blake2s c (h @ sealed)))
       (nc_open c k (replicate 12 0) h (take (length sealed - 16) sealed) (drop (length sealed - 16) sealed))"

definition EncryptAndHash :: "NoiseCrypto \<Rightarrow> bytes \<Rightarrow> bytes \<Rightarrow> bytes \<Rightarrow> bytes \<times> bytes" where
  "EncryptAndHash c k h p =
     (case nc_seal c k (replicate 12 0) h p of (ct, tag) \<Rightarrow> (ct @ tag, nc_blake2s c (h @ ct @ tag)))"

text \<open>
  The responder reads an initiation and answers: the initiator's static key it has authenticated,
  the response, and the key it receives under and the key it sends under.
\<close>

definition responder :: "NoiseCrypto \<Rightarrow> bytes \<Rightarrow> bytes \<Rightarrow> u16 \<Rightarrow> bytes \<Rightarrow> (bytes \<times> bytes \<times> bytes \<times> bytes) option" where
  "responder c rs re version initiation =
     (if take 5 initiation \<noteq> be16 version @ [1, 0, 96] \<or> length initiation \<noteq> 101 then None
      else
        let h0 = nc_blake2s c (bytes_of_string kProtocolName);
            h1 = nc_blake2s c (h0 @ bytes_of_string (kProloguePrefix @ to_string (unat version)));
            h2 = nc_blake2s c (h1 @ nc_public c rs);
            ie = take 32 (drop 5 initiation);
            h3 = nc_blake2s c (h2 @ ie);
            (ck1, k1) = MixKey c h0 (nc_x25519 c rs ie)
        in do {
          (is, h4) \<leftarrow> DecryptAndHash c k1 h3 (take 48 (drop 37 initiation));
          let (ck2, k2) = MixKey c ck1 (nc_x25519 c rs is);
          (_, h5) \<leftarrow> DecryptAndHash c k2 h4 (drop 85 initiation);
          let h6 = nc_blake2s c (h5 @ nc_public c re);
          let (ck3, _) = MixKey c ck2 (nc_x25519 c re ie);
          let (ck4, k4) = MixKey c ck3 (nc_x25519 c re is);
          let (tag, _) = EncryptAndHash c k4 h6 [];
          let (rx, tx) = hkdf2 c ck4 [];
          Some (is, [2, 0, 48] @ nc_public c re @ tag, rx, tx) })"

definition dh_usable :: "NoiseCrypto \<Rightarrow> bytes \<Rightarrow> bytes \<Rightarrow> bool" where
  "dh_usable c privateKey publicKey \<longleftrightarrow> \<not> list_all (\<lambda>b. b = 0) (nc_x25519 c privateKey publicKey)"

section \<open>The handshake\<close>

lemma nonceBytes_0 [simp]: "nonceBytes 0 = replicate 12 0"
  by (simp add: nonceBytes_def numeral_eq_Suc)

lemma be16_96: "be16 96 = [0, 96]"
  by (simp add: be16_def)

lemma mixDh_usable:
  "dh_usable c a p \<Longrightarrow> mixDh c a p s =
     (Inr (snd (hkdf2 c (ns_chainingKey s) (nc_x25519 c a p))),
      s\<lparr>ns_chainingKey := fst (hkdf2 c (ns_chainingKey s) (nc_x25519 c a p))\<rparr>)"
  by (simp add: mixDh_def dh_usable_def split_def Let_def)

lemma mixDh_unusable: "\<not> dh_usable c a p \<Longrightarrow> mixDh c a p s = noise_fail ''invalid TS2021 X25519 peer key'' s"
  by (simp add: mixDh_def dh_usable_def Let_def)

lemma noise_crypto_okD:
  assumes "noise_crypto_ok c"
  shows "\<And>a b. length a = 32 \<Longrightarrow> length b = 32 \<Longrightarrow> nc_x25519 c a (nc_public c b) = nc_x25519 c b (nc_public c a)"
    and "\<And>a. length a = 32 \<Longrightarrow> length (nc_public c a) = 32"
    and "\<And>k n ad p. length (fst (nc_seal c k n ad p)) = length p"
    and "\<And>k n ad p. length (snd (nc_seal c k n ad p)) = 16"
    and "\<And>k n ad p. nc_open c k n ad (fst (nc_seal c k n ad p)) (snd (nc_seal c k n ad p)) = Some p"
  using assms by (auto simp: noise_crypto_ok_def)

text \<open>A sealed message: ciphertext and tag.\<close>

definition sealed_with :: "NoiseCrypto \<Rightarrow> bytes \<Rightarrow> u64 \<Rightarrow> bytes \<Rightarrow> bytes \<Rightarrow> bytes" where
  "sealed_with c k n ad p = fst (nc_seal c k (nonceBytes n) ad p) @ snd (nc_seal c k (nonceBytes n) ad p)"

lemma noise_encrypt_sealed: "noise_encrypt c k n ad p (length p + 16) = Some (sealed_with c k n ad p)"
  by (simp add: noise_encrypt_def sealed_with_def split_def)

lemma length_sealed: "noise_crypto_ok c \<Longrightarrow> length (sealed_with c k n ad p) = length p + 16"
  by (simp add: sealed_with_def noise_crypto_okD)

lemma noise_decrypt_sealed:
  "noise_crypto_ok c \<Longrightarrow> noise_decrypt c k n ad (sealed_with c k n ad p) (length p) = Some p"
  by (simp add: noise_decrypt_def length_sealed) (simp add: sealed_with_def noise_crypto_okD)

lemma EncryptAndHash_sealed:
  "EncryptAndHash c k h p = (sealed_with c k 0 h p, hashParts c h (sealed_with c k 0 h p))"
  by (simp add: EncryptAndHash_def sealed_with_def hashParts_def split_def)

lemma DecryptAndHash_sealed:
  "noise_crypto_ok c \<Longrightarrow> DecryptAndHash c k h (sealed_with c k 0 h p) = Some (p, hashParts c h (sealed_with c k 0 h p))"
  by (simp add: DecryptAndHash_def length_sealed hashParts_def) (simp add: sealed_with_def noise_crypto_okD)

text \<open>The transcript of a handshake, message by message, as both sides compute it.\<close>

definition hello_hash :: "NoiseCrypto \<Rightarrow> u16 \<Rightarrow> bytes \<Rightarrow> bytes \<Rightarrow> bytes" where
  "hello_hash c version control ephemeral =
     hashParts c (hashParts c (hashParts c (hashParts c [] (bytes_of_string kProtocolName))
       (bytes_of_string (kProloguePrefix @ to_string (unat version)))) control) ephemeral"

record Transcript =
  tr_machine :: bytes
  tr_tag :: bytes
  tr_hash :: bytes
  tr_ck :: bytes

definition transcript :: "NoiseCrypto \<Rightarrow> bytes \<Rightarrow> bytes \<Rightarrow> bytes \<Rightarrow> bytes \<Rightarrow> Transcript" where
  "transcript c h3 es ss machine =
     (let (ck1, k1) = hkdf2 c (hashParts c [] (bytes_of_string kProtocolName)) es;
          m = sealed_with c k1 0 h3 machine;
          h4 = hashParts c h3 m;
          (ck2, k2) = hkdf2 c ck1 ss;
          t = sealed_with c k2 0 h4 []
      in \<lparr>tr_machine = m, tr_tag = t, tr_hash = hashParts c h4 t, tr_ck = ck2\<rparr>)"

lemma noise_begin_transcript:
  fixes c s
  defines "e \<equiv> nc_public c (ns_ephemeralPrivate s)" and "m \<equiv> nc_public c (ns_machinePrivate s)"
  defines "t \<equiv> transcript c (hello_hash c (ns_protocolVersion s) (ns_controlPublic s) e)
     (nc_x25519 c (ns_ephemeralPrivate s) (ns_controlPublic s)) (nc_x25519 c (ns_machinePrivate s) (ns_controlPublic s)) m"
  assumes "noise_crypto_ok c" "length (ns_machinePrivate s) = 32" "\<not> ns_begun s" "ns_protocolVersion s \<noteq> 0"
    and "dh_usable c (ns_ephemeralPrivate s) (ns_controlPublic s)" "dh_usable c (ns_machinePrivate s) (ns_controlPublic s)"
  shows "noise_begin c s =
    (Inr (be16 (ns_protocolVersion s) @ [1, 0, 96] @ e @ tr_machine t @ tr_tag t),
     s\<lparr>ns_hash := tr_hash t, ns_chainingKey := tr_ck t, ns_begun := True\<rparr>)"
proof -
  have len: "length m = 32" using assms by (simp add: noise_crypto_okD)
  have enc: "noise_encrypt c k 0 h m 48 = Some (sealed_with c k 0 h m)" for k h
    using noise_encrypt_sealed [of c k 0 h m] len by simp
  have enc0: "noise_encrypt c k 0 h [] 16 = Some (sealed_with c k 0 h [])" for k h
    using noise_encrypt_sealed [of c k 0 h "[]"] by simp
  show ?thesis
    using assms(6-9)
    by (simp add: noise_begin_def begin_encrypt_def mixDh_usable mixHash_def Let_def enc enc0 be16_96
        flip: m_def e_def)
      (simp add: t_def transcript_def hello_hash_def Let_def split_def)
qed

lemma responder_transcript:
  fixes c ie im rs re version
  defines "e \<equiv> nc_public c ie" and "m \<equiv> nc_public c im" and "p \<equiv> nc_public c rs"
  defines "t \<equiv> transcript c (hello_hash c version p e) (nc_x25519 c rs e) (nc_x25519 c rs m) m"
  defines "ck3 \<equiv> fst (hkdf2 c (tr_ck t) (nc_x25519 c re e))"
  defines "k4 \<equiv> hkdf2 c ck3 (nc_x25519 c re m)"
  assumes "noise_crypto_ok c" "length ie = 32" "length im = 32"
  shows "responder c rs re version (be16 version @ [1, 0, 96] @ e @ tr_machine t @ tr_tag t) =
    Some (m, [2, 0, 48] @ nc_public c re @ sealed_with c (snd k4) 0 (hashParts c (tr_hash t) (nc_public c re)) [],
      fst (hkdf2 c (fst k4) []), snd (hkdf2 c (fst k4) []))"
proof -
  let ?i = "be16 version @ [1, 0, 96] @ e @ tr_machine t @ tr_tag t"
  have len: "length e = 32" "length m = 32" using assms by (simp_all add: noise_crypto_okD)
  have lens: "length (tr_machine t) = 48" "length (tr_tag t) = 16"
    using len assms(7) by (simp_all add: t_def transcript_def Let_def split_def length_sealed)
  have parts: "take 5 ?i = be16 version @ [1, 0, 96]" "length ?i = 101" "take 32 (drop 5 ?i) = e"
    "take 48 (drop 37 ?i) = tr_machine t" "drop 85 ?i = tr_tag t"
    using len lens by (simp_all add: be16_def)
  let ?h0 = "nc_blake2s c (bytes_of_string kProtocolName)"
  let ?h3 = "hello_hash c version p e"
  have hash1: "nc_blake2s c (nc_blake2s c (nc_blake2s c (?h0 @ bytes_of_string (kProloguePrefix @ to_string (unat version)))
      @ nc_public c rs) @ e) = ?h3"
    by (simp add: hello_hash_def hashParts_def p_def)
  let ?k1 = "hkdf2 c ?h0 (nc_x25519 c rs e)"
  let ?h4 = "hashParts c ?h3 (tr_machine t)"
  let ?k2 = "hkdf2 c (fst ?k1) (nc_x25519 c rs m)"
  have dec1: "DecryptAndHash c (snd ?k1) ?h3 (tr_machine t) = Some (m, ?h4)"
    using DecryptAndHash_sealed [OF assms(7), of "snd ?k1" ?h3 m]
    by (simp add: t_def transcript_def Let_def split_def hashParts_def)
  have dec2: "DecryptAndHash c (snd ?k2) ?h4 (tr_tag t) = Some ([], tr_hash t)"
    using DecryptAndHash_sealed [OF assms(7), of "snd ?k2" ?h4 "[]"]
    by (simp add: t_def transcript_def Let_def split_def hashParts_def)
  have ck2: "fst ?k2 = tr_ck t"
    by (simp add: t_def transcript_def Let_def split_def hashParts_def)
  show ?thesis
    unfolding responder_def parts
    using assms(7)
    by (simp add: MixKey_def Let_def split_def EncryptAndHash_sealed hash1 dec1 dec2 ck2) (simp add: ck3_def k4_def hashParts_def)
qed

lemma noise_complete_answer:
  fixes c s P
  defines "ck3 \<equiv> fst (hkdf2 c (ns_chainingKey s) (nc_x25519 c (ns_ephemeralPrivate s) P))"
  defines "k4 \<equiv> hkdf2 c ck3 (nc_x25519 c (ns_machinePrivate s) P)"
  assumes "noise_crypto_ok c" "length P = 32" "ns_begun s" "\<not> ns_ready s"
    and "dh_usable c (ns_ephemeralPrivate s) P" "dh_usable c (ns_machinePrivate s) P"
  shows "\<exists>s'. noise_complete c ([2, 0, 48] @ P @ sealed_with c (snd k4) 0 (hashParts c (ns_hash s) P) []) s = (Inr (), s') \<and>
    ns_ready s' \<and> ns_txKey s' = fst (hkdf2 c (fst k4) []) \<and> ns_rxKey s' = snd (hkdf2 c (fst k4) []) \<and>
    ns_txNonce s' = 0 \<and> ns_rxNonce s' = 0 \<and> ns_receiveBuffer s' = ns_receiveBuffer s"
proof -
  let ?t = "sealed_with c (snd k4) 0 (hashParts c (ns_hash s) P) []"
  let ?r = "[2, 0, 48] @ P @ ?t"
  have len: "length ?t = 16" using assms by (simp add: length_sealed)
  have parts: "length ?r = kResponseSize" "?r ! 0 = 2" "?r ! 1 = 0" "?r ! 2 = 48"
    "take 32 (drop 3 ?r) = P" "take 16 (drop 35 ?r) = ?t"
    using len assms(4) by (simp_all add: kResponseSize_def)
  have dec: "noise_decrypt c (snd k4) 0 (hashParts c (ns_hash s) P) ?t 0 = Some []"
    using noise_decrypt_sealed [OF assms(3), of "snd k4" 0 "hashParts c (ns_hash s) P" "[]"] by simp
  show ?thesis
    unfolding noise_complete_def parts using assms(5-8)
    by (simp add: mixHash_def mixDh_usable Let_def noise_split_def split_def dec flip: ck3_def k4_def)
qed


text \<open>A small instance of the primitives, for the concrete runs: the tag depends on the key.\<close>

definition noise_example :: NoiseCrypto where
  "noise_example =
     \<lparr>nc_blake2s = (\<lambda>xs. replicate 32 (sum_list xs + 7)),
      nc_x25519 = (\<lambda>a b. replicate 32 (1 + sum_list a + sum_list b)),
      nc_public = id,
      nc_seal = (\<lambda>k n ad p. (p, take 16 (k @ replicate 16 0))),
      nc_open = (\<lambda>k n ad ct tag. if tag = take 16 (k @ replicate 16 0) then Some ct else None)\<rparr>"

lemma noise_example_ok: "noise_crypto_ok noise_example"
  by (auto simp: noise_crypto_ok_def noise_example_def min_def add.commute add.left_commute)

lemma example_public: "nc_public noise_example a = a"
  by (simp add: noise_example_def)

lemma example_dh_usable: "dh_usable noise_example a b \<longleftrightarrow> 1 + sum_list a + sum_list b \<noteq> 0"
  by (simp add: dh_usable_def noise_example_def list_all_iff)


section \<open>The records\<close>

text \<open>One record on the wire.\<close>

definition noise_record :: "NoiseCrypto \<Rightarrow> bytes \<Rightarrow> u64 \<Rightarrow> bytes \<Rightarrow> bytes" where
  "noise_record c k n p = [4] @ be16 (word_of_nat (length p + 16)) @ sealed_with c k n [] p"

fun noise_records :: "NoiseCrypto \<Rightarrow> bytes \<Rightarrow> u64 \<Rightarrow> bytes list \<Rightarrow> bytes" where
  "noise_records c k n [] = []"
| "noise_records c k n (p # ps) = noise_record c k n p @ noise_records c k (n + 1) ps"

text \<open>The pieces \<open>frame\<close> cuts a message into.\<close>

function plain_pieces :: "bytes \<Rightarrow> bytes list" where
  "plain_pieces p = (if p = [] then [] else take kMaxPlaintextSize p # plain_pieces (drop kMaxPlaintextSize p))"
  by pat_completeness auto
termination
  by (relation "measure length") (auto simp: kMaxPlaintextSize_def)

declare plain_pieces.simps [simp del]

lemma concat_pieces: "concat (plain_pieces p) = p"
  by (induction p rule: plain_pieces.induct) (subst plain_pieces.simps, simp)

lemma pieces_bounded: "q \<in> set (plain_pieces p) \<Longrightarrow> 0 < length q \<and> length q \<le> kMaxPlaintextSize"
proof (induction p rule: plain_pieces.induct)
  case (1 p)
  then show ?case
    by (cases "p = []") (auto simp: plain_pieces.simps [of p] plain_pieces.simps [of "[]"] kMaxPlaintextSize_def)
qed

lemma length_pieces: "length (plain_pieces p) = (length p + kMaxPlaintextSize - 1) div kMaxPlaintextSize"
proof (induction p rule: plain_pieces.induct)
  case (1 p)
  show ?case
  proof (cases "p = []")
    case False
    have "(length p + kMaxPlaintextSize - 1) div kMaxPlaintextSize =
        Suc ((length p - kMaxPlaintextSize + kMaxPlaintextSize - 1) div kMaxPlaintextSize)"
    proof (cases "length p \<le> kMaxPlaintextSize")
      case True
      with False show ?thesis by (auto simp: kMaxPlaintextSize_def div_if)
    next
      case gt: False
      then have "length p + kMaxPlaintextSize - 1 = (length p - kMaxPlaintextSize + kMaxPlaintextSize - 1) + kMaxPlaintextSize"
        by simp
      then show ?thesis by (simp add: kMaxPlaintextSize_def)
    qed
    with False 1 show ?thesis by (simp add: plain_pieces.simps [of p])
  qed (simp add: plain_pieces.simps kMaxPlaintextSize_def)
qed

lemma frame_loop_records:
  "frame_loop c p framed s =
     (Inr (framed @ noise_records c (ns_txKey s) (ns_txNonce s) (plain_pieces p)),
      s\<lparr>ns_txNonce := ns_txNonce s + word_of_nat (length (plain_pieces p))\<rparr>)"
proof (induction c p framed s rule: frame_loop.induct)
  case (1 c p framed s)
  show ?case
  proof (cases "p = []")
    case False
    define l where "l = min kMaxPlaintextSize (length p)"
    have l: "take l p = take kMaxPlaintextSize p" "drop l p = drop kMaxPlaintextSize p" "length (take kMaxPlaintextSize p) = l"
      by (auto simp: l_def min_def)
    have enc: "noise_encrypt c (ns_txKey s) (ns_txNonce s) [] (take l p) (l + 16) =
        Some (sealed_with c (ns_txKey s) (ns_txNonce s) [] (take l p))"
      using noise_encrypt_sealed [of c "ns_txKey s" "ns_txNonce s" "[]" "take l p"] l by simp
    from False 1 [OF False l_def refl enc] l enc show ?thesis
      by (simp add: frame_loop.simps [of c p] plain_pieces.simps [of p] Let_def noise_record_def add.commute add.left_commute flip: l_def)
  qed (simp add: frame_loop.simps plain_pieces.simps)
qed

lemma noise_record_header:
  assumes "noise_crypto_ok c" "length q \<le> kMaxPlaintextSize"
  shows "noise_record c k n q ! 0 = 4"
    and "unat (of_be16 (noise_record c k n q ! 1) (noise_record c k n q ! 2)) = length q + 16"
    and "length (noise_record c k n q) = length q + 19"
proof -
  have "unat (word_of_nat (length q + 16) :: u16) = length q + 16"
    using assms(2) by (simp only: unat_of_nat) (simp add: kMaxPlaintextSize_def)
  then show "noise_record c k n q ! 0 = 4"
    and "unat (of_be16 (noise_record c k n q ! 1) (noise_record c k n q ! 2)) = length q + 16"
    and "length (noise_record c k n q) = length q + 19"
    using assms(1) by (simp_all add: noise_record_def be16_def wire_simps length_sealed)
qed

lemma consume_loop_record:
  assumes "noise_crypto_ok c" "length q \<le> kMaxPlaintextSize" "ns_rxKey s = k" "ns_rxNonce s = n"
  shows "consume_loop c (noise_record c k n q @ rest) out s = consume_loop c rest (out @ [q]) (s\<lparr>ns_rxNonce := n + 1\<rparr>)"
proof -
  let ?r = "noise_record c k n q @ rest"
  note h = noise_record_header [OF assms(1,2), of k n]
  have hd: "?r ! 0 = 4" "unat (of_be16 (?r ! 1) (?r ! 2)) = length q + 16" "length ?r = length q + 19 + length rest"
    using h by (simp_all add: nth_append)
  have "length (noise_record c k n q) = 3 + (length q + 16)" using h(3) by simp
  then have body: "drop (3 + (length q + 16)) ?r = rest" by simp
  have sealed: "take (length q + 16) (drop 3 ?r) = sealed_with c k n [] q"
    using assms(1) by (simp add: noise_record_def be16_def length_sealed)
  show ?thesis
    unfolding consume_loop.simps [of c ?r out s] Let_def hd(1,2) sealed body
    using assms hd(3) by (simp add: noise_decrypt_sealed kMaxRecordSize_def kMaxPlaintextSize_def)
qed

lemma consume_loop_partial:
  assumes "noise_crypto_ok c" "length q \<le> kMaxPlaintextSize" "noise_record c k n q = p @ r" "r \<noteq> []"
  shows "consume_loop c p out s = (Inr p, out, s)"
proof (cases "length p < 3")
  case False
  note h = noise_record_header [OF assms(1,2), of k n, unfolded assms(3)]
  from False h assms(4) have "p ! 0 = 4" "unat (of_be16 (p ! 1) (p ! 2)) = length q + 16" "length p < length q + 19"
    by (cases r; auto simp: nth_append split: if_splits)+
  with False assms(2) show ?thesis
    by (simp add: consume_loop.simps [of c p] Let_def kMaxRecordSize_def kMaxPlaintextSize_def)
qed (simp add: consume_loop.simps)

lemma consume_loop_stream:
  assumes "noise_crypto_ok c" "\<forall>q \<in> set ps. length q \<le> kMaxPlaintextSize"
    and "ns_rxKey s = k" "ns_rxNonce s = n" "b @ r = noise_records c k n ps"
  shows "\<exists>ds ts p. ps = ds @ ts \<and>
    consume_loop c b out s = (Inr p, out @ ds, s\<lparr>ns_rxNonce := n + word_of_nat (length ds)\<rparr>) \<and>
    p @ r = noise_records c k (n + word_of_nat (length ds)) ts \<and>
    (case ts of [] \<Rightarrow> p = [] | q # _ \<Rightarrow> length p < length q + 19)"
  using assms
proof (induction ps arbitrary: b n s out)
  case Nil
  then show ?case by (intro exI [of _ "[]"]) (simp add: consume_loop.simps)
next
  case (Cons q ps)
  from Cons.prems(5) have eq: "b @ r = noise_record c k n q @ noise_records c k (n + 1) ps" by simp
  have len: "length (noise_record c k n q) = length q + 19"
    using noise_record_header(3) Cons.prems by simp
  show ?case
  proof (cases "length q + 19 \<le> length b")
    case True
    then obtain b' where b': "b = noise_record c k n q @ b'"
      using eq len by (metis append_eq_append_conv_if append_take_drop_id)
    with eq have "b' @ r = noise_records c k (n + 1) ps" by simp
    with Cons.IH [of "s\<lparr>ns_rxNonce := n + 1\<rparr>" "n + 1" b' "out @ [q]"] Cons.prems obtain ds ts p where
      "ps = ds @ ts" "consume_loop c b' (out @ [q]) (s\<lparr>ns_rxNonce := n + 1\<rparr>) =
         (Inr p, out @ q # ds, s\<lparr>ns_rxNonce := n + 1 + word_of_nat (length ds)\<rparr>)"
      "p @ r = noise_records c k (n + 1 + word_of_nat (length ds)) ts"
      "case ts of [] \<Rightarrow> p = [] | q # _ \<Rightarrow> length p < length q + 19" by auto
    with b' Cons.prems show ?thesis
      by (intro exI [of _ "q # ds"] exI [of _ ts] exI [of _ p]) (simp add: consume_loop_record add.assoc)
  next
    case False
    with eq len obtain r' where "noise_record c k n q = b @ r'" "r' \<noteq> []"
      by (metis append_eq_append_conv_if append_take_drop_id append_Nil2 le_refl)
    with Cons.prems consume_loop_partial [of c q k n b r'] have "consume_loop c b out s = (Inr b, out, s)" by simp
    with False Cons.prems show ?thesis
      by (intro exI [of _ "[]"] exI [of _ "q # ps"] exI [of _ b]) (simp add: add.commute)
  qed
qed

text \<open>How the control session drives a client: each chunk the socket delivers goes to \<open>consume\<close>.\<close>

fun consume_all :: "NoiseCrypto \<Rightarrow> bytes list \<Rightarrow> NoiseClient \<Rightarrow> (string + bytes list) \<times> NoiseClient" where
  "consume_all c [] s = (Inr [], s)"
| "consume_all c (b # bs) s =
     (case noise_consume c b s of
        (Inl e, _, s1) \<Rightarrow> (Inl e, s1)
      | (Inr _, out, s1) \<Rightarrow>
          (case consume_all c bs s1 of (Inl e, s2) \<Rightarrow> (Inl e, s2) | (Inr later, s2) \<Rightarrow> (Inr (out @ later), s2)))"

lemma consume_all_stream:
  assumes "noise_crypto_ok c" "\<forall>q \<in> set ps. length q \<le> kMaxPlaintextSize"
    and "\<forall>b \<in> set bs. length b \<le> 61441"
    and "ns_ready s" "ns_receiveBuffer s @ concat bs = noise_records c (ns_rxKey s) (ns_rxNonce s) ps"
    and "case ps of [] \<Rightarrow> ns_receiveBuffer s = [] | q # _ \<Rightarrow> length (ns_receiveBuffer s) < length q + 19"
  shows "consume_all c bs s = (Inr ps, s\<lparr>ns_receiveBuffer := [], ns_rxNonce := ns_rxNonce s + word_of_nat (length ps)\<rparr>)"
  using assms
proof (induction bs arbitrary: s ps)
  case Nil
  have "ps = []"
  proof (cases ps)
    case (Cons q qs)
    with Nil.prems noise_record_header(3) [of c q "ns_rxKey s" "ns_rxNonce s"] show ?thesis by simp
  qed simp
  with Nil show ?case by simp
next
  case (Cons b bs)
  let ?s1 = "s\<lparr>ns_receiveBuffer := ns_receiveBuffer s @ b\<rparr>"
  have "length (ns_receiveBuffer s) \<le> 4095"
    using Cons.prems(2,6) by (cases ps) (auto simp: kMaxPlaintextSize_def)
  with Cons.prems(3) have room: "length (ns_receiveBuffer s) + length b \<le> kMaxBufferedCiphertext"
    by (simp add: kMaxBufferedCiphertext_def)
  from consume_loop_stream [OF Cons.prems(1,2), of ?s1 "ns_rxKey s" "ns_rxNonce s" "ns_receiveBuffer s @ b" "concat bs" "[]"] Cons.prems(5)
  obtain ds ts p where d: "ps = ds @ ts"
    "consume_loop c (ns_receiveBuffer s @ b) [] ?s1 = (Inr p, ds, ?s1\<lparr>ns_rxNonce := ns_rxNonce s + word_of_nat (length ds)\<rparr>)"
    "p @ concat bs = noise_records c (ns_rxKey s) (ns_rxNonce s + word_of_nat (length ds)) ts"
    "case ts of [] \<Rightarrow> p = [] | q # _ \<Rightarrow> length p < length q + 19" by auto
  let ?s2 = "s\<lparr>ns_receiveBuffer := p, ns_rxNonce := ns_rxNonce s + word_of_nat (length ds)\<rparr>"
  have "noise_consume c b s = (Inr (), ds, ?s2)"
    using Cons.prems(4) room d(2) by (simp add: noise_consume_def Let_def)
  moreover have "consume_all c bs ?s2 =
      (Inr ts, ?s2\<lparr>ns_receiveBuffer := [], ns_rxNonce := ns_rxNonce s + word_of_nat (length ds) + word_of_nat (length ts)\<rparr>)"
    using Cons.IH [of ts ?s2] Cons.prems d by (cases ts) auto
  ultimately show ?case using d(1) by (simp add: add.assoc)
qed

lemma noise_frame_records:
  "ns_ready s \<Longrightarrow> noise_frame c plaintext s =
     (Inr (noise_records c (ns_txKey s) (ns_txNonce s) (plain_pieces plaintext)),
      s\<lparr>ns_txNonce := ns_txNonce s + word_of_nat (length (plain_pieces plaintext))\<rparr>)"
  by (simp add: noise_frame_def frame_loop_records)


definition example_session :: NoiseClient where
  "example_session = (new_NoiseClient [] [] [] 1)\<lparr>ns_begun := True, ns_ready := True\<rparr>"


text \<open>The loop keeps the two flags as long as it does not fail, and a failure clears \<open>ready\<close>.\<close>

lemma consume_loop_flags:
  "consume_loop c rest out s = (r, out', s') \<Longrightarrow> ns_begun s \<Longrightarrow>
     ns_begun s' \<and> (\<forall>e. r = Inl e \<longrightarrow> \<not> ns_ready s') \<and> (\<forall>b. r = Inr b \<longrightarrow> ns_ready s' = ns_ready s)"
proof (induction c rest out s arbitrary: r out' s' rule: consume_loop.induct)
  case (1 c rest out s)
  show ?case
    using 1(2,3) 1(1) [OF _ _ refl _ _ refl]
    by (subst (asm) consume_loop.simps) (auto simp: noise_fail_def Let_def split: if_splits option.splits)
qed

lemma noise_consume_failed:
  assumes "noise_consume c bs s = (Inl e, out, s')" "ns_begun s"
  shows "ns_begun s' \<and> \<not> ns_ready s'"
proof (cases "\<not> ns_ready s \<or> length (ns_receiveBuffer s) + length bs > kMaxBufferedCiphertext")
  case True
  with assms show ?thesis by (auto simp: noise_consume_def noise_fail_def)
next
  case False
  let ?s1 = "s\<lparr>ns_receiveBuffer := ns_receiveBuffer s @ bs\<rparr>"
  obtain r o' s2 where l: "consume_loop c (ns_receiveBuffer s @ bs) [] ?s1 = (r, o', s2)" by (cases "consume_loop c (ns_receiveBuffer s @ bs) [] ?s1")
  with False assms consume_loop_flags [OF l] show ?thesis
    by (auto simp: noise_consume_def Let_def split: sum.splits)
qed

text \<open>
  A session fails closed: once \<open>consume\<close> has rejected a record (wrong type, wrong length, wrong
  tag, or too many bytes) on a session that had begun, nothing more is sent or delivered on it:
  \<open>frame\<close> and \<open>consume\<close> refuse every input, without output, and \<open>begin\<close> refuses too.
\<close>

theorem consume_fails_closed:
  assumes "noise_consume c bs s = (Inl e, out, s')" "ns_begun s"
  shows "noise_frame c plaintext s' = (Inl ''TS2021 session is not ready'', s') \<and>
    noise_consume c bs' s' = (Inl ''invalid or oversized TS2021 receive buffer'', [], s') \<and>
    noise_begin c s' = (Inl ''invalid TS2021 handshake state'', s')"
  using noise_consume_failed [OF assms] by (simp add: noise_frame_def noise_consume_def noise_begin_def noise_fail_def)

theorem consume_fails_closed_witness:
  "\<exists>out s'. noise_consume noise_example [5, 0, 0] example_session = (Inl ''unexpected TS2021 record type'', out, s') \<and>
    noise_frame noise_example [1] s' = (Inl ''TS2021 session is not ready'', s')"
proof -
  have bad: "noise_consume noise_example [5, 0, 0] example_session =
      (Inl ''unexpected TS2021 record type'', [], example_session\<lparr>ns_receiveBuffer := [5, 0, 0], ns_ready := False\<rparr>)"
    by (simp add: noise_consume_def consume_loop.simps example_session_def new_NoiseClient_def kMaxBufferedCiphertext_def noise_fail_def)
  have "ns_begun example_session" by (simp add: example_session_def)
  from consume_fails_closed [OF bad this, of "[1]"] bad show ?thesis by blast
qed

end
