(* ===== verification/TailscaleHttp.thy ===== *)
theory TailscaleHttp
  imports TailscaleDerp
begin

text \<open>
  Models of the HTTP/1.1 parts of the control connection:
  \<open>app/src/remote_access/tailscale/TailscaleHttpUpgrade.cpp\<close> (the request that carries the Noise initiation and
  the check of the answer) and \<open>TailscaleControlKey.cpp\<close> (fetching the control server's public key: chunked and
  plain bodies, the key in the JSON answer), with \<open>decodeTypedKey\<close> and \<open>encodeTypedKey\<close> of
  \<open>TailscaleControlCodec.cpp\<close>.

  The JSON library is not part of the sources: \<open>publicKeyOf\<close> is what it makes of a text, \<open>None\<close>
  where the text is not an object, \<open>Some None\<close> where the object has no string \<open>publicKey\<close>.
\<close>

section \<open>Searching\<close>

text \<open>\<open>s.find(p)\<close>: the position of the first occurrence.\<close>

fun find_str :: "string \<Rightarrow> string \<Rightarrow> nat option" where
  "find_str p [] = (if p = [] then Some 0 else None)"
| "find_str p (x # xs) = (if take (length p) (x # xs) = p then Some 0 else map_option Suc (find_str p xs))"

definition find_from :: "string \<Rightarrow> string \<Rightarrow> nat \<Rightarrow> nat option" where
  "find_from p s off = map_option (\<lambda>i. off + i) (find_str p (drop off s))"

definition find_char :: "char \<Rightarrow> string \<Rightarrow> nat option" where
  "find_char c s = find_str [c] s"

lemma find_str_SomeD: "find_str p s = Some i \<Longrightarrow> i + length p \<le> length s \<and> take (length p) (drop i s) = p"
proof (induction s arbitrary: i)
  case (Cons x xs)
  show ?case
  proof (cases "take (length p) (x # xs) = p")
    case True
    with Cons.prems have "i = 0" by simp
    with True show ?thesis by (metis add_0 drop0 length_take min.cobounded1)
  next
    case False
    with Cons.prems obtain j where "find_str p xs = Some j" "i = Suc j" by auto
    with Cons.IH show ?thesis by simp
  qed
qed (simp split: if_splits)

section \<open>The upgrade request\<close>

definition http_kMaxHeaderSize :: nat where
  "http_kMaxHeaderSize = 16 * 1024"

definition kUpgrade :: string where
  "kUpgrade = ''tailscale-control-protocol''"

definition kBase64 :: string where
  "kBase64 = ''ABCDEFGHIJKLMNOPQRSTUVWXYZabcdefghijklmnopqrstuvwxyz0123456789+/''"

definition base64_char :: "u32 \<Rightarrow> char" where
  "base64_char v = kBase64 ! unat (v AND 63)"

text \<open>One round of the loop for each three bytes of input; the last may have one or two.\<close>

fun base64 :: "bytes \<Rightarrow> string" where
  "base64 [] = []"
| "base64 [a] =
     (let v = push_bit 16 (ucast a) :: u32
      in [base64_char (drop_bit 18 v), base64_char (drop_bit 12 v), CHR ''='', CHR ''=''])"
| "base64 [a, b] =
     (let v = push_bit 16 (ucast a) OR push_bit 8 (ucast b) :: u32
      in [base64_char (drop_bit 18 v), base64_char (drop_bit 12 v), base64_char (drop_bit 6 v), CHR ''=''])"
| "base64 (a # b # c # rest) =
     (let v = push_bit 16 (ucast a) OR push_bit 8 (ucast b) OR ucast c :: u32
      in [base64_char (drop_bit 18 v), base64_char (drop_bit 12 v), base64_char (drop_bit 6 v), base64_char v] @ base64 rest)"

definition buildTs2021UpgradeRequest :: "string \<Rightarrow> bytes \<Rightarrow> string" where
  "buildTs2021UpgradeRequest host noiseInitiation =
     (if host = [] \<or> (\<exists>c \<in> set host. c = CHR 0x0D \<or> c = CHR 0x0A) \<or> length noiseInitiation \<noteq> 101 then []
      else ''POST /ts2021 HTTP/1.1'' @ crlf @ ''Host: '' @ host @ crlf @ ''Upgrade: tailscale-control-protocol'' @ crlf @
           ''Connection: upgrade'' @ crlf @ ''X-Tailscale-Handshake: '' @ base64 noiseInitiation @ crlf @
           ''Content-Length: 0'' @ crlf @ crlf)"

section \<open>The upgrade response\<close>

text \<open>\<open>trim\<close> of the two files: spaces and tabs on both sides, and in the upgrade check a trailing CR.\<close>

definition is_blank :: "char \<Rightarrow> bool" where
  "is_blank c = (c = CHR '' '' \<or> c = CHR 0x09)"

definition upgrade_trim :: "string \<Rightarrow> string" where
  "upgrade_trim s = rev (dropWhile (\<lambda>c. is_blank c \<or> c = CHR 0x0D) (rev (dropWhile is_blank s)))"

definition header_trim :: "string \<Rightarrow> string" where
  "header_trim s = rev (dropWhile is_blank (rev (dropWhile is_blank s)))"

text \<open>
  The header loop from \<open>offset\<close> on.  The result are the two flags \<open>sawUpgrade\<close> and \<open>sawConnection\<close>, or the
  rejection of a line without a colon.
\<close>

function upgrade_headers :: "string \<Rightarrow> nat \<Rightarrow> bool \<Rightarrow> bool \<Rightarrow> string + bool \<times> bool" where
  "upgrade_headers header offset sawUpgrade sawConnection =
     (if offset < length header - 2 then
        (case find_from crlf header offset of
           None \<Rightarrow> Inr (sawUpgrade, sawConnection)
         | Some e \<Rightarrow>
             if e = offset then Inr (sawUpgrade, sawConnection)
             else
               let line = take (e - offset) (drop offset header) in
               (case cut (CHR '':'') line of
                  (_, None) \<Rightarrow> Inl ''malformed TS2021 HTTP header''
                | (n, Some v) \<Rightarrow>
                    let name = map tolower (upgrade_trim n); value = map tolower (upgrade_trim v)
                    in upgrade_headers header (e + 2) (sawUpgrade \<or> (name = ''upgrade'' \<and> value = kUpgrade))
                         (sawConnection \<or> (name = ''connection'' \<and> has_substr ''upgrade'' value))))
      else Inr (sawUpgrade, sawConnection))"
  by pat_completeness auto
termination
  by (relation "measure (\<lambda>(header, offset, u, c). length header - offset)") (auto simp: find_from_def)

declare upgrade_headers.simps [simp del]

definition validateTs2021UpgradeResponse :: "string \<Rightarrow> string + unit" where
  "validateTs2021UpgradeResponse header =
     (if length header > http_kMaxHeaderSize \<or> \<not> ends_with (crlf @ crlf) header
      then Inl ''invalid or oversized TS2021 HTTP response''
      else (case find_str crlf header of
              None \<Rightarrow> Inl ''missing TS2021 HTTP status''
            | Some firstEnd \<Rightarrow>
                let status = take firstEnd header in
                if \<not> starts_with ''HTTP/1.1 101 '' status \<and> status \<noteq> ''HTTP/1.1 101''
                then Inl ''TS2021 HTTP upgrade was not accepted''
                else (case upgrade_headers header (firstEnd + 2) False False of
                        Inl e \<Rightarrow> Inl e
                      | Inr (u, c) \<Rightarrow> if \<not> u \<or> \<not> c then Inl ''TS2021 HTTP upgrade headers are missing'' else Inr ())))"

section \<open>Chunked bodies\<close>

definition kMaxBodySize :: nat where
  "kMaxBodySize = 64 * 1024"

definition kMaxWireSize :: nat where
  "kMaxWireSize = http_kMaxHeaderSize + kMaxBodySize + 16 * 1024"

text \<open>\<open>std::from_chars\<close> into a \<open>uint64_t\<close>, base 16 and base 10: value and remaining text.\<close>

definition hex_digit :: "char \<Rightarrow> nat" where
  "hex_digit c = (if isdigit c then cval c - 48 else if islower c then cval c - 87 else cval c - 55)"

definition hex_value :: "string \<Rightarrow> nat" where
  "hex_value s = foldl (\<lambda>acc c. acc * 16 + hex_digit c) 0 s"

definition from_chars_u64_hex :: "string \<Rightarrow> (nat \<times> string) option" where
  "from_chars_u64_hex s =
     (let ds = takeWhile isxdigit s in
      if ds = [] \<or> hex_value ds \<ge> 2 ^ 64 then None else Some (hex_value ds, dropWhile isxdigit s))"

definition from_chars_u64 :: "string \<Rightarrow> (nat \<times> string) option" where
  "from_chars_u64 s =
     (let ds = takeWhile isdigit s in
      if ds = [] \<or> dec_value ds \<ge> 2 ^ 64 then None else Some (dec_value ds, dropWhile isdigit s))"

definition parseHexSize :: "string \<Rightarrow> nat option" where
  "parseHexSize text =
     (let t = header_trim (fst (cut (CHR '';'') text)) in
      if t = [] then None
      else (case from_chars_u64_hex t of
              None \<Rightarrow> None
            | Some (v, rest) \<Rightarrow> if rest \<noteq> [] \<or> v > kMaxBodySize then None else Some v))"

function decodeChunked_loop :: "string \<Rightarrow> string \<Rightarrow> string + string" where
  "decodeChunked_loop body wire =
     (case find_str crlf wire of
        None \<Rightarrow> Inl ''truncated control-key chunk header''
      | Some lineEnd \<Rightarrow>
          (case parseHexSize (take lineEnd wire) of
             None \<Rightarrow> Inl ''invalid control-key chunk size''
           | Some chunkSize \<Rightarrow>
               let rest = drop (lineEnd + 2) wire in
               if chunkSize = 0 then
                 if rest = crlf then Inr body
                 else (case find_str (crlf @ crlf) rest of
                         None \<Rightarrow> Inl ''invalid control-key chunk trailer''
                       | Some trailerEnd \<Rightarrow>
                           if trailerEnd > http_kMaxHeaderSize \<or> trailerEnd + 4 \<noteq> length rest
                           then Inl ''invalid control-key chunk trailer'' else Inr body)
               else if length rest < chunkSize + 2 \<or> take 2 (drop chunkSize rest) \<noteq> crlf \<or> length body > kMaxBodySize - chunkSize
               then Inl ''truncated or oversized control-key chunk''
               else decodeChunked_loop (body @ take chunkSize rest) (drop (chunkSize + 2) rest)))"
  by pat_completeness auto
termination
  by (relation "measure (\<lambda>(body, wire). length wire)") (auto dest!: find_str_SomeD)

declare decodeChunked_loop.simps [simp del]

definition decodeChunked :: "string \<Rightarrow> string + string" where
  "decodeChunked wire = decodeChunked_loop [] wire"

section \<open>The response of the key endpoint\<close>

definition status_is_200 :: "string \<Rightarrow> bool" where
  "status_is_200 status \<longleftrightarrow>
     starts_with ''HTTP/1.'' status \<and>
     (case find_char (CHR '' '') status of
        None \<Rightarrow> False
      | Some sp \<Rightarrow> take 3 (drop (sp + 1) status) = ''200'' \<and> sp + 4 < length status \<and> status ! (sp + 4) = CHR '' '')"

text \<open>The header fields from \<open>cursor\<close> up to the empty line at \<open>headerEnd\<close>, names in lower case.\<close>

function header_fields :: "string \<Rightarrow> nat \<Rightarrow> nat \<Rightarrow> (string \<times> string) list \<Rightarrow> string + (string \<times> string) list" where
  "header_fields response headerEnd cursor headers =
     (if cursor < headerEnd then
        (case find_from crlf response cursor of
           None \<Rightarrow> Inl ''malformed control-key HTTP header''
         | Some lineEnd \<Rightarrow>
             if lineEnd > headerEnd then Inl ''malformed control-key HTTP header''
             else
               (case cut (CHR '':'') (take (lineEnd - cursor) (drop cursor response)) of
                  (_, None) \<Rightarrow> Inl ''malformed control-key HTTP field''
                | (n, Some v) \<Rightarrow>
                    let name = map tolower (header_trim n); value = header_trim v in
                    if name = [] \<or> map_of headers name \<noteq> None then Inl ''duplicate control-key HTTP field''
                    else header_fields response headerEnd (lineEnd + 2) (headers @ [(name, value)])))
      else Inr headers)"
  by pat_completeness auto
termination
  by (relation "measure (\<lambda>(response, headerEnd, cursor, headers). headerEnd - cursor)") (auto simp: find_from_def)

declare header_fields.simps [simp del]

definition body_of :: "(string \<times> string) list \<Rightarrow> string \<Rightarrow> string + string" where
  "body_of headers body =
     (case (map_of headers ''transfer-encoding'', map_of headers ''content-length'') of
        (Some _, Some _) \<Rightarrow> Inl ''ambiguous control-key HTTP framing''
      | (Some transfer, None) \<Rightarrow>
          if map tolower (header_trim transfer) \<noteq> ''chunked'' then Inl ''unsupported control-key transfer encoding''
          else decodeChunked body
      | (None, Some len) \<Rightarrow>
          (case from_chars_u64 (header_trim len) of
             None \<Rightarrow> Inl ''invalid control-key content length''
           | Some (expected, rest) \<Rightarrow>
               if rest \<noteq> [] \<or> expected > kMaxBodySize \<or> length body \<noteq> expected
               then Inl ''invalid control-key content length'' else Inr body)
      | (None, None) \<Rightarrow>
          if length body > kMaxBodySize then Inl ''oversized control-key response body'' else Inr body)"

definition decodeHttpBody :: "string \<Rightarrow> string + string" where
  "decodeHttpBody response =
     (case find_str (crlf @ crlf) response of
        None \<Rightarrow> Inl ''invalid or oversized control-key HTTP header''
      | Some headerEnd \<Rightarrow>
          if headerEnd > http_kMaxHeaderSize then Inl ''invalid or oversized control-key HTTP header''
          else
            (case find_str crlf response of
               None \<Rightarrow> Inl ''invalid control-key HTTP status''
             | Some firstLineEnd \<Rightarrow>
                 if \<not> status_is_200 (take firstLineEnd response) then Inl ''control-key endpoint returned a non-200 status''
                 else
                   (case header_fields response headerEnd (firstLineEnd + 2) [] of
                      Inl e \<Rightarrow> Inl e
                    | Inr headers \<Rightarrow> body_of headers (drop (headerEnd + 4) response))))"

section \<open>Typed keys\<close>

definition kHex :: string where
  "kHex = ''0123456789abcdef''"

definition hex_byte :: "u8 \<Rightarrow> string" where
  "hex_byte b = [kHex ! unat (drop_bit 4 b), kHex ! unat (b AND 0x0f)]"

definition encodeTypedKey :: "string \<Rightarrow> bytes \<Rightarrow> string" where
  "encodeTypedKey prefix key = prefix @ concat (map hex_byte key)"

definition nibble :: "char \<Rightarrow> u8 option" where
  "nibble c =
     (if 48 \<le> cval c \<and> cval c \<le> 57 then Some (word_of_nat (cval c - 48))
      else if 97 \<le> cval c \<and> cval c \<le> 102 then Some (word_of_nat (cval c - 97 + 10))
      else None)"

fun decode_nibbles :: "string \<Rightarrow> bytes option" where
  "decode_nibbles [] = Some []"
| "decode_nibbles [c] = None"
| "decode_nibbles (c # d # rest) =
     (case (nibble c, nibble d) of
        (Some high, Some low) \<Rightarrow> map_option (\<lambda>bs. (push_bit 4 high OR low) # bs) (decode_nibbles rest)
      | _ \<Rightarrow> None)"

definition decodeTypedKey :: "string \<Rightarrow> string \<Rightarrow> bytes option" where
  "decodeTypedKey encoded prefix =
     (if \<not> starts_with prefix encoded then None
      else
        let digits = drop (length prefix) encoded in
        if length digits \<noteq> 64 then None else decode_nibbles digits)"

section \<open>Fetching the key\<close>

definition parseControlPublicKeyResponse :: "(string \<Rightarrow> string option option) \<Rightarrow> string \<Rightarrow> string + bytes" where
  "parseControlPublicKeyResponse publicKeyOf json =
     (if json = [] \<or> length json > kMaxBodySize then Inl ''invalid control-key response size''
      else (case publicKeyOf json of
              None \<Rightarrow> Inl ''invalid control-key JSON''
            | Some None \<Rightarrow> Inl ''control-key response has no TS2021 public key''
            | Some (Some text) \<Rightarrow>
                (case decodeTypedKey text ''mkey:'' of
                   None \<Rightarrow> Inl ''control-key response contains an invalid key''
                 | Some key \<Rightarrow>
                     if list_all (\<lambda>b. b = 0) key then Inl ''control-key response contains an invalid key'' else Inr key)))"

definition keyRequest :: "string \<Rightarrow> nat \<Rightarrow> string" where
  "keyRequest host capabilityVersion =
     ''GET /key?v='' @ to_string capabilityVersion @ '' HTTP/1.1'' @ crlf @ ''Host: '' @ host @ crlf @
     ''Accept: application/json'' @ crlf @ ''Connection: close'' @ crlf @ crlf"

definition string_of_bytes :: "bytes \<Rightarrow> string" where
  "string_of_bytes bs = map (\<lambda>b. char_of (unat b)) bs"

text \<open>The read loop: what the transport delivers until it ends or fails.\<close>

fun read_response :: "string \<Rightarrow> read_result list \<Rightarrow> string + string" where
  "read_response response [] = Inr response"
| "read_response response (ReadError e # rs) = Inl e"
| "read_response response (ReadBytes [] # rs) = Inr response"
| "read_response response (ReadBytes (b # bs) # rs) =
     (if length response > kMaxWireSize - length (b # bs) then Inl ''oversized control-key HTTP response''
      else read_response (response @ string_of_bytes (b # bs)) rs)"

text \<open>
  \<open>fetchControlPublicKey\<close> over a transport whose \<open>connect\<close> answers \<open>connectError\<close>, or \<open>None\<close> for success.  The
  transport is closed on every path behind a successful \<open>connect\<close>.
\<close>

definition fetchControlPublicKey :: "(string \<Rightarrow> string option option) \<Rightarrow> string option \<Rightarrow> Transport \<Rightarrow> string \<Rightarrow> u16 \<Rightarrow> int \<Rightarrow>
    (string + bytes) \<times> Transport" where
  "fetchControlPublicKey publicKeyOf connectError tr host port capabilityVersion =
     (if host = [] \<or> (\<exists>c \<in> set host. c = CHR 0x0D \<or> c = CHR 0x0A) \<or> port = 0 \<or> capabilityVersion \<le> 0
      then (Inl ''invalid control-key request parameters'', tr)
      else (case connectError of
              Some e \<Rightarrow> (Inl e, tr)
            | None \<Rightarrow>
                (case transport_write [] (bytes_of_string (keyRequest host (nat capabilityVersion))) tr of
                   (False, e, tr1) \<Rightarrow> (Inl e, tr1\<lparr>closed := True\<rparr>)
                 | (True, _, tr1) \<Rightarrow>
                     (case read_response [] (incoming tr1) of
                        Inl e \<Rightarrow> (Inl e, tr1\<lparr>closed := True\<rparr>)
                      | Inr response \<Rightarrow>
                          (case decodeHttpBody response of
                             Inl e \<Rightarrow> (Inl e, tr1\<lparr>closed := True\<rparr>)
                           | Inr body \<Rightarrow> (parseControlPublicKeyResponse publicKeyOf body, tr1\<lparr>closed := True\<rparr>))))))"

section \<open>Base64\<close>

text \<open>A decoder as RFC 4648 describes it, for the server's side of the header.\<close>

definition sextet :: "char \<Rightarrow> u32 option" where
  "sextet c = map_option word_of_nat (find_char c kBase64)"

fun base64_decode :: "string \<Rightarrow> bytes option" where
  "base64_decode [] = Some []"
| "base64_decode (a # b # c # d # rest) =
     (case (sextet a, sextet b) of
        (Some x, Some y) \<Rightarrow>
          if c = CHR ''='' then
            (if d = CHR ''='' \<and> rest = [] then Some [ucast (drop_bit 16 (push_bit 18 x OR push_bit 12 y))] else None)
          else (case sextet c of
            None \<Rightarrow> None
          | Some z \<Rightarrow>
              if d = CHR ''='' then
                (if rest = [] then
                   let v = push_bit 18 x OR push_bit 12 y OR push_bit 6 z in Some [ucast (drop_bit 16 v), ucast (drop_bit 8 v)]
                 else None)
              else (case sextet d of
                None \<Rightarrow> None
              | Some w \<Rightarrow>
                  let v = push_bit 18 x OR push_bit 12 y OR push_bit 6 z OR w
                  in map_option (\<lambda>bs. [ucast (drop_bit 16 v), ucast (drop_bit 8 v), ucast v] @ bs) (base64_decode rest)))
      | _ \<Rightarrow> None)"
| "base64_decode _ = None"

lemma sextet_kBase64: "i < 64 \<Longrightarrow> sextet (kBase64 ! i) = Some (word_of_nat i) \<and> kBase64 ! i \<noteq> CHR ''=''"
proof -
  assume "i < 64"
  have "\<forall>i \<in> set [0..<64]. sextet (kBase64 ! i) = Some (word_of_nat i) \<and> kBase64 ! i \<noteq> CHR ''=''" by code_simp
  with \<open>i < 64\<close> show ?thesis by auto
qed

lemma sextet_base64_char: "sextet (base64_char v) = Some (take_bit 6 v)" "base64_char v \<noteq> CHR ''=''"
proof -
  have eq: "v AND 63 = take_bit 6 v" by (simp add: take_bit_eq_mask mask_eq_exp_minus_1)
  have "unat (take_bit 6 v) < 64"
    using take_bit_nat_less_exp [of 6 "unat v"] by (simp only: unsigned_take_bit_eq) simp
  from sextet_kBase64 [OF this] show "sextet (base64_char v) = Some (take_bit 6 v)" "base64_char v \<noteq> CHR ''=''"
    unfolding base64_char_def eq by simp_all
qed

text \<open>The bytes of a group, packed and cut into sextets, come back.\<close>

lemma sextets_join:
  fixes v :: u32
  assumes "n < 24"
  shows "12 \<le> n \<Longrightarrow> bit (push_bit 18 (take_bit 6 (drop_bit 18 v)) OR push_bit 12 (take_bit 6 (drop_bit 12 v))) n = bit v n"
    and "6 \<le> n \<Longrightarrow> bit (push_bit 18 (take_bit 6 (drop_bit 18 v)) OR push_bit 12 (take_bit 6 (drop_bit 12 v)) OR
      push_bit 6 (take_bit 6 (drop_bit 6 v))) n = bit v n"
    and "bit (push_bit 18 (take_bit 6 (drop_bit 18 v)) OR push_bit 12 (take_bit 6 (drop_bit 12 v)) OR
      push_bit 6 (take_bit 6 (drop_bit 6 v)) OR take_bit 6 v) n = bit v n"
proof -
  consider "n < 6" | "6 \<le> n" "n < 12" | "12 \<le> n" "n < 18" | "18 \<le> n" by linarith
  note cases = this
  show "12 \<le> n \<Longrightarrow> bit (push_bit 18 (take_bit 6 (drop_bit 18 v)) OR push_bit 12 (take_bit 6 (drop_bit 12 v))) n = bit v n"
    using cases assms by cases (simp_all only: bit_or_iff bit_push_bit_iff bit_take_bit_iff bit_drop_bit_eq o_def, auto simp: bit_simps)
  show "6 \<le> n \<Longrightarrow> bit (push_bit 18 (take_bit 6 (drop_bit 18 v)) OR push_bit 12 (take_bit 6 (drop_bit 12 v)) OR
      push_bit 6 (take_bit 6 (drop_bit 6 v))) n = bit v n"
    using cases assms by cases (simp_all only: bit_or_iff bit_push_bit_iff bit_take_bit_iff bit_drop_bit_eq o_def, auto simp: bit_simps)
  show "bit (push_bit 18 (take_bit 6 (drop_bit 18 v)) OR push_bit 12 (take_bit 6 (drop_bit 12 v)) OR
      push_bit 6 (take_bit 6 (drop_bit 6 v)) OR take_bit 6 v) n = bit v n"
    using cases assms by cases (simp_all only: bit_or_iff bit_push_bit_iff bit_take_bit_iff bit_drop_bit_eq o_def, auto simp: bit_simps)
qed

text \<open>A byte of a packed group, read back at its place.\<close>

lemma read_byte: "(\<And>n. n < 8 \<Longrightarrow> bit (w :: u32) (k + n) = bit (a :: u8) n) \<Longrightarrow> k \<le> 24 \<Longrightarrow> ucast (drop_bit k w) = a"
  by (rule bit_word_eqI) (simp add: bit_unsigned_iff bit_drop_bit_eq o_def)

lemma pack_bytes:
  fixes a b c :: u8
  assumes "n < 8"
  shows "bit (push_bit 16 (ucast a) OR push_bit 8 (ucast b) OR ucast c :: u32) (16 + n) = bit a n"
    and "bit (push_bit 16 (ucast a) OR push_bit 8 (ucast b) OR ucast c :: u32) (8 + n) = bit b n"
    and "bit (push_bit 16 (ucast a) OR push_bit 8 (ucast b) OR ucast c :: u32) n = bit c n"
    and "bit (push_bit 16 (ucast a) OR push_bit 8 (ucast b) :: u32) (16 + n) = bit a n"
    and "bit (push_bit 16 (ucast a) OR push_bit 8 (ucast b) :: u32) (8 + n) = bit b n"
    and "bit (push_bit 16 (ucast a) :: u32) (16 + n) = bit a n"
  using assms by (auto simp: bit_simps)

lemma packed_sextets:
  fixes v :: u32
  assumes "n < 8" "12 \<le> k" "k \<le> 16"
  shows "bit (push_bit 18 (take_bit 6 (drop_bit 18 v)) OR push_bit 12 (take_bit 6 (drop_bit 12 v))) (k + n) = bit v (k + n)"
  using assms by (intro sextets_join(1)) simp_all

lemma packed_sextets3:
  fixes v :: u32
  assumes "n < 8" "6 \<le> k" "k \<le> 16"
  shows "bit (push_bit 18 (take_bit 6 (drop_bit 18 v)) OR push_bit 12 (take_bit 6 (drop_bit 12 v)) OR
      push_bit 6 (take_bit 6 (drop_bit 6 v))) (k + n) = bit v (k + n)"
  using assms by (intro sextets_join(2)) simp_all

lemma packed_sextets4:
  fixes v :: u32
  assumes "n < 8" "k \<le> 16"
  shows "bit (push_bit 18 (take_bit 6 (drop_bit 18 v)) OR push_bit 12 (take_bit 6 (drop_bit 12 v)) OR
      push_bit 6 (take_bit 6 (drop_bit 6 v)) OR take_bit 6 v) (k + n) = bit v (k + n)"
  using assms by (intro sextets_join(3)) simp_all

lemma base64_decode_base64: "base64_decode (base64 bs) = Some bs"
proof (induction bs rule: base64.induct)
  case (2 a)
  let ?v = "push_bit 16 (ucast a) :: u32"
  have "ucast (drop_bit 16 (push_bit 18 (take_bit 6 (drop_bit 18 ?v)) OR push_bit 12 (take_bit 6 (drop_bit 12 ?v)))) = a"
    by (rule read_byte, (subst packed_sextets; simp add: pack_bytes), simp)
  then show ?case by (simp only: base64.simps base64_decode.simps Let_def sextet_base64_char prod.case option.case if_True simp_thms)
next
  case (3 a b)
  let ?v = "push_bit 16 (ucast a) OR push_bit 8 (ucast b) :: u32"
  let ?w = "push_bit 18 (take_bit 6 (drop_bit 18 ?v)) OR push_bit 12 (take_bit 6 (drop_bit 12 ?v)) OR push_bit 6 (take_bit 6 (drop_bit 6 ?v))"
  have "ucast (drop_bit 16 ?w) = a" by (rule read_byte, (subst packed_sextets3; simp add: pack_bytes), simp)
  moreover have "ucast (drop_bit 8 ?w) = b" by (rule read_byte, (subst packed_sextets3; simp add: pack_bytes), simp)
  ultimately show ?case
    by (simp only: base64.simps base64_decode.simps Let_def sextet_base64_char prod.case option.case if_True if_False simp_thms)
next
  case (4 a b c rest)
  let ?v = "push_bit 16 (ucast a) OR push_bit 8 (ucast b) OR ucast c :: u32"
  let ?w = "push_bit 18 (take_bit 6 (drop_bit 18 ?v)) OR push_bit 12 (take_bit 6 (drop_bit 12 ?v)) OR
      push_bit 6 (take_bit 6 (drop_bit 6 ?v)) OR take_bit 6 ?v"
  have "ucast (drop_bit 16 ?w) = a" by (rule read_byte, (subst packed_sextets4; simp add: pack_bytes), simp)
  moreover have "ucast (drop_bit 8 ?w) = b" by (rule read_byte, (subst packed_sextets4; simp add: pack_bytes), simp)
  moreover have "ucast (drop_bit 0 ?w) = c" by (rule read_byte, (subst packed_sextets4; simp add: pack_bytes), simp)
  ultimately show ?case
    by (simp only: base64.simps base64_decode.simps Let_def sextet_base64_char prod.case option.case if_True if_False simp_thms append.simps
        drop_bit_0 id_apply 4 option.map)
qed simp

section \<open>Typed keys round trip\<close>

lemma nibble_kHex: "i < 16 \<Longrightarrow> nibble (kHex ! i) = Some (word_of_nat i)"
proof -
  assume "i < 16"
  have "\<forall>i \<in> set [0..<16]. nibble (kHex ! i) = Some (word_of_nat i)" by code_simp
  with \<open>i < 16\<close> show ?thesis by auto
qed

lemma kHex_digit: "48 \<le> n \<Longrightarrow> n \<le> 57 \<Longrightarrow> kHex ! (n - 48) = char_of n"
proof -
  assume "48 \<le> n" "n \<le> 57"
  have "\<forall>n \<in> set [48..<58]. kHex ! (n - 48) = char_of n" by code_simp
  moreover have "n \<in> set [48..<58]" using \<open>48 \<le> n\<close> \<open>n \<le> 57\<close> by (simp del: upt_rec_numeral)
  ultimately show ?thesis by blast
qed

lemma kHex_letter: "97 \<le> n \<Longrightarrow> n \<le> 102 \<Longrightarrow> kHex ! (n - 97 + 10) = char_of n"
proof -
  assume "97 \<le> n" "n \<le> 102"
  have "\<forall>n \<in> set [97..<103]. kHex ! (n - 97 + 10) = char_of n" by code_simp
  moreover have "n \<in> set [97..<103]" using \<open>97 \<le> n\<close> \<open>n \<le> 102\<close> by (simp del: upt_rec_numeral)
  ultimately show ?thesis by blast
qed

lemma unat_small_u8: "n < 256 \<Longrightarrow> unat (word_of_nat n :: u8) = n"
  by (simp add: unat_of_nat)

lemma nibble_canonical:
  assumes "nibble c = Some v"
  shows "unat v < 16 \<and> kHex ! unat v = c"
proof (cases "48 \<le> cval c \<and> cval c \<le> 57")
  case True
  with assms have v: "v = word_of_nat (cval c - 48)" by (simp add: nibble_def)
  have "unat v = cval c - 48" unfolding v using True by (intro unat_small_u8) linarith
  moreover have "cval c - 48 < 16" using True by linarith
  ultimately show ?thesis using True kHex_digit [of "cval c"] by simp
next
  case False
  with assms have l: "97 \<le> cval c" "cval c \<le> 102" and v: "v = word_of_nat (cval c - 97 + 10)"
    by (simp_all add: nibble_def split: if_splits)
  have "unat v = cval c - 97 + 10" unfolding v using l by (intro unat_small_u8) linarith
  with l kHex_letter [of "cval c"] show ?thesis by simp
qed

lemma nibbles_join: "push_bit 4 (drop_bit 4 b) OR take_bit 4 b = (b :: u8)"
proof (rule bit_word_eqI)
  fix n assume "n < LENGTH(8)"
  then show "bit (push_bit 4 (drop_bit 4 b) OR take_bit 4 b) n = bit b n"
    by (cases "n < 4") (simp_all add: bit_or_iff bit_push_bit_iff bit_take_bit_iff bit_drop_bit_eq)
qed

lemma nibble_of_byte:
  fixes b :: u8
  shows "nibble (kHex ! unat (drop_bit 4 b)) = Some (drop_bit 4 b)" "nibble (kHex ! unat (b AND 0x0f)) = Some (take_bit 4 b)"
proof -
  have "unat (drop_bit 4 b) = unat b div 16" by (simp only: unat_drop_bit_eq) (simp add: drop_bit_eq_div)
  moreover have "unat b < 256" using unsigned_less [of b, where ?'a = nat] by simp
  ultimately have "unat (drop_bit 4 b) < 16" by (simp add: less_mult_imp_div_less)
  from nibble_kHex [OF this] show "nibble (kHex ! unat (drop_bit 4 b)) = Some (drop_bit 4 b)" by simp
  have eq: "b AND 0x0f = take_bit 4 b" by (simp add: take_bit_eq_mask mask_eq_exp_minus_1)
  have "unat (take_bit 4 b) < 16" using take_bit_nat_less_exp [of 4 "unat b"] by (simp only: unsigned_take_bit_eq) simp
  from nibble_kHex [OF this] show "nibble (kHex ! unat (b AND 0x0f)) = Some (take_bit 4 b)" unfolding eq by simp
qed

lemma decode_nibbles_hex: "decode_nibbles (concat (map hex_byte key)) = Some key"
  by (induction key) (simp_all add: hex_byte_def nibble_of_byte nibbles_join)

lemma hex_byte_join:
  assumes "unat (h :: u8) < 16" "unat (l :: u8) < 16"
  shows "hex_byte (push_bit 4 h OR l) = [kHex ! unat h, kHex ! unat l]"
proof -
  have hi: "bit h n \<Longrightarrow> n < 4" "bit l n \<Longrightarrow> n < 4" for n
    using high_bits_clear [of h 4 n] high_bits_clear [of l 4 n] assms by (fastforce simp: not_less)+
  have "drop_bit 4 (push_bit 4 h OR l) = h"
    by (rule bit_word_eqI) (auto simp: bit_drop_bit_eq bit_or_iff bit_push_bit_iff dest: hi)
  moreover have "(push_bit 4 h OR l) AND 0x0f = l"
  proof -
    have "(push_bit 4 h OR l) AND 0x0f = take_bit 4 (push_bit 4 h OR l)" by (simp only: take_bit_eq_mask mask_eq_exp_minus_1) simp
    also have "\<dots> = l"
      by (rule bit_word_eqI) (auto simp: bit_take_bit_iff bit_or_iff bit_push_bit_iff dest: hi)
    finally show ?thesis .
  qed
  ultimately show ?thesis by (simp add: hex_byte_def)
qed

lemma decode_nibbles_canonical: "decode_nibbles s = Some key \<Longrightarrow> s = concat (map hex_byte key)"
proof (induction s arbitrary: key rule: decode_nibbles.induct)
  case (3 c d rest)
  then obtain h l bs where "nibble c = Some h" "nibble d = Some l" "decode_nibbles rest = Some bs" "key = (push_bit 4 h OR l) # bs"
    by (auto split: option.splits)
  with 3 nibble_canonical [of c h] nibble_canonical [of d l] show ?case by (simp add: hex_byte_join)
qed simp_all

lemma length_concat_hex [simp]: "length (concat (map hex_byte key)) = 2 * length key"
  by (induction key) (simp_all add: hex_byte_def)

lemma decodeTypedKey_SomeD:
  assumes "decodeTypedKey encoded prefix = Some key"
  shows "length key = 32 \<and> encoded = encodeTypedKey prefix key"
proof -
  let ?d = "drop (length prefix) encoded"
  from assms have p: "starts_with prefix encoded" and d: "decode_nibbles ?d = Some key" "length ?d = 64"
    by (auto simp: decodeTypedKey_def Let_def split: if_splits)
  have eq: "?d = concat (map hex_byte key)" using decode_nibbles_canonical [OF d(1)] .
  with d(2) have "length key = 32" by simp
  moreover have "encoded = prefix @ ?d" using p by (metis append_take_drop_id starts_with_def)
  ultimately show ?thesis using eq by (simp add: encodeTypedKey_def)
qed

lemma decodeTypedKey_encode: "length key = 32 \<Longrightarrow> decodeTypedKey (encodeTypedKey prefix key) prefix = Some key"
  by (simp add: decodeTypedKey_def encodeTypedKey_def starts_with_def decode_nibbles_hex)

text \<open>
  Key texts are canonical: decoding the text of a 32-byte key gives the key, and a text is accepted
  only if it is that of the key it decodes to, so no two spellings name one key.
\<close>

theorem decodeTypedKey_iff: "length key = 32 \<Longrightarrow> decodeTypedKey encoded prefix = Some key \<longleftrightarrow> encoded = encodeTypedKey prefix key"
  using decodeTypedKey_SomeD decodeTypedKey_encode by blast

theorem decodeTypedKey_iff_witness: "decodeTypedKey (encodeTypedKey ''mkey:'' (replicate 32 0xa7)) ''mkey:'' = Some (replicate 32 0xa7)"
  using decodeTypedKey_iff [of "replicate 32 0xa7"] by simp

section \<open>Chunked bodies round trip\<close>

lemma find_str_line: "CHR 0x0D \<notin> set l \<Longrightarrow> find_str crlf (l @ crlf @ r) = Some (length l)"
  by (induction l) (auto simp: crlf_def)

lemma find_str_split: "find_str p s = Some i \<Longrightarrow> s = take i s @ p @ drop (i + length p) s"
proof -
  assume "find_str p s = Some i"
  from find_str_SomeD [OF this] have "drop i s = p @ drop (length p) (drop i s)"
    by (metis append_take_drop_id)
  then show ?thesis by (metis append_take_drop_id drop_drop add.commute)
qed

lemma length_crlf [simp]: "length crlf = 2"
  by (simp add: crlf_def)

text \<open>A chunk is its size line and its data.\<close>

definition chunk_text :: "string \<times> string \<Rightarrow> string" where
  "chunk_text c = fst c @ crlf @ snd c @ crlf"

definition chunk_ok :: "string \<times> string \<Rightarrow> bool" where
  "chunk_ok c \<longleftrightarrow> parseHexSize (fst c) = Some (length (snd c)) \<and> snd c \<noteq> []"

lemma decodeChunked_loop_chunk:
  assumes "chunk_ok c" "CHR 0x0D \<notin> set (fst c)" "length body + length (snd c) \<le> kMaxBodySize"
  shows "decodeChunked_loop body (chunk_text c @ rest) = decodeChunked_loop (body @ snd c) rest"
proof -
  obtain l d where c: "c = (l, d)" by fastforce
  have find: "find_str crlf (l @ crlf @ d @ crlf @ rest) = Some (length l)"
    using assms(2) by (simp add: c find_str_line)
  have "\<not> kMaxBodySize - length d < length body" using assms(3) by (simp add: c)
  with assms find show ?thesis by (subst decodeChunked_loop.simps) (simp add: c chunk_text_def chunk_ok_def Let_def)
qed

lemma decodeChunked_loop_chunks:
  assumes "\<forall>c \<in> set cs. chunk_ok c \<and> CHR 0x0D \<notin> set (fst c)" "length body + length (concat (map snd cs)) \<le> kMaxBodySize"
  shows "decodeChunked_loop body (concat (map chunk_text cs) @ rest) = decodeChunked_loop (body @ concat (map snd cs)) rest"
  using assms by (induction cs arbitrary: body) (simp_all add: decodeChunked_loop_chunk)

text \<open>
  Chunked bodies round trip: a body sent in any number of non-empty chunks, each announced by a
  size line (hexadecimal in either case, extensions and blanks allowed) of its length, and ended by a
  line of size zero, is decoded to the concatenation of the chunks as long as that is at most 64 KiB.
\<close>

theorem decodeChunked_chunks:
  assumes "\<forall>c \<in> set cs. chunk_ok c \<and> CHR 0x0D \<notin> set (fst c)" "length (concat (map snd cs)) \<le> kMaxBodySize"
    and "parseHexSize z = Some 0" "CHR 0x0D \<notin> set z"
  shows "decodeChunked (concat (map chunk_text cs) @ z @ crlf @ crlf) = Inr (concat (map snd cs))"
proof -
  have "find_str crlf (z @ crlf @ crlf) = Some (length z)" using assms(4) by (rule find_str_line)
  then have "decodeChunked_loop body (z @ crlf @ crlf) = Inr body" for body
    using assms(3) by (subst decodeChunked_loop.simps) simp
  with decodeChunked_loop_chunks [OF assms(1), of "[]"] assms(2) show ?thesis by (simp add: decodeChunked_def)
qed

theorem decodeChunked_chunks_witness:
  "decodeChunked (concat (map chunk_text [(''3'', ''abc''), (''A;x=1'', ''0123456789'')]) @ ''0'' @ crlf @ crlf) = Inr ''abc0123456789''"
proof -
  have "parseHexSize ''3'' = Some 3" "parseHexSize ''A;x=1'' = Some 10" "parseHexSize ''0'' = Some 0"
    by (simp_all add: parseHexSize_def header_trim_def is_blank_def from_chars_u64_hex_def hex_value_def hex_digit_def isxdigit_def isdigit_def
        islower_def kMaxBodySize_def)
  with decodeChunked_chunks [of "[(''3'', ''abc''), (''A;x=1'', ''0123456789'')]" "''0''"] show ?thesis
    by (simp add: chunk_ok_def kMaxBodySize_def)
qed

lemma decodeChunked_loop_sound:
  "decodeChunked_loop body wire = Inr b \<Longrightarrow> length body \<le> kMaxBodySize \<Longrightarrow>
     \<exists>cs z t. wire = concat (map chunk_text cs) @ z @ crlf @ t \<and> list_all chunk_ok cs \<and> parseHexSize z = Some 0 \<and>
       b = body @ concat (map snd cs) \<and> length b \<le> kMaxBodySize"
proof (induction body wire rule: decodeChunked_loop.induct)
  case (1 body wire)
  from "1.prems" obtain i n where i: "find_str crlf wire = Some i" and n: "parseHexSize (take i wire) = Some n"
    by (subst (asm) decodeChunked_loop.simps) (auto split: option.splits)
  define rest where "rest = drop (i + 2) wire"
  have wire: "wire = take i wire @ crlf @ rest" using find_str_split [OF i] by (simp add: rest_def)
  show ?case
  proof (cases "n = 0")
    case True
    with "1.prems" i n have "b = body"
      by (subst (asm) decodeChunked_loop.simps) (auto simp: Let_def split: if_splits option.splits)
    with wire True n "1.prems"(2) show ?thesis
      by (intro exI [of _ "[]"] exI [of _ "take i wire"] exI [of _ rest]) simp
  next
    case False
    have ok: "\<not> (length rest < n + 2 \<or> take 2 (drop n rest) \<noteq> crlf \<or> length body > kMaxBodySize - n)"
      and b: "decodeChunked_loop (body @ take n rest) (drop (n + 2) rest) = Inr b"
      using "1.prems"(1) i n False by (subst (asm) decodeChunked_loop.simps; simp add: Let_def rest_def split: if_splits)+
    have "n \<le> kMaxBodySize" using n by (auto simp: parseHexSize_def Let_def split: if_splits option.splits)
    with ok have "length (body @ take n rest) \<le> kMaxBodySize" by auto
    from "1.IH" [OF i n rest_def False ok b this] obtain cs z t where
      r: "drop (n + 2) rest = concat (map chunk_text cs) @ z @ crlf @ t" and
      rs: "list_all chunk_ok cs" "parseHexSize z = Some 0" "b = (body @ take n rest) @ concat (map snd cs)" "length b \<le> kMaxBodySize" by blast
    have rest: "rest = take n rest @ crlf @ drop (n + 2) rest"
      using ok by (metis append_take_drop_id drop_drop add.commute)
    have "chunk_ok (take i wire, take n rest)" using n ok False by (auto simp: chunk_ok_def)
    moreover have "wire = concat (map chunk_text ((take i wire, take n rest) # cs)) @ z @ crlf @ t"
      using wire rest r by (simp add: chunk_text_def)
    ultimately show ?thesis using rs
      by (intro exI [of _ "(take i wire, take n rest) # cs"] exI [of _ z] exI [of _ t]) simp
  qed
qed

text \<open>Nothing but a chunked body is accepted, and never more than 64 KiB of it.\<close>

lemma decodeChunked_sound:
  "decodeChunked wire = Inr b \<Longrightarrow>
     \<exists>cs z t. wire = concat (map chunk_text cs) @ z @ crlf @ t \<and> list_all chunk_ok cs \<and> parseHexSize z = Some 0 \<and>
       b = concat (map snd cs) \<and> length b \<le> kMaxBodySize"
  using decodeChunked_loop_sound [of "[]" wire b] by (simp add: decodeChunked_def)

lemma body_of_bounded: "body_of headers body = Inr b \<Longrightarrow> length b \<le> kMaxBodySize"
  by (auto simp: body_of_def dest!: decodeChunked_sound split: option.splits if_splits prod.splits)

lemma decodeHttpBody_bounded: "decodeHttpBody r = Inr b \<Longrightarrow> length b \<le> kMaxBodySize"
  by (auto simp: decodeHttpBody_def dest: body_of_bounded split: option.splits if_splits sum.splits)

text \<open>The fields of an accepted header have distinct names.\<close>

lemma header_fields_distinct:
  "header_fields r he cur hs = Inr hs' \<Longrightarrow> distinct (map fst hs) \<Longrightarrow> distinct (map fst hs')"
proof (induction r he cur hs arbitrary: hs' rule: header_fields.induct)
  case (1 r he cur hs)
  show ?case
  proof (cases "cur < he")
    case False
    with "1.prems" show ?thesis by (subst (asm) header_fields.simps) simp
  next
    case True
    with "1.prems"(1) obtain e n v where e: "find_from crlf r cur = Some e" "\<not> e > he" "cut (CHR '':'') (take (e - cur) (drop cur r)) = (n, Some v)"
      "\<not> (map tolower (header_trim n) = [] \<or> map_of hs (map tolower (header_trim n)) \<noteq> None)"
      "header_fields r he (e + 2) (hs @ [(map tolower (header_trim n), header_trim v)]) = Inr hs'"
      by (subst (asm) header_fields.simps) (auto simp: Let_def split: option.splits if_splits prod.splits)
    moreover from e(4) "1.prems"(2) have "distinct (map fst (hs @ [(map tolower (header_trim n), header_trim v)]))"
      by (auto simp: map_of_eq_None_iff)
    ultimately show ?thesis using "1.IH" [OF True e(1,2) e(3) [symmetric] refl refl refl e(4)] by blast
  qed
qed

lemma transport_write_closed: "transport_write e bs tr = (ok, e', tr') \<Longrightarrow> incoming tr' = incoming tr"
  by (auto simp: transport_write_def split: list.splits option.splits)

text \<open>
  The control key is authentic to the answer: when \<open>fetchControlPublicKey\<close> returns a key, the transport
  has been closed, the body of the answer had at most 64 KiB, and the key is 32 bytes, not
  all zero, and exactly the one whose canonical text the answer's JSON object names as \<open>publicKey\<close>.
\<close>

theorem fetchControlPublicKey_sound:
  assumes "fetchControlPublicKey publicKeyOf connectError tr host port version = (Inr key, tr')"
  shows "closed tr' \<and> connectError = None \<and> port \<noteq> 0 \<and> 0 < version \<and> length key = 32 \<and> \<not> list_all (\<lambda>b. b = 0) key \<and>
    (\<exists>response body. read_response [] (incoming tr) = Inr response \<and> decodeHttpBody response = Inr body \<and> length body \<le> kMaxBodySize \<and>
       publicKeyOf body = Some (Some (encodeTypedKey ''mkey:'' key)))"
proof -
  obtain ok e1 tr1 where w: "transport_write [] (bytes_of_string (keyRequest host (nat version))) tr = (ok, e1, tr1)"
    by (metis prod_cases3)
  let ?bad = "host = [] \<or> (\<exists>c \<in> set host. c = CHR 0x0D \<or> c = CHR 0x0A) \<or> port = 0 \<or> version \<le> 0"
  have good: "\<not> ?bad" using assms by (cases ?bad) (simp_all only: fetchControlPublicKey_def if_True prod.inject, simp_all)
  then have p: "port \<noteq> 0" "0 < version" by auto
  have conn: "connectError = None"
    using assms good by (cases connectError) (simp_all only: fetchControlPublicKey_def if_False option.case prod.inject, simp_all)
  have ok: "ok" using assms good conn w by (cases ok) (simp_all only: fetchControlPublicKey_def if_False option.case prod.case bool.case prod.inject, simp_all)
  note step = assms [unfolded fetchControlPublicKey_def if_not_P [OF good] conn option.case w prod.case, simplified ok bool.case]
  obtain response where resp: "read_response [] (incoming tr1) = Inr response"
    using step by (cases "read_response [] (incoming tr1)") auto
  obtain body where body: "decodeHttpBody response = Inr body"
    using step resp by (cases "decodeHttpBody response") auto
  from step resp body have r3: "parseControlPublicKeyResponse publicKeyOf body = Inr key" and tr': "tr' = tr1\<lparr>closed := True\<rparr>" by auto
  from r3 obtain ktxt where t: "publicKeyOf body = Some (Some ktxt)" "decodeTypedKey ktxt ''mkey:'' = Some key" "\<not> list_all (\<lambda>b. b = 0) key"
    by (auto simp: parseControlPublicKeyResponse_def split: if_splits option.splits)
  from decodeTypedKey_SomeD [OF t(2)] have len: "length key = 32" and "ktxt = encodeTypedKey ''mkey:'' key" by auto
  with t p conn resp body len tr' transport_write_closed [OF w] decodeHttpBody_bounded [OF body] show ?thesis by auto
qed

lemma string_of_bytes_of_string: "string_of_bytes (bytes_of_string s) = s"
  by (induction s) (simp_all add: string_of_bytes_def bytes_of_string_def byte_of_char_def unat_of_nat)

lemma read_response_one:
  "bs \<noteq> [] \<Longrightarrow> read_response [] [ReadBytes bs] = Inr (string_of_bytes bs)"
  by (cases bs) simp_all

definition example_key :: bytes where
  "example_key = replicate 32 1"

lemma example_key_facts: "length example_key = 32" "\<not> list_all (\<lambda>b. b = 0) example_key"
  by (simp_all add: example_key_def list_all_iff)

definition example_answer :: string where
  "example_answer = ''HTTP/1.1 200 OK'' @ crlf @ ''Content-Length: 2'' @ crlf @ crlf @ ''{}''"

definition example_key_transport :: Transport where
  "example_key_transport = \<lparr>incoming = [ReadBytes (bytes_of_string example_answer)], write_results = [], outgoing = [], closed = False\<rparr>"

lemma example_answer_body: "decodeHttpBody example_answer = Inr ''{}''"
  by (simp add: decodeHttpBody_def example_answer_def crlf_def status_is_200_def find_char_def starts_with_def header_fields.simps
      body_of_def find_from_def header_trim_def is_blank_def tolower_def isupper_def from_chars_u64_def dec_value_def isdigit_def
      kMaxBodySize_def http_kMaxHeaderSize_def Let_def)

theorem fetchControlPublicKey_sound_witness:
  "\<exists>tr'. fetchControlPublicKey (\<lambda>_. Some (Some (encodeTypedKey ''mkey:'' example_key))) None example_key_transport ''control'' 443 131
      = (Inr example_key, tr') \<and> closed tr' \<and> length example_key = 32"
proof -
  have r: "read_response [] (incoming example_key_transport) = Inr example_answer"
  proof -
    have "bytes_of_string example_answer \<noteq> []" by (simp add: example_answer_def bytes_of_string_def)
    from read_response_one [OF this] show ?thesis by (simp add: example_key_transport_def string_of_bytes_of_string)
  qed
  let ?pk = "\<lambda>_. Some (Some (encodeTypedKey ''mkey:'' example_key))"
  have "parseControlPublicKeyResponse ?pk ''{}'' = Inr example_key"
    unfolding parseControlPublicKeyResponse_def using decodeTypedKey_encode [of example_key] example_key_facts
    by (simp add: kMaxBodySize_def)
  with r have f: "fetchControlPublicKey ?pk None example_key_transport ''control'' 443 131 =
      (Inr example_key, example_key_transport\<lparr>outgoing := [bytes_of_string (keyRequest ''control'' 131)], closed := True\<rparr>)"
    by (simp add: fetchControlPublicKey_def transport_write_def example_key_transport_def example_answer_body)
  from fetchControlPublicKey_sound [OF f] f show ?thesis by blast
qed

section \<open>The handshake request\<close>

text \<open>
  The initiation reaches the control server: for a host name without line breaks the request is
  built, names the host, and carries a handshake header from which a base64 decoder recovers the 101
  bytes of the initiation.
\<close>

theorem upgradeRequest_carries_initiation:
  assumes "host \<noteq> []" "CHR 0x0D \<notin> set host" "CHR 0x0A \<notin> set host" "length initiation = 101"
  shows "\<exists>before header. buildTs2021UpgradeRequest host initiation =
      ''POST /ts2021 HTTP/1.1'' @ crlf @ ''Host: '' @ host @ crlf @ before @ ''X-Tailscale-Handshake: '' @ header @ crlf @
        ''Content-Length: 0'' @ crlf @ crlf \<and> base64_decode header = Some initiation"
proof (intro exI conjI)
  have "\<not> (host = [] \<or> (\<exists>c \<in> set host. c = CHR 0x0D \<or> c = CHR 0x0A) \<or> length initiation \<noteq> 101)" using assms by blast
  then show "buildTs2021UpgradeRequest host initiation =
      ''POST /ts2021 HTTP/1.1'' @ crlf @ ''Host: '' @ host @ crlf @
        (''Upgrade: tailscale-control-protocol'' @ crlf @ ''Connection: upgrade'' @ crlf) @
        ''X-Tailscale-Handshake: '' @ base64 initiation @ crlf @ ''Content-Length: 0'' @ crlf @ crlf"
    by (simp only: buildTs2021UpgradeRequest_def if_False append_assoc)
qed (rule base64_decode_base64)

theorem upgradeRequest_carries_initiation_witness:
  "\<exists>before header. buildTs2021UpgradeRequest ''control'' (replicate 101 7) =
      ''POST /ts2021 HTTP/1.1'' @ crlf @ ''Host: control'' @ crlf @ before @ ''X-Tailscale-Handshake: '' @ header @ crlf @
        ''Content-Length: 0'' @ crlf @ crlf \<and> base64_decode header = Some (replicate 101 7)"
  using upgradeRequest_carries_initiation [of "''control''" "replicate 101 7"] by simp

section \<open>The answer to the request\<close>

definition line_upgrade :: "string \<Rightarrow> bool" where
  "line_upgrade l = (case cut (CHR '':'') l of (_, None) \<Rightarrow> False
     | (n, Some v) \<Rightarrow> map tolower (upgrade_trim n) = ''upgrade'' \<and> map tolower (upgrade_trim v) = kUpgrade)"

definition line_connection :: "string \<Rightarrow> bool" where
  "line_connection l = (case cut (CHR '':'') l of (_, None) \<Rightarrow> False
     | (n, Some v) \<Rightarrow> map tolower (upgrade_trim n) = ''connection'' \<and> has_substr ''upgrade'' (map tolower (upgrade_trim v)))"

definition header_line :: "string \<Rightarrow> bool" where
  "header_line l \<longleftrightarrow> CHR 0x0D \<notin> set l \<and> CHR '':'' \<in> set l"

lemma header_line_cut: "header_line l \<Longrightarrow> \<exists>n v. cut (CHR '':'') l = (n, Some v) \<and> l \<noteq> []"
  using cut_NoneD [of "CHR '':''" l] by (cases "cut (CHR '':'') l"; cases "snd (cut (CHR '':'') l)") (auto simp: header_line_def)

lemma upgrade_headers_lines:
  assumes "\<forall>l \<in> set ls. header_line l"
  shows "upgrade_headers (pre @ concat (map (\<lambda>l. l @ crlf) ls) @ crlf) (length pre) u c =
    Inr (u \<or> (\<exists>l \<in> set ls. line_upgrade l), c \<or> (\<exists>l \<in> set ls. line_connection l))"
  using assms
proof (induction ls arbitrary: pre u c)
  case Nil
  then show ?case by (subst upgrade_headers.simps) simp
next
  case (Cons l ls)
  let ?tail = "concat (map (\<lambda>l. l @ crlf) ls) @ crlf"
  let ?h = "pre @ l @ crlf @ ?tail"
  from Cons.prems obtain n v where nv: "cut (CHR '':'') l = (n, Some v)" "l \<noteq> []" using header_line_cut by force
  have find: "find_from crlf ?h (length pre) = Some (length pre + length l)"
    using Cons.prems find_str_line [of l ?tail] by (simp add: find_from_def header_line_def)
  have "upgrade_headers ?h (length pre) u c =
      upgrade_headers ?h (length pre + length l + 2) (u \<or> line_upgrade l) (c \<or> line_connection l)"
    using find nv by (subst upgrade_headers.simps) (simp add: line_upgrade_def line_connection_def Let_def)
  also have "\<dots> = upgrade_headers ((pre @ l @ crlf) @ ?tail) (length (pre @ l @ crlf)) (u \<or> line_upgrade l) (c \<or> line_connection l)"
    by simp
  finally show ?case using Cons.IH [of "pre @ l @ crlf"] Cons.prems by (simp add: disj_assoc)
qed

text \<open>
  The upgrade check of the control connection accepts exactly the right answers: an answer of at most 16 KiB
  made of a 101 status line and well-formed header lines is accepted if and only if one line is an
  \<open>Upgrade\<close> header naming the control protocol and one is a \<open>Connection\<close> header mentioning upgrade, names
  and values in any capitalisation and with blanks around them.
\<close>

theorem validateTs2021UpgradeResponse_iff:
  assumes "CHR 0x0D \<notin> set reason" "\<forall>l \<in> set ls. header_line l" "ls \<noteq> []"
    and "length (''HTTP/1.1 101 '' @ reason @ crlf @ concat (map (\<lambda>l. l @ crlf) ls) @ crlf) \<le> 16384"
  shows "validateTs2021UpgradeResponse (''HTTP/1.1 101 '' @ reason @ crlf @ concat (map (\<lambda>l. l @ crlf) ls) @ crlf) = Inr () \<longleftrightarrow>
    (\<exists>l \<in> set ls. line_upgrade l) \<and> (\<exists>l \<in> set ls. line_connection l)"
proof -
  let ?tail = "concat (map (\<lambda>l. l @ crlf) ls) @ crlf"
  define status where "status = ''HTTP/1.1 101 '' @ reason"
  let ?h = "status @ crlf @ ?tail"
  obtain ls' l where ls: "ls = ls' @ [l]" using assms(3) by (cases ls rule: rev_cases) auto
  have ends: "ends_with (crlf @ crlf) ?h" by (simp add: ends_with_def ls)
  have first: "find_str crlf ?h = Some (length status)" using assms(1) by (intro find_str_line) (simp add: status_def)
  have st: "starts_with ''HTTP/1.1 101 '' status" by (simp add: starts_with_def status_def)
  have "upgrade_headers ?h (length status + 2) False False = Inr (\<exists>l \<in> set ls. line_upgrade l, \<exists>l \<in> set ls. line_connection l)"
    using upgrade_headers_lines [OF assms(2), of "status @ crlf" False False] by simp
  moreover have "length ?h \<le> 16384" using assms(4) by (simp add: status_def)
  ultimately have "validateTs2021UpgradeResponse ?h = Inr () \<longleftrightarrow> (\<exists>l \<in> set ls. line_upgrade l) \<and> (\<exists>l \<in> set ls. line_connection l)"
    using ends first st by (auto simp: validateTs2021UpgradeResponse_def http_kMaxHeaderSize_def Let_def)
  then show ?thesis by (simp only: status_def append_assoc)
qed

theorem validateTs2021UpgradeResponse_iff_witness:
  "validateTs2021UpgradeResponse (''HTTP/1.1 101 '' @ ''ok'' @ crlf @
     concat (map (\<lambda>l. l @ crlf) [''upgrade: Tailscale-Control-Protocol'', ''Connection: keep-alive, Upgrade'']) @ crlf) = Inr ()"
proof -
  let ?ls = "[''upgrade: Tailscale-Control-Protocol'', ''Connection: keep-alive, Upgrade'']"
  have "line_upgrade (?ls ! 0)" "line_connection (?ls ! 1)"
    by code_simp+
  then have lines: "(\<exists>l \<in> set ?ls. line_upgrade l) \<and> (\<exists>l \<in> set ?ls. line_connection l)" by simp
  have ok: "\<forall>l \<in> set ?ls. header_line l" by (simp add: header_line_def)
  have "length (''HTTP/1.1 101 '' @ ''ok'' @ crlf @ concat (map (\<lambda>l. l @ crlf) ?ls) @ crlf) \<le> 16384" by (simp add: crlf_def)
  moreover have "CHR 0x0D \<notin> set ''ok''" "?ls \<noteq> []" by simp_all
  ultimately show ?thesis using validateTs2021UpgradeResponse_iff [OF _ ok, of "''ok''"] lines by blast
qed

end
