(* ===== verification/PresentDeadline.thy ===== *)
theory PresentDeadline
  imports Prelude Complex_Main
begin

text \<open>
  Models of \<open>app/src/streaming/PresentDeadline.hpp\<close> (how long before its estimated time a frame may be
  presented), \<open>LowLatencyFrameSelection.hpp\<close> (which queued frame is presented) and
  \<open>FramePipelineTelemetry.hpp\<close> (the timing statistics that feed the former).

  A \<open>double\<close> or \<open>float\<close> is an exact rational: rounding is not modelled.  Where the code asks
  \<open>std::isfinite\<close>, the value is a \<open>rat option\<close> and \<open>None\<close> stands for an infinity or a NaN.
\<close>

section \<open>Floating point\<close>

type_synonym double = rat

definition clamp_double :: "double \<Rightarrow> double \<Rightarrow> double \<Rightarrow> double" where
  "clamp_double v lo hi = (if v < lo then lo else if hi < v then hi else v)"

text \<open>\<open>static_cast<std::int64_t>\<close> of a double rounds towards zero.\<close>

definition int_of_double :: "double \<Rightarrow> int" where
  "int_of_double x = (if 0 \<le> x then \<lfloor>x\<rfloor> else \<lceil>x\<rceil>)"

lemma clamp_double_bounds: "lo \<le> hi \<Longrightarrow> lo \<le> clamp_double v lo hi \<and> clamp_double v lo hi \<le> hi"
  by (auto simp: clamp_double_def)

lemma clamp_double_id: "lo \<le> v \<Longrightarrow> v \<le> hi \<Longrightarrow> clamp_double v lo hi = v"
  by (auto simp: clamp_double_def)

lemma clamp_double_mono: "lo \<le> hi \<Longrightarrow> v \<le> w \<Longrightarrow> clamp_double v lo hi \<le> clamp_double w lo hi"
  by (auto simp: clamp_double_def)

section \<open>The present gate\<close>

record PresentDeadlineParams =
  safetyMs :: double
  minLeadMs :: double
  maxLeadMs :: double
  defaultLeadMs :: double
  jitterMultiplier :: double
  maxJitterMs :: double

definition default_PresentDeadlineParams :: PresentDeadlineParams where
  "default_PresentDeadlineParams =
     \<lparr>safetyMs = 1, minLeadMs = 3/2, maxLeadMs = 8, defaultLeadMs = 3, jitterMultiplier = 3/2, maxJitterMs = 8\<rparr>"

definition nonneg_or_zero :: "double option \<Rightarrow> double" where
  "nonneg_or_zero v = (case v of None \<Rightarrow> 0 | Some x \<Rightarrow> max 0 x)"

definition clampPresentLeadMs :: "double option \<Rightarrow> double option \<Rightarrow> bool \<Rightarrow> PresentDeadlineParams \<Rightarrow> double" where
  "clampPresentLeadMs renderP95Ms gpuSubmitP95Ms havePresentSamples p =
     (if \<not> havePresentSamples \<or> (renderP95Ms = None \<and> gpuSubmitP95Ms = None) then defaultLeadMs p
      else clamp_double (nonneg_or_zero renderP95Ms + nonneg_or_zero gpuSubmitP95Ms + safetyMs p) (minLeadMs p) (maxLeadMs p))"

definition presentGateLeadMs :: "double option \<Rightarrow> double option \<Rightarrow> bool \<Rightarrow> double option \<Rightarrow> PresentDeadlineParams \<Rightarrow> double" where
  "presentGateLeadMs renderP95Ms gpuSubmitP95Ms havePresentSamples jitterMs p =
     clampPresentLeadMs renderP95Ms gpuSubmitP95Ms havePresentSamples p +
     jitterMultiplier p * clamp_double (nonneg_or_zero jitterMs) 0 (maxJitterMs p)"

text \<open>
  Whatever the telemetry reports, missing or non-finite values included, the gate
  opens between 1.5 and 20 milliseconds before the estimated time of the frame.
\<close>

theorem presentGateLeadMs_bounds:
  "3/2 \<le> presentGateLeadMs r g have_samples j default_PresentDeadlineParams \<and>
   presentGateLeadMs r g have_samples j default_PresentDeadlineParams \<le> 20"
proof -
  have "3/2 \<le> clampPresentLeadMs r g have_samples default_PresentDeadlineParams \<and>
      clampPresentLeadMs r g have_samples default_PresentDeadlineParams \<le> 8"
    using clamp_double_bounds [of "3/2" 8 "nonneg_or_zero r + nonneg_or_zero g + 1"]
    by (simp add: clampPresentLeadMs_def default_PresentDeadlineParams_def)
  moreover have "0 \<le> clamp_double (nonneg_or_zero j) 0 8 \<and> clamp_double (nonneg_or_zero j) 0 8 \<le> 8"
    by (rule clamp_double_bounds) simp
  ultimately show ?thesis
    by (simp add: presentGateLeadMs_def default_PresentDeadlineParams_def)
qed

text \<open>A costlier renderer never makes the gate open later.\<close>

theorem presentGateLeadMs_mono:
  assumes "r \<le> r'" "g \<le> g'" "j \<le> j'"
  shows "presentGateLeadMs (Some r) (Some g) have_samples (Some j) default_PresentDeadlineParams
    \<le> presentGateLeadMs (Some r') (Some g') have_samples (Some j') default_PresentDeadlineParams"
proof -
  have "clamp_double (max 0 r + max 0 g + 1) (3/2) 8 \<le> clamp_double (max 0 r' + max 0 g' + 1) (3/2) 8"
    by (rule clamp_double_mono) (use assms in \<open>auto simp: max_def\<close>)
  moreover have "clamp_double (max 0 j) 0 8 \<le> clamp_double (max 0 j') 0 8"
    by (rule clamp_double_mono) (use assms in \<open>auto simp: max_def\<close>)
  ultimately show ?thesis
    by (simp add: presentGateLeadMs_def clampPresentLeadMs_def default_PresentDeadlineParams_def nonneg_or_zero_def)
qed

section \<open>Frame selection\<close>

text \<open>
  The loop \<open>while (queue.size() > keep)\<close> that drops the oldest frame: the frames dropped, oldest
  first, and the frames kept.
\<close>

fun drop_while_longer :: "nat \<Rightarrow> 'f list \<Rightarrow> 'f list \<times> 'f list" where
  "drop_while_longer keep [] = ([], [])"
| "drop_while_longer keep (f # fs) =
     (if length (f # fs) > keep then (case drop_while_longer keep fs of (dropped, kept) \<Rightarrow> (f # dropped, kept)) else ([], f # fs))"

lemma drop_while_longer_eq: "drop_while_longer keep fs = (take (length fs - keep) fs, drop (length fs - keep) fs)"
  by (induction fs) (auto simp: Suc_diff_le not_less)

text \<open>
  \<open>prepareLatestFrame\<close>: \<open>None\<close> where it returns false, otherwise the frames it drops, oldest first,
  and the queue it leaves.  \<open>est\<close> reads a frame's \<open>timeEstimate\<close>.
\<close>

definition prepareLatestFrame :: "('f \<Rightarrow> time_point) \<Rightarrow> 'f list \<Rightarrow> time_point \<Rightarrow> int \<Rightarrow> nat \<Rightarrow> ('f list \<times> 'f list) option" where
  "prepareLatestFrame est queue now lead targetBufferedFrames =
     (if queue = [] then None
      else
        let backlogged = length queue - 1 > targetBufferedFrames in
        if \<not> backlogged \<and> now < est (hd queue) - lead then None
        else Some (drop_while_longer 1 queue))"

lemma prepareLatestFrame_Some:
  "prepareLatestFrame est queue now lead target = Some (dropped, queue') \<Longrightarrow> queue = dropped @ queue' \<and> queue' = [last queue]"
proof -
  assume "prepareLatestFrame est queue now lead target = Some (dropped, queue')"
  then have "queue \<noteq> []" "dropped = butlast queue" "queue' = drop (length queue - 1) queue"
    by (auto simp: prepareLatestFrame_def drop_while_longer_eq butlast_conv_take Let_def split: if_splits)
  moreover from \<open>queue \<noteq> []\<close> have "drop (length queue - 1) queue = [last queue]"
    by (cases queue rule: rev_cases) auto
  ultimately show ?thesis by simp
qed

text \<open>
  Arrivals never delay a presentation: a frame that may be released stays releasable when more
  frames are queued behind it, and as time passes.
\<close>

lemma prepareLatestFrame_mono:
  assumes "prepareLatestFrame est queue now lead target \<noteq> None" "now \<le> now'"
  shows "prepareLatestFrame est (queue @ later) now' lead target \<noteq> None"
  using assms by (auto simp: prepareLatestFrame_def Let_def split: if_splits)

section \<open>Telemetry\<close>

text \<open>
  The state of \<open>FramePipelineTelemetry\<close>.  Operations that read the clock take the time as their
  \<open>now\<close> argument.
\<close>

record Telemetry =
  tm_streamStarted :: bool
  tm_streamStart :: time_point
  tm_hasFirstPacket :: bool
  tm_firstPacket :: time_point
  tm_hasFirstDecode :: bool
  tm_firstDecode :: time_point
  tm_hasFirstPresent :: bool
  tm_firstPresent :: time_point
  tm_hasPendingTiming :: bool
  tm_pendingNetworkComplete :: time_point
  tm_pendingDecodeDone :: time_point
  tm_hasLastSelected :: bool
  tm_lastSelectedAt :: time_point
  tm_lastDecodeDoneForSelected :: time_point
  tm_lastNetworkCompleteForSelected :: time_point
  tm_hasLastNetworkComplete :: bool
  tm_hasLastPresent :: bool
  tm_lastPresentAt :: time_point
  tm_decodeMsEma :: double
  tm_queueWaitMsEma :: double
  tm_queueWaitMsP95 :: double
  tm_clientPipelineMsEma :: double
  tm_clientPipelineMsP95 :: double
  tm_renderMsEma :: double
  tm_renderMsP95 :: double
  tm_gpuSubmitMsEma :: double
  tm_gpuSubmitMsP95 :: double
  tm_presentIntervalMsEma :: double
  tm_havePresentCostSamples :: bool
  tm_windowBytes :: u64
  tm_windowStart :: time_point
  tm_windowStarted :: bool
  tm_lastMbps :: double

definition Telemetry_init :: Telemetry where
  "Telemetry_init =
     \<lparr>tm_streamStarted = False, tm_streamStart = 0, tm_hasFirstPacket = False, tm_firstPacket = 0,
      tm_hasFirstDecode = False, tm_firstDecode = 0, tm_hasFirstPresent = False, tm_firstPresent = 0,
      tm_hasPendingTiming = False, tm_pendingNetworkComplete = 0, tm_pendingDecodeDone = 0,
      tm_hasLastSelected = False, tm_lastSelectedAt = 0, tm_lastDecodeDoneForSelected = 0,
      tm_lastNetworkCompleteForSelected = 0, tm_hasLastNetworkComplete = False,
      tm_hasLastPresent = False, tm_lastPresentAt = 0, tm_decodeMsEma = 0, tm_queueWaitMsEma = 0,
      tm_queueWaitMsP95 = 0, tm_clientPipelineMsEma = 0, tm_clientPipelineMsP95 = 0, tm_renderMsEma = 0,
      tm_renderMsP95 = 0, tm_gpuSubmitMsEma = 0, tm_gpuSubmitMsP95 = 0, tm_presentIntervalMsEma = 0,
      tm_havePresentCostSamples = False, tm_windowBytes = 0, tm_windowStart = 0, tm_windowStarted = False,
      tm_lastMbps = 0\<rparr>"

definition msBetween :: "time_point \<Rightarrow> time_point \<Rightarrow> double" where
  "msBetween a b = of_int (b - a) / 1000000"

definition updateEma :: "double \<Rightarrow> double option \<Rightarrow> double" where
  "updateEma ema sample =
     (case sample of
        None \<Rightarrow> ema
      | Some x \<Rightarrow> if x < 0 then ema else if ema \<le> 0 then x else ema * (1 - 1/5) + x * (1/5))"

definition updateP95 :: "double \<Rightarrow> double option \<Rightarrow> double" where
  "updateP95 p95 sample =
     (case sample of
        None \<Rightarrow> p95
      | Some x \<Rightarrow>
          if x < 0 then p95
          else if p95 \<le> 0 then x
          else if x \<ge> p95 then p95 * (1 - 35/100) + x * (35/100)
          else p95 * (1 - 5/100) + x * (5/100))"

definition ensureStreamLocked :: "time_point \<Rightarrow> Telemetry \<Rightarrow> Telemetry" where
  "ensureStreamLocked now t =
     (if \<not> tm_streamStarted t then t\<lparr>tm_streamStart := now, tm_streamStarted := True\<rparr> else t)"

definition accumulateBytesLocked :: "nat \<Rightarrow> time_point \<Rightarrow> Telemetry \<Rightarrow> Telemetry" where
  "accumulateBytesLocked n now t =
     (let t1 = ensureStreamLocked now t;
          t2 = (if \<not> tm_windowStarted t1
                then t1\<lparr>tm_windowStart := now, tm_windowStarted := True, tm_windowBytes := 0\<rparr> else t1);
          t3 = t2\<lparr>tm_windowBytes := tm_windowBytes t2 + word_of_nat n\<rparr>;
          elapsedSec = (of_int (now - tm_windowStart t3) / 1000000000 :: double)
      in if elapsedSec \<ge> 1/4
         then t3\<lparr>tm_lastMbps := of_nat (unat (tm_windowBytes t3)) * 8 / (elapsedSec * 1000000), tm_windowBytes := 0, tm_windowStart := now\<rparr>
         else t3)"

definition noteStreamStart :: "time_point \<Rightarrow> Telemetry" where
  "noteStreamStart now = Telemetry_init\<lparr>tm_streamStart := now, tm_streamStarted := True\<rparr>"

definition noteFirstPacket :: "nat \<Rightarrow> time_point \<Rightarrow> Telemetry \<Rightarrow> Telemetry" where
  "noteFirstPacket n now t =
     (let t1 = ensureStreamLocked now t;
          t2 = (if \<not> tm_hasFirstPacket t1 then t1\<lparr>tm_firstPacket := now, tm_hasFirstPacket := True\<rparr> else t1)
      in accumulateBytesLocked n now t2)"

definition noteDecodedFrame :: "time_point \<Rightarrow> time_point \<Rightarrow> time_point \<Rightarrow> Telemetry \<Rightarrow> Telemetry" where
  "noteDecodedFrame networkComplete decodeDone now t =
     (let t1 = ensureStreamLocked now t;
          t2 = (if \<not> tm_hasFirstDecode t1 then t1\<lparr>tm_firstDecode := decodeDone, tm_hasFirstDecode := True\<rparr> else t1)
      in t2\<lparr>tm_pendingNetworkComplete := networkComplete, tm_pendingDecodeDone := decodeDone, tm_hasPendingTiming := True,
            tm_decodeMsEma := updateEma (tm_decodeMsEma t2) (Some (msBetween networkComplete decodeDone))\<rparr>)"

definition consumePendingDecodeTiming :: "Telemetry \<Rightarrow> (time_point \<times> time_point) option \<times> Telemetry" where
  "consumePendingDecodeTiming t =
     (if \<not> tm_hasPendingTiming t then (None, t)
      else (Some (tm_pendingNetworkComplete t, tm_pendingDecodeDone t), t\<lparr>tm_hasPendingTiming := False\<rparr>))"

definition noteFrameSelected :: "time_point \<Rightarrow> time_point \<Rightarrow> time_point \<Rightarrow> Telemetry \<Rightarrow> Telemetry" where
  "noteFrameSelected networkComplete decodeDone selectedAt t =
     (let queueWaitMs = msBetween decodeDone selectedAt
      in t\<lparr>tm_queueWaitMsEma := updateEma (tm_queueWaitMsEma t) (Some queueWaitMs),
           tm_queueWaitMsP95 := updateP95 (tm_queueWaitMsP95 t) (Some queueWaitMs),
           tm_lastSelectedAt := selectedAt, tm_hasLastSelected := True,
           tm_lastDecodeDoneForSelected := decodeDone, tm_lastNetworkCompleteForSelected := networkComplete,
           tm_hasLastNetworkComplete := True\<rparr>)"

definition is_cost :: "double option \<Rightarrow> bool" where
  "is_cost v = (case v of None \<Rightarrow> False | Some x \<Rightarrow> 0 \<le> x)"

definition noteFramePresented :: "double option \<Rightarrow> double option \<Rightarrow> time_point \<Rightarrow> Telemetry \<Rightarrow> Telemetry" where
  "noteFramePresented renderMs gpuSubmitMs now t =
     (let t1 = ensureStreamLocked now t;
          t2 = (if \<not> tm_hasFirstPresent t1 then t1\<lparr>tm_firstPresent := now, tm_hasFirstPresent := True\<rparr> else t1);
          t3 = (if tm_hasLastNetworkComplete t2 then
                  let clientMs = msBetween (tm_lastNetworkCompleteForSelected t2) now
                  in t2\<lparr>tm_clientPipelineMsEma := updateEma (tm_clientPipelineMsEma t2) (Some clientMs),
                        tm_clientPipelineMsP95 := updateP95 (tm_clientPipelineMsP95 t2) (Some clientMs)\<rparr>
                else t2);
          t4 = (if is_cost renderMs then
                  t3\<lparr>tm_renderMsEma := updateEma (tm_renderMsEma t3) renderMs,
                     tm_renderMsP95 := updateP95 (tm_renderMsP95 t3) renderMs, tm_havePresentCostSamples := True\<rparr>
                else t3);
          t5 = (if is_cost gpuSubmitMs then
                  t4\<lparr>tm_gpuSubmitMsEma := updateEma (tm_gpuSubmitMsEma t4) gpuSubmitMs,
                     tm_gpuSubmitMsP95 := updateP95 (tm_gpuSubmitMsP95 t4) gpuSubmitMs, tm_havePresentCostSamples := True\<rparr>
                else t4);
          t6 = (if tm_hasLastPresent t5 then
                  let intervalMs = msBetween (tm_lastPresentAt t5) now
                  in if intervalMs > 0 \<and> intervalMs < 250
                     then t5\<lparr>tm_presentIntervalMsEma := updateEma (tm_presentIntervalMsEma t5) (Some intervalMs)\<rparr> else t5
                else t5)
      in t6\<lparr>tm_lastPresentAt := now, tm_hasLastPresent := True\<rparr>)"

definition noteVideoBytes :: "nat \<Rightarrow> time_point \<Rightarrow> Telemetry \<Rightarrow> Telemetry" where
  "noteVideoBytes = accumulateBytesLocked"

record Snapshot =
  sn_queueWaitMs :: double
  sn_queueWaitMsP95 :: double
  sn_clientPipelineMs :: double
  sn_clientPipelineMsP95 :: double
  sn_decodeMs :: double
  sn_renderMsP95 :: double
  sn_gpuSubmitMsP95 :: double
  sn_presentIntervalMs :: double
  sn_actualVideoMbps :: double
  sn_havePresentCostSamples :: bool
  sn_hasFirstPresent :: bool
  sn_timeToFirstPacketMs :: double
  sn_timeToFirstDecodeMs :: double
  sn_timeToFirstPresentMs :: double

definition tm_snapshot :: "Telemetry \<Rightarrow> Snapshot" where
  "tm_snapshot t =
     \<lparr>sn_queueWaitMs = tm_queueWaitMsEma t, sn_queueWaitMsP95 = tm_queueWaitMsP95 t,
      sn_clientPipelineMs = tm_clientPipelineMsEma t, sn_clientPipelineMsP95 = tm_clientPipelineMsP95 t,
      sn_decodeMs = tm_decodeMsEma t, sn_renderMsP95 = tm_renderMsP95 t, sn_gpuSubmitMsP95 = tm_gpuSubmitMsP95 t,
      sn_presentIntervalMs = tm_presentIntervalMsEma t, sn_actualVideoMbps = tm_lastMbps t,
      sn_havePresentCostSamples = tm_havePresentCostSamples t, sn_hasFirstPresent = tm_hasFirstPresent t,
      sn_timeToFirstPacketMs = (if tm_streamStarted t \<and> tm_hasFirstPacket t then msBetween (tm_streamStart t) (tm_firstPacket t) else -1),
      sn_timeToFirstDecodeMs = (if tm_streamStarted t \<and> tm_hasFirstDecode t then msBetween (tm_streamStart t) (tm_firstDecode t) else -1),
      sn_timeToFirstPresentMs = (if tm_streamStarted t \<and> tm_hasFirstPresent t then msBetween (tm_streamStart t) (tm_firstPresent t) else -1)\<rparr>"

lemma updateEma_range:
  assumes "0 \<le> lo" "lo \<le> ema" "ema \<le> hi" "lo \<le> x" "x \<le> hi"
  shows "lo \<le> updateEma ema (Some x) \<and> updateEma ema (Some x) \<le> hi"
  using assms by (auto simp: updateEma_def field_simps)

lemma updateP95_range:
  assumes "0 \<le> lo" "lo \<le> p95" "p95 \<le> hi" "lo \<le> x" "x \<le> hi"
  shows "lo \<le> updateP95 p95 (Some x) \<and> updateP95 p95 (Some x) \<le> hi"
  using assms by (auto simp: updateP95_def field_simps)

text \<open>The pending decode timing is handed to exactly one queued frame.\<close>

lemma consumePending_once:
  "consumePendingDecodeTiming (noteDecodedFrame n d now t) = (Some (n, d), t') \<Longrightarrow> fst (consumePendingDecodeTiming t') = None"
  by (auto simp: consumePendingDecodeTiming_def noteDecodedFrame_def Let_def)

end
