(* ===== verification/AVFrameQueue.thy ===== *)
theory AVFrameQueue
  imports PresentDeadline "HOL-Library.Multiset" "HOL-Library.Signed_Division"
begin

text \<open>
  Model of \<open>app/src/streaming/AVFrameHolder.hpp\<close> and \<open>.cpp\<close>: the queue between the decoder thread and
  the render thread, with its two pacing paths (arrival rate and frame credit, or low latency
  with an alpha-beta filter), its frame pool and its statistics.

  An \<open>AVFrame *\<close> is an address, \<open>None\<close> where it may be null.  \<open>av_frame_alloc\<close> and \<open>av_frame_ref\<close>
  belong to FFmpeg: the pointer the former returns and whether the latter succeeds are arguments
  of the operations that call them.  Operations that call \<open>av_frame_free\<close> return the frames they
  free.  Every operation runs under the queue's mutex, so an execution is a sequence of them; the
  clock reading of an operation is its \<open>now\<close> argument.  A \<open>double\<close> is an exact rational, as in
  \<open>PresentDeadline\<close>.
\<close>

section \<open>State\<close>

type_synonym AVFrame = nat

record TimedFrame =
  tf_timeEstimate :: time_point
  tf_networkComplete :: time_point
  tf_decodeDone :: time_point
  tf_queued :: time_point
  tf_frame :: AVFrame

record FrameQueue =
  fq_queue :: "TimedFrame list"
  fq_freeQueue :: "AVFrame list"
  fq_bufferFrame :: "AVFrame option"
  fq_limit :: nat
  fq_targetBufferedFrames :: nat
  fq_streamFps :: int
  fq_transferOwnership :: bool
  fq_lowLatency :: bool
  fq_adaptiveFrameInterval :: int
  fq_lastDraw :: time_point
  fq_averageDrawInterval :: int
  fq_arrivalWindowStart :: time_point
  fq_lastArrival :: time_point
  fq_arrivalWindowFrames :: nat
  fq_arrivalRateSamples :: nat
  fq_estimatedSourceFps :: double
  fq_frameCredit :: double
  fq_drawClockStarted :: bool
  fq_arrivalClockStarted :: bool
  fq_startupBuffering :: bool
  fq_playoutResyncNeeded :: bool
  ll_firstArrival :: bool
  ll_smoothedIntervalNs :: double
  ll_intervalVelocityNs :: double
  ll_jitterNs :: double
  ll_lastArrival :: time_point
  ll_renderP95Ms :: "double option"
  ll_gpuSubmitP95Ms :: "double option"
  ll_havePresentCost :: bool
  fq_fakeFrameUsedStat :: nat
  fq_framesDroppedStat :: nat
  fq_emptyQueueStat :: nat
  fq_rebufferHoldStat :: nat
  fq_overflowDropStat :: nat
  fq_pacingSkipStat :: nat
  fq_scheduledHoldStat :: nat
  fq_pushesSincePop :: nat
  fq_maxPushBurstStat :: nat
  fq_localClockPacedFrameStat :: nat
  fq_playoutResyncStat :: nat

definition FrameQueue_init :: FrameQueue where
  "FrameQueue_init =
     \<lparr>fq_queue = [], fq_freeQueue = [], fq_bufferFrame = None, fq_limit = 0, fq_targetBufferedFrames = 0,
      fq_streamFps = 0, fq_transferOwnership = False, fq_lowLatency = False, fq_adaptiveFrameInterval = 0,
      fq_lastDraw = 0, fq_averageDrawInterval = 0, fq_arrivalWindowStart = 0, fq_lastArrival = 0,
      fq_arrivalWindowFrames = 0, fq_arrivalRateSamples = 0, fq_estimatedSourceFps = 0, fq_frameCredit = 0,
      fq_drawClockStarted = False, fq_arrivalClockStarted = False, fq_startupBuffering = True,
      fq_playoutResyncNeeded = True, ll_firstArrival = True, ll_smoothedIntervalNs = 0, ll_intervalVelocityNs = 0,
      ll_jitterNs = 0, ll_lastArrival = 0, ll_renderP95Ms = Some 0, ll_gpuSubmitP95Ms = Some 0,
      ll_havePresentCost = False, fq_fakeFrameUsedStat = 0, fq_framesDroppedStat = 0, fq_emptyQueueStat = 0,
      fq_rebufferHoldStat = 0, fq_overflowDropStat = 0, fq_pacingSkipStat = 0, fq_scheduledHoldStat = 0,
      fq_pushesSincePop = 0, fq_maxPushBurstStat = 0, fq_localClockPacedFrameStat = 0, fq_playoutResyncStat = 0\<rparr>"

definition kBurstHeadroomFrames :: nat where
  "kBurstHeadroomFrames = 5"

definition kArrivalRateWindow :: int where
  "kArrivalRateWindow = 250 * 1000000"

definition kArrivalRateResetGap :: int where
  "kArrivalRateResetGap = 500 * 1000000"

definition kArrivalRateSmoothing :: double where
  "kArrivalRateSmoothing = 35/100"

definition kOccupancyCorrectionPerFrame :: double where
  "kOccupancyCorrectionPerFrame = 1/100"

definition kMaximumOccupancyCorrection :: double where
  "kMaximumOccupancyCorrection = 8/100"

definition kLL_Alpha :: double where
  "kLL_Alpha = 1/8"

definition kLL_FastAlpha :: double where
  "kLL_FastAlpha = 1/4"

section \<open>Helpers\<close>

text \<open>\<open>recycleFrame\<close> on a pointer that may be null, and on a list of frames in turn.\<close>

definition recycleFrame :: "AVFrame option \<Rightarrow> FrameQueue \<Rightarrow> FrameQueue" where
  "recycleFrame frame q = (case frame of None \<Rightarrow> q | Some f \<Rightarrow> q\<lparr>fq_freeQueue := fq_freeQueue q @ [f]\<rparr>)"

fun recycleFrames :: "AVFrame list \<Rightarrow> FrameQueue \<Rightarrow> FrameQueue" where
  "recycleFrames [] q = q"
| "recycleFrames (f # fs) q = recycleFrames fs (recycleFrame (Some f) q)"

definition makeTimedFrame :: "AVFrame \<Rightarrow> time_point \<Rightarrow> time_point \<Rightarrow> Telemetry \<Rightarrow> TimedFrame \<times> Telemetry" where
  "makeTimedFrame frame timeEstimate now t =
     (case consumePendingDecodeTiming t of
        (Some (networkComplete, decodeDone), t') \<Rightarrow>
          (\<lparr>tf_timeEstimate = timeEstimate, tf_networkComplete = networkComplete, tf_decodeDone = decodeDone,
            tf_queued = now, tf_frame = frame\<rparr>, t')
      | (None, t') \<Rightarrow>
          (\<lparr>tf_timeEstimate = timeEstimate, tf_networkComplete = now, tf_decodeDone = now,
            tf_queued = now, tf_frame = frame\<rparr>, t'))"

definition capacityFor :: "nat \<Rightarrow> nat" where
  "capacityFor configuredQueueSize = max configuredQueueSize 1 + kBurstHeadroomFrames"

text \<open>The frame pool: the oldest free frame, or a newly allocated one (\<open>alloc\<close>, null when memory is short).\<close>

definition acquireFrameLocked :: "AVFrame option \<Rightarrow> FrameQueue \<Rightarrow> AVFrame option \<times> FrameQueue" where
  "acquireFrameLocked alloc q =
     (case fq_freeQueue q of f # rest \<Rightarrow> (Some f, q\<lparr>fq_freeQueue := rest\<rparr>) | [] \<Rightarrow> (alloc, q))"

definition resetArrivalRateEstimatorLocked :: "FrameQueue \<Rightarrow> FrameQueue" where
  "resetArrivalRateEstimatorLocked q =
     q\<lparr>fq_arrivalClockStarted := False, fq_arrivalWindowFrames := 0, fq_arrivalRateSamples := 0,
       fq_estimatedSourceFps := 0, fq_adaptiveFrameInterval := 0\<rparr>"

definition resetLLFilterLocked :: "FrameQueue \<Rightarrow> FrameQueue" where
  "resetLLFilterLocked q =
     q\<lparr>ll_firstArrival := True, ll_smoothedIntervalNs := 0, ll_intervalVelocityNs := 0, ll_jitterNs := 0, ll_lastArrival := 0\<rparr>"

section \<open>The arrival-rate estimator\<close>

definition maximumFps :: "FrameQueue \<Rightarrow> double" where
  "maximumFps q = (if fq_streamFps q > 0 then of_int (fq_streamFps q) else 240)"

text \<open>One sample of the rate: the frames of a window over the seconds it lasted.\<close>

definition recordArrival_sample :: "int \<Rightarrow> FrameQueue \<Rightarrow> FrameQueue" where
  "recordArrival_sample elapsed q =
     (let elapsedSeconds = (of_int elapsed / 1000000000 :: double);
          sampleFps = clamp_double (of_nat (fq_arrivalWindowFrames q - 1) / elapsedSeconds) 1 (maximumFps q);
          estimate = (if fq_arrivalRateSamples q = 0 then sampleFps
                      else fq_estimatedSourceFps q * (1 - kArrivalRateSmoothing) + sampleFps * kArrivalRateSmoothing)
      in q\<lparr>fq_estimatedSourceFps := estimate, fq_arrivalRateSamples := fq_arrivalRateSamples q + 1,
           fq_adaptiveFrameInterval := int_of_double (1000000000 / estimate)\<rparr>)"

definition recordArrivalLocked :: "time_point \<Rightarrow> FrameQueue \<Rightarrow> FrameQueue" where
  "recordArrivalLocked now q =
     (if \<not> fq_arrivalClockStarted q then
        q\<lparr>fq_arrivalClockStarted := True, fq_arrivalWindowStart := now, fq_lastArrival := now, fq_arrivalWindowFrames := 1\<rparr>
      else if now - fq_lastArrival q > kArrivalRateResetGap then
        q\<lparr>fq_arrivalWindowStart := now, fq_lastArrival := now, fq_arrivalWindowFrames := 1\<rparr>
      else
        let q1 = q\<lparr>fq_lastArrival := now, fq_arrivalWindowFrames := fq_arrivalWindowFrames q + 1\<rparr>;
            elapsed = now - fq_arrivalWindowStart q1
        in if elapsed < kArrivalRateWindow then q1
           else
             let q2 = (if fq_arrivalWindowFrames q1 > 1 then recordArrival_sample elapsed q1 else q1)
             in q2\<lparr>fq_arrivalWindowStart := now, fq_arrivalWindowFrames := 1\<rparr>)"

section \<open>The low-latency filter\<close>

definition updateLLFilterLocked :: "time_point \<Rightarrow> FrameQueue \<Rightarrow> time_point \<times> FrameQueue" where
  "updateLLFilterLocked now q =
     (if ll_firstArrival q then
        let smoothed = (if fq_streamFps q > 0 then 1000000000 / of_int (fq_streamFps q) else 1000000000 / 60 :: double)
        in (now + int_of_double smoothed,
            q\<lparr>ll_firstArrival := False, ll_lastArrival := now, ll_smoothedIntervalNs := smoothed,
              ll_intervalVelocityNs := 0, ll_jitterNs := smoothed * (1/10)\<rparr>)
      else
        let measuredNs = of_int (now - ll_lastArrival q);
            predictedInterval = ll_smoothedIntervalNs q + ll_intervalVelocityNs q;
            predError = measuredNs - predictedInterval;
            alpha = (if \<bar>predError\<bar> > predictedInterval * (1/2) then kLL_FastAlpha else kLL_Alpha);
            beta = alpha * alpha / (2 - alpha);
            smoothed0 = predictedInterval + alpha * predError;
            velocity0 = ll_intervalVelocityNs q + beta * predError;
            smoothed1 = (if fq_streamFps q > 0
                         then max smoothed0 (1000000000 / (of_int (fq_streamFps q) * (12/10))) else smoothed0);
            smoothed = min smoothed1 1000000000;
            velLimit = smoothed * (2/10)
        in (now + int_of_double smoothed,
            q\<lparr>ll_lastArrival := now, ll_smoothedIntervalNs := smoothed,
              ll_intervalVelocityNs := clamp_double velocity0 (- velLimit) velLimit,
              ll_jitterNs := ll_jitterNs q * (1 - kLL_Alpha) + \<bar>predError\<bar> * kLL_Alpha\<rparr>))"

section \<open>The producer's operations\<close>

definition fq_configure :: "nat \<Rightarrow> int \<Rightarrow> bool \<Rightarrow> bool \<Rightarrow> FrameQueue \<Rightarrow> FrameQueue" where
  "fq_configure queueLimit configuredStreamFps transferOwnershipEnabled lowLatencyEnabled q =
     (let configuredDepth = max queueLimit 1;
          target = (if configuredDepth > 1 then min (configuredDepth - 1) (if lowLatencyEnabled then 1 else 2) else 0)
      in resetLLFilterLocked
           (q\<lparr>fq_limit := capacityFor configuredDepth, fq_lowLatency := lowLatencyEnabled, fq_targetBufferedFrames := target,
              fq_transferOwnership := transferOwnershipEnabled, fq_streamFps := configuredStreamFps,
              fq_adaptiveFrameInterval := 0, fq_drawClockStarted := False, fq_averageDrawInterval := 0,
              fq_arrivalClockStarted := False, fq_arrivalWindowFrames := 0, fq_arrivalRateSamples := 0,
              fq_estimatedSourceFps := 0, fq_frameCredit := 0, fq_startupBuffering := True, fq_playoutResyncNeeded := True\<rparr>))"

text \<open>The overflow branch of both push functions.\<close>

definition push_overflow :: "FrameQueue \<Rightarrow> FrameQueue" where
  "push_overflow q =
     (if length (fq_queue q) > fq_limit q then
        let keepFrames = fq_targetBufferedFrames q + 1;
            (dropped, kept) = drop_while_longer keepFrames (fq_queue q);
            q1 = (recycleFrames (map tf_frame dropped) q)\<lparr>fq_queue := kept,
                   fq_framesDroppedStat := fq_framesDroppedStat q + length dropped,
                   fq_overflowDropStat := fq_overflowDropStat q + length dropped\<rparr>
        in if fq_lowLatency q then resetLLFilterLocked q1
           else (resetArrivalRateEstimatorLocked q1)\<lparr>fq_playoutResyncNeeded := True\<rparr>
      else q)"

text \<open>From the clock reading on, \<open>push\<close> and \<open>pushTransferredLocked\<close> are the same code.\<close>

definition enqueueFrame :: "AVFrame \<Rightarrow> time_point \<Rightarrow> Telemetry \<Rightarrow> FrameQueue \<Rightarrow> FrameQueue \<times> Telemetry" where
  "enqueueFrame frame now t q =
     (let (timeEstimate, q1) = (if fq_lowLatency q then updateLLFilterLocked now q else (0, recordArrivalLocked now q));
          (tf, t1) = makeTimedFrame frame timeEstimate now t;
          q2 = q1\<lparr>fq_queue := fq_queue q1 @ [tf], fq_pushesSincePop := fq_pushesSincePop q1 + 1,
                  fq_maxPushBurstStat := max (fq_maxPushBurstStat q1) (fq_pushesSincePop q1 + 1)\<rparr>
      in (push_overflow q2, t1))"

definition pushTransferredLocked :: "AVFrame option \<Rightarrow> time_point \<Rightarrow> Telemetry \<Rightarrow> FrameQueue \<Rightarrow> bool \<times> FrameQueue \<times> Telemetry" where
  "pushTransferredLocked item now t q =
     (case item of None \<Rightarrow> (False, q, t) | Some frame \<Rightarrow> (True, enqueueFrame frame now t q))"

text \<open>
  \<open>push\<close>: \<open>alloc\<close> and \<open>refOk\<close> are what \<open>av_frame_alloc\<close> and \<open>av_frame_ref\<close> answer; the second
  component of the result are the frames freed.
\<close>

definition fq_push :: "AVFrame option \<Rightarrow> AVFrame option \<Rightarrow> bool \<Rightarrow> time_point \<Rightarrow> Telemetry \<Rightarrow> FrameQueue \<Rightarrow>
    bool \<times> AVFrame list \<times> FrameQueue \<times> Telemetry" where
  "fq_push item alloc refOk now t q =
     (case item of
        None \<Rightarrow> (False, [], q, t)
      | Some f \<Rightarrow>
          if fq_transferOwnership q then (case pushTransferredLocked item now t q of (b, q', t') \<Rightarrow> (b, [], q', t'))
          else
            (case acquireFrameLocked alloc q of
               (None, q1) \<Rightarrow> (False, [], q1, t)
             | (Some queuedFrame, q1) \<Rightarrow>
                 if \<not> refOk then (False, [queuedFrame], q1, t)
                 else (True, [], enqueueFrame queuedFrame now t q1)))"

definition acquireWriteFrame :: "AVFrame option \<Rightarrow> FrameQueue \<Rightarrow> AVFrame option \<times> FrameQueue" where
  "acquireWriteFrame = acquireFrameLocked"

definition recycleWriteFrame :: "AVFrame option \<Rightarrow> FrameQueue \<Rightarrow> FrameQueue" where
  "recycleWriteFrame = recycleFrame"

definition updatePresentCostMs :: "double option \<Rightarrow> double option \<Rightarrow> bool \<Rightarrow> FrameQueue \<Rightarrow> FrameQueue" where
  "updatePresentCostMs renderP95Ms gpuSubmitP95Ms haveSamples q =
     q\<lparr>ll_renderP95Ms := renderP95Ms, ll_gpuSubmitP95Ms := gpuSubmitP95Ms, ll_havePresentCost := haveSamples\<rparr>"

section \<open>The consumer's operations\<close>

definition trimToPlayoutWindowLocked :: "FrameQueue \<Rightarrow> FrameQueue" where
  "trimToPlayoutWindowLocked q =
     (let (dropped, kept) = drop_while_longer (fq_targetBufferedFrames q + 1) (fq_queue q)
      in (recycleFrames (map tf_frame dropped) q)\<lparr>fq_queue := kept,
            fq_framesDroppedStat := fq_framesDroppedStat q + length dropped,
            fq_pacingSkipStat := fq_pacingSkipStat q + length dropped\<rparr>)"

definition presentGateNs :: "FrameQueue \<Rightarrow> int" where
  "presentGateNs q =
     int_of_double (max 0 (presentGateLeadMs (ll_renderP95Ms q) (ll_gpuSubmitP95Ms q) (ll_havePresentCost q)
       (Some (ll_jitterNs q / 1000000)) default_PresentDeadlineParams) * 1000000)"

text \<open>The low-latency path: whether a frame was consumed, and the queue; the caller gets \<open>bufferFrame\<close>.\<close>

definition pop_lowLatency :: "time_point \<Rightarrow> Telemetry \<Rightarrow> FrameQueue \<Rightarrow> bool \<times> FrameQueue \<times> Telemetry" where
  "pop_lowLatency now t q =
     (if fq_queue q = [] then
        (False, if fq_bufferFrame q \<noteq> None
                then q\<lparr>fq_fakeFrameUsedStat := fq_fakeFrameUsedStat q + 1, fq_emptyQueueStat := fq_emptyQueueStat q + 1\<rparr> else q, t)
      else
        (case prepareLatestFrame tf_timeEstimate (fq_queue q) now (presentGateNs q) (fq_targetBufferedFrames q) of
           None \<Rightarrow> (False, q\<lparr>fq_scheduledHoldStat := fq_scheduledHoldStat q + 1\<rparr>, t)
         | Some (dropped, kept) \<Rightarrow>
             let q1 = (recycleFrames (map tf_frame dropped) q)\<lparr>fq_queue := kept,
                        fq_framesDroppedStat := fq_framesDroppedStat q + length dropped,
                        fq_pacingSkipStat := fq_pacingSkipStat q + length dropped\<rparr>;
                 selected = hd (fq_queue q1);
                 q2 = q1\<lparr>fq_queue := tl (fq_queue q1)\<rparr>;
                 t' = noteFrameSelected (tf_networkComplete selected) (tf_decodeDone selected) now t;
                 q3 = recycleFrame (fq_bufferFrame q2) q2
             in (True, q3\<lparr>fq_bufferFrame := Some (tf_frame selected),
                          fq_localClockPacedFrameStat := fq_localClockPacedFrameStat q3 + 1\<rparr>, t')))"

text \<open>The draw clock at the head of the other path.\<close>

definition pop_drawClock :: "time_point \<Rightarrow> FrameQueue \<Rightarrow> FrameQueue" where
  "pop_drawClock now q =
     (if \<not> fq_drawClockStarted q then q\<lparr>fq_lastDraw := now, fq_drawClockStarted := True\<rparr>
      else
        let drawInterval = now - fq_lastDraw q; q1 = q\<lparr>fq_lastDraw := now\<rparr> in
        if drawInterval \<le> 0 \<or> drawInterval > 250 * 1000000 then
          q1\<lparr>fq_averageDrawInterval := 0, fq_frameCredit := 0, fq_playoutResyncNeeded := True\<rparr>
        else if fq_averageDrawInterval q1 = 0 then q1\<lparr>fq_averageDrawInterval := drawInterval\<rparr>
        else q1\<lparr>fq_averageDrawInterval := (fq_averageDrawInterval q1 * 15 + drawInterval) sdiv 16\<rparr>)"

text \<open>How many frames are due by the frame credit, and the credit left.\<close>

definition pop_credit :: "FrameQueue \<Rightarrow> nat \<times> double" where
  "pop_credit q =
     (let baseFramesPerDraw = (of_int (fq_averageDrawInterval q) / of_int (fq_adaptiveFrameInterval q) :: double);
          desiredDepth = of_nat (fq_targetBufferedFrames q + 1);
          depthError = of_nat (length (fq_queue q)) - desiredDepth;
          occupancyCorr = clamp_double (depthError * kOccupancyCorrectionPerFrame) (- kMaximumOccupancyCorrection) kMaximumOccupancyCorrection;
          framesPerDraw = max 0 (baseFramesPerDraw + occupancyCorr)
      in if baseFramesPerDraw \<ge> 98/100 \<and> baseFramesPerDraw \<le> 102/100 \<and> depthError = 0
         then (1, 0)
         else
           let credit = fq_frameCredit q + framesPerDraw; wholeFrames = nat \<lfloor>credit\<rfloor>
           in (min wholeFrames (fq_limit q), credit - of_nat wholeFrames))"

definition pop_due :: "FrameQueue \<Rightarrow> nat \<times> FrameQueue" where
  "pop_due q =
     (let backlogResync = (fq_limit q > 0 \<and> length (fq_queue q) \<ge> fq_limit q) in
      if (fq_playoutResyncNeeded q \<or> backlogResync) \<and> fq_queue q \<noteq> [] then
        let q1 = trimToPlayoutWindowLocked q;
            q2 = (if backlogResync then resetArrivalRateEstimatorLocked q1 else q1)
        in (1, q2\<lparr>fq_playoutResyncNeeded := False, fq_frameCredit := 0, fq_playoutResyncStat := fq_playoutResyncStat q2 + 1\<rparr>)
      else if fq_arrivalRateSamples q = 0 \<or> fq_adaptiveFrameInterval q \<le> 0 \<or> fq_averageDrawInterval q \<le> 0 then
        (if length (fq_queue q) > fq_targetBufferedFrames q then 1 else 0, q)
      else (case pop_credit q of (due, credit) \<Rightarrow> (due, q\<lparr>fq_frameCredit := credit\<rparr>)))"

text \<open>The loop that consumes \<open>count\<close> frames: all but the last are recycled.\<close>

fun pop_consume :: "nat \<Rightarrow> FrameQueue \<Rightarrow> FrameQueue" where
  "pop_consume 0 q = q"
| "pop_consume (Suc n) q =
     (case fq_queue q of
        [] \<Rightarrow> q
      | tf # rest \<Rightarrow>
          let q1 = q\<lparr>fq_queue := rest\<rparr> in
          if 0 < n then
            let q2 = recycleFrame (Some (tf_frame tf)) q1
            in pop_consume n (q2\<lparr>fq_framesDroppedStat := fq_framesDroppedStat q2 + 1, fq_pacingSkipStat := fq_pacingSkipStat q2 + 1\<rparr>)
          else q1\<lparr>fq_bufferFrame := Some (tf_frame tf)\<rparr>)"

definition pop_deliver :: "nat \<Rightarrow> FrameQueue \<Rightarrow> bool \<times> FrameQueue" where
  "pop_deliver dueFrames q =
     (if dueFrames = 0 then (False, q\<lparr>fq_scheduledHoldStat := fq_scheduledHoldStat q + 1\<rparr>)
      else if fq_queue q = [] then
        let q1 = (if fq_bufferFrame q \<noteq> None
                  then q\<lparr>fq_fakeFrameUsedStat := fq_fakeFrameUsedStat q + 1, fq_emptyQueueStat := fq_emptyQueueStat q + 1\<rparr> else q)
        in (False, resetArrivalRateEstimatorLocked (q1\<lparr>fq_frameCredit := 0, fq_playoutResyncNeeded := True\<rparr>))
      else
        let consumeCount = min (length (fq_queue q)) dueFrames;
            q1 = (recycleFrame (fq_bufferFrame q) q)\<lparr>fq_bufferFrame := None\<rparr>;
            q2 = pop_consume consumeCount q1
        in (True, q2\<lparr>fq_localClockPacedFrameStat := fq_localClockPacedFrameStat q2 + 1\<rparr>))"

definition pop_legacy :: "time_point \<Rightarrow> FrameQueue \<Rightarrow> bool \<times> FrameQueue" where
  "pop_legacy now q =
     (let q1 = pop_drawClock now q in
      if fq_startupBuffering q1 \<and> length (fq_queue q1) \<le> fq_targetBufferedFrames q1 then
        (False, if fq_bufferFrame q1 \<noteq> None
                then q1\<lparr>fq_fakeFrameUsedStat := fq_fakeFrameUsedStat q1 + 1, fq_rebufferHoldStat := fq_rebufferHoldStat q1 + 1\<rparr> else q1)
      else
        let q2 = (if fq_startupBuffering q1
                  then q1\<lparr>fq_startupBuffering := False, fq_frameCredit := 0, fq_playoutResyncNeeded := True\<rparr> else q1);
            (dueFrames, q3) = pop_due q2
        in pop_deliver dueFrames q3)"

text \<open>\<open>pop\<close>: the frame to present, whether it is a new one, and the queue.\<close>

definition fq_pop :: "time_point \<Rightarrow> Telemetry \<Rightarrow> FrameQueue \<Rightarrow> AVFrame option \<times> bool \<times> FrameQueue \<times> Telemetry" where
  "fq_pop now t q =
     (let q0 = q\<lparr>fq_pushesSincePop := 0\<rparr> in
      if fq_lowLatency q0 then (case pop_lowLatency now t q0 of (consumed, q', t') \<Rightarrow> (fq_bufferFrame q', consumed, q', t'))
      else (case pop_legacy now q0 of (consumed, q') \<Rightarrow> (fq_bufferFrame q', consumed, q', t)))"

text \<open>\<open>cleanup\<close>: the frames it frees, in order, and the queue.\<close>

definition fq_cleanup :: "FrameQueue \<Rightarrow> AVFrame list \<times> FrameQueue" where
  "fq_cleanup q =
     (let q1 = resetLLFilterLocked
            (q\<lparr>fq_fakeFrameUsedStat := 0, fq_framesDroppedStat := 0, fq_emptyQueueStat := 0, fq_rebufferHoldStat := 0,
               fq_overflowDropStat := 0, fq_pacingSkipStat := 0, fq_scheduledHoldStat := 0, fq_pushesSincePop := 0,
               fq_maxPushBurstStat := 0, fq_localClockPacedFrameStat := 0, fq_playoutResyncStat := 0,
               fq_drawClockStarted := False, fq_averageDrawInterval := 0, fq_arrivalClockStarted := False,
               fq_arrivalWindowFrames := 0, fq_arrivalRateSamples := 0, fq_estimatedSourceFps := 0,
               fq_adaptiveFrameInterval := 0, fq_frameCredit := 0, fq_startupBuffering := True, fq_playoutResyncNeeded := True\<rparr>)
      in (case_option [] (\<lambda>f. [f]) (fq_bufferFrame q1) @ map tf_frame (fq_queue q1) @ fq_freeQueue q1,
          q1\<lparr>ll_renderP95Ms := Some 0, ll_gpuSubmitP95Ms := Some 0, ll_havePresentCost := False,
             fq_bufferFrame := None, fq_queue := [], fq_freeQueue := []\<rparr>))"

section \<open>What each operation does to the frames\<close>

named_theorems fq_frame_simps \<open>what the estimators leave alone\<close>

lemma recycleFrames_eq: "recycleFrames fs q = q\<lparr>fq_freeQueue := fq_freeQueue q @ fs\<rparr>"
  by (induction fs arbitrary: q) (simp_all add: recycleFrame_def)

text \<open>The part of the state that holds frames or counts them, and the configuration.\<close>

definition fq_frames :: "FrameQueue \<Rightarrow> TimedFrame list \<times> AVFrame list \<times> AVFrame option" where
  "fq_frames q = (fq_queue q, fq_freeQueue q, fq_bufferFrame q)"

definition fq_counts :: "FrameQueue \<Rightarrow> nat \<times> nat \<times> nat \<times> nat" where
  "fq_counts q = (fq_framesDroppedStat q, fq_overflowDropStat q, fq_pacingSkipStat q, fq_localClockPacedFrameStat q)"

definition fq_config :: "FrameQueue \<Rightarrow> nat \<times> nat \<times> int \<times> bool \<times> bool" where
  "fq_config q = (fq_limit q, fq_targetBufferedFrames q, fq_streamFps q, fq_transferOwnership q, fq_lowLatency q)"

lemmas fq_views = fq_frames_def fq_counts_def fq_config_def

lemma estimators_keep [fq_frame_simps]:
  "fq_frames (resetArrivalRateEstimatorLocked q) = fq_frames q" "fq_counts (resetArrivalRateEstimatorLocked q) = fq_counts q"
  "fq_config (resetArrivalRateEstimatorLocked q) = fq_config q"
  "fq_frames (resetLLFilterLocked q) = fq_frames q" "fq_counts (resetLLFilterLocked q) = fq_counts q"
  "fq_config (resetLLFilterLocked q) = fq_config q"
  by (simp_all add: fq_views resetArrivalRateEstimatorLocked_def resetLLFilterLocked_def)

lemma recordArrival_keeps [fq_frame_simps]:
  "fq_frames (recordArrivalLocked now q) = fq_frames q" "fq_counts (recordArrivalLocked now q) = fq_counts q"
  "fq_config (recordArrivalLocked now q) = fq_config q"
  by (simp_all add: fq_views recordArrivalLocked_def recordArrival_sample_def Let_def)

lemma updateLL_keeps [fq_frame_simps]:
  "fq_frames (snd (updateLLFilterLocked now q)) = fq_frames q" "fq_counts (snd (updateLLFilterLocked now q)) = fq_counts q"
  "fq_config (snd (updateLLFilterLocked now q)) = fq_config q"
  by (simp_all add: fq_views updateLLFilterLocked_def Let_def)

lemma drawClock_keeps [fq_frame_simps]:
  "fq_frames (pop_drawClock now q) = fq_frames q" "fq_counts (pop_drawClock now q) = fq_counts q"
  "fq_config (pop_drawClock now q) = fq_config q"
  by (simp_all add: fq_views pop_drawClock_def Let_def)

text \<open>Dropping the \<open>d\<close> oldest frames into the pool.\<close>

definition drops :: "nat \<Rightarrow> FrameQueue \<Rightarrow> TimedFrame list \<times> AVFrame list \<times> AVFrame option" where
  "drops d q = (drop d (fq_queue q), fq_freeQueue q @ map tf_frame (take d (fq_queue q)), fq_bufferFrame q)"

lemma push_overflow_effect:
  fixes q
  defines "d \<equiv> (if length (fq_queue q) > fq_limit q then length (fq_queue q) - (fq_targetBufferedFrames q + 1) else 0)"
  shows "fq_frames (push_overflow q) = drops d q"
    and "fq_counts (push_overflow q) =
      (fq_framesDroppedStat q + d, fq_overflowDropStat q + d, fq_pacingSkipStat q, fq_localClockPacedFrameStat q)"
    and "fq_config (push_overflow q) = fq_config q"
  by (simp_all add: push_overflow_def d_def drops_def Let_def drop_while_longer_eq recycleFrames_eq
      resetLLFilterLocked_def resetArrivalRateEstimatorLocked_def fq_views)

lemma enqueueFrame_effect:
  assumes "enqueueFrame f now t q = (q', t')"
  obtains d tf where "tf_frame tf = f" "d \<le> length (fq_queue q)"
    "fq_frames q' = (drop d (fq_queue q @ [tf]), fq_freeQueue q @ map tf_frame (take d (fq_queue q @ [tf])), fq_bufferFrame q)"
    "fq_counts q' = (fq_framesDroppedStat q + d, fq_overflowDropStat q + d, fq_pacingSkipStat q, fq_localClockPacedFrameStat q)"
    "fq_config q' = fq_config q" "length (fq_queue q') \<le> max (fq_limit q) (fq_targetBufferedFrames q + 1)"
proof -
  obtain est q1 where q1: "(if fq_lowLatency q then updateLLFilterLocked now q else (0, recordArrivalLocked now q)) = (est, q1)"
    by fastforce
  then have keeps: "fq_frames q1 = fq_frames q" "fq_counts q1 = fq_counts q" "fq_config q1 = fq_config q"
    using updateLL_keeps [of now q] recordArrival_keeps [of now q] by (auto split: if_splits)
  obtain tf t1 where tf: "makeTimedFrame f est now t = (tf, t1)" by fastforce
  then have "tf_frame tf = f" by (auto simp: makeTimedFrame_def split: prod.splits option.splits)
  moreover define q2 where "q2 = q1\<lparr>fq_queue := fq_queue q1 @ [tf], fq_pushesSincePop := fq_pushesSincePop q1 + 1,
      fq_maxPushBurstStat := max (fq_maxPushBurstStat q1) (fq_pushesSincePop q1 + 1)\<rparr>"
  have q': "q' = push_overflow q2" using assms q1 tf by (simp add: enqueueFrame_def q2_def)
  define d where "d = (if length (fq_queue q2) > fq_limit q2 then length (fq_queue q2) - (fq_targetBufferedFrames q2 + 1) else 0)"
  note eff = push_overflow_effect [of q2, folded d_def q']
  have "fq_queue q2 = fq_queue q @ [tf]" "fq_freeQueue q2 = fq_freeQueue q" "fq_bufferFrame q2 = fq_bufferFrame q"
    "fq_counts q2 = fq_counts q" "fq_config q2 = fq_config q"
    using keeps by (simp_all add: q2_def fq_views)
  with eff show thesis
    by (intro that [OF \<open>tf_frame tf = f\<close>, of d]) (auto simp: d_def drops_def fq_views split: if_splits)
qed

lemma trim_effect:
  fixes q
  defines "d \<equiv> length (fq_queue q) - (fq_targetBufferedFrames q + 1)"
  shows "fq_frames (trimToPlayoutWindowLocked q) = drops d q"
    and "fq_counts (trimToPlayoutWindowLocked q) =
      (fq_framesDroppedStat q + d, fq_overflowDropStat q, fq_pacingSkipStat q + d, fq_localClockPacedFrameStat q)"
    and "fq_config (trimToPlayoutWindowLocked q) = fq_config q"
  by (simp_all add: trimToPlayoutWindowLocked_def d_def drops_def drop_while_longer_eq recycleFrames_eq fq_views)

lemma pop_consume_eq:
  "n < length (fq_queue q) \<Longrightarrow> pop_consume (Suc n) q =
     q\<lparr>fq_queue := drop (Suc n) (fq_queue q), fq_freeQueue := fq_freeQueue q @ map tf_frame (take n (fq_queue q)),
       fq_framesDroppedStat := fq_framesDroppedStat q + n, fq_pacingSkipStat := fq_pacingSkipStat q + n,
       fq_bufferFrame := Some (tf_frame (fq_queue q ! n))\<rparr>"
proof (induction n arbitrary: q)
  case 0
  then show ?case by (cases "fq_queue q") simp_all
next
  case (Suc n)
  then obtain tf rest where q: "fq_queue q = tf # rest" by (cases "fq_queue q") auto
  let ?q2 = "q\<lparr>fq_queue := rest, fq_freeQueue := fq_freeQueue q @ [tf_frame tf],
      fq_framesDroppedStat := fq_framesDroppedStat q + 1, fq_pacingSkipStat := fq_pacingSkipStat q + 1\<rparr>"
  from Suc.prems q have "pop_consume (Suc n) ?q2 =
    ?q2\<lparr>fq_queue := drop (Suc n) rest, fq_freeQueue := fq_freeQueue ?q2 @ map tf_frame (take n rest),
       fq_framesDroppedStat := fq_framesDroppedStat ?q2 + n, fq_pacingSkipStat := fq_pacingSkipStat ?q2 + n,
       fq_bufferFrame := Some (tf_frame (rest ! n))\<rparr>"
    using Suc.IH [of ?q2] by simp
  moreover have "pop_consume (Suc (Suc n)) q = pop_consume (Suc n) ?q2"
    using q by (subst pop_consume.simps(2)) (simp add: recycleFrame_def Let_def del: pop_consume.simps)
  ultimately show ?case using q by simp
qed

declare pop_consume.simps [simp del]

text \<open>The frame \<open>d\<close> places behind the oldest is presented: those before it are dropped into the pool.\<close>

definition frame_mset :: "AVFrame option \<Rightarrow> AVFrame multiset" where
  "frame_mset f = (case f of None \<Rightarrow> {#} | Some x \<Rightarrow> {#x#})"

definition presents :: "nat \<Rightarrow> FrameQueue \<Rightarrow> FrameQueue \<Rightarrow> bool" where
  "presents d q q' \<longleftrightarrow> d < length (fq_queue q) \<and> fq_queue q' = drop (Suc d) (fq_queue q) \<and>
     fq_bufferFrame q' = Some (tf_frame (fq_queue q ! d)) \<and>
     mset (fq_freeQueue q') = mset (fq_freeQueue q) + mset (map tf_frame (take d (fq_queue q))) + frame_mset (fq_bufferFrame q) \<and>
     fq_counts q' = (fq_framesDroppedStat q + d, fq_overflowDropStat q, fq_pacingSkipStat q + d, fq_localClockPacedFrameStat q + 1) \<and>
     fq_config q' = fq_config q"

definition holds :: "FrameQueue \<Rightarrow> FrameQueue \<Rightarrow> bool" where
  "holds q q' \<longleftrightarrow> fq_frames q' = fq_frames q \<and> fq_counts q' = fq_counts q \<and> fq_config q' = fq_config q"

lemma pop_deliver_effect:
  assumes "pop_deliver due q = (consumed, q')"
  shows "if consumed then fq_queue q \<noteq> [] \<and> presents (min (length (fq_queue q)) due - 1) q q' else holds q q'"
proof (cases "due = 0 \<or> fq_queue q = []")
  case True
  with assms show ?thesis
    by (auto simp: pop_deliver_def holds_def fq_views resetArrivalRateEstimatorLocked_def Let_def split: if_splits)
next
  case False
  define n where "n = min (length (fq_queue q)) due - 1"
  have n: "min (length (fq_queue q)) due = Suc n" "n < length (fq_queue q)"
    using False by (cases due; cases "fq_queue q"; auto simp: n_def min_def)+
  have "(consumed, q') = pop_deliver due q" using assms by simp
  also have "\<dots> = (True, (\<lambda>q2. q2\<lparr>fq_localClockPacedFrameStat := fq_localClockPacedFrameStat q2 + 1\<rparr>)
      (pop_consume (Suc n) ((recycleFrame (fq_bufferFrame q) q)\<lparr>fq_bufferFrame := None\<rparr>)))"
    using False n by (simp add: pop_deliver_def Let_def)
  finally have "consumed" "q' = (\<lambda>q2. q2\<lparr>fq_localClockPacedFrameStat := fq_localClockPacedFrameStat q2 + 1\<rparr>)
      (pop_consume (Suc n) ((recycleFrame (fq_bufferFrame q) q)\<lparr>fq_bufferFrame := None\<rparr>))" by auto
  with False n show ?thesis
    by (cases "fq_bufferFrame q") (simp_all add: pop_consume_eq presents_def recycleFrame_def frame_mset_def fq_views ac_simps)
qed

text \<open>\<open>q'\<close> is \<open>q\<close> with the \<open>e\<close> oldest frames skipped.\<close>

definition skips :: "nat \<Rightarrow> FrameQueue \<Rightarrow> FrameQueue \<Rightarrow> bool" where
  "skips e q q' \<longleftrightarrow> fq_frames q' = drops e q \<and> fq_config q' = fq_config q \<and>
     fq_counts q' = (fq_framesDroppedStat q + e, fq_overflowDropStat q, fq_pacingSkipStat q + e, fq_localClockPacedFrameStat q)"

lemma skips_presents:
  assumes "skips e q q1" "presents d q1 q'"
  shows "presents (e + d) q q'"
proof -
  have q1: "fq_queue q1 = drop e (fq_queue q)" using assms(1) by (simp add: skips_def drops_def fq_frames_def)
  have "take (e + d) (fq_queue q) = take e (fq_queue q) @ take d (fq_queue q1)" by (simp only: q1 take_add)
  moreover have "e + d < length (fq_queue q)" "fq_queue q1 ! d = fq_queue q ! (e + d)"
    "drop (Suc d) (fq_queue q1) = drop (Suc (e + d)) (fq_queue q)"
    using assms(2) by (simp_all add: presents_def q1 add.commute less_diff_conv)
  ultimately show ?thesis using assms
    by (simp add: skips_def presents_def drops_def fq_frames_def fq_counts_def)
qed

lemma skips_0: "skips 0 q q' \<longleftrightarrow> holds q q'"
  by (auto simp: skips_def holds_def drops_def fq_frames_def fq_counts_def)

lemma holds_trans: "holds q q1 \<Longrightarrow> holds q1 q2 \<Longrightarrow> holds q q2"
  by (simp add: holds_def)

lemma holds_presents: "holds q q1 \<Longrightarrow> presents d q1 q2 \<Longrightarrow> presents d q q2"
  using skips_presents [of 0 q q1 d q2] by (simp add: skips_0)

lemma pop_due_effect:
  assumes "pop_due q = (due, q1)"
  shows "holds q q1 \<or> (due = 1 \<and> fq_queue q1 \<noteq> [] \<and> (\<exists>e. skips e q q1))"
proof -
  let ?backlog = "fq_limit q > 0 \<and> length (fq_queue q) \<ge> fq_limit q"
  consider (resync) "(fq_playoutResyncNeeded q \<or> ?backlog) \<and> fq_queue q \<noteq> []"
    | (rest) "\<not> ((fq_playoutResyncNeeded q \<or> ?backlog) \<and> fq_queue q \<noteq> [])" by blast
  then show ?thesis
  proof cases
    case resync
    let ?e = "length (fq_queue q) - (fq_targetBufferedFrames q + 1)"
    let ?t = "trimToPlayoutWindowLocked q"
    let ?r = "if ?backlog then resetArrivalRateEstimatorLocked ?t else ?t"
    have "pop_due q = (1, ?r\<lparr>fq_playoutResyncNeeded := False, fq_frameCredit := 0, fq_playoutResyncStat := fq_playoutResyncStat ?r + 1\<rparr>)"
      using resync by (simp add: pop_due_def Let_def)
    with assms have "due = 1" and q1: "fq_frames q1 = fq_frames ?r" "fq_counts q1 = fq_counts ?r" "fq_config q1 = fq_config ?r"
      by (auto simp: fq_views)
    have "fq_frames ?r = fq_frames ?t" "fq_counts ?r = fq_counts ?t" "fq_config ?r = fq_config ?t"
      by (simp_all add: fq_frame_simps)
    with q1 trim_effect [of q] have "skips ?e q q1" by (simp add: skips_def)
    moreover from this resync have "fq_queue q1 \<noteq> []" by (cases "fq_queue q") (auto simp: skips_def drops_def fq_frames_def)
    ultimately show ?thesis using \<open>due = 1\<close> by blast
  next
    case rest
    then have "pop_due q = (if fq_arrivalRateSamples q = 0 \<or> fq_adaptiveFrameInterval q \<le> 0 \<or> fq_averageDrawInterval q \<le> 0
        then (if length (fq_queue q) > fq_targetBufferedFrames q then 1 else 0, q)
        else (fst (pop_credit q), q\<lparr>fq_frameCredit := snd (pop_credit q)\<rparr>))"
      unfolding pop_due_def Let_def split_def by (rule if_not_P)
    with assms show ?thesis by (auto simp: holds_def fq_views split: if_splits)
  qed
qed

lemma pop_legacy_effect:
  assumes "pop_legacy now q = (consumed, q')"
  shows "if consumed then \<exists>d. presents d q q' else holds q q'"
proof -
  let ?q1 = "pop_drawClock now q"
  have h1: "holds q ?q1" by (simp add: holds_def fq_frame_simps)
  show ?thesis
  proof (cases "fq_startupBuffering ?q1 \<and> length (fq_queue ?q1) \<le> fq_targetBufferedFrames ?q1")
    case True
    with assms h1 show ?thesis by (auto simp: pop_legacy_def Let_def holds_def fq_views split: if_splits)
  next
    case False
    define q2 where "q2 = (if fq_startupBuffering ?q1
        then ?q1\<lparr>fq_startupBuffering := False, fq_frameCredit := 0, fq_playoutResyncNeeded := True\<rparr> else ?q1)"
    have h2: "holds q q2" using h1 by (simp add: q2_def holds_def fq_views)
    obtain due q3 where due: "pop_due q2 = (due, q3)" by fastforce
    have deliver: "pop_deliver due q3 = (consumed, q')"
      using assms due False unfolding pop_legacy_def Let_def by (simp flip: q2_def)
    note eff = pop_deliver_effect [OF deliver]
    from pop_due_effect [OF due] show ?thesis
    proof (elim disjE conjE exE)
      assume "holds q2 q3"
      with h2 have "holds q q3" by (rule holds_trans)
      with eff show ?thesis by (cases consumed) (auto intro: holds_presents holds_trans)
    next
      fix e assume "due = 1" "fq_queue q3 \<noteq> []" "skips e q2 q3"
      with deliver have "consumed" by (auto simp: pop_deliver_def Let_def)
      with eff \<open>skips e q2 q3\<close> h2 show ?thesis using skips_presents holds_presents by auto blast
    qed
  qed
qed

lemma pop_lowLatency_selects:
  assumes "pop_lowLatency now t q = (consumed, q', t')" and queue: "fq_queue q \<noteq> []"
    and p: "prepareLatestFrame tf_timeEstimate (fq_queue q) now (presentGateNs q) (fq_targetBufferedFrames q) = Some (dropped, kept)"
  shows "consumed \<and> presents (length (fq_queue q) - 1) q q'"
proof -
  define f where "f = last (fq_queue q)"
  have qf: "fq_queue q = dropped @ [f]" "kept = [f]" using prepareLatestFrame_Some [OF p] unfolding f_def by metis+
  define q1 where "q1 = (recycleFrames (map tf_frame dropped) q)\<lparr>fq_queue := kept,
      fq_framesDroppedStat := fq_framesDroppedStat q + length dropped, fq_pacingSkipStat := fq_pacingSkipStat q + length dropped\<rparr>"
  define q2 where "q2 = q1\<lparr>fq_queue := tl (fq_queue q1)\<rparr>"
  define q3 where "q3 = recycleFrame (fq_bufferFrame q2) q2"
  have "pop_lowLatency now t q =
      (True, q3\<lparr>fq_bufferFrame := Some (tf_frame (hd (fq_queue q1))), fq_localClockPacedFrameStat := fq_localClockPacedFrameStat q3 + 1\<rparr>,
       noteFrameSelected (tf_networkComplete (hd (fq_queue q1))) (tf_decodeDone (hd (fq_queue q1))) now t)"
    unfolding pop_lowLatency_def p Let_def q1_def q2_def q3_def using queue by (simp only: if_False option.case prod.case simp_thms)
  with assms(1) have "consumed" and q': "q' = q3\<lparr>fq_bufferFrame := Some (tf_frame (hd (fq_queue q1))),
      fq_localClockPacedFrameStat := fq_localClockPacedFrameStat q3 + 1\<rparr>" by auto
  have "fq_queue q1 = [f]" "fq_frames q2 = ([], fq_freeQueue q @ map tf_frame dropped, fq_bufferFrame q)"
    "fq_counts q2 = (fq_framesDroppedStat q + length dropped, fq_overflowDropStat q, fq_pacingSkipStat q + length dropped, fq_localClockPacedFrameStat q)"
    "fq_config q2 = fq_config q"
    by (simp_all add: q2_def q1_def recycleFrames_eq qf(2) fq_views)
  with \<open>consumed\<close> qf(1) show ?thesis
    by (cases "fq_bufferFrame q") (auto simp: q' q3_def recycleFrame_def presents_def frame_mset_def fq_views)
qed

lemma pop_lowLatency_effect:
  assumes "pop_lowLatency now t q = (consumed, q', t')"
  shows "if consumed then presents (length (fq_queue q) - 1) q q' else holds q q'"
proof (cases "fq_queue q = []")
  case True
  with assms have "\<not> consumed" "q' = q \<or> q' = q\<lparr>fq_fakeFrameUsedStat := fq_fakeFrameUsedStat q + 1, fq_emptyQueueStat := fq_emptyQueueStat q + 1\<rparr>"
    unfolding pop_lowLatency_def by (auto split: if_splits)
  then show ?thesis by (auto simp: holds_def fq_views)
next
  case queue: False
  show ?thesis
  proof (cases "prepareLatestFrame tf_timeEstimate (fq_queue q) now (presentGateNs q) (fq_targetBufferedFrames q)")
    case None
    with assms queue have "\<not> consumed" "q' = q\<lparr>fq_scheduledHoldStat := fq_scheduledHoldStat q + 1\<rparr>"
      unfolding pop_lowLatency_def by auto
    then show ?thesis by (simp add: holds_def fq_views)
  next
    case (Some dk)
    with assms queue show ?thesis by (cases dk) (auto dest: pop_lowLatency_selects)
  qed
qed

text \<open>What \<open>pop\<close> does: it presents a waiting frame, skipping the older ones, or holds the last one.\<close>

lemma fq_pop_effect:
  assumes "fq_pop now t q = (r, consumed, q', t')"
  shows "r = fq_bufferFrame q' \<and> (if consumed then \<exists>d. presents d q q' else holds q q')"
proof -
  let ?q0 = "q\<lparr>fq_pushesSincePop := 0\<rparr>"
  have h: "holds q ?q0" by (simp add: holds_def fq_views)
  have "r = fq_bufferFrame q' \<and> (if consumed then \<exists>d. presents d ?q0 q' else holds ?q0 q')"
    using assms pop_lowLatency_effect [of now t ?q0] pop_legacy_effect [of now ?q0]
    by (auto simp: fq_pop_def Let_def split: if_splits prod.splits)
  with h show ?thesis by (cases consumed) (auto intro: holds_presents holds_trans)
qed

end
