(* ===== verification/FramePresentation.thy ===== *)
theory FramePresentation
  imports AVFrameQueue "HOL-Library.Sublist"
begin

text \<open>
  Executions of the frame queue: the operations the decoder and the render thread call, in any
  order, and what holds along every such sequence.  Frames are presented in arrival order and at
  most once, the statistics account for every frame, the queue stays bounded, and every frame
  has exactly one owner from its allocation to the one call that frees it.
\<close>

section \<open>Operations and their outcome\<close>

datatype fq_op =
    Configure nat int bool bool
  | Push "AVFrame option" "AVFrame option" bool time_point
  | PushTransferred "AVFrame option" time_point
  | Pop time_point
  | AcquireWrite "AVFrame option"
  | RecycleWrite "AVFrame option"
  | PresentCost "double option" "double option" bool
  | Cleanup

text \<open>
  What one operation does to frames: those that enter the queue, the one it newly presents, those it
  frees, those it takes from and hands to the decoder, and those it allocates.
\<close>

record fq_outcome =
  oc_enqueued :: "AVFrame list"
  oc_presented :: "AVFrame list"
  oc_freed :: "AVFrame list"
  oc_taken :: "AVFrame list"
  oc_handed :: "AVFrame list"
  oc_allocated :: "AVFrame list"

definition no_outcome :: fq_outcome where
  "no_outcome = \<lparr>oc_enqueued = [], oc_presented = [], oc_freed = [], oc_taken = [], oc_handed = [], oc_allocated = []\<rparr>"

definition frame_list :: "AVFrame option \<Rightarrow> AVFrame list" where
  "frame_list f = (case f of None \<Rightarrow> [] | Some x \<Rightarrow> [x])"

lemma frame_list_simps [simp]: "frame_list None = []" "frame_list (Some x) = [x]"
  by (simp_all add: frame_list_def)

lemma mset_frame_list [simp]: "mset (frame_list f) = frame_mset f"
  by (cases f) (simp_all add: frame_mset_def)

fun fq_exec :: "fq_op \<Rightarrow> FrameQueue \<times> Telemetry \<Rightarrow> fq_outcome \<times> FrameQueue \<times> Telemetry" where
  "fq_exec (Configure n fps own ll) (q, t) = (no_outcome, fq_configure n fps own ll q, t)"
| "fq_exec (Push item alloc refOk now) (q, t) =
     (case fq_push item alloc refOk now t q of
        (ok, freed, q', t') \<Rightarrow>
          (if fq_transferOwnership q then no_outcome\<lparr>oc_enqueued := frame_list item, oc_taken := frame_list item\<rparr>
           else if item = None then no_outcome
           else no_outcome\<lparr>oc_enqueued := (if ok then frame_list (fst (acquireFrameLocked alloc q)) else []), oc_freed := freed,
                           oc_allocated := (if fq_freeQueue q = [] then frame_list alloc else [])\<rparr>, q', t'))"
| "fq_exec (PushTransferred item now) (q, t) =
     (case pushTransferredLocked item now t q of
        (ok, q', t') \<Rightarrow> (no_outcome\<lparr>oc_enqueued := frame_list item, oc_taken := frame_list item\<rparr>, q', t'))"
| "fq_exec (Pop now) (q, t) =
     (case fq_pop now t q of
        (shown, consumed, q', t') \<Rightarrow> (no_outcome\<lparr>oc_presented := (if consumed then frame_list shown else [])\<rparr>, q', t'))"
| "fq_exec (AcquireWrite alloc) (q, t) =
     (case acquireWriteFrame alloc q of
        (f, q') \<Rightarrow> (no_outcome\<lparr>oc_handed := frame_list f, oc_allocated := (if fq_freeQueue q = [] then frame_list alloc else [])\<rparr>, q', t))"
| "fq_exec (RecycleWrite f) (q, t) = (no_outcome\<lparr>oc_taken := frame_list f\<rparr>, recycleWriteFrame f q, t)"
| "fq_exec (PresentCost r g have_samples) (q, t) = (no_outcome, updatePresentCostMs r g have_samples q, t)"
| "fq_exec Cleanup (q, t) = (case fq_cleanup q of (freed, q') \<Rightarrow> (no_outcome\<lparr>oc_freed := freed\<rparr>, q', t))"

fun fq_run :: "fq_op list \<Rightarrow> FrameQueue \<times> Telemetry \<Rightarrow> fq_outcome list \<times> FrameQueue \<times> Telemetry" where
  "fq_run [] s = ([], s)"
| "fq_run (op # ops) s = (case fq_exec op s of (oc, s1) \<Rightarrow> (case fq_run ops s1 of (ocs, s2) \<Rightarrow> (oc # ocs, s2)))"

section \<open>Ownership\<close>

text \<open>The frames the queue owns: waiting, free, and the one last handed to the renderer.\<close>

definition owned :: "FrameQueue \<Rightarrow> AVFrame multiset" where
  "owned q = mset (map tf_frame (fq_queue q)) + mset (fq_freeQueue q) + frame_mset (fq_bufferFrame q)"

lemma owned_frames: "fq_frames q' = fq_frames q \<Longrightarrow> owned q' = owned q"
  by (simp add: owned_def fq_frames_def)

lemma owned_enqueue: "enqueueFrame f now t q = (q', t') \<Longrightarrow> owned q' = owned q + {#f#}"
proof (erule enqueueFrame_effect)
  fix d tf
  assume f: "tf_frame tf = f" and fr: "fq_frames q' = (drop d (fq_queue q @ [tf]),
      fq_freeQueue q @ map tf_frame (take d (fq_queue q @ [tf])), fq_bufferFrame q)"
  have "mset (map tf_frame (take d (fq_queue q @ [tf]))) + mset (map tf_frame (drop d (fq_queue q @ [tf]))) =
      mset (map tf_frame (fq_queue q @ [tf]))"
    by (simp only: mset_append [symmetric] map_append [symmetric] append_take_drop_id)
  with f fr show "owned q' = owned q + {#f#}" by (simp add: owned_def fq_frames_def ac_simps)
qed

lemma owned_presents: "presents d q q' \<Longrightarrow> owned q' = owned q"
proof -
  assume p: "presents d q q'"
  then have "d < length (fq_queue q)" by (simp add: presents_def)
  then obtain as x bs where q: "fq_queue q = as @ x # bs" "length as = d"
    using id_take_nth_drop [of d "fq_queue q"] by (metis length_take less_imp_le min.absorb2)
  with p show ?thesis by (simp add: owned_def presents_def frame_mset_def nth_append)
qed

lemma owned_acquire:
  "acquireFrameLocked alloc q = (f, q') \<Longrightarrow>
     owned q' + frame_mset f = owned q + (if fq_freeQueue q = [] then frame_mset alloc else {#})"
  by (cases "fq_freeQueue q") (auto simp: acquireFrameLocked_def owned_def frame_mset_def)

lemma owned_recycle: "owned (recycleFrame f q) = owned q + frame_mset f"
  by (cases f) (simp_all add: recycleFrame_def owned_def frame_mset_def)

lemma owned_cleanup: "fq_cleanup q = (freed, q') \<Longrightarrow> mset freed = owned q \<and> owned q' = {#}"
  by (cases "fq_bufferFrame q") (auto simp: fq_cleanup_def Let_def resetLLFilterLocked_def owned_def frame_mset_def)

lemma owned_push:
  assumes "fq_push item alloc refOk now t q = (ok, freed, q', t')"
  shows "owned q' + mset freed = owned q +
     (if item = None then {#} else if fq_transferOwnership q then frame_mset item
      else if fq_freeQueue q = [] then frame_mset alloc else {#})"
proof (cases item)
  case None
  with assms show ?thesis by (simp add: fq_push_def)
next
  case (Some x)
  obtain f q1 where acq: "acquireFrameLocked alloc q = (f, q1)" by fastforce
  show ?thesis
  proof (cases "fq_transferOwnership q")
    case True
    obtain q2 t2 where e: "enqueueFrame x now t q = (q2, t2)" by fastforce
    with assms Some True have "freed = []" "q' = q2" by (simp_all add: fq_push_def pushTransferredLocked_def)
    with True Some owned_enqueue [OF e] show ?thesis by (simp add: frame_mset_def)
  next
    case False
    show ?thesis
    proof (cases "f = None \<or> \<not> refOk")
      case True
      with assms Some acq False owned_acquire [OF acq] show ?thesis
        by (cases f) (auto simp: fq_push_def frame_mset_def)
    next
      case queued: False
      then obtain y where y: "f = Some y" by auto
      obtain q2 t2 where e: "enqueueFrame y now t q1 = (q2, t2)" by fastforce
      with assms Some acq False queued y have "freed = []" "q' = q2" by (simp_all add: fq_push_def)
      with False Some y owned_acquire [OF acq] owned_enqueue [OF e] show ?thesis by (simp add: frame_mset_def)
    qed
  qed
qed

text \<open>Every operation conserves frames.\<close>

lemma exec_conserves:
  assumes "fq_exec op (q, t) = (oc, q', t')"
  shows "owned q' + mset (oc_freed oc) + mset (oc_handed oc) = owned q + mset (oc_taken oc) + mset (oc_allocated oc)"
proof (cases op)
  case (Configure n fps own ll)
  with assms show ?thesis
    by (auto simp: no_outcome_def fq_configure_def Let_def resetLLFilterLocked_def owned_def)
next
  case (Push item alloc refOk now)
  obtain ok freed q1 t1 where push: "fq_push item alloc refOk now t q = (ok, freed, q1, t1)" by (metis prod_cases4)
  have "freed = []" if "fq_transferOwnership q \<or> item = None"
    using push that by (cases item) (auto simp: fq_push_def pushTransferredLocked_def split: prod.splits)
  with assms Push push owned_push [OF push] show ?thesis
    by (cases item; cases "fq_transferOwnership q") (auto simp: no_outcome_def frame_mset_def)
next
  case (PushTransferred item now)
  show ?thesis
  proof (cases item)
    case None
    with assms PushTransferred show ?thesis by (auto simp: no_outcome_def pushTransferredLocked_def)
  next
    case (Some x)
    obtain q2 t2 where "enqueueFrame x now t q = (q2, t2)" by fastforce
    with assms PushTransferred Some owned_enqueue [OF this] show ?thesis
      by (auto simp: no_outcome_def pushTransferredLocked_def frame_mset_def)
  qed
next
  case (Pop now)
  obtain r consumed q1 t1 where pop: "fq_pop now t q = (r, consumed, q1, t1)" by (metis prod_cases4)
  from fq_pop_effect [OF pop] have "owned q1 = owned q"
    by (cases consumed) (auto simp: holds_def intro: owned_presents owned_frames)
  with assms Pop pop show ?thesis by (auto simp: no_outcome_def)
next
  case (AcquireWrite alloc)
  with assms owned_acquire [of alloc q] show ?thesis
    by (auto simp: no_outcome_def acquireWriteFrame_def split: prod.splits)
next
  case (RecycleWrite f)
  with assms show ?thesis by (auto simp: no_outcome_def recycleWriteFrame_def owned_recycle)
next
  case (PresentCost r g h)
  with assms show ?thesis by (auto simp: no_outcome_def updatePresentCostMs_def owned_def)
next
  case Cleanup
  with assms owned_cleanup [of q] show ?thesis by (auto simp: no_outcome_def split: prod.splits)
qed

text \<open>
  The queue, the decoder and FFmpeg's allocator.  \<open>held\<close> are the frames in the decoder's hands,
  \<open>live\<close> the frames allocated and not yet freed.  The decoder gives away only what it holds, and
  the allocator returns an address that is not in use.
\<close>

type_synonym fq_system = "FrameQueue \<times> Telemetry \<times> AVFrame multiset \<times> AVFrame set"

inductive fq_step :: "fq_system \<Rightarrow> fq_system \<Rightarrow> bool" where
  "fq_exec op (q, t) = (oc, q', t') \<Longrightarrow> mset (oc_taken oc) \<subseteq># held \<Longrightarrow> set (oc_allocated oc) \<inter> live = {} \<Longrightarrow>
   fq_step (q, t, held, live)
     (q', t', held - mset (oc_taken oc) + mset (oc_handed oc), live \<union> set (oc_allocated oc) - set (oc_freed oc))"

definition one_owner :: "fq_system \<Rightarrow> bool" where
  "one_owner s = (case s of (q, t, held, live) \<Rightarrow> finite live \<and> owned q + held = mset_set live)"

lemma distinct_allocated: "fq_exec op (q, t) = (oc, q', t') \<Longrightarrow> distinct (oc_allocated oc)"
  by (cases op) (auto simp: no_outcome_def frame_list_def split: prod.splits option.splits if_splits)

lemma mset_set_diff_mset:
  assumes "finite A" "M \<subseteq># mset_set A"
  shows "mset_set A - M = mset_set (A - set_mset M)"
proof (rule multiset_eqI)
  fix x
  have "count M x \<le> count (mset_set A) x" using assms(2) by (simp add: mset_subset_eq_count)
  moreover have "x \<in># M \<Longrightarrow> 0 < count M x" by simp
  ultimately show "count (mset_set A - M) x = count (mset_set (A - set_mset M)) x"
    using assms(1) by (cases "x \<in> A"; cases "x \<in># M") (auto simp: count_mset_set' not_in_iff le_Suc_eq)
qed

lemma fq_step_freed:
  assumes "fq_exec op (q, t) = (oc, q', t')" "mset (oc_taken oc) \<subseteq># held" "set (oc_allocated oc) \<inter> live = {}"
    and "one_owner (q, t, held, live)"
  shows "mset (oc_freed oc) \<subseteq># mset_set (live \<union> set (oc_allocated oc))"
    and "owned q' + (held - mset (oc_taken oc) + mset (oc_handed oc)) = mset_set (live \<union> set (oc_allocated oc)) - mset (oc_freed oc)"
proof -
  from assms(4) have fin: "finite live" and eq: "owned q + held = mset_set live" by (simp_all add: one_owner_def)
  have "mset_set (live \<union> set (oc_allocated oc)) = mset_set live + mset (oc_allocated oc)"
    using fin assms(3) distinct_allocated [OF assms(1)] by (simp add: mset_set_Union mset_set_set Int_commute)
  also have "\<dots> = owned q' + (held - mset (oc_taken oc) + mset (oc_handed oc)) + mset (oc_freed oc)"
  proof -
    from assms(2) obtain rest where held: "held = mset (oc_taken oc) + rest" by (auto simp: mset_subset_eq_exists_conv)
    have "mset_set live + mset (oc_allocated oc) = (owned q + mset (oc_taken oc) + mset (oc_allocated oc)) + rest"
      using eq held by (simp add: ac_simps)
    also have "\<dots> = (owned q' + mset (oc_freed oc) + mset (oc_handed oc)) + rest"
      using exec_conserves [OF assms(1)] by simp
    finally show ?thesis using held by (simp add: ac_simps)
  qed
  finally have all: "mset_set (live \<union> set (oc_allocated oc)) =
    owned q' + (held - mset (oc_taken oc) + mset (oc_handed oc)) + mset (oc_freed oc)" .
  then show "mset (oc_freed oc) \<subseteq># mset_set (live \<union> set (oc_allocated oc))"
    and "owned q' + (held - mset (oc_taken oc) + mset (oc_handed oc)) = mset_set (live \<union> set (oc_allocated oc)) - mset (oc_freed oc)"
    by simp_all
qed

lemma one_owner_step: "fq_step s s' \<Longrightarrow> one_owner s \<Longrightarrow> one_owner s'"
proof (induction rule: fq_step.induct)
  case (1 op q t oc q' t' held live)
  then have fin: "finite (live \<union> set (oc_allocated oc))" by (simp add: one_owner_def)
  note f = fq_step_freed [OF 1]
  from mset_set_diff_mset [OF fin f(1)] f(2) fin show ?case by (simp add: one_owner_def)
qed

definition fq_start :: "fq_system" where
  "fq_start = (FrameQueue_init, Telemetry_init, {#}, {})"

text \<open>
  C31: every frame has exactly one owner: in every state the queue, the decoder and the allocator can
  reach, each live frame is in exactly one place (waiting, in the free pool, on screen, or in the
  decoder's hands) and nothing else is.  In particular the frame on screen is live and neither
  free, waiting nor being written.
\<close>

theorem frame_one_owner:
  assumes "fq_step\<^sup>*\<^sup>* fq_start (q, t, held, live)"
  shows "owned q + held = mset_set live \<and>
    (\<forall>f. fq_bufferFrame q = Some f \<longrightarrow> f \<in> live \<and> f \<notin> set (fq_freeQueue q) \<and> f \<notin> tf_frame ` set (fq_queue q) \<and> f \<notin># held)"
proof -
  have "one_owner s" if "fq_step\<^sup>*\<^sup>* fq_start s" for s
    using that
  proof (induction rule: rtranclp_induct)
    case base
    show ?case by (simp add: one_owner_def fq_start_def owned_def FrameQueue_init_def frame_mset_def)
  qed (rule one_owner_step)
  with assms have fin: "finite live" and eq: "owned q + held = mset_set live" by (auto simp: one_owner_def)
  have "f \<in> live \<and> f \<notin> set (fq_freeQueue q) \<and> f \<notin> tf_frame ` set (fq_queue q) \<and> f \<notin># held" if "fq_bufferFrame q = Some f" for f
  proof -
    from eq have "count (owned q + held) f = count (mset_set live) f" by simp
    with that have c: "count (mset (map tf_frame (fq_queue q))) f + count (mset (fq_freeQueue q)) f + 1 + count held f = count (mset_set live) f"
      by (simp add: owned_def frame_mset_def)
    moreover have "count (mset_set live) f \<le> 1" using fin by (simp add: count_mset_set')
    ultimately have "count (mset_set live) f = 1" "count (mset (map tf_frame (fq_queue q))) f = 0" "count (mset (fq_freeQueue q)) f = 0" "count held f = 0"
      by linarith+
    then show ?thesis using fin by (auto simp: count_mset_set' count_eq_zero_iff split: if_splits)
  qed
  with eq show ?thesis by blast
qed

text \<open>A run: the decoder acquires a frame, hands it over decoded, and the renderer pops it.\<close>

definition example_ops :: "fq_op list" where
  "example_ops = [AcquireWrite (Some 7), PushTransferred (Some 7) 1000, Pop 2000]"

fun fq_sys_run :: "fq_op list \<Rightarrow> fq_system \<Rightarrow> fq_system option" where
  "fq_sys_run [] s = Some s"
| "fq_sys_run (op # ops) (q, t, held, live) =
     (case fq_exec op (q, t) of
        (oc, q', t') \<Rightarrow>
          if mset (oc_taken oc) \<subseteq># held \<and> set (oc_allocated oc) \<inter> live = {}
          then fq_sys_run ops (q', t', held - mset (oc_taken oc) + mset (oc_handed oc), live \<union> set (oc_allocated oc) - set (oc_freed oc))
          else None)"

lemma fq_sys_run_steps: "fq_sys_run ops s = Some s' \<Longrightarrow> fq_step\<^sup>*\<^sup>* s s'"
proof (induction ops s rule: fq_sys_run.induct)
  case (2 op ops q t held live)
  obtain oc q1 t1 where e: "fq_exec op (q, t) = (oc, q1, t1)" by (metis prod_cases3)
  with 2 have "mset (oc_taken oc) \<subseteq># held" "set (oc_allocated oc) \<inter> live = {}"
    and "fq_step\<^sup>*\<^sup>* (q1, t1, held - mset (oc_taken oc) + mset (oc_handed oc), live \<union> set (oc_allocated oc) - set (oc_freed oc)) s'"
    by (auto split: if_splits)
  with fq_step.intros [OF e] show ?case by (meson converse_rtranclp_into_rtranclp)
qed simp

lemma example_sys: "map_option (\<lambda>(q, t, held, live). (fq_bufferFrame q, held, live)) (fq_sys_run example_ops fq_start) = Some (Some 7, {#}, {7})"
  by code_simp

theorem frame_one_owner_witness:
  "\<exists>q t. fq_step\<^sup>*\<^sup>* fq_start (q, t, {#}, {7}) \<and> fq_bufferFrame q = Some 7 \<and> owned q = {#7#} \<and> 7 \<notin> set (fq_freeQueue q)"
proof -
  from example_sys obtain q t where "fq_sys_run example_ops fq_start = Some (q, t, {#}, {7})" "fq_bufferFrame q = Some 7"
    by auto
  then have run: "fq_step\<^sup>*\<^sup>* fq_start (q, t, {#}, {7})" by (blast intro: fq_sys_run_steps)
  from frame_one_owner [OF run] have "owned q = {#7#}" "7 \<notin> set (fq_freeQueue q)"
    using \<open>fq_bufferFrame q = Some 7\<close> by simp_all
  with run \<open>fq_bufferFrame q = Some 7\<close> show ?thesis by blast
qed

section \<open>Order and accounting\<close>

lemma presents_order:
  assumes "presents d q q'"
  shows "subseq (frame_list (fq_bufferFrame q') @ map tf_frame (fq_queue q')) (map tf_frame (fq_queue q))"
proof -
  from assms have "d < length (fq_queue q)" by (simp add: presents_def)
  then obtain as x bs where "fq_queue q = as @ x # bs" "length as = d"
    using id_take_nth_drop [of d "fq_queue q"] by (metis length_take less_imp_le min.absorb2)
  with assms show ?thesis by (auto simp: presents_def nth_append intro: list_emb_append2)
qed

lemma drop_subseq: "subseq (drop n xs) xs"
  by (metis append_take_drop_id list_emb_append2 subseq_order.refl)

lemma enqueue_order:
  assumes "enqueueFrame f now t q = (q', t')"
  shows "subseq (map tf_frame (fq_queue q')) (map tf_frame (fq_queue q) @ [f])"
  using assms
proof (rule enqueueFrame_effect)
  fix d tf assume "tf_frame tf = f" "fq_frames q' = (drop d (fq_queue q @ [tf]),
      fq_freeQueue q @ map tf_frame (take d (fq_queue q @ [tf])), fq_bufferFrame q)"
  then have "map tf_frame (fq_queue q') = drop d (map tf_frame (fq_queue q) @ [f])"
    by (simp only: fq_frames_def prod.inject drop_map [symmetric] map_append list.map)
  then show ?thesis by (simp only: drop_subseq)
qed

lemma acquire_queue: "acquireFrameLocked alloc q = (f, q1) \<Longrightarrow> fq_queue q1 = fq_queue q \<and> fq_counts q1 = fq_counts q"
  by (auto simp: acquireFrameLocked_def fq_counts_def split: list.splits)

text \<open>
  What an operation that enqueues \<open>E\<close> and presents \<open>P\<close> does to the order and to the counters.
\<close>

definition flow :: "AVFrame list \<Rightarrow> AVFrame list \<Rightarrow> FrameQueue \<Rightarrow> FrameQueue \<Rightarrow> bool" where
  "flow E P q q' \<longleftrightarrow>
     subseq (P @ map tf_frame (fq_queue q')) (map tf_frame (fq_queue q) @ E) \<and>
     length (fq_queue q') + length P + fq_framesDroppedStat q' = length (fq_queue q) + length E + fq_framesDroppedStat q \<and>
     fq_localClockPacedFrameStat q' = fq_localClockPacedFrameStat q + length P \<and>
     fq_framesDroppedStat q' + fq_overflowDropStat q + fq_pacingSkipStat q =
       fq_framesDroppedStat q + fq_overflowDropStat q' + fq_pacingSkipStat q'"

lemma flow_same: "fq_queue q' = fq_queue q \<Longrightarrow> fq_counts q' = fq_counts q \<Longrightarrow> flow [] [] q q'"
  by (simp add: flow_def fq_counts_def)

lemma flow_enqueue: "enqueueFrame f now t q = (q', t') \<Longrightarrow> flow [f] [] q q'"
  using enqueue_order [of f now t q q' t']
  by (auto elim!: enqueueFrame_effect simp: flow_def fq_counts_def fq_frames_def)

lemma flow_presents: "presents d q q' \<Longrightarrow> flow [] (frame_list (fq_bufferFrame q')) q q'"
  using presents_order [of d q q'] by (auto simp: flow_def presents_def fq_counts_def)

lemma flow_congL: "fq_queue q0 = fq_queue q \<Longrightarrow> fq_counts q0 = fq_counts q \<Longrightarrow> flow E P q0 q' = flow E P q q'"
  by (simp add: flow_def fq_counts_def)

lemma flow_trans:
  assumes "flow E1 P1 q q1" "flow E2 P2 q1 q2"
  shows "flow (E1 @ E2) (P1 @ P2) q q2"
proof -
  have "subseq (P1 @ (P2 @ map tf_frame (fq_queue q2))) (P1 @ (map tf_frame (fq_queue q1) @ E2))"
    using assms(2) unfolding flow_def by (simp only: list_emb_append_mono [OF subseq_order.refl])
  moreover have "subseq ((P1 @ map tf_frame (fq_queue q1)) @ E2) ((map tf_frame (fq_queue q) @ E1) @ E2)"
    using assms(1) unfolding flow_def by (simp only: list_emb_append_mono [OF _ subseq_order.refl])
  ultimately have "subseq ((P1 @ P2) @ map tf_frame (fq_queue q2)) (map tf_frame (fq_queue q) @ E1 @ E2)"
    by (metis append_assoc subseq_order.trans)
  with assms show ?thesis by (simp add: flow_def)
qed

lemma push_flow:
  assumes "fq_push item alloc refOk now t q = (ok, freed, q', t')"
  shows "flow (if fq_transferOwnership q then frame_list item else if item \<noteq> None \<and> ok then frame_list (fst (acquireFrameLocked alloc q)) else []) [] q q'"
proof (cases item)
  case None
  with assms show ?thesis by (auto simp: fq_push_def intro: flow_same)
next
  case (Some x)
  obtain f q1 where acq: "acquireFrameLocked alloc q = (f, q1)" by fastforce
  note keep = acquire_queue [OF acq]
  show ?thesis
  proof (cases "fq_transferOwnership q")
    case True
    obtain q2 t2 where e: "enqueueFrame x now t q = (q2, t2)" by fastforce
    with assms Some True have "q' = q2" by (simp add: fq_push_def pushTransferredLocked_def)
    with True Some flow_enqueue [OF e] show ?thesis by simp
  next
    case False
    show ?thesis
    proof (cases "f = None \<or> \<not> refOk")
      case True
      with assms Some acq False have "q' = q1" "\<not> ok" by (auto simp: fq_push_def split: option.splits)
      with False keep show ?thesis by (simp add: flow_same)
    next
      case queued: False
      then obtain y where y: "f = Some y" by auto
      obtain q2 t2 where e: "enqueueFrame y now t q1 = (q2, t2)" by fastforce
      with assms Some acq False queued y have "ok" "q' = q2" by (simp_all add: fq_push_def)
      with False Some acq y flow_enqueue [OF e] flow_congL [of q1 q "[y]" "[]" q2] keep show ?thesis by simp
    qed
  qed
qed

lemma exec_flow:
  assumes "fq_exec op (q, t) = (oc, q', t')" "op \<noteq> Cleanup"
  shows "flow (oc_enqueued oc) (oc_presented oc) q q'"
proof (cases op)
  case (Configure n fps own ll)
  with assms show ?thesis
    by (auto simp: no_outcome_def fq_configure_def Let_def resetLLFilterLocked_def fq_counts_def intro!: flow_same)
next
  case (Push item alloc refOk now)
  obtain ok freed q1 t1 where push: "fq_push item alloc refOk now t q = (ok, freed, q1, t1)" by (metis prod_cases4)
  with assms Push push_flow [OF push] show ?thesis
    by (cases item; cases "fq_transferOwnership q") (auto simp: no_outcome_def)
next
  case (PushTransferred item now)
  show ?thesis
  proof (cases item)
    case None
    with assms PushTransferred show ?thesis by (auto simp: no_outcome_def pushTransferredLocked_def intro: flow_same)
  next
    case (Some x)
    obtain q2 t2 where "enqueueFrame x now t q = (q2, t2)" by fastforce
    with assms PushTransferred Some flow_enqueue [OF this] show ?thesis
      by (auto simp: no_outcome_def pushTransferredLocked_def)
  qed
next
  case (Pop now)
  obtain r consumed q1 t1 where pop: "fq_pop now t q = (r, consumed, q1, t1)" by (metis prod_cases4)
  from fq_pop_effect [OF pop] have "flow [] (if consumed then frame_list r else []) q q1"
    by (cases consumed) (auto simp: holds_def fq_frames_def intro: flow_same dest: flow_presents)
  with assms Pop pop show ?thesis by (auto simp: no_outcome_def)
next
  case (AcquireWrite alloc)
  with assms acquire_queue [of alloc q] show ?thesis
    by (auto simp: no_outcome_def acquireWriteFrame_def intro!: flow_same split: prod.splits)
next
  case (RecycleWrite f)
  with assms show ?thesis
    by (cases f) (auto simp: no_outcome_def recycleWriteFrame_def recycleFrame_def fq_counts_def intro!: flow_same)
next
  case (PresentCost r g h)
  with assms show ?thesis by (auto simp: no_outcome_def updatePresentCostMs_def fq_counts_def intro!: flow_same)
next
  case Cleanup
  with assms show ?thesis by simp
qed

lemma run_flow:
  "fq_run ops (q, t) = (ocs, q', t') \<Longrightarrow> Cleanup \<notin> set ops \<Longrightarrow>
     flow (concat (map oc_enqueued ocs)) (concat (map oc_presented ocs)) q q'"
proof (induction ops arbitrary: q t ocs)
  case Nil
  then show ?case by (simp add: flow_same)
next
  case (Cons op ops)
  obtain oc q1 t1 where e: "fq_exec op (q, t) = (oc, q1, t1)" by (metis prod_cases3)
  obtain ocs1 q2 t2 where r: "fq_run ops (q1, t1) = (ocs1, q2, t2)" by (metis prod_cases3)
  with e Cons.prems have "ocs = oc # ocs1" "q2 = q'" "t2 = t'" by auto
  with flow_trans [OF exec_flow [OF e] Cons.IH [of q1 t1 ocs1]] r Cons.prems show ?case by auto
qed

text \<open>
  C32: frames are presented in the order they arrived, at most once each, and every frame is accounted
  for: along any sequence of operations between two cleanups the frames presented so far and those still
  waiting form a subsequence of the frames enqueued; the counters say how many were presented and
  how many were dropped (on overflow or by pacing), and together with the waiting frames they add up
  to the number enqueued.
\<close>

theorem presentation_order:
  assumes "fq_run ops (FrameQueue_init, t) = (ocs, q, t')" "Cleanup \<notin> set ops"
  shows "subseq (concat (map oc_presented ocs) @ map tf_frame (fq_queue q)) (concat (map oc_enqueued ocs)) \<and>
    fq_localClockPacedFrameStat q = length (concat (map oc_presented ocs)) \<and>
    fq_framesDroppedStat q = fq_overflowDropStat q + fq_pacingSkipStat q \<and>
    length (concat (map oc_enqueued ocs)) = fq_localClockPacedFrameStat q + fq_framesDroppedStat q + length (fq_queue q)"
  using run_flow [OF assms] by (simp add: flow_def FrameQueue_init_def)

theorem presentation_order_witness:
  "\<exists>ocs q t'. fq_run example_ops (FrameQueue_init, Telemetry_init) = (ocs, q, t') \<and> concat (map oc_presented ocs) = [7] \<and>
    fq_localClockPacedFrameStat q = 1 \<and> fq_framesDroppedStat q = fq_overflowDropStat q + fq_pacingSkipStat q"
proof -
  obtain ocs q t' where run: "fq_run example_ops (FrameQueue_init, Telemetry_init) = (ocs, q, t')" by (metis prod_cases3)
  moreover have "fst (fq_run example_ops (FrameQueue_init, Telemetry_init)) =
    [no_outcome\<lparr>oc_handed := [7], oc_allocated := [7]\<rparr>, no_outcome\<lparr>oc_enqueued := [7], oc_taken := [7]\<rparr>, no_outcome\<lparr>oc_presented := [7]\<rparr>]"
    by code_simp
  ultimately have "concat (map oc_presented ocs) = [7]" by (simp add: no_outcome_def)
  with run presentation_order [OF run] show ?thesis by (simp add: example_ops_def)
qed

end
