(* ===== verification/FramePacing.thy ===== *)
theory FramePacing
  imports FramePresentation
begin

text \<open>
  The pacing of the frame queue: the bound on its length, when the low-latency path releases a frame
  and which one, and the ranges of the two arrival estimators.
\<close>

section \<open>The queue is bounded\<close>

definition fq_bounded :: "FrameQueue \<Rightarrow> bool" where
  "fq_bounded q \<longleftrightarrow> length (fq_queue q) \<le> max (fq_limit q) (fq_targetBufferedFrames q + 1)"

lemma enqueue_bounded: "enqueueFrame f now t q = (q', t') \<Longrightarrow> fq_bounded q' \<and> fq_config q' = fq_config q"
  by (erule enqueueFrame_effect) (simp add: fq_bounded_def fq_config_def)

lemma acquire_config: "acquireFrameLocked alloc q = (f, q1) \<Longrightarrow> fq_config q1 = fq_config q"
  by (auto simp: acquireFrameLocked_def fq_config_def split: list.splits)

lemma bounded_shrinks:
  "fq_bounded q \<Longrightarrow> fq_config q' = fq_config q \<Longrightarrow> length (fq_queue q') \<le> length (fq_queue q) \<Longrightarrow> fq_bounded q'"
  by (simp add: fq_bounded_def fq_config_def)

lemma push_bounded:
  assumes "fq_push item alloc refOk now t q = (ok, freed, q', t')" "fq_bounded q"
  shows "fq_bounded q' \<and> fq_config q' = fq_config q"
proof -
  obtain f q1 where acq: "acquireFrameLocked alloc q = (f, q1)" by fastforce
  note keep = acquire_queue [OF acq] acquire_config [OF acq]
  have b1: "fq_bounded q1" using assms(2) keep by (simp add: bounded_shrinks)
  obtain q2 t2 where e2: "enqueueFrame (the item) now t q = (q2, t2)" by fastforce
  obtain q3 t3 where e3: "enqueueFrame (the f) now t q1 = (q3, t3)" by fastforce
  have "q' \<in> {q, q1, q2, q3}"
    using assms(1) acq e2 e3 by (cases item; cases f) (auto simp: fq_push_def pushTransferredLocked_def split: if_splits)
  with assms(2) b1 keep enqueue_bounded [OF e2] enqueue_bounded [OF e3] show ?thesis by auto
qed

lemma exec_bounded:
  assumes "fq_exec op (q, t) = (oc, q', t')" "fq_bounded q" "\<And>n fps own ll. op \<noteq> Configure n fps own ll"
  shows "fq_bounded q' \<and> fq_config q' = fq_config q"
proof (cases op)
  case (Configure n fps own ll)
  with assms(3) show ?thesis by blast
next
  case (Push item alloc refOk now)
  obtain ok freed q1 t1 where push: "fq_push item alloc refOk now t q = (ok, freed, q1, t1)" by (metis prod_cases4)
  with assms Push push_bounded [OF push] show ?thesis by auto
next
  case (PushTransferred item now)
  show ?thesis
  proof (cases item)
    case None
    with assms PushTransferred show ?thesis by (auto simp: pushTransferredLocked_def)
  next
    case (Some x)
    obtain q2 t2 where e: "enqueueFrame x now t q = (q2, t2)" by fastforce
    with assms PushTransferred Some enqueue_bounded [OF e] show ?thesis by (auto simp: pushTransferredLocked_def)
  qed
next
  case (Pop now)
  obtain r consumed q1 t1 where pop: "fq_pop now t q = (r, consumed, q1, t1)" by (metis prod_cases4)
  from fq_pop_effect [OF pop] have "fq_config q1 = fq_config q \<and> length (fq_queue q1) \<le> length (fq_queue q)"
    by (cases consumed) (auto simp: holds_def fq_frames_def presents_def)
  with assms Pop pop show ?thesis by (auto intro: bounded_shrinks)
next
  case (AcquireWrite alloc)
  obtain f q1 where acq: "acquireFrameLocked alloc q = (f, q1)" by fastforce
  with assms AcquireWrite acquire_queue [OF acq] acquire_config [OF acq] show ?thesis
    by (auto simp: acquireWriteFrame_def intro: bounded_shrinks)
next
  case (RecycleWrite f)
  with assms show ?thesis by (cases f) (auto simp: recycleWriteFrame_def recycleFrame_def fq_bounded_def fq_config_def)
next
  case (PresentCost r g h)
  with assms show ?thesis by (auto simp: updatePresentCostMs_def fq_bounded_def fq_config_def)
next
  case Cleanup
  with assms show ?thesis by (auto simp: fq_cleanup_def Let_def resetLLFilterLocked_def fq_bounded_def fq_config_def)
qed

lemma run_bounded:
  "fq_run ops (q, t) = (ocs, q', t') \<Longrightarrow> fq_bounded q \<Longrightarrow> (\<forall>n fps own ll. Configure n fps own ll \<notin> set ops) \<Longrightarrow>
     fq_bounded q' \<and> fq_config q' = fq_config q"
proof (induction ops arbitrary: q t ocs)
  case (Cons op ops)
  obtain oc q1 t1 where e: "fq_exec op (q, t) = (oc, q1, t1)" by (metis prod_cases3)
  obtain ocs1 q2 t2 where r: "fq_run ops (q1, t1) = (ocs1, q2, t2)" by (metis prod_cases3)
  from exec_bounded [OF e] Cons.prems have q1: "fq_bounded q1" "fq_config q1 = fq_config q" by auto
  from e r Cons.prems have "fq_run ops (q1, t1) = (ocs1, q', t')" by auto
  from Cons.IH [OF this q1(1)] Cons.prems(3) q1(2) show ?case by auto
qed simp

lemma configure_limits:
  "fq_limit (fq_configure n fps own ll q) = capacityFor n" "fq_targetBufferedFrames (fq_configure n fps own ll q) \<le> 2"
  "fq_queue (fq_configure n fps own ll q) = fq_queue q"
  by (simp_all add: fq_configure_def Let_def resetLLFilterLocked_def capacityFor_def)

text \<open>
  C35: the queue never holds more than its capacity: from a queue configured for \<open>n\<close> frames while empty,
  whatever is pushed, popped or recycled, at most \<open>max n 1 + 5\<close> frames wait.
\<close>

theorem queue_within_capacity:
  assumes "fq_run ops (fq_configure n fps own ll FrameQueue_init, t) = (ocs, q, t')"
    and "\<forall>n fps own ll. Configure n fps own ll \<notin> set ops"
  shows "length (fq_queue q) \<le> capacityFor n \<and> fq_limit q = capacityFor n"
proof -
  let ?q0 = "fq_configure n fps own ll FrameQueue_init"
  have "fq_bounded ?q0" by (simp add: fq_bounded_def configure_limits FrameQueue_init_def)
  from run_bounded [OF assms(1) this assms(2)] configure_limits [of n fps own ll FrameQueue_init] show ?thesis
    by (auto simp: fq_bounded_def fq_config_def capacityFor_def kBurstHeadroomFrames_def)
qed

definition flood :: "nat \<Rightarrow> fq_op list" where
  "flood n = map (\<lambda>i. PushTransferred (Some i) (int i)) [0..<n]"

theorem queue_within_capacity_witness:
  "\<exists>ocs q t'. fq_run (flood 20) (fq_configure 1 60 True False FrameQueue_init, Telemetry_init) = (ocs, q, t') \<and> length (fq_queue q) \<le> 6"
proof -
  obtain ocs q t' where run: "fq_run (flood 20) (fq_configure 1 60 True False FrameQueue_init, Telemetry_init) = (ocs, q, t')"
    by (metis prod_cases3)
  from queue_within_capacity [OF run] have "length (fq_queue q) \<le> 6"
    by (auto simp: flood_def capacityFor_def kBurstHeadroomFrames_def)
  with run show ?thesis by blast
qed

section \<open>The low-latency path\<close>

lemma presentGateNs_min: "1500000 \<le> presentGateNs q"
proof -
  let ?l = "presentGateLeadMs (ll_renderP95Ms q) (ll_gpuSubmitP95Ms q) (ll_havePresentCost q)
       (Some (ll_jitterNs q / 1000000)) default_PresentDeadlineParams"
  have "3/2 \<le> ?l" using presentGateLeadMs_bounds by blast
  then have "1500000 \<le> max 0 ?l * 1000000" by simp
  then show ?thesis by (simp add: presentGateNs_def int_of_double_def le_floor_iff)
qed

text \<open>
  In the low-latency path \<open>pop\<close> always presents the newest frame and leaves nothing waiting, and
  it does so exactly when frames are piling up (more than the target depth behind the oldest) or the
  oldest frame's estimated time is within the lead of the present gate; that lead is at least 1.5 ms, so an
  oldest frame 1.5 ms before its time is always enough, however many frames have arrived since.
\<close>

theorem lowLatency_releases:
  assumes "fq_lowLatency q" "fq_queue q \<noteq> []" "fq_pop now t q = (shown, consumed, q', t')"
  shows "(consumed \<longleftrightarrow> length (fq_queue q) - 1 > fq_targetBufferedFrames q \<or>
            tf_timeEstimate (hd (fq_queue q)) - presentGateNs q \<le> now) \<and>
    (consumed \<longrightarrow> shown = Some (tf_frame (last (fq_queue q))) \<and> fq_queue q' = []) \<and>
    (\<not> consumed \<longrightarrow> shown = fq_bufferFrame q \<and> fq_queue q' = fq_queue q) \<and>
    (tf_timeEstimate (hd (fq_queue q)) - 1500000 \<le> now \<longrightarrow> consumed)"
proof -
  let ?q0 = "q\<lparr>fq_pushesSincePop := 0\<rparr>"
  let ?gate = "length (fq_queue q) - 1 > fq_targetBufferedFrames q \<or> tf_timeEstimate (hd (fq_queue q)) - presentGateNs q \<le> now"
  let ?p = "prepareLatestFrame tf_timeEstimate (fq_queue q) now (presentGateNs q) (fq_targetBufferedFrames q)"
  have same: "presentGateNs ?q0 = presentGateNs q" by (simp add: presentGateNs_def)
  have open_gate: "?p \<noteq> None \<longleftrightarrow> ?gate" using assms(2) by (auto simp: prepareLatestFrame_def Let_def)
  have pop: "pop_lowLatency now t ?q0 = (consumed, q', t')" and shown: "shown = fq_bufferFrame q'"
    using assms(1,3) by (auto simp: fq_pop_def Let_def split: prod.splits)
  have "consumed \<longleftrightarrow> ?p \<noteq> None"
    using pop assms(2) same pop_lowLatency_selects [OF pop] by (cases ?p) (auto simp: pop_lowLatency_def)
  moreover note pop_lowLatency_effect [OF pop]
  moreover have "last (fq_queue q) = fq_queue q ! (length (fq_queue q) - 1)" using assms(2) by (rule last_conv_nth)
  ultimately show ?thesis
    using open_gate shown assms(2) presentGateNs_min [of q] by (cases consumed) (auto simp: presents_def holds_def fq_frames_def)
qed

definition example_ll :: FrameQueue where
  "example_ll = (fq_configure 2 60 True True FrameQueue_init)\<lparr>fq_queue := [\<lparr>tf_timeEstimate = 1000000, tf_networkComplete = 0, tf_decodeDone = 0, tf_queued = 0, tf_frame = 3\<rparr>]\<rparr>"

theorem lowLatency_releases_witness:
  "\<exists>q' t'. fq_pop 0 Telemetry_init example_ll = (Some 3, True, q', t') \<and> fq_queue q' = []"
proof -
  obtain shown consumed q' t' where pop: "fq_pop 0 Telemetry_init example_ll = (shown, consumed, q', t')" by (metis prod_cases4)
  have "fq_lowLatency example_ll"
    by (simp add: example_ll_def fq_configure_def Let_def resetLLFilterLocked_def)
  moreover have q: "fq_queue example_ll = [\<lparr>tf_timeEstimate = 1000000, tf_networkComplete = 0, tf_decodeDone = 0, tf_queued = 0, tf_frame = 3\<rparr>]"
    by (simp add: example_ll_def)
  ultimately show ?thesis using lowLatency_releases [OF _ _ pop] pop by (auto simp: q)
qed

section \<open>The estimators stay in range\<close>

text \<open>
  The filter's state: an interval of at most a second, no shorter than that of 120% of the configured rate,
  a velocity of at most a fifth of it, and a jitter that is not negative.
\<close>

definition ll_in_range :: "FrameQueue \<Rightarrow> bool" where
  "ll_in_range q \<longleftrightarrow> ll_firstArrival q \<or>
     (0 < ll_smoothedIntervalNs q \<and> ll_smoothedIntervalNs q \<le> 1000000000 \<and>
      (fq_streamFps q > 0 \<longrightarrow> 1000000000 / (of_int (fq_streamFps q) * (12/10)) \<le> ll_smoothedIntervalNs q) \<and>
      \<bar>ll_intervalVelocityNs q\<bar> \<le> ll_smoothedIntervalNs q * (2/10) \<and> 0 \<le> ll_jitterNs q)"

lemma int_of_double_bounds: "0 \<le> x \<Longrightarrow> x \<le> of_int n \<Longrightarrow> 0 \<le> int_of_double x \<and> int_of_double x \<le> n"
  by (simp add: int_of_double_def floor_le_iff)

lemma clamp_double_abs: "0 \<le> l \<Longrightarrow> \<bar>clamp_double v (- l) l\<bar> \<le> l"
  by (auto simp: clamp_double_def)

lemma min_interval_le_second:
  assumes "(fps :: int) > 0"
  shows "(1000000000 :: double) / (of_int fps * (12/10)) \<le> 1000000000" "0 < (1000000000 :: double) / (of_int fps * (12/10))"
    "(1000000000 :: double) / (of_int fps * (12/10)) \<le> 1000000000 / of_int fps" "(1000000000 :: double) / of_int fps \<le> 1000000000"
proof -
  have "1 \<le> (of_int fps :: double)" using assms by simp
  then show "(1000000000 :: double) / (of_int fps * (12/10)) \<le> 1000000000" "0 < (1000000000 :: double) / (of_int fps * (12/10))"
    "(1000000000 :: double) / (of_int fps * (12/10)) \<le> 1000000000 / of_int fps" "(1000000000 :: double) / of_int fps \<le> 1000000000"
    by (auto simp: divide_simps)
qed

text \<open>
  The low-latency filter is stable: with a clock that does not run backwards, whatever the arrival
  times, its interval stays between that of 120% of the configured rate and one second, its velocity
  within a fifth of it, its jitter is never negative, and the estimate for the next frame is never in the past
  and at most one second away.
\<close>

theorem updateLLFilter_stable:
  assumes "ll_in_range q" "ll_lastArrival q \<le> now" "updateLLFilterLocked now q = (est, q')"
  shows "ll_in_range q' \<and> \<not> ll_firstArrival q' \<and> ll_lastArrival q' = now \<and> now \<le> est \<and> est \<le> now + 1000000000"
proof (cases "ll_firstArrival q")
  case True
  define s :: double where "s = (if fq_streamFps q > 0 then 1000000000 / of_int (fq_streamFps q) else 1000000000 / 60)"
  have s: "0 < s" "s \<le> 1000000000" "fq_streamFps q > 0 \<longrightarrow> 1000000000 / (of_int (fq_streamFps q) * (12/10)) \<le> s"
    using min_interval_le_second [of "fq_streamFps q"] by (auto simp: s_def)
  have "updateLLFilterLocked now q = (now + int_of_double s, q\<lparr>ll_firstArrival := False, ll_lastArrival := now,
      ll_smoothedIntervalNs := s, ll_intervalVelocityNs := 0, ll_jitterNs := s * (1/10)\<rparr>)"
    using True unfolding updateLLFilterLocked_def Let_def s_def by simp
  with s assms(3) int_of_double_bounds [of s 1000000000] show ?thesis by (auto simp: ll_in_range_def)
next
  case False
  then have r: "0 < ll_smoothedIntervalNs q" "\<bar>ll_intervalVelocityNs q\<bar> \<le> ll_smoothedIntervalNs q * (2/10)" "0 \<le> ll_jitterNs q"
    using assms(1) by (auto simp: ll_in_range_def)
  define m :: double where "m = of_int (now - ll_lastArrival q)"
  define p where "p = ll_smoothedIntervalNs q + ll_intervalVelocityNs q"
  define a where "a = (if \<bar>m - p\<bar> > p * (1/2) then kLL_FastAlpha else kLL_Alpha)"
  define s0 where "s0 = p + a * (m - p)"
  define s where "s = min (if fq_streamFps q > 0 then max s0 (1000000000 / (of_int (fq_streamFps q) * (12/10))) else s0) 1000000000"
  have "0 \<le> m" using assms(2) by (simp add: m_def)
  have "0 < p" using r by (simp add: p_def abs_le_iff)
  have a: "0 < a" "a < 1" by (simp_all add: a_def kLL_FastAlpha_def kLL_Alpha_def)
  have "s0 = (1 - a) * p + a * m" by (simp add: s0_def algebra_simps)
  moreover have "0 < (1 - a) * p" "0 \<le> a * m" using a \<open>0 < p\<close> \<open>0 \<le> m\<close> by simp_all
  ultimately have "0 < s0" by linarith
  then have s: "0 < s" "s \<le> 1000000000" "fq_streamFps q > 0 \<longrightarrow> 1000000000 / (of_int (fq_streamFps q) * (12/10)) \<le> s"
    using min_interval_le_second [of "fq_streamFps q"] by (auto simp: s_def)
  define v where "v = clamp_double (ll_intervalVelocityNs q + a * a / (2 - a) * (m - p)) (- (s * (2/10))) (s * (2/10))"
  define j where "j = ll_jitterNs q * (1 - kLL_Alpha) + \<bar>m - p\<bar> * kLL_Alpha"
  have "updateLLFilterLocked now q = (now + int_of_double s, q\<lparr>ll_lastArrival := now, ll_smoothedIntervalNs := s,
      ll_intervalVelocityNs := v, ll_jitterNs := j\<rparr>)"
    using False unfolding updateLLFilterLocked_def Let_def m_def p_def a_def s0_def s_def v_def j_def by simp
  moreover have "\<bar>v\<bar> \<le> s * (2/10)" unfolding v_def by (rule clamp_double_abs) (use s in simp)
  moreover have "0 \<le> j" using r(3) by (simp add: j_def kLL_Alpha_def)
  ultimately show ?thesis
    using s assms(3) False int_of_double_bounds [of s 1000000000] by (auto simp: ll_in_range_def)
qed

theorem updateLLFilter_stable_witness:
  "\<exists>est q'. updateLLFilterLocked 5 example_ll = (est, q') \<and> ll_in_range q' \<and> 5 \<le> est \<and> est \<le> 1000000005"
proof -
  obtain est q' where u: "updateLLFilterLocked 5 example_ll = (est, q')" by fastforce
  have "ll_in_range example_ll" "ll_lastArrival example_ll \<le> 5"
    by (simp_all add: ll_in_range_def example_ll_def fq_configure_def Let_def resetLLFilterLocked_def)
  from updateLLFilter_stable [OF this u] u show ?thesis by auto
qed

text \<open>The estimated source rate stays between 1 and the configured rate, and its interval is positive.\<close>

definition rate_in_range :: "FrameQueue \<Rightarrow> bool" where
  "rate_in_range q \<longleftrightarrow> fq_arrivalRateSamples q = 0 \<or>
     (1 \<le> fq_estimatedSourceFps q \<and> fq_estimatedSourceFps q \<le> maximumFps q)"

lemma maximumFps_ge_1: "1 \<le> maximumFps q"
  by (simp add: maximumFps_def)

lemma recordArrival_sample_range:
  assumes "rate_in_range q"
  shows "rate_in_range (recordArrival_sample elapsed q)"
proof -
  let ?x = "clamp_double (of_nat (fq_arrivalWindowFrames q - 1) / (of_int elapsed / 1000000000)) 1 (maximumFps q)"
  have x: "1 \<le> ?x" "?x \<le> maximumFps q" using clamp_double_bounds [OF maximumFps_ge_1] by blast+
  have "1 \<le> e * (1 - 35/100) + x * (35/100) \<and> e * (1 - 35/100) + x * (35/100) \<le> m"
    if "1 \<le> e" "e \<le> m" "1 \<le> x" "x \<le> m" for e x m :: double
    using that by (auto simp: field_simps)
  from this [of "fq_estimatedSourceFps q" "maximumFps q" ?x] x assms show ?thesis
    by (auto simp: rate_in_range_def recordArrival_sample_def Let_def kArrivalRateSmoothing_def maximumFps_def)
qed

lemma rate_in_range_updates [simp]:
  "rate_in_range (q\<lparr>fq_arrivalWindowStart := a\<rparr>) = rate_in_range q" "rate_in_range (q\<lparr>fq_lastArrival := a\<rparr>) = rate_in_range q"
  "rate_in_range (q\<lparr>fq_arrivalWindowFrames := n\<rparr>) = rate_in_range q" "rate_in_range (q\<lparr>fq_arrivalClockStarted := b\<rparr>) = rate_in_range q"
  by (simp_all add: rate_in_range_def maximumFps_def)

lemma recordArrival_range: "rate_in_range q \<Longrightarrow> rate_in_range (recordArrivalLocked now q)"
  by (simp add: recordArrivalLocked_def Let_def recordArrival_sample_range)

end
