(* ===== verification/TailscaleControlCodec.thy ===== *)
theory TailscaleControlCodec
  imports TailscaleHttp TailscalePeerDirectory Interfaces
begin

text \<open>
  Model of \<open>app/src/remote_access/tailscale/TailscaleControlCodec.hpp\<close> and \<open>.cpp\<close>: the decoding of the network map the control
  server streams (peers, deltas, relay map) and the length-prefixed framing of its messages.  The typed keys are in
  \<open>TailscaleHttp\<close>.

  The JSON library is not part of the sources.  A parsed value is of an arbitrary type, and what the code asks of the
  library is the \<open>JsonApi\<close> argument: type tests, lookup, array elements, object members, and the typed accessors
  \<open>value(key, default)\<close>, which throw where the member has another type (\<open>None\<close>).  Nothing in the
  sources catches that exception, so an outcome is a value, a rejection with the error text (empty where none is
  set), or \<open>Threw\<close>.  An \<open>unordered_map\<close> is an association list.
\<close>

section \<open>Values and outcomes\<close>

record 'j JsonApi =
  js_parse :: "string \<Rightarrow> 'j option"
  js_is_object :: "'j \<Rightarrow> bool"
  js_is_array :: "'j \<Rightarrow> bool"
  js_is_string :: "'j \<Rightarrow> bool"
  js_is_boolean :: "'j \<Rightarrow> bool"
  js_is_null :: "'j \<Rightarrow> bool"
  js_is_number_unsigned :: "'j \<Rightarrow> bool"
  js_find :: "'j \<Rightarrow> string \<Rightarrow> 'j option"
  js_elements :: "'j \<Rightarrow> 'j list"
  js_items :: "'j \<Rightarrow> (string \<times> 'j) list"
  js_string :: "'j \<Rightarrow> string"
  js_u64 :: "'j \<Rightarrow> nat"
  js_bool :: "'j \<Rightarrow> bool"
  js_value_string :: "'j \<Rightarrow> string \<Rightarrow> string \<Rightarrow> string option"
  js_value_u64 :: "'j \<Rightarrow> string \<Rightarrow> nat \<Rightarrow> nat option"
  js_value_int :: "'j \<Rightarrow> string \<Rightarrow> int \<Rightarrow> int option"
  js_value_bool :: "'j \<Rightarrow> string \<Rightarrow> bool \<Rightarrow> bool option"

datatype 'a outcome = Value 'a | Rejected string | Threw

fun andThen :: "'a outcome \<Rightarrow> ('a \<Rightarrow> 'b outcome) \<Rightarrow> 'b outcome" where
  "andThen (Value a) f = f a"
| "andThen (Rejected e) f = Rejected e"
| "andThen Threw f = Threw"

definition accessed :: "'a option \<Rightarrow> 'a outcome" where
  "accessed v = (case v of None \<Rightarrow> Threw | Some a \<Rightarrow> Value a)"

text \<open>\<open>find\<close> of a member that must be an array or an object; \<open>None\<close> where it is absent or of another type.\<close>

definition find_array :: "'j JsonApi \<Rightarrow> 'j \<Rightarrow> string \<Rightarrow> 'j list option" where
  "find_array api root key =
     (case js_find api root key of None \<Rightarrow> None | Some v \<Rightarrow> if js_is_array api v then Some (js_elements api v) else None)"

definition find_object :: "'j JsonApi \<Rightarrow> 'j \<Rightarrow> string \<Rightarrow> 'j option" where
  "find_object api root key =
     (case js_find api root key of None \<Rightarrow> None | Some v \<Rightarrow> if js_is_object api v then Some v else None)"

record DerpNode =
  derp_host :: string
  derp_port :: u16
  derp_stunPort :: u16

record DerpRegion =
  regionId :: int
  regionCode :: string
  derp_nodes :: "DerpNode list"

section \<open>Peers\<close>

definition stripPrefix :: "string \<Rightarrow> string" where
  "stripPrefix address = fst (cut (CHR ''/'') address)"

definition kMaxServices :: nat where
  "kMaxServices = 256"

definition service_port :: "'j JsonApi \<Rightarrow> 'j \<Rightarrow> u16 option" where
  "service_port api service =
     (if \<not> js_is_object api service then None
      else (case (js_find api service ''Proto'', js_find api service ''Port'') of
              (Some proto, Some port) \<Rightarrow>
                if \<not> js_is_string api proto \<or> js_string api proto \<noteq> ''tcp'' \<or> \<not> js_is_number_unsigned api port then None
                else if js_u64 api port = 0 \<or> js_u64 api port > 65535 then None
                else Some (word_of_nat (js_u64 api port))
            | _ \<Rightarrow> None))"

fun service_loop :: "'j JsonApi \<Rightarrow> 'j list \<Rightarrow> u16 list \<Rightarrow> u16 list" where
  "service_loop api [] ports = ports"
| "service_loop api (service # rest) ports =
     (if length ports \<ge> kMaxServices then ports
      else service_loop api rest
        (case service_port api service of
           None \<Rightarrow> ports
         | Some tcpPort \<Rightarrow> if tcpPort \<in> set ports then ports else ports @ [tcpPort]))"

definition parseHostinfo :: "'j JsonApi \<Rightarrow> 'j \<Rightarrow> Peer \<Rightarrow> Peer" where
  "parseHostinfo api node peer =
     (case find_object api node ''Hostinfo'' of
        None \<Rightarrow> peer
      | Some hostinfo \<Rightarrow>
          let peer1 = (case js_find api hostinfo ''OS'' of
                         None \<Rightarrow> peer
                       | Some os \<Rightarrow> if js_is_string api os then peer\<lparr>peer_os := map tolower (take 32 (js_string api os))\<rparr> else peer)
          in case find_array api hostinfo ''Services'' of
               None \<Rightarrow> peer1
             | Some services \<Rightarrow>
                 peer1\<lparr>servicesKnown := True, tcpServicePorts := service_loop api services (tcpServicePorts peer1)\<rparr>)"

definition address_texts :: "'j JsonApi \<Rightarrow> 'j list \<Rightarrow> string list" where
  "address_texts api vs = map (\<lambda>v. stripPrefix (js_string api v)) (filter (js_is_string api) vs)"

text \<open>The loop over \<open>AllowedIPs\<close> when the peer has addresses of its own: a bounded set of subnet routes.\<close>

fun allowed_loop :: "'j JsonApi \<Rightarrow> string list \<Rightarrow> 'j list \<Rightarrow> string list \<Rightarrow> string list" where
  "allowed_loop api own [] subnets = subnets"
| "allowed_loop api own (v # vs) subnets =
     (if \<not> js_is_string api v then allowed_loop api own vs subnets
      else if length subnets \<ge> kMaxAllowedIPsPerPeer then subnets
      else if isRoutableIPv4Subnet (js_string api v) own then allowed_loop api own vs (subnets @ [js_string api v])
      else allowed_loop api own vs subnets)"

definition parseEndpointText :: "string \<Rightarrow> Endpoint option" where
  "parseEndpointText endpointText =
     (case rcut (CHR '':'') endpointText of
        None \<Rightarrow> None
      | Some (host, portText) \<Rightarrow>
          (case from_chars_unsigned portText of
             None \<Rightarrow> None
           | Some (port, rest) \<Rightarrow>
               if rest \<noteq> [] \<or> port = 0 \<or> port > 65535 \<or> \<not> isLiteralIPv4 host then None
               else Some \<lparr>endpoint_address = host, endpoint_port = word_of_nat port, endpoint_type = EndpointLocal,
                          discoveredAt = 0, lastValidatedAt = 0\<rparr>))"

definition endpoint_list :: "'j JsonApi \<Rightarrow> 'j list \<Rightarrow> Endpoint list" where
  "endpoint_list api vs = List.map_filter (\<lambda>v. if js_is_string api v then parseEndpointText (js_string api v) else None) vs"

text \<open>The region in the legacy \<open>DERP\<close> field, \<open>127.3.3.40:n\<close>.\<close>

definition legacyHomeDerp :: "string \<Rightarrow> int" where
  "legacyHomeDerp legacy =
     (case rcut (CHR '':'') legacy of
        None \<Rightarrow> 0
      | Some (_, region) \<Rightarrow> (case from_chars_int region of None \<Rightarrow> 0 | Some (v, _) \<Rightarrow> v))"

definition empty_Peer :: Peer where
  "empty_Peer = \<lparr>stableId = [], peer_nodeKey = replicate 32 0, peer_discoKey = replicate 32 0, peer_hostname = [],
     addresses = [], allowedIPs = [], endpoints = [], homeDerp = 0, online = False, peer_os = [], tcpServicePorts = [],
     servicesKnown = False\<rparr>"

definition parsePeer_keys :: "'j JsonApi \<Rightarrow> 'j \<Rightarrow> Peer \<Rightarrow> Peer outcome" where
  "parsePeer_keys api node peer =
     andThen (accessed (js_value_string api node ''Key'' [])) (\<lambda>keyText.
       case decodeTypedKey keyText ''nodekey:'' of
         None \<Rightarrow> Rejected ''netmap peer has an invalid node key''
       | Some key \<Rightarrow>
           andThen (accessed (js_value_string api node ''DiscoKey'' [])) (\<lambda>discoText.
             if discoText = [] then Value (peer\<lparr>peer_nodeKey := key\<rparr>)
             else (case decodeTypedKey discoText ''discokey:'' of
                     None \<Rightarrow> Rejected ''netmap peer has an invalid disco key''
                   | Some disco \<Rightarrow> Value (peer\<lparr>peer_nodeKey := key, peer_discoKey := disco\<rparr>))))"

definition parsePeer_addresses :: "'j JsonApi \<Rightarrow> 'j \<Rightarrow> Peer \<Rightarrow> Peer outcome" where
  "parsePeer_addresses api node peer =
     (case find_array api node ''Addresses'' of
        None \<Rightarrow> Value peer
      | Some vs \<Rightarrow>
          if length vs > 32 then Rejected ''netmap peer address limit exceeded''
          else Value (peer\<lparr>addresses := addresses peer @ address_texts api vs\<rparr>))"

definition parsePeer_allowed :: "'j JsonApi \<Rightarrow> 'j \<Rightarrow> Peer \<Rightarrow> Peer outcome" where
  "parsePeer_allowed api node peer =
     (case find_array api node ''AllowedIPs'' of
        None \<Rightarrow> Value peer
      | Some vs \<Rightarrow>
          if addresses peer = [] then
            if length vs > 32 then Rejected ''netmap peer address limit exceeded''
            else Value (peer\<lparr>addresses := address_texts api vs\<rparr>)
          else Value (peer\<lparr>allowedIPs := allowed_loop api (addresses peer) vs (allowedIPs peer)\<rparr>))"

definition parsePeer_endpoints :: "'j JsonApi \<Rightarrow> 'j \<Rightarrow> Peer \<Rightarrow> Peer outcome" where
  "parsePeer_endpoints api node peer =
     (case find_array api node ''Endpoints'' of
        None \<Rightarrow> Value peer
      | Some vs \<Rightarrow>
          if length vs > kMaxEndpointsPerPeer then Rejected ''netmap peer endpoint limit exceeded''
          else Value (peer\<lparr>endpoints := endpoints peer @ endpoint_list api vs\<rparr>))"

definition parsePeer_presence :: "'j JsonApi \<Rightarrow> 'j \<Rightarrow> Peer \<Rightarrow> Peer outcome" where
  "parsePeer_presence api node peer =
     andThen (accessed (js_value_int api node ''HomeDERP'' 0)) (\<lambda>home.
       andThen (if home = 0 then andThen (accessed (js_value_string api node ''DERP'' [])) (\<lambda>legacy. Value (legacyHomeDerp legacy))
                else Value home) (\<lambda>home'.
         andThen (accessed (js_value_bool api node ''Online'' False)) (\<lambda>on.
           Value (parseHostinfo api node (peer\<lparr>homeDerp := home', online := on\<rparr>)))))"

type_synonym id_map = "(nat \<times> string) list"

definition parsePeer :: "'j JsonApi \<Rightarrow> 'j \<Rightarrow> id_map \<Rightarrow> (Peer \<times> id_map) outcome" where
  "parsePeer api node idMap =
     (if \<not> js_is_object api node then Rejected ''netmap peer is not an object''
      else
        andThen (accessed (js_value_string api node ''StableID'' [])) (\<lambda>sid.
        andThen (accessed (js_value_u64 api node ''ID'' 0)) (\<lambda>nodeId.
          if sid = [] then Rejected ''netmap peer has no stable identity''
          else
            andThen (accessed (js_value_string api node ''Name'' [])) (\<lambda>name.
            andThen (parsePeer_keys api node (empty_Peer\<lparr>stableId := sid, peer_hostname := name\<rparr>)) (\<lambda>p1.
            andThen (parsePeer_addresses api node p1) (\<lambda>p2.
            andThen (parsePeer_allowed api node p2) (\<lambda>p3.
            andThen (parsePeer_endpoints api node p3) (\<lambda>p4.
            andThen (parsePeer_presence api node p4) (\<lambda>peer.
              Value (peer, if nodeId \<noteq> 0 then AList.update nodeId (stableId peer) idMap else idMap))))))))))"

section \<open>Local address and relay map\<close>

fun first_local :: "'j JsonApi \<Rightarrow> 'j list \<Rightarrow> string" where
  "first_local api [] = []"
| "first_local api (v # vs) =
     (if \<not> js_is_string api v then first_local api vs
      else if isLiteralIPv4 (stripPrefix (js_string api v)) then stripPrefix (js_string api v)
      else first_local api vs)"

definition localAddressFromNode :: "'j JsonApi \<Rightarrow> 'j \<Rightarrow> string" where
  "localAddressFromNode api root =
     (case find_object api root ''Node'' of
        None \<Rightarrow> []
      | Some node \<Rightarrow> (case find_array api node ''Addresses'' of None \<Rightarrow> [] | Some vs \<Rightarrow> first_local api vs))"

definition kMaxDerpRegions :: nat where
  "kMaxDerpRegions = 64"

definition kMaxDerpNodesPerRegion :: nat where
  "kMaxDerpNodesPerRegion = 16"

text \<open>
  \<open>char\<close> is signed on some targets and unsigned on others (it is unsigned on the console), and the comparison
  with the blank depends on it: \<open>charSigned\<close> is the target's choice.
\<close>

definition plausible_char :: "bool \<Rightarrow> char \<Rightarrow> bool" where
  "plausible_char charSigned c =
     (\<not> (cval c \<le> 32 \<or> (charSigned \<and> cval c \<ge> 128)) \<and> cval c \<noteq> 127 \<and> c \<notin> {CHR ''/'', CHR '':'', CHR ''@''})"

definition isPlausibleHostname :: "bool \<Rightarrow> string \<Rightarrow> bool" where
  "isPlausibleHostname charSigned host =
     (if host = [] \<or> length host > 253 then False else list_all (plausible_char charSigned) host)"

text \<open>One element of \<open>Nodes\<close>: \<open>None\<close> where the loop continues with the next one.\<close>

definition parseDerpNode :: "bool \<Rightarrow> 'j JsonApi \<Rightarrow> 'j \<Rightarrow> DerpNode option outcome" where
  "parseDerpNode charSigned api node =
     (if \<not> js_is_object api node then Value None
      else
        andThen (accessed (js_value_string api node ''HostName'' [])) (\<lambda>name.
        andThen (if name = [] then accessed (js_value_string api node ''IPv4'' []) else Value name) (\<lambda>host.
          if \<not> isPlausibleHostname charSigned host then Value None
          else
            andThen (accessed (js_value_int api node ''DERPPort'' 443)) (\<lambda>port.
              if port \<le> 0 \<or> port > 65535 then Value None
              else
                andThen (accessed (js_value_int api node ''STUNPort'' 0)) (\<lambda>stunPort.
                andThen (accessed (js_value_bool api node ''STUNOnly'' False)) (\<lambda>stunOnly.
                  if stunOnly then Value None
                  else Value (Some \<lparr>derp_host = host, derp_port = word_of_int port,
                    derp_stunPort = (if stunPort < 0 \<or> stunPort > 65535 then 0
                                     else word_of_int (if stunPort = 0 then 3478 else stunPort))\<rparr>)))))))"

fun derp_node_loop :: "bool \<Rightarrow> 'j JsonApi \<Rightarrow> 'j list \<Rightarrow> DerpNode list \<Rightarrow> DerpNode list outcome" where
  "derp_node_loop charSigned api [] out = Value out"
| "derp_node_loop charSigned api (node # rest) out =
     (if length out \<ge> kMaxDerpNodesPerRegion then Value out
      else andThen (parseDerpNode charSigned api node) (\<lambda>n.
             derp_node_loop charSigned api rest (case n of None \<Rightarrow> out | Some d \<Rightarrow> out @ [d])))"

text \<open>The region number in the member's name, where \<open>RegionID\<close> is 0.\<close>

definition regionIdFromKey :: "string \<Rightarrow> int" where
  "regionIdFromKey key =
     (case from_chars_unsigned key of
        None \<Rightarrow> 0
      | Some (parsed, rest) \<Rightarrow> if rest = [] \<and> parsed > 0 \<and> parsed \<le> 2147483647 then int parsed else 0)"

definition parseDerpRegion :: "bool \<Rightarrow> 'j JsonApi \<Rightarrow> string \<Rightarrow> 'j \<Rightarrow> DerpRegion option outcome" where
  "parseDerpRegion charSigned api key region =
     (if \<not> js_is_object api region then Value None
      else
        andThen (accessed (js_value_int api region ''RegionID'' 0)) (\<lambda>rid.
          let ident = (if rid = 0 then regionIdFromKey key else rid) in
          if ident \<le> 0 then Value None
          else
            andThen (accessed (js_value_string api region ''RegionCode'' [])) (\<lambda>code.
            andThen (case find_array api region ''Nodes'' of None \<Rightarrow> Value [] | Some ns \<Rightarrow> derp_node_loop charSigned api ns [])
              (\<lambda>ns. if ns = [] then Value None else Value (Some \<lparr>regionId = ident, regionCode = code, derp_nodes = ns\<rparr>)))))"

fun derp_region_loop :: "bool \<Rightarrow> 'j JsonApi \<Rightarrow> (string \<times> 'j) list \<Rightarrow> DerpRegion list \<Rightarrow> DerpRegion list outcome" where
  "derp_region_loop charSigned api [] out = Value out"
| "derp_region_loop charSigned api ((key, region) # rest) out =
     andThen (parseDerpRegion charSigned api key region) (\<lambda>r.
       derp_region_loop charSigned api rest (case r of None \<Rightarrow> out | Some d \<Rightarrow> out @ [d]))"

definition parseDerpMap :: "bool \<Rightarrow> 'j JsonApi \<Rightarrow> 'j \<Rightarrow> DerpRegion list outcome" where
  "parseDerpMap charSigned api root =
     (case js_find api root ''DERPMap'' of
        None \<Rightarrow> Rejected []
      | Some derpMap \<Rightarrow>
          if js_is_null api derpMap then Rejected []
          else if \<not> js_is_object api derpMap then Rejected ''netmap DERPMap is not an object''
          else (case js_find api derpMap ''Regions'' of
                  None \<Rightarrow> Rejected []
                | Some regions \<Rightarrow>
                    if js_is_null api regions then Rejected []
                    else if \<not> js_is_object api regions then Rejected ''netmap DERPMap.Regions is not an object''
                    else if length (js_items api regions) > kMaxDerpRegions then Rejected ''netmap DERP region limit exceeded''
                    else derp_region_loop charSigned api (js_items api regions) []))"

section \<open>Updates\<close>

record MapUpdate =
  keepAlive :: bool
  localAddress :: string
  fullPeers :: "Peer list option"
  update_delta :: PeerDelta
  update_derpMap :: "DerpRegion list option"

definition empty_MapUpdate :: MapUpdate where
  "empty_MapUpdate = \<lparr>keepAlive = False, localAddress = [], fullPeers = None,
     update_delta = \<lparr>changed = [], removedStableIds = [], onlineChanges = []\<rparr>, update_derpMap = None\<rparr>"

record MapCodec =
  stableIdsByNodeId :: id_map

definition kMaxMapFrameSize :: nat where
  "kMaxMapFrameSize = 8 * 1024 * 1024"

fun peer_loop :: "'j JsonApi \<Rightarrow> 'j list \<Rightarrow> id_map \<Rightarrow> (Peer list \<times> id_map) outcome" where
  "peer_loop api [] idMap = Value ([], idMap)"
| "peer_loop api (node # rest) idMap =
     andThen (parsePeer api node idMap) (\<lambda>(peer, idMap').
       andThen (peer_loop api rest idMap') (\<lambda>(ps, idMap''). Value (peer # ps, idMap'')))"

fun removed_loop :: "'j JsonApi \<Rightarrow> 'j list \<Rightarrow> id_map \<Rightarrow> string list \<times> id_map" where
  "removed_loop api [] idMap = ([], idMap)"
| "removed_loop api (v # vs) idMap =
     (if \<not> js_is_number_unsigned api v then removed_loop api vs idMap
      else (case map_of idMap (js_u64 api v) of
              None \<Rightarrow> removed_loop api vs idMap
            | Some sid \<Rightarrow>
                (case removed_loop api vs (AList.delete (js_u64 api v) idMap) of (sids, idMap') \<Rightarrow> (sid # sids, idMap'))))"

definition patch_change :: "'j JsonApi \<Rightarrow> id_map \<Rightarrow> 'j \<Rightarrow> PeerOnlineChange option" where
  "patch_change api idMap patch =
     (if \<not> js_is_object api patch then None
      else (case (js_find api patch ''NodeID'', js_find api patch ''Online'') of
              (Some nodeId, Some on) \<Rightarrow>
                if \<not> js_is_number_unsigned api nodeId \<or> \<not> js_is_boolean api on then None
                else (case map_of idMap (js_u64 api nodeId) of
                        None \<Rightarrow> None
                      | Some sid \<Rightarrow> Some \<lparr>change_stableId = sid, change_online = js_bool api on\<rparr>)
            | _ \<Rightarrow> None))"

text \<open>The sections of \<open>MapCodec::decode\<close>, in the order of the code; the ID map is the copy being built.\<close>

definition decode_derp :: "bool \<Rightarrow> 'j JsonApi \<Rightarrow> 'j \<Rightarrow> MapUpdate \<Rightarrow> MapUpdate outcome" where
  "decode_derp charSigned api root update =
     (case js_find api root ''DERPMap'' of
        None \<Rightarrow> Value update
      | Some derpMap \<Rightarrow>
          if js_is_null api derpMap then Value update
          else andThen (parseDerpMap charSigned api root) (\<lambda>regions. Value (update\<lparr>update_derpMap := Some regions\<rparr>)))"

definition decode_peers :: "'j JsonApi \<Rightarrow> 'j \<Rightarrow> MapUpdate \<times> id_map \<Rightarrow> (MapUpdate \<times> id_map) outcome" where
  "decode_peers api root st =
     (case find_array api root ''Peers'' of
        None \<Rightarrow> Value st
      | Some vs \<Rightarrow>
          if length vs > kMaxPeers then Rejected ''netmap peer limit exceeded''
          else andThen (peer_loop api vs []) (\<lambda>(full, idMap). Value ((fst st)\<lparr>fullPeers := Some full\<rparr>, idMap)))"

definition decode_changed :: "'j JsonApi \<Rightarrow> 'j \<Rightarrow> MapUpdate \<times> id_map \<Rightarrow> (MapUpdate \<times> id_map) outcome" where
  "decode_changed api root st =
     (case find_array api root ''PeersChanged'' of
        None \<Rightarrow> Value st
      | Some vs \<Rightarrow>
          if length vs > kMaxPeers then Rejected ''netmap peer delta limit exceeded''
          else andThen (peer_loop api vs (snd st)) (\<lambda>(ps, idMap).
                 Value ((fst st)\<lparr>update_delta := (update_delta (fst st))\<lparr>changed := changed (update_delta (fst st)) @ ps\<rparr>\<rparr>, idMap)))"

definition decode_removed :: "'j JsonApi \<Rightarrow> 'j \<Rightarrow> MapUpdate \<times> id_map \<Rightarrow> (MapUpdate \<times> id_map) outcome" where
  "decode_removed api root st =
     (case find_array api root ''PeersRemoved'' of
        None \<Rightarrow> Value st
      | Some vs \<Rightarrow>
          if length vs > kMaxPeers then Rejected ''netmap peer removal limit exceeded''
          else (case removed_loop api vs (snd st) of (sids, idMap) \<Rightarrow>
                 Value ((fst st)\<lparr>update_delta := (update_delta (fst st))\<lparr>removedStableIds :=
                   removedStableIds (update_delta (fst st)) @ sids\<rparr>\<rparr>, idMap)))"

definition decode_patches :: "'j JsonApi \<Rightarrow> 'j \<Rightarrow> MapUpdate \<times> id_map \<Rightarrow> (MapUpdate \<times> id_map) outcome" where
  "decode_patches api root st =
     (case find_array api root ''PeersChangedPatch'' of
        None \<Rightarrow> Value st
      | Some vs \<Rightarrow>
          if length vs > kMaxPeers then Rejected ''netmap peer patch limit exceeded''
          else Value ((fst st)\<lparr>update_delta := (update_delta (fst st))\<lparr>onlineChanges :=
                 onlineChanges (update_delta (fst st)) @ List.map_filter (patch_change api (snd st)) vs\<rparr>\<rparr>, snd st))"

definition decode_sections :: "bool \<Rightarrow> 'j JsonApi \<Rightarrow> 'j \<Rightarrow> id_map \<Rightarrow> MapUpdate \<Rightarrow> (MapUpdate \<times> id_map) outcome" where
  "decode_sections charSigned api root idMap update =
     andThen (decode_derp charSigned api root (update\<lparr>localAddress := localAddressFromNode api root\<rparr>)) (\<lambda>u.
     andThen (decode_peers api root (u, idMap)) (\<lambda>s1.
     andThen (decode_changed api root s1) (\<lambda>s2.
     andThen (decode_removed api root s2) (\<lambda>s3.
       decode_patches api root s3))))"

definition MapCodec_decode :: "bool \<Rightarrow> 'j JsonApi \<Rightarrow> string \<Rightarrow> MapCodec \<Rightarrow> MapUpdate outcome \<times> MapCodec" where
  "MapCodec_decode charSigned api json mc =
     (if length json > kMaxMapFrameSize then (Rejected ''netmap JSON is oversized'', mc)
      else (case js_parse api json of
              None \<Rightarrow> (Rejected ''invalid netmap JSON'', mc)
            | Some root \<Rightarrow>
                if \<not> js_is_object api root then (Rejected ''invalid netmap JSON'', mc)
                else (case js_value_bool api root ''KeepAlive'' False of
                        None \<Rightarrow> (Threw, mc)
                      | Some True \<Rightarrow> (Value (empty_MapUpdate\<lparr>keepAlive := True\<rparr>), mc)
                      | Some False \<Rightarrow>
                          (case decode_sections charSigned api root (stableIdsByNodeId mc) empty_MapUpdate of
                             Value (update, nextIdMap) \<Rightarrow> (Value update, mc\<lparr>stableIdsByNodeId := nextIdMap\<rparr>)
                           | Rejected e \<Rightarrow> (Rejected e, mc)
                           | Threw \<Rightarrow> (Threw, mc)))))"

section \<open>Framing\<close>

record MapFrameDecoder =
  mfd_buffer :: bytes

definition MapFrameDecoder_append :: "bytes \<Rightarrow> MapFrameDecoder \<Rightarrow> bool \<times> MapFrameDecoder" where
  "MapFrameDecoder_append bs d =
     (if length bs > kMaxMapFrameSize + 4 \<or> length (mfd_buffer d) > kMaxMapFrameSize + 4 - length bs
      then (False, d\<lparr>mfd_buffer := []\<rparr>)
      else (True, d\<lparr>mfd_buffer := mfd_buffer d @ bs\<rparr>))"

definition le32_size :: "bytes \<Rightarrow> u32" where
  "le32_size b = ucast (b ! 0) OR push_bit 8 (ucast (b ! 1)) OR push_bit 16 (ucast (b ! 2)) OR push_bit 24 (ucast (b ! 3))"

definition MapFrameDecoder_take :: "MapFrameDecoder \<Rightarrow> string option \<times> MapFrameDecoder" where
  "MapFrameDecoder_take d =
     (if length (mfd_buffer d) < 4 then (None, d)
      else
        let n = unat (le32_size (mfd_buffer d)) in
        if n > kMaxMapFrameSize then (None, d\<lparr>mfd_buffer := []\<rparr>)
        else if length (mfd_buffer d) < n + 4 then (None, d)
        else (Some (string_of_bytes (take n (drop 4 (mfd_buffer d)))), d\<lparr>mfd_buffer := drop (4 + n) (mfd_buffer d)\<rparr>))"

section \<open>What an accepted peer satisfies\<close>

lemma andThen_Value_iff [simp]: "andThen m f = Value b \<longleftrightarrow> (\<exists>a. m = Value a \<and> f a = Value b)"
  by (cases m) auto

lemma accessed_Value_iff [simp]: "accessed v = Value a \<longleftrightarrow> v = Some a"
  by (auto simp: accessed_def split: option.split)

lemma rejecting_if_iff: "(if c then Rejected e else m) = Value b \<longleftrightarrow> \<not> c \<and> m = Value b"
  by auto

lemma rejecting_case_iff: "(case v of None \<Rightarrow> Rejected e | Some x \<Rightarrow> f x) = Value b \<longleftrightarrow> (\<exists>x. v = Some x \<and> f x = Value b)"
  by (cases v) auto

lemma skipping_if_iff: "(if c then Value None else m) = Value (Some b) \<longleftrightarrow> \<not> c \<and> m = Value (Some b)"
  by auto

lemmas outcome_iffs = andThen_Value_iff accessed_Value_iff rejecting_if_iff rejecting_case_iff skipping_if_iff
  outcome.inject prod.inject option.inject

definition endpoint_ok :: "Endpoint \<Rightarrow> bool" where
  "endpoint_ok e = (endpoint_port e \<noteq> 0 \<and> isLiteralIPv4 (endpoint_address e) \<and> endpoint_type e = EndpointLocal)"

definition ports_ok :: "u16 list \<Rightarrow> bool" where
  "ports_ok ports = (distinct ports \<and> 0 \<notin> set ports \<and> length ports \<le> kMaxServices)"

definition peer_ok :: "Peer \<Rightarrow> bool" where
  "peer_ok p = (stableId p \<noteq> [] \<and> length (peer_nodeKey p) = 32 \<and> length (peer_discoKey p) = 32
     \<and> length (addresses p) \<le> 32 \<and> length (allowedIPs p) \<le> kMaxAllowedIPsPerPeer
     \<and> (\<forall>cidr \<in> set (allowedIPs p). isRoutableIPv4Subnet cidr (addresses p))
     \<and> length (endpoints p) \<le> kMaxEndpointsPerPeer \<and> (\<forall>e \<in> set (endpoints p). endpoint_ok e)
     \<and> length (peer_os p) \<le> 32 \<and> ports_ok (tcpServicePorts p) \<and> (tcpServicePorts p \<noteq> [] \<longrightarrow> servicesKnown p))"

lemma word_of_nat_u16_nonzero: "0 < n \<Longrightarrow> n \<le> 65535 \<Longrightarrow> (word_of_nat n :: u16) \<noteq> 0"
  using unat_of_nat [of n, where 'a = 16] by (auto simp flip: unat_eq_zero)

lemma service_port_nonzero: "service_port api service = Some port \<Longrightarrow> port \<noteq> 0"
  by (auto simp: service_port_def word_of_nat_u16_nonzero split: if_splits option.splits prod.splits)

lemma service_loop_ok: "ports_ok ports \<Longrightarrow> ports_ok (service_loop api services ports)"
proof (induction services arbitrary: ports)
  case (Cons service rest)
  have "ports_ok (case service_port api service of None \<Rightarrow> ports
      | Some tcpPort \<Rightarrow> if tcpPort \<in> set ports then ports else ports @ [tcpPort])" if "length ports < kMaxServices"
    using Cons.prems that service_port_nonzero [of api service] by (auto simp: ports_ok_def split: option.split)
  with Cons show ?case by simp
qed simp

lemma allowed_loop_ok:
  assumes "length subnets \<le> kMaxAllowedIPsPerPeer" "\<forall>c \<in> set subnets. isRoutableIPv4Subnet c own"
  shows "length (allowed_loop api own vs subnets) \<le> kMaxAllowedIPsPerPeer
   \<and> (\<forall>c \<in> set (allowed_loop api own vs subnets). isRoutableIPv4Subnet c own)"
  using assms
proof (induction vs arbitrary: subnets)
  case (Cons v vs)
  then show ?case using Cons.IH [of subnets] Cons.IH [of "subnets @ [js_string api v]"] by simp
qed simp

lemma parseEndpointText_ok: "parseEndpointText t = Some e \<Longrightarrow> endpoint_ok e"
  by (auto simp: parseEndpointText_def endpoint_ok_def word_of_nat_u16_nonzero split: option.splits prod.splits if_splits)

lemma length_map_filter: "length (List.map_filter f xs) \<le> length xs"
  by (induction xs) (auto simp: List.map_filter_simps split: option.split)

lemma set_map_filter: "set (List.map_filter f xs) = {y. \<exists>x \<in> set xs. f x = Some y}"
  by (induction xs) (auto simp: List.map_filter_simps split: option.split)

lemma endpoint_list_ok:
  "length (endpoint_list api vs) \<le> length vs" "e \<in> set (endpoint_list api vs) \<Longrightarrow> endpoint_ok e"
  by (auto simp: endpoint_list_def length_map_filter set_map_filter dest: parseEndpointText_ok split: if_splits)

lemma length_address_texts: "length (address_texts api vs) \<le> length vs"
  by (simp add: address_texts_def)

lemma parseHostinfo_ok:
  assumes "peer_ok p" "tcpServicePorts p = []"
  shows "peer_ok (parseHostinfo api node p) \<and> stableId (parseHostinfo api node p) = stableId p"
  using assms service_loop_ok [of "[]" api]
  by (auto simp: parseHostinfo_def Let_def peer_ok_def ports_ok_def split: option.split)

lemma decodeTypedKey_length: "decodeTypedKey encoded prefix = Some key \<Longrightarrow> length key = 32"
  using decodeTypedKey_SomeD by blast

lemma parsePeer_keys_shape:
  assumes "parsePeer_keys api node p = Value q" "length (peer_discoKey p) = 32"
  shows "\<exists>key disco. length key = 32 \<and> length disco = 32 \<and> q = p\<lparr>peer_nodeKey := key, peer_discoKey := disco\<rparr>"
proof -
  from assms(1) obtain keyText discoText key where k: "decodeTypedKey keyText ''nodekey:'' = Some key"
    and d: "(if discoText = [] then Value (p\<lparr>peer_nodeKey := key\<rparr>)
             else (case decodeTypedKey discoText ''discokey:'' of
                     None \<Rightarrow> Rejected ''netmap peer has an invalid disco key''
                   | Some disco \<Rightarrow> Value (p\<lparr>peer_nodeKey := key, peer_discoKey := disco\<rparr>))) = Value q"
    by (auto simp only: parsePeer_keys_def outcome_iffs)
  have same: "p\<lparr>peer_nodeKey := key\<rparr> = p\<lparr>peer_nodeKey := key, peer_discoKey := peer_discoKey p\<rparr>" by simp
  show ?thesis
  proof (cases "discoText = []")
    case True
    with d same decodeTypedKey_length [OF k] assms(2) show ?thesis by auto
  next
    case False
    with d decodeTypedKey_length [OF k] show ?thesis by (auto dest: decodeTypedKey_length split: option.splits)
  qed
qed

lemma parsePeer_stages:
  assumes "parsePeer api node idMap = Value (peer, idMap')"
  obtains sid name p1 p2 p3 p4 where "sid \<noteq> []"
    "parsePeer_keys api node (empty_Peer\<lparr>stableId := sid, peer_hostname := name\<rparr>) = Value p1"
    "parsePeer_addresses api node p1 = Value p2" "parsePeer_allowed api node p2 = Value p3"
    "parsePeer_endpoints api node p3 = Value p4" "parsePeer_presence api node p4 = Value peer"
    "idMap' = idMap \<or> (\<exists>n. idMap' = AList.update n (stableId peer) idMap)"
proof -
  from assms obtain sid nodeId name p1 p2 p3 p4 p5 where "sid \<noteq> []"
    "parsePeer_keys api node (empty_Peer\<lparr>stableId := sid, peer_hostname := name\<rparr>) = Value p1"
    "parsePeer_addresses api node p1 = Value p2" "parsePeer_allowed api node p2 = Value p3"
    "parsePeer_endpoints api node p3 = Value p4" "parsePeer_presence api node p4 = Value p5" "p5 = peer"
    "(if nodeId \<noteq> 0 then AList.update nodeId (stableId p5) idMap else idMap) = idMap'"
    unfolding parsePeer_def outcome_iffs by (elim exE conjE) (rule that, assumption+)
  then show thesis by (intro that [of sid name p1 p2 p3 p4]) (auto split: if_splits)
qed

lemma parsePeer_ok:
  assumes "parsePeer api node idMap = Value (peer, idMap')"
  shows "peer_ok peer"
proof -
  obtain sid name p1 p2 p3 p4 where st: "sid \<noteq> []"
    "parsePeer_keys api node (empty_Peer\<lparr>stableId := sid, peer_hostname := name\<rparr>) = Value p1"
    "parsePeer_addresses api node p1 = Value p2" "parsePeer_allowed api node p2 = Value p3"
    "parsePeer_endpoints api node p3 = Value p4" "parsePeer_presence api node p4 = Value peer"
    by (rule parsePeer_stages [OF assms])
  have "length (peer_discoKey (empty_Peer\<lparr>stableId := sid, peer_hostname := name\<rparr>)) = 32" by (simp add: empty_Peer_def)
  from parsePeer_keys_shape [OF st(2) this] st(1)
  have p1: "peer_ok p1 \<and> tcpServicePorts p1 = [] \<and> allowedIPs p1 = [] \<and> endpoints p1 = [] \<and> addresses p1 = []"
    by (auto simp: empty_Peer_def peer_ok_def ports_ok_def)
  have p2: "peer_ok p2 \<and> tcpServicePorts p2 = [] \<and> allowedIPs p2 = [] \<and> endpoints p2 = []"
    using p1 st(3) le_trans [OF length_address_texts [of api]]
    by (auto simp: parsePeer_addresses_def peer_ok_def split: option.splits if_splits)
  have p3: "peer_ok p3 \<and> tcpServicePorts p3 = [] \<and> endpoints p3 = []"
    using p2 st(4) le_trans [OF length_address_texts [of api]] allowed_loop_ok [of "[]" "addresses p2" api]
    by (auto simp: parsePeer_allowed_def peer_ok_def split: option.splits if_splits)
  have p4: "peer_ok p4 \<and> tcpServicePorts p4 = []"
    using p3 st(5) le_trans [OF endpoint_list_ok(1) [of api]] endpoint_list_ok(2) [of _ api]
    by (auto simp: parsePeer_endpoints_def peer_ok_def split: option.splits if_splits)
  have "peer_ok (p4\<lparr>homeDerp := h, online := on\<rparr>)" for h on using p4 by (simp add: peer_ok_def ports_ok_def)
  with p4 st(6) show ?thesis
    by (auto simp: parsePeer_presence_def parseHostinfo_ok split: if_splits)
qed

section \<open>What an accepted update satisfies\<close>

definition derp_node_ok :: "bool \<Rightarrow> DerpNode \<Rightarrow> bool" where
  "derp_node_ok charSigned n = (isPlausibleHostname charSigned (derp_host n) \<and> derp_port n \<noteq> 0)"

definition region_ok :: "bool \<Rightarrow> DerpRegion \<Rightarrow> bool" where
  "region_ok charSigned r = (0 < regionId r \<and> derp_nodes r \<noteq> [] \<and> length (derp_nodes r) \<le> kMaxDerpNodesPerRegion
     \<and> list_all (derp_node_ok charSigned) (derp_nodes r))"

lemma word_of_int_u16_nonzero:
  assumes "0 < n" "n \<le> 65535"
  shows "(word_of_int n :: u16) \<noteq> 0"
proof
  assume "(word_of_int n :: u16) = 0"
  then have "uint (word_of_int n :: u16) = 0" by (simp only: unsigned_0)
  then have "n mod 65536 = 0" by (simp add: uint_word_of_int)
  with assms show False by simp
qed

lemma parseDerpNode_ok:
  assumes "parseDerpNode charSigned api node = Value (Some n)"
  shows "derp_node_ok charSigned n"
proof -
  from assms obtain host port stun where "\<not> \<not> isPlausibleHostname charSigned host"
    "\<not> (port \<le> 0 \<or> port > 65535)" "\<lparr>derp_host = host, derp_port = word_of_int port, derp_stunPort = stun\<rparr> = n"
    unfolding parseDerpNode_def outcome_iffs by (elim exE conjE) (rule that, assumption+)
  with word_of_int_u16_nonzero [of port] show ?thesis by (auto simp: derp_node_ok_def)
qed

lemma derp_node_loop_ok:
  "derp_node_loop charSigned api ns out = Value r \<Longrightarrow> list_all (derp_node_ok charSigned) out \<Longrightarrow>
   length out \<le> kMaxDerpNodesPerRegion \<Longrightarrow>
   list_all (derp_node_ok charSigned) r \<and> length r \<le> kMaxDerpNodesPerRegion"
proof (induction ns arbitrary: out)
  case (Cons node rest)
  show ?case
  proof (cases "length out \<ge> kMaxDerpNodesPerRegion")
    case False
    with Cons.prems(1) obtain n where n: "parseDerpNode charSigned api node = Value n"
      "derp_node_loop charSigned api rest (case n of None \<Rightarrow> out | Some d \<Rightarrow> out @ [d]) = Value r" by auto
    from Cons.IH [OF n(2)] n(1) Cons.prems(2) False parseDerpNode_ok [of charSigned api node] show ?thesis
      by (cases n) auto
  qed (use Cons.prems in simp)
qed simp

lemma parseDerpRegion_ok:
  assumes "parseDerpRegion charSigned api key region = Value (Some r)"
  shows "region_ok charSigned r"
proof -
  from assms have "0 < regionId r \<and> derp_nodes r \<noteq> []
    \<and> (\<exists>ns. derp_node_loop charSigned api ns [] = Value (derp_nodes r))"
    unfolding parseDerpRegion_def Let_def outcome_iffs by (auto intro: exI [of _ "[]"] split: option.split_asm)
  with derp_node_loop_ok show ?thesis by (fastforce simp: region_ok_def)
qed

lemma derp_region_loop_ok:
  "derp_region_loop charSigned api items out = Value r \<Longrightarrow> list_all (region_ok charSigned) out \<Longrightarrow>
   list_all (region_ok charSigned) r \<and> length r \<le> length out + length items"
proof (induction items arbitrary: out)
  case (Cons item rest)
  obtain key region where item: "item = (key, region)" by (cases item)
  with Cons.prems(1) obtain n where n: "parseDerpRegion charSigned api key region = Value n"
    "derp_region_loop charSigned api rest (case n of None \<Rightarrow> out | Some d \<Rightarrow> out @ [d]) = Value r" by auto
  from Cons.IH [OF n(2)] n(1) Cons.prems(2) parseDerpRegion_ok [of charSigned api key region] show ?case by (cases n) auto
qed simp

lemma parseDerpMap_ok:
  "parseDerpMap charSigned api root = Value rs \<Longrightarrow> list_all (region_ok charSigned) rs \<and> length rs \<le> kMaxDerpRegions"
  using derp_region_loop_ok [of charSigned api _ "[]"]
  by (fastforce simp: parseDerpMap_def split: option.split_asm if_split_asm)

definition known :: "id_map \<Rightarrow> string set" where
  "known idMap = snd ` set idMap"

lemma known_update: "known (AList.update k v m) \<subseteq> insert v (known m)"
  by (induction m) (auto simp: known_def)

lemma known_delete: "known (AList.delete k m) \<subseteq> known m"
  using set_delete by (fastforce simp: known_def)

lemma known_lookup: "map_of m k = Some sid \<Longrightarrow> sid \<in> known m"
  by (auto simp: known_def dest: map_of_SomeD intro: rev_image_eqI)

lemma parsePeer_known:
  assumes "parsePeer api node m = Value (peer, m')"
  shows "known m' \<subseteq> insert (stableId peer) (known m)"
  by (rule parsePeer_stages [OF assms]) (use known_update in blast)

lemma peer_loop_ok:
  "peer_loop api vs m = Value (ps, m') \<Longrightarrow>
   length ps = length vs \<and> list_all peer_ok ps \<and> known m' \<subseteq> known m \<union> stableId ` set ps"
proof (induction vs arbitrary: m ps)
  case (Cons v vs)
  then obtain peer m1 rest where p: "parsePeer api v m = Value (peer, m1)" "peer_loop api vs m1 = Value (rest, m')"
    "ps = peer # rest" by auto
  with Cons.IH [OF p(2)] parsePeer_ok [OF p(1)] parsePeer_known [OF p(1)] show ?case by auto
qed simp

lemma removed_loop_known:
  "removed_loop api vs m = (sids, m') \<Longrightarrow> set sids \<subseteq> known m \<and> known m' \<subseteq> known m"
proof (induction api vs m arbitrary: sids m' rule: removed_loop.induct)
  case (2 api v vs m)
  show ?case
  proof (cases "js_is_number_unsigned api v \<and> map_of m (js_u64 api v) \<noteq> None")
    case True
    then obtain sid where sid: "map_of m (js_u64 api v) = Some sid" by auto
    from True 2(4) sid obtain sids' where s: "removed_loop api vs (AList.delete (js_u64 api v) m) = (sids', m')"
      "sids = sid # sids'" by (auto split: prod.splits)
    from True 2(3) [OF _ sid s(1)] s(2) known_lookup [OF sid] known_delete [of "js_u64 api v" m] show ?thesis by auto
  qed (use 2 in \<open>auto split: if_splits option.splits\<close>)
qed simp

lemma patch_change_known: "patch_change api m v = Some c \<Longrightarrow> change_stableId c \<in> known m"
  by (auto simp: patch_change_def known_lookup split: if_splits option.splits)

definition carried :: "MapUpdate \<Rightarrow> Peer set" where
  "carried u = set (changed (update_delta u)) \<union> (case fullPeers u of None \<Rightarrow> {} | Some ps \<Rightarrow> set ps)"

definition referenced :: "MapUpdate \<Rightarrow> string set" where
  "referenced u = set (removedStableIds (update_delta u)) \<union> change_stableId ` set (onlineChanges (update_delta u))"

definition update_ok :: "bool \<Rightarrow> MapUpdate \<Rightarrow> bool" where
  "update_ok charSigned u =
     ((\<forall>p \<in> carried u. peer_ok p)
      \<and> (case fullPeers u of None \<Rightarrow> True | Some ps \<Rightarrow> length ps \<le> kMaxPeers)
      \<and> length (changed (update_delta u)) \<le> kMaxPeers
      \<and> (case update_derpMap u of None \<Rightarrow> True
         | Some rs \<Rightarrow> length rs \<le> kMaxDerpRegions \<and> list_all (region_ok charSigned) rs))"

text \<open>What holds between the sections: \<open>sids\<close> are the IDs known before the update.\<close>

definition section_inv :: "bool \<Rightarrow> string set \<Rightarrow> MapUpdate \<times> id_map \<Rightarrow> bool" where
  "section_inv charSigned sids st = (update_ok charSigned (fst st) \<and> \<not> keepAlive (fst st)
     \<and> known (snd st) \<subseteq> sids \<union> stableId ` carried (fst st) \<and> referenced (fst st) \<subseteq> sids \<union> stableId ` carried (fst st))"

definition empty_delta :: "MapUpdate \<Rightarrow> bool" where
  "empty_delta u = (changed (update_delta u) = [] \<and> referenced u = {} \<and> fullPeers u = None)"

lemma decode_derp_inv:
  assumes "decode_derp charSigned api root (empty_MapUpdate\<lparr>localAddress := a\<rparr>) = Value u"
  shows "section_inv charSigned (known m) (u, m) \<and> empty_delta u"
  using assms parseDerpMap_ok [of charSigned api root]
  by (auto simp: decode_derp_def section_inv_def empty_delta_def update_ok_def carried_def referenced_def empty_MapUpdate_def
      split: option.split_asm if_split_asm)

lemma decode_peers_inv:
  assumes "decode_peers api root (u, m) = Value st" "section_inv charSigned sids (u, m)" "empty_delta u"
  shows "section_inv charSigned sids st \<and> changed (update_delta (fst st)) = []"
proof (cases "find_array api root ''Peers''")
  case (Some vs)
  with assms(1) obtain ps m' where ps: "length vs \<le> kMaxPeers" "peer_loop api vs [] = Value (ps, m')"
    "st = (u\<lparr>fullPeers := Some ps\<rparr>, m')"
    by (auto simp: decode_peers_def rejecting_if_iff)
  from peer_loop_ok [OF ps(2)] ps(1) have
    "length ps \<le> kMaxPeers" "\<forall>p \<in> set ps. peer_ok p" "known m' \<subseteq> stableId ` set ps"
    by (auto simp: list_all_iff known_def)
  with assms(2,3) ps(3) show ?thesis
    by (simp add: section_inv_def update_ok_def carried_def referenced_def empty_delta_def le_supI2)
qed (use assms in \<open>auto simp: decode_peers_def empty_delta_def\<close>)

lemma decode_changed_inv:
  assumes "decode_changed api root st = Value st'" "section_inv charSigned sids st" "changed (update_delta (fst st)) = []"
  shows "section_inv charSigned sids st'"
proof (cases "find_array api root ''PeersChanged''")
  case (Some vs)
  with assms(1,3) obtain ps m' where ps: "length vs \<le> kMaxPeers" "peer_loop api vs (snd st) = Value (ps, m')"
    "st' = ((fst st)\<lparr>update_delta := (update_delta (fst st))\<lparr>changed := ps\<rparr>\<rparr>, m')"
    by (auto simp: decode_changed_def rejecting_if_iff)
  from peer_loop_ok [OF ps(2)] ps(1) have ok: "length ps \<le> kMaxPeers" "\<forall>p \<in> set ps. peer_ok p"
    "known m' \<subseteq> known (snd st) \<union> stableId ` set ps" by (auto simp: list_all_iff)
  have c: "carried (fst st') = carried (fst st) \<union> set ps" "referenced (fst st') = referenced (fst st)"
    using assms(3) by (auto simp: ps(3) carried_def referenced_def)
  have "update_ok charSigned (fst st')"
    using assms(2) ok(1,2) c(1) by (auto simp: section_inv_def update_ok_def ps(3))
  moreover have "known (snd st') \<subseteq> sids \<union> stableId ` carried (fst st')"
    unfolding c(1) image_Un using assms(2) ok(3) by (auto simp: section_inv_def ps(3))
  moreover have "\<not> keepAlive (fst st')" using assms(2) by (simp add: section_inv_def ps(3))
  ultimately show ?thesis using assms(2) by (auto simp: section_inv_def c image_Un)
qed (use assms in \<open>simp add: decode_changed_def\<close>)

lemma decode_removed_inv:
  assumes "decode_removed api root st = Value st'" "section_inv charSigned sids st"
  shows "section_inv charSigned sids st'"
proof (cases "find_array api root ''PeersRemoved''")
  case (Some vs)
  obtain rs m' where r: "removed_loop api vs (snd st) = (rs, m')" by (cases "removed_loop api vs (snd st)")
  with Some assms(1) have st': "st' = ((fst st)\<lparr>update_delta := (update_delta (fst st))\<lparr>removedStableIds :=
     removedStableIds (update_delta (fst st)) @ rs\<rparr>\<rparr>, m')"
    by (auto simp: decode_removed_def rejecting_if_iff)
  have "carried (fst st') = carried (fst st)" "referenced (fst st') = referenced (fst st) \<union> set rs"
    "update_ok charSigned (fst st') = update_ok charSigned (fst st)"
    by (auto simp: st' carried_def referenced_def update_ok_def)
  with assms(2) removed_loop_known [OF r] show ?thesis by (auto simp: section_inv_def st')
qed (use assms in \<open>simp add: decode_removed_def\<close>)

lemma decode_patches_inv:
  assumes "decode_patches api root st = Value st'" "section_inv charSigned sids st"
  shows "section_inv charSigned sids st'"
proof (cases "find_array api root ''PeersChangedPatch''")
  case (Some vs)
  let ?cs = "List.map_filter (patch_change api (snd st)) vs"
  from Some assms(1) have st': "st' = ((fst st)\<lparr>update_delta := (update_delta (fst st))\<lparr>onlineChanges :=
     onlineChanges (update_delta (fst st)) @ ?cs\<rparr>\<rparr>, snd st)"
    by (auto simp: decode_patches_def rejecting_if_iff)
  have "change_stableId ` set ?cs \<subseteq> known (snd st)" using patch_change_known by (fastforce simp: set_map_filter)
  moreover have "carried (fst st') = carried (fst st)" "referenced (fst st') = referenced (fst st) \<union> change_stableId ` set ?cs"
    "update_ok charSigned (fst st') = update_ok charSigned (fst st)"
    by (auto simp: st' carried_def referenced_def update_ok_def)
  ultimately show ?thesis using assms(2) by (auto simp: section_inv_def st')
qed (use assms in \<open>simp add: decode_patches_def\<close>)

lemma decode_sections_inv:
  assumes "decode_sections charSigned api root m empty_MapUpdate = Value st"
  shows "section_inv charSigned (known m) st"
proof -
  obtain u s1 s2 s3 where "decode_derp charSigned api root (empty_MapUpdate\<lparr>localAddress := localAddressFromNode api root\<rparr>) = Value u"
    "decode_peers api root (u, m) = Value s1" "decode_changed api root s1 = Value s2"
    "decode_removed api root s2 = Value s3" "decode_patches api root s3 = Value st"
    using assms unfolding decode_sections_def outcome_iffs by (elim exE conjE) (rule that, assumption+)
  with decode_derp_inv [of charSigned api root _ u m] decode_peers_inv [of api root u m s1 charSigned "known m"]
    decode_changed_inv [of api root s1 s2] decode_removed_inv [of api root s2 s3] decode_patches_inv [of api root s3 st]
  show ?thesis by blast
qed

section \<open>Decoding is transactional\<close>

lemma MapCodec_decode_update_ok:
  assumes "MapCodec_decode charSigned api json mc = (Value u, mc')"
  shows "update_ok charSigned u"
proof -
  have "update_ok charSigned (empty_MapUpdate\<lparr>keepAlive := True\<rparr>)"
    by (simp add: update_ok_def carried_def empty_MapUpdate_def)
  moreover have "update_ok charSigned v"
    if "decode_sections charSigned api root (stableIdsByNodeId mc) empty_MapUpdate = Value (v, m)" for root v m
    using decode_sections_inv [OF that] by (simp add: section_inv_def)
  ultimately show ?thesis
    using assms by (auto simp: MapCodec_decode_def split: option.split_asm bool.split_asm outcome.split_asm if_split_asm)
qed

text \<open>
  C14: Decoding a network map is all or nothing.  A frame that is rejected, or on which a typed accessor throws, leaves
  the map of node numbers to stable IDs as it was, and so does a keep-alive.  What an accepted frame delivers is within every limit: at most
  1024 peers in each list, each with a stable ID, keys of 32 bytes, at most 32 addresses, 64 routable subnets and 32 literal
  endpoints with a port, no duplicate or zero service port; relay regions are at most 64, have a positive number and 1 to 16
  nodes with a plausible host name and a port; and a removal or a presence change only names peers the codec knew before or
  the same frame carries.
\<close>

theorem MapCodec_decode_checked:
  "case MapCodec_decode charSigned api json mc of (r, mc') \<Rightarrow>
     (case r of
        Value u \<Rightarrow>
          update_ok charSigned u \<and>
          (let ids = known (stableIdsByNodeId mc) \<union> stableId ` carried u
           in known (stableIdsByNodeId mc') \<subseteq> ids \<and> referenced u \<subseteq> ids) \<and>
          (keepAlive u \<longrightarrow> mc' = mc)
      | _ \<Rightarrow> mc' = mc)"
proof -
  let ?m = "stableIdsByNodeId mc"
  have alive: "update_ok charSigned (empty_MapUpdate\<lparr>keepAlive := True\<rparr>)" "referenced (empty_MapUpdate\<lparr>keepAlive := True\<rparr>) = {}"
    by (simp_all add: update_ok_def carried_def referenced_def empty_MapUpdate_def)
  have sections: "update_ok charSigned u \<and> known m \<subseteq> known ?m \<union> stableId ` carried u \<and>
      referenced u \<subseteq> known ?m \<union> stableId ` carried u"
    if "decode_sections charSigned api root ?m empty_MapUpdate = Value (u, m)" for root u m
    using decode_sections_inv [OF that] by (simp add: section_inv_def)
  have live: "\<not> keepAlive u" if "decode_sections charSigned api root ?m empty_MapUpdate = Value (u, m)" for root u m
    using decode_sections_inv [OF that] by (simp add: section_inv_def)
  show ?thesis
    unfolding MapCodec_decode_def Let_def using alive sections live
    by (auto split: option.split bool.split outcome.split prod.split)
qed

text \<open>A JSON library to run the codec with: values as a tree, and a parser that knows one document.\<close>

datatype json_tree = JNull | JBool bool | JNumber int | JString string | JArray "json_tree list"
  | JObject "(string \<times> json_tree) list"

fun tree_find :: "json_tree \<Rightarrow> string \<Rightarrow> json_tree option" where
  "tree_find (JObject ms) key = map_of ms key"
| "tree_find _ key = None"

fun tree_elements :: "json_tree \<Rightarrow> json_tree list" where
  "tree_elements (JArray vs) = vs"
| "tree_elements _ = []"

fun tree_items :: "json_tree \<Rightarrow> (string \<times> json_tree) list" where
  "tree_items (JObject ms) = ms"
| "tree_items _ = []"

fun tree_string :: "json_tree \<Rightarrow> string option" where
  "tree_string (JString t) = Some t"
| "tree_string _ = None"

fun tree_number :: "json_tree \<Rightarrow> int option" where
  "tree_number (JNumber n) = Some n"
| "tree_number _ = None"

fun tree_bool :: "json_tree \<Rightarrow> bool option" where
  "tree_bool (JBool b) = Some b"
| "tree_bool _ = None"

definition tree_value :: "(json_tree \<Rightarrow> 'a option) \<Rightarrow> json_tree \<Rightarrow> string \<Rightarrow> 'a \<Rightarrow> 'a option" where
  "tree_value get v key dflt = (case tree_find v key of None \<Rightarrow> Some dflt | Some w \<Rightarrow> get w)"

definition tree_api :: "(string \<Rightarrow> json_tree option) \<Rightarrow> json_tree JsonApi" where
  "tree_api p = \<lparr>js_parse = p,
     js_is_object = (\<lambda>v. case v of JObject _ \<Rightarrow> True | _ \<Rightarrow> False),
     js_is_array = (\<lambda>v. case v of JArray _ \<Rightarrow> True | _ \<Rightarrow> False),
     js_is_string = (\<lambda>v. tree_string v \<noteq> None), js_is_boolean = (\<lambda>v. tree_bool v \<noteq> None), js_is_null = (\<lambda>v. v = JNull),
     js_is_number_unsigned = (\<lambda>v. case v of JNumber n \<Rightarrow> 0 \<le> n | _ \<Rightarrow> False),
     js_find = tree_find, js_elements = tree_elements, js_items = tree_items,
     js_string = (\<lambda>v. case tree_string v of None \<Rightarrow> [] | Some t \<Rightarrow> t),
     js_u64 = (\<lambda>v. case tree_number v of None \<Rightarrow> 0 | Some n \<Rightarrow> nat n),
     js_bool = (\<lambda>v. tree_bool v = Some True),
     js_value_string = tree_value tree_string,
     js_value_u64 = (\<lambda>v key d. map_option nat (tree_value tree_number v key (int d))),
     js_value_int = tree_value tree_number, js_value_bool = tree_value tree_bool\<rparr>"

definition example_node :: json_tree where
  "example_node = JObject [(''StableID'', JString ''n1''), (''ID'', JNumber 7),
     (''Key'', JString (encodeTypedKey ''nodekey:'' (replicate 32 1))), (''Addresses'', JArray [JString ''100.64.0.5/32'']),
     (''HomeDERP'', JNumber 2)]"

definition example_root :: json_tree where
  "example_root = JObject [(''Peers'', JArray [example_node]),
     (''PeersChangedPatch'', JArray [JObject [(''NodeID'', JNumber 7), (''Online'', JBool True)],
                                    JObject [(''NodeID'', JNumber 8), (''Online'', JBool True)]])]"

definition example_json :: "json_tree JsonApi" where
  "example_json = tree_api (\<lambda>t. if t = ''map'' then Some example_root else None)"

definition example_netmap_peer :: Peer where
  "example_netmap_peer = empty_Peer\<lparr>stableId := ''n1'', peer_nodeKey := replicate 32 1, addresses := [''100.64.0.5''], homeDerp := 2\<rparr>"

lemma example_node_parsed: "parsePeer example_json example_node [] = Value (example_netmap_peer, [(7, ''n1'')])"
  by (simp add: parsePeer_def parsePeer_keys_def parsePeer_addresses_def parsePeer_allowed_def parsePeer_endpoints_def
      parsePeer_presence_def parseHostinfo_def find_array_def find_object_def example_json_def tree_api_def tree_value_def
      accessed_def example_node_def example_netmap_peer_def empty_Peer_def decodeTypedKey_encode address_texts_def stripPrefix_def)

definition example_update :: MapUpdate where
  "example_update = empty_MapUpdate\<lparr>fullPeers := Some [example_netmap_peer],
     update_delta := \<lparr>changed = [], removedStableIds = [], onlineChanges = [\<lparr>change_stableId = ''n1'', change_online = True\<rparr>]\<rparr>\<rparr>"

lemma example_decoded:
  "MapCodec_decode False example_json ''map'' \<lparr>stableIdsByNodeId = [(8, ''old'')]\<rparr> = (Value example_update, \<lparr>stableIdsByNodeId = [(7, ''n1'')]\<rparr>)"
proof -
  have root: "js_parse example_json ''map'' = Some example_root" "js_is_object example_json example_root"
    "js_value_bool example_json example_root ''KeepAlive'' False = Some False"
    by (simp_all add: example_json_def tree_api_def tree_value_def example_root_def)
  have finds: "js_find example_json example_root ''DERPMap'' = None" "find_object example_json example_root ''Node'' = None"
    "find_array example_json example_root ''Peers'' = Some [example_node]"
    "find_array example_json example_root ''PeersChanged'' = None" "find_array example_json example_root ''PeersRemoved'' = None"
    "find_array example_json example_root ''PeersChangedPatch'' =
       Some [JObject [(''NodeID'', JNumber 7), (''Online'', JBool True)], JObject [(''NodeID'', JNumber 8), (''Online'', JBool True)]]"
    by (simp_all add: find_array_def find_object_def example_json_def tree_api_def example_root_def)
  have patches: "patch_change example_json [(7, ''n1'')] (JObject [(''NodeID'', JNumber 7), (''Online'', JBool True)]) =
      Some \<lparr>change_stableId = ''n1'', change_online = True\<rparr>"
    "patch_change example_json [(7, ''n1'')] (JObject [(''NodeID'', JNumber 8), (''Online'', JBool True)]) = None"
    by (auto simp: patch_change_def example_json_def tree_api_def)
  have "decode_sections False example_json example_root [(8, ''old'')] empty_MapUpdate = Value (example_update, [(7, ''n1'')])"
    by (simp add: decode_sections_def decode_derp_def decode_peers_def decode_changed_def decode_removed_def decode_patches_def
        finds patches example_node_parsed localAddressFromNode_def kMaxPeers_def List.map_filter_simps example_update_def empty_MapUpdate_def)
  with root show ?thesis by (simp add: MapCodec_decode_def kMaxMapFrameSize_def)
qed

theorem MapCodec_decode_checked_witness:
  "MapCodec_decode False example_json ''map'' \<lparr>stableIdsByNodeId = [(8, ''old'')]\<rparr> = (Value example_update, \<lparr>stableIdsByNodeId = [(7, ''n1'')]\<rparr>)
   \<and> update_ok False example_update \<and> referenced example_update \<subseteq> {''old'', ''n1''}"
proof -
  have "stableId ` carried example_update = {''n1''}"
    by (simp add: carried_def example_update_def empty_MapUpdate_def example_netmap_peer_def)
  then show ?thesis
    using MapCodec_decode_checked [where charSigned = False and api = example_json and json = "''map''" and
      mc = "\<lparr>stableIdsByNodeId = [(8, ''old'')]\<rparr>"] example_decoded
    by (simp add: known_def insert_commute)
qed

section \<open>From the wire to the directory\<close>

lemma peer_ok_validatePeer:
  "peer_ok p \<Longrightarrow> (validatePeer p = None) = (\<forall>a \<in> set (addresses p). length a \<le> 128)"
  by (auto simp: peer_ok_def validatePeer_def list_ex_iff not_le)

lemma replace_loop_accepts:
  "(\<exists>r. replace_loop ps acc = Inr r) \<longleftrightarrow>
   (\<forall>p \<in> set ps. validatePeer p = None) \<and> distinct (map stableId ps) \<and> fst ` set acc \<inter> stableId ` set ps = {}"
proof (induction ps arbitrary: acc)
  case (Cons p ps)
  have "map_of acc (stableId p) \<noteq> None \<longleftrightarrow> stableId p \<in> fst ` set acc" by (simp add: map_of_eq_None_iff)
  with Cons.IH [of "acc @ [(stableId p, p)]"] show ?case by (auto split: option.split)
qed simp



section \<open>Frames\<close>

definition map_frame_bytes :: "string \<Rightarrow> bytes" where
  "map_frame_bytes body =
     (let n = word_of_nat (length body) :: u32
      in [ucast n, ucast (drop_bit 8 n), ucast (drop_bit 16 n), ucast (drop_bit 24 n)] @ bytes_of_string body)"

lemma le32_size_bytes:
  fixes n :: u32
  shows "le32_size ([ucast n, ucast (drop_bit 8 n), ucast (drop_bit 16 n), ucast (drop_bit 24 n)] @ rest) = n"
  using of_be32_be32 [of n] by (simp add: le32_size_def of_be32_def ac_simps)

definition map_decoder_append :: "MapFrameDecoder \<Rightarrow> bytes \<Rightarrow> MapFrameDecoder option" where
  "map_decoder_append d bs = (case MapFrameDecoder_append bs d of (True, d') \<Rightarrow> Some d' | (False, _) \<Rightarrow> None)"

lemma map_frame_length: "length (map_frame_bytes body) = 4 + length body"
  by (simp add: map_frame_bytes_def Let_def)

lemma map_frame_size:
  assumes "length body \<le> kMaxMapFrameSize"
  shows "unat (le32_size (map_frame_bytes body @ rest)) = length body"
proof -
  have "le32_size (map_frame_bytes body @ rest) = word_of_nat (length body)"
    unfolding map_frame_bytes_def Let_def append_assoc by (rule le32_size_bytes)
  with assms show ?thesis by (simp add: unat_word_of_nat_u32 kMaxMapFrameSize_def)
qed

lemma MapFrameDecoder_take_complete:
  assumes "length body \<le> kMaxMapFrameSize" "mfd_buffer d = map_frame_bytes body @ rest"
  shows "MapFrameDecoder_take d = (Some body, d\<lparr>mfd_buffer := rest\<rparr>)"
proof -
  have "drop 4 (map_frame_bytes body @ rest) = bytes_of_string body @ rest"
    by (simp add: map_frame_bytes_def Let_def)
  moreover have "drop (4 + length body) (map_frame_bytes body @ rest) = rest"
    by (simp add: map_frame_length)
  ultimately show ?thesis
    using assms map_frame_size [OF assms(1), of rest]
    by (simp add: MapFrameDecoder_take_def map_frame_length string_of_bytes_of_string)
qed

lemma MapFrameDecoder_take_partial:
  assumes "length body \<le> kMaxMapFrameSize" "map_frame_bytes body = mfd_buffer d @ q" "q \<noteq> []"
  shows "MapFrameDecoder_take d = (None, d)"
proof (cases "length (mfd_buffer d) < 4")
  case False
  have len: "length (mfd_buffer d) < 4 + length body"
    using arg_cong [OF assms(2), of length] assms(3) by (cases q) (auto simp: map_frame_length)
  have "le32_size (mfd_buffer d) = le32_size (map_frame_bytes body @ [])"
    using False assms(2) by (auto simp: le32_size_def nth_append)
  with map_frame_size [OF assms(1), of "[]"] have "unat (le32_size (mfd_buffer d)) = length body" by simp
  with False len assms(1) show ?thesis by (simp add: MapFrameDecoder_take_def)
qed (simp add: MapFrameDecoder_take_def)

interpretation map_decoder: stream_decoder mfd_buffer map_decoder_append MapFrameDecoder_take map_frame_bytes
  "\<lambda>body. length body \<le> kMaxMapFrameSize" "kMaxMapFrameSize + 4"
proof unfold_locales
  fix body and d :: MapFrameDecoder and rest
  assume "length body \<le> kMaxMapFrameSize" "mfd_buffer d = map_frame_bytes body @ rest"
  then show "\<exists>d'. MapFrameDecoder_take d = (Some body, d') \<and> mfd_buffer d' = rest"
    by (simp add: MapFrameDecoder_take_complete)
next
  fix body and d :: MapFrameDecoder and q
  assume "length body \<le> kMaxMapFrameSize" "map_frame_bytes body = mfd_buffer d @ q" "q \<noteq> []"
  then show "MapFrameDecoder_take d = (None, d)" by (rule MapFrameDecoder_take_partial)
qed (auto simp: map_decoder_append_def MapFrameDecoder_append_def MapFrameDecoder_take_def map_frame_bytes_def Let_def)


lemma example_chunks:
  "concat [[2, 0, 0], [0, 123, 125, 2], [0, 0, 0, 91, 93]] = concat (map map_frame_bytes [''{}'', ''[]''])"
  by (simp add: map_frame_bytes_def bytes_of_string_def byte_of_char_def)


end
