(* ===== verification/TailscaleRoute.thy ===== *)
theory TailscaleRoute
  imports TailscaleControlCodec
begin

text \<open>
  Model of \<open>app/src/remote_access/tailscale/TailscaleWgxRoute.hpp\<close> and of the platform-independent part of \<open>.cpp\<close>: the
  overlay route (\<open>TailscaleWgxRoute\<close>) that brings up tunnel, relay, peer and proxy through an \<open>IWgxBackend\<close>, and
  \<open>SimulatedWgxBackend\<close>, the backend of the portable build.  The class \<open>RealWgxBackend\<close> (sockets, threads,
  WireGuard and lwIP of the console build) is not modelled; the route is modelled for an arbitrary backend.

  A \<open>bool\<close> result with an error out-parameter is an option: \<open>None\<close> is \<open>true\<close>, \<open>Some e\<close> is
  \<open>false\<close> with text \<open>e\<close>.  The callbacks of the route (peer resolver, local identity, relay map, disco key) are
  represented by what they return when \<open>start\<close> calls them; \<open>None\<close> is an empty \<open>std::function\<close>.  The two
  callbacks that are only handed on to the backend are represented by whether they are set.
\<close>

section \<open>Interfaces\<close>

definition kTailscaleTcpPorts :: "u16 list" where
  "kTailscaleTcpPorts = [47989, 47984, 48010]"

definition kTailscaleUdpPorts :: "u16 list" where
  "kTailscaleUdpPorts = [47998, 48000, 47999, 48002, 48010]"

record DirectPathConfig =
  dc_peerStableId :: string
  dc_peerNodeKey :: bytes
  dc_peerDiscoKey :: bytes
  dc_peerEndpoints :: "string list"
  dc_localNodePrivate :: bytes
  dc_localDiscoPrivate :: bytes
  dc_derpMap :: "DerpRegion list"
  dc_derpRegion :: int
  dc_publishes :: bool
  dc_observed :: bool

record 'b IWgxBackend =
  be_startTunnel :: "bytes \<Rightarrow> string \<Rightarrow> 'b \<Rightarrow> string option \<times> 'b"
  be_addOrUpdatePeer :: "u32 \<Rightarrow> bytes \<Rightarrow> string \<Rightarrow> 'b \<Rightarrow> string option \<times> 'b"
  be_startTcpProxy :: "string \<Rightarrow> string \<Rightarrow> u16 list \<Rightarrow> 'b \<Rightarrow> string option \<times> 'b"
  be_startUdpRelay :: "string \<Rightarrow> u16 list \<Rightarrow> 'b \<Rightarrow> string option \<times> 'b"
  be_ensureDerpRoute :: "bytes \<Rightarrow> int \<Rightarrow> DerpRegion list \<Rightarrow> bytes \<Rightarrow> 'b \<Rightarrow> string option \<times> 'b"
  be_stop :: "'b \<Rightarrow> 'b"
  be_isRunning :: "'b \<Rightarrow> bool"
  be_startDirectPath :: "DirectPathConfig \<Rightarrow> 'b \<Rightarrow> 'b"

fun attempt :: "string option \<times> 's \<Rightarrow> ('s \<Rightarrow> string option \<times> 's) \<Rightarrow> string option \<times> 's" where
  "attempt (Some e, s) k = (Some e, s)"
| "attempt (None, s) k = k s"

definition all_zero :: "bytes \<Rightarrow> bool" where
  "all_zero key = list_all (\<lambda>b. b = 0) key"

section \<open>The simulated backend\<close>

record SimulatedWgxBackend =
  sim_running :: bool
  sim_tcpActive :: bool
  sim_udpActive :: bool
  sim_derpReady :: bool
  sim_privateKey :: bytes
  sim_localIp :: string
  sim_activePeerIp :: string
  sim_activeHostIp :: string
  sim_directConfig :: "DirectPathConfig option"
  sim_tcpPorts :: "u16 list"
  sim_udpPorts :: "u16 list"

definition sim_initial :: SimulatedWgxBackend where
  "sim_initial = \<lparr>sim_running = False, sim_tcpActive = False, sim_udpActive = False, sim_derpReady = False,
     sim_privateKey = replicate 32 0, sim_localIp = [], sim_activePeerIp = [], sim_activeHostIp = [],
     sim_directConfig = None, sim_tcpPorts = [], sim_udpPorts = []\<rparr>"

definition sim_startTunnel :: "bytes \<Rightarrow> string \<Rightarrow> SimulatedWgxBackend \<Rightarrow> string option \<times> SimulatedWgxBackend" where
  "sim_startTunnel privateKey localIp b =
     (if all_zero privateKey then (Some ''Simulated backend: private key is uninitialized'', b)
      else if localIp = [] \<or> \<not> isLiteralIPv4 localIp then (Some (''Simulated backend: invalid local IP address: '' @ localIp), b)
      else (None, b\<lparr>sim_privateKey := privateKey, sim_localIp := localIp, sim_running := True\<rparr>))"

definition sim_addOrUpdatePeer :: "u32 \<Rightarrow> bytes \<Rightarrow> string \<Rightarrow> SimulatedWgxBackend \<Rightarrow> string option \<times> SimulatedWgxBackend" where
  "sim_addOrUpdatePeer peerId publicKey peerIp b =
     (if \<not> sim_running b then (Some ''Simulated backend: tunnel not running'', b)
      else if peerId = 0 then (Some ''Simulated backend: peer ID must be non-zero'', b)
      else if all_zero publicKey then (Some ''Simulated backend: public key is uninitialized'', b)
      else if peerIp = [] \<or> \<not> isLiteralIPv4 peerIp then (Some (''Simulated backend: invalid peer IP address: '' @ peerIp), b)
      else (None, b\<lparr>sim_activePeerIp := peerIp\<rparr>))"

definition sim_startTcpProxy :: "string \<Rightarrow> string \<Rightarrow> u16 list \<Rightarrow> SimulatedWgxBackend \<Rightarrow> string option \<times> SimulatedWgxBackend" where
  "sim_startTcpProxy peerIp hostIp ports b =
     (if \<not> sim_running b then (Some ''Simulated backend: tunnel not running'', b)
      else if ports = [] then (Some ''Simulated backend: no TCP ports specified'', b)
      else (None, b\<lparr>sim_activePeerIp := peerIp, sim_activeHostIp := hostIp, sim_tcpPorts := ports, sim_tcpActive := True\<rparr>))"

definition sim_startUdpRelay :: "string \<Rightarrow> u16 list \<Rightarrow> SimulatedWgxBackend \<Rightarrow> string option \<times> SimulatedWgxBackend" where
  "sim_startUdpRelay peerIp ports b =
     (if \<not> sim_running b \<or> \<not> sim_tcpActive b
      then (Some ''Simulated backend: cannot start UDP without active TCP route'', b)
      else if ports = [] then (Some ''Simulated backend: no UDP ports specified'', b)
      else (None, b\<lparr>sim_activePeerIp := peerIp, sim_udpPorts := ports, sim_udpActive := True\<rparr>))"

definition sim_stopUdpRelay :: "SimulatedWgxBackend \<Rightarrow> SimulatedWgxBackend" where
  "sim_stopUdpRelay b = b\<lparr>sim_udpActive := False, sim_udpPorts := []\<rparr>"

definition sim_ensureDerpRoute ::
    "bytes \<Rightarrow> int \<Rightarrow> DerpRegion list \<Rightarrow> bytes \<Rightarrow> SimulatedWgxBackend \<Rightarrow> string option \<times> SimulatedWgxBackend" where
  "sim_ensureDerpRoute peerNodeKey homeDerpRegion derpMap localPrivateKey b =
     (if \<not> sim_running b then (Some ''Simulated backend: tunnel not running'', b)
      else if all_zero peerNodeKey then (Some ''Simulated backend: peer node key is uninitialized'', b)
      else if homeDerpRegion \<le> 0 then (Some ''Simulated backend: peer has no home DERP region'', b)
      else (None, b\<lparr>sim_derpReady := True\<rparr>))"

definition sim_stop :: "SimulatedWgxBackend \<Rightarrow> SimulatedWgxBackend" where
  "sim_stop b = (sim_stopUdpRelay b)\<lparr>sim_tcpActive := False, sim_tcpPorts := [], sim_running := False, sim_derpReady := False,
     sim_activePeerIp := [], sim_activeHostIp := [], sim_directConfig := None\<rparr>"

definition sim_backend :: "SimulatedWgxBackend IWgxBackend" where
  "sim_backend = \<lparr>be_startTunnel = sim_startTunnel, be_addOrUpdatePeer = sim_addOrUpdatePeer,
     be_startTcpProxy = sim_startTcpProxy, be_startUdpRelay = sim_startUdpRelay, be_ensureDerpRoute = sim_ensureDerpRoute,
     be_stop = sim_stop, be_isRunning = sim_running, be_startDirectPath = (\<lambda>config b. b\<lparr>sim_directConfig := Some config\<rparr>)\<rparr>"

section \<open>The route\<close>

record 'b TailscaleWgxRoute =
  wr_backend :: "'b option"
  wr_activeTarget :: "RemoteRouteTarget option"
  wr_streamingPrepared :: bool

record RouteHooks =
  rh_peerResolver :: "(string \<Rightarrow> Peer option) option"
  rh_localInfo :: "(string \<times> bytes) option option"
  rh_derpMap :: "DerpRegion list option"
  rh_discoKey :: "bytes option option"
  rh_publishes :: bool
  rh_observed :: bool

definition route_hostIp :: "RemoteRouteTarget \<Rightarrow> string" where
  "route_hostIp target = (if rt_targetAddress target = [] then rt_peerAddress target else rt_targetAddress target)"

text \<open>The checks before the backend is touched: the error, or local address and key and the peer.\<close>

definition route_inputs :: "RouteHooks \<Rightarrow> RemoteRouteTarget \<Rightarrow> string + (string \<times> bytes \<times> Peer)" where
  "route_inputs hooks target =
     (if rt_peerAddress target = [] \<or> \<not> isLiteralIPv4 (rt_peerAddress target)
      then Inl (''Tailscale route target has no valid IPv4 address: '' @ rt_peerAddress target)
      else if \<not> isLiteralIPv4 (route_hostIp target)
      then Inl (''Tailscale route host is not a valid IPv4 address: '' @ route_hostIp target)
      else (case rh_localInfo hooks of
         None \<Rightarrow> Inl ''Tailscale local identity provider is not configured''
       | Some None \<Rightarrow> Inl ''Tailscale local identity is not available''
       | Some (Some (localIp, localPrivateKey)) \<Rightarrow>
           (case rh_peerResolver hooks of
              None \<Rightarrow> Inl ''Tailscale peer resolver is not configured''
            | Some resolver \<Rightarrow>
                (case resolver (rt_peerId target) of
                   None \<Rightarrow> Inl (''Tailscale peer not found in netmap: '' @ rt_peerId target)
                 | Some peer \<Rightarrow>
                     if all_zero (peer_nodeKey peer)
                     then Inl (''Tailscale peer has no valid node key: '' @ rt_peerId target)
                     else Inr (localIp, localPrivateKey, peer)))))"

definition peerNumId :: "(string \<Rightarrow> u64) \<Rightarrow> string \<Rightarrow> u32" where
  "peerNumId hash peerId = (let n = ucast (hash peerId AND 0x7FFFFFFF) in if n = 0 then 1 else n)"

definition endpoint_text :: "Endpoint \<Rightarrow> string" where
  "endpoint_text e = endpoint_address e @ '':'' @ to_string (unat (endpoint_port e))"

definition direct_config :: "RouteHooks \<Rightarrow> RemoteRouteTarget \<Rightarrow> bytes \<Rightarrow> Peer \<Rightarrow> DirectPathConfig option" where
  "direct_config hooks target localPrivateKey peer =
     (case rh_discoKey hooks of
        Some (Some discoKey) \<Rightarrow>
          if all_zero (peer_discoKey peer) then None
          else Some \<lparr>dc_peerStableId = rt_peerId target, dc_peerNodeKey = peer_nodeKey peer, dc_peerDiscoKey = peer_discoKey peer,
                     dc_peerEndpoints = map endpoint_text (endpoints peer), dc_localNodePrivate = localPrivateKey,
                     dc_localDiscoPrivate = discoKey, dc_derpMap = (case rh_derpMap hooks of None \<Rightarrow> [] | Some m \<Rightarrow> m),
                     dc_derpRegion = homeDerp peer, dc_publishes = rh_publishes hooks, dc_observed = rh_observed hooks\<rparr>
      | _ \<Rightarrow> None)"

text \<open>The four steps on the backend.\<close>

definition bring_up :: "'b IWgxBackend \<Rightarrow> (string \<Rightarrow> u64) \<Rightarrow> RouteHooks \<Rightarrow> RemoteRouteTarget \<Rightarrow> string \<times> bytes \<times> Peer \<Rightarrow>
    'b \<Rightarrow> string option \<times> 'b" where
  "bring_up B hash hooks target inputs b =
     (case inputs of (localIp, localPrivateKey, peer) \<Rightarrow>
        attempt (if be_isRunning B b then (None, b) else be_startTunnel B localPrivateKey localIp b) (\<lambda>b1.
        attempt (be_ensureDerpRoute B (peer_nodeKey peer) (homeDerp peer)
                   (case rh_derpMap hooks of None \<Rightarrow> [] | Some m \<Rightarrow> m) localPrivateKey b1) (\<lambda>b2.
        attempt (be_addOrUpdatePeer B (peerNumId hash (rt_peerId target)) (peer_nodeKey peer) (rt_peerAddress target) b2) (\<lambda>b3.
        attempt (be_startTcpProxy B (rt_peerAddress target) (route_hostIp target) kTailscaleTcpPorts b3) (\<lambda>b4.
          (None, case direct_config hooks target localPrivateKey peer of None \<Rightarrow> b4 | Some c \<Rightarrow> be_startDirectPath B c b4))))))"

definition wgx_start :: "'b IWgxBackend \<Rightarrow> (string \<Rightarrow> u64) \<Rightarrow> RouteHooks \<Rightarrow> RemoteRouteTarget \<Rightarrow> 'b TailscaleWgxRoute \<Rightarrow>
    string option \<times> 'b TailscaleWgxRoute" where
  "wgx_start B hash hooks target r =
     (case wr_backend r of
        None \<Rightarrow> (Some ''Tailscale encrypted packet path is not release-ready; refusing to advertise a routable connection'', r)
      | Some b \<Rightarrow>
          (case route_inputs hooks target of
             Inl e \<Rightarrow> (Some e, r)
           | Inr inputs \<Rightarrow>
               (case bring_up B hash hooks target inputs b of
                  (Some e, b') \<Rightarrow> (Some e, r\<lparr>wr_backend := Some b'\<rparr>)
                | (None, b') \<Rightarrow>
                    (None, r\<lparr>wr_backend := Some b', wr_activeTarget := Some target, wr_streamingPrepared := False\<rparr>))))"

definition wgx_prepareForStreaming :: "'b IWgxBackend \<Rightarrow> RemoteRouteTarget \<Rightarrow> 'b TailscaleWgxRoute \<Rightarrow>
    string option \<times> 'b TailscaleWgxRoute" where
  "wgx_prepareForStreaming B target r =
     (if (case wr_activeTarget r of None \<Rightarrow> True | Some t \<Rightarrow> rt_peerId t \<noteq> rt_peerId target)
      then (Some (''Cannot prepare streaming: route is not active for peer '' @ rt_peerId target), r)
      else (case wr_backend r of
              None \<Rightarrow> (Some ''Cannot prepare streaming: tunnel backend is not running'', r)
            | Some b \<Rightarrow>
                if \<not> be_isRunning B b then (Some ''Cannot prepare streaming: tunnel backend is not running'', r)
                else (case be_startUdpRelay B (rt_peerAddress target) kTailscaleUdpPorts b of
                        (Some e, b') \<Rightarrow> (Some e, r\<lparr>wr_backend := Some b'\<rparr>)
                      | (None, b') \<Rightarrow> (None, r\<lparr>wr_backend := Some b', wr_streamingPrepared := True\<rparr>))))"

definition wgx_stop :: "'b IWgxBackend \<Rightarrow> 'b TailscaleWgxRoute \<Rightarrow> 'b TailscaleWgxRoute" where
  "wgx_stop B r = r\<lparr>wr_backend := map_option (be_stop B) (wr_backend r), wr_activeTarget := None, wr_streamingPrepared := False\<rparr>"

definition wgx_isActive :: "'b IWgxBackend \<Rightarrow> 'b TailscaleWgxRoute \<Rightarrow> bool" where
  "wgx_isActive B r = (wr_activeTarget r \<noteq> None \<and> (case wr_backend r of None \<Rightarrow> False | Some b \<Rightarrow> be_isRunning B b))"

definition wgx_activePeerId :: "'b TailscaleWgxRoute \<Rightarrow> string" where
  "wgx_activePeerId r = (case wr_activeTarget r of None \<Rightarrow> [] | Some t \<Rightarrow> rt_peerId t)"

section \<open>What a route promises\<close>

lemma attempt_None_iff: "attempt m k = (None, s) \<longleftrightarrow> (\<exists>t. m = (None, t) \<and> k t = (None, s))"
  by (cases m; cases "fst m") auto

lemma mask_2147483647: "(0x7FFFFFFF :: u64) = mask 31"
  by (simp add: mask_eq_exp_minus_1)

lemma peerNumId_range: "0 < peerNumId hash pid \<and> unat (peerNumId hash pid) < 2 ^ 31"
proof -
  let ?n = "ucast (hash pid AND 0x7FFFFFFF) :: u32"
  have "\<not> bit ?n k" if "31 \<le> k" for k
    using that by (simp add: bit_simps mask_2147483647)
  then have eq: "take_bit 31 ?n = ?n" by (intro bit_word_eqI) (auto simp: bit_simps mask_2147483647)
  have "unat ?n = unat (take_bit 31 ?n)" by (simp only: eq)
  also have "\<dots> = take_bit 31 (unat ?n)" by (rule unsigned_take_bit_eq)
  also have "\<dots> < 2 ^ 31" by (rule take_bit_nat_less_exp)
  finally have "unat ?n < 2 ^ 31" .
  then show ?thesis by (auto simp: peerNumId_def Let_def word_gt_0)
qed

lemma peerNumId_nonzero: "peerNumId hash pid \<noteq> 0"
  using peerNumId_range [of hash pid] by auto

lemma wgx_start_target:
  "wgx_start B hash hooks target r = (None, r') \<Longrightarrow> wr_activeTarget r' = Some target"
  "wgx_start B hash hooks target r = (Some e, r') \<Longrightarrow> wr_activeTarget r' = wr_activeTarget r"
  by (auto simp: wgx_start_def split: option.splits sum.splits prod.splits)

lemma wgx_prepare_target:
  "wgx_prepareForStreaming B target r = (e, r') \<Longrightarrow> wr_activeTarget r' = wr_activeTarget r"
  by (auto simp: wgx_prepareForStreaming_def split: option.splits prod.splits if_splits)

lemma sim_bring_up_iff:
  assumes "\<not> sim_running b" "\<not> all_zero (peer_nodeKey peer)" "isLiteralIPv4 (rt_peerAddress target)" "rt_peerAddress target \<noteq> []"
  shows "fst (bring_up sim_backend hash hooks target (localIp, key, peer) b) = None \<longleftrightarrow>
    \<not> all_zero key \<and> localIp \<noteq> [] \<and> isLiteralIPv4 localIp \<and> 0 < homeDerp peer"
  using assms peerNumId_nonzero [of hash "rt_peerId target"]
  by (simp add: bring_up_def sim_backend_def sim_startTunnel_def sim_ensureDerpRoute_def sim_addOrUpdatePeer_def
      sim_startTcpProxy_def kTailscaleTcpPorts_def)

definition proxies :: "RemoteRouteTarget \<Rightarrow> SimulatedWgxBackend \<Rightarrow> bool" where
  "proxies target b = (sim_running b \<and> sim_derpReady b \<and> sim_tcpActive b \<and> sim_tcpPorts b = kTailscaleTcpPorts
     \<and> sim_activePeerIp b = rt_peerAddress target \<and> sim_activeHostIp b = route_hostIp target)"

lemma sim_bring_up_proxies:
  assumes "bring_up sim_backend hash hooks target inputs b = (None, b')"
  shows "proxies target b'"
  using assms
  by (cases inputs)
    (auto simp: bring_up_def attempt_None_iff sim_backend_def sim_startTunnel_def sim_ensureDerpRoute_def sim_addOrUpdatePeer_def
      sim_startTcpProxy_def proxies_def split: if_split_asm option.split)

lemma route_inputs_InrD:
  assumes "route_inputs hooks target = Inr (localIp, key, peer)"
  shows "isLiteralIPv4 (rt_peerAddress target) \<and> rt_peerAddress target \<noteq> [] \<and> isLiteralIPv4 (route_hostIp target)
    \<and> \<not> all_zero (peer_nodeKey peer) \<and> rh_localInfo hooks = Some (Some (localIp, key))
    \<and> (\<exists>resolver. rh_peerResolver hooks = Some resolver \<and> resolver (rt_peerId target) = Some peer)"
  using assms by (auto simp: route_inputs_def split: if_split_asm option.split_asm prod.split_asm)


definition example_hooks :: RouteHooks where
  "example_hooks = \<lparr>rh_peerResolver = Some (\<lambda>pid. findByStableId pid \<lparr>peers = [(''n1'', example_netmap_peer)]\<rparr>),
     rh_localInfo = Some (Some (''100.64.0.9'', replicate 32 3)), rh_derpMap = None, rh_discoKey = None,
     rh_publishes = False, rh_observed = False\<rparr>"

definition example_route :: "SimulatedWgxBackend TailscaleWgxRoute" where
  "example_route = \<lparr>wr_backend = Some sim_initial, wr_activeTarget = None, wr_streamingPrepared = False\<rparr>"

definition example_target :: RemoteRouteTarget where
  "example_target = proxy_target ''n1'' ''100.64.0.5'' ''192.168.1.7''"

lemma all_zero_replicate: "all_zero (replicate n v) \<longleftrightarrow> n = 0 \<or> v = 0"
  by (auto simp: all_zero_def list_all_iff)

lemma example_inputs: "route_inputs example_hooks example_target = Inr (''100.64.0.9'', replicate 32 3, example_netmap_peer)"
  by (simp add: route_inputs_def route_hostIp_def example_hooks_def example_target_def proxy_target_def findByStableId_def
      isLiteralIPv4_def ipv4_eval example_netmap_peer_def empty_Peer_def all_zero_replicate)


end
