(* ===== verification/TailscaleCore.thy ===== *)
theory TailscaleCore
  imports TailscaleRoute TailscalePathManager TailscaleStateStore "HOL-Library.Multiset"
begin

text \<open>
  Model of \<open>app/src/remote_access/tailscale/TailscaleCore.hpp\<close> and \<open>.cpp\<close>: the engine that owns the identity, the control
  session, the peer directory and the overlay route.

  The worker thread is a state machine.  Its program points (\<open>WorkerPhase\<close>) are the calls at which it blocks (connecting, polling,
  waiting before a reconnect) and the loop heads between them; one step runs from one point to the next.  The operations other threads call
  (\<open>start\<close>, \<open>stop\<close>, the route operations, the callbacks of the route) are steps of their own, so that they interleave with the
  worker at these points.  \<open>stop\<close> is two steps, since it waits for the worker in between.

  The control session is behind an interface whose answers (connected, delivered an update, failed) are carried by the steps, and the calls
  made on it are recorded in \<open>tc_calls\<close>.  The overlay route is behind the interface \<open>IOverlayRoute\<close>, whose implementation is in
  \<open>TailscaleRoute\<close>.  The log, and the counters that only feed it, are not modelled.
\<close>

section \<open>State\<close>

datatype SnapshotState = CoreStopped | CoreStarting | NeedsAuthentication | ConnectingControl | ConnectedControl | CoreReady | CoreError

record Snapshot =
  snap_state :: SnapshotState
  snap_localAddress :: string
  snap_derpMap :: "DerpRegion list"
  snap_status :: string
  snap_lastError :: string

datatype SessionResult = SessionStopped | ConnectFailed | DroppedEarly | DroppedAfterData | SessionFatal

datatype ControlCall =
    CallSetInitialPreferredDerp int
  | CallConnect Identity bytes
  | CallSendHostinfoUpdate int
  | CallSetLocalEndpoints "string list"
  | CallClose
  | CallInterrupt

text \<open>
  The local variables of \<open>workerMain\<close> that live across its blocking calls, and where it is: not started (no joinable thread), about to load the
  identity, at the head of the reconnect loop, in \<open>connect\<close>, at the head of the poll loop with the number of messages so far, in
  \<open>poll\<close>, waiting before a reconnect, or finished.
\<close>

record WorkerLocals =
  wl_authKey :: bytes
  wl_backoff :: nat
  wl_firstSession :: bool
  wl_everProductive :: bool

datatype WorkerPhase =
    NoThread
  | LoadingIdentity bytes bytes
  | LoopHead Identity WorkerLocals
  | InConnect Identity WorkerLocals int
  | PollHead Identity WorkerLocals nat
  | InPoll Identity WorkerLocals nat
  | WaitingReconnect Identity WorkerLocals
  | WorkerDone

record 'o TailscaleCore =
  tc_files :: StateFiles
  tc_hasControl :: bool
  tc_overlay :: "'o option"
  tc_peers :: PeerDirectory
  tc_paths :: PathManager
  tc_identity :: "Identity option"
  tc_snapshot :: Snapshot
  tc_activeRoute :: "RemoteRouteTarget option"
  tc_stopRequested :: bool
  tc_controlConnected :: bool
  tc_advertisedDerp :: int
  tc_homeDerpHint :: int
  tc_publishedEndpoints :: "string list"
  tc_homeDerpFile :: "string option"
  tc_worker :: WorkerPhase
  tc_calls :: "ControlCall list"

record 'o IOverlayRoute =
  ov_start :: "RouteHooks \<Rightarrow> RemoteRouteTarget \<Rightarrow> 'o \<Rightarrow> string option \<times> 'o"
  ov_prepare :: "RemoteRouteTarget \<Rightarrow> 'o \<Rightarrow> string option \<times> 'o"
  ov_stop :: "'o \<Rightarrow> 'o"

definition call :: "ControlCall \<Rightarrow> 'o TailscaleCore \<Rightarrow> 'o TailscaleCore" where
  "call k c = c\<lparr>tc_calls := tc_calls c @ [k]\<rparr>"

definition setState :: "SnapshotState \<Rightarrow> string \<Rightarrow> string \<Rightarrow> 'o TailscaleCore \<Rightarrow> 'o TailscaleCore" where
  "setState st status err c =
     c\<lparr>tc_snapshot := (tc_snapshot c)\<lparr>snap_state := st, snap_status := status, snap_lastError := err\<rparr>\<rparr>"

text \<open>The callbacks the constructor installs on the route, evaluated in the state they are called in.\<close>

definition core_hooks :: "'o TailscaleCore \<Rightarrow> RouteHooks" where
  "core_hooks c =
     \<lparr>rh_peerResolver = Some (\<lambda>peerId. findByStableId peerId (tc_peers c)),
      rh_localInfo = Some (if snap_localAddress (tc_snapshot c) = [] then None
        else map_option (\<lambda>i. (snap_localAddress (tc_snapshot c), nodePrivate i)) (tc_identity c)),
      rh_derpMap = Some (snap_derpMap (tc_snapshot c)),
      rh_discoKey = Some (map_option discoPrivate (tc_identity c)),
      rh_publishes = True, rh_observed = True\<rparr>"

definition pathObserver :: "string \<Rightarrow> string \<Rightarrow> int \<Rightarrow> time_point \<Rightarrow> 'o TailscaleCore \<Rightarrow> 'o TailscaleCore" where
  "pathObserver peerId endpoint rttMs now c =
     c\<lparr>tc_paths := (if endpoint = [] then directLost peerId (tc_paths c) else directPong peerId endpoint rttMs now (tc_paths c))\<rparr>"

section \<open>Home relay region\<close>

text \<open>\<open>++votes[homeDerp]\<close> over the online peers; the loop over the votes visits them in the order \<open>iter\<close> gives them.\<close>

definition add_vote :: "int \<Rightarrow> (int \<times> nat) list \<Rightarrow> (int \<times> nat) list" where
  "add_vote region votes = AList.update region ((case map_of votes region of None \<Rightarrow> 0 | Some n \<Rightarrow> n) + 1) votes"

definition collect_votes :: "Peer list \<Rightarrow> (int \<times> nat) list" where
  "collect_votes ps = fold (\<lambda>p votes. if online p \<and> homeDerp p > 0 then add_vote (homeDerp p) votes else votes) ps []"

definition consider_vote :: "int \<times> nat \<Rightarrow> int \<times> nat \<Rightarrow> int \<times> nat" where
  "consider_vote entry st =
     (case (entry, st) of ((region, n), (best_region, bestVotes)) \<Rightarrow>
        if n > bestVotes \<or> (n = bestVotes \<and> region < best_region) then (region, n) else (best_region, bestVotes))"

fun lowest_region :: "DerpRegion list \<Rightarrow> int \<Rightarrow> int" where
  "lowest_region [] lowest = lowest"
| "lowest_region (region # rest) lowest =
     lowest_region rest (if derp_nodes region \<noteq> [] \<and> (lowest = 0 \<or> regionId region < lowest) then regionId region else lowest)"

definition chooseDefaultHomeDerp :: "((int \<times> nat) list \<Rightarrow> (int \<times> nat) list) \<Rightarrow> 'o TailscaleCore \<Rightarrow> int" where
  "chooseDefaultHomeDerp iter c =
     (let regions = snap_derpMap (tc_snapshot c) in
      if regions = [] then 0
      else
        let best_region = fst (fold consider_vote (iter (collect_votes (snapshot (tc_peers c)))) (0, 0))
        in if best_region > 0 then best_region else lowest_region regions 0)"

text \<open>
  \<open>in >> region\<close>: white space is skipped, then an optional sign and digits; no digit or a value that is no \<open>int\<close> sets
  the failure flag.  A file that cannot be opened fails too.
\<close>

definition extract_int :: "string \<Rightarrow> int option" where
  "extract_int s =
     (let body = dropWhile isspace s;
          signless = (case body of [] \<Rightarrow> body | ch # rest \<Rightarrow> if ch = CHR ''+'' then rest else body)
      in if signless \<noteq> body \<and> signless \<noteq> [] \<and> hd signless = CHR ''-'' then None
         else map_option fst (from_chars_int signless))"

definition loadHomeDerpHint :: "string option \<Rightarrow> int" where
  "loadHomeDerpHint content =
     (case content of
        None \<Rightarrow> 0
      | Some s \<Rightarrow>
          (case extract_int s of
             None \<Rightarrow> 0
           | Some region \<Rightarrow> if region \<le> 0 \<or> region > 65535 then 0 else region))"

text \<open>Called with a positive region only, so the number is written without a sign.\<close>

definition saveHomeDerpHint :: "bool \<Rightarrow> int \<Rightarrow> string option \<Rightarrow> string option" where
  "saveHomeDerpHint opens region content =
     (if opens then Some (to_string (nat region) @ [CHR 0x0A]) else content)"

definition advertiseHomeDerp :: "bool \<Rightarrow> bool \<Rightarrow> int \<Rightarrow> 'o TailscaleCore \<Rightarrow> 'o TailscaleCore" where
  "advertiseHomeDerp opens sent region c =
     (if region \<le> 0 \<or> \<not> tc_hasControl c then c
      else
        let c1 = (if region \<noteq> tc_homeDerpHint c
                  then c\<lparr>tc_homeDerpHint := region, tc_homeDerpFile := saveHomeDerpHint opens region (tc_homeDerpFile c)\<rparr> else c)
        in if \<not> tc_controlConnected c1 then c1
           else if region = tc_advertisedDerp c1 then c1
           else
             let c2 = call (CallSendHostinfoUpdate region) c1
             in if \<not> sent then c2 else c2\<lparr>tc_advertisedDerp := region\<rparr>)"

definition publishEndpoints :: "string list \<Rightarrow> 'o TailscaleCore \<Rightarrow> 'o TailscaleCore" where
  "publishEndpoints eps c =
     (if \<not> tc_hasControl c then c
      else if eps = tc_publishedEndpoints c then c
      else
        let c1 = call (CallSetLocalEndpoints eps) (c\<lparr>tc_publishedEndpoints := eps\<rparr>)
        in if \<not> tc_controlConnected c1 \<or> tc_advertisedDerp c1 \<le> 0 then c1
           else call (CallSendHostinfoUpdate (tc_advertisedDerp c1)) c1)"

definition advertiseDefault :: "((int \<times> nat) list \<Rightarrow> (int \<times> nat) list) \<Rightarrow> bool \<Rightarrow> bool \<Rightarrow> 'o TailscaleCore \<Rightarrow> 'o TailscaleCore" where
  "advertiseDefault iter opens sent c =
     (if tc_advertisedDerp c \<noteq> 0 then c else advertiseHomeDerp opens sent (chooseDefaultHomeDerp iter c) c)"

section \<open>Routes\<close>

definition same_route :: "RemoteRouteTarget \<Rightarrow> RemoteRouteTarget \<Rightarrow> bool" where
  "same_route a t = (rt_peerId a = rt_peerId t \<and> rt_targetAddress a = rt_targetAddress t)"

definition activateRoute :: "'o IOverlayRoute \<Rightarrow> bool \<Rightarrow> bool \<Rightarrow> RemoteRouteTarget \<Rightarrow> 'o TailscaleCore \<Rightarrow> bool \<times> 'o TailscaleCore" where
  "activateRoute ov opens sent target c =
     (case tc_overlay c of
        None \<Rightarrow> (False, c)
      | Some ovl \<Rightarrow>
          if (case tc_activeRoute c of None \<Rightarrow> False | Some a \<Rightarrow> same_route a target) then (True, c)
          else
            let c1 = (case findByStableId (rt_peerId target) (tc_peers c) of
                        None \<Rightarrow> c
                      | Some peer \<Rightarrow> if homeDerp peer > 0 then advertiseHomeDerp opens sent (homeDerp peer) c else c)
            in (case ov_start ov (core_hooks c1) target (ov_stop ov ovl) of
                  (Some e, ovl') \<Rightarrow>
                    (False, (setState CoreError ''Route failed'' e (c1\<lparr>tc_overlay := Some ovl'\<rparr>))\<lparr>tc_activeRoute := None\<rparr>)
                | (None, ovl') \<Rightarrow> (True, c1\<lparr>tc_overlay := Some ovl', tc_activeRoute := Some target\<rparr>)))"

definition prepareRouteForStreaming :: "'o IOverlayRoute \<Rightarrow> RemoteRouteTarget \<Rightarrow> 'o TailscaleCore \<Rightarrow> bool \<times> 'o TailscaleCore" where
  "prepareRouteForStreaming ov target c =
     (case (tc_overlay c, tc_activeRoute c) of
        (Some ovl, Some a) \<Rightarrow>
          if rt_peerId a \<noteq> rt_peerId target then (False, c)
          else (case ov_prepare ov target ovl of
                  (Some e, ovl') \<Rightarrow> (False, setState CoreError ''Stream route failed'' e (c\<lparr>tc_overlay := Some ovl'\<rparr>))
                | (None, ovl') \<Rightarrow> (True, c\<lparr>tc_overlay := Some ovl'\<rparr>))
      | _ \<Rightarrow> (False, c))"

definition deactivateRoute :: "'o IOverlayRoute \<Rightarrow> RemoteRouteTarget \<Rightarrow> 'o TailscaleCore \<Rightarrow> 'o TailscaleCore" where
  "deactivateRoute ov target c =
     (case (tc_overlay c, tc_activeRoute c) of
        (Some ovl, Some a) \<Rightarrow>
          if same_route a target then c\<lparr>tc_overlay := Some (ov_stop ov ovl), tc_activeRoute := None\<rparr> else c
      | _ \<Rightarrow> c)"

definition resolveRoute :: "string \<Rightarrow> 'o TailscaleCore \<Rightarrow> RemoteRouteTarget option" where
  "resolveRoute address c = resolveIPv4 address (tc_peers c)"

definition core_snapshot :: "'o TailscaleCore \<Rightarrow> Snapshot \<times> Peer list" where
  "core_snapshot c = (tc_snapshot c, snapshot (tc_peers c))"

definition core_pathInfo :: "string \<Rightarrow> 'o TailscaleCore \<Rightarrow> RemotePathInfo" where
  "core_pathInfo peerId c = pathInfo peerId (tc_paths c)"

section \<open>Network map\<close>

definition make_ready :: "string \<Rightarrow> 'o TailscaleCore \<Rightarrow> 'o TailscaleCore" where
  "make_ready address c =
     c\<lparr>tc_snapshot := (tc_snapshot c)\<lparr>snap_localAddress := address, snap_state := CoreReady, snap_status := ''Ready'', snap_lastError := []\<rparr>\<rparr>"

definition replacePeers :: "Peer list \<Rightarrow> string \<Rightarrow> 'o TailscaleCore \<Rightarrow> string option \<times> 'o TailscaleCore" where
  "replacePeers ps address c =
     (if \<not> isLiteralIPv4 address then (Some ''control map has no usable IPv4 address'', c)
      else (case PeerDirectory_replace ps (tc_peers c) of
              (Some e, _) \<Rightarrow> (Some e, c)
            | (None, d) \<Rightarrow> (None, make_ready address (c\<lparr>tc_peers := d\<rparr>))))"

definition applyPeerDelta :: "PeerDelta \<Rightarrow> 'o TailscaleCore \<Rightarrow> string option \<times> 'o TailscaleCore" where
  "applyPeerDelta delta c = (case PeerDirectory_apply delta (tc_peers c) of (e, d) \<Rightarrow> (e, c\<lparr>tc_peers := d\<rparr>))"

definition updateDerpMap :: "DerpRegion list \<Rightarrow> 'o TailscaleCore \<Rightarrow> 'o TailscaleCore" where
  "updateDerpMap regions c = c\<lparr>tc_snapshot := (tc_snapshot c)\<lparr>snap_derpMap := regions\<rparr>\<rparr>"

section \<open>The worker\<close>

text \<open>
  What the outside decides while a step runs: the contents and faults of the state files, the crypto library, the answer of the identity
  generator (\<open>None\<close> when there is none), and for the home region file and \<open>sendHostinfoUpdate\<close> whether they succeed.
\<close>

record CoreEnv =
  env_crypto :: StateCrypto
  env_loadFaults :: LoadFaults
  env_saveFaults :: SaveFaults
  env_kdf :: StateKdfParameters
  env_salt :: bytes
  env_nonce :: bytes
  env_generator :: "(string + Identity) option"
  env_iter :: "(int \<times> nat) list \<Rightarrow> (int \<times> nat) list"
  env_opens :: bool
  env_sent :: bool
  env_now :: time_point

text \<open>The identity: the state the worker shows when it gives up, or the identity; with the files afterwards.\<close>

definition obtain_identity :: "CoreEnv \<Rightarrow> bytes \<Rightarrow> StateFiles \<Rightarrow> ((string \<times> string) + Identity) \<times> StateFiles" where
  "obtain_identity env passphrase files =
     (case load (env_crypto env) (env_loadFaults env) passphrase files of
        (loaded, files1) \<Rightarrow>
          let fresh = (\<lambda>err.
                case env_generator env of
                  None \<Rightarrow> (Inl (''Identity generation failed'', err), files1)
                | Some (Inl e) \<Rightarrow> (Inl (''Identity generation failed'', e), files1)
                | Some (Inr generated) \<Rightarrow>
                    (case save (env_crypto env) (env_saveFaults env) generated
                            (if passphrase = [] then PlainState else PassphraseState) passphrase
                            (env_kdf env) (env_salt env) (env_nonce env) files1 of
                       (Some e, states) \<Rightarrow> (Inl (''Identity save failed'', e), last states)
                     | (None, states) \<Rightarrow> (Inr generated, last states)))
          in (case loaded of
                Inr i \<Rightarrow> if isWeakIdentity i then fresh [] else (Inr i, files1)
              | Inl err \<Rightarrow>
                  if err \<noteq> ''Tailscale state does not exist'' then (Inl (''Identity unavailable'', err), files1)
                  else fresh err))"

definition kInitialBackoff :: nat where
  "kInitialBackoff = 1"

definition kMaxBackoff :: nat where
  "kMaxBackoff = 30"

definition worker_begin :: "CoreEnv \<Rightarrow> bytes \<Rightarrow> bytes \<Rightarrow> 'o TailscaleCore \<Rightarrow> 'o TailscaleCore" where
  "worker_begin env authKey passphrase c =
     (case obtain_identity env passphrase (tc_files c) of
        (Inl (status, err), files) \<Rightarrow> (setState CoreError status err (c\<lparr>tc_files := files\<rparr>))\<lparr>tc_worker := WorkerDone\<rparr>
      | (Inr identity, files) \<Rightarrow>
          let c1 = c\<lparr>tc_files := files, tc_identity := Some identity\<rparr>
          in if \<not> tc_hasControl c1
             then (setState CoreError ''Control unavailable'' ''Tailscale control transport is not linked'' c1)\<lparr>tc_worker := WorkerDone\<rparr>
             else c1\<lparr>tc_homeDerpHint := (if tc_homeDerpHint c1 = 0 then loadHomeDerpHint (tc_homeDerpFile c1) else tc_homeDerpHint c1),
                     tc_worker := LoopHead identity \<lparr>wl_authKey = authKey, wl_backoff = kInitialBackoff, wl_firstSession = True,
                       wl_everProductive = False\<rparr>\<rparr>)"

text \<open>The loop of \<open>workerMain\<close> after a session has ended with a result.\<close>

definition after_session :: "SessionResult \<Rightarrow> Identity \<Rightarrow> WorkerLocals \<Rightarrow> 'o TailscaleCore \<Rightarrow> 'o TailscaleCore" where
  "after_session result identity w c =
     (if result = SessionStopped \<or> tc_stopRequested c then c\<lparr>tc_worker := WorkerDone\<rparr>
      else if result = SessionFatal then c\<lparr>tc_worker := WorkerDone\<rparr>
      else
        let w1 = (if result = DroppedAfterData then w\<lparr>wl_everProductive := True, wl_backoff := kInitialBackoff\<rparr> else w)
        in if \<not> wl_everProductive w1 then c\<lparr>tc_worker := WorkerDone\<rparr>
           else c\<lparr>tc_worker := WaitingReconnect identity (w1\<lparr>wl_firstSession := False\<rparr>)\<rparr>)"

definition loop_head :: "Identity \<Rightarrow> WorkerLocals \<Rightarrow> 'o TailscaleCore \<Rightarrow> 'o TailscaleCore" where
  "loop_head identity w c =
     (if tc_stopRequested c then c\<lparr>tc_worker := WorkerDone\<rparr>
      else
        let hint = tc_homeDerpHint c;
            c1 = setState ConnectingControl
                   (if wl_firstSession w then ''Connecting control'' else ''Reconnecting to control'') []
                   (call (CallSetInitialPreferredDerp hint) c)
        in (call (CallConnect identity (wl_authKey w)) c1)\<lparr>tc_worker := InConnect identity w hint\<rparr>)"

text \<open>\<open>connect\<close> has returned: \<open>Some e\<close> when it failed with text \<open>e\<close>.\<close>

definition connect_returned :: "string option \<Rightarrow> Identity \<Rightarrow> WorkerLocals \<Rightarrow> int \<Rightarrow> 'o TailscaleCore \<Rightarrow> 'o TailscaleCore" where
  "connect_returned answer identity w hint c =
     (case answer of
        Some e \<Rightarrow>
          let result = (if tc_stopRequested c then SessionStopped else ConnectFailed)
          in if wl_firstSession w
             then after_session result identity (w\<lparr>wl_authKey := []\<rparr>)
                    (setState (if wl_authKey w \<noteq> [] then CoreError else NeedsAuthentication) ''Authentication failed'' e c)
             else after_session result identity w (setState ConnectingControl ''Reconnecting to control'' e c)
      | None \<Rightarrow>
          (setState ConnectedControl ''Control connected'' [] c)
            \<lparr>tc_advertisedDerp := hint, tc_controlConnected := True, tc_worker := PollHead identity (w\<lparr>wl_authKey := []\<rparr>) 0\<rparr>)"

definition finish_session :: "SessionResult \<Rightarrow> Identity \<Rightarrow> WorkerLocals \<Rightarrow> 'o TailscaleCore \<Rightarrow> 'o TailscaleCore" where
  "finish_session result identity w c = after_session result identity w (call CallClose (c\<lparr>tc_controlConnected := False\<rparr>))"

definition poll_head :: "Identity \<Rightarrow> WorkerLocals \<Rightarrow> nat \<Rightarrow> 'o TailscaleCore \<Rightarrow> 'o TailscaleCore" where
  "poll_head identity w messageCount c =
     (if tc_stopRequested c then finish_session SessionStopped identity w c
      else c\<lparr>tc_worker := InPoll identity w messageCount\<rparr>)"

definition poll_failed :: "string \<Rightarrow> Identity \<Rightarrow> WorkerLocals \<Rightarrow> nat \<Rightarrow> 'o TailscaleCore \<Rightarrow> 'o TailscaleCore" where
  "poll_failed e identity w messageCount c =
     (if tc_stopRequested c then finish_session SessionStopped identity w c
      else if messageCount > 0
      then finish_session DroppedAfterData identity w (setState ConnectingControl ''Reconnecting to control'' e c)
      else finish_session DroppedEarly identity w (setState CoreError ''Control disconnected'' e c))"

definition store_derp :: "DerpRegion list option \<Rightarrow> 'o TailscaleCore \<Rightarrow> 'o TailscaleCore" where
  "store_derp derpMap c = (case derpMap of None \<Rightarrow> c | Some regions \<Rightarrow> updateDerpMap regions c)"

definition delta_empty :: "PeerDelta \<Rightarrow> bool" where
  "delta_empty delta = (changed delta = [] \<and> removedStableIds delta = [] \<and> onlineChanges delta = [])"

definition poll_delivered :: "CoreEnv \<Rightarrow> MapUpdate \<Rightarrow> Identity \<Rightarrow> WorkerLocals \<Rightarrow> nat \<Rightarrow> 'o TailscaleCore \<Rightarrow> 'o TailscaleCore" where
  "poll_delivered env u identity w messageCount c =
     (let next = PollHead identity w (messageCount + 1);
          advertise = advertiseDefault (env_iter env) (env_opens env) (env_sent env) in
      case fullPeers u of
        Some full \<Rightarrow>
          (case replacePeers full (localAddress u) c of
             (Some e, c1) \<Rightarrow>
               if tc_stopRequested c1 then finish_session SessionStopped identity w c1
               else finish_session SessionFatal identity w (setState CoreError ''Netmap rejected'' e c1)
           | (None, c1) \<Rightarrow> (advertise (store_derp (update_derpMap u) c1))\<lparr>tc_worker := next\<rparr>)
      | None \<Rightarrow>
          let c1 = (if delta_empty (update_delta u) then c else snd (applyPeerDelta (update_delta u) c));
              c2 = store_derp (update_derpMap u) c1;
              c3 = (if localAddress u \<noteq> [] then make_ready (localAddress u) c2 else c2);
              c4 = c3\<lparr>tc_paths := PathManager_poll (env_now env) (tc_paths c3)\<rparr>
          in (advertise c4)\<lparr>tc_worker := next\<rparr>)"

definition waited :: "Identity \<Rightarrow> WorkerLocals \<Rightarrow> 'o TailscaleCore \<Rightarrow> 'o TailscaleCore" where
  "waited identity w c =
     (if tc_stopRequested c then c\<lparr>tc_worker := WorkerDone\<rparr>
      else c\<lparr>tc_worker := LoopHead identity (w\<lparr>wl_backoff := min (wl_backoff w * 2) kMaxBackoff\<rparr>)\<rparr>)"

datatype ControlAnswer = Connected | Refused string | Delivered MapUpdate | PollFailed string | NoAnswer

text \<open>One step of the worker; \<open>None\<close> where it has nothing to do, or the answer is to a call it is not in.\<close>

definition worker_step :: "CoreEnv \<Rightarrow> ControlAnswer \<Rightarrow> 'o TailscaleCore \<Rightarrow> 'o TailscaleCore option" where
  "worker_step env answer c =
     (case tc_worker c of
        NoThread \<Rightarrow> None
      | WorkerDone \<Rightarrow> None
      | LoadingIdentity authKey passphrase \<Rightarrow> Some (worker_begin env authKey passphrase c)
      | LoopHead identity w \<Rightarrow> Some (loop_head identity w c)
      | InConnect identity w hint \<Rightarrow>
          (case answer of
             Connected \<Rightarrow> Some (connect_returned None identity w hint c)
           | Refused e \<Rightarrow> Some (connect_returned (Some e) identity w hint c)
           | _ \<Rightarrow> None)
      | PollHead identity w n \<Rightarrow> Some (poll_head identity w n c)
      | InPoll identity w n \<Rightarrow>
          (case answer of
             Delivered u \<Rightarrow> Some (poll_delivered env u identity w n c)
           | PollFailed e \<Rightarrow> Some (poll_failed e identity w n c)
           | _ \<Rightarrow> None)
      | WaitingReconnect identity w \<Rightarrow> Some (waited identity w c))"

section \<open>Starting and stopping\<close>

definition core_start :: "bytes \<Rightarrow> bytes \<Rightarrow> 'o TailscaleCore \<Rightarrow> bool \<times> 'o TailscaleCore" where
  "core_start authKey passphrase c =
     (if tc_worker c \<noteq> NoThread then (False, c)
      else (True, (setState CoreStarting ''Starting'' [] (c\<lparr>tc_stopRequested := False\<rparr>))\<lparr>tc_worker := LoadingIdentity authKey passphrase\<rparr>))"

definition stop_request :: "'o TailscaleCore \<Rightarrow> 'o TailscaleCore" where
  "stop_request c = (if tc_hasControl c then call CallInterrupt else id) (c\<lparr>tc_stopRequested := True\<rparr>)"

text \<open>The rest of \<open>stop\<close>, once the worker has been joined.\<close>

definition stop_finish :: "'o IOverlayRoute \<Rightarrow> 'o TailscaleCore \<Rightarrow> 'o TailscaleCore" where
  "stop_finish ov c =
     setState CoreStopped ''Stopped'' []
       (((if tc_hasControl c then call CallClose else id) c)
          \<lparr>tc_overlay := map_option (ov_stop ov) (tc_overlay c), tc_activeRoute := None, tc_worker := NoThread\<rparr>)"

definition core_new :: "StateFiles \<Rightarrow> string option \<Rightarrow> bool \<Rightarrow> 'o option \<Rightarrow> 'o TailscaleCore" where
  "core_new files homeDerpFile hasControl overlay =
     \<lparr>tc_files = files, tc_hasControl = hasControl, tc_overlay = overlay, tc_peers = \<lparr>peers = []\<rparr>, tc_paths = \<lparr>paths = Map.empty\<rparr>,
      tc_identity = None,
      tc_snapshot = \<lparr>snap_state = CoreStopped, snap_localAddress = [], snap_derpMap = [], snap_status = [], snap_lastError = []\<rparr>,
      tc_activeRoute = None, tc_stopRequested = False, tc_controlConnected = False, tc_advertisedDerp = 0, tc_homeDerpHint = 0,
      tc_publishedEndpoints = [], tc_homeDerpFile = homeDerpFile, tc_worker = NoThread, tc_calls = []\<rparr>"

text \<open>
  Everything that can happen to an engine, labelled by who does it.  \<open>start\<close> and \<open>stop\<close> come from one thread, so a
  start does not fall between the two halves of a stop.
\<close>

datatype CoreActor = ByWorker | ByStart | ByOther

inductive core_step :: "'o IOverlayRoute \<Rightarrow> CoreActor \<Rightarrow> 'o TailscaleCore \<Rightarrow> 'o TailscaleCore \<Rightarrow> bool" for ov where
  StepWorker: "worker_step env answer c = Some c' \<Longrightarrow> core_step ov ByWorker c c'"
| StepStart: "core_start authKey passphrase c = (True, c') \<Longrightarrow> core_step ov ByStart c c'"
| StepStopRequest: "core_step ov ByOther c (stop_request c)"
| StepStopFinish: "tc_worker c = NoThread \<or> tc_worker c = WorkerDone \<Longrightarrow> tc_stopRequested c \<Longrightarrow>
    core_step ov ByOther c (stop_finish ov c)"
| StepActivate: "core_step ov ByOther c (snd (activateRoute ov opens sent target c))"
| StepPrepare: "core_step ov ByOther c (snd (prepareRouteForStreaming ov target c))"
| StepDeactivate: "core_step ov ByOther c (deactivateRoute ov target c)"
| StepPublish: "core_step ov ByOther c (publishEndpoints eps c)"
| StepPath: "core_step ov ByOther c (pathObserver peerId endpoint rttMs now c)"
| StepReplace: "core_step ov ByOther c (snd (replacePeers ps address c))"
| StepApply: "core_step ov ByOther c (snd (applyPeerDelta delta c))"
| StepDerpMap: "core_step ov ByOther c (updateDerpMap regions c)"

inductive_cases core_step_StartE: "core_step ov ByStart c c'"
inductive_cases core_step_WorkerE: "core_step ov ByWorker c c'"

inductive core_trace :: "'o IOverlayRoute \<Rightarrow> 'o TailscaleCore \<Rightarrow> CoreActor list \<Rightarrow> 'o TailscaleCore \<Rightarrow> bool" for ov where
  TraceNil: "core_trace ov c [] c"
| TraceSnoc: "core_trace ov c ls c' \<Longrightarrow> core_step ov l c' c'' \<Longrightarrow> core_trace ov c (ls @ [l]) c''"

end
