(* ===== verification/TailscaleCoreCorrect.thy ===== *)
theory TailscaleCoreCorrect
  imports TailscaleCore
begin

text \<open>
  What the engine of \<open>TailscaleCore\<close> guarantees: its record of the active route agrees with the overlay under every interleaving,
  stopping ends the worker, the login key is used once, reconnects back off, the home region does not depend on the order in which a hash table
  is traversed.
\<close>

section \<open>What the operations leave alone\<close>

lemma call_sel [simp]:
  "tc_overlay (call k c) = tc_overlay c" "tc_activeRoute (call k c) = tc_activeRoute c" "tc_worker (call k c) = tc_worker c"
  "tc_stopRequested (call k c) = tc_stopRequested c" "tc_peers (call k c) = tc_peers c" "tc_snapshot (call k c) = tc_snapshot c"
  "tc_calls (call k c) = tc_calls c @ [k]" "tc_controlConnected (call k c) = tc_controlConnected c"
  "tc_advertisedDerp (call k c) = tc_advertisedDerp c" "tc_hasControl (call k c) = tc_hasControl c"
  by (simp_all add: call_def)

lemma setState_sel [simp]:
  "tc_overlay (setState st a e c) = tc_overlay c" "tc_activeRoute (setState st a e c) = tc_activeRoute c"
  "tc_worker (setState st a e c) = tc_worker c" "tc_stopRequested (setState st a e c) = tc_stopRequested c"
  "tc_peers (setState st a e c) = tc_peers c" "tc_calls (setState st a e c) = tc_calls c"
  "snap_state (tc_snapshot (setState st a e c)) = st"
  "snap_localAddress (tc_snapshot (setState st a e c)) = snap_localAddress (tc_snapshot c)"
  "snap_derpMap (tc_snapshot (setState st a e c)) = snap_derpMap (tc_snapshot c)"
  "tc_controlConnected (setState st a e c) = tc_controlConnected c" "tc_advertisedDerp (setState st a e c) = tc_advertisedDerp c"
  "tc_hasControl (setState st a e c) = tc_hasControl c"
  by (simp_all add: setState_def)

lemma advertiseHomeDerp_sel [simp]:
  "tc_overlay (advertiseHomeDerp opens sent r c) = tc_overlay c" "tc_activeRoute (advertiseHomeDerp opens sent r c) = tc_activeRoute c"
  "tc_worker (advertiseHomeDerp opens sent r c) = tc_worker c" "tc_stopRequested (advertiseHomeDerp opens sent r c) = tc_stopRequested c"
  "tc_peers (advertiseHomeDerp opens sent r c) = tc_peers c" "tc_snapshot (advertiseHomeDerp opens sent r c) = tc_snapshot c"
  by (simp_all add: advertiseHomeDerp_def Let_def)

lemma advertiseDefault_sel [simp]:
  "tc_overlay (advertiseDefault iter opens sent c) = tc_overlay c" "tc_activeRoute (advertiseDefault iter opens sent c) = tc_activeRoute c"
  "tc_worker (advertiseDefault iter opens sent c) = tc_worker c" "tc_stopRequested (advertiseDefault iter opens sent c) = tc_stopRequested c"
  "tc_peers (advertiseDefault iter opens sent c) = tc_peers c" "tc_snapshot (advertiseDefault iter opens sent c) = tc_snapshot c"
  by (simp_all add: advertiseDefault_def)

lemma publishEndpoints_sel [simp]:
  "tc_overlay (publishEndpoints eps c) = tc_overlay c" "tc_activeRoute (publishEndpoints eps c) = tc_activeRoute c"
  "tc_worker (publishEndpoints eps c) = tc_worker c" "tc_stopRequested (publishEndpoints eps c) = tc_stopRequested c"
  "tc_peers (publishEndpoints eps c) = tc_peers c" "tc_snapshot (publishEndpoints eps c) = tc_snapshot c"
  by (simp_all add: publishEndpoints_def Let_def)

lemma make_ready_sel [simp]:
  "tc_overlay (make_ready a c) = tc_overlay c" "tc_activeRoute (make_ready a c) = tc_activeRoute c" "tc_worker (make_ready a c) = tc_worker c"
  "tc_stopRequested (make_ready a c) = tc_stopRequested c" "tc_peers (make_ready a c) = tc_peers c" "tc_calls (make_ready a c) = tc_calls c"
  "snap_state (tc_snapshot (make_ready a c)) = CoreReady" "snap_localAddress (tc_snapshot (make_ready a c)) = a"
  "snap_derpMap (tc_snapshot (make_ready a c)) = snap_derpMap (tc_snapshot c)"
  "tc_controlConnected (make_ready a c) = tc_controlConnected c" "tc_advertisedDerp (make_ready a c) = tc_advertisedDerp c"
  "tc_hasControl (make_ready a c) = tc_hasControl c"
  by (simp_all add: make_ready_def)

lemma store_derp_sel [simp]:
  "tc_overlay (store_derp m c) = tc_overlay c" "tc_activeRoute (store_derp m c) = tc_activeRoute c" "tc_worker (store_derp m c) = tc_worker c"
  "tc_stopRequested (store_derp m c) = tc_stopRequested c" "tc_peers (store_derp m c) = tc_peers c" "tc_calls (store_derp m c) = tc_calls c"
  "snap_state (tc_snapshot (store_derp m c)) = snap_state (tc_snapshot c)"
  "snap_localAddress (tc_snapshot (store_derp m c)) = snap_localAddress (tc_snapshot c)"
  "snap_derpMap (tc_snapshot (store_derp m c)) = (case m of None \<Rightarrow> snap_derpMap (tc_snapshot c) | Some rs \<Rightarrow> rs)"
  "tc_controlConnected (store_derp m c) = tc_controlConnected c" "tc_advertisedDerp (store_derp m c) = tc_advertisedDerp c"
  "tc_hasControl (store_derp m c) = tc_hasControl c"
  by (simp_all add: store_derp_def updateDerpMap_def split: option.split)

lemma applyPeerDelta_sel [simp]:
  "tc_overlay (snd (applyPeerDelta d c)) = tc_overlay c" "tc_activeRoute (snd (applyPeerDelta d c)) = tc_activeRoute c"
  "tc_worker (snd (applyPeerDelta d c)) = tc_worker c" "tc_stopRequested (snd (applyPeerDelta d c)) = tc_stopRequested c"
  "tc_peers (snd (applyPeerDelta d c)) = snd (PeerDirectory_apply d (tc_peers c))" "tc_calls (snd (applyPeerDelta d c)) = tc_calls c"
  "tc_snapshot (snd (applyPeerDelta d c)) = tc_snapshot c"
  "tc_controlConnected (snd (applyPeerDelta d c)) = tc_controlConnected c" "tc_advertisedDerp (snd (applyPeerDelta d c)) = tc_advertisedDerp c"
  "tc_hasControl (snd (applyPeerDelta d c)) = tc_hasControl c"
  by (simp_all add: applyPeerDelta_def split: prod.split)

lemma replacePeers_cases:
  "replacePeers ps a c = (Some e, c') \<Longrightarrow> c' = c"
  "replacePeers ps a c = (None, c') \<Longrightarrow>
     c' = make_ready a (c\<lparr>tc_peers := snd (PeerDirectory_replace ps (tc_peers c))\<rparr>) \<and> isLiteralIPv4 a"
  by (auto simp: replacePeers_def split: if_split_asm prod.split_asm option.split_asm)

lemma after_session_sel [simp]:
  "tc_overlay (after_session r i w c) = tc_overlay c" "tc_activeRoute (after_session r i w c) = tc_activeRoute c"
  "tc_stopRequested (after_session r i w c) = tc_stopRequested c" "tc_peers (after_session r i w c) = tc_peers c"
  "tc_calls (after_session r i w c) = tc_calls c" "tc_snapshot (after_session r i w c) = tc_snapshot c"
  by (simp_all add: after_session_def Let_def)

lemmas worker_defs = worker_begin_def loop_head_def connect_returned_def finish_session_def poll_head_def poll_failed_def waited_def

definition frame_of :: "'o TailscaleCore \<Rightarrow> 'o option \<times> RemoteRouteTarget option \<times> bool" where
  "frame_of c = (tc_overlay c, tc_activeRoute c, tc_stopRequested c)"

lemma frame_worker [simp]: "frame_of (c\<lparr>tc_worker := p\<rparr>) = frame_of c"
  by (simp add: frame_of_def)

lemma frame_begin [simp]: "frame_of (worker_begin env a p c) = frame_of c"
  by (auto simp: worker_begin_def Let_def frame_of_def split: sum.split prod.split)

lemma frame_loop_head [simp]: "frame_of (loop_head i w c) = frame_of c"
  by (simp add: loop_head_def Let_def frame_of_def)

lemma frame_connect [simp]: "frame_of (connect_returned ans i w h c) = frame_of c"
  by (simp add: connect_returned_def Let_def frame_of_def split: option.split)

lemma frame_finish [simp]: "frame_of (finish_session r i w c) = frame_of c"
  by (simp add: finish_session_def frame_of_def)

lemma frame_setState [simp]: "frame_of (setState st a e c) = frame_of c"
  by (simp add: frame_of_def)

lemma frame_poll [simp]:
  "frame_of (poll_head i w n c) = frame_of c" "frame_of (poll_failed e i w n c) = frame_of c" "frame_of (waited i w c) = frame_of c"
  by (simp_all add: poll_head_def poll_failed_def waited_def)

lemma frame_replace: "replacePeers ps a c = (e, c') \<Longrightarrow> frame_of c' = frame_of c"
  by (cases e) (auto simp: frame_of_def dest: replacePeers_cases)

lemma frame_advertise: "frame_of (advertiseDefault iter opens sent c) = frame_of c" "frame_of (store_derp m c) = frame_of c"
  "frame_of (make_ready a c) = frame_of c" "frame_of (c\<lparr>tc_paths := ps\<rparr>) = frame_of c" "frame_of (snd (applyPeerDelta d c)) = frame_of c"
  by (simp_all add: frame_of_def)

lemma frame_delivered [simp]: "frame_of (poll_delivered env u i w n c) = frame_of c"
proof (cases "fullPeers u")
  case None
  then show ?thesis by (simp add: poll_delivered_def Let_def frame_advertise)
next
  case (Some ps)
  obtain e c1 where r: "replacePeers ps (localAddress u) c = (e, c1)" by (cases "replacePeers ps (localAddress u) c")
  with Some frame_replace [OF r] show ?thesis
    by (cases e) (simp_all add: poll_delivered_def Let_def frame_advertise)
qed

lemma worker_step_frame: "worker_step env answer c = Some c' \<Longrightarrow> frame_of c' = frame_of c"
  by (auto simp: worker_step_def split: WorkerPhase.split_asm ControlAnswer.split_asm)

lemmas worker_step_frameD = worker_step_frame [unfolded frame_of_def prod.inject]

lemma core_step_overlay:
  assumes "core_step ov l c c'"
  shows "tc_overlay c' = None \<longleftrightarrow> tc_overlay c = None"
  using assms
proof (cases rule: core_step.cases)
  case (StepReplace ps address)
  with replacePeers_cases [of ps address c] show ?thesis
    by (cases "replacePeers ps address c"; cases "fst (replacePeers ps address c)") auto
next
  case (StepActivate opens sent target)
  then show ?thesis by (auto simp: activateRoute_def Let_def split: option.split prod.split)
qed (auto simp: core_start_def stop_request_def stop_finish_def prepareRouteForStreaming_def deactivateRoute_def pathObserver_def
    updateDerpMap_def dest: worker_step_frameD split: if_split_asm option.split prod.split)

lemma overlay_kept: "core_trace ov c ls c' \<Longrightarrow> tc_overlay c' = None \<longleftrightarrow> tc_overlay c = None"
  by (induction rule: core_trace.induct) (auto dest: core_step_overlay)

section \<open>Route and overlay agree\<close>

locale overlay_route =
  fixes ov :: "'o IOverlayRoute" and target_of :: "'o \<Rightarrow> RemoteRouteTarget option"
  assumes start_ok: "ov_start ov h t x = (None, x') \<Longrightarrow> target_of x' = Some t"
    and start_failed: "ov_start ov h t x = (Some e, x') \<Longrightarrow> target_of x' = target_of x"
    and prepare_keeps: "target_of (snd (ov_prepare ov t x)) = target_of x"
    and stop_clears: "target_of (ov_stop ov x) = None"
begin

definition agrees :: "'o TailscaleCore \<Rightarrow> bool" where
  "agrees c = (tc_activeRoute c = (case tc_overlay c of None \<Rightarrow> None | Some x \<Rightarrow> target_of x))"

lemma agrees_activate:
  assumes "agrees c"
  shows "agrees (snd (activateRoute ov opens sent target c))"
proof (cases "tc_overlay c")
  case None
  with assms show ?thesis by (simp add: activateRoute_def)
next
  case (Some x)
  define c1 where "c1 = (case findByStableId (rt_peerId target) (tc_peers c) of None \<Rightarrow> c
    | Some peer \<Rightarrow> if homeDerp peer > 0 then advertiseHomeDerp opens sent (homeDerp peer) c else c)"
  obtain e x' where st: "ov_start ov (core_hooks c1) target (ov_stop ov x) = (e, x')"
    by (cases "ov_start ov (core_hooks c1) target (ov_stop ov x)")
  show ?thesis
  proof (cases e)
    case None
    with Some st assms start_ok show ?thesis by (auto simp: activateRoute_def c1_def [symmetric] agrees_def)
  next
    case (Some msg)
    with \<open>tc_overlay c = Some x\<close> st assms start_failed stop_clears show ?thesis
      by (auto simp: activateRoute_def c1_def [symmetric] agrees_def)
  qed
qed

lemma agrees_prepare: "agrees c \<Longrightarrow> agrees (snd (prepareRouteForStreaming ov target c))"
  using prepare_keeps
  by (auto simp: prepareRouteForStreaming_def agrees_def split: option.split prod.split) (metis snd_conv)+

lemma agrees_step:
  assumes "core_step ov l c c'" "agrees c"
  shows "agrees c'"
  using assms
proof (cases rule: core_step.cases)
  case (StepWorker env answer)
  with worker_step_frameD [OF StepWorker(2)] assms(2) show ?thesis by (auto simp: agrees_def)
next
  case (StepStart authKey passphrase)
  with assms(2) show ?thesis by (auto simp: core_start_def agrees_def split: if_split_asm)
next
  case StepStopRequest
  with assms(2) show ?thesis by (simp add: stop_request_def agrees_def)
next
  case StepStopFinish
  with stop_clears show ?thesis by (auto simp: stop_finish_def agrees_def split: option.split)
next
  case (StepReplace ps address)
  with assms(2) replacePeers_cases [of ps address c] show ?thesis
    by (cases "replacePeers ps address c"; cases "fst (replacePeers ps address c)") (auto simp: agrees_def)
next
  case (StepDeactivate target)
  with assms(2) stop_clears show ?thesis by (auto simp: deactivateRoute_def agrees_def split: option.split)
qed (use assms(2) agrees_activate agrees_prepare in \<open>auto simp: agrees_def pathObserver_def updateDerpMap_def\<close>)

lemma agrees_trace: "core_trace ov c ls c' \<Longrightarrow> agrees c \<Longrightarrow> agrees c'"
  by (induction rule: core_trace.induct) (auto intro: agrees_step)

end

definition wgx_overlay :: "'b IWgxBackend \<Rightarrow> (string \<Rightarrow> u64) \<Rightarrow> 'b TailscaleWgxRoute IOverlayRoute" where
  "wgx_overlay B hash = \<lparr>ov_start = wgx_start B hash, ov_prepare = wgx_prepareForStreaming B, ov_stop = wgx_stop B\<rparr>"

interpretation wgx: overlay_route "wgx_overlay B hash" wr_activeTarget for B hash
proof unfold_locales
  show "wr_activeTarget x' = Some t" if "ov_start (wgx_overlay B hash) h t x = (None, x')" for h t x x'
    using that wgx_start_target(1) by (simp add: wgx_overlay_def)
  show "wr_activeTarget x' = wr_activeTarget x" if "ov_start (wgx_overlay B hash) h t x = (Some e, x')" for h t x e x'
    using that wgx_start_target(2) by (simp add: wgx_overlay_def)
  show "wr_activeTarget (snd (ov_prepare (wgx_overlay B hash) t x)) = wr_activeTarget x" for t x
    using wgx_prepare_target [of B t x] by (cases "wgx_prepareForStreaming B t x") (simp add: wgx_overlay_def)
qed (simp add: wgx_overlay_def wgx_stop_def)

definition new_route :: "'b option \<Rightarrow> 'b TailscaleWgxRoute" where
  "new_route b = \<lparr>wr_backend = b, wr_activeTarget = None, wr_streamingPrepared = False\<rparr>"

text \<open>
  C2: Engine and overlay never disagree: whatever the worker and the callers of the engine do, in whatever order, and whatever the WireGuard backend and
  the control server answer, the route the engine believes active is the one the overlay has, in particular none after a failed activation,
  a release or a stop.  The worker, through every reconnect, never touches the overlay or the active route.
\<close>

theorem core_route_agrees:
  assumes "core_trace (wgx_overlay B hash) (core_new files hint hasControl (Some (new_route b))) ls c"
  shows "(\<exists>x. tc_overlay c = Some x \<and> tc_activeRoute c = wr_activeTarget x)
    \<and> (\<forall>env answer c'. worker_step env answer c = Some c' \<longrightarrow> tc_overlay c' = tc_overlay c \<and> tc_activeRoute c' = tc_activeRoute c)"
proof -
  have "wgx.agrees c" by (rule wgx.agrees_trace [OF assms]) (simp add: wgx.agrees_def core_new_def new_route_def)
  moreover have "tc_overlay c \<noteq> None" using overlay_kept [OF assms] by (simp add: core_new_def)
  ultimately show ?thesis using worker_step_frameD by (fastforce simp: wgx.agrees_def)
qed

lemma example_trace:
  "core_trace (wgx_overlay sim_backend (\<lambda>_. 0)) (core_new fs None True (Some (new_route (Some sim_initial))))
     [ByOther] (snd (activateRoute (wgx_overlay sim_backend (\<lambda>_. 0)) True True example_target
       (core_new fs None True (Some (new_route (Some sim_initial))))))"
  using TraceSnoc [OF TraceNil StepActivate] by fastforce

theorem core_route_agrees_witness:
  "\<exists>c x. tc_overlay c = Some x \<and> tc_activeRoute c = wr_activeTarget x \<and>
     c = snd (activateRoute (wgx_overlay sim_backend (\<lambda>_. 0)) True True example_target
       (core_new \<lparr>sf_primary = None, sf_temporary = None, sf_backup = None\<rparr> None True (Some (new_route (Some sim_initial)))))"
  using core_route_agrees [OF example_trace] by blast

section \<open>Stopping\<close>

definition worker_rank :: "'o TailscaleCore \<Rightarrow> nat" where
  "worker_rank c =
     (case tc_worker c of NoThread \<Rightarrow> 0 | WorkerDone \<Rightarrow> 0 | LoadingIdentity _ _ \<Rightarrow> 2 | LoopHead _ _ \<Rightarrow> 1 | InConnect _ _ _ \<Rightarrow> 2
      | PollHead _ _ _ \<Rightarrow> 1 | InPoll _ _ _ \<Rightarrow> 2 | WaitingReconnect _ _ \<Rightarrow> 1)"

lemma rank_after_session: "tc_stopRequested c \<Longrightarrow> worker_rank (after_session r i w c) = 0"
  by (simp add: worker_rank_def after_session_def)

lemma rank_delivered: "tc_stopRequested c \<Longrightarrow> worker_rank (poll_delivered env u i w n c) < 2"
proof (cases "fullPeers u")
  case None
  then show ?thesis by (simp add: poll_delivered_def Let_def worker_rank_def)
next
  case (Some ps)
  assume stop: "tc_stopRequested c"
  obtain e c1 where r: "replacePeers ps (localAddress u) c = (e, c1)" by (cases "replacePeers ps (localAddress u) c")
  with frame_replace [OF r] stop have "tc_stopRequested c1" by (simp add: frame_of_def)
  with Some r show ?thesis
    by (cases e) (simp_all add: poll_delivered_def Let_def finish_session_def rank_after_session, simp add: worker_rank_def)
qed

lemma worker_step_rank:
  assumes "worker_step env answer c = Some c'" "tc_stopRequested c"
  shows "worker_rank c' < worker_rank c"
proof -
  have "worker_rank (worker_begin env a p c) < 2" for a p
    by (auto simp: worker_begin_def Let_def worker_rank_def split: sum.split prod.split)
  moreover have "worker_rank (connect_returned ans i w h c) < 2" for ans i w h
    using assms(2) by (cases ans) (simp_all add: connect_returned_def Let_def rank_after_session, simp add: worker_rank_def)
  moreover have "worker_rank (poll_failed e i w n c) < 2" for e i w n
    using assms(2) by (simp add: poll_failed_def finish_session_def rank_after_session)
  moreover have "worker_rank (loop_head i w c) = 0" "worker_rank (poll_head i w n c) = 0" "worker_rank (waited i w c) = 0" for i w n
    using assms(2) by (simp_all add: loop_head_def poll_head_def waited_def finish_session_def rank_after_session)
      (simp_all add: worker_rank_def)
  ultimately show ?thesis
    using assms rank_delivered [OF assms(2)]
    by (auto simp: worker_step_def worker_rank_def [of c] split: WorkerPhase.split_asm ControlAnswer.split_asm)
qed

lemma activateRoute_frame:
  "tc_worker (snd (activateRoute ov opens sent target c)) = tc_worker c"
  "tc_stopRequested (snd (activateRoute ov opens sent target c)) = tc_stopRequested c"
  by (auto simp: activateRoute_def Let_def split: option.split prod.split)

lemma prepareRoute_frame:
  "tc_worker (snd (prepareRouteForStreaming ov target c)) = tc_worker c"
  "tc_stopRequested (snd (prepareRouteForStreaming ov target c)) = tc_stopRequested c"
  by (auto simp: prepareRouteForStreaming_def split: option.split prod.split)

lemma replacePeers_frame:
  "tc_worker (snd (replacePeers ps a c)) = tc_worker c" "tc_stopRequested (snd (replacePeers ps a c)) = tc_stopRequested c"
  by (auto simp: replacePeers_def split: prod.split option.split)

lemma other_step_rank:
  assumes "core_step ov ByOther c c'" "tc_stopRequested c"
  shows "tc_stopRequested c' \<and> worker_rank c' \<le> worker_rank c"
  using assms
  by (cases rule: core_step.cases)
    (auto simp: activateRoute_frame prepareRoute_frame replacePeers_frame worker_rank_def stop_request_def stop_finish_def
      deactivateRoute_def pathObserver_def updateDerpMap_def split: option.split)

lemma stopped_trace:
  assumes "core_trace ov c ls c'" "ByStart \<notin> set ls" "tc_stopRequested c"
  shows "tc_stopRequested c' \<and> worker_rank c' + count_list ls ByWorker \<le> worker_rank c"
  using assms
proof (induction rule: core_trace.induct)
  case (TraceSnoc c ls c' l c'')
  then have IH: "tc_stopRequested c'" "worker_rank c' + count_list ls ByWorker \<le> worker_rank c" by auto
  show ?case
  proof (cases l)
    case ByWorker
    with TraceSnoc.hyps obtain env answer where "worker_step env answer c' = Some c''" by (auto elim: core_step_WorkerE)
    with worker_step_rank [OF this IH(1)] worker_step_frameD [OF this] IH ByWorker show ?thesis by auto
  next
    case ByOther
    with TraceSnoc.hyps other_step_rank IH show ?thesis by fastforce
  qed (use TraceSnoc.prems in simp)
qed simp

lemma worker_step_enabled:
  "tc_worker c \<notin> {NoThread, WorkerDone} \<Longrightarrow> \<exists>answer. \<forall>env. \<exists>c'. worker_step env answer c = Some c'"
proof (cases "tc_worker c")
  case (InConnect i w h)
  then show ?thesis by (intro exI [of _ Connected]) (simp add: worker_step_def)
next
  case (InPoll i w n)
  then show ?thesis by (intro exI [of _ "PollFailed []"]) (simp add: worker_step_def)
qed (auto simp: worker_step_def)


lemma example_stop:
  "core_trace ov (stop_request (core_new fs None True overlay)) [ByOther] (stop_finish ov (stop_request (core_new fs None True overlay)))"
proof -
  have "core_step ov ByOther (stop_request (core_new fs None True overlay)) (stop_finish ov (stop_request (core_new fs None True overlay)))"
    by (rule StepStopFinish) (simp_all add: stop_request_def core_new_def)
  from TraceSnoc [OF TraceNil this] show ?thesis by simp
qed


section \<open>The login key\<close>

fun keyed :: "ControlCall list \<Rightarrow> nat" where
  "keyed [] = 0"
| "keyed (k # ks) = (case k of CallConnect i key \<Rightarrow> if key = [] then 0 else 1 | _ \<Rightarrow> 0) + keyed ks"

lemma keyed_append [simp]: "keyed (xs @ ys) = keyed xs + keyed ys"
  by (induction xs) simp_all

text \<open>Whether the worker may still send the key: 1 before its first \<open>connect\<close> and 0 after it.\<close>

definition key_left :: "'o TailscaleCore \<Rightarrow> nat" where
  "key_left c = (case tc_worker c of LoadingIdentity key _ \<Rightarrow> 1 | LoopHead _ w \<Rightarrow> if wl_authKey w = [] then 0 else 1 | _ \<Rightarrow> 0)"

definition key_inv :: "'o TailscaleCore \<Rightarrow> bool" where
  "key_inv c =
     (case tc_worker c of
        LoopHead _ w \<Rightarrow> wl_firstSession w \<and> \<not> wl_everProductive w \<or> wl_authKey w = []
      | InConnect _ w _ \<Rightarrow> wl_firstSession w \<and> \<not> wl_everProductive w \<or> wl_authKey w = []
      | PollHead _ w _ \<Rightarrow> wl_authKey w = []
      | InPoll _ w _ \<Rightarrow> wl_authKey w = []
      | WaitingReconnect _ w \<Rightarrow> wl_authKey w = []
      | _ \<Rightarrow> True)"

definition key_ok :: "nat \<Rightarrow> 'o TailscaleCore \<Rightarrow> bool" where
  "key_ok n c = (key_inv c \<and> keyed (tc_calls c) + key_left c \<le> n)"

lemma key_after_session: "wl_authKey w = [] \<Longrightarrow> keyed (tc_calls c) \<le> n \<Longrightarrow> key_ok n (after_session r i w c)"
  by (auto simp: key_ok_def key_inv_def key_left_def after_session_def Let_def)

lemma keyed_advertise [simp]:
  "keyed (tc_calls (advertiseHomeDerp opens sent r c)) = keyed (tc_calls c)"
  "keyed (tc_calls (advertiseDefault iter opens sent c)) = keyed (tc_calls c)"
  by (simp_all add: advertiseDefault_def advertiseHomeDerp_def Let_def)

lemma key_ok_cong: "tc_worker c' = tc_worker c \<Longrightarrow> keyed (tc_calls c') = keyed (tc_calls c) \<Longrightarrow> key_ok n c \<Longrightarrow> key_ok n c'"
  by (simp add: key_ok_def key_inv_def key_left_def)

lemma key_delivered:
  assumes "wl_authKey w = []" "keyed (tc_calls c) \<le> n"
  shows "key_ok n (poll_delivered env u i w k c)"
proof (cases "fullPeers u")
  case None
  with assms show ?thesis by (simp add: poll_delivered_def Let_def key_ok_def key_inv_def key_left_def)
next
  case (Some ps)
  obtain e c1 where r: "replacePeers ps (localAddress u) c = (e, c1)" by (cases "replacePeers ps (localAddress u) c")
  then have "tc_calls c1 = tc_calls c" by (cases e) (auto dest: replacePeers_cases)
  with Some r assms show ?thesis
    by (cases e) (simp_all add: poll_delivered_def Let_def finish_session_def key_after_session,
        simp add: key_ok_def key_inv_def key_left_def)
qed

lemma key_begin: "tc_worker c = LoadingIdentity a p \<Longrightarrow> key_ok n c \<Longrightarrow> key_ok n (worker_begin env a p c)"
  by (auto simp: worker_begin_def Let_def key_ok_def key_inv_def key_left_def split: sum.split prod.split)

lemma key_loop_head: "tc_worker c = LoopHead i w \<Longrightarrow> key_ok n c \<Longrightarrow> key_ok n (loop_head i w c)"
  by (auto simp: loop_head_def Let_def key_ok_def key_inv_def key_left_def)

lemma key_connect:
  assumes "tc_worker c = InConnect i w h" "key_ok n c"
  shows "key_ok n (connect_returned ans i w h c)"
proof (cases ans)
  case None
  with assms show ?thesis by (simp add: connect_returned_def key_ok_def key_inv_def key_left_def)
next
  case (Some e)
  with assms show ?thesis
    by (auto simp: connect_returned_def Let_def intro!: key_after_session) (auto simp: key_ok_def key_inv_def key_left_def)
qed

lemma key_worker_step:
  assumes "worker_step env answer c = Some c'" "key_ok n c"
  shows "key_ok n c'"
proof -
  have polls: "key_ok n (poll_head i w k c)" "key_ok n (poll_failed e i w k c)" "key_ok n (waited i w c)"
    if "wl_authKey w = []" for i w k e
    using that assms(2)
    by (auto simp: poll_head_def poll_failed_def waited_def finish_session_def intro!: key_after_session)
      (auto simp: key_ok_def key_inv_def key_left_def)
  have "keyed (tc_calls c) \<le> n" using assms(2) by (simp add: key_ok_def)
  with assms polls key_begin [of c] key_loop_head [of c] key_connect [of c] key_delivered [of _ c n] show ?thesis
    by (auto simp: worker_step_def key_ok_def [of n c] key_inv_def [of c] split: WorkerPhase.split_asm ControlAnswer.split_asm)
qed

lemma route_calls:
  "keyed (tc_calls (snd (activateRoute ov opens sent target c))) = keyed (tc_calls c)"
  "keyed (tc_calls (snd (prepareRouteForStreaming ov target c))) = keyed (tc_calls c)"
  "keyed (tc_calls (publishEndpoints eps c)) = keyed (tc_calls c)"
  "tc_calls (snd (replacePeers ps a c)) = tc_calls c"
  by (auto simp: activateRoute_def prepareRouteForStreaming_def publishEndpoints_def replacePeers_def Let_def split: option.split prod.split)

lemma key_other_step:
  assumes "core_step ov ByOther c c'" "key_ok n c"
  shows "key_ok n c'"
  using assms(1)
proof (cases rule: core_step.cases)
  case StepStopFinish
  with assms(2) show ?thesis by (auto simp: stop_finish_def key_ok_def key_inv_def key_left_def)
next
  case (StepDeactivate target)
  with assms(2) show ?thesis by (auto simp: deactivateRoute_def elim!: key_ok_cong [rotated 2] split: option.split)
qed (use assms(2) in \<open>auto simp: activateRoute_frame prepareRoute_frame replacePeers_frame route_calls stop_request_def pathObserver_def
      updateDerpMap_def elim!: key_ok_cong [rotated 2]\<close>)

lemma key_trace: "core_trace ov c ls c' \<Longrightarrow> key_ok n c \<Longrightarrow> key_ok (n + count_list ls ByStart) c'"
proof (induction rule: core_trace.induct)
  case (TraceSnoc c ls c' l c'')
  then have IH: "key_ok (n + count_list ls ByStart) c'" by blast
  show ?case
  proof (cases l)
    case ByWorker
    with TraceSnoc.hyps IH show ?thesis by (auto elim!: core_step_WorkerE dest: key_worker_step)
  next
    case ByStart
    with TraceSnoc.hyps IH show ?thesis
      by (auto elim!: core_step_StartE simp: core_start_def key_ok_def key_inv_def key_left_def split: if_split_asm)
  next
    case ByOther
    with TraceSnoc.hyps IH key_other_step show ?thesis by auto
  qed
qed simp

text \<open>
  C4: The login key leaves the device at most once per start: in every run, the calls of \<open>connect\<close> that carry a key are no more than the
  calls of \<open>start\<close>, however often the control connection drops and is made again, and whatever it answers.
\<close>

theorem login_key_once:
  assumes "core_trace ov (core_new files hint hasControl overlay) ls c"
  shows "keyed (tc_calls c) \<le> count_list ls ByStart"
  using key_trace [OF assms, of 0] by (simp add: key_ok_def key_inv_def key_left_def core_new_def)

text \<open>A run that logs in: start, load the identity, connect with the key.\<close>

definition example_strong :: Identity where
  "example_strong = \<lparr>machinePrivate = replicate 32 1, nodePrivate = replicate 32 2, discoPrivate = replicate 32 3\<rparr>"

definition example_env :: CoreEnv where
  "example_env = \<lparr>env_crypto = example_crypto, env_loadFaults = no_load_faults, env_saveFaults = no_save_faults,
     env_kdf = \<lparr>memoryKiB = 8192, passes = 1, lanes = 1\<rparr>, env_salt = replicate 16 1, env_nonce = replicate 24 2, env_generator = Some (Inr example_strong),
     env_iter = id, env_opens = True, env_sent = True, env_now = 0\<rparr>"

definition example_core :: "SimulatedWgxBackend TailscaleWgxRoute TailscaleCore" where
  "example_core = core_new \<lparr>sf_primary = None, sf_temporary = None, sf_backup = None\<rparr> None True (Some (new_route (Some sim_initial)))"

lemma example_obtained:
  "\<exists>fs. obtain_identity example_env [] \<lparr>sf_primary = None, sf_temporary = None, sf_backup = None\<rparr> = (Inr example_strong, fs)"
  by (simp add: obtain_identity_def load_def save_def encode_state_def replace_state_def install_temporary_def example_env_def
      no_load_faults_def no_save_faults_def Let_def)

lemma example_login:
  "\<exists>c. core_trace ov example_core [ByStart, ByWorker, ByWorker] c \<and> keyed (tc_calls c) = 1 \<and> (\<exists>i w h. tc_worker c = InConnect i w h)"
proof -
  obtain c1 where c1: "core_start [7] [] example_core = (True, c1)" "tc_worker c1 = LoadingIdentity [7] []"
    "tc_files c1 = \<lparr>sf_primary = None, sf_temporary = None, sf_backup = None\<rparr>" "tc_calls c1 = []" "tc_hasControl c1" "\<not> tc_stopRequested c1"
    by (simp add: core_start_def example_core_def core_new_def setState_def)
  obtain fs where fs: "obtain_identity example_env [] (tc_files c1) = (Inr example_strong, fs)" using example_obtained c1(3) by auto
  let ?w = "\<lparr>wl_authKey = [7], wl_backoff = kInitialBackoff, wl_firstSession = True, wl_everProductive = False\<rparr>"
  define c2 where "c2 = worker_begin example_env [7] [] c1"
  have c2: "tc_worker c2 = LoopHead example_strong ?w" "tc_calls c2 = []" "\<not> tc_stopRequested c2"
    using fs c1 by (simp_all add: c2_def worker_begin_def Let_def)
  have s1: "core_step ov ByStart example_core c1" by (rule StepStart) (rule c1(1))
  have s2: "core_step ov ByWorker c1 c2" by (rule StepWorker [where env = example_env]) (simp add: worker_step_def c1(2) c2_def)
  have s3: "core_step ov ByWorker c2 (loop_head example_strong ?w c2)" by (rule StepWorker) (simp add: worker_step_def c2)
  from TraceSnoc [OF TraceSnoc [OF TraceSnoc [OF TraceNil s1] s2] s3] c2 show ?thesis
    by (intro exI [of _ "loop_head example_strong ?w c2"]) (simp add: loop_head_def Let_def)
qed

theorem login_key_once_witness:
  "\<exists>c. core_trace (wgx_overlay sim_backend (\<lambda>_. 0)) example_core [ByStart, ByWorker, ByWorker] c \<and> keyed (tc_calls c) = 1
     \<and> keyed (tc_calls c) \<le> count_list [ByStart, ByWorker, ByWorker] ByStart"
proof -
  obtain c where c: "core_trace (wgx_overlay sim_backend (\<lambda>_. 0)) example_core [ByStart, ByWorker, ByWorker] c" "keyed (tc_calls c) = 1"
    using example_login by blast
  from login_key_once [OF c(1) [unfolded example_core_def]] c show ?thesis by blast
qed

section \<open>Reconnecting\<close>

text \<open>
  A round of reconnecting that fails: the wait is over, \<open>connect\<close> is called, and it is refused with text \<open>e\<close>.
\<close>

definition failed_round :: "CoreEnv \<Rightarrow> string \<Rightarrow> 'o TailscaleCore \<Rightarrow> 'o TailscaleCore option" where
  "failed_round env e c =
     Option.bind (worker_step env NoAnswer c) (\<lambda>c1. Option.bind (worker_step env NoAnswer c1) (worker_step env (Refused e)))"

fun failed_rounds :: "CoreEnv \<Rightarrow> string list \<Rightarrow> 'o TailscaleCore \<Rightarrow> 'o TailscaleCore option" where
  "failed_rounds env [] c = Some c"
| "failed_rounds env (e # es) c = Option.bind (failed_round env e c) (failed_rounds env es)"

lemma failed_round_backoff:
  assumes "tc_worker c = WaitingReconnect i w" "\<not> tc_stopRequested c" "wl_everProductive w" "\<not> wl_firstSession w"
  shows "\<exists>c' w'. failed_round env e c = Some c' \<and> tc_worker c' = WaitingReconnect i w' \<and> \<not> tc_stopRequested c'
    \<and> wl_everProductive w' \<and> \<not> wl_firstSession w' \<and> wl_backoff w' = min (2 * wl_backoff w) kMaxBackoff
    \<and> tc_overlay c' = tc_overlay c \<and> tc_activeRoute c' = tc_activeRoute c \<and> snap_state (tc_snapshot c') = ConnectingControl"
  using assms
  by (simp add: failed_round_def worker_step_def waited_def loop_head_def connect_returned_def after_session_def Let_def mult.commute)

lemma min_mult_min:
  fixes k :: nat
  assumes "1 \<le> k"
  shows "min (k * min a m) m = min (k * a) m"
proof (cases "a \<le> m")
  case False
  have grows: "x \<le> k * x" for x using mult_le_mono1 [OF assms, of x] by simp
  have "min a m = m" using False by simp
  moreover have "min (k * m) m = m" by (rule min_absorb2) (rule grows)
  moreover have "min (k * a) m = m" by (rule min_absorb2) (use False grows [of a] in linarith)
  ultimately show ?thesis by simp
qed (simp add: min_def)



section \<open>The home region\<close>

definition votes_for :: "Peer list \<Rightarrow> int \<Rightarrow> nat" where
  "votes_for ps region = length (filter (\<lambda>p. online p \<and> homeDerp p = region) ps)"

lemma add_vote_lookup:
  "map_of (add_vote r votes) x = (if x = r then Some ((case map_of votes r of None \<Rightarrow> 0 | Some n \<Rightarrow> n) + 1) else map_of votes x)"
  by (simp add: add_vote_def AList.update_conv')

lemma collect_votes_lookup:
  "map_of (collect_votes ps) r = (if 0 < r \<and> 0 < votes_for ps r then Some (votes_for ps r) else None)"
  "distinct (map fst (collect_votes ps))"
proof (induction ps rule: rev_induct)
  case (snoc p ps)
  { case 1 with snoc(1) show ?case by (auto simp: collect_votes_def votes_for_def add_vote_lookup split: option.split) }
  { case 2 with snoc(2) show ?case by (simp add: collect_votes_def add_vote_def AList.distinct_update) }
qed (simp_all add: collect_votes_def votes_for_def)

text \<open>The order of the votes: more votes, or as many and a smaller region.\<close>

definition beats :: "int \<times> nat \<Rightarrow> int \<times> nat \<Rightarrow> bool" where
  "beats a b = (snd a > snd b \<or> (snd a = snd b \<and> fst a < fst b))"

lemma consider_vote_alt: "consider_vote e st = (if beats e st then e else st)"
  by (cases e; cases st) (simp add: consider_vote_def beats_def)

lemma beats_trans: "beats x y \<Longrightarrow> beats y z \<Longrightarrow> beats x z"
  by (auto simp: beats_def)

lemma consider_vote_best:
  "consider_vote e st \<in> {e, st}" "\<not> beats e (consider_vote e st)" "beats x (consider_vote e st) \<Longrightarrow> beats x st"
  using beats_trans [of x e st] by (auto simp: consider_vote_alt beats_def [of e e] split: if_split_asm)

lemma fold_consider_best:
  "fold consider_vote es st \<in> insert st (set es) \<and> (\<forall>x \<in> set es. \<not> beats x (fold consider_vote es st))
   \<and> (\<forall>x. beats x (fold consider_vote es st) \<longrightarrow> beats x st)"
proof (induction es arbitrary: st)
  case (Cons e es)
  have IH: "fold consider_vote es (consider_vote e st) \<in> insert (consider_vote e st) (set es)"
    "\<forall>x \<in> set es. \<not> beats x (fold consider_vote es (consider_vote e st))"
    "\<forall>x. beats x (fold consider_vote es (consider_vote e st)) \<longrightarrow> beats x (consider_vote e st)"
    using Cons.IH [of "consider_vote e st"] by blast+
  have "\<not> beats e (fold consider_vote es (consider_vote e st))" using IH(3) consider_vote_best(2) [of e st] by blast
  with IH consider_vote_best(1) [of e st] consider_vote_best(3) [of _ e st] show ?case by auto
qed simp

definition votable :: "Peer list \<Rightarrow> int set" where
  "votable ps = {r. 0 < r \<and> 0 < votes_for ps r}"

lemma set_collect_votes: "set (collect_votes ps) = {(r, votes_for ps r) | r. r \<in> votable ps}"
proof -
  have "(r, n) \<in> set (collect_votes ps) \<longleftrightarrow> map_of (collect_votes ps) r = Some n" for r n
    using collect_votes_lookup(2) by simp
  then show ?thesis by (auto simp: collect_votes_lookup(1) votable_def split: if_split_asm)
qed

lemma lowest_region_spec:
  assumes "\<forall>r \<in> set rs. 0 < regionId r" "0 \<le> l"
  shows "0 \<le> lowest_region rs l
    \<and> (lowest_region rs l = 0 \<longleftrightarrow> l = 0 \<and> (\<forall>r \<in> set rs. derp_nodes r = []))
    \<and> (lowest_region rs l = l \<or> (\<exists>r \<in> set rs. derp_nodes r \<noteq> [] \<and> lowest_region rs l = regionId r))
    \<and> (l \<noteq> 0 \<longrightarrow> lowest_region rs l \<le> l) \<and> (\<forall>r \<in> set rs. derp_nodes r \<noteq> [] \<longrightarrow> lowest_region rs l \<le> regionId r)"
  using assms
proof (induction rs arbitrary: l)
  case (Cons r rs)
  let ?l = "if derp_nodes r \<noteq> [] \<and> (l = 0 \<or> regionId r < l) then regionId r else l"
  have "0 < regionId r" "0 \<le> ?l" using Cons.prems by auto
  with Cons.IH [of ?l] Cons.prems show ?case by (auto split: if_split_asm)
qed simp

text \<open>
  The default home region is a function of the peers and the relay map, not of the order in which the hash table of votes happens to be
  traversed: it is 0 without a relay map; else, if an online peer has a home region, the smallest region among those that most online
  peers have; else the smallest region of the map that has nodes, and 0 if no region has any.
\<close>

theorem chooseDefaultHomeDerp_spec:
  assumes "\<And>xs. mset (iter xs) = mset xs" "\<forall>r \<in> set (snap_derpMap (tc_snapshot c)). 0 < regionId r"
  defines "ps \<equiv> snapshot (tc_peers c)" and "regions \<equiv> snap_derpMap (tc_snapshot c)"
  shows "let r = chooseDefaultHomeDerp iter c in
    if regions = [] then r = 0
    else if votable ps \<noteq> {} then r \<in> votable ps \<and> (\<forall>x \<in> votable ps. votes_for ps x < votes_for ps r \<or> votes_for ps x = votes_for ps r \<and> r \<le> x)
    else if \<exists>d \<in> set regions. derp_nodes d \<noteq> []
    then (\<exists>d \<in> set regions. derp_nodes d \<noteq> [] \<and> r = regionId d) \<and> (\<forall>d \<in> set regions. derp_nodes d \<noteq> [] \<longrightarrow> r \<le> regionId d)
    else r = 0"
proof -
  define es where "es = iter (collect_votes ps)"
  define b where "b = fold consider_vote es (0, 0)"
  have set_es: "set es = {(r, votes_for ps r) | r. r \<in> votable ps}"
    using mset_eq_setD [OF assms(1) [of "collect_votes ps"]] set_collect_votes [of ps] by (simp add: es_def)
  have best: "b \<in> insert (0, 0) (set es)" "\<forall>x \<in> set es. \<not> beats x b"
    using fold_consider_best [of es "(0, 0)"] by (simp_all add: b_def)
  have choose: "chooseDefaultHomeDerp iter c = (if regions = [] then 0 else if fst b > 0 then fst b else lowest_region regions 0)"
    by (simp add: chooseDefaultHomeDerp_def Let_def b_def es_def ps_def regions_def)
  show ?thesis
  proof (cases "votable ps = {}")
    case True
    with best(1) set_es have "b = (0, 0)" by simp
    with True choose lowest_region_spec [of regions 0] assms(2) show ?thesis by (auto simp: Let_def regions_def)
  next
    case False
    then obtain x where x: "x \<in> votable ps" by blast
    then have "(x, votes_for ps x) \<in> set es" by (auto simp: set_es)
    with best(2) have "\<not> beats (x, votes_for ps x) b" by blast
    with x have "b \<noteq> (0, 0)" by (auto simp: beats_def votable_def)
    with best(1) have b: "fst b \<in> votable ps" "snd b = votes_for ps (fst b)" by (auto simp: set_es)
    have "votes_for ps y < votes_for ps (fst b) \<or> votes_for ps y = votes_for ps (fst b) \<and> fst b \<le> y" if "y \<in> votable ps" for y
    proof -
      from that have "(y, votes_for ps y) \<in> set es" by (auto simp: set_es)
      with best(2) b(2) show ?thesis by (fastforce simp: beats_def)
    qed
    moreover have "0 < fst b" using b(1) by (simp add: votable_def)
    ultimately show ?thesis using b(1) False choose by (auto simp: Let_def)
  qed
qed

definition example_home :: "SimulatedWgxBackend TailscaleWgxRoute TailscaleCore" where
  "example_home = example_core\<lparr>tc_peers := example_directory, tc_snapshot := (tc_snapshot example_core)\<lparr>snap_derpMap :=
     [\<lparr>regionId = 3, regionCode = ''x'', derp_nodes = [\<lparr>derp_host = ''h'', derp_port = 443, derp_stunPort = 3478\<rparr>]\<rparr>]\<rparr>\<rparr>"

theorem chooseDefaultHomeDerp_spec_witness:
  "votable (snapshot (tc_peers example_home)) = {1} \<and> chooseDefaultHomeDerp rev example_home = 1"
proof -
  have v: "votable (snapshot (tc_peers example_home)) = {1}"
    by (auto simp: votable_def votes_for_def example_home_def snapshot_def example_directory_def example_peer_def)
  have m: "mset (rev xs) = mset xs" for xs :: "(int \<times> nat) list" by simp
  have "\<forall>r \<in> set (snap_derpMap (tc_snapshot example_home)). 0 < regionId r" "snap_derpMap (tc_snapshot example_home) \<noteq> []"
    by (simp_all add: example_home_def)
  with chooseDefaultHomeDerp_spec [of rev example_home] m v show ?thesis by (simp add: Let_def)
qed

lemma chooseDefault_positive:
  assumes "\<And>xs. mset (iter xs) = mset xs" "\<forall>r \<in> set (snap_derpMap (tc_snapshot c)). 0 < regionId r"
    and "\<exists>d \<in> set (snap_derpMap (tc_snapshot c)). derp_nodes d \<noteq> []"
  shows "0 < chooseDefaultHomeDerp iter c"
  using lowest_region_spec [of "snap_derpMap (tc_snapshot c)" 0] assms(2,3)
  by (auto simp: chooseDefaultHomeDerp_def Let_def)

lemma advertiseDefault_nonzero:
  assumes "0 < chooseDefaultHomeDerp iter c" "tc_controlConnected c" "tc_hasControl c"
  shows "tc_advertisedDerp (advertiseDefault iter opens True c) \<noteq> 0"
  using assms by (auto simp: advertiseDefault_def advertiseHomeDerp_def Let_def)

text \<open>
  A node in a session does not stay without a home region: after an update is accepted, if the relay map then known has a
  region with nodes and the update of the host information goes through, a home region has been advertised, so that peers know where to reply.
\<close>

theorem home_region_advertised:
  assumes "tc_controlConnected c" "tc_hasControl c" "env_sent env" "\<And>xs. mset (env_iter env xs) = mset xs"
    and "tc_worker (poll_delivered env u i w n c) = PollHead i w (Suc n)"
    and "\<forall>r \<in> set (snap_derpMap (tc_snapshot (poll_delivered env u i w n c))). 0 < regionId r"
    and "\<exists>d \<in> set (snap_derpMap (tc_snapshot (poll_delivered env u i w n c))). derp_nodes d \<noteq> []"
  shows "tc_advertisedDerp (poll_delivered env u i w n c) \<noteq> 0"
proof -
  have "\<exists>d. poll_delivered env u i w n c = (advertiseDefault (env_iter env) (env_opens env) (env_sent env) d)\<lparr>tc_worker := PollHead i w (Suc n)\<rparr>
      \<and> tc_controlConnected d \<and> tc_hasControl d"
  proof (cases "fullPeers u")
    case None
    then show ?thesis using assms(1,2) by (auto simp: poll_delivered_def Let_def)
  next
    case (Some ps)
    obtain e c1 where r: "replacePeers ps (localAddress u) c = (e, c1)" by (cases "replacePeers ps (localAddress u) c")
    show ?thesis
    proof (cases e)
      case None
      with Some r replacePeers_cases(2) [of ps "localAddress u" c c1] assms(1,2) show ?thesis by (auto simp: poll_delivered_def Let_def)
    next
      case (Some msg)
      with \<open>fullPeers u = Some ps\<close> r assms(5) show ?thesis
        by (auto simp: poll_delivered_def Let_def finish_session_def after_session_def split: if_split_asm)
    qed
  qed
  then obtain d where d: "poll_delivered env u i w n c =
      (advertiseDefault (env_iter env) (env_opens env) (env_sent env) d)\<lparr>tc_worker := PollHead i w (Suc n)\<rparr>"
    "tc_controlConnected d" "tc_hasControl d" by blast
  have "0 < chooseDefaultHomeDerp (env_iter env) d"
    using chooseDefault_positive [of "env_iter env" d] assms(4,6,7) by (simp add: d(1))
  from advertiseDefault_nonzero [OF this d(2,3), of "env_opens env"] assms(3) show ?thesis by (simp add: d(1))
qed

theorem home_region_advertised_witness:
  "tc_advertisedDerp (poll_delivered example_env empty_MapUpdate example_strong
     \<lparr>wl_authKey = [], wl_backoff = 1, wl_firstSession = True, wl_everProductive = False\<rparr> 0
     (example_home\<lparr>tc_controlConnected := True\<rparr>)) \<noteq> 0"
proof (rule home_region_advertised)
  show "tc_controlConnected (example_home\<lparr>tc_controlConnected := True\<rparr>)" "env_sent example_env"
    "tc_hasControl (example_home\<lparr>tc_controlConnected := True\<rparr>)"
    by (simp_all add: example_env_def example_home_def example_core_def core_new_def)
  show "mset (env_iter example_env xs) = mset xs" for xs by (simp add: example_env_def)
qed (simp_all add: poll_delivered_def empty_MapUpdate_def Let_def delta_empty_def store_derp_def example_home_def)

section \<open>State of the engine\<close>

fun in_session :: "WorkerPhase \<Rightarrow> bool" where
  "in_session (PollHead i w n) = True"
| "in_session (InPoll i w n) = True"
| "in_session _ = False"

definition data_ok :: "'o TailscaleCore \<Rightarrow> bool" where
  "data_ok c = (wf_directory (tc_peers c) \<and> (snap_state (tc_snapshot c) = CoreReady \<longrightarrow> snap_localAddress (tc_snapshot c) \<noteq> []))"

definition core_inv :: "'o TailscaleCore \<Rightarrow> bool" where
  "core_inv c = (data_ok c \<and> tc_controlConnected c = in_session (tc_worker c))"

lemma isLiteralIPv4_not_Nil: "isLiteralIPv4 a \<Longrightarrow> a \<noteq> []"
  by (auto simp: isLiteralIPv4_def parseOctet_def)

lemma data_ok_simps [simp]:
  "data_ok (c\<lparr>tc_worker := p\<rparr>) = data_ok c" "data_ok (c\<lparr>tc_controlConnected := b\<rparr>) = data_ok c" "data_ok (call k c) = data_ok c"
  "data_ok (c\<lparr>tc_overlay := ovl\<rparr>) = data_ok c" "data_ok (c\<lparr>tc_activeRoute := rt\<rparr>) = data_ok c" "data_ok (c\<lparr>tc_paths := ps\<rparr>) = data_ok c"
  "data_ok (c\<lparr>tc_advertisedDerp := r\<rparr>) = data_ok c" "data_ok (c\<lparr>tc_homeDerpHint := r\<rparr>) = data_ok c"
  "data_ok (c\<lparr>tc_files := fs\<rparr>) = data_ok c" "data_ok (c\<lparr>tc_identity := i\<rparr>) = data_ok c" "data_ok (c\<lparr>tc_stopRequested := b\<rparr>) = data_ok c"
  "data_ok (after_session sr si w c) = data_ok c" "data_ok (advertiseHomeDerp opens sent r c) = data_ok c"
  "data_ok (advertiseDefault iter opens sent c) = data_ok c" "data_ok (store_derp m c) = data_ok c" "data_ok (publishEndpoints eps c) = data_ok c"
  by (simp_all add: data_ok_def)

lemma updateDerpMap_sel [simp]:
  "tc_worker (updateDerpMap rs c) = tc_worker c" "tc_controlConnected (updateDerpMap rs c) = tc_controlConnected c"
  "data_ok (updateDerpMap rs c) = data_ok c"
  by (simp_all add: updateDerpMap_def data_ok_def)

lemma data_ok_setState: "st \<noteq> CoreReady \<Longrightarrow> data_ok c \<Longrightarrow> data_ok (setState st a e c)"
  by (simp add: data_ok_def)

lemma data_ok_make_ready: "a \<noteq> [] \<Longrightarrow> data_ok c \<Longrightarrow> data_ok (make_ready a c)"
  by (simp add: data_ok_def)

lemma data_ok_delta: "data_ok c \<Longrightarrow> data_ok (snd (applyPeerDelta d c))"
  by (simp add: data_ok_def PeerDirectory_apply_wf)

lemma data_ok_replace:
  assumes "replacePeers ps a c = (e, c')" "data_ok c"
  shows "data_ok c'"
proof (cases e)
  case None
  with assms have "c' = make_ready a (c\<lparr>tc_peers := snd (PeerDirectory_replace ps (tc_peers c))\<rparr>)" "a \<noteq> []"
    using replacePeers_cases(2) isLiteralIPv4_not_Nil by blast+
  with assms(2) PeerDirectory_replace_wf [of "tc_peers c" ps] show ?thesis by (simp add: data_ok_def)
qed (use assms replacePeers_cases(1) in blast)

lemma inv_after_session: "data_ok c \<Longrightarrow> \<not> tc_controlConnected c \<Longrightarrow> core_inv (after_session r i w c)"
  by (simp add: core_inv_def) (simp add: after_session_def Let_def)

lemma inv_finish_session: "data_ok c \<Longrightarrow> core_inv (finish_session r i w c)"
  by (simp add: finish_session_def inv_after_session)

lemma advertise_connected [simp]:
  "tc_controlConnected (advertiseHomeDerp opens sent r c) = tc_controlConnected c"
  "tc_controlConnected (advertiseDefault iter opens sent c) = tc_controlConnected c"
  by (simp_all add: advertiseDefault_def advertiseHomeDerp_def Let_def)

lemma inv_delivered:
  assumes "data_ok c" "tc_controlConnected c"
  shows "core_inv (poll_delivered env u i w n c)"
proof (cases "fullPeers u")
  case None
  with assms show ?thesis by (simp add: poll_delivered_def Let_def core_inv_def data_ok_delta data_ok_make_ready)
next
  case (Some ps)
  obtain e c1 where r: "replacePeers ps (localAddress u) c = (e, c1)" by (cases "replacePeers ps (localAddress u) c")
  have c1: "data_ok c1" by (rule data_ok_replace [OF r assms(1)])
  show ?thesis
  proof (cases e)
    case None
    with r assms(2) have "tc_controlConnected c1" by (auto dest: replacePeers_cases)
    with c1 Some r None show ?thesis by (simp add: poll_delivered_def Let_def core_inv_def)
  next
    case (Some msg)
    with c1 \<open>fullPeers u = Some ps\<close> r show ?thesis
      by (simp add: poll_delivered_def Let_def inv_finish_session data_ok_setState)
  qed
qed

lemma inv_connect:
  assumes "data_ok c" "\<not> tc_controlConnected c"
  shows "core_inv (connect_returned ans i w h c)"
proof (cases ans)
  case None
  have "data_ok (setState ConnectedControl ''Control connected'' [] c)" using assms(1) by (simp add: data_ok_setState)
  with None show ?thesis by (simp add: connect_returned_def core_inv_def data_ok_def)
next
  case (Some e)
  with assms show ?thesis by (simp add: connect_returned_def Let_def inv_after_session data_ok_setState)
qed

lemma inv_polls:
  assumes "data_ok c"
  shows "tc_controlConnected c \<Longrightarrow> core_inv (poll_head i w n c)" "core_inv (poll_failed e i w n c)"
    "\<not> tc_controlConnected c \<Longrightarrow> core_inv (waited i w c)" "\<not> tc_controlConnected c \<Longrightarrow> core_inv (loop_head i w c)"
  using assms
  by (simp_all add: poll_head_def poll_failed_def waited_def loop_head_def Let_def inv_finish_session data_ok_setState)
    (simp_all add: core_inv_def data_ok_setState)

lemma inv_begin:
  assumes "data_ok c" "\<not> tc_controlConnected c"
  shows "core_inv (worker_begin env a p c)"
proof -
  obtain r fs where o: "obtain_identity env p (tc_files c) = (r, fs)" by (cases "obtain_identity env p (tc_files c)")
  show ?thesis
  proof (cases r)
    case (Inl x)
    with o assms show ?thesis by (cases x) (simp add: worker_begin_def core_inv_def data_ok_setState)
  next
    case (Inr i)
    with o assms show ?thesis by (simp add: worker_begin_def Let_def core_inv_def data_ok_setState)
  qed
qed

lemma inv_worker_step: "worker_step env answer c = Some c' \<Longrightarrow> core_inv c \<Longrightarrow> core_inv c'"
  using inv_polls [of c] inv_connect [of c] inv_delivered [of c] inv_begin [of c]
  by (auto simp: worker_step_def core_inv_def [of c] split: WorkerPhase.split_asm ControlAnswer.split_asm)

lemma connected_frame:
  "tc_controlConnected (snd (activateRoute ov opens sent target c)) = tc_controlConnected c"
  "tc_controlConnected (snd (prepareRouteForStreaming ov target c)) = tc_controlConnected c"
  "tc_controlConnected (snd (replacePeers ps a c)) = tc_controlConnected c"
  "tc_controlConnected (publishEndpoints eps c) = tc_controlConnected c"
  by (auto simp: activateRoute_def prepareRouteForStreaming_def replacePeers_def publishEndpoints_def Let_def split: option.split prod.split)

lemma data_ok_routes:
  assumes "data_ok c"
  shows "data_ok (snd (activateRoute ov opens sent target c))" "data_ok (snd (prepareRouteForStreaming ov target c))"
  using assms by (auto simp: activateRoute_def prepareRouteForStreaming_def Let_def data_ok_setState split: option.split prod.split)

lemma inv_step:
  assumes "core_step ov l c c'" "core_inv c"
  shows "core_inv c'"
  using assms(1)
proof (cases rule: core_step.cases)
  case (StepWorker env answer)
  with assms(2) inv_worker_step show ?thesis by blast
next
  case (StepStart authKey passphrase)
  with assms(2) show ?thesis by (auto simp: core_start_def core_inv_def data_ok_setState split: if_split_asm)
next
  case StepStopFinish
  have "data_ok (stop_finish ov c)"
    using assms(2) by (simp add: stop_finish_def core_inv_def data_ok_setState)
  with StepStopFinish assms(2) show ?thesis by (auto simp: stop_finish_def core_inv_def)
next
  case (StepReplace ps address)
  have "data_ok (snd (replacePeers ps address c))"
    using data_ok_replace [of ps address c] assms(2) by (cases "replacePeers ps address c") (simp add: core_inv_def)
  with StepReplace assms(2) show ?thesis by (simp add: core_inv_def connected_frame replacePeers_frame)
next
  case (StepDeactivate target)
  with assms(2) show ?thesis by (auto simp: deactivateRoute_def core_inv_def split: option.split)
qed (use assms(2) in \<open>auto simp: core_inv_def connected_frame activateRoute_frame prepareRoute_frame data_ok_routes stop_request_def
    pathObserver_def data_ok_delta\<close>)

text \<open>
  C17: In every reachable state of the engine the peer directory is within its limits, the engine shows itself ready only with
  a local address, and it considers control connected exactly while its worker is in a session, so that host information is never sent outside one.
\<close>

theorem core_invariant:
  assumes "core_trace ov (core_new files hint hasControl overlay) ls c"
  shows "wf_directory (tc_peers c) \<and> (snap_state (tc_snapshot c) = CoreReady \<longrightarrow> snap_localAddress (tc_snapshot c) \<noteq> [])
    \<and> tc_controlConnected c = in_session (tc_worker c)"
proof -
  have "core_inv c"
    using assms
  proof (induction "core_new files hint hasControl overlay" ls c rule: core_trace.induct)
    case TraceNil
    show ?case by (simp add: core_inv_def data_ok_def core_new_def wf_directory_def)
  qed (blast intro: inv_step)
  then show ?thesis by (simp add: core_inv_def data_ok_def)
qed

theorem core_invariant_witness:
  "\<exists>c. core_trace (wgx_overlay sim_backend (\<lambda>_. 0)) example_core [ByStart, ByWorker, ByWorker] c \<and> \<not> tc_controlConnected c"
proof -
  obtain c i w h where c: "core_trace (wgx_overlay sim_backend (\<lambda>_. 0)) example_core [ByStart, ByWorker, ByWorker] c"
    "tc_worker c = InConnect i w h" using example_login by blast
  from core_invariant [OF c(1) [unfolded example_core_def]] c show ?thesis by auto
qed

section \<open>Two consequences\<close>

text \<open>
  A failed activation does not undo its first steps: when the tunnel comes up and the relay then fails (here because the peer has no home region), no
  route is active, but the tunnel keeps running; releasing the route does not stop it, because there is no active route to release.
\<close>

theorem failed_activation_leaves_tunnel:
  assumes "tc_overlay c = Some r" "wr_backend r = Some b" "tc_activeRoute c = None"
    and "route_inputs (core_hooks c) target = Inr (localIp, key, peer)"
    and "\<not> all_zero key" "localIp \<noteq> []" "isLiteralIPv4 localIp" "homeDerp peer \<le> 0"
  shows "case activateRoute (wgx_overlay sim_backend hash) opens sent target c of (ok, c') \<Rightarrow>
    \<not> ok \<and> tc_activeRoute c' = None \<and> deactivateRoute (wgx_overlay sim_backend hash) target c' = c' \<and>
    (\<exists>r' b'. tc_overlay c' = Some r' \<and> wr_backend r' = Some b' \<and> sim_running b')"
proof -
  from route_inputs_InrD [OF assms(4)] have peer: "findByStableId (rt_peerId target) (tc_peers c) = Some peer" "\<not> all_zero (peer_nodeKey peer)"
    by (auto simp: core_hooks_def)
  have up: "bring_up sim_backend hash (core_hooks c) target (localIp, key, peer) (sim_stop b) =
      (Some ''Simulated backend: peer has no home DERP region'',
       (sim_stop b)\<lparr>sim_privateKey := key, sim_localIp := localIp, sim_running := True\<rparr>)"
    using assms(5-8) peer(2)
    by (simp add: bring_up_def sim_backend_def sim_startTunnel_def sim_ensureDerpRoute_def sim_stop_def sim_stopUdpRelay_def)
  have stopped: "be_stop sim_backend = sim_stop" by (simp add: sim_backend_def)
  show ?thesis
    using assms(1-3,8) peer(1) up assms(4)
    by (simp add: activateRoute_def wgx_overlay_def wgx_stop_def wgx_start_def stopped deactivateRoute_def)
qed

text \<open>
  Media relays are prepared for any host behind the peer of the active route: \<open>prepareRouteForStreaming\<close> compares the peer
  only, where activation and release compare peer and host, so the relays of another host behind the same subnet router are reported ready although the
  proxy still dials the first one.
\<close>

theorem prepare_ignores_host:
  assumes "tc_overlay c = Some r" "wr_backend r = Some b" "tc_activeRoute c = Some a" "wr_activeTarget r = Some a" "proxies a b"
    and "rt_peerId target = rt_peerId a" "rt_targetAddress target \<noteq> rt_targetAddress a"
  shows "\<exists>c' r' b'. prepareRouteForStreaming (wgx_overlay sim_backend hash) target c = (True, c') \<and> tc_overlay c' = Some r'
    \<and> wr_backend r' = Some b' \<and> sim_udpActive b' \<and> sim_activeHostIp b' = route_hostIp a"
  using assms
  by (simp add: prepareRouteForStreaming_def wgx_overlay_def wgx_prepareForStreaming_def sim_backend_def sim_startUdpRelay_def
      proxies_def kTailscaleUdpPorts_def)

end
