(* ===== verification/TailscaleHttp2Status.thy ===== *)
theory TailscaleHttp2Status
  imports TailscaleHttp2
begin

text \<open>
  Model of the reading of \<open>:status\<close> in \<open>app/src/remote_access/tailscale/TailscaleControlSession.cpp\<close>:
  \<open>decodeHuffmanDigits\<close> and \<open>http2ResponseStatus\<close>.

  The header block comes from the server.  As for the other parsers of untrusted bytes the functions
  are in the option monad, and \<open>None\<close> is undefined behaviour: a read outside the block or an
  overflow of the \<open>int\<close> that collects the digits.
\<close>

section \<open>Huffman digits\<close>

text \<open>The lambda \<open>peek\<close>: \<open>width\<close> bits from bit \<open>at\<close> on, most significant first.\<close>

fun peek :: "bytes \<Rightarrow> nat \<Rightarrow> nat \<Rightarrow> u32 \<Rightarrow> u32 option" where
  "peek bs at 0 v = Some v"
| "peek bs at (Suc width) v = do {
     byte \<leftarrow> rd8 bs (at div 8);
     peek bs (Suc at) width (push_bit 1 v OR (drop_bit (7 - at mod 8) (ucast byte) AND 1))
   }"

function huffman_loop :: "bytes \<Rightarrow> nat \<Rightarrow> string \<Rightarrow> string option" where
  "huffman_loop bs at out =
     (if at + 5 \<le> length bs * 8 \<and> length out < 3 then do {
        five \<leftarrow> peek bs at 5 0;
        if five \<le> 2 then huffman_loop bs (at + 5) (out @ [char_of (48 + unat five)])
        else if at + 6 > length bs * 8 then Some out
        else do {
          six \<leftarrow> peek bs at 6 0;
          if 0x19 \<le> six \<and> six \<le> 0x1f then huffman_loop bs (at + 6) (out @ [char_of (51 + (unat six - 0x19))])
          else Some out
        }
      }
      else Some out)"
  by pat_completeness auto
termination
  by (relation "measure (\<lambda>(bs, at, out). 3 - length out)") auto

declare huffman_loop.simps [simp del]

definition decodeHuffmanDigits :: "bytes \<Rightarrow> string option" where
  "decodeHuffmanDigits bs = huffman_loop bs 0 []"

section \<open>The status of a response\<close>

text \<open>The inner loop over the continuation bytes of a multi-byte integer, then the whole loop over size updates.\<close>

function skip_continuation :: "bytes \<Rightarrow> nat \<Rightarrow> nat" where
  "skip_continuation p i = (if i < length p \<and> p ! i AND 0x80 \<noteq> 0 then skip_continuation p (Suc i) else Suc i)"
  by pat_completeness auto
termination
  by (relation "measure (\<lambda>(p, i). length p - i)") auto

declare skip_continuation.simps [simp del]

lemma skip_continuation_greater: "i < skip_continuation p i"
  by (induction p i rule: skip_continuation.induct) (subst skip_continuation.simps, auto)

function skip_size_updates :: "bytes \<Rightarrow> nat \<Rightarrow> nat" where
  "skip_size_updates p i =
     (if i < length p \<and> p ! i AND 0xe0 = 0x20
      then skip_size_updates p (if p ! i AND 0x1f = 0x1f then skip_continuation p (Suc i) else Suc i)
      else i)"
  by pat_completeness auto
termination
  by (relation "measure (\<lambda>(p, i). length p - i)")
    (auto intro!: diff_less_mono2 intro: less_trans [OF lessI skip_continuation_greater])

declare skip_size_updates.simps [simp del]

definition indexed_status :: "u8 \<Rightarrow> int" where
  "indexed_status i =
     (if i = 8 then 200 else if i = 9 then 204 else if i = 10 then 206 else if i = 11 then 304
      else if i = 12 then 400 else if i = 13 then 404 else if i = 14 then 500 else 0)"

text \<open>The loop over the digits.  A sum above \<open>INT_MAX\<close> is undefined.\<close>

fun digits_loop :: "string \<Rightarrow> int \<Rightarrow> int option" where
  "digits_loop [] status = Some status"
| "digits_loop (c # cs) status =
     (if cval c < 48 \<or> cval c > 57 then Some 0
      else if status * 10 + int (cval c - 48) > 2147483647 then None
      else digits_loop cs (status * 10 + int (cval c - 48)))"

definition name_index :: "u8 \<Rightarrow> u8" where
  "name_index first =
     (if first AND 0xc0 = 0x40 then first AND 0x3f
      else if first AND 0xf0 = 0 \<or> first AND 0xf0 = 0x10 then first AND 0x0f
      else 0)"

definition http2ResponseStatus :: "Http2Frame \<Rightarrow> int option" where
  "http2ResponseStatus frame =
     (let p = h2_payload frame;
          padded = (if h2_flags frame AND 0x08 \<noteq> 0 then 1 else 0);
          priority = (if h2_flags frame AND 0x20 \<noteq> 0 then 5 else 0);
          i = skip_size_updates p (padded + priority)
      in if i \<ge> length p then Some 0
         else do {
           first \<leftarrow> rd8 p i;
           if first AND 0x80 \<noteq> 0 then Some (indexed_status (first AND 0x7f))
           else if name_index first < 8 \<or> name_index first > 14 \<or> i + 1 \<ge> length p then Some 0
           else do {
             lengthByte \<leftarrow> rd8 p (i + 1);
             let len = unat (lengthByte AND 0x7f);
             if i + 2 + len > length p then Some 0
             else do {
               val \<leftarrow> rd_span p (i + 2) len;
               digits \<leftarrow> (if lengthByte AND 0x80 \<noteq> 0 then decodeHuffmanDigits val
                          else Some (map (\<lambda>b. char_of (unat b)) val));
               digits_loop digits 0
             }
           }
         })"

section \<open>The bits of a Huffman string\<close>

definition bits_of :: "bytes \<Rightarrow> bool list" where
  "bits_of bs = concat (map (\<lambda>b. map (\<lambda>i. bit b (7 - i)) [0..<8]) bs)"

lemma length_bits_of [simp]: "length (bits_of bs) = 8 * length bs"
  by (induction bs) (simp_all add: bits_of_def)

lemma bits_of_nth: "i < 8 * length bs \<Longrightarrow> bits_of bs ! i = bit (bs ! (i div 8)) (7 - i mod 8)"
proof (induction bs arbitrary: i)
  case (Cons b bs)
  have cons: "bits_of (b # bs) = map (\<lambda>i. bit b (7 - i)) [0..<8] @ bits_of bs" by (simp add: bits_of_def)
  show ?case
  proof (cases "i < 8")
    case True
    then show ?thesis by (simp add: cons nth_append del: upt_conv_Cons)
  next
    case False
    then have "(i - 8) div 8 = i div 8 - 1" "(i - 8) mod 8 = i mod 8" "0 < i div 8" "i - 8 < 8 * length bs"
      using Cons.prems by (auto simp: le_div_geq le_mod_geq)
    with False Cons.IH [of "i - 8"] show ?thesis by (simp add: cons nth_append nth_Cons')
  qed
qed simp

lemma low_bit: "drop_bit k (ucast (b :: u8)) AND 1 = (of_bool (bit b k) :: u32)"
  by (rule bit_word_eqI) (auto simp: bit_simps dest: bit_imp_le_length)

lemma peek_bits:
  "at + width \<le> 8 * length bs \<Longrightarrow>
     peek bs at width v = Some (foldl (\<lambda>v b. push_bit 1 v OR of_bool b) v (take width (drop at (bits_of bs))))"
proof (induction width arbitrary: at v)
  case (Suc width)
  then have "rd8 bs (at div 8) = Some (bs ! (at div 8))" "drop at (bits_of bs) = bits_of bs ! at # drop (Suc at) (bits_of bs)"
    by (simp_all add: rd8_def Cons_nth_drop_Suc)
  with Suc bits_of_nth [of at bs] show ?case by (simp add: low_bit)
qed simp

text \<open>RFC 7541, appendix B: the digits 0 to 2 have codes of five bits, the others of six.\<close>

definition digit_code :: "nat \<Rightarrow> bool list" where
  "digit_code d = (if d \<le> 2 then map (\<lambda>i. bit d (4 - i)) [0..<5] else map (\<lambda>i. bit (0x19 + (d - 3)) (5 - i)) [0..<6])"

lemma digit_codes:
  "digit_code 0 = [False, False, False, False, False]"
    "digit_code 1 = [False, False, False, False, True]"
    "digit_code 2 = [False, False, False, True, False]"
    "digit_code 3 = [False, True, True, False, False, True]"
    "digit_code 4 = [False, True, True, False, True, False]"
    "digit_code 5 = [False, True, True, False, True, True]"
    "digit_code 6 = [False, True, True, True, False, False]"
    "digit_code 7 = [False, True, True, True, False, True]"
    "digit_code 8 = [False, True, True, True, True, False]"
    "digit_code 9 = [False, True, True, True, True, True]"
  by code_simp+

definition read_bits :: "bool list \<Rightarrow> u32" where
  "read_bits bits = foldl (\<lambda>v b. push_bit 1 v OR of_bool b) 0 bits"

lemma ten_digits: "(d :: nat) < 10 \<Longrightarrow> d \<in> {0, 1, 2, 3, 4, 5, 6, 7, 8, 9}"
  by auto

lemma digit_code_values:
  assumes "d < 10"
  shows "if d \<le> 2 then length (digit_code d) = 5 \<and> read_bits (digit_code d) = word_of_nat d
    else length (digit_code d) = 6 \<and> 2 < read_bits (take 5 (digit_code d)) \<and> read_bits (digit_code d) = word_of_nat (0x16 + d)"
  using ten_digits [OF assms] by (elim insertE; simp add: digit_codes digit_codes(2) [unfolded One_nat_def] read_bits_def)

lemma unat_digit: "d < 32 \<Longrightarrow> unat (word_of_nat d :: u32) = d"
  by (simp add: unat_of_nat)

lemma huffman_digit:
  assumes "drop at (bits_of bs) = digit_code d @ rest" "d < 10" "length out < 3" "at \<le> 8 * length bs"
  shows "huffman_loop bs at out = huffman_loop bs (at + length (digit_code d)) (out @ [char_of (48 + d)])"
proof -
  have "length (digit_code d) + length rest = 8 * length bs - at"
    using arg_cong [OF assms(1), of length] by simp
  with assms(4) have fits: "at + length (digit_code d) \<le> 8 * length bs" by arith
  have peeked: "peek bs at w 0 = Some (read_bits (take w (digit_code d)))" if "w \<le> length (digit_code d)" for w
    using peek_bits [of at w bs 0] assms(1) fits that by (simp add: read_bits_def)
  note vals = digit_code_values [OF assms(2)]
  show ?thesis
  proof (cases "d \<le> 2")
    case True
    with vals peeked [of 5] fits assms(3) unat_digit [of d] show ?thesis
      by (subst huffman_loop.simps) (simp add: word_le_nat_alt)
  next
    case False
    define v where "v = (word_of_nat (0x16 + d) :: u32)"
    with assms(2) unat_digit [of "0x16 + d"] have "unat v = 0x16 + d" by simp
    moreover from this have "0x19 \<le> v" "v \<le> 0x1f" using False assms(2) by (simp_all add: word_le_nat_alt)
    moreover have "peek bs at 6 0 = Some v" "\<exists>five. peek bs at 5 0 = Some five \<and> \<not> five \<le> 2"
      using False vals peeked [of 5] peeked [of 6] by (auto simp: v_def not_le)
    ultimately show ?thesis
      using False vals fits assms(3) by (subst huffman_loop.simps) auto
  qed
qed

lemma huffman_digits:
  assumes "drop at (bits_of bs) = concat (map digit_code ds) @ rest" "\<forall>d \<in> set ds. d < 10"
    and "length out + length ds = 3" "at \<le> 8 * length bs"
  shows "huffman_loop bs at out = Some (out @ map (\<lambda>d. char_of (48 + d)) ds)"
  using assms
proof (induction ds arbitrary: at out)
  case Nil
  then show ?case by (simp add: huffman_loop.simps)
next
  case (Cons d ds)
  from Cons.prems(1) have first: "drop at (bits_of bs) = digit_code d @ concat (map digit_code ds) @ rest" by simp
  from arg_cong [OF first, of "drop (length (digit_code d))"]
  have later: "drop (at + length (digit_code d)) (bits_of bs) = concat (map digit_code ds) @ rest" by (simp add: add.commute)
  have "length (digit_code d) \<le> 8 * length bs - at"
    using arg_cong [OF first, of length] by simp
  with Cons.IH [OF later, of "out @ [char_of (48 + d)]"] Cons.prems huffman_digit [OF first] show ?case by simp
qed

section \<open>Encodings of a status\<close>

definition status_digits :: "nat \<Rightarrow> nat list" where
  "status_digits n = [n div 100, n div 10 mod 10, n mod 10]"

text \<open>
  The encodings of \<open>:status\<close> that HPACK allows: the indexed field, or a literal whose name is one of the
  static entries 8 to 14, with incremental indexing, without indexing or never indexed, its value plain or
  as a Huffman string padded to whole bytes.  A dynamic table size update is one byte, or the prefix of all ones
  with continuation bytes.
\<close>

definition literal_prefix :: "u8 \<Rightarrow> bool" where
  "literal_prefix b = (b AND 0x80 = 0 \<and> 8 \<le> name_index b \<and> name_index b \<le> 14)"

inductive status_field :: "nat \<Rightarrow> bytes \<Rightarrow> bool" where
  indexed: "indexed_status i = int n \<Longrightarrow> 0 < n \<Longrightarrow> status_field n [0x80 OR i]"
| plain: "literal_prefix b \<Longrightarrow> status_field n ([b, 3] @ map (\<lambda>d. word_of_nat (48 + d)) (status_digits n))"
| huffman: "literal_prefix b \<Longrightarrow> length v < 128 \<Longrightarrow> bits_of v = concat (map digit_code (status_digits n)) @ padding \<Longrightarrow>
    status_field n ([b, 0x80 OR word_of_nat (length v)] @ v)"

inductive size_update :: "bytes \<Rightarrow> bool" where
  short: "b AND 0xe0 = 0x20 \<Longrightarrow> b AND 0x1f \<noteq> 0x1f \<Longrightarrow> size_update [b]"
| long: "b AND 0xe0 = 0x20 \<Longrightarrow> b AND 0x1f = 0x1f \<Longrightarrow> \<forall>c \<in> set cs. c AND 0x80 \<noteq> 0 \<Longrightarrow> l AND 0x80 = 0 \<Longrightarrow>
    size_update ([b] @ cs @ [l])"

lemma skip_continuation_bytes:
  assumes "\<forall>c \<in> set cs. c AND 0x80 \<noteq> 0" "l AND 0x80 = 0"
  shows "skip_continuation (pre @ cs @ [l] @ rest) (length pre) = length pre + length cs + 1"
  using assms
proof (induction cs arbitrary: pre)
  case Nil
  then show ?case by (subst skip_continuation.simps) (simp add: nth_append)
next
  case (Cons c cs)
  from Cons.IH [of "pre @ [c]"] Cons.prems show ?case by (subst skip_continuation.simps) (simp add: nth_append)
qed

lemma skip_size_update:
  assumes "size_update u"
  shows "skip_size_updates (pre @ u @ rest) (length pre) = skip_size_updates (pre @ u @ rest) (length (pre @ u))"
  using assms
proof cases
  case (short b)
  then show ?thesis by (subst skip_size_updates.simps) (simp add: nth_append)
next
  case (long b cs l)
  with skip_continuation_bytes [of cs l "pre @ [b]" rest] show ?thesis
    by (subst skip_size_updates.simps) (simp add: nth_append)
qed

lemma skip_all_size_updates:
  assumes "list_all size_update us" "b AND 0xe0 \<noteq> 0x20"
  shows "skip_size_updates (pre @ concat us @ b # rest) (length pre) = length (pre @ concat us)"
  using assms(1)
proof (induction us arbitrary: pre)
  case Nil
  then show ?case using assms(2) by (subst skip_size_updates.simps) (simp add: nth_append)
next
  case (Cons u us)
  with skip_size_update [of u pre "concat us @ b # rest"] Cons.IH [of "pre @ u"] show ?case by simp
qed

lemma literal_not_size_update: "literal_prefix b \<Longrightarrow> b AND 0xe0 \<noteq> 0x20"
proof
  assume "literal_prefix b" and u: "b AND 0xe0 = 0x20"
  have "b AND 0xc0 = (b AND 0xe0) AND 0xc0" "(b AND 0xf0) AND 0x20 = (b AND 0xe0) AND 0x20" by (simp_all add: and.assoc)
  with u have "b AND 0xc0 = 0" "(b AND 0xf0) AND 0x20 = 0x20" by simp_all
  then have "name_index b = 0" by (auto simp: name_index_def)
  with \<open>literal_prefix b\<close> show False by (simp add: literal_prefix_def)
qed

lemma indexed_status_codes: "indexed_status i = int n \<Longrightarrow> 0 < n \<Longrightarrow> i \<in> {8, 9, 10, 11, 12, 13, 14}"
  by (auto simp: indexed_status_def split: if_splits)

lemma status_digits_value:
  assumes "100 \<le> n" "n \<le> 999"
  shows "\<forall>d \<in> set (status_digits n). d < 10"
    and "digits_loop (map (\<lambda>d. char_of (48 + d)) (status_digits n)) 0 = Some (int n)"
proof -
  have d: "n div 100 < 10" "n div 10 mod 10 < 10" "n mod 10 < 10" using assms by auto
  then show "\<forall>d \<in> set (status_digits n). d < 10" by (simp add: status_digits_def)
  have "n div 100 * 10 + n div 10 mod 10 = n div 10"
    using div_mult_mod_eq [of "n div 10" 10] div_mult2_eq [of n 10 10] by simp
  then have "(n div 100 * 10 + n div 10 mod 10) * 10 + n mod 10 = n" by simp
  then have "int n = int ((n div 100 * 10 + n div 10 mod 10) * 10 + n mod 10)" by (simp only:)
  then have "int n = (int (n div 100) * 10 + int (n div 10 mod 10)) * 10 + int (n mod 10)"
    by (simp only: of_nat_add of_nat_mult of_nat_numeral)
  with d show "digits_loop (map (\<lambda>d. char_of (48 + d)) (status_digits n)) 0 = Some (int n)"
    by (simp add: status_digits_def of_char_of)
qed

lemma huffman_length:
  assumes "length v < 128"
  shows "(0x80 OR word_of_nat (length v) :: u8) AND 0x80 \<noteq> 0" "unat ((0x80 OR word_of_nat (length v) :: u8) AND 0x7f) = length v"
proof -
  have m: "(0x7f :: u8) = mask 7" by (simp add: mask_eq_exp_minus_1)
  show "(0x80 OR word_of_nat (length v) :: u8) AND 0x80 \<noteq> 0"
    by (simp add: bit.conj_disj_distrib2)
  have "(0x80 OR word_of_nat (length v) :: u8) AND 0x7f = word_of_nat (length v) AND 0x7f"
    by (simp add: bit.conj_disj_distrib2)
  then show "unat ((0x80 OR word_of_nat (length v) :: u8) AND 0x7f) = length v"
    using assms by (simp add: m unat_of_nat unsigned_take_bit_eq take_bit_nat_eq_self flip: take_bit_eq_mask)
qed

lemma skipped_to_field:
  assumes "list_all size_update us" "b AND 0xe0 \<noteq> 0x20" "h2_payload f = pre @ concat us @ b # rest"
    and "length pre = (if h2_flags f AND 0x08 \<noteq> 0 then 1 else 0) + (if h2_flags f AND 0x20 \<noteq> 0 then 5 else 0)"
  shows "skip_size_updates (h2_payload f)
      ((if h2_flags f AND 0x08 \<noteq> 0 then 1 else 0) + (if h2_flags f AND 0x20 \<noteq> 0 then 5 else 0)) = length (pre @ concat us)"
  using skip_all_size_updates [OF assms(1,2), of pre rest] assms(3,4) by simp

lemma literal_status:
  assumes "literal_prefix b" "i = length front" "p = front @ [b, lb] @ v @ rest" "unat (lb AND 0x7f) = length v"
  shows "rd8 p i = Some b" "rd8 p (i + 1) = Some lb" "i + 1 < length p" "i + 2 + length v \<le> length p"
    "rd_span p (i + 2) (length v) = Some v" "\<not> name_index b < 8" "\<not> 14 < name_index b" "b AND 0x80 = 0"
  using assms by (auto simp: rd8_def rd_span_def nth_append literal_prefix_def not_less)

lemma http2ResponseStatus_literal:
  assumes "literal_prefix b" "list_all size_update us" "h2_payload f = pre @ concat us @ [b, lb] @ v @ rest"
    and "length pre = (if h2_flags f AND 0x08 \<noteq> 0 then 1 else 0) + (if h2_flags f AND 0x20 \<noteq> 0 then 5 else 0)"
    and "unat (lb AND 0x7f) = length v"
    and "(if lb AND 0x80 \<noteq> 0 then decodeHuffmanDigits v else Some (map (\<lambda>b. char_of (unat b)) v)) = Some digits"
  shows "http2ResponseStatus f = digits_loop digits 0"
proof -
  have skip: "skip_size_updates (h2_payload f)
      ((if h2_flags f AND 0x08 \<noteq> 0 then 1 else 0) + (if h2_flags f AND 0x20 \<noteq> 0 then 5 else 0)) = length (pre @ concat us)"
    using skipped_to_field [OF assms(2) literal_not_size_update [OF assms(1)] _ assms(4)] assms(3) by simp
  have "h2_payload f = (pre @ concat us) @ [b, lb] @ v @ rest" using assms(3) by simp
  note lit = literal_status [OF assms(1) refl this assms(5)]
  show ?thesis
    unfolding http2ResponseStatus_def Let_def skip
    using lit assms(5,6) by (simp del: length_append)
qed



text \<open>
  The digits of a plain literal are not counted before they are multiplied into an \<open>int\<close>: a value of ten nines, which
  the server is free to send, is undefined behaviour.
\<close>

lemma status_overflow:
  "http2ResponseStatus \<lparr>h2_length = 12, h2_type = 1, h2_flags = 4, h2_streamId = 1, h2_payload = [0x48, 10] @ replicate 10 57\<rparr> = None"
  by code_simp

end
