(* ===== verification/TailscaleControlSession.thy ===== *)
theory TailscaleControlSession
  imports TailscaleHttp2Status TailscaleNoise TailscaleControlCodec
begin

text \<open>
  Model of \<open>app/src/remote_access/tailscale/TailscaleControlSession.hpp\<close> and \<open>.cpp\<close> (and of the two request
  encoders of \<open>TailscaleControlCodec.cpp\<close>): one connection to the control server, which composes the Noise
  transport, the HTTP upgrade, the HTTP/2 frames and the network map codec.

  A session is the record of its members; \<open>cs_error\<close> is the string the caller's \<open>error\<close> argument points to.
  The socket is the script of \<open>TailscaleDerp\<close>: what its reads and writes answer.  A test's \<open>RecordReader\<close> is
  the list of its answers.  The operations are in the option monad: \<open>None\<close> is an exception that leaves the
  class, a null pointer that is followed or other undefined behaviour.  The build for the console is modelled; log lines are left out, but not the state
  they keep.
\<close>

section \<open>Reading from the transport\<close>

text \<open>
  \<open>read(buffer, n)\<close>: what the script delivers next, at most \<open>n\<close> bytes of it; the end of the script is an
  orderly close.
\<close>

definition transport_read :: "nat \<Rightarrow> Transport \<Rightarrow> read_result \<times> Transport" where
  "transport_read n tr =
     (case incoming tr of
        [] \<Rightarrow> (ReadBytes [], tr)
      | ReadError e # rs \<Rightarrow> (ReadError e, tr\<lparr>incoming := rs\<rparr>)
      | ReadBytes bs # rs \<Rightarrow>
          if length bs \<le> n then (ReadBytes bs, tr\<lparr>incoming := rs\<rparr>)
          else (ReadBytes (take n bs), tr\<lparr>incoming := ReadBytes (drop n bs) # rs\<rparr>))"

definition kMaxResponseHeader :: nat where
  "kMaxResponseHeader = 16 * 1024"

definition kReadChunk :: nat where
  "kReadChunk = 2048"

function readHttpHeader :: "string \<Rightarrow> Transport \<Rightarrow> (string + string) \<times> Transport" where
  "readHttpHeader hdr tr =
     (if length hdr < kMaxResponseHeader then
        (case transport_read 1 tr of
           (ReadError e, tr1) \<Rightarrow> (Inl e, tr1)
         | (ReadBytes [], tr1) \<Rightarrow> (Inl ''control connection closed during HTTP upgrade'', tr1)
         | (ReadBytes (b # _), tr1) \<Rightarrow>
             let hdr1 = hdr @ [char_of (unat b)] in
             if ends_with (crlf @ crlf) hdr1 then (Inr hdr1, tr1) else readHttpHeader hdr1 tr1)
      else (Inl ''oversized HTTP upgrade response'', tr))"
  by pat_completeness auto
termination
  by (relation "measure (\<lambda>(hdr, tr). kMaxResponseHeader - length hdr)") auto

text \<open>\<open>readExact\<close> into a buffer of \<open>size\<close> bytes of which \<open>got\<close> are filled.\<close>

function readExact :: "nat \<Rightarrow> bytes \<Rightarrow> Transport \<Rightarrow> (string + bytes) \<times> Transport" where
  "readExact sz got tr =
     (if length got < sz then
        (case transport_read (sz - length got) tr of
           (ReadError e, tr1) \<Rightarrow> (Inl e, tr1)
         | (ReadBytes [], tr1) \<Rightarrow> (Inl ''control connection closed mid-handshake'', tr1)
         | (ReadBytes (b # bs), tr1) \<Rightarrow> readExact sz (got @ b # bs) tr1)
      else (Inr got, tr))"
  by pat_completeness auto
termination
  by (relation "measure (\<lambda>(sz, got, tr). sz - length got)") auto

declare readHttpHeader.simps [simp del] readExact.simps [simp del]

section \<open>Requests\<close>

record RegisterRequestData =
  reg_nodePublic :: bytes
  reg_authKey :: string
  reg_hostname :: string
  reg_capabilityVersion :: int

record MapRequestData =
  req_nodePublic :: bytes
  req_discoPublic :: bytes
  req_endpoints :: "string list"
  req_stream :: bool
  req_omitPeers :: bool
  req_hostname :: string
  req_preferredDerp :: int
  req_capabilityVersion :: int

text \<open>
  The JSON values the encoders build; \<open>dump\<close> is the library's, which throws (\<open>None\<close>) when a string is not UTF-8.
  An empty string is the refusal.
\<close>

definition register_json :: "RegisterRequestData \<Rightarrow> json_tree" where
  "register_json r = JObject
     [(''Version'', JNumber (reg_capabilityVersion r)),
      (''NodeKey'', JString (encodeTypedKey ''nodekey:'' (reg_nodePublic r))),
      (''Auth'', JObject [(''AuthKey'', JString (reg_authKey r))]),
      (''Hostinfo'', JObject [(''Hostname'', JString (reg_hostname r)), (''OS'', JString ''nintendo-switch''),
         (''Package'', JString ''artemis-switch'')]),
      (''Followup'', JString [])]"

definition encodeRegisterRequest :: "(json_tree \<Rightarrow> string option) \<Rightarrow> RegisterRequestData \<Rightarrow> string option" where
  "encodeRegisterRequest dump r = (if reg_capabilityVersion r \<le> 0 then Some [] else dump (register_json r))"

definition map_json :: "MapRequestData \<Rightarrow> json_tree" where
  "map_json r = JObject
     [(''Version'', JNumber (req_capabilityVersion r)),
      (''NodeKey'', JString (encodeTypedKey ''nodekey:'' (req_nodePublic r))),
      (''DiscoKey'', JString (encodeTypedKey ''discokey:'' (req_discoPublic r))),
      (''Stream'', JBool (req_stream r)), (''ReadOnly'', JBool False), (''OmitPeers'', JBool (req_omitPeers r)),
      (''Compress'', JString []), (''Endpoints'', JArray (map JString (req_endpoints r))),
      (''Hostinfo'', JObject
         ([(''Hostname'', JString (if req_hostname r = [] then ''artemis-switch'' else req_hostname r)),
           (''OS'', JString ''nintendo-switch'')] @
          (if req_preferredDerp r > 0
           then [(''NetInfo'', JObject [(''PreferredDERP'', JNumber (req_preferredDerp r))])] else [])))]"

definition encodeMapRequest :: "(json_tree \<Rightarrow> string option) \<Rightarrow> MapRequestData \<Rightarrow> string option" where
  "encodeMapRequest dump r = (if req_capabilityVersion r \<le> 0 then Some [] else dump (map_json r))"

section \<open>State\<close>

record ControlSession =
  cs_host :: string
  cs_port :: u16
  cs_controlPublic :: bytes
  cs_hostname :: string
  cs_transport :: "Transport option"
  cs_noise :: "NoiseClient option"
  cs_recordReader :: "(string + string) list option"
  cs_plaintextQueue :: "bytes list"
  cs_mapCodec :: MapCodec
  cs_mapFrameDecoder :: MapFrameDecoder
  cs_http2Decoder :: Http2FrameDecoder
  cs_dataAccumulator :: string
  cs_ready :: bool
  cs_discoPublic :: bytes
  cs_capabilityVersion :: int
  cs_nextStreamId :: u32
  cs_nodePublic :: bytes
  cs_registerStreamId :: u32
  cs_mapStreamId :: u32
  cs_registerHttpStatus :: int
  cs_mapHttpStatus :: int
  cs_dataBytesReceived :: u64
  cs_windowWarned :: bool
  cs_windowUpdatesSent :: u64
  cs_connectionWindow :: Http2ReceiveWindow
  cs_mapStreamWindow :: Http2ReceiveWindow
  cs_initialPreferredDerp :: int
  cs_localEndpoints :: "string list"
  cs_error :: string

text \<open>
  What a session uses that is not in the sources: the primitives of Noise, the JSON library, the signedness of \<open>char\<close>
  and the capability version the build generates.
\<close>

record 'j ControlEnv =
  ce_crypto :: NoiseCrypto
  ce_json :: "'j JsonApi"
  ce_dump :: "json_tree \<Rightarrow> string option"
  ce_charSigned :: bool
  ce_candidateCapability :: int

definition new_ControlSession :: "string \<Rightarrow> u16 \<Rightarrow> bytes \<Rightarrow> string \<Rightarrow> (string + string) list option \<Rightarrow> ControlSession" where
  "new_ControlSession host port controlPublic hostname recordReader =
     \<lparr>cs_host = host, cs_port = port, cs_controlPublic = controlPublic, cs_hostname = hostname, cs_transport = None,
      cs_noise = None, cs_recordReader = recordReader, cs_plaintextQueue = [], cs_mapCodec = \<lparr>stableIdsByNodeId = []\<rparr>,
      cs_mapFrameDecoder = \<lparr>mfd_buffer = []\<rparr>, cs_http2Decoder = \<lparr>h2_buffer = []\<rparr>, cs_dataAccumulator = [], cs_ready = False,
      cs_discoPublic = replicate 32 0, cs_capabilityVersion = 0, cs_nextStreamId = 1, cs_nodePublic = replicate 32 0,
      cs_registerStreamId = 0, cs_mapStreamId = 0, cs_registerHttpStatus = 0, cs_mapHttpStatus = 0,
      cs_dataBytesReceived = 0, cs_windowWarned = False, cs_windowUpdatesSent = 0,
      cs_connectionWindow = \<lparr>rw_size = kHttp2ClientConnectionWindow, rw_unacknowledged = 0\<rparr>,
      cs_mapStreamWindow = \<lparr>rw_size = kHttp2ClientStreamWindow, rw_unacknowledged = 0\<rparr>,
      cs_initialPreferredDerp = 0, cs_localEndpoints = [], cs_error = []\<rparr>"

definition setInitialPreferredDerp :: "int \<Rightarrow> ControlSession \<Rightarrow> ControlSession" where
  "setInitialPreferredDerp region s = s\<lparr>cs_initialPreferredDerp := (if region > 0 then region else 0)\<rparr>"

definition setLocalEndpoints :: "string list \<Rightarrow> ControlSession \<Rightarrow> ControlSession" where
  "setLocalEndpoints es s = s\<lparr>cs_localEndpoints := es\<rparr>"

definition resetTransport :: "ControlSession \<Rightarrow> ControlSession" where
  "resetTransport s = s\<lparr>cs_transport := None\<rparr>"

definition ControlSession_close :: "ControlSession \<Rightarrow> ControlSession" where
  "ControlSession_close s =
     (resetTransport s)\<lparr>cs_noise := None, cs_plaintextQueue := [], cs_ready := False, cs_recordReader := None\<rparr>"

text \<open>\<open>return false\<close> with an error text, and the failure paths of \<open>connect\<close> that close and drop the transport first.\<close>

definition refuse :: "string \<Rightarrow> ControlSession \<Rightarrow> bool \<times> ControlSession" where
  "refuse e s = (False, s\<lparr>cs_error := e\<rparr>)"

definition abandon :: "ControlSession \<Rightarrow> bool \<times> ControlSession" where
  "abandon s = (False, resetTransport s)"

section \<open>Frames\<close>

text \<open>\<open>noise_->frame(bytes, &framed, error) && transport_->write(framed, error)\<close>\<close>

definition send :: "NoiseCrypto \<Rightarrow> bytes \<Rightarrow> ControlSession \<Rightarrow> (bool \<times> ControlSession) option" where
  "send c bs s =
     (case cs_noise s of
        None \<Rightarrow> None
      | Some n \<Rightarrow>
          (case noise_frame c bs n of
             (Inl e, n1) \<Rightarrow> Some (False, s\<lparr>cs_noise := Some n1, cs_error := e\<rparr>)
           | (Inr framed, n1) \<Rightarrow>
               (case cs_transport s of
                  None \<Rightarrow> None
                | Some tr \<Rightarrow>
                    (case transport_write (cs_error s) framed tr of
                       (ok, e, tr1) \<Rightarrow> Some (ok, s\<lparr>cs_noise := Some n1, cs_transport := Some tr1, cs_error := e\<rparr>)))))"

definition traceFrame :: "Http2Frame \<Rightarrow> ControlSession \<Rightarrow> ControlSession option" where
  "traceFrame frame s =
     (let onRegister = (h2_streamId frame = cs_registerStreamId s \<and> cs_registerStreamId s \<noteq> 0) in
      if h2_type frame = 0 then
        let received = cs_dataBytesReceived s + word_of_nat (length (h2_payload frame)) in
        Some (s\<lparr>cs_dataBytesReceived := received,
                cs_windowWarned := (cs_windowWarned s \<or> received > ucast kHttp2DefaultWindow)\<rparr>)
      else if h2_type frame = 1 then do {
        status \<leftarrow> http2ResponseStatus frame;
        Some (if onRegister then s\<lparr>cs_registerHttpStatus := status\<rparr>
              else if h2_streamId frame = cs_mapStreamId s then s\<lparr>cs_mapHttpStatus := status\<rparr>
              else s)
      }
      else Some s)"

fun send_updates :: "NoiseCrypto \<Rightarrow> bytes list \<Rightarrow> ControlSession \<Rightarrow> (bool \<times> ControlSession) option" where
  "send_updates c [] s = Some (True, s)"
| "send_updates c (u # us) s = do {
     (ok, s1) \<leftarrow> send c u s;
     if \<not> ok then Some (False, s1) else send_updates c us s1
   }"

text \<open>
  The part of \<open>creditData\<close> before the write lock: both windows and the updates to send.  Only the long-lived map stream
  has its own window replenished, and not with its last frame.
\<close>

definition credit_windows :: "Http2Frame \<Rightarrow> ControlSession \<Rightarrow> bytes list \<times> ControlSession" where
  "credit_windows frame s =
     (let (inc, w) = Http2ReceiveWindow_consume (cs_connectionWindow s) (h2_length frame);
          streamEnded = (h2_flags frame AND 0x01 \<noteq> 0);
          onMap = (h2_streamId frame = cs_mapStreamId s \<and> cs_mapStreamId s \<noteq> 0 \<and> \<not> streamEnded);
          (inc', w') = (if onMap then Http2ReceiveWindow_consume (cs_mapStreamWindow s) (h2_length frame)
                        else (None, cs_mapStreamWindow s))
      in ((case inc of None \<Rightarrow> [] | Some i \<Rightarrow> [buildHttp2WindowUpdate 0 i]) @
          (case inc' of None \<Rightarrow> [] | Some i \<Rightarrow> [buildHttp2WindowUpdate (cs_mapStreamId s) i]),
          s\<lparr>cs_connectionWindow := w, cs_mapStreamWindow := w'\<rparr>))"

definition creditData :: "NoiseCrypto \<Rightarrow> Http2Frame \<Rightarrow> ControlSession \<Rightarrow> (bool \<times> ControlSession) option" where
  "creditData c frame s =
     (if h2_type frame \<noteq> 0 \<or> h2_length frame = 0 \<or> cs_noise s = None \<or> cs_transport s = None then Some (True, s)
      else
        (case credit_windows frame s of
           ([], s1) \<Rightarrow> Some (True, s1)
         | (updates, s1) \<Rightarrow> do {
             (ok, s2) \<leftarrow> send_updates c updates s1;
             Some (if ok then (True, s2\<lparr>cs_windowUpdatesSent := cs_windowUpdatesSent s2 + 1\<rparr>) else (False, s2))
           }))"

text \<open>
  The size of what the script may still deliver, for the loops over the transport: every read that is
  not the end shortens it.
\<close>

definition read_weight :: "read_result \<Rightarrow> nat" where
  "read_weight r = Suc (length (read_bytes r))"

definition script_size :: "Transport option \<Rightarrow> nat" where
  "script_size tr = (case tr of None \<Rightarrow> 0 | Some t \<Rightarrow> sum_list (map read_weight (incoming t)))"

lemma transport_read_size:
  "transport_read n tr = (ReadBytes (b # bs), tr1) \<Longrightarrow> script_size (Some tr1) < script_size (Some tr)"
  by (cases "incoming tr"; cases n) (auto simp: transport_read_def script_size_def read_weight_def split: read_result.splits if_splits)

function readNextNoiseRecord :: "NoiseCrypto \<Rightarrow> ControlSession \<Rightarrow> (bytes option \<times> ControlSession) option" where
  "readNextNoiseRecord c s =
     (case cs_plaintextQueue s of
        first # queue \<Rightarrow> Some (Some first, s\<lparr>cs_plaintextQueue := queue\<rparr>)
      | [] \<Rightarrow>
          (case cs_transport s of
             None \<Rightarrow> None
           | Some tr \<Rightarrow>
               (case transport_read kReadChunk tr of
                  (ReadError e, tr1) \<Rightarrow> Some (None, s\<lparr>cs_transport := Some tr1, cs_error := e\<rparr>)
                | (ReadBytes [], tr1) \<Rightarrow> Some (None, s\<lparr>cs_transport := Some tr1, cs_error := ''control connection closed''\<rparr>)
                | (ReadBytes (b # bs), tr1) \<Rightarrow>
                    (case cs_noise s of
                       None \<Rightarrow> Some (None, s\<lparr>cs_transport := Some tr1\<rparr>)
                     | Some n \<Rightarrow>
                         (case noise_consume c (b # bs) n of
                            (Inl e, out, n1) \<Rightarrow>
                              Some (None, s\<lparr>cs_transport := Some tr1, cs_noise := Some n1, cs_plaintextQueue := out, cs_error := e\<rparr>)
                          | (Inr _, out, n1) \<Rightarrow>
                              readNextNoiseRecord c (s\<lparr>cs_transport := Some tr1, cs_noise := Some n1, cs_plaintextQueue := out\<rparr>))))))"
  by pat_completeness auto
termination
  by (relation "measure (\<lambda>(c, s). script_size (cs_transport s))") (auto dest!: transport_read_size [OF sym])

declare readNextNoiseRecord.simps [simp del]

text \<open>
  What the two loops over frames share: the next frame of the decoder, traced and credited, or, when there is
  none, one more record appended to it.  The result of \<open>append\<close> is ignored.
\<close>

datatype Intake = Arrived Http2Frame | Refilled | IntakeFailed

definition intake :: "NoiseCrypto \<Rightarrow> ControlSession \<Rightarrow> (Intake \<times> ControlSession) option" where
  "intake c s = do {
     (h2Frame, d) \<leftarrow> Http2FrameDecoder_take (cs_http2Decoder s);
     let s0 = s\<lparr>cs_http2Decoder := d\<rparr>;
     case h2Frame of
       Some frame \<Rightarrow> do {
         s1 \<leftarrow> traceFrame frame s0;
         (ok, s2) \<leftarrow> creditData c frame s1;
         Some (if ok then Arrived frame else IntakeFailed, s2)
       }
     | None \<Rightarrow> do {
         (record, s1) \<leftarrow> readNextNoiseRecord c s0;
         Some (case record of
                 None \<Rightarrow> (IntakeFailed, s1)
               | Some chunk \<Rightarrow>
                   (Refilled, case Http2FrameDecoder_append (cs_http2Decoder s1) chunk of
                                None \<Rightarrow> s1
                              | Some d1 \<Rightarrow> s1\<lparr>cs_http2Decoder := d1\<rparr>))
       }
   }"

text \<open>SETTINGS and PING without the ACK flag are answered; a failure to do so is ignored.\<close>

definition acknowledge :: "NoiseCrypto \<Rightarrow> bytes \<Rightarrow> Http2Frame \<Rightarrow> ControlSession \<Rightarrow> ControlSession option" where
  "acknowledge c answer frame s =
     (if h2_flags frame AND 0x01 = 0 then map_option snd (send c answer s) else Some s)"

section \<open>Registration\<close>

text \<open>
  \<open>logRegisterResponse\<close> keeps no state, but its four \<open>json.value\<close> calls throw when a member has another type.
\<close>

definition logRegisterResponse :: "'j JsonApi \<Rightarrow> bytes \<Rightarrow> unit option" where
  "logRegisterResponse api payload =
     (case js_parse api (string_of_bytes payload) of
        None \<Rightarrow> Some ()
      | Some json \<Rightarrow>
          if \<not> js_is_object api json then Some ()
          else do {
            _ \<leftarrow> js_value_bool api json ''MachineAuthorized'' False;
            _ \<leftarrow> js_value_bool api json ''NodeKeyExpired'' False;
            _ \<leftarrow> js_value_string api json ''AuthURL'' [];
            _ \<leftarrow> js_value_string api json ''Error'' [];
            Some ()
          })"

datatype ('r, 's) progress = Continue 's | Finished 'r 's

definition register_frame :: "'j ControlEnv \<Rightarrow> u32 \<Rightarrow> Http2Frame \<Rightarrow> ControlSession \<Rightarrow> (bool, ControlSession) progress option" where
  "register_frame env streamId frame s =
     (if h2_type frame = 0x04 then map_option Continue (acknowledge (ce_crypto env) buildHttp2SettingsAck frame s)
      else if h2_type frame = 0x00 \<and> h2_streamId frame = streamId
      then map_option (\<lambda>_. Finished True s) (logRegisterResponse (ce_json env) (h2_payload frame))
      else Some (Continue s))"

definition register_step :: "'j ControlEnv \<Rightarrow> u32 \<Rightarrow> ControlSession \<Rightarrow> (bool, ControlSession) progress option" where
  "register_step env streamId s = do {
     (i, s1) \<leftarrow> intake (ce_crypto env) s;
     case i of
       IntakeFailed \<Rightarrow> Some (Finished False (snd (abandon s1)))
     | Refilled \<Rightarrow> Some (Continue s1)
     | Arrived frame \<Rightarrow> register_frame env streamId frame s1
   }"

section \<open>Every round makes progress\<close>

text \<open>Sending leaves the receiving side of a session alone.\<close>

definition same_receiver :: "NoiseClient option \<Rightarrow> NoiseClient option \<Rightarrow> bool" where
  "same_receiver n n1 =
     (case (n, n1) of
        (None, None) \<Rightarrow> True
      | (Some a, Some b) \<Rightarrow> ns_rxKey b = ns_rxKey a \<and> ns_rxNonce b = ns_rxNonce a \<and> ns_receiveBuffer b = ns_receiveBuffer a \<and>
          ns_ready b = ns_ready a \<and> ns_begun b = ns_begun a
      | _ \<Rightarrow> False)"

definition same_script :: "Transport option \<Rightarrow> Transport option \<Rightarrow> bool" where
  "same_script t t1 = (map_option incoming t1 = map_option incoming t)"

definition receives_alike :: "ControlSession \<Rightarrow> ControlSession \<Rightarrow> bool" where
  "receives_alike s s1 =
     (same_receiver (cs_noise s) (cs_noise s1) \<and> same_script (cs_transport s) (cs_transport s1) \<and>
      cs_plaintextQueue s1 = cs_plaintextQueue s \<and> cs_http2Decoder s1 = cs_http2Decoder s \<and>
      cs_mapFrameDecoder s1 = cs_mapFrameDecoder s \<and> cs_mapCodec s1 = cs_mapCodec s \<and> cs_mapStreamId s1 = cs_mapStreamId s \<and>
      cs_registerStreamId s1 = cs_registerStreamId s \<and> cs_nextStreamId s1 = cs_nextStreamId s \<and>
      cs_ready s1 = cs_ready s \<and> cs_recordReader s1 = cs_recordReader s)"

lemma same_receiver_refl [simp]: "same_receiver n n"
  by (cases n) (simp_all add: same_receiver_def)

lemma receives_alike_refl [simp]: "receives_alike s s"
  by (simp add: receives_alike_def same_script_def)

lemma receives_alike_trans: "receives_alike s s1 \<Longrightarrow> receives_alike s1 s2 \<Longrightarrow> receives_alike s s2"
  by (auto simp: receives_alike_def same_script_def same_receiver_def split: option.splits)

lemma receives_alike_update [simp]:
  "receives_alike s (s1\<lparr>cs_dataBytesReceived := v0\<rparr>) = receives_alike s s1"
  "receives_alike s (s1\<lparr>cs_windowWarned := v1\<rparr>) = receives_alike s s1"
  "receives_alike s (s1\<lparr>cs_windowUpdatesSent := v2\<rparr>) = receives_alike s s1"
  "receives_alike s (s1\<lparr>cs_registerHttpStatus := v3\<rparr>) = receives_alike s s1"
  "receives_alike s (s1\<lparr>cs_mapHttpStatus := v4\<rparr>) = receives_alike s s1"
  "receives_alike s (s1\<lparr>cs_connectionWindow := v5\<rparr>) = receives_alike s s1"
  "receives_alike s (s1\<lparr>cs_mapStreamWindow := v6\<rparr>) = receives_alike s s1"
  "receives_alike s (s1\<lparr>cs_error := v7\<rparr>) = receives_alike s s1"
  by (simp_all add: receives_alike_def)

lemma noise_frame_receiver: "noise_frame c bs n = (r, n1) \<Longrightarrow> same_receiver (Some n) (Some n1)"
  by (cases "ns_ready n") (auto simp: noise_frame_def frame_loop_records noise_fail_def same_receiver_def split: if_splits)

lemma transport_write_incoming: "transport_write e bs tr = (ok, e1, tr1) \<Longrightarrow> incoming tr1 = incoming tr"
  by (auto simp: transport_write_def split: list.splits option.splits)

lemma send_alike: "send c bs s = Some (ok, s1) \<Longrightarrow> receives_alike s s1"
  by (auto simp: send_def receives_alike_def same_script_def dest: noise_frame_receiver transport_write_incoming
      split: option.splits prod.splits sum.splits)

lemma send_updates_alike: "send_updates c us s = Some (ok, s1) \<Longrightarrow> receives_alike s s1"
proof (induction us arbitrary: s)
  case (Cons u us)
  from Cons.prems obtain ok1 s2 where sent: "send c u s = Some (ok1, s2)" by (cases "send c u s") auto
  with Cons.prems Cons.IH [of s2] send_alike [OF sent] show ?case by (auto split: if_splits intro: receives_alike_trans)
qed simp

lemma traceFrame_alike: "traceFrame frame s = Some s1 \<Longrightarrow> receives_alike s s1"
  by (cases "h2_type frame = 0"; cases "h2_type frame = 1"; cases "http2ResponseStatus frame")
    (fastforce simp: traceFrame_def Let_def split: if_splits)+

lemma credit_windows_alike: "credit_windows frame s = (us, s1) \<Longrightarrow> receives_alike s s1"
  by (auto simp: credit_windows_def Let_def split_def)

lemma creditData_alike:
  assumes "creditData c frame s = Some (ok, s1)"
  shows "receives_alike s s1"
proof -
  obtain us s2 where w: "credit_windows frame s = (us, s2)" by fastforce
  from assms w credit_windows_alike [OF w] show ?thesis
    by (auto simp: creditData_def bind_eq_Some_conv simp del: send_updates.simps split: if_splits list.splits
        intro: receives_alike_trans [OF _ send_updates_alike])
qed

lemma acknowledge_alike: "acknowledge c a frame s = Some s1 \<Longrightarrow> receives_alike s s1"
  by (auto simp: acknowledge_def dest: send_alike split: if_splits)

lemma receives_alike_sizes:
  "receives_alike s s1 \<Longrightarrow> script_size (cs_transport s1) = script_size (cs_transport s)"
  "receives_alike s s1 \<Longrightarrow> cs_plaintextQueue s1 = cs_plaintextQueue s"
  "receives_alike s s1 \<Longrightarrow> cs_http2Decoder s1 = cs_http2Decoder s"
  by (auto simp: receives_alike_def same_script_def script_size_def split: option.splits)

lemma take_shortens:
  "Http2FrameDecoder_take d = Some (Some frame, d1) \<Longrightarrow> length (h2_buffer d1) < length (h2_buffer d)"
  by (auto simp: Http2FrameDecoder_take_def kHttp2HeaderLen_def bind_eq_Some_conv split: if_splits)

definition pending_order :: "(ControlSession \<times> ControlSession) set" where
  "pending_order = measures [\<lambda>s. script_size (cs_transport s), \<lambda>s. length (cs_plaintextQueue s),
     \<lambda>s. length (h2_buffer (cs_http2Decoder s))]"

lemma wf_pending_order: "wf pending_order"
  by (simp add: pending_order_def)

lemma pending_order_alike: "receives_alike s1 s2 \<Longrightarrow> (s2, s) \<in> pending_order \<longleftrightarrow> (s1, s) \<in> pending_order"
  by (auto simp: pending_order_def receives_alike_sizes)

lemma readNextNoiseRecord_progress:
  "readNextNoiseRecord c s = Some (Some r, s1) \<Longrightarrow>
     script_size (cs_transport s1) < script_size (cs_transport s) \<or>
     script_size (cs_transport s1) = script_size (cs_transport s) \<and> length (cs_plaintextQueue s1) < length (cs_plaintextQueue s)"
proof (induction c s rule: readNextNoiseRecord.induct)
  case (1 c s)
  from "1.prems" show ?case
    by (subst (asm) readNextNoiseRecord.simps)
      (auto split: list.splits option.splits read_result.splits sum.splits prod.splits dest!: "1.IH" dest: transport_read_size)
qed

lemma intake_cases:
  assumes "intake c s = Some (i, s1)"
  obtains (frame) frame d s0 ok where "Http2FrameDecoder_take (cs_http2Decoder s) = Some (Some frame, d)"
      "traceFrame frame (s\<lparr>cs_http2Decoder := d\<rparr>) = Some s0" "creditData c frame s0 = Some (ok, s1)"
      "i = (if ok then Arrived frame else IntakeFailed)"
  | (refill) d chunk s0 where "Http2FrameDecoder_take (cs_http2Decoder s) = Some (None, d)"
      "readNextNoiseRecord c (s\<lparr>cs_http2Decoder := d\<rparr>) = Some (Some chunk, s0)" "i = Refilled"
      "s1 = (case Http2FrameDecoder_append (cs_http2Decoder s0) chunk of None \<Rightarrow> s0 | Some d1 \<Rightarrow> s0\<lparr>cs_http2Decoder := d1\<rparr>)"
  | (failed) d where "Http2FrameDecoder_take (cs_http2Decoder s) = Some (None, d)"
      "readNextNoiseRecord c (s\<lparr>cs_http2Decoder := d\<rparr>) = Some (None, s1)" "i = IntakeFailed"
proof -
  from assms obtain f d where take: "Http2FrameDecoder_take (cs_http2Decoder s) = Some (f, d)"
    by (cases "Http2FrameDecoder_take (cs_http2Decoder s)") (auto simp: intake_def)
  show thesis
  proof (cases f)
    case (Some frame)
    with assms take that(1) show ?thesis by (auto simp: intake_def Let_def bind_eq_Some_conv)
  next
    case None
    with assms take obtain r s2 where r: "readNextNoiseRecord c (s\<lparr>cs_http2Decoder := d\<rparr>) = Some (r, s2)"
      by (cases "readNextNoiseRecord c (s\<lparr>cs_http2Decoder := d\<rparr>)") (auto simp: intake_def)
    show ?thesis
    proof (cases r)
      case None
      with \<open>f = None\<close> assms take r that(3) show ?thesis by (auto simp: intake_def)
    next
      case (Some chunk)
      with \<open>f = None\<close> assms take r that(2) show ?thesis by (auto simp: intake_def)
    qed
  qed
qed

lemma intake_progress: "intake c s = Some (i, s1) \<Longrightarrow> i \<noteq> IntakeFailed \<Longrightarrow> (s1, s) \<in> pending_order"
proof (erule intake_cases)
  fix frame d s0 ok
  assume "Http2FrameDecoder_take (cs_http2Decoder s) = Some (Some frame, d)"
    "traceFrame frame (s\<lparr>cs_http2Decoder := d\<rparr>) = Some s0" "creditData c frame s0 = Some (ok, s1)"
  then show ?thesis
    using take_shortens receives_alike_trans [OF traceFrame_alike creditData_alike] by (fastforce simp: pending_order_def receives_alike_sizes)
next
  fix d chunk s0
  assume "readNextNoiseRecord c (s\<lparr>cs_http2Decoder := d\<rparr>) = Some (Some chunk, s0)"
    "s1 = (case Http2FrameDecoder_append (cs_http2Decoder s0) chunk of None \<Rightarrow> s0 | Some d1 \<Rightarrow> s0\<lparr>cs_http2Decoder := d1\<rparr>)"
  then show ?thesis
    using readNextNoiseRecord_progress by (fastforce simp: pending_order_def split: option.splits)
qed simp

lemma register_step_progress: "register_step env streamId s = Some (Continue s1) \<Longrightarrow> (s1, s) \<in> pending_order"
proof -
  assume step: "register_step env streamId s = Some (Continue s1)"
  then obtain i s0 where i: "intake (ce_crypto env) s = Some (i, s0)" by (cases "intake (ce_crypto env) s") (auto simp: register_step_def)
  with step have "i \<noteq> IntakeFailed" "receives_alike s0 s1"
    by (auto simp: register_step_def register_frame_def dest!: acknowledge_alike split: Intake.splits if_splits)
  with intake_progress [OF i] show ?thesis by (simp add: pending_order_alike)
qed

function register_loop :: "'j ControlEnv \<Rightarrow> u32 \<Rightarrow> ControlSession \<Rightarrow> (bool \<times> ControlSession) option" where
  "register_loop env streamId s =
     (case register_step env streamId s of
        None \<Rightarrow> None
      | Some (Finished ok s1) \<Rightarrow> Some (ok, s1)
      | Some (Continue s1) \<Rightarrow> register_loop env streamId s1)"
  by pat_completeness auto
termination
  by (relation "inv_image pending_order (\<lambda>(env, streamId, s). s)") (auto simp: wf_pending_order intro: register_step_progress)

declare register_loop.simps [simp del]

definition hostname_or_default :: "ControlSession \<Rightarrow> string" where
  "hostname_or_default s = (if cs_hostname s = [] then ''artemis-switch'' else cs_hostname s)"

text \<open>Two frames of a POST request: the headers, then the body with the end of the stream.\<close>

definition post :: "NoiseCrypto \<Rightarrow> u32 \<Rightarrow> string \<Rightarrow> string \<Rightarrow> ControlSession \<Rightarrow> (bool \<times> ControlSession) option" where
  "post c streamId path body s = do {
     (ok, s1) \<leftarrow> send c (buildHttp2PostHeaders streamId (cs_host s) path) s;
     if \<not> ok then Some (False, s1)
     else send c (buildHttp2DataFrame streamId (bytes_of_string body) True) s1
   }"

text \<open>
  The registration of \<open>connect\<close>: the result is the identifier of the next stream.  An empty JSON text skips it.
\<close>

definition connect_register :: "'j ControlEnv \<Rightarrow> bytes \<Rightarrow> int \<Rightarrow> ControlSession \<Rightarrow> (bool \<times> u32 \<times> ControlSession) option" where
  "connect_register env authKey capVer s =
     (if authKey = [] then Some (True, 1, s)
      else do {
        regJson \<leftarrow> encodeRegisterRequest (ce_dump env)
          \<lparr>reg_nodePublic = cs_nodePublic s, reg_authKey = string_of_bytes authKey, reg_hostname = hostname_or_default s,
           reg_capabilityVersion = capVer\<rparr>;
        if regJson = [] then Some (True, 1, s)
        else do {
          (ok, s1) \<leftarrow> post (ce_crypto env) 1 ''/machine/register'' regJson (s\<lparr>cs_registerStreamId := 1\<rparr>);
          if \<not> ok then (case abandon s1 of (_, s2) \<Rightarrow> Some (False, 1, s2))
          else do {
            (done, s2) \<leftarrow> register_loop env 1 s1;
            Some (done, if done then 3 else 1, s2)
          }
        }
      })"

definition connect_map :: "'j ControlEnv \<Rightarrow> u32 \<Rightarrow> int \<Rightarrow> ControlSession \<Rightarrow> (bool \<times> ControlSession) option" where
  "connect_map env streamId capVer s = do {
     mapJson \<leftarrow> encodeMapRequest (ce_dump env)
       \<lparr>req_nodePublic = cs_nodePublic s, req_discoPublic = cs_discoPublic s, req_endpoints = cs_localEndpoints s,
        req_stream = True, req_omitPeers = False, req_hostname = hostname_or_default s,
        req_preferredDerp = cs_initialPreferredDerp s, req_capabilityVersion = capVer\<rparr>;
     (ok, s1) \<leftarrow> (if mapJson = [] then Some (True, s)
                  else post (ce_crypto env) streamId ''/machine/map'' mapJson (s\<lparr>cs_mapStreamId := streamId\<rparr>));
     Some (if ok then (True, s1\<lparr>cs_nextStreamId := streamId + 2, cs_ready := True\<rparr>) else abandon s1)
   }"

section \<open>Connecting\<close>

definition connect_reset :: "ControlSession \<Rightarrow> ControlSession" where
  "connect_reset s =
     (resetTransport s)\<lparr>cs_noise := None, cs_plaintextQueue := [], cs_dataAccumulator := [], cs_ready := False,
        cs_registerStreamId := 0, cs_mapStreamId := 0, cs_registerHttpStatus := 0, cs_mapHttpStatus := 0,
        cs_dataBytesReceived := 0, cs_windowWarned := False, cs_windowUpdatesSent := 0,
        cs_connectionWindow := Http2ReceiveWindow_reset (cs_connectionWindow s),
        cs_mapStreamWindow := Http2ReceiveWindow_reset (cs_mapStreamWindow s),
        cs_http2Decoder := \<lparr>h2_buffer = []\<rparr>, cs_mapFrameDecoder := \<lparr>mfd_buffer = []\<rparr>,
        cs_mapCodec := \<lparr>stableIdsByNodeId = []\<rparr>, cs_nextStreamId := 1\<rparr>"

definition unconfigured :: "ControlSession \<Rightarrow> bool" where
  "unconfigured s = (cs_host s = [] \<or> cs_port s = 0 \<or> list_all (\<lambda>b. b = 0) (cs_controlPublic s))"

text \<open>The TS2021 handshake over the connected transport \<open>tr\<close>, up to \<open>noise_->complete\<close>.\<close>

definition connect_handshake :: "NoiseCrypto \<Rightarrow> bytes \<Rightarrow> bytes \<Rightarrow> Transport \<Rightarrow> ControlSession \<Rightarrow> bool \<times> ControlSession" where
  "connect_handshake c machineKey ephemeral tr s =
     (case noise_begin c (new_NoiseClient machineKey (cs_controlPublic s) ephemeral 1) of
        (Inl e, n) \<Rightarrow> abandon (s\<lparr>cs_noise := Some n, cs_error := e\<rparr>)
      | (Inr initiation, n) \<Rightarrow>
          let s1 = s\<lparr>cs_noise := Some n\<rparr>; request = buildTs2021UpgradeRequest (cs_host s) initiation in
          if request = [] then abandon (s1\<lparr>cs_error := ''cannot build TS2021 upgrade request''\<rparr>)
          else
            (case transport_write (cs_error s1) (bytes_of_string request) tr of
               (False, e, _) \<Rightarrow> abandon (s1\<lparr>cs_error := e\<rparr>)
             | (True, _, tr1) \<Rightarrow>
                 (case readHttpHeader [] tr1 of
                    (Inl e, _) \<Rightarrow> abandon (s1\<lparr>cs_error := e\<rparr>)
                  | (Inr hdr, tr2) \<Rightarrow>
                      (case validateTs2021UpgradeResponse hdr of
                         Inl e \<Rightarrow> abandon (s1\<lparr>cs_error := e\<rparr>)
                       | Inr _ \<Rightarrow>
                           (case readExact kResponseSize [] tr2 of
                              (Inl e, _) \<Rightarrow> abandon (s1\<lparr>cs_error := if e = [] then ''incomplete TS2021 handshake'' else e\<rparr>)
                            | (Inr response, tr3) \<Rightarrow>
                                (case noise_complete c response n of
                                   (Inl e, n1) \<Rightarrow> abandon (s1\<lparr>cs_noise := Some n1, cs_error := e\<rparr>)
                                 | (Inr _, n1) \<Rightarrow> (True, s1\<lparr>cs_noise := Some n1, cs_transport := Some tr3\<rparr>)))))))"

text \<open>What \<open>connect\<close> sends once the handshake is complete.\<close>

definition connect_requests :: "'j ControlEnv \<Rightarrow> Identity \<Rightarrow> bytes \<Rightarrow> ControlSession \<Rightarrow> (bool \<times> ControlSession) option" where
  "connect_requests env identity authKey s =
     (let capVer = (if ce_candidateCapability env > 0 then ce_candidateCapability env else 68);
          s1 = s\<lparr>cs_nodePublic := nc_public (ce_crypto env) (nodePrivate identity),
                 cs_discoPublic := nc_public (ce_crypto env) (discoPrivate identity), cs_capabilityVersion := capVer\<rparr>
      in do {
        (ok, s2) \<leftarrow> send (ce_crypto env) buildHttp2ClientPreface s1;
        if \<not> ok then Some (abandon s2)
        else do {
          (ok1, streamId, s3) \<leftarrow> connect_register env authKey capVer s2;
          if \<not> ok1 then Some (False, s3) else connect_map env streamId capVer s3
        }
      })"

text \<open>
  \<open>connect\<close>.  The argument \<open>factory\<close> is what the transport factory gives: \<open>None\<close> when there is none, otherwise the
  new transport (or a null pointer) and the error of its \<open>connect\<close>, if any; \<open>ephemeral\<close> are the random bytes.
\<close>

definition ControlSession_connect :: "'j ControlEnv \<Rightarrow> bytes \<Rightarrow> (Transport option \<times> string option) option \<Rightarrow> Identity \<Rightarrow> bytes \<Rightarrow>
    ControlSession \<Rightarrow> (bool \<times> ControlSession) option" where
  "ControlSession_connect env ephemeral factory identity authKey s =
     (let s0 = connect_reset s in
      if cs_recordReader s0 \<noteq> None then Some (True, s0\<lparr>cs_ready := True\<rparr>)
      else if unconfigured s0 then Some (refuse ''Tailscale control endpoint is not configured'' s0)
      else
        (case factory of
           None \<Rightarrow> Some (refuse ''Tailscale transport is unavailable'' s0)
         | Some (Some tr, None) \<Rightarrow>
             (case connect_handshake (ce_crypto env) (machinePrivate identity) ephemeral tr s0 of
                (False, s1) \<Rightarrow> Some (False, s1)
              | (True, s1) \<Rightarrow> connect_requests env identity authKey s1)
         | Some (tr, connectError) \<Rightarrow>
             let e = (case (tr, connectError) of (Some _, Some text) \<Rightarrow> text | _ \<Rightarrow> cs_error s0) in
             Some (refuse (if e = [] then ''cannot reach Tailscale control'' else e) s0)))"

section \<open>Updates of the host information\<close>

definition sendHostinfoUpdate :: "'j ControlEnv \<Rightarrow> int \<Rightarrow> ControlSession \<Rightarrow> (bool \<times> ControlSession) option" where
  "sendHostinfoUpdate env preferredDerp s =
     (if cs_recordReader s \<noteq> None then Some (True, s)
      else if \<not> cs_ready s \<or> cs_transport s = None \<or> cs_noise s = None then Some (refuse ''control session is not connected'' s)
      else do {
        json \<leftarrow> encodeMapRequest (ce_dump env)
          \<lparr>req_nodePublic = cs_nodePublic s, req_discoPublic = cs_discoPublic s, req_endpoints = cs_localEndpoints s,
           req_stream = False, req_omitPeers = True, req_hostname = hostname_or_default s,
           req_preferredDerp = preferredDerp, req_capabilityVersion = cs_capabilityVersion s\<rparr>;
        if json = [] then Some (refuse ''cannot encode Hostinfo update'' s)
        else post (ce_crypto env) (cs_nextStreamId s) ''/machine/map'' json (s\<lparr>cs_nextStreamId := cs_nextStreamId s + 2\<rparr>)
      })"

section \<open>Polling\<close>

text \<open>The text \<open>MapFrameDecoder::take\<close> leaves behind: only an oversized frame sets one.\<close>

definition take_error :: "MapFrameDecoder \<Rightarrow> string \<Rightarrow> string" where
  "take_error d e =
     (if length (mfd_buffer d) \<ge> 4 \<and> unat (le32_size (mfd_buffer d)) > kMaxMapFrameSize then ''netmap frame is oversized'' else e)"

definition poll_data :: "Http2Frame \<Rightarrow> ControlSession \<Rightarrow> (string option, ControlSession) progress" where
  "poll_data frame s =
     (if cs_mapStreamId s \<noteq> 0 \<and> h2_streamId frame \<noteq> cs_mapStreamId s then Continue s
      else
        (case MapFrameDecoder_append (h2_payload frame) (cs_mapFrameDecoder s) of
           (False, d) \<Rightarrow> Finished None (s\<lparr>cs_mapFrameDecoder := d, cs_error := ''netmap receive buffer limit exceeded''\<rparr>)
         | (True, d) \<Rightarrow>
             (case MapFrameDecoder_take d of
                (Some body, d1) \<Rightarrow> Finished (Some body) (s\<lparr>cs_mapFrameDecoder := d1\<rparr>)
              | (None, d1) \<Rightarrow> Continue (s\<lparr>cs_mapFrameDecoder := d1, cs_error := take_error d (cs_error s)\<rparr>))))"

definition poll_frame :: "NoiseCrypto \<Rightarrow> Http2Frame \<Rightarrow> ControlSession \<Rightarrow> (string option, ControlSession) progress option" where
  "poll_frame c frame s =
     (if h2_type frame = 0x04 then map_option Continue (acknowledge c buildHttp2SettingsAck frame s)
      else if h2_type frame = 0x06 then map_option Continue (acknowledge c (buildHttp2PingAck (h2_payload frame)) frame s)
      else if h2_type frame = 0x00 then Some (poll_data frame s)
      else Some (Continue s))"

definition poll_step :: "NoiseCrypto \<Rightarrow> ControlSession \<Rightarrow> (string option, ControlSession) progress option" where
  "poll_step c s = do {
     (i, s1) \<leftarrow> intake c s;
     case i of
       IntakeFailed \<Rightarrow> Some (Finished None s1)
     | Refilled \<Rightarrow> Some (Continue s1)
     | Arrived frame \<Rightarrow> poll_frame c frame s1
   }"

lemma poll_data_pending: "poll_data frame s = Continue s1 \<Longrightarrow> (s1, s0) \<in> pending_order \<longleftrightarrow> (s, s0) \<in> pending_order"
  by (auto simp: poll_data_def pending_order_def split: if_splits prod.splits bool.splits option.splits)

lemma poll_step_progress: "poll_step c s = Some (Continue s1) \<Longrightarrow> (s1, s) \<in> pending_order"
proof -
  assume step: "poll_step c s = Some (Continue s1)"
  then obtain i s0 where i: "intake c s = Some (i, s0)" by (cases "intake c s") (auto simp: poll_step_def)
  with step have "i \<noteq> IntakeFailed" "(s1, s) \<in> pending_order \<longleftrightarrow> (s0, s) \<in> pending_order"
    by (auto simp: poll_step_def poll_frame_def pending_order_alike poll_data_pending dest!: acknowledge_alike split: Intake.splits if_splits)
  with intake_progress [OF i] show ?thesis by simp
qed

function poll_loop :: "NoiseCrypto \<Rightarrow> ControlSession \<Rightarrow> (string option \<times> ControlSession) option" where
  "poll_loop c s =
     (case poll_step c s of
        None \<Rightarrow> None
      | Some (Finished record s1) \<Rightarrow> Some (record, s1)
      | Some (Continue s1) \<Rightarrow> poll_loop c s1)"
  by pat_completeness auto
termination
  by (relation "inv_image pending_order (\<lambda>(c, s). s)") (auto simp: wf_pending_order intro: poll_step_progress)

declare poll_loop.simps [simp del]

text \<open>The four results of \<open>poll\<close> as they are cleared at its start.\<close>

record PollOut =
  po_delta :: PeerDelta
  po_fullPeers :: "Peer list option"
  po_localAddress :: string
  po_derpMap :: "DerpRegion list option"

definition cleared :: PollOut where
  "cleared = \<lparr>po_delta = \<lparr>changed = [], removedStableIds = [], onlineChanges = []\<rparr>, po_fullPeers = None,
     po_localAddress = [], po_derpMap = None\<rparr>"

definition poll_decode :: "'j ControlEnv \<Rightarrow> string \<Rightarrow> ControlSession \<Rightarrow> (bool \<times> PollOut \<times> ControlSession) option" where
  "poll_decode env record s =
     (case MapCodec_decode (ce_charSigned env) (ce_json env) record (cs_mapCodec s) of
        (Threw, _) \<Rightarrow> None
      | (Rejected e, mc) \<Rightarrow>
          Some (False, cleared, s\<lparr>cs_mapCodec := mc, cs_error := if e = [] then cs_error s else e\<rparr>)
      | (Value u, mc) \<Rightarrow>
          Some (True,
            if keepAlive u then cleared
            else \<lparr>po_delta = update_delta u, po_fullPeers = fullPeers u, po_localAddress = localAddress u, po_derpMap = update_derpMap u\<rparr>,
            s\<lparr>cs_mapCodec := mc\<rparr>))"

definition ControlSession_poll :: "'j ControlEnv \<Rightarrow> PollOut \<Rightarrow> ControlSession \<Rightarrow> (bool \<times> PollOut \<times> ControlSession) option" where
  "ControlSession_poll env out s =
     (if \<not> cs_ready s \<or> (cs_recordReader s = None \<and> cs_transport s = None)
      then Some (False, out, s\<lparr>cs_error := ''Tailscale control session is not connected''\<rparr>)
      else
        (case cs_recordReader s of
           Some [] \<Rightarrow> Some (False, cleared, s)
         | Some (Inl e # rest) \<Rightarrow> Some (False, cleared, s\<lparr>cs_recordReader := Some rest, cs_error := e\<rparr>)
         | Some (Inr record # rest) \<Rightarrow> poll_decode env record (s\<lparr>cs_recordReader := Some rest\<rparr>)
         | None \<Rightarrow> do {
             (record, s1) \<leftarrow> poll_loop (ce_crypto env) s;
             (case record of None \<Rightarrow> Some (False, cleared, s1) | Some r \<Rightarrow> poll_decode env r s1)
           }))"

end
