(* ===== verification/TailscaleControlSessionCorrect.thy ===== *)
theory TailscaleControlSessionCorrect
  imports TailscaleControlSession
begin

text \<open>
  What a control session guarantees: the messages the server streams reach \<open>poll\<close> through the three layers,
  \<open>connect\<close> completes against a responder of the Noise specification, and a connection that fails leaves nothing behind.
\<close>

section \<open>Scripts that deliver\<close>

definition data_script :: "Transport \<Rightarrow> bool" where
  "data_script tr = list_all (\<lambda>r. read_bytes r \<noteq> []) (incoming tr)"

definition script_bytes :: "Transport \<Rightarrow> bytes" where
  "script_bytes tr = concat (map read_bytes (incoming tr))"

lemma transport_read_data:
  assumes "data_script tr" "0 < n" "script_bytes tr \<noteq> []"
  obtains b bs tr1 where "transport_read n tr = (ReadBytes (b # bs), tr1)" "length (b # bs) \<le> n"
    "script_bytes tr = (b # bs) @ script_bytes tr1" "data_script tr1" "write_results tr1 = write_results tr" "outgoing tr1 = outgoing tr"
proof -
  from assms obtain d ds rs where inc: "incoming tr = ReadBytes (d # ds) # rs"
    by (cases "incoming tr") (auto simp: data_script_def script_bytes_def neq_Nil_conv elim: read_bytes.elims)
  show thesis
  proof (cases "length (d # ds) \<le> n")
    case True
    then show ?thesis
      using assms inc by (intro that [of d ds "tr\<lparr>incoming := rs\<rparr>"]) (auto simp: transport_read_def data_script_def script_bytes_def)
  next
    case False
    with assms(2) obtain m where m: "n = Suc m" by (cases n) auto
    show ?thesis
      using False assms inc m
      by (intro that [of d "take m ds" "tr\<lparr>incoming := ReadBytes (drop m ds) # rs\<rparr>"])
        (auto simp: transport_read_def data_script_def script_bytes_def)
  qed
qed

lemma readHttpHeader_reads:
  assumes "data_script tr" "script_bytes tr = bytes_of_string rest @ beyond" "rest \<noteq> []"
    and "length hdr + length rest \<le> kMaxResponseHeader" "ends_with (crlf @ crlf) (hdr @ rest)"
    and "\<And>p q. rest = p @ q \<Longrightarrow> p \<noteq> [] \<Longrightarrow> q \<noteq> [] \<Longrightarrow> \<not> ends_with (crlf @ crlf) (hdr @ p)"
  shows "\<exists>tr1. readHttpHeader hdr tr = (Inr (hdr @ rest), tr1) \<and> script_bytes tr1 = beyond \<and> data_script tr1 \<and>
    write_results tr1 = write_results tr \<and> outgoing tr1 = outgoing tr"
  using assms
proof (induction rest arbitrary: hdr tr)
  case (Cons x xs)
  from Cons.prems(2) have "script_bytes tr \<noteq> []" by (simp add: bytes_of_string_def)
  then obtain b bs tr1 where r: "transport_read 1 tr = (ReadBytes (b # bs), tr1)" "length (b # bs) \<le> 1"
    "script_bytes tr = (b # bs) @ script_bytes tr1" "data_script tr1" "write_results tr1 = write_results tr" "outgoing tr1 = outgoing tr"
    using transport_read_data [OF Cons.prems(1), of 1] by auto
  then have b: "bs = []" "b = byte_of_char x" "script_bytes tr1 = bytes_of_string xs @ beyond"
    using Cons.prems(2) by (auto simp: bytes_of_string_def)
  have x: "char_of (unat b) = x"
    using string_of_bytes_of_string [of "[x]"] b(2) by (simp add: string_of_bytes_def bytes_of_string_def)
  have room: "length hdr < kMaxResponseHeader" using Cons.prems(4) by simp
  show ?case
  proof (cases "xs = []")
    case True
    with r b x room Cons.prems(5) show ?thesis by (simp add: readHttpHeader.simps bytes_of_string_def)
  next
    case False
    with Cons.prems(6) [of "[x]" xs] have "\<not> ends_with (crlf @ crlf) (hdr @ [x])" by simp
    then have "readHttpHeader hdr tr = readHttpHeader (hdr @ [x]) tr1"
      using r b x room by (subst readHttpHeader.simps) simp
    moreover have "\<exists>tr2. readHttpHeader (hdr @ [x]) tr1 = (Inr ((hdr @ [x]) @ xs), tr2) \<and> script_bytes tr2 = beyond \<and> data_script tr2 \<and>
        write_results tr2 = write_results tr1 \<and> outgoing tr2 = outgoing tr1"
      using False r(4) b(3) Cons.prems(4,5) Cons.prems(6) [of "x # _"] by (intro Cons.IH) auto
    ultimately show ?thesis using r(5,6) by auto
  qed
qed simp

lemma readExact_reads:
  assumes "data_script tr" "script_bytes tr = rest @ beyond" "length got + length rest = sz"
  shows "\<exists>tr1. readExact sz got tr = (Inr (got @ rest), tr1) \<and> script_bytes tr1 = beyond \<and> data_script tr1 \<and>
    write_results tr1 = write_results tr \<and> outgoing tr1 = outgoing tr"
  using assms
proof (induction "length rest" arbitrary: got rest tr rule: less_induct)
  case less
  show ?case
  proof (cases "rest = []")
    case True
    with less.prems show ?thesis by (simp add: readExact.simps)
  next
    case False
    with less.prems have "script_bytes tr \<noteq> []" "0 < sz - length got" by auto
    then obtain b bs tr1 where r: "transport_read (sz - length got) tr = (ReadBytes (b # bs), tr1)" "length (b # bs) \<le> sz - length got"
      "script_bytes tr = (b # bs) @ script_bytes tr1" "data_script tr1" "write_results tr1 = write_results tr" "outgoing tr1 = outgoing tr"
      using transport_read_data [OF less.prems(1), of "sz - length got"] by metis
    with less.prems obtain later where later: "rest = (b # bs) @ later" "script_bytes tr1 = later @ beyond"
      by (metis (no_types, lifting) append_eq_append_conv_if append_take_drop_id diff_add_inverse)
    have "readExact sz got tr = readExact sz (got @ b # bs) tr1"
      using r less.prems(3) False by (subst readExact.simps) (simp add: later)
    with less.hyps [of later tr1 "got @ b # bs"] later r less.prems(3) show ?thesis by auto
  qed
qed

section \<open>What is still to be received\<close>

text \<open>
  \<open>pending c s bs\<close>: the session is connected, its writes succeed, and the plaintext \<open>bs\<close> is on its way to
  the HTTP/2 decoder: a part is in the decoder, a part in records already opened, and the rest in records that are
  cut over the receive buffer and the script in any way.
\<close>

definition records_pending :: "NoiseCrypto \<Rightarrow> NoiseClient \<Rightarrow> bytes \<Rightarrow> bytes list \<Rightarrow> bool" where
  "records_pending c n wire ps =
     (ns_ready n \<and> ns_receiveBuffer n @ wire = noise_records c (ns_rxKey n) (ns_rxNonce n) ps \<and>
      (\<forall>q \<in> set ps. length q \<le> kMaxPlaintextSize) \<and>
      (case ps of [] \<Rightarrow> ns_receiveBuffer n = [] | q # _ \<Rightarrow> length (ns_receiveBuffer n) < length q + 19))"

definition pending :: "NoiseCrypto \<Rightarrow> ControlSession \<Rightarrow> bytes \<Rightarrow> bool" where
  "pending c s bs =
     (\<exists>n tr ps. cs_noise s = Some n \<and> cs_transport s = Some tr \<and> data_script tr \<and> write_results tr = [] \<and>
        records_pending c n (script_bytes tr) ps \<and> (\<forall>q \<in> set (cs_plaintextQueue s). length q \<le> kMaxPlaintextSize) \<and>
        bs = h2_buffer (cs_http2Decoder s) @ concat (cs_plaintextQueue s) @ concat ps)"

definition keeps :: "ControlSession \<Rightarrow> ControlSession \<Rightarrow> bool" where
  "keeps s s1 =
     (cs_mapFrameDecoder s1 = cs_mapFrameDecoder s \<and> cs_mapCodec s1 = cs_mapCodec s \<and> cs_mapStreamId s1 = cs_mapStreamId s \<and>
      cs_ready s1 = cs_ready s \<and> cs_recordReader s1 = cs_recordReader s)"

lemma keeps_refl [simp]: "keeps s s"
  by (simp add: keeps_def)

lemma keeps_trans: "keeps s s1 \<Longrightarrow> keeps s1 s2 \<Longrightarrow> keeps s s2"
  by (simp add: keeps_def)

lemma alike_keeps: "receives_alike s s1 \<Longrightarrow> keeps s s1"
  by (simp add: receives_alike_def keeps_def)

lemma noise_consume_pending:
  assumes "noise_crypto_ok c" "records_pending c n (b @ wire) ps" "length b \<le> kReadChunk"
  shows "\<exists>ds ts n1. ps = ds @ ts \<and> noise_consume c b n = (Inr (), ds, n1) \<and> records_pending c n1 wire ts"
proof -
  let ?n = "n\<lparr>ns_receiveBuffer := ns_receiveBuffer n @ b\<rparr>"
  from assms(2) have ps: "\<forall>q \<in> set ps. length q \<le> kMaxPlaintextSize" "ns_ready n"
    and stream: "(ns_receiveBuffer n @ b) @ wire = noise_records c (ns_rxKey n) (ns_rxNonce n) ps"
    by (simp_all add: records_pending_def)
  have "length (ns_receiveBuffer n) \<le> 4095"
    using assms(2) by (cases ps) (auto simp: records_pending_def kMaxPlaintextSize_def)
  with assms(3) have room: "length (ns_receiveBuffer n) + length b \<le> kMaxBufferedCiphertext"
    by (simp add: kMaxBufferedCiphertext_def kReadChunk_def)
  from consume_loop_stream [OF assms(1) ps(1), of ?n "ns_rxKey n" "ns_rxNonce n" "ns_receiveBuffer n @ b" wire "[]"] stream
  obtain ds ts p where d: "ps = ds @ ts"
    "consume_loop c (ns_receiveBuffer n @ b) [] ?n = (Inr p, ds, ?n\<lparr>ns_rxNonce := ns_rxNonce n + word_of_nat (length ds)\<rparr>)"
    "p @ wire = noise_records c (ns_rxKey n) (ns_rxNonce n + word_of_nat (length ds)) ts"
    "case ts of [] \<Rightarrow> p = [] | q # _ \<Rightarrow> length p < length q + 19" by auto
  let ?n1 = "n\<lparr>ns_receiveBuffer := p, ns_rxNonce := ns_rxNonce n + word_of_nat (length ds)\<rparr>"
  have "noise_consume c b n = (Inr (), ds, ?n1)"
    using ps(2) room d(2) by (simp add: noise_consume_def Let_def)
  moreover have "records_pending c ?n1 wire ts"
    using d ps by (auto simp: records_pending_def split: list.splits)
  ultimately show ?thesis using d(1) by blast
qed

lemma readNextNoiseRecord_pending:
  assumes "noise_crypto_ok c" "pending c s bs" "length (h2_buffer (cs_http2Decoder s)) < length bs"
  shows "\<exists>chunk s1. readNextNoiseRecord c s = Some (Some chunk, s1) \<and> length chunk \<le> kMaxPlaintextSize \<and>
    cs_http2Decoder s1 = cs_http2Decoder s \<and> keeps s s1 \<and>
    (\<forall>d. h2_buffer d = h2_buffer (cs_http2Decoder s) @ chunk \<longrightarrow> pending c (s1\<lparr>cs_http2Decoder := d\<rparr>) bs)"
  using assms(2,3)
proof (induction "script_size (cs_transport s)" arbitrary: s rule: less_induct)
  case less
  from less.prems(1) obtain n tr ps where p: "cs_noise s = Some n" "cs_transport s = Some tr" "data_script tr" "write_results tr = []"
      "records_pending c n (script_bytes tr) ps" "\<forall>q \<in> set (cs_plaintextQueue s). length q \<le> kMaxPlaintextSize"
      "bs = h2_buffer (cs_http2Decoder s) @ concat (cs_plaintextQueue s) @ concat ps" by (auto simp: pending_def)
  show ?case
  proof (cases "cs_plaintextQueue s")
    case (Cons r queue)
    with p show ?thesis
      by (auto simp: readNextNoiseRecord.simps pending_def keeps_def)
  next
    case Nil
    with less.prems(2) p(7) have "ps \<noteq> []" by auto
    with p(5) have "script_bytes tr \<noteq> []"
      using noise_record_header(3) [OF assms(1)] by (cases ps) (auto simp: records_pending_def)
    moreover have "0 < kReadChunk" by (simp add: kReadChunk_def)
    ultimately obtain b bs' tr1 where r: "transport_read kReadChunk tr = (ReadBytes (b # bs'), tr1)" "length (b # bs') \<le> kReadChunk"
      "script_bytes tr = (b # bs') @ script_bytes tr1" "data_script tr1" "write_results tr1 = write_results tr" "outgoing tr1 = outgoing tr"
      using transport_read_data [OF p(3)] by metis
    from noise_consume_pending [OF assms(1), of n "b # bs'" "script_bytes tr1" ps] r(2,3) p(5)
    obtain ds ts n1 where c: "ps = ds @ ts" "noise_consume c (b # bs') n = (Inr (), ds, n1)" "records_pending c n1 (script_bytes tr1) ts"
      by auto
    let ?s = "s\<lparr>cs_transport := Some tr1, cs_noise := Some n1, cs_plaintextQueue := ds\<rparr>"
    have eq: "readNextNoiseRecord c s = readNextNoiseRecord c ?s"
      using Nil p(1,2) r(1) c(2) by (subst readNextNoiseRecord.simps) simp
    have "\<forall>q \<in> set ds. length q \<le> kMaxPlaintextSize" using p(5) c(1) by (auto simp: records_pending_def)
    then have "pending c ?s bs"
      using c r p(4,7) Nil by (auto simp: pending_def)
    moreover have "script_size (cs_transport ?s) < script_size (cs_transport s)"
      using transport_read_size [OF r(1)] p(2) by simp
    ultimately obtain chunk s1 where "readNextNoiseRecord c ?s = Some (Some chunk, s1)" "length chunk \<le> kMaxPlaintextSize"
      "cs_http2Decoder s1 = cs_http2Decoder s" "keeps ?s s1"
      "\<forall>d. h2_buffer d = h2_buffer (cs_http2Decoder s) @ chunk \<longrightarrow> pending c (s1\<lparr>cs_http2Decoder := d\<rparr>) bs"
      using less.hyps [of ?s] less.prems(2) by auto
    then show ?thesis by (simp add: eq keeps_def)
  qed
qed

section \<open>Sending while receiving\<close>

lemma alike_pending:
  assumes "receives_alike s s1" "pending c s bs" "\<exists>tr. cs_transport s1 = Some tr \<and> write_results tr = []"
  shows "pending c s1 bs"
proof -
  from assms(2) obtain n tr ps where p: "cs_noise s = Some n" "cs_transport s = Some tr" "data_script tr"
      "records_pending c n (script_bytes tr) ps" "\<forall>q \<in> set (cs_plaintextQueue s). length q \<le> kMaxPlaintextSize"
      "bs = h2_buffer (cs_http2Decoder s) @ concat (cs_plaintextQueue s) @ concat ps" by (auto simp: pending_def)
  from assms(1,3) p(1,2) obtain n1 tr1 where n1: "cs_noise s1 = Some n1" "cs_transport s1 = Some tr1" "incoming tr1 = incoming tr" "write_results tr1 = []"
      "ns_rxKey n1 = ns_rxKey n" "ns_rxNonce n1 = ns_rxNonce n" "ns_receiveBuffer n1 = ns_receiveBuffer n" "ns_ready n1 = ns_ready n"
    by (auto simp: receives_alike_def same_receiver_def same_script_def split: option.splits)
  then have "data_script tr1" "records_pending c n1 (script_bytes tr1) ps"
    using p by (simp_all add: data_script_def script_bytes_def records_pending_def split: list.splits)
  with n1 assms(1) p show ?thesis by (auto simp: pending_def receives_alike_def)
qed

lemma send_pending:
  assumes "pending c s bs"
  shows "\<exists>s1. send c x s = Some (True, s1) \<and> pending c s1 bs \<and> keeps s s1"
proof -
  from assms obtain n tr where p: "cs_noise s = Some n" "cs_transport s = Some tr" "write_results tr = []" "ns_ready n"
    by (auto simp: pending_def records_pending_def)
  then obtain s1 where s1: "send c x s = Some (True, s1)" "\<exists>tr. cs_transport s1 = Some tr \<and> write_results tr = []"
    by (simp add: send_def noise_frame_records transport_write_def)
  with alike_pending [OF send_alike [OF s1(1)] assms] alike_keeps [OF send_alike [OF s1(1)]] show ?thesis by blast
qed

lemma send_updates_pending:
  assumes "pending c s bs"
  shows "\<exists>s1. send_updates c us s = Some (True, s1) \<and> pending c s1 bs \<and> keeps s s1"
  using assms
proof (induction us arbitrary: s)
  case (Cons u us)
  from send_pending [OF Cons.prems] obtain s1 where "send c u s = Some (True, s1)" "pending c s1 bs" "keeps s s1" by blast
  with Cons.IH [of s1] show ?case by (auto intro: keeps_trans)
qed simp

lemma pending_update [simp]:
  "pending c (s\<lparr>cs_windowUpdatesSent := w\<rparr>) bs = pending c s bs" "keeps s0 (s\<lparr>cs_windowUpdatesSent := w\<rparr>) = keeps s0 s"
  by (simp_all add: pending_def keeps_def)

lemma creditData_pending:
  assumes "pending c s bs"
  shows "\<exists>s1. creditData c frame s = Some (True, s1) \<and> pending c s1 bs \<and> keeps s s1"
proof -
  obtain us s0 where w: "credit_windows frame s = (us, s0)" by fastforce
  have "cs_transport s0 = cs_transport s" using w by (auto simp: credit_windows_def Let_def split_def)
  with assms have "pending c s0 bs"
    using alike_pending [OF credit_windows_alike [OF w] assms] by (auto simp: pending_def)
  then show ?thesis
    using assms w alike_keeps [OF credit_windows_alike [OF w]] send_updates_pending [of c s0 bs us]
    by (cases us) (auto simp: creditData_def simp del: send_updates.simps intro: keeps_trans)
qed

lemma traceFrame_pending:
  assumes "pending c s bs" "h2_type frame = 1 \<longrightarrow> http2ResponseStatus frame \<noteq> None"
  shows "\<exists>s1. traceFrame frame s = Some s1 \<and> pending c s1 bs \<and> keeps s s1"
proof -
  from assms(2) obtain s1 where s1: "traceFrame frame s = Some s1" "cs_transport s1 = cs_transport s"
    by (cases "h2_type frame = 0"; cases "h2_type frame = 1") (auto simp: traceFrame_def Let_def)
  with assms(1) alike_pending [OF traceFrame_alike [OF s1(1)] assms(1)] alike_keeps [OF traceFrame_alike [OF s1(1)]]
  show ?thesis by (auto simp: pending_def)
qed

lemma acknowledge_pending:
  "pending c s bs \<Longrightarrow> \<exists>s1. acknowledge c answer frame s = Some s1 \<and> pending c s1 bs \<and> keeps s s1"
  using send_pending [of c s bs answer] by (auto simp: acknowledge_def)

section \<open>The next frame\<close>

lemma Http2FrameDecoder_take_total: "\<exists>r d1. Http2FrameDecoder_take d = Some (r, d1)"
  by (auto simp: Http2FrameDecoder_take_def read24_def read32_def rd8_def rd_span_def kHttp2HeaderLen_def)

lemma take_of_decoder_take: "decoder_take d = r \<Longrightarrow> Http2FrameDecoder_take d = Some r"
  using Http2FrameDecoder_take_total [of d] by (auto simp: decoder_take_def)

text \<open>A frame that fits beside one more record, with a status that does not overflow.\<close>

definition fits_control :: "Http2Frame \<Rightarrow> bool" where
  "fits_control f = (well_formed f \<and> length (h2_payload f) + kMaxPlaintextSize \<le> kMaxFrameSize \<and>
     (h2_type f = 1 \<longrightarrow> http2ResponseStatus f \<noteq> None))"

lemma intake_pending:
  assumes "noise_crypto_ok c" "fits_control f" "pending c s (frame_bytes f @ rest)"
  obtains (arrived) s1 where "intake c s = Some (Arrived f, s1)" "pending c s1 rest" "keeps s s1"
  | (refilled) s1 where "intake c s = Some (Refilled, s1)" "pending c s1 (frame_bytes f @ rest)" "keeps s s1" "(s1, s) \<in> pending_order"
proof -
  let ?d = "cs_http2Decoder s"
  from assms(2) have wf: "well_formed f" by (simp add: fits_control_def)
  from assms(3) obtain queued where queued: "frame_bytes f @ rest = h2_buffer ?d @ queued" by (auto simp: pending_def)
  then consider b where "h2_buffer ?d = frame_bytes f @ b" | q where "frame_bytes f = h2_buffer ?d @ q" "q \<noteq> []"
    by (metis append_Nil2 append_eq_append_conv2)
  then show thesis
  proof cases
    case 1
    from take_of_decoder_take [OF decoder_take_whole [OF wf 1]]
    have t: "Http2FrameDecoder_take ?d = Some (Some f, ?d\<lparr>h2_buffer := b\<rparr>)" .
    let ?s = "s\<lparr>cs_http2Decoder := ?d\<lparr>h2_buffer := b\<rparr>\<rparr>"
    have "pending c ?s rest" using assms(3) 1 by (auto simp: pending_def)
    then obtain s1 where s1: "traceFrame f ?s = Some s1" "pending c s1 rest" "keeps ?s s1"
      using traceFrame_pending assms(2) by (metis fits_control_def)
    from creditData_pending [OF s1(2)] obtain s2 where "creditData c f s1 = Some (True, s2)" "pending c s2 rest" "keeps s1 s2" by blast
    with s1 t show ?thesis
      by (intro that(1) [of s2]) (auto simp: intake_def keeps_def)
  next
    case 2
    from take_of_decoder_take [OF decoder_take_partial [OF wf 2]] have t: "Http2FrameDecoder_take ?d = Some (None, ?d)" .
    have short: "length (h2_buffer ?d) < length (frame_bytes f @ rest)" "length (h2_buffer ?d) < length (h2_payload f) + 9"
      using arg_cong [OF 2(1), of length] 2(2) by (cases q; simp add: frame_bytes_def)+
    from readNextNoiseRecord_pending [OF assms(1,3) short(1)]
    obtain chunk s1 where s1: "readNextNoiseRecord c s = Some (Some chunk, s1)" "length chunk \<le> kMaxPlaintextSize"
        "cs_http2Decoder s1 = ?d" "keeps s s1"
        "\<forall>d. h2_buffer d = h2_buffer ?d @ chunk \<longrightarrow> pending c (s1\<lparr>cs_http2Decoder := d\<rparr>) (frame_bytes f @ rest)" by blast
    have "Http2FrameDecoder_append ?d chunk = Some (?d\<lparr>h2_buffer := h2_buffer ?d @ chunk\<rparr>)"
      using assms(2) short(2) s1(2) by (simp add: Http2FrameDecoder_append_def fits_control_def kHttp2HeaderLen_def)
    with s1 t have i: "intake c s = Some (Refilled, s1\<lparr>cs_http2Decoder := ?d\<lparr>h2_buffer := h2_buffer ?d @ chunk\<rparr>\<rparr>)"
      by (simp add: intake_def)
    show ?thesis
      using that(2) [OF i] s1(4,5) intake_progress [OF i] by (auto simp: keeps_def)
  qed
qed

section \<open>Polling\<close>

lemma poll_loop_frame:
  assumes "noise_crypto_ok c" "fits_control f" "pending c s (frame_bytes f @ rest)"
  shows "\<exists>s1. pending c s1 rest \<and> keeps s s1 \<and>
    poll_loop c s = (case poll_frame c f s1 of None \<Rightarrow> None | Some (Finished r s2) \<Rightarrow> Some (r, s2) | Some (Continue s2) \<Rightarrow> poll_loop c s2)"
  using wf_pending_order assms(3)
proof (induction s rule: wf_induct_rule)
  case (less s)
  show ?case
  proof (cases rule: intake_pending [OF assms(1,2) less.prems])
    case a: (1 s1)
    then have "poll_loop c s = (case poll_frame c f s1 of None \<Rightarrow> None | Some (Finished r s2) \<Rightarrow> Some (r, s2) | Some (Continue s2) \<Rightarrow> poll_loop c s2)"
      by (subst poll_loop.simps) (simp add: poll_step_def)
    with a show ?thesis by blast
  next
    case r: (2 s1)
    then have "poll_loop c s = poll_loop c s1" by (subst poll_loop.simps) (simp add: poll_step_def)
    with less.IH [OF r(4,2)] r(3) show ?thesis by (auto intro: keeps_trans)
  qed
qed

text \<open>The part of a frame that reaches the map decoder.\<close>

definition map_payload :: "u32 \<Rightarrow> Http2Frame \<Rightarrow> bytes" where
  "map_payload sid f = (if h2_type f = 0 \<and> (sid = 0 \<or> h2_streamId f = sid) then h2_payload f else [])"

abbreviation map_buffer :: "ControlSession \<Rightarrow> bytes" where
  "map_buffer s \<equiv> mfd_buffer (cs_mapFrameDecoder s)"

lemma MapFrameDecoder_append_fits:
  "length (mfd_buffer d) + length bs \<le> kMaxMapFrameSize + 4 \<Longrightarrow> MapFrameDecoder_append bs d = (True, d\<lparr>mfd_buffer := mfd_buffer d @ bs\<rparr>)"
  by (auto simp: MapFrameDecoder_append_def)

lemma poll_frame_partial:
  assumes "pending c s rest" "length body \<le> kMaxMapFrameSize"
    and "map_frame_bytes body = (map_buffer s @ map_payload (cs_mapStreamId s) f) @ q" "q \<noteq> []"
  shows "\<exists>s1. poll_frame c f s = Some (Continue s1) \<and> pending c s1 rest \<and>
    map_buffer s1 = map_buffer s @ map_payload (cs_mapStreamId s) f \<and> keeps s (s1\<lparr>cs_mapFrameDecoder := cs_mapFrameDecoder s\<rparr>)"
proof (cases "h2_type f = 0 \<and> (cs_mapStreamId s = 0 \<or> h2_streamId f = cs_mapStreamId s)")
  case True
  let ?d = "(cs_mapFrameDecoder s)\<lparr>mfd_buffer := map_buffer s @ h2_payload f\<rparr>"
  have "length (map_buffer s) + length (h2_payload f) \<le> kMaxMapFrameSize + 4"
    using arg_cong [OF assms(3), of length] True assms(2) by (simp add: map_frame_length map_payload_def)
  moreover have "MapFrameDecoder_take ?d = (None, ?d)"
    using MapFrameDecoder_take_partial [OF assms(2), of ?d q] assms(3,4) True by (simp add: map_payload_def)
  ultimately have "poll_data f s = Continue (s\<lparr>cs_mapFrameDecoder := ?d, cs_error := take_error ?d (cs_error s)\<rparr>)"
    using True by (auto simp: poll_data_def MapFrameDecoder_append_fits)
  with True assms(1) show ?thesis by (simp add: poll_frame_def map_payload_def pending_def keeps_def)
next
  case False
  then have "poll_frame c f s = Some (Continue s) \<or> (\<exists>a. poll_frame c f s = map_option Continue (acknowledge c a f s))"
    by (auto simp: poll_frame_def poll_data_def)
  moreover have "map_payload (cs_mapStreamId s) f = []" using False by (auto simp: map_payload_def)
  ultimately show ?thesis
    using assms(1) acknowledge_pending [OF assms(1), of _ f] by (fastforce simp: keeps_def)
qed

lemma poll_frame_complete:
  assumes "pending c s rest" "length body \<le> kMaxMapFrameSize" "h2_type f = 0" "cs_mapStreamId s = 0 \<or> h2_streamId f = cs_mapStreamId s"
    and "map_buffer s @ h2_payload f = map_frame_bytes body @ extra" "length (map_buffer s @ h2_payload f) \<le> kMaxMapFrameSize + 4"
  shows "\<exists>s1. poll_frame c f s = Some (Finished (Some body) s1) \<and> pending c s1 rest \<and> map_buffer s1 = extra \<and>
    keeps s (s1\<lparr>cs_mapFrameDecoder := cs_mapFrameDecoder s\<rparr>)"
proof -
  let ?d = "(cs_mapFrameDecoder s)\<lparr>mfd_buffer := map_buffer s @ h2_payload f\<rparr>"
  have "MapFrameDecoder_take ?d = (Some body, ?d\<lparr>mfd_buffer := extra\<rparr>)"
    by (rule MapFrameDecoder_take_complete [OF assms(2)]) (simp add: assms(5))
  then have "poll_data f s = Finished (Some body) (s\<lparr>cs_mapFrameDecoder := ?d\<lparr>mfd_buffer := extra\<rparr>\<rparr>)"
    using assms(4,6) by (auto simp: poll_data_def MapFrameDecoder_append_fits)
  with assms(1,3) show ?thesis by (simp add: poll_frame_def pending_def keeps_def)
qed

lemma poll_loop_delivers:
  assumes "noise_crypto_ok c" "\<forall>g \<in> set gs. fits_control g" "fits_control f" "length body \<le> kMaxMapFrameSize"
    and "pending c s (concat (map frame_bytes (gs @ [f])) @ rest)"
    and "h2_type f = 0" "cs_mapStreamId s = 0 \<or> h2_streamId f = cs_mapStreamId s"
    and "map_buffer s @ concat (map (map_payload (cs_mapStreamId s)) gs) @ q = map_frame_bytes body" "q \<noteq> []"
    and "h2_payload f = q @ extra" "length (map_frame_bytes body @ extra) \<le> kMaxMapFrameSize + 4"
  shows "\<exists>s1. poll_loop c s = Some (Some body, s1) \<and> pending c s1 rest \<and> map_buffer s1 = extra \<and>
    keeps s (s1\<lparr>cs_mapFrameDecoder := cs_mapFrameDecoder s\<rparr>)"
  using assms(2,5,7,8)
proof (induction gs arbitrary: s)
  case Nil
  from poll_loop_frame [OF assms(1,3), of s rest] Nil obtain s1 where s1: "pending c s1 rest" "keeps s s1"
    "poll_loop c s = (case poll_frame c f s1 of None \<Rightarrow> None | Some (Finished r s2) \<Rightarrow> Some (r, s2) | Some (Continue s2) \<Rightarrow> poll_loop c s2)"
    by auto
  have "map_buffer s1 @ h2_payload f = map_frame_bytes body @ extra"
    using s1(2) Nil(4) assms(10) by (simp add: keeps_def flip: append_assoc)
  with s1 poll_frame_complete [OF s1(1) assms(4,6), of extra] Nil(3) assms(11) show ?case
    by (fastforce simp: keeps_def)
next
  case (Cons g gs)
  from poll_loop_frame [OF assms(1), of g s "concat (map frame_bytes (gs @ [f])) @ rest"] Cons.prems
  obtain s1 where s1: "pending c s1 (concat (map frame_bytes (gs @ [f])) @ rest)" "keeps s s1"
    "poll_loop c s = (case poll_frame c g s1 of None \<Rightarrow> None | Some (Finished r s2) \<Rightarrow> Some (r, s2) | Some (Continue s2) \<Rightarrow> poll_loop c s2)"
    by auto
  let ?q = "concat (map (map_payload (cs_mapStreamId s)) gs) @ q"
  from s1(2) have same: "cs_mapStreamId s1 = cs_mapStreamId s" "cs_mapFrameDecoder s1 = cs_mapFrameDecoder s" by (simp_all add: keeps_def)
  have "map_frame_bytes body = (map_buffer s1 @ map_payload (cs_mapStreamId s1) g) @ ?q"
    using Cons.prems(4) same by simp
  with poll_frame_partial [OF s1(1) assms(4)] assms(9) obtain s2 where s2: "poll_frame c g s1 = Some (Continue s2)"
    "pending c s2 (concat (map frame_bytes (gs @ [f])) @ rest)" "map_buffer s2 = map_buffer s1 @ map_payload (cs_mapStreamId s1) g"
    "keeps s1 (s2\<lparr>cs_mapFrameDecoder := cs_mapFrameDecoder s1\<rparr>)" by blast
  then have "cs_mapStreamId s2 = cs_mapStreamId s" using same by (simp add: keeps_def)
  with Cons.IH [of s2] Cons.prems s2 same obtain s3 where "poll_loop c s2 = Some (Some body, s3)" "pending c s3 rest" "map_buffer s3 = extra"
    "keeps s2 (s3\<lparr>cs_mapFrameDecoder := cs_mapFrameDecoder s2\<rparr>)" by auto
  with s1 s2 show ?case by (auto simp: keeps_def)
qed

text \<open>
  C5: A network map reaches the engine through all three layers: when the server has sent, in Noise records cut over the
  socket reads in any way, HTTP/2 frames whose map stream completes the message \<open>body\<close> in the frame \<open>f\<close> (other frames
  of any type and stream may come before, and the message may be spread over several), then \<open>poll\<close> returns, it
  decodes exactly \<open>body\<close> with the codec as it was, and everything the server sent after \<open>f\<close> is still to be
  received.  What \<open>f\<close> carries beyond the message stays in the map decoder.
\<close>

theorem poll_delivers:
  assumes "noise_crypto_ok (ce_crypto env)" "cs_ready s" "cs_recordReader s = None"
    and "pending (ce_crypto env) s (concat (map frame_bytes (gs @ [f])) @ rest)" "\<forall>g \<in> set (gs @ [f]). fits_control g"
    and "h2_type f = 0" "cs_mapStreamId s = 0 \<or> h2_streamId f = cs_mapStreamId s"
    and "map_buffer s @ concat (map (map_payload (cs_mapStreamId s)) gs) @ q = map_frame_bytes body" "q \<noteq> []" "h2_payload f = q @ extra"
    and "length body + length extra \<le> kMaxMapFrameSize"
  shows "\<exists>s1. ControlSession_poll env out s = poll_decode env body s1 \<and> cs_mapCodec s1 = cs_mapCodec s \<and>
    pending (ce_crypto env) s1 rest \<and> map_buffer s1 = extra \<and> cs_ready s1"
proof -
  have "length (map_frame_bytes body @ extra) \<le> kMaxMapFrameSize + 4" "length body \<le> kMaxMapFrameSize"
    using assms(11) by (simp_all add: map_frame_length)
  then obtain s1 where "poll_loop (ce_crypto env) s = Some (Some body, s1)" "pending (ce_crypto env) s1 rest" "map_buffer s1 = extra"
    "keeps s (s1\<lparr>cs_mapFrameDecoder := cs_mapFrameDecoder s\<rparr>)"
    using poll_loop_delivers [OF assms(1) _ _ _ assms(4,6,7,8,9,10)] assms(5) by auto
  moreover have "cs_transport s \<noteq> None" using assms(4) by (auto simp: pending_def)
  ultimately show ?thesis using assms(2,3) by (auto simp: ControlSession_poll_def keeps_def)
qed

definition settings_frame :: Http2Frame where
  "settings_frame = \<lparr>h2_length = 0, h2_type = 4, h2_flags = 0, h2_streamId = 0, h2_payload = []\<rparr>"

definition map_data_frame :: "u32 \<Rightarrow> bytes \<Rightarrow> Http2Frame" where
  "map_data_frame sid p = \<lparr>h2_length = word_of_nat (length p), h2_type = 0, h2_flags = 0, h2_streamId = sid, h2_payload = p\<rparr>"

definition example_env :: "json_tree ControlEnv" where
  "example_env = \<lparr>ce_crypto = noise_example, ce_json = tree_api (\<lambda>t. if t = ''{}'' then Some (JObject []) else None),
     ce_dump = (\<lambda>_. Some ''{}''), ce_charSigned = True, ce_candidateCapability = 0\<rparr>"

text \<open>A connected session whose server sends SETTINGS and then the message \<open>{}\<close> in one record, delivered in two reads.\<close>

definition example_plain :: bytes where
  "example_plain = frame_bytes settings_frame @ frame_bytes (map_data_frame 1 (map_frame_bytes ''{}''))"

definition example_wire :: bytes where
  "example_wire = noise_record noise_example (replicate 32 0) 0 example_plain"

definition example_control :: ControlSession where
  "example_control = (new_ControlSession ''control'' 443 (replicate 32 9) [] None)\<lparr>cs_ready := True, cs_mapStreamId := 1,
     cs_noise := Some example_session,
     cs_transport := Some \<lparr>incoming = [ReadBytes (take 20 example_wire), ReadBytes (drop 20 example_wire)], write_results = [],
       outgoing = [], closed = False\<rparr>\<rparr>"

lemma example_frames:
  "frame_bytes settings_frame = [0, 0, 0, 4, 0, 0, 0, 0, 0]"
  "frame_bytes (map_data_frame 1 (map_frame_bytes ''{}'')) = [0, 0, 6, 0, 0, 0, 0, 0, 1, 2, 0, 0, 0, 123, 125]"
  by (simp_all add: frame_bytes_def settings_frame_def map_data_frame_def header_def write32_def write24_def map_frame_bytes_def
      bytes_of_string_def byte_of_char_def)

lemma length_example_wire: "length example_wire = 43"
  using noise_record_header(3) [OF noise_example_ok, of example_plain "replicate 32 0" 0]
  by (simp add: example_wire_def example_plain_def example_frames kMaxPlaintextSize_def)

lemma example_pending: "pending noise_example example_control (concat (map frame_bytes [settings_frame, map_data_frame 1 (map_frame_bytes ''{}'')]))"
proof -
  have split: "take 20 example_wire @ drop 20 example_wire = example_wire" by simp
  have "records_pending noise_example example_session example_wire [example_plain]"
    by (simp add: records_pending_def example_session_def new_NoiseClient_def example_wire_def example_plain_def example_frames kMaxPlaintextSize_def)
  then show ?thesis
    using length_example_wire
    by (auto simp: pending_def example_control_def new_ControlSession_def data_script_def script_bytes_def split example_plain_def
        intro!: exI [of _ "[example_plain]"])
qed

theorem poll_delivers_witness:
  "\<exists>s1. ControlSession_poll example_env cleared example_control = poll_decode example_env ''{}'' s1 \<and>
    cs_mapCodec s1 = \<lparr>stableIdsByNodeId = []\<rparr> \<and> map_buffer s1 = []"
proof -
  let ?f = "map_data_frame 1 (map_frame_bytes ''{}'')"
  have fits: "\<forall>g \<in> set ([settings_frame] @ [?f]). fits_control g"
    by (simp add: fits_control_def well_formed_def settings_frame_def map_data_frame_def map_frame_length kMaxPlaintextSize_def kMaxFrameSize_def)
  have "\<exists>s1. ControlSession_poll example_env cleared example_control = poll_decode example_env ''{}'' s1 \<and>
      cs_mapCodec s1 = cs_mapCodec example_control \<and> pending (ce_crypto example_env) s1 [] \<and> map_buffer s1 = [] \<and> cs_ready s1"
    by (rule poll_delivers [where gs = "[settings_frame]" and f = ?f and q = "map_frame_bytes ''{}''", OF _ _ _ _ fits])
      (use example_pending in \<open>simp_all add: example_env_def noise_example_ok example_control_def new_ControlSession_def map_data_frame_def
        settings_frame_def map_payload_def kMaxMapFrameSize_def map_frame_bytes_def\<close>)
  then show ?thesis by (auto simp: example_control_def new_ControlSession_def)
qed

text \<open>
  \<open>poll\<close> looks into the map decoder only after a DATA frame: a message that is already complete in it, because it
  came in the same frame as the message before, is not delivered.  Here nothing more arrives, and \<open>poll\<close> reports a closed
  connection.
\<close>

lemma buffered_message_waits:
  assumes "cs_ready s" "cs_recordReader s = None" "map_buffer s = map_frame_bytes body" "length body \<le> kMaxMapFrameSize"
    and "cs_transport s = Some tr" "incoming tr = []" "cs_plaintextQueue s = []" "h2_buffer (cs_http2Decoder s) = []"
  shows "MapFrameDecoder_take (cs_mapFrameDecoder s) = (Some body, (cs_mapFrameDecoder s)\<lparr>mfd_buffer := []\<rparr>)"
    and "\<exists>s1. ControlSession_poll env out s = Some (False, cleared, s1) \<and> cs_error s1 = ''control connection closed''"
proof -
  show "MapFrameDecoder_take (cs_mapFrameDecoder s) = (Some body, (cs_mapFrameDecoder s)\<lparr>mfd_buffer := []\<rparr>)"
    using MapFrameDecoder_take_complete [OF assms(4), of "cs_mapFrameDecoder s" "[]"] assms(3) by simp
  have "Http2FrameDecoder_take (cs_http2Decoder s) = Some (None, cs_http2Decoder s)"
    using assms(8) by (simp add: Http2FrameDecoder_take_def kHttp2HeaderLen_def)
  then have "intake c s = Some (IntakeFailed, s\<lparr>cs_transport := Some tr, cs_error := ''control connection closed''\<rparr>)" for c
    using assms(5-7) by (simp add: intake_def readNextNoiseRecord.simps transport_read_def)
  then have "poll_loop c s = Some (None, s\<lparr>cs_transport := Some tr, cs_error := ''control connection closed''\<rparr>)" for c
    by (subst poll_loop.simps) (simp add: poll_step_def)
  with assms(1,2,5) show "\<exists>s1. ControlSession_poll env out s = Some (False, cleared, s1) \<and> cs_error s1 = ''control connection closed''"
    by (simp add: ControlSession_poll_def)
qed

section \<open>Connecting\<close>

lemma noise_records_append:
  "noise_records c k n (ps @ qs) = noise_records c k n ps @ noise_records c k (n + word_of_nat (length ps)) qs"
  by (induction ps arbitrary: n) (simp_all add: add.assoc)

lemma send_ready:
  assumes "cs_noise s = Some n" "ns_ready n" "cs_transport s = Some tr" "write_results tr = []"
  shows "send c x s = Some (True, s\<lparr>
      cs_noise := Some (n\<lparr>ns_txNonce := ns_txNonce n + word_of_nat (length (plain_pieces x))\<rparr>),
      cs_transport := Some (tr\<lparr>outgoing := outgoing tr @ [noise_records c (ns_txKey n) (ns_txNonce n) (plain_pieces x)]\<rparr>)\<rparr>)"
  using assms by (simp add: send_def noise_frame_records transport_write_def)

text \<open>A response header the client reads to its end: no empty line before the last one.\<close>

definition upgrade_header :: "string \<Rightarrow> bool" where
  "upgrade_header hdr =
     (validateTs2021UpgradeResponse hdr = Inr () \<and> length hdr \<le> kMaxResponseHeader \<and>
      (\<forall>k < length hdr. \<not> ends_with (crlf @ crlf) (take k hdr)))"

lemma upgrade_header_read:
  assumes "upgrade_header hdr" "data_script tr" "script_bytes tr = bytes_of_string hdr @ beyond"
  shows "\<exists>tr1. readHttpHeader [] tr = (Inr hdr, tr1) \<and> script_bytes tr1 = beyond \<and> data_script tr1 \<and>
    write_results tr1 = write_results tr \<and> outgoing tr1 = outgoing tr"
proof -
  have e: "ends_with (crlf @ crlf) hdr" "hdr \<noteq> []"
    using assms(1) by (auto simp: upgrade_header_def validateTs2021UpgradeResponse_def ends_with_def split: if_splits)
  have "\<not> ends_with (crlf @ crlf) ([] @ p)" if "hdr = p @ q" "q \<noteq> []" for p q
  proof -
    from that have "length p < length hdr" "take (length p) hdr = p" by auto
    with assms(1) show ?thesis by (auto simp: upgrade_header_def)
  qed
  with readHttpHeader_reads [OF assms(2,3) e(2), of "[]"] assms(1) e(1) show ?thesis by (simp add: upgrade_header_def)
qed

lemma connect_handshake_completes:
  assumes opened: "noise_begin c (new_NoiseClient machineKey (cs_controlPublic s) ephemeral 1) = (Inr initiation, n1)"
    and "length initiation = kInitiationSize" and finished: "noise_complete c response n1 = (Inr (), n2)" and "length response = kResponseSize"
    and host: "cs_host s \<noteq> []" "\<forall>x \<in> set (cs_host s). x \<noteq> CHR 0x0D \<and> x \<noteq> CHR 0x0A"
    and "upgrade_header hdr" "data_script tr" "write_results tr = []" "outgoing tr = []"
    and "script_bytes tr = bytes_of_string hdr @ response @ beyond"
  shows "\<exists>tr1. connect_handshake c machineKey ephemeral tr s = (True, s\<lparr>cs_noise := Some n2, cs_transport := Some tr1\<rparr>) \<and>
    script_bytes tr1 = beyond \<and> data_script tr1 \<and> write_results tr1 = [] \<and>
    outgoing tr1 = [bytes_of_string (buildTs2021UpgradeRequest (cs_host s) initiation)]"
proof -
  let ?request = "buildTs2021UpgradeRequest (cs_host s) initiation"
  let ?tr = "tr\<lparr>outgoing := outgoing tr @ [bytes_of_string ?request]\<rparr>"
  have request: "?request \<noteq> []" using host assms(2) by (auto simp: buildTs2021UpgradeRequest_def kInitiationSize_def)
  have "data_script ?tr" "script_bytes ?tr = bytes_of_string hdr @ response @ beyond"
    using assms(8,11) by (simp_all add: data_script_def script_bytes_def)
  from upgrade_header_read [OF assms(7) this] obtain tr1 where
    tr1: "readHttpHeader [] ?tr = (Inr hdr, tr1)" "script_bytes tr1 = response @ beyond" "data_script tr1" "write_results tr1 = []" "outgoing tr1 = [bytes_of_string ?request]"
    using assms(9,10) by auto
  from readExact_reads [OF tr1(3,2), of "[]"] assms(4) obtain tr2 where
    "readExact kResponseSize [] tr1 = (Inr response, tr2)" "script_bytes tr2 = beyond" "data_script tr2" "write_results tr2 = []" "outgoing tr2 = [bytes_of_string ?request]"
    using tr1(4,5) by auto
  with opened finished request tr1(1) assms(7,9) show ?thesis
    by (intro exI [of _ tr2]) (simp add: connect_handshake_def Let_def transport_write_def upgrade_header_def)
qed

definition map_request :: "'j ControlEnv \<Rightarrow> Identity \<Rightarrow> ControlSession \<Rightarrow> MapRequestData" where
  "map_request env identity s =
     \<lparr>req_nodePublic = nc_public (ce_crypto env) (nodePrivate identity), req_discoPublic = nc_public (ce_crypto env) (discoPrivate identity),
      req_endpoints = cs_localEndpoints s, req_stream = True, req_omitPeers = False, req_hostname = hostname_or_default s,
      req_preferredDerp = cs_initialPreferredDerp s,
      req_capabilityVersion = (if ce_candidateCapability env > 0 then ce_candidateCapability env else 68)\<rparr>"

text \<open>What a client without a login key sends after the handshake.\<close>

definition first_messages :: "string \<Rightarrow> string \<Rightarrow> bytes list" where
  "first_messages host json = [buildHttp2ClientPreface, buildHttp2PostHeaders 1 host ''/machine/map'', buildHttp2DataFrame 1 (bytes_of_string json) True]"

lemma hostname_update [simp]:
  "hostname_or_default (s\<lparr>cs_noise := a\<rparr>) = hostname_or_default s"
  "hostname_or_default (s\<lparr>cs_transport := b\<rparr>) = hostname_or_default s"
  "hostname_or_default (s\<lparr>cs_nodePublic := k\<rparr>) = hostname_or_default s"
  "hostname_or_default (s\<lparr>cs_discoPublic := k\<rparr>) = hostname_or_default s"
  "hostname_or_default (s\<lparr>cs_capabilityVersion := v\<rparr>) = hostname_or_default s"
  by (simp_all add: hostname_or_default_def)

lemma connect_requests_completes:
  assumes "cs_noise s = Some n" "ns_ready n" "ns_txNonce n = 0" "cs_transport s = Some tr" "write_results tr = []"
    and "ce_dump env (map_json (map_request env identity s)) = Some json" "json \<noteq> []"
  shows "\<exists>s1 k tr1 out. connect_requests env identity [] s = Some (True, s1) \<and> cs_ready s1 \<and> cs_mapStreamId s1 = 1 \<and> cs_nextStreamId s1 = 3 \<and>
    cs_noise s1 = Some (n\<lparr>ns_txNonce := k\<rparr>) \<and> cs_transport s1 = Some tr1 \<and> incoming tr1 = incoming tr \<and> write_results tr1 = [] \<and>
    outgoing tr1 = outgoing tr @ out \<and>
    concat out = noise_records (ce_crypto env) (ns_txKey n) 0 (concat (map plain_pieces (first_messages (cs_host s) json))) \<and>
    cs_plaintextQueue s1 = cs_plaintextQueue s \<and> cs_http2Decoder s1 = cs_http2Decoder s \<and> cs_mapFrameDecoder s1 = cs_mapFrameDecoder s"
proof -
  define v where "v = (if ce_candidateCapability env > 0 then ce_candidateCapability env else 68)"
  then have v: "0 < v" by simp
  from assms show ?thesis
    unfolding connect_requests_def connect_map_def connect_register_def map_request_def Let_def v_def [symmetric]
    using v by (auto simp: send_ready post_def encodeMapRequest_def first_messages_def noise_records_append add.assoc)
qed


definition example_header :: string where
  "example_header = ''HTTP/1.1 101 '' @ ''ok'' @ crlf @
     concat (map (\<lambda>l. l @ crlf) [''upgrade: Tailscale-Control-Protocol'', ''Connection: keep-alive, Upgrade'']) @ crlf"

lemma example_header_ok: "upgrade_header example_header"
proof -
  have "\<forall>k \<in> set [0..<length example_header]. \<not> ends_with (crlf @ crlf) (take k example_header)" by code_simp
  moreover have "length example_header \<le> kMaxResponseHeader" by code_simp
  ultimately show ?thesis
    using validateTs2021UpgradeResponse_iff_witness by (auto simp: upgrade_header_def example_header_def)
qed

definition example_machine :: Identity where
  "example_machine = \<lparr>machinePrivate = replicate 32 4, nodePrivate = replicate 32 5, discoPrivate = replicate 32 6\<rparr>"


section \<open>All or nothing\<close>

definition live :: "ControlSession \<Rightarrow> bool" where
  "live s = (cs_transport s \<noteq> None \<and> (\<exists>n. cs_noise s = Some n \<and> ns_ready n \<and> ns_begun n))"

lemma alike_live: "receives_alike s s1 \<Longrightarrow> live s \<Longrightarrow> live s1"
  by (auto simp: receives_alike_def live_def same_receiver_def same_script_def split: option.splits)

lemma noise_consume_ready:
  assumes "noise_consume c bs n = (Inr (), out, n1)" "ns_ready n" "ns_begun n"
  shows "ns_ready n1 \<and> ns_begun n1"
proof -
  let ?n = "n\<lparr>ns_receiveBuffer := ns_receiveBuffer n @ bs\<rparr>"
  obtain r o' n2 where l: "consume_loop c (ns_receiveBuffer n @ bs) [] ?n = (r, o', n2)" by (cases "consume_loop c (ns_receiveBuffer n @ bs) [] ?n")
  from consume_loop_flags [OF l] l assms show ?thesis
    by (cases r) (auto simp: noise_consume_def noise_fail_def Let_def split: if_splits)
qed

lemma readNextNoiseRecord_live:
  "readNextNoiseRecord c s = Some (Some r, s1) \<Longrightarrow> live s \<Longrightarrow> live s1 \<and> cs_ready s1 = cs_ready s \<and> cs_recordReader s1 = cs_recordReader s"
proof (induction c s rule: readNextNoiseRecord.induct)
  case (1 c s)
  from "1.prems" show ?case
    by (subst (asm) readNextNoiseRecord.simps)
      (auto simp: live_def dest!: "1.IH" dest: noise_consume_ready split: list.splits option.splits read_result.splits sum.splits prod.splits)
qed

lemma intake_live:
  assumes "intake c s = Some (i, s1)" "live s"
  shows "cs_ready s1 = cs_ready s \<and> (i \<noteq> IntakeFailed \<longrightarrow> live s1)"
  using assms(1)
proof (cases rule: intake_cases)
  case (frame frame d s0 ok)
  then have "receives_alike (s\<lparr>cs_http2Decoder := d\<rparr>) s1" using receives_alike_trans traceFrame_alike creditData_alike by blast
  with assms(2) show ?thesis using alike_live [of "s\<lparr>cs_http2Decoder := d\<rparr>" s1] by (simp add: live_def receives_alike_def)
next
  case (refill d chunk s0)
  with readNextNoiseRecord_live [OF refill(2)] assms(2) show ?thesis by (auto simp: live_def split: option.splits)
next
  case (failed d)
  have "readNextNoiseRecord c s = Some (r, s1) \<Longrightarrow> cs_ready s1 = cs_ready s" for s r
  proof (induction c s rule: readNextNoiseRecord.induct)
    case (1 c s)
    from "1.prems" show ?case
      by (subst (asm) readNextNoiseRecord.simps)
        (auto dest!: "1.IH" split: list.splits option.splits read_result.splits sum.splits prod.splits)
  qed
  from this [OF failed(2)] failed(3) show ?thesis by simp
qed

lemma register_loop_live:
  "register_loop env sid s = Some (ok, s1) \<Longrightarrow> live s \<Longrightarrow>
     cs_ready s1 = cs_ready s \<and> (if ok then live s1 else cs_transport s1 = None)"
proof (induction env sid s rule: register_loop.induct)
  case (1 env sid s)
  then obtain p where p: "register_step env sid s = Some p" by (subst (asm) register_loop.simps) (auto split: option.splits)
  then obtain i s0 where i: "intake (ce_crypto env) s = Some (i, s0)" by (cases "intake (ce_crypto env) s") (auto simp: register_step_def)
  note live0 = intake_live [OF i "1.prems"(2)]
  show ?case
  proof (cases p)
    case (Continue s2)
    with p i have "i \<noteq> IntakeFailed" "receives_alike s0 s2"
      by (auto simp: register_step_def register_frame_def dest!: acknowledge_alike split: Intake.splits if_splits)
    with live0 have "live s2" "cs_ready s2 = cs_ready s" by (auto simp: alike_live receives_alike_def)
    with "1.IH" [OF p Continue] "1.prems"(1) p Continue show ?thesis by (subst (asm) register_loop.simps) simp
  next
    case (Finished ok' s2)
    with p i have "ok' \<and> i \<noteq> IntakeFailed \<and> s2 = s0 \<or> \<not> ok' \<and> s2 = resetTransport s0"
      by (auto simp: register_step_def register_frame_def abandon_def split: Intake.splits if_splits)
    with live0 p Finished "1.prems"(1) show ?thesis
      by (subst (asm) register_loop.simps) (auto simp: resetTransport_def)
  qed
qed

lemma post_live: "post c sid path body s = Some (ok, s1) \<Longrightarrow> receives_alike s s1"
  by (auto simp: post_def bind_eq_Some_conv split: if_splits dest!: send_alike intro: receives_alike_trans)

lemma mixDh_begun: "mixDh c a b n = (r, n1) \<Longrightarrow> ns_begun n1 = ns_begun n"
  by (auto simp: mixDh_def noise_fail_def Let_def split: if_splits prod.splits)

lemma noise_complete_ready: "noise_complete c response n = (Inr u, n1) \<Longrightarrow> ns_ready n1 \<and> ns_begun n1"
  by (auto simp: noise_complete_def noise_fail_def mixHash_def noise_split_def Let_def dest!: mixDh_begun
      split: if_splits prod.splits sum.splits option.splits)

lemma connect_handshake_live:
  assumes "connect_handshake c machineKey ephemeral tr s = (ok, s1)" "cs_transport s = None"
  shows "cs_ready s1 = cs_ready s \<and> cs_recordReader s1 = cs_recordReader s \<and> (if ok then live s1 else cs_transport s1 = None)"
  using assms
  by (auto simp: connect_handshake_def abandon_def resetTransport_def Let_def live_def dest: noise_complete_ready
      split: prod.splits sum.splits if_splits bool.splits)

lemma connect_register_live:
  assumes "connect_register env authKey v s = Some (ok, sid, s1)" "live s"
  shows "cs_ready s1 = cs_ready s \<and> (if ok then live s1 else cs_transport s1 = None)"
proof (cases "authKey = []")
  case False
  with assms obtain json where json: "encodeRegisterRequest (ce_dump env) \<lparr>reg_nodePublic = cs_nodePublic s,
      reg_authKey = string_of_bytes authKey, reg_hostname = hostname_or_default s, reg_capabilityVersion = v\<rparr> = Some json"
    by (auto simp: connect_register_def bind_eq_Some_conv)
  show ?thesis
  proof (cases "json = []")
    case nonempty: False
    with False assms(1) json obtain ok1 s2 where posted: "post (ce_crypto env) 1 ''/machine/register'' json (s\<lparr>cs_registerStreamId := 1\<rparr>) = Some (ok1, s2)"
      by (cases "post (ce_crypto env) 1 ''/machine/register'' json (s\<lparr>cs_registerStreamId := 1\<rparr>)") (auto simp: connect_register_def)
    from post_live [OF posted] assms(2) have "live s2" "cs_ready s2 = cs_ready s"
      using alike_live [OF post_live [OF posted]] by (auto simp: live_def receives_alike_def)
    with False nonempty assms(1) json posted show ?thesis
      by (auto simp: connect_register_def abandon_def resetTransport_def bind_eq_Some_conv dest!: register_loop_live split: if_splits)
  qed (use False assms json in \<open>auto simp: connect_register_def\<close>)
qed (use assms in \<open>auto simp: connect_register_def\<close>)

lemma connect_map_live:
  assumes "connect_map env sid v s = Some (ok, s1)" "live s" "\<not> cs_ready s"
  shows "cs_ready s1 = ok \<and> (if ok then live s1 else cs_transport s1 = None)"
proof -
  from assms(1) obtain json where json: "encodeMapRequest (ce_dump env) \<lparr>req_nodePublic = cs_nodePublic s, req_discoPublic = cs_discoPublic s,
      req_endpoints = cs_localEndpoints s, req_stream = True, req_omitPeers = False, req_hostname = hostname_or_default s,
      req_preferredDerp = cs_initialPreferredDerp s, req_capabilityVersion = v\<rparr> = Some json"
    by (auto simp: connect_map_def bind_eq_Some_conv)
  show ?thesis
  proof (cases "json = []")
    case True
    with assms json show ?thesis by (auto simp: connect_map_def live_def)
  next
    case False
    let ?s = "s\<lparr>cs_mapStreamId := sid\<rparr>"
    from False assms(1) json obtain ok2 s2 where posted: "post (ce_crypto env) sid ''/machine/map'' json ?s = Some (ok2, s2)"
      by (cases "post (ce_crypto env) sid ''/machine/map'' json ?s") (auto simp: connect_map_def)
    from alike_live [OF post_live [OF posted]] post_live [OF posted] assms(2,3) have "live s2" "\<not> cs_ready s2"
      by (auto simp: live_def receives_alike_def)
    with False assms(1) json posted show ?thesis
      by (auto simp: connect_map_def abandon_def resetTransport_def live_def split: if_splits)
  qed
qed

text \<open>
  C12: \<open>connect\<close> is all or nothing: it returns true exactly when the session is ready afterwards.  Then, outside of the test seam,
  there are a transport and a Noise client whose handshake is complete.  When it returns false, whatever step failed, the transport is
  closed and dropped: neither \<open>poll\<close> nor \<open>sendHostinfoUpdate\<close> sends or reads anything before the next
  \<open>connect\<close>.
\<close>

theorem connect_all_or_nothing:
  assumes "ControlSession_connect env ephemeral factory identity authKey s = Some (ok, s1)"
  shows "cs_ready s1 = ok \<and> (ok \<and> cs_recordReader s = None \<longrightarrow> live s1) \<and>
    (\<not> ok \<longrightarrow> cs_transport s1 = None \<and>
      ControlSession_poll env out s1 = Some (False, out, s1\<lparr>cs_error := ''Tailscale control session is not connected''\<rparr>) \<and>
      (cs_recordReader s1 = None \<longrightarrow> sendHostinfoUpdate env region s1 = Some (False, s1\<lparr>cs_error := ''control session is not connected''\<rparr>)))"
proof -
  have reset: "cs_transport (connect_reset s) = None" "\<not> cs_ready (connect_reset s)" "cs_recordReader (connect_reset s) = cs_recordReader s"
    by (simp_all add: connect_reset_def resetTransport_def)
  have requests: "cs_ready s1 = ok \<and> (if ok then live s1 else cs_transport s1 = None)"
    if "connect_requests env identity authKey s0 = Some (ok, s1)" "live s0" "\<not> cs_ready s0" for s0
  proof -
    let ?v = "if ce_candidateCapability env > 0 then ce_candidateCapability env else 68"
    let ?s0 = "s0\<lparr>cs_nodePublic := nc_public (ce_crypto env) (nodePrivate identity),
      cs_discoPublic := nc_public (ce_crypto env) (discoPrivate identity), cs_capabilityVersion := ?v\<rparr>"
    from that(1) obtain ok1 s2 where sent: "send (ce_crypto env) buildHttp2ClientPreface ?s0 = Some (ok1, s2)"
      by (cases "send (ce_crypto env) buildHttp2ClientPreface ?s0") (auto simp: connect_requests_def Let_def)
    have live2: "live s2" "\<not> cs_ready s2"
      using alike_live [OF send_alike [OF sent]] send_alike [OF sent] that(2,3) by (auto simp: live_def receives_alike_def)
    show ?thesis
    proof (cases ok1)
      case False
      with that(1) sent live2 show ?thesis by (auto simp: connect_requests_def Let_def abandon_def resetTransport_def)
    next
      case True
      with that(1) sent obtain ok2 sid s3 where reg: "connect_register env authKey ?v s2 = Some (ok2, sid, s3)"
        by (cases "connect_register env authKey ?v s2") (auto simp: connect_requests_def Let_def)
      from connect_register_live [OF reg live2(1)] live2(2) that(1) sent reg True show ?thesis
        by (cases ok2) (auto simp: connect_requests_def Let_def dest: connect_map_live)
    qed
  qed
  have "cs_ready s1 = ok \<and> (ok \<and> cs_recordReader s = None \<longrightarrow> live s1) \<and> (\<not> ok \<longrightarrow> cs_transport s1 = None)"
  proof (cases "\<exists>tr. factory = Some (Some tr, None) \<and> cs_recordReader s = None \<and> \<not> unconfigured (connect_reset s)")
    case True
    then obtain tr where tr: "factory = Some (Some tr, None)" "cs_recordReader s = None" "\<not> unconfigured (connect_reset s)" by blast
    obtain ok0 s0 where h: "connect_handshake (ce_crypto env) (machinePrivate identity) ephemeral tr (connect_reset s) = (ok0, s0)" by fastforce
    from connect_handshake_live [OF h reset(1)] requests [of s0] assms tr h reset show ?thesis
      by (cases ok0) (auto simp: ControlSession_connect_def Let_def)
  next
    case False
    with assms reset show ?thesis
      by (auto simp: ControlSession_connect_def Let_def refuse_def split: if_splits option.splits prod.splits)
  qed
  then show ?thesis by (auto simp: ControlSession_poll_def sendHostinfoUpdate_def refuse_def)
qed

theorem connect_all_or_nothing_witness:
  "\<exists>s1. ControlSession_connect example_env [] (Some (None, None)) example_machine [] (new_ControlSession ''control'' 443 (replicate 32 1) [] None) =
     Some (False, s1) \<and> cs_error s1 = ''cannot reach Tailscale control'' \<and> \<not> cs_ready s1 \<and> cs_transport s1 = None"
proof -
  let ?s = "new_ControlSession ''control'' 443 (replicate 32 1) [] None"
  have run: "ControlSession_connect example_env [] (Some (None, None)) example_machine [] ?s =
      Some (False, (connect_reset ?s)\<lparr>cs_error := ''cannot reach Tailscale control''\<rparr>)"
    by (simp add: ControlSession_connect_def refuse_def connect_reset_def resetTransport_def new_ControlSession_def unconfigured_def list_all_iff Let_def)
  from connect_all_or_nothing [OF run] run show ?thesis by auto
qed

text \<open>
  The registration does not depend on its answer: the first DATA frame on its stream ends it with success, whatever HTTP status came
  before and whatever the body says, for example that the login key was refused.
\<close>

lemma registration_ignores_answer:
  assumes "h2_type frame = 0" "h2_streamId frame = sid" "register_frame env sid frame s = Some p"
  shows "p = Finished True s"
  using assms by (auto simp: register_frame_def)

lemma refused_registration_succeeds:
  "register_frame (example_env\<lparr>ce_json := tree_api (\<lambda>_. Some (JObject [(''Error'', JString ''invalid key'')]))\<rparr>) 1 (map_data_frame 1 []) s
     = Some (Finished True s)"
  by (simp add: register_frame_def map_data_frame_def logRegisterResponse_def tree_api_def tree_value_def)

end
