(* ===== verification/GameStreamData.thy ===== *)
theory GameStreamData
  imports Prelude
begin

unbundle bit_operations_syntax

text \<open>
  Model of \<open>app/src/crypto/Data.cpp\<close> (byte buffers, their hexadecimal text, and the random bytes of the pairing) and of
  the functions of \<open>app/src/crypto/MbedTLSCryptoManager.cpp\<close> that the pairing calls.

  A \<open>Data\<close> is its bytes.  Operations that can end the process or leave their buffers are in the option monad, where \<open>None\<close> stands
  for that and nothing else.  The AES block function, the hashes, the signature of a certificate and the private key operation
  are the library's and belong to the parameter \<open>PairCrypto\<close>; \<open>rand\<close> after \<open>srand(t)\<close> is a function of \<open>t\<close> and the number of calls.
\<close>

section \<open>Buffers\<close>

text \<open>\<open>subdata\<close> calls \<open>exit(-1)\<close> when the range is not inside the buffer.\<close>

definition subdata :: "nat \<Rightarrow> nat \<Rightarrow> bytes \<Rightarrow> bytes option" where
  "subdata start sz d = (if start + sz > length d then None else Some (take sz (drop start d)))"

definition data_append :: "bytes \<Rightarrow> bytes \<Rightarrow> bytes" where
  "data_append d other = (if d = [] then other else d @ other)"

definition random_bytes :: "(nat \<Rightarrow> nat \<Rightarrow> nat) \<Rightarrow> nat \<Rightarrow> nat \<Rightarrow> bytes" where
  "random_bytes rand time sz = map (\<lambda>i. word_of_nat (rand time i mod 255)) [0..<sz]"

section \<open>Hexadecimal text\<close>

text \<open>\<open>%02X\<close>\<close>

definition upper_hex :: "nat \<Rightarrow> u8" where
  "upper_hex n = (if n < 10 then word_of_nat (48 + n) else word_of_nat (55 + n))"

definition hex :: "bytes \<Rightarrow> bytes" where
  "hex d = (if d = [] then [10] else concat (map (\<lambda>b. [upper_hex (unat b div 16), upper_hex (unat b mod 16)]) d))"

text \<open>
  \<open>strtoul\<close> of the two characters in base 16: blanks, a sign, then the digits.  (The prefix \<open>0x\<close> needs a third character.)
\<close>

definition hex_value_of :: "u8 \<Rightarrow> u8 option" where
  "hex_value_of b =
     (let n = unat b in
      if 48 \<le> n \<and> n \<le> 57 then Some (word_of_nat (n - 48))
      else if 65 \<le> n \<and> n \<le> 70 then Some (word_of_nat (n - 55))
      else if 97 \<le> n \<and> n \<le> 102 then Some (word_of_nat (n - 87))
      else None)"

definition is_blank_byte :: "u8 \<Rightarrow> bool" where
  "is_blank_byte b = (b = 32 \<or> 9 \<le> b \<and> b \<le> 13)"

definition strtoul2 :: "u8 \<Rightarrow> u8 \<Rightarrow> u8" where
  "strtoul2 a b =
     (case hex_value_of a of
        Some x \<Rightarrow> (case hex_value_of b of Some y \<Rightarrow> x * 16 + y | None \<Rightarrow> x)
      | None \<Rightarrow>
          if is_blank_byte a \<or> a = 43 then (case hex_value_of b of Some y \<Rightarrow> y | None \<Rightarrow> 0)
          else if a = 45 then (case hex_value_of b of Some y \<Rightarrow> - y | None \<Rightarrow> 0)
          else 0)"

text \<open>
  A last character without a partner is read together with the terminating zero, and what it gives is written over the terminator of
  the result, which is not part of its contents.
\<close>

fun hex_to_bytes :: "bytes \<Rightarrow> bytes" where
  "hex_to_bytes (a # b # rest) = strtoul2 a b # hex_to_bytes rest"
| "hex_to_bytes _ = []"

section \<open>Cryptography of the console build\<close>

record PairCrypto =
  pc_sha1 :: "bytes \<Rightarrow> bytes"
  pc_sha256 :: "bytes \<Rightarrow> bytes"
  pc_aes_enc :: "bytes \<Rightarrow> bytes \<Rightarrow> bytes"
  pc_aes_dec :: "bytes \<Rightarrow> bytes \<Rightarrow> bytes"
  pc_signature :: "bytes \<Rightarrow> bytes"
  pc_pk_sign :: "bytes \<Rightarrow> bytes \<Rightarrow> bytes"
  pc_cert :: bytes
  pc_key :: bytes

definition create_AES_key_from_salt_SHA1 :: "PairCrypto \<Rightarrow> bytes \<Rightarrow> bytes option" where
  "create_AES_key_from_salt_SHA1 c salted = subdata 0 16 (pc_sha1 c salted)"

definition create_AES_key_from_salt_SHA256 :: "PairCrypto \<Rightarrow> bytes \<Rightarrow> bytes option" where
  "create_AES_key_from_salt_SHA256 c salted = subdata 0 16 (pc_sha256 c salted)"

text \<open>The loops over blocks of 16 bytes.\<close>

function blocks :: "(bytes \<Rightarrow> bytes) \<Rightarrow> bytes \<Rightarrow> bytes" where
  "blocks f d = (if d = [] then [] else f (take 16 d) @ blocks f (drop 16 d))"
  by pat_completeness auto
termination
  by (relation "measure (\<lambda>(f, d). length d)") auto

declare blocks.simps [simp del]

definition get_encrypt_size :: "bytes \<Rightarrow> nat" where
  "get_encrypt_size d = (length d + 15) div 16 * 16"

definition aes_encrypt :: "PairCrypto \<Rightarrow> bytes \<Rightarrow> bytes \<Rightarrow> bytes" where
  "aes_encrypt c d key = blocks (pc_aes_enc c key) (d @ replicate (get_encrypt_size d - length d) 0)"

text \<open>The last block of a buffer whose size is not a multiple of 16 is read and written beyond its end.\<close>

definition aes_decrypt :: "PairCrypto \<Rightarrow> bytes \<Rightarrow> bytes \<Rightarrow> bytes option" where
  "aes_decrypt c d key = (if length d mod 16 = 0 then Some (blocks (pc_aes_dec c key) d) else None)"

definition verify_signature :: "bytes \<Rightarrow> bytes \<Rightarrow> bytes \<Rightarrow> bool" where
  "verify_signature d sig cert = True"

text \<open>The signature with the private key; without one (size 0) the data itself is returned.\<close>

definition sign_data :: "PairCrypto \<Rightarrow> bytes \<Rightarrow> bytes \<Rightarrow> bytes" where
  "sign_data c d key = (if pc_pk_sign c d key \<noteq> [] then pc_pk_sign c d key else d)"

section \<open>Round trips\<close>

lemma hex_value_upper: "n < 16 \<Longrightarrow> hex_value_of (upper_hex n) = Some (word_of_nat n)"
proof -
  assume "n < 16"
  have u: "unat (word_of_nat k :: u8) = k" if "k < 256" for k using that by (simp add: unat_of_nat)
  show ?thesis
  proof (cases "n < 10")
    case True
    then show ?thesis using u [of "48 + n"] by (simp add: hex_value_of_def upper_hex_def Let_def del: of_nat_add)
  next
    case False
    with \<open>n < 16\<close> show ?thesis using u [of "55 + n"] by (simp add: hex_value_of_def upper_hex_def Let_def del: of_nat_add)
  qed
qed

lemma strtoul2_upper:
  assumes "x < 16" "y < 16"
  shows "strtoul2 (upper_hex x) (upper_hex y) = word_of_nat (x * 16 + y)"
  using assms by (simp add: strtoul2_def hex_value_upper)

lemma strtoul2_byte: "strtoul2 (upper_hex (unat b div 16)) (upper_hex (unat b mod 16)) = b"
proof -
  have "unat b < 256" using unsigned_less [of b, where 'a = nat] by simp
  then have "unat b div 16 < 16" by (simp add: less_mult_imp_div_less)
  from strtoul2_upper [OF this, of "unat b mod 16"] show ?thesis
    by (simp add: mult.commute flip: of_nat_mult of_nat_add)
qed

lemma hex_to_bytes_hex: "hex_to_bytes (hex d) = d"
proof (cases d)
  case (Cons b d')
  have "hex_to_bytes (concat (map (\<lambda>b. [upper_hex (unat b div 16), upper_hex (unat b mod 16)]) xs)) = xs" for xs :: bytes
    by (induction xs) (simp_all add: strtoul2_byte)
  from this [of "b # d'"] Cons show ?thesis by (simp add: hex_def)
qed (simp add: hex_def)

lemma length_blocks: "(\<And>b. length b = 16 \<Longrightarrow> length (f b) = 16) \<Longrightarrow> length d mod 16 = 0 \<Longrightarrow> length (blocks f d) = length d"
proof (induction "length d" arbitrary: d rule: less_induct)
  case less
  show ?case
  proof (cases "d = []")
    case False
    then have "16 \<le> length d" using less.prems(2) by (cases "length d < 16") auto
    then have "length (drop 16 d) < length d" "length (drop 16 d) mod 16 = 0" using less.prems(2) by (auto simp: le_mod_geq)
    with less False \<open>16 \<le> length d\<close> show ?thesis by (simp add: blocks.simps [of f d])
  qed (simp add: blocks.simps)
qed

text \<open>What the AES library promises.\<close>

definition aes_ok :: "PairCrypto \<Rightarrow> bool" where
  "aes_ok c = (\<forall>key b. length b = 16 \<longrightarrow> length (pc_aes_enc c key b) = 16 \<and> length (pc_aes_dec c key b) = 16 \<and>
     pc_aes_dec c key (pc_aes_enc c key b) = b)"

lemma blocks_inverse:
  assumes "\<And>b. length b = 16 \<Longrightarrow> length (f b) = 16 \<and> g (f b) = b" "length d mod 16 = 0"
  shows "blocks g (blocks f d) = d"
  using assms(2)
proof (induction "length d" arbitrary: d rule: less_induct)
  case less
  show ?case
  proof (cases "d = []")
    case False
    then have l: "16 \<le> length d" using less.prems by (cases "length d < 16") auto
    then have "length (drop 16 d) < length d" "length (drop 16 d) mod 16 = 0" using less.prems by (auto simp: le_mod_geq)
    then have ih: "blocks g (blocks f (drop 16 d)) = drop 16 d" by (rule less.hyps)
    have f: "length (f (take 16 d)) = 16" "g (f (take 16 d)) = take 16 d" using assms(1) l by auto
    have "blocks f d = f (take 16 d) @ blocks f (drop 16 d)" using False by (simp add: blocks.simps [of f d])
    moreover have "f (take 16 d) @ blocks f (drop 16 d) \<noteq> []" using f(1) by auto
    moreover from this have "blocks g (f (take 16 d) @ blocks f (drop 16 d)) = take 16 d @ drop 16 d"
      by (subst blocks.simps) (use f ih in auto)
    ultimately show ?thesis by simp
  qed (simp add: blocks.simps)
qed

lemma encrypt_size: "get_encrypt_size d mod 16 = 0" "length d \<le> get_encrypt_size d"
  unfolding get_encrypt_size_def by (simp, presburger)

text \<open>What was encrypted comes back padded with zeros to whole blocks.\<close>

lemma aes_decrypt_encrypt:
  assumes "aes_ok c"
  shows "aes_decrypt c (aes_encrypt c d key) key = Some (d @ replicate (get_encrypt_size d - length d) 0)"
proof -
  let ?d = "d @ replicate (get_encrypt_size d - length d) (0 :: u8)"
  have len: "length ?d mod 16 = 0" using encrypt_size [of d] by simp
  have "length (blocks (pc_aes_enc c key) ?d) = length ?d"
    by (rule length_blocks) (use assms len in \<open>simp_all add: aes_ok_def\<close>)
  moreover have "blocks (pc_aes_dec c key) (blocks (pc_aes_enc c key) ?d) = ?d"
    by (rule blocks_inverse) (use assms len in \<open>simp_all add: aes_ok_def\<close>)
  ultimately show ?thesis using len by (simp add: aes_decrypt_def aes_encrypt_def)
qed

text \<open>
  Random bytes depend on the second of the call only, and none of them is 255.
\<close>

lemma random_bytes_not_255: "255 \<notin> set (random_bytes rand time n)"
proof
  assume "255 \<in> set (random_bytes rand time n)"
  then obtain i where "(255 :: u8) = word_of_nat (rand time i mod 255)" by (auto simp: random_bytes_def)
  then have "unat (255 :: u8) = unat (word_of_nat (rand time i mod 255) :: u8)" by simp
  moreover have "rand time i mod 255 < 255" by simp
  ultimately show False by (simp add: unat_of_nat)
qed

end
