(* ===== verification/GameStreamXml.thy ===== *)
theory GameStreamXml
  imports GameStreamData TailscaleHttp
begin

text \<open>
  Model of \<open>app/src/libgamestream/xml.cpp\<close>: how the answers of a GameStream host are searched.

  The XML parser (expat) is a parameter: it turns a document into the calls of the handlers it makes before it stops, and an error text
  when it stops with an error.  The handlers are modelled call by call.  A buffer that has been allocated but never written is
  \<open>Uninit\<close>; reading it is undefined behaviour, which is \<open>None\<close>.  Memory is never exhausted.
\<close>

section \<open>Numbers of the C library\<close>

text \<open>\<open>strtol\<close> in base 10 before the conversion to the range of \<open>long\<close>: value and remaining text; without digits it is 0 and nothing is consumed.\<close>

definition strtol_digits :: "string \<Rightarrow> (int \<times> string) option" where
  "strtol_digits s =
     (let t = dropWhile isspace s;
          neg = (case t of [] \<Rightarrow> False | c # _ \<Rightarrow> c = CHR ''-'');
          body = (case t of [] \<Rightarrow> [] | c # r \<Rightarrow> if c = CHR ''-'' \<or> c = CHR ''+'' then r else t);
          ds = takeWhile isdigit body
      in if ds = [] then None
         else Some (if neg then - int (dec_value ds) else int (dec_value ds), dropWhile isdigit body))"

definition clamp_long :: "int \<Rightarrow> int" where
  "clamp_long v = max (- (2 ^ 63)) (min (2 ^ 63 - 1) v)"

definition strtol :: "string \<Rightarrow> int \<times> string" where
  "strtol s = (case strtol_digits s of None \<Rightarrow> (0, s) | Some (v, rest) \<Rightarrow> (clamp_long v, rest))"

text \<open>\<open>(int)\<close> of a \<open>long\<close> keeps the low 32 bits.\<close>

definition int_of_long :: "int \<Rightarrow> int" where
  "int_of_long v = (v + 2 ^ 31) mod 2 ^ 32 - 2 ^ 31"

definition atoi :: "string \<Rightarrow> int" where
  "atoi s = int_of_long (fst (strtol s))"

text \<open>\<open>std::stoi\<close> throws without digits and outside of \<open>int\<close>.\<close>

definition stoi :: "string \<Rightarrow> int option" where
  "stoi s =
     (case strtol_digits s of
        None \<Rightarrow> None
      | Some (v, _) \<Rightarrow> if - (2 ^ 31) \<le> v \<and> v < 2 ^ 31 then Some v else None)"

section \<open>Documents\<close>

datatype xml_event = StartElement string "(string \<times> string) list" | EndElement string | CharData string

type_synonym expat = "bytes \<Rightarrow> xml_event list \<times> string option"

text \<open>Result codes (\<open>errors.h\<close>).\<close>

definition GS_OK :: int where "GS_OK = 0"
definition GS_FAILED :: int where "GS_FAILED = -1"
definition GS_INVALID :: int where "GS_INVALID = -3"
definition GS_WRONG_STATE :: int where "GS_WRONG_STATE = -4"
definition GS_IO_ERROR :: int where "GS_IO_ERROR = -5"
definition GS_NOT_SUPPORTED_4K :: int where "GS_NOT_SUPPORTED_4K = -6"
definition GS_UNSUPPORTED_VERSION :: int where "GS_UNSUPPORTED_VERSION = -7"
definition GS_ERROR :: int where "GS_ERROR = -9"
definition GS_CANCELLED :: int where "GS_CANCELLED = -11"

lemmas gs_codes = GS_OK_def GS_FAILED_def GS_INVALID_def GS_WRONG_STATE_def GS_IO_ERROR_def GS_NOT_SUPPORTED_4K_def
  GS_UNSUPPORTED_VERSION_def GS_ERROR_def GS_CANCELLED_def

section \<open>Searching one element\<close>

text \<open>A C string ends at its first zero.\<close>

definition c_str :: "string \<Rightarrow> string" where
  "c_str s = takeWhile (\<lambda>c. c \<noteq> CHR 0x00) s"

record xml_query =
  xq_memory :: string
  xq_start :: int

fun search_event :: "string \<Rightarrow> xml_event \<Rightarrow> xml_query \<Rightarrow> xml_query" where
  "search_event node (StartElement name atts) q = (if node = name then q\<lparr>xq_start := xq_start q + 1\<rparr> else q)"
| "search_event node (EndElement name) q = (if node = name then q\<lparr>xq_start := xq_start q - 1\<rparr> else q)"
| "search_event node (CharData s) q = (if xq_start q > 0 then q\<lparr>xq_memory := xq_memory q @ s\<rparr> else q)"

text \<open>
  The result is the code, the text written to \<open>result\<close> and the text given to \<open>gs_set_error\<close>; \<open>None\<close> where nothing is written.
\<close>

definition xml_search :: "expat \<Rightarrow> bytes \<Rightarrow> string \<Rightarrow> int \<times> string option \<times> string option" where
  "xml_search expat data node =
     (case expat data of
        (events, Some e) \<Rightarrow> (GS_INVALID, None, Some e)
      | (events, None) \<Rightarrow>
          (GS_OK, Some (c_str (xq_memory (fold (search_event node) events \<lparr>xq_memory = [], xq_start = 0\<rparr>))), None))"

definition xml_search_int :: "expat \<Rightarrow> bytes \<Rightarrow> string \<Rightarrow> int \<times> int option \<times> string option" where
  "xml_search_int expat data node =
     (case xml_search expat data node of
        (res, txt, e) \<Rightarrow>
          if res \<noteq> GS_OK \<or> txt = Some [] \<or> txt = None then (GS_INVALID, None, e)
          else (case stoi (the txt) of None \<Rightarrow> (GS_INVALID, None, e) | Some v \<Rightarrow> (res, Some v, e)))"

section \<open>Searching all elements\<close>

record xml_array_query =
  xa_values :: "string list"
  xa_current :: string
  xa_depth :: nat

fun array_event :: "string \<Rightarrow> xml_event \<Rightarrow> xml_array_query \<Rightarrow> xml_array_query" where
  "array_event node (StartElement name atts) q =
     (if node = name then q\<lparr>xa_current := (if xa_depth q = 0 then [] else xa_current q), xa_depth := xa_depth q + 1\<rparr> else q)"
| "array_event node (EndElement name) q =
     (if node = name \<and> xa_depth q > 0
      then (let d = xa_depth q - 1 in q\<lparr>xa_depth := d, xa_values := (if d = 0 then xa_values q @ [xa_current q] else xa_values q)\<rparr>)
      else q)"
| "array_event node (CharData s) q = (if xa_depth q > 0 then q\<lparr>xa_current := xa_current q @ s\<rparr> else q)"

text \<open>The results collected before a parse error stay in the vector.\<close>

definition xml_search_all :: "expat \<Rightarrow> bytes \<Rightarrow> string \<Rightarrow> int \<times> string list \<times> string option" where
  "xml_search_all expat data node =
     (case expat data of
        (events, e) \<Rightarrow>
          (case e of None \<Rightarrow> GS_OK | Some _ \<Rightarrow> GS_INVALID,
           xa_values (fold (array_event node) events \<lparr>xa_values = [], xa_current = [], xa_depth = 0\<rparr>), e))"

section \<open>The list of applications\<close>

datatype cstr = Null | Uninit | Text string

record APP =
  app_name :: cstr
  app_uuid :: cstr
  app_id :: int
  app_server_order :: nat

definition new_app :: APP where
  "new_app = \<lparr>app_name = Null, app_uuid = Null, app_id = 0, app_server_order = 0\<rparr>"

text \<open>The query of \<open>xml_applist\<close>: the buffer, whether text is collected, and the applications, the newest first.\<close>

record applist_query =
  aq_memory :: cstr
  aq_start :: bool
  aq_apps :: "APP list"

fun write_text :: "cstr \<Rightarrow> string \<Rightarrow> cstr" where
  "write_text (Text t) s = Text (t @ s)"
| "write_text _ s = Text s"

fun applist_event :: "xml_event \<Rightarrow> applist_query \<Rightarrow> applist_query option" where
  "applist_event (StartElement name atts) q =
     Some (if name = ''App'' then q\<lparr>aq_apps := new_app # aq_apps q\<rparr>
           else if name = ''ID'' \<or> name = ''AppTitle'' \<or> name = ''UUID'' then q\<lparr>aq_memory := Uninit, aq_start := True\<rparr>
           else q)"
| "applist_event (EndElement name) q =
     (if \<not> aq_start q then Some q
      else (case aq_apps q of
              [] \<Rightarrow> Some q
            | app # apps \<Rightarrow>
                if name = ''ID'' then
                  (case aq_memory q of
                     Text t \<Rightarrow> Some (q\<lparr>aq_apps := app\<lparr>app_id := atoi (c_str t)\<rparr> # apps, aq_start := False\<rparr>)
                   | _ \<Rightarrow> None)
                else if name = ''AppTitle'' then Some (q\<lparr>aq_apps := app\<lparr>app_name := aq_memory q\<rparr> # apps, aq_start := False\<rparr>)
                else if name = ''UUID'' then Some (q\<lparr>aq_apps := app\<lparr>app_uuid := aq_memory q\<rparr> # apps, aq_start := False\<rparr>)
                else Some (q\<lparr>aq_start := False\<rparr>)))"
| "applist_event (CharData s) q = Some (if aq_start q then q\<lparr>aq_memory := write_text (aq_memory q) s\<rparr> else q)"

fun applist_events :: "xml_event list \<Rightarrow> applist_query \<Rightarrow> applist_query option" where
  "applist_events [] q = Some q"
| "applist_events (e # es) q = Option.bind (applist_event e q) (applist_events es)"

text \<open>The loop that numbers the list after it has been reversed.\<close>

fun number_apps :: "nat \<Rightarrow> APP list \<Rightarrow> APP list" where
  "number_apps n [] = []"
| "number_apps n (a # as) = a\<lparr>app_server_order := n\<rparr> # number_apps (Suc n) as"

definition xml_applist :: "expat \<Rightarrow> bytes \<Rightarrow> (int \<times> APP list option \<times> string option) option" where
  "xml_applist expat data =
     (case expat data of
        (events, e) \<Rightarrow>
          (case applist_events events \<lparr>aq_memory = Text [], aq_start = False, aq_apps = []\<rparr> of
             None \<Rightarrow> None
           | Some q \<Rightarrow>
               Some (case e of
                       Some t \<Rightarrow> (GS_INVALID, None, Some t)
                     | None \<Rightarrow> (GS_OK, Some (number_apps 0 (rev (aq_apps q))), None))))"

section \<open>The status\<close>

text \<open>The loop over the attributes of \<open>root\<close>: the status and the last message that was set.\<close>

fun status_atts :: "(string \<times> string) list \<Rightarrow> int \<times> string option \<Rightarrow> int \<times> string option" where
  "status_atts [] st = st"
| "status_atts ((name, val) # atts) (status, e) =
     status_atts atts
       (if name = ''status_code'' then (atoi val, e)
        else if status \<noteq> 200 \<and> name = ''status_message'' then (status, Some val)
        else (status, e))"

fun status_event :: "xml_event \<Rightarrow> int \<times> string option \<Rightarrow> int \<times> string option" where
  "status_event (StartElement name atts) st = (if name = ''root'' then status_atts atts st else st)"
| "status_event _ st = st"

definition xml_status :: "expat \<Rightarrow> bytes \<Rightarrow> int \<times> string option" where
  "xml_status expat data =
     (case expat data of
        (events, e) \<Rightarrow>
          (case fold status_event events (0, None) of
             (status, msg) \<Rightarrow>
               (case e of
                  Some t \<Rightarrow> (GS_INVALID, Some t)
                | None \<Rightarrow> (if status = 200 then GS_OK else GS_ERROR, msg))))"

section \<open>Application lists come back in the order of the host\<close>

text \<open>
  A host writes an application as a block of leaf elements in any order; the parser may hand over the text of an element in several
  pieces.  An element without text is not of this kind.
\<close>

type_synonym leaf = "string \<times> string list"

definition leaf_events :: "leaf \<Rightarrow> xml_event list" where
  "leaf_events l = StartElement (fst l) [] # map CharData (snd l) @ [EndElement (fst l)]"

definition leaf_ok :: "leaf \<Rightarrow> bool" where
  "leaf_ok l = (snd l \<noteq> [] \<and> fst l \<noteq> ''App'')"

definition app_block :: "leaf list \<Rightarrow> xml_event list" where
  "app_block ls = StartElement ''App'' [] # concat (map leaf_events ls) @ [EndElement ''App'']"

definition store_leaf :: "leaf \<Rightarrow> APP \<Rightarrow> APP" where
  "store_leaf l a =
     (if fst l = ''ID'' then a\<lparr>app_id := atoi (c_str (concat (snd l)))\<rparr>
      else if fst l = ''AppTitle'' then a\<lparr>app_name := Text (concat (snd l))\<rparr>
      else if fst l = ''UUID'' then a\<lparr>app_uuid := Text (concat (snd l))\<rparr>
      else a)"

definition app_of :: "leaf list \<Rightarrow> APP" where
  "app_of ls = fold store_leaf ls new_app"

lemma applist_events_append:
  "applist_events (es @ es') q = Option.bind (applist_events es q) (applist_events es')"
  proof (induction es arbitrary: q)
  case (Cons e es)
  then show ?case by (cases "applist_event e q") simp_all
qed simp

lemma chars_ignored: "\<not> aq_start q \<Longrightarrow> applist_events (map CharData cs) q = Some q"
  by (induction cs) simp_all

lemma chars_collected:
  "aq_start q \<Longrightarrow> aq_memory q = Text t \<Longrightarrow>
   applist_events (map CharData cs) q = Some (q\<lparr>aq_memory := Text (t @ concat cs)\<rparr>)"
  by (induction cs arbitrary: q t) simp_all

lemma chars_collected_new:
  assumes "cs \<noteq> []" "aq_start q" "aq_memory q = Uninit"
  shows "applist_events (map CharData cs) q = Some (q\<lparr>aq_memory := Text (concat cs)\<rparr>)"
proof (cases cs)
  case (Cons c cs')
  then show ?thesis using assms(2,3) chars_collected [of "q\<lparr>aq_memory := Text c\<rparr>" c cs'] by simp
qed (use assms in simp)

lemma leaf_stored:
  assumes "leaf_ok l" "\<not> aq_start q" "aq_apps q = a # as"
  shows "\<exists>m. applist_events (leaf_events l) q = Some (q\<lparr>aq_memory := m, aq_start := False, aq_apps := store_leaf l a # as\<rparr>)"
proof (cases "fst l = ''ID'' \<or> fst l = ''AppTitle'' \<or> fst l = ''UUID''")
  case True
  let ?q = "q\<lparr>aq_memory := Uninit, aq_start := True\<rparr>"
  have "applist_events (map CharData (snd l)) ?q = Some (?q\<lparr>aq_memory := Text (concat (snd l))\<rparr>)"
    using assms(1) by (intro chars_collected_new) (simp_all add: leaf_ok_def)
  with True assms show ?thesis
    by (auto simp: leaf_events_def applist_events_append store_leaf_def intro!: exI [of _ "Text (concat (snd l))"])
next
  case False
  with assms have "applist_events (leaf_events l) q = Some q"
    by (simp add: leaf_events_def applist_events_append chars_ignored leaf_ok_def)
  with False assms show ?thesis by (intro exI [of _ "aq_memory q"]) (simp add: store_leaf_def)
qed

lemma leaves_stored:
  "\<forall>l \<in> set ls. leaf_ok l \<Longrightarrow> \<not> aq_start q \<Longrightarrow> aq_apps q = a # as \<Longrightarrow>
   \<exists>m. applist_events (concat (map leaf_events ls)) q = Some (q\<lparr>aq_memory := m, aq_start := False, aq_apps := fold store_leaf ls a # as\<rparr>)"
proof (induction ls arbitrary: q a)
  case Nil
  then show ?case by (intro exI [of _ "aq_memory q"]) simp
next
  case (Cons l ls)
  obtain m where "applist_events (leaf_events l) q = Some (q\<lparr>aq_memory := m, aq_start := False, aq_apps := store_leaf l a # as\<rparr>)"
    using leaf_stored [of l q a as] Cons.prems by auto
  moreover obtain m' where "applist_events (concat (map leaf_events ls)) (q\<lparr>aq_memory := m, aq_start := False, aq_apps := store_leaf l a # as\<rparr>)
      = Some (q\<lparr>aq_memory := m', aq_start := False, aq_apps := fold store_leaf ls (store_leaf l a) # as\<rparr>)"
    using Cons.IH [of "q\<lparr>aq_memory := m, aq_start := False, aq_apps := store_leaf l a # as\<rparr>" "store_leaf l a"] Cons.prems by auto
  ultimately show ?case by (auto simp: applist_events_append)
qed

lemma app_block_stored:
  assumes "\<forall>l \<in> set ls. leaf_ok l" "\<not> aq_start q"
  shows "\<exists>m. applist_events (app_block ls) q = Some (q\<lparr>aq_memory := m, aq_start := False, aq_apps := app_of ls # aq_apps q\<rparr>)"
proof -
  obtain m where "applist_events (concat (map leaf_events ls)) (q\<lparr>aq_apps := new_app # aq_apps q\<rparr>) =
      Some (q\<lparr>aq_memory := m, aq_start := False, aq_apps := app_of ls # aq_apps q\<rparr>)"
    using leaves_stored [of ls "q\<lparr>aq_apps := new_app # aq_apps q\<rparr>" new_app "aq_apps q"] assms by (auto simp: app_of_def)
  then show ?thesis by (auto simp: app_block_def applist_events_append)
qed

lemma app_blocks_stored:
  "\<forall>ls \<in> set apps. \<forall>l \<in> set ls. leaf_ok l \<Longrightarrow> \<not> aq_start q \<Longrightarrow>
   \<exists>m. applist_events (concat (map app_block apps)) q = Some (q\<lparr>aq_memory := m, aq_start := False, aq_apps := rev (map app_of apps) @ aq_apps q\<rparr>)"
proof (induction apps arbitrary: q)
  case Nil
  then show ?case by (intro exI [of _ "aq_memory q"]) simp
next
  case (Cons ls apps)
  obtain m where "applist_events (app_block ls) q = Some (q\<lparr>aq_memory := m, aq_start := False, aq_apps := app_of ls # aq_apps q\<rparr>)"
    using app_block_stored [of ls q] Cons.prems by auto
  moreover obtain m' where "applist_events (concat (map app_block apps)) (q\<lparr>aq_memory := m, aq_start := False, aq_apps := app_of ls # aq_apps q\<rparr>)
      = Some (q\<lparr>aq_memory := m', aq_start := False, aq_apps := rev (map app_of apps) @ app_of ls # aq_apps q\<rparr>)"
    using Cons.IH [of "q\<lparr>aq_memory := m, aq_start := False, aq_apps := app_of ls # aq_apps q\<rparr>"] Cons.prems by auto
  ultimately show ?case by (auto simp: applist_events_append)
qed

lemma number_apps_map: "number_apps n as = map (\<lambda>(i, a). a\<lparr>app_server_order := i\<rparr>) (enumerate n as)"
  by (induction as arbitrary: n) simp_all

text \<open>
  The list of a host's applications is read completely and in the order of the document, each with its own fields, and
  \<open>server_order\<close> is the position in that order.
\<close>

theorem xml_applist_in_order:
  assumes "expat data = (StartElement ''root'' atts # concat (map app_block apps) @ [EndElement ''root''], None)"
    and "\<forall>ls \<in> set apps. \<forall>l \<in> set ls. leaf_ok l"
  shows "xml_applist expat data =
     Some (GS_OK, Some (map (\<lambda>(i, ls). (app_of ls)\<lparr>app_server_order := i\<rparr>) (enumerate 0 apps)), None)"
proof -
  let ?q = "\<lparr>aq_memory = Text [], aq_start = False, aq_apps = []\<rparr>"
  obtain m where "applist_events (concat (map app_block apps)) ?q = Some (?q\<lparr>aq_memory := m, aq_apps := rev (map app_of apps)\<rparr>)"
    using app_blocks_stored [of apps ?q] assms(2) by auto
  then show ?thesis using assms(1)
    by (simp add: xml_applist_def applist_events_append number_apps_map enumerate_map_upt [symmetric] enumerate_eq_zip zip_map2 case_prod_unfold)
qed

definition example_apps :: "leaf list list" where
  "example_apps = [[(''AppTitle'', [''Desk'', ''top'']), (''ID'', [''7''])], [(''IsHdrSupported'', [''0'']), (''ID'', [''42'']), (''UUID'', [''u''])]]"

theorem xml_applist_in_order_witness:
  "xml_applist (\<lambda>_. (StartElement ''root'' [] # concat (map app_block example_apps) @ [EndElement ''root''], None)) [] =
     Some (GS_OK, Some [\<lparr>app_name = Text ''Desktop'', app_uuid = Null, app_id = 7, app_server_order = 0\<rparr>,
                        \<lparr>app_name = Null, app_uuid = Text ''u'', app_id = 42, app_server_order = 1\<rparr>], None)"
proof -
  have ok: "\<forall>ls \<in> set example_apps. \<forall>l \<in> set ls. leaf_ok l" by code_simp
  have r: "map (\<lambda>(i, ls). (app_of ls)\<lparr>app_server_order := i\<rparr>) (enumerate 0 example_apps) =
      [\<lparr>app_name = Text ''Desktop'', app_uuid = Null, app_id = 7, app_server_order = 0\<rparr>,
       \<lparr>app_name = Null, app_uuid = Text ''u'', app_id = 42, app_server_order = 1\<rparr>]"
    by code_simp
  show ?thesis
    using xml_applist_in_order [of "\<lambda>_. (StartElement ''root'' [] # concat (map app_block example_apps) @ [EndElement ''root''], None)"
        "[]" "[]" example_apps] ok r by simp
qed

text \<open>An application whose number is an empty element makes \<open>atoi\<close> read a buffer nothing was written to.\<close>

lemma empty_id_reads_uninitialised:
  "xml_applist (\<lambda>_. ([StartElement ''root'' [], StartElement ''App'' [], StartElement ''ID'' [], EndElement ''ID''], None)) [] = None"
  by (simp add: xml_applist_def)

end
