(* ===== verification/GameStreamHttp.thy ===== *)
theory GameStreamHttp
  imports GameStreamXml HostCapabilities HostAddressParse
begin

text \<open>
  Model of \<open>app/src/libgamestream/http.cpp\<close>: one HTTP request with libcurl, and of \<open>app/src/host/HostIdentityProbe.cpp\<close>, which
  asks a host for its product with such requests.

  The environment \<open>Env\<close> holds what is not the program's: what curl does with a request, as a function of all requests made so far
  (the last one is the current one), the cancellation token at each reading, the clock at each drawing of random bytes, the parser,
  the cryptography and the streaming library.  \<open>World\<close> is what the operations change: the requests made, the last error text
  (\<open>gs_set_error\<close>), and how often token and clock were read.
\<close>

section \<open>Requests and what curl does with them\<close>

datatype HTTPMethod = Get | Post

record HTTPRequestOptions =
  ho_method :: HTTPMethod
  ho_body :: string
  ho_contentType :: string
  ho_maxResponseBytes :: nat
  ho_sensitive :: bool
  ho_suppressErrors :: bool
  ho_connectTimeoutMs :: nat
  ho_totalTimeoutMs :: nat
  ho_shares_token :: bool

definition no_options :: HTTPRequestOptions where
  "no_options = \<lparr>ho_method = Get, ho_body = [], ho_contentType = [], ho_maxResponseBytes = 4 * 1024 * 1024, ho_sensitive = False,
     ho_suppressErrors = False, ho_connectTimeoutMs = 0, ho_totalTimeoutMs = 0, ho_shares_token = False\<rparr>"

definition HTTPRequestTimeoutLow :: nat where "HTTPRequestTimeoutLow = 1"
definition HTTPRequestTimeoutMedium :: nat where "HTTPRequestTimeoutMedium = 5"
definition HTTPRequestTimeoutLong :: nat where "HTTPRequestTimeoutLong = 120"

record Request =
  rq_url :: string
  rq_timeout :: nat
  rq_options :: HTTPRequestOptions

text \<open>
  A transfer: the status of the answer (0 without one), the pieces of the body handed to \<open>_write_curl\<close>, and how it fails if it does:
  whether the progress callback aborted it, the text of the error code, and the error buffer.
\<close>

record Transfer =
  tf_status :: int
  tf_chunks :: "bytes list"
  tf_failure :: "(bool \<times> string \<times> string) option"

datatype CurlRun = NoHandle | Performed Transfer

record SERVER_INFORMATION =
  si_address :: string
  si_serverInfoAppVersion :: string
  si_serverInfoGfeVersion :: string
  si_rtspSessionUrl :: "string option"
  si_serverCodecModeSupport :: int

record Env =
  ev_curl :: "Request list \<Rightarrow> CurlRun"
  ev_cancelled :: "nat \<Rightarrow> bool"
  ev_time :: "nat \<Rightarrow> nat"
  ev_rand :: "nat \<Rightarrow> nat \<Rightarrow> nat"
  ev_expat :: expat
  ev_crypto :: PairCrypto
  ev_load_cert_key_pair :: bool
  ev_generate_new_cert_key_pair :: bool
  ev_LiGetLaunchUrlQueryParameters :: string
  ev_LiInitializeServerInformation :: SERVER_INFORMATION
  ev_AUDIO_CONFIGURATION_STEREO :: int

record World =
  w_requests :: "Request list"
  w_error :: string
  w_reads :: nat
  w_draws :: nat

definition gs_set_error :: "string \<Rightarrow> World \<Rightarrow> World" where
  "gs_set_error e w = w\<lparr>w_error := e\<rparr>"

definition gs_error :: "World \<Rightarrow> string" where
  "gs_error w = (if w_error w = [] then ''Unknown error...'' else w_error w)"

definition isCancellationRequested :: "Env \<Rightarrow> World \<Rightarrow> bool \<times> World" where
  "isCancellationRequested ev w = (ev_cancelled ev (w_reads w), w\<lparr>w_reads := w_reads w + 1\<rparr>)"

section \<open>One request\<close>

text \<open>\<open>None\<close>: the callback takes nothing, which makes curl fail.\<close>

definition write_curl :: "nat \<Rightarrow> bytes \<Rightarrow> bytes \<Rightarrow> bytes option" where
  "write_curl limit contents mem =
     (if length contents > limit \<or> length mem > limit - length contents then None else Some (mem @ contents))"

fun receive_body :: "nat \<Rightarrow> bytes list \<Rightarrow> bytes \<Rightarrow> bytes option" where
  "receive_body limit [] mem = Some mem"
| "receive_body limit (c # cs) mem =
     (case write_curl limit c mem of None \<Rightarrow> None | Some mem' \<Rightarrow> receive_body limit cs mem')"

record Answer =
  an_result :: int
  an_data :: "bytes option"
  an_status :: int
  an_tooLarge :: bool

definition unless_suppressed :: "HTTPRequestOptions \<Rightarrow> string \<Rightarrow> World \<Rightarrow> World" where
  "unless_suppressed options e w = (if ho_suppressErrors options then w else gs_set_error e w)"

text \<open>\<open>std::to_string\<close> of a signed number.\<close>

definition to_string_int :: "int \<Rightarrow> string" where
  "to_string_int v = (if v < 0 then CHR ''-'' # to_string (nat (- v)) else to_string (nat v))"

definition failure_message :: "string \<Rightarrow> string \<Rightarrow> string" where
  "failure_message strerror detail =
     (if detail \<noteq> [] \<and> strerror \<noteq> detail then strerror @ '' ('' @ detail @ '')'' else strerror)"

definition http_request_failed :: "Env \<Rightarrow> HTTPRequestOptions \<Rightarrow> int \<Rightarrow> bool \<times> string \<times> string \<Rightarrow> World \<Rightarrow> Answer \<times> World" where
  "http_request_failed ev options status failure w =
     (case failure of
        (aborted, strerror, detail) \<Rightarrow>
          (let (cancelled, w) =
                 (if aborted \<and> ho_shares_token options then isCancellationRequested ev w else (False, w));
               message = (if cancelled then ''Request cancelled'' else failure_message strerror detail)
           in (\<lparr>an_result = GS_FAILED, an_data = None, an_status = status, an_tooLarge = False\<rparr>,
               unless_suppressed options message w)))"

definition http_request :: "Env \<Rightarrow> string \<Rightarrow> nat \<Rightarrow> HTTPRequestOptions \<Rightarrow> World \<Rightarrow> Answer \<times> World" where
  "http_request ev url timeout options w0 =
     (let rq = \<lparr>rq_url = url, rq_timeout = timeout, rq_options = options\<rparr>; sent = w_requests w0 @ [rq] in
      case ev_curl ev sent of
        NoHandle \<Rightarrow> (\<lparr>an_result = GS_FAILED, an_data = None, an_status = 0, an_tooLarge = False\<rparr>, w0\<lparr>w_requests := sent\<rparr>)
      | Performed tf \<Rightarrow>
          let w = w0\<lparr>w_requests := sent\<rparr> in
          case receive_body (ho_maxResponseBytes options) (tf_chunks tf) [] of
            None \<Rightarrow>
              (\<lparr>an_result = GS_INVALID, an_data = None, an_status = tf_status tf, an_tooLarge = True\<rparr>,
               unless_suppressed options ''HTTP response exceeded configured limit'' w)
          | Some body \<Rightarrow>
              case tf_failure tf of
                Some failure \<Rightarrow> http_request_failed ev options (tf_status tf) failure w
              | None \<Rightarrow>
                  if tf_status tf < 200 \<or> tf_status tf \<ge> 300 then
                    (\<lparr>an_result = GS_ERROR, an_data = Some body, an_status = tf_status tf, an_tooLarge = False\<rparr>,
                     unless_suppressed options (''HTTP request failed with status '' @ to_string_int (tf_status tf)) w)
                  else (\<lparr>an_result = GS_OK, an_data = Some body, an_status = tf_status tf, an_tooLarge = False\<rparr>, w))"

section \<open>Asking a host for its product\<close>

definition first_not_blank :: "string \<Rightarrow> string" where
  "first_not_blank s = dropWhile (\<lambda>c. c \<in> {CHR '' '', CHR 0x09, CHR 0x0D, CHR 0x0A}) s"

text \<open>The text after the colon that follows the first occurrence of the quoted key, blanks skipped.\<close>

definition json_after_key :: "string \<Rightarrow> string \<Rightarrow> string option" where
  "json_after_key body key =
     (let marker = CHR 0x22 # key @ [CHR 0x22] in
      case find_str marker body of
        None \<Rightarrow> None
      | Some pos \<Rightarrow>
          (case cut (CHR '':'') (drop (pos + length marker) body) of
             (_, None) \<Rightarrow> None
           | (_, Some rest) \<Rightarrow> Some (first_not_blank rest)))"

definition jsonString :: "string \<Rightarrow> string \<Rightarrow> string option" where
  "jsonString body key =
     (case json_after_key body key of
        None \<Rightarrow> None
      | Some [] \<Rightarrow> None
      | Some (c # rest) \<Rightarrow>
          if c \<noteq> CHR 0x22 then None
          else (case cut (CHR 0x22) rest of (_, None) \<Rightarrow> None | (value, Some _) \<Rightarrow> Some value))"

definition jsonNonNegativeInteger :: "string \<Rightarrow> string \<Rightarrow> bool" where
  "jsonNonNegativeInteger body key =
     (case json_after_key body key of
        None \<Rightarrow> False
      | Some [] \<Rightarrow> False
      | Some (c # rest) \<Rightarrow>
          isdigit c \<and>
          (case first_not_blank (dropWhile isdigit (c # rest)) of
             [] \<Rightarrow> False
           | d # _ \<Rightarrow> d = CHR '','' \<or> d = CHR ''}''))"

definition urlHost :: "string \<Rightarrow> string" where
  "urlHost address = format_host_address ((parse_host_address address)\<lparr>pa_port := None\<rparr>)"

definition probe_options :: HTTPRequestOptions where
  "probe_options = no_options\<lparr>ho_maxResponseBytes := 64 * 1024, ho_connectTimeoutMs := 350, ho_totalTimeoutMs := 750,
     ho_suppressErrors := True\<rparr>"

definition getProbe :: "Env \<Rightarrow> string \<Rightarrow> World \<Rightarrow> string option \<times> World" where
  "getProbe ev url w =
     (let (an, w) = http_request ev url HTTPRequestTimeoutLow probe_options w in
      if an_result an \<noteq> GS_OK \<or> an_status an \<noteq> 200 then (None, w)
      else (map_option string_of_bytes (an_data an), w))"

definition parsePunktfunkHealth :: "string \<Rightarrow> HostIdentity option" where
  "parsePunktfunkHealth body =
     (let object = trim body in
      if length object < 2 \<or> hd object \<noteq> CHR ''{'' \<or> last object \<noteq> CHR ''}'' then None
      else case (jsonString body ''status'', jsonString body ''version'') of
             (Some status, Some version) \<Rightarrow>
               if map tolower status \<noteq> ''ok'' \<or> version = [] \<or> \<not> jsonNonNegativeInteger body ''abi_version'' then None
               else Some ((identityFor Punktfunk)\<lparr>id_version := version\<rparr>)
           | _ \<Rightarrow> None)"

definition parseVibeshineWebUi :: "string \<Rightarrow> HostIdentity option" where
  "parseVibeshineWebUi body =
     (let normalized = map tolower body in
      if \<not> has_substr ''<title>vibeshine</title>'' normalized \<and>
         \<not> has_substr (''content='' @ [CHR 0x22] @ ''vibeshine'' @ [CHR 0x22]) normalized \<and>
         \<not> has_substr (''content='' @ [CHR 0x27] @ ''vibeshine'' @ [CHR 0x27]) normalized
      then None else Some (identityFor Vibeshine))"

definition probePunktfunkIdentity :: "Env \<Rightarrow> string \<Rightarrow> World \<Rightarrow> HostIdentity option \<times> World" where
  "probePunktfunkIdentity ev address w =
     (let host = urlHost address in
      if host = [] then (None, w)
      else case getProbe ev (''https://'' @ host @ '':47992/api/v1/health'') w of
             (None, w) \<Rightarrow> (None, w)
           | (Some body, w) \<Rightarrow> (parsePunktfunkHealth body, w))"

definition probeHostIdentity :: "Env \<Rightarrow> string \<Rightarrow> bool \<Rightarrow> World \<Rightarrow> HostIdentity option \<times> World" where
  "probeHostIdentity ev address virtualDisplayHint w =
     (let host = urlHost address in
      if host = [] then (None, w)
      else if virtualDisplayHint then
        (case getProbe ev (''https://'' @ host @ '':47990/'') w of
           (body, w) \<Rightarrow>
             (case Option.bind body parseVibeshineWebUi of
                Some found \<Rightarrow> (Some found, w)
              | None \<Rightarrow> probePunktfunkIdentity ev address w))
      else probePunktfunkIdentity ev address w)"

definition hostConsoleUrl :: "string \<Rightarrow> HostIdentity \<Rightarrow> string" where
  "hostConsoleUrl address identity =
     (let host = urlHost address in
      if host = [] then []
      else let port = (if id_webConsolePort identity \<noteq> 0 then id_webConsolePort identity else 47990) in
           ''https://'' @ host @ '':'' @ to_string (unat port) @ ''/'')"

end
