(* ===== verification/GameStreamClient.thy ===== *)
theory GameStreamClient
  imports GameStreamHttp StreamOptions
begin

unbundle bit_operations_syntax

text \<open>
  Model of \<open>app/src/libgamestream/client.cpp\<close> except the pairing (theory \<open>GameStreamPairing\<close>), and of
  \<open>app/src/host/GameStreamHostCapabilities.cpp\<close>: server information, application list, launch, quit and clipboard.

  An operation that gives up early is an \<open>act\<close>: from server and world it computes the error code it returns or a value, and the
  new server and world; what it stored before it gave up stays stored.  \<open>None\<close> is undefined behaviour or \<open>exit\<close>.
\<close>

section \<open>Addresses\<close>

definition unique_id :: string where
  "unique_id = ''0123456789ABCDEF''"

definition rewrite_rtsp_host_to_loopback :: "string \<Rightarrow> string" where
  "rewrite_rtsp_host_to_loopback url =
     (case find_str ''://'' url of
        None \<Rightarrow> url
      | Some schemeEnd \<Rightarrow>
          (let hostStart = schemeEnd + 3 in
           take hostStart url @ ''127.0.0.1'' @
           dropWhile (\<lambda>c. c \<noteq> CHR '':'' \<and> c \<noteq> CHR ''/'') (drop hostStart url)))"

text \<open>The version: four numbers, each after one character that is skipped.\<close>

fun extractVersionQuadFromString_loop :: "nat \<Rightarrow> string \<Rightarrow> int list" where
  "extractVersionQuadFromString_loop 0 s = []"
| "extractVersionQuadFromString_loop (Suc i) s =
     (case strtol s of (v, rest) \<Rightarrow> int_of_long v # extractVersionQuadFromString_loop i (tl rest))"

definition extractVersionQuadFromString :: "string \<Rightarrow> int list" where
  "extractVersionQuadFromString s = extractVersionQuadFromString_loop 4 (c_str s)"

section \<open>The server\<close>

record SERVER_DATA =
  sd_address :: string
  sd_serverInfoAppVersion :: string
  sd_serverInfoGfeVersion :: string
  sd_mac :: string
  sd_gpuType :: string
  sd_paired :: bool
  sd_supports4K :: bool
  sd_currentGame :: int
  sd_currentGameUuid :: string
  sd_serverMajorVersion :: int
  sd_gsVersion :: string
  sd_hostname :: string
  sd_serverInfo :: SERVER_INFORMATION
  sd_httpPort :: u16
  sd_httpsPort :: u16
  sd_virtualDisplayCapable :: bool
  sd_virtualDisplayDriverReady :: bool
  sd_permission :: u32
  sd_hasApolloPermissionField :: bool
  sd_serverCommands :: "string list"
  sd_hostIdentity :: HostIdentity

definition is_proxied_session :: "SERVER_DATA \<Rightarrow> bool" where
  "is_proxied_session server = (c_str (si_address (sd_serverInfo server)) = ''127.0.0.1'')"

definition isSunshine :: "SERVER_DATA \<Rightarrow> bool" where
  "isSunshine server = (extractVersionQuadFromString (sd_serverInfoAppVersion server) ! 3 < 0)"

definition metadataFromServerData :: "SERVER_DATA \<Rightarrow> HostMetadata" where
  "metadataFromServerData server = \<lparr>md_appVersion = sd_serverInfoAppVersion server, md_gfeVersion = sd_serverInfoGfeVersion server,
     md_gsVersion = sd_gsVersion server, md_advertisedExtensions = []\<rparr>"

definition detectServerCapabilities :: "SERVER_DATA \<Rightarrow> HostCapabilities" where
  "detectServerCapabilities server =
     (let fromVersion = detect (metadataFromServerData server);
          identity = (if id_kind (sd_hostIdentity server) \<noteq> Unknown then id_kind (sd_hostIdentity server) else hc_kind fromVersion)
      in (fromServerInfo identity (sd_virtualDisplayCapable server) (sd_virtualDisplayDriverReady server)
            (sd_hasApolloPermissionField server) (sd_permission server) (sd_serverCommands server)
            (sd_currentGameUuid server \<noteq> []))
         \<lparr>hc_codecs := decodeServerCodecMask (word_of_int (si_serverCodecModeSupport (sd_serverInfo server)))\<rparr>)"

definition isApollo :: "SERVER_DATA \<Rightarrow> bool" where
  "isApollo server = isApolloFamily (hc_kind (detectServerCapabilities server))"

definition isVibepollo :: "SERVER_DATA \<Rightarrow> bool" where
  "isVibepollo server = (hc_kind (detectServerCapabilities server) = Vibepollo)"

definition isVibeshine :: "SERVER_DATA \<Rightarrow> bool" where
  "isVibeshine server = (hc_kind (detectServerCapabilities server) = Vibeshine)"

definition isPunktfunk :: "SERVER_DATA \<Rightarrow> bool" where
  "isPunktfunk server = (hc_kind (detectServerCapabilities server) = Punktfunk)"

definition supportsExtendedLaunchOptions :: "SERVER_DATA \<Rightarrow> bool" where
  "supportsExtendedLaunchOptions server = hc_extendedLaunchOptions (detectServerCapabilities server)"

definition supportsPreciseRefreshRate :: "SERVER_DATA \<Rightarrow> bool" where
  "supportsPreciseRefreshRate server = hc_preciseRefreshRate (detectServerCapabilities server)"

section \<open>Operations that can give up\<close>

type_synonym 'a act = "SERVER_DATA \<times> World \<Rightarrow> ((int + 'a) \<times> SERVER_DATA \<times> World) option"

definition act_bind :: "'a act \<Rightarrow> ('a \<Rightarrow> 'b act) \<Rightarrow> 'b act" where
  "act_bind m f s = (case m s of None \<Rightarrow> None | Some (Inl e, s') \<Rightarrow> Some (Inl e, s') | Some (Inr x, s') \<Rightarrow> f x s')"

definition act_return :: "'a \<Rightarrow> 'a act" where
  "act_return x s = Some (Inr x, s)"

definition act_fail :: "int \<Rightarrow> 'a act" where
  "act_fail e s = Some (Inl e, s)"

definition act_update :: "(SERVER_DATA \<Rightarrow> SERVER_DATA) \<Rightarrow> unit act" where
  "act_update f s = Some (Inr (), f (fst s), snd s)"

definition act_option :: "'a option \<Rightarrow> 'a act" where
  "act_option x s = (case x of None \<Rightarrow> None | Some v \<Rightarrow> Some (Inr v, s))"

definition act_error :: "string option \<Rightarrow> unit act" where
  "act_error e s = Some (Inr (), fst s, (case e of None \<Rightarrow> snd s | Some t \<Rightarrow> gs_set_error t (snd s)))"

text \<open>The code an operation returns.\<close>

fun code_of :: "int + unit \<Rightarrow> int" where
  "code_of (Inl e) = e"
| "code_of (Inr _) = GS_OK"

text \<open>\<open>char url[4096]\<close> filled by \<open>snprintf\<close>.\<close>

definition url4096 :: "string \<Rightarrow> string" where
  "url4096 s = take 4095 s"

definition host_url :: "bool \<Rightarrow> SERVER_DATA \<Rightarrow> string" where
  "host_url https server =
     (if https then ''https://'' else ''http://'') @ c_str (si_address (sd_serverInfo server)) @ '':'' @
     to_string (unat (if https then sd_httpsPort server else sd_httpPort server)) @ ''/''"

text \<open>A request whose failure ends the operation with the code \<open>f\<close> gives for the failure.\<close>

definition request_or :: "(int \<Rightarrow> int) \<Rightarrow> Env \<Rightarrow> string \<Rightarrow> nat \<Rightarrow> HTTPRequestOptions \<Rightarrow> bytes act" where
  "request_or f ev url timeout options s =
     (case http_request ev url timeout options (snd s) of
        (an, w) \<Rightarrow>
          if an_result an \<noteq> GS_OK then Some (Inl (f (an_result an)), fst s, w)
          else Some (Inr (case an_data an of Some d \<Rightarrow> d | None \<Rightarrow> []), fst s, w))"

text \<open>\<open>xml_search\<close> and \<open>xml_status\<close> with the error text they set.  The first gives its code and what it wrote.\<close>

definition search_act :: "Env \<Rightarrow> bytes \<Rightarrow> string \<Rightarrow> (int \<times> string option) act" where
  "search_act ev data node =
     (case xml_search (ev_expat ev) data node of (res, txt, e) \<Rightarrow> act_bind (act_error e) (\<lambda>_. act_return (res, txt)))"

definition search_or :: "(int \<Rightarrow> int) \<Rightarrow> Env \<Rightarrow> bytes \<Rightarrow> string \<Rightarrow> string act" where
  "search_or f ev data node =
     act_bind (search_act ev data node)
       (\<lambda>(res, txt). if res \<noteq> GS_OK then act_fail (f res) else act_return (case txt of Some t \<Rightarrow> t | None \<Rightarrow> []))"

definition search_int_or :: "int \<Rightarrow> Env \<Rightarrow> bytes \<Rightarrow> string \<Rightarrow> int act" where
  "search_int_or code ev data node =
     (case xml_search_int (ev_expat ev) data node of
        (res, v, e) \<Rightarrow>
          act_bind (act_error e)
            (\<lambda>_. if res \<noteq> GS_OK then act_fail code else act_return (case v of Some v \<Rightarrow> v | None \<Rightarrow> 0)))"

definition status_act :: "Env \<Rightarrow> bytes \<Rightarrow> int act" where
  "status_act ev data =
     (case xml_status (ev_expat ev) data of (res, e) \<Rightarrow> act_bind (act_error e) (\<lambda>_. act_return res))"

section \<open>Server information\<close>

text \<open>\<open>std::stoul\<close> with base 0: the prefix chooses the base; it throws without digits and beyond 64 bits.\<close>

definition digits_in :: "nat \<Rightarrow> string \<Rightarrow> string" where
  "digits_in base s = takeWhile (\<lambda>c. isxdigit c \<and> hex_digit c < base) s"

definition number_in :: "nat \<Rightarrow> string \<Rightarrow> nat" where
  "number_in base ds = foldl (\<lambda>v c. v * base + hex_digit c) 0 ds"

definition stoul0_digits :: "string \<Rightarrow> nat option" where
  "stoul0_digits s =
     (if length s \<ge> 3 \<and> s ! 0 = CHR ''0'' \<and> (s ! 1 = CHR ''x'' \<or> s ! 1 = CHR ''X'') \<and> isxdigit (s ! 2)
      then Some (number_in 16 (digits_in 16 (drop 2 s)))
      else if s \<noteq> [] \<and> hd s = CHR ''0'' then Some (number_in 8 (digits_in 8 s))
      else if digits_in 10 s = [] then None
      else Some (number_in 10 (digits_in 10 s)))"

definition stoul0 :: "string \<Rightarrow> u64 option" where
  "stoul0 s =
     (let t = dropWhile isspace s;
          neg = (t \<noteq> [] \<and> hd t = CHR ''-'');
          body = (if t \<noteq> [] \<and> (hd t = CHR ''-'' \<or> hd t = CHR ''+'') then tl t else t)
      in case stoul0_digits body of
           None \<Rightarrow> None
         | Some v \<Rightarrow> if v < 2 ^ 64 then Some (if neg then - word_of_nat v else word_of_nat v) else None)"

definition is_true_text :: "string \<Rightarrow> bool" where
  "is_true_text t = (t = ''true'' \<or> t = ''1'')"

definition set_info :: "(SERVER_INFORMATION \<Rightarrow> SERVER_INFORMATION) \<Rightarrow> SERVER_DATA \<Rightarrow> SERVER_DATA" where
  "set_info f server = server\<lparr>sd_serverInfo := f (sd_serverInfo server)\<rparr>"

text \<open>A field of the answer that is stored in the server; without it the operation gives up.\<close>

definition load_field :: "Env \<Rightarrow> bytes \<Rightarrow> string \<Rightarrow> (string \<Rightarrow> SERVER_DATA \<Rightarrow> SERVER_DATA) \<Rightarrow> unit act" where
  "load_field ev data node store = act_bind (search_or (\<lambda>_. GS_INVALID) ev data node) (\<lambda>t. act_update (store t))"

text \<open>A field whose absence is not an error.\<close>

definition load_optional :: "Env \<Rightarrow> bytes \<Rightarrow> string \<Rightarrow> (string \<Rightarrow> SERVER_DATA \<Rightarrow> SERVER_DATA) \<Rightarrow> unit act" where
  "load_optional ev data node store =
     act_bind (search_act ev data node)
       (\<lambda>(res, txt). case txt of Some t \<Rightarrow> if res = GS_OK then act_update (store t) else act_return () | None \<Rightarrow> act_return ())"

definition store_permission :: "string \<Rightarrow> SERVER_DATA \<Rightarrow> SERVER_DATA" where
  "store_permission t server =
     (if t = [] then server
      else case stoul0 t of
             Some v \<Rightarrow> server\<lparr>sd_permission := ucast v, sd_hasApolloPermissionField := True\<rparr>
           | None \<Rightarrow> server\<lparr>sd_permission := 0, sd_hasApolloPermissionField := False\<rparr>)"

definition load_commands :: "Env \<Rightarrow> bytes \<Rightarrow> unit act" where
  "load_commands ev data =
     (case xml_search_all (ev_expat ev) data ''ServerCommand'' of
        (res, values, e) \<Rightarrow> act_bind (act_error e) (\<lambda>_. act_update (sd_serverCommands_update (\<lambda>_. values))))"

text \<open>The assignments after all fields have been read.\<close>

definition store_serverinfo :: "string \<Rightarrow> string \<Rightarrow> string \<Rightarrow> string \<Rightarrow> SERVER_DATA \<Rightarrow> SERVER_DATA" where
  "store_serverinfo currentGameText pairedText stateText httpsPortText server =
     (let port = (word_of_int (atoi httpsPortText) :: u16) in
      server\<lparr>sd_paired := pairedText = ''1'',
        sd_currentGame := (if stateText = ''_SERVER_BUSY'' then 0 else atoi currentGameText),
        sd_supports4K := si_serverCodecModeSupport (sd_serverInfo server) \<noteq> 0,
        sd_serverMajorVersion := atoi (sd_serverInfoAppVersion server),
        sd_httpsPort := (if port = 0 then 47984 else port)\<rparr>)"

definition finish_serverinfo :: "string \<Rightarrow> string \<Rightarrow> string \<Rightarrow> string \<Rightarrow> unit act" where
  "finish_serverinfo currentGameText pairedText stateText httpsPortText s =
     (if currentGameText = [] \<or> pairedText = [] \<or> sd_serverInfoAppVersion (fst s) = [] \<or> stateText = []
      then act_fail GS_INVALID s
      else act_update (store_serverinfo currentGameText pairedText stateText httpsPortText) s)"

definition load_answer :: "Env \<Rightarrow> bytes \<Rightarrow> unit act" where
  "load_answer ev data =
     (let search = search_or (\<lambda>_. GS_INVALID) ev data; field = load_field ev data; optional = load_optional ev data in
      act_bind (search ''currentgame'') (\<lambda>currentGameText.
      act_bind (search ''PairStatus'') (\<lambda>pairedText.
      act_bind (field ''appversion'' (\<lambda>t. sd_serverInfoAppVersion_update (\<lambda>_. t))) (\<lambda>_.
      act_bind (search ''state'') (\<lambda>stateText.
      act_bind (act_bind (search_int_or GS_INVALID ev data ''ServerCodecModeSupport'')
                  (\<lambda>v. act_update (set_info (si_serverCodecModeSupport_update (\<lambda>_. v))))) (\<lambda>_.
      act_bind (field ''gputype'' (\<lambda>t. sd_gpuType_update (\<lambda>_. t))) (\<lambda>_.
      act_bind (field ''GsVersion'' (\<lambda>t. sd_gsVersion_update (\<lambda>_. t))) (\<lambda>_.
      act_bind (field ''hostname'' (\<lambda>t. sd_hostname_update (\<lambda>_. t))) (\<lambda>_.
      act_bind (field ''GfeVersion'' (\<lambda>t. sd_serverInfoGfeVersion_update (\<lambda>_. t))) (\<lambda>_.
      act_bind (search ''HttpsPort'') (\<lambda>httpsPortText.
      act_bind (field ''mac'' (\<lambda>t. sd_mac_update (\<lambda>_. t))) (\<lambda>_.
      act_bind (optional ''currentgameuuid'' (\<lambda>t. sd_currentGameUuid_update (\<lambda>_. t))) (\<lambda>_.
      act_bind (optional ''VirtualDisplayCapable'' (\<lambda>t. sd_virtualDisplayCapable_update (\<lambda>_. is_true_text t))) (\<lambda>_.
      act_bind (optional ''VirtualDisplayDriverReady'' (\<lambda>t. sd_virtualDisplayDriverReady_update (\<lambda>_. is_true_text t))) (\<lambda>_.
      act_bind (optional ''Permission'' store_permission) (\<lambda>_.
      act_bind (load_commands ev data) (\<lambda>_.
      finish_serverinfo currentGameText pairedText stateText httpsPortText)))))))))))))))))"

definition load_serverinfo :: "Env \<Rightarrow> bool \<Rightarrow> unit act" where
  "load_serverinfo ev https s =
     (let server = fst s;
          url = url4096 (host_url https server @ ''serverinfo?uniqueid='' @ unique_id);
          timeout = (if is_proxied_session server then HTTPRequestTimeoutLong else HTTPRequestTimeoutLow)
      in act_bind (request_or (\<lambda>_. GS_IO_ERROR) ev url timeout no_options) (\<lambda>data.
         act_bind (status_act ev data) (\<lambda>res.
         if res = GS_ERROR then act_fail GS_ERROR else load_answer ev data)) s)"

definition MIN_SUPPORTED_GFE_VERSION :: int where "MIN_SUPPORTED_GFE_VERSION = 3"
definition MAX_SUPPORTED_GFE_VERSION :: int where "MAX_SUPPORTED_GFE_VERSION = 7"

text \<open>The loop over HTTPS and HTTP.\<close>

definition load_serverinfo_twice :: "Env \<Rightarrow> unit act" where
  "load_serverinfo_twice ev s =
     (case load_serverinfo ev True s of
        Some (Inl e, s') \<Rightarrow> if e \<noteq> GS_OK then load_serverinfo ev False s' else Some (Inl e, s')
      | r \<Rightarrow> r)"

definition version_supported :: "unit act" where
  "version_supported s =
     (let v = sd_serverMajorVersion (fst s) in
      if v > MAX_SUPPORTED_GFE_VERSION then
        Some (Inl GS_UNSUPPORTED_VERSION, fst s, gs_set_error
          ''Ensure you're running the latest version of Moonlight-Switch or downgrade GeForce Experience and try again'' (snd s))
      else if v < MIN_SUPPORTED_GFE_VERSION then
        Some (Inl GS_UNSUPPORTED_VERSION, fst s, gs_set_error
          ''Moonlight-Switch requires a newer version of GeForce Experience. Please upgrade GFE on your PC and try again.'' (snd s))
      else Some (Inr (), s))"

definition load_server_status :: "Env \<Rightarrow> unit act" where
  "load_server_status ev s =
     act_bind (if sd_httpsPort (fst s) = 0 then load_serverinfo ev False else act_return ())
       (\<lambda>_. act_bind (load_serverinfo_twice ev) (\<lambda>_. version_supported)) s"

section \<open>Start of a session\<close>

definition host_identity :: "Env \<Rightarrow> unit act" where
  "host_identity ev s =
     (let server = fst s; w = snd s; kind = hc_kind (detect (metadataFromServerData server)) in
      if kind = Sunshine then
        (case probeHostIdentity ev (sd_address server) (sd_virtualDisplayCapable server) w of
           (probed, w') \<Rightarrow>
             (let identity = (case probed of
                      Some p \<Rightarrow> p
                    | None \<Rightarrow> if sd_hasApolloPermissionField server \<or> sd_serverCommands server \<noteq> [] then identityFor Apollo
                             else identityFor kind)
              in Some (Inr (), server\<lparr>sd_hostIdentity := identity\<rparr>, w')))
      else Some (Inr (), server\<lparr>sd_hostIdentity := identityFor kind\<rparr>, w))"

definition publish_versions :: "SERVER_DATA \<Rightarrow> SERVER_DATA" where
  "publish_versions server =
     set_info (\<lambda>i. i\<lparr>si_serverInfoAppVersion := c_str (sd_serverInfoAppVersion server),
                    si_serverInfoGfeVersion := c_str (sd_serverInfoGfeVersion server)\<rparr>) server"

definition gs_init :: "Env \<Rightarrow> string \<Rightarrow> SERVER_DATA \<times> World \<Rightarrow> (int \<times> SERVER_DATA \<times> World) option" where
  "gs_init ev address s =
     (let (server, w) = s; parsed = parse_host_address address;
          httpPort = (case pa_port parsed of Some p \<Rightarrow> p | None \<Rightarrow> 47989)
      in if pa_host parsed = [] then Some (GS_FAILED, server, gs_set_error ''Address is Empty'' w)
         else if \<not> ev_load_cert_key_pair ev \<and> \<not> ev_generate_new_cert_key_pair ev then Some (GS_FAILED, server, w)
         else
           let server1 = server\<lparr>sd_address := pa_host parsed,
                 sd_serverInfo := (ev_LiInitializeServerInformation ev)\<lparr>si_address := pa_host parsed\<rparr>,
                 sd_httpPort := httpPort, sd_httpsPort := 0\<rparr>
           in case act_bind (load_server_status ev) (\<lambda>_. host_identity ev) (server1, w) of
                None \<Rightarrow> None
              | Some (r, server2, w2) \<Rightarrow> Some (code_of r, publish_versions server2, w2))"

section \<open>Applications\<close>

definition gs_unpair :: "Env \<Rightarrow> SERVER_DATA \<Rightarrow> World \<Rightarrow> int \<times> World" where
  "gs_unpair ev server w =
     (case http_request ev (url4096 (host_url False server @ ''unpair?uniqueid='' @ unique_id)) HTTPRequestTimeoutLow no_options w of
        (an, w) \<Rightarrow> (an_result an, w))"

definition applist_act :: "Env \<Rightarrow> bytes \<Rightarrow> APP list act" where
  "applist_act ev data =
     act_bind (act_option (xml_applist (ev_expat ev) data)) (\<lambda>(res, apps, e).
     act_bind (act_error e) (\<lambda>_.
     case apps of Some l \<Rightarrow> if res \<noteq> GS_OK then act_fail GS_INVALID else act_return l | None \<Rightarrow> act_fail GS_INVALID))"

definition gs_applist :: "Env \<Rightarrow> APP list act" where
  "gs_applist ev s =
     act_bind (request_or (\<lambda>_. GS_IO_ERROR) ev (url4096 (host_url True (fst s) @ ''applist?uniqueid='' @ unique_id))
                 HTTPRequestTimeoutMedium no_options) (\<lambda>data.
     act_bind (status_act ev data) (\<lambda>res. if res = GS_ERROR then act_fail GS_ERROR else applist_act ev data)) s"

definition gs_app_boxart :: "Env \<Rightarrow> int \<Rightarrow> bytes act" where
  "gs_app_boxart ev appId s =
     request_or (\<lambda>_. GS_IO_ERROR) ev
       (url4096 (host_url True (fst s) @ ''appasset?uniqueid='' @ unique_id @ ''&appid='' @ to_string_int appId @
                 ''&AssetType=2&AssetIdx=0''))
       HTTPRequestTimeoutMedium no_options s"

text \<open>\<open>(ret = xml_status(data) != GS_OK)\<close>: the comparison is what \<open>ret\<close> receives.\<close>

definition status_or_one :: "Env \<Rightarrow> bytes \<Rightarrow> unit act" where
  "status_or_one ev data = act_bind (status_act ev data) (\<lambda>res. if res \<noteq> GS_OK then act_fail 1 else act_return ())"

record APOLLO_LAUNCH_OPTIONS =
  alo_virtualDisplay :: bool
  alo_appUuid :: string
  alo_width :: int
  alo_height :: int
  alo_refreshRate :: int
  alo_scaleFactor :: int

record STREAM_CONFIGURATION =
  sc_width :: int
  sc_height :: int
  sc_fps :: int
  sc_clientRefreshRateX100 :: int
  sc_audioConfiguration :: int

definition apollo_query :: "APOLLO_LAUNCH_OPTIONS \<Rightarrow> string" where
  "apollo_query o1 =
     (if alo_virtualDisplay o1 then ''&virtualDisplay=1'' else []) @
     (if alo_appUuid o1 \<noteq> [] then ''&appuuid='' @ alo_appUuid o1 else []) @
     (if alo_width o1 > 0 \<and> alo_height o1 > 0
      then ''&resolution='' @ to_string_int (alo_width o1) @ ''x'' @ to_string_int (alo_height o1) else []) @
     (if alo_refreshRate o1 > 0 then ''&refreshRate='' @ to_string_int (alo_refreshRate o1) else []) @
     ''&scaleFactor='' @ to_string_int (if alo_scaleFactor o1 \<le> 0 then 100 else alo_scaleFactor o1)"

definition launch_options :: "APOLLO_LAUNCH_OPTIONS option \<Rightarrow> string act" where
  "launch_options apolloOptions s =
     (let server = fst s in
      case apolloOptions of
        None \<Rightarrow> act_return [] s
      | Some o1 \<Rightarrow>
          if \<not> supportsExtendedLaunchOptions server then act_return [] s
          else if alo_virtualDisplay o1 \<and> \<not> sd_virtualDisplayCapable server then
            act_bind (act_error (Some ''Virtual display launch control is not supported by this host''))
              (\<lambda>_. act_fail GS_NOT_SUPPORTED_4K) s
          else if alo_virtualDisplay o1 \<and> \<not> sd_virtualDisplayDriverReady server then
            act_bind (act_error (Some ''The host virtual display driver is not ready; install or enable it on the host''))
              (\<lambda>_. act_fail GS_WRONG_STATE) s
          else act_return (apollo_query o1) s)"

definition launch_fps :: "SERVER_DATA \<Rightarrow> STREAM_CONFIGURATION \<Rightarrow> bool \<Rightarrow> int" where
  "launch_fps server config sops =
     (let precise = supportsPreciseRefreshRate server in
      if \<not> precise \<and> sops \<and> sc_fps config > 60 then 60
      else launchModeFpsValue (sc_fps config) (sc_clientRefreshRateX100 config) precise)"

text \<open>\<open>%d\<close> of a flag.\<close>

definition flag_text :: "bool \<Rightarrow> string" where
  "flag_text b = (if b then ''1'' else ''0'')"

definition surround_info :: "Env \<Rightarrow> STREAM_CONFIGURATION \<Rightarrow> int" where
  "surround_info ev config =
     (if sc_audioConfiguration config = ev_AUDIO_CONFIGURATION_STEREO ev then 0x3 * 65536 + 2 else 0xFC * 65536 + 6)"

definition launch_url :: "Env \<Rightarrow> SERVER_DATA \<Rightarrow> STREAM_CONFIGURATION \<Rightarrow> int \<Rightarrow> bool \<Rightarrow> bool \<Rightarrow> int \<Rightarrow> bytes \<Rightarrow> string \<Rightarrow> string" where
  "launch_url ev server config appId sops localaudio gamepad_mask rikey apolloQuery =
     (let params = c_str (ev_LiGetLaunchUrlQueryParameters ev @ apolloQuery) in
      if sd_currentGame server = 0 then
        host_url True server @ ''launch?uniqueid='' @ unique_id @ ''&appid='' @ to_string_int appId @
        ''&mode='' @ to_string_int (sc_width config) @ ''x'' @ to_string_int (sc_height config) @ ''x'' @
        to_string_int (launch_fps server config sops) @ ''&additionalStates=1&sops='' @ flag_text sops @
        ''&rikey='' @ string_of_bytes (hex rikey) @ ''&rikeyid=0&localAudioPlayMode='' @ flag_text localaudio @
        ''&surroundAudioInfo='' @ to_string_int (surround_info ev config) @
        ''&remoteControllersBitmap='' @ to_string_int gamepad_mask @ ''&gcmap='' @ to_string_int gamepad_mask @ params
      else
        host_url True server @ ''resume?uniqueid='' @ unique_id @ ''&rikey='' @ string_of_bytes (hex rikey) @ ''&rikeyid=0'' @ params)"

text \<open>\<open>Data::random_bytes\<close> at the time of the call.\<close>

definition draw_bytes :: "Env \<Rightarrow> nat \<Rightarrow> bytes act" where
  "draw_bytes ev n s =
     (let w = snd s in
      Some (Inr (random_bytes (ev_rand ev) (ev_time ev (w_draws w)) n), fst s, w\<lparr>w_draws := w_draws w + 1\<rparr>))"

definition store_session_url :: "Env \<Rightarrow> bytes \<Rightarrow> unit act" where
  "store_session_url ev data s =
     act_bind (search_act ev data ''sessionUrl0'')
       (\<lambda>(res, txt). case txt of
            Some url \<Rightarrow>
              if res = GS_OK then
                act_update (\<lambda>server. set_info (si_rtspSessionUrl_update
                  (\<lambda>_. Some (if is_proxied_session server then rewrite_rtsp_host_to_loopback url else url))) server)
              else act_return ()
          | None \<Rightarrow> act_return ()) s"

text \<open>
  The value is the key written to \<open>config->remoteInputAesKey\<close>; it is written as soon as it has been drawn, so it is part of the
  result of the failures that come later, too: an operation that fails before the key is drawn leaves \<open>config\<close> alone.
\<close>

definition start_request :: "Env \<Rightarrow> STREAM_CONFIGURATION \<Rightarrow> int \<Rightarrow> bool \<Rightarrow> bool \<Rightarrow> int \<Rightarrow> APOLLO_LAUNCH_OPTIONS option \<Rightarrow> bytes \<Rightarrow> unit act" where
  "start_request ev config appId sops localaudio gamepad_mask apolloOptions rikey s =
     act_bind (launch_options apolloOptions) (\<lambda>apolloQuery.
     act_bind (request_or (\<lambda>e. e) ev
         (url4096 (launch_url ev (fst s) config appId sops localaudio gamepad_mask rikey apolloQuery))
         HTTPRequestTimeoutLong no_options) (\<lambda>data.
     act_bind (act_update (sd_currentGame_update (\<lambda>_. appId))) (\<lambda>_.
     act_bind (status_or_one ev data) (\<lambda>_.
     act_bind (search_or (\<lambda>e. e) ev data ''gamesession'') (\<lambda>result.
     if result = ''0'' then act_fail GS_FAILED else store_session_url ev data))))) s"

definition gs_start_app :: "Env \<Rightarrow> STREAM_CONFIGURATION \<Rightarrow> int \<Rightarrow> bool \<Rightarrow> bool \<Rightarrow> int \<Rightarrow> APOLLO_LAUNCH_OPTIONS option \<Rightarrow>
    SERVER_DATA \<times> World \<Rightarrow> (int \<times> bytes option \<times> SERVER_DATA \<times> World) option" where
  "gs_start_app ev config appId sops localaudio gamepad_mask apolloOptions s =
     (if sc_height config \<ge> 2160 \<and> \<not> sd_supports4K (fst s) then
        Some (GS_NOT_SUPPORTED_4K, None, fst s, gs_set_error ''4K not supported'' (snd s))
      else case draw_bytes ev 16 s of
             Some (Inr rikey, s') \<Rightarrow>
               (case start_request ev config appId sops localaudio gamepad_mask apolloOptions rikey s' of
                  None \<Rightarrow> None
                | Some (r, s'') \<Rightarrow> Some (code_of r, Some rikey, s''))
           | _ \<Rightarrow> None)"

definition gs_quit_app :: "Env \<Rightarrow> unit act" where
  "gs_quit_app ev s =
     act_bind (request_or (\<lambda>e. e) ev (url4096 (host_url True (fst s) @ ''cancel?uniqueid='' @ unique_id))
                 HTTPRequestTimeoutMedium no_options) (\<lambda>data.
     act_bind (status_or_one ev data) (\<lambda>_.
     act_bind (search_or (\<lambda>e. e) ev data ''cancel'') (\<lambda>result.
     if result = ''0'' then act_fail GS_FAILED else act_return ()))) s"

section \<open>Clipboard\<close>

definition ApolloPermissionClipboardSet :: u32 where "ApolloPermissionClipboardSet = 0x00010000"
definition ApolloPermissionClipboardRead :: u32 where "ApolloPermissionClipboardRead = 0x00020000"
definition ApolloClipboardLimit :: nat where "ApolloClipboardLimit = 64 * 1024"

definition clipboard_url :: "SERVER_DATA \<Rightarrow> string" where
  "clipboard_url server = url4096 (host_url True server @ ''actions/clipboard?type=text'')"

text \<open>The second component is what is written to \<open>httpStatus\<close>, the third what is written to \<open>text\<close>.\<close>

definition gs_clipboard_get :: "Env \<Rightarrow> SERVER_DATA \<Rightarrow> World \<Rightarrow> (int \<times> int option \<times> string option) \<times> World" where
  "gs_clipboard_get ev server w =
     (if \<not> hc_clipboardSync (detectServerCapabilities server) then
        ((GS_NOT_SUPPORTED_4K, None, None), gs_set_error ''Clipboard is unsupported by this host'' w)
      else if sd_hasApolloPermissionField server \<and> sd_permission server AND ApolloPermissionClipboardRead = 0 then
        ((GS_WRONG_STATE, None, None), gs_set_error ''Apollo denied clipboard read permission'' w)
      else
        (case http_request ev (clipboard_url server) HTTPRequestTimeoutMedium
                (no_options\<lparr>ho_maxResponseBytes := ApolloClipboardLimit, ho_sensitive := True\<rparr>) w of
           (an, w) \<Rightarrow>
             if an_result an \<noteq> GS_OK then ((an_result an, Some (an_status an), None), w)
             else ((GS_OK, Some (an_status an), map_option string_of_bytes (an_data an)), w)))"

definition gs_clipboard_set :: "Env \<Rightarrow> SERVER_DATA \<Rightarrow> string \<Rightarrow> World \<Rightarrow> (int \<times> int option) \<times> World" where
  "gs_clipboard_set ev server content w =
     (if \<not> hc_clipboardSync (detectServerCapabilities server) then
        ((GS_NOT_SUPPORTED_4K, None), gs_set_error ''Clipboard is unsupported by this host'' w)
      else if length content > ApolloClipboardLimit then
        ((GS_INVALID, None), gs_set_error ''Clipboard text exceeds the 64 KiB limit'' w)
      else if sd_hasApolloPermissionField server \<and> sd_permission server AND ApolloPermissionClipboardSet = 0 then
        ((GS_WRONG_STATE, None), gs_set_error ''Apollo denied clipboard upload permission'' w)
      else
        (case http_request ev (clipboard_url server) HTTPRequestTimeoutMedium
                (no_options\<lparr>ho_method := Post, ho_body := content, ho_contentType := ''text/plain; charset=utf-8'',
                  ho_maxResponseBytes := 4096, ho_sensitive := True\<rparr>) w of
           (an, w) \<Rightarrow> ((an_result an, Some (an_status an)), w)))"

end
