(* ===== verification/GameStreamPairing.thy ===== *)
theory GameStreamPairing
  imports GameStreamClient
begin

text \<open>
  The pairing of \<open>app/src/libgamestream/client.cpp\<close> (\<open>gs_pair\<close> and its helpers), stage by stage, and what it guarantees.

  Every early return of \<open>gs_pair\<close> after its two guards goes through \<open>gs_pair_cleanup\<close>; the stages are therefore one
  operation that can give up, and the cleanup is applied to the code it ends with.
\<close>

section \<open>Helpers\<close>

text \<open>The code that \<open>gs_pair_validate\<close> returns; the value of \<open>paired\<close> is read and not compared.\<close>

definition gs_pair_validate :: "Env \<Rightarrow> bytes \<Rightarrow> int act" where
  "gs_pair_validate ev data =
     act_bind (status_act ev data) (\<lambda>res.
     if res \<noteq> GS_OK then act_return 1
     else act_bind (search_act ev data ''paired'') (\<lambda>(res, txt). act_return res))"

text \<open>\<open>(ret = gs_pair_validate(data, &result) != GS_OK)\<close>\<close>

definition validate_or_one :: "Env \<Rightarrow> bytes \<Rightarrow> unit act" where
  "validate_or_one ev data = act_bind (gs_pair_validate ev data) (\<lambda>ret. if ret \<noteq> GS_OK then act_fail 1 else act_return ())"

definition gs_pair_cleanup :: "Env \<Rightarrow> int \<Rightarrow> SERVER_DATA \<times> World \<Rightarrow> int \<times> SERVER_DATA \<times> World" where
  "gs_pair_cleanup ev ret s =
     (let (server, w) = s;
          (cancelled, w1) = isCancellationRequested ev w;
          w2 = (if ret \<noteq> GS_OK \<or> cancelled then snd (gs_unpair ev server w1) else w1)
      in if cancelled then (GS_CANCELLED, server\<lparr>sd_paired := False\<rparr>, gs_set_error ''Pairing cancelled'' w2)
         else (ret, server, w2))"

definition cancelled_or :: "Env \<Rightarrow> unit act" where
  "cancelled_or ev s =
     (case isCancellationRequested ev (snd s) of
        (cancelled, w) \<Rightarrow>
          if cancelled then Some (Inl GS_CANCELLED, fst s, gs_set_error ''Pairing cancelled'' w) else Some (Inr (), fst s, w))"

text \<open>The token is read again before the result of the request is looked at.\<close>

definition gs_pair_request :: "Env \<Rightarrow> string \<Rightarrow> bytes act" where
  "gs_pair_request ev url s =
     act_bind (cancelled_or ev) (\<lambda>_ s1.
       case http_request ev url HTTPRequestTimeoutLong (no_options\<lparr>ho_shares_token := True\<rparr>) (snd s1) of
         (an, w) \<Rightarrow>
           act_bind (cancelled_or ev) (\<lambda>_.
             if an_result an \<noteq> GS_OK then act_fail (an_result an)
             else act_return (case an_data an of Some d \<Rightarrow> d | None \<Rightarrow> [])) (fst s1, w)) s"

definition pair_url :: "bool \<Rightarrow> SERVER_DATA \<Rightarrow> string \<Rightarrow> string" where
  "pair_url https server query =
     url4096 (host_url https server @ ''pair?uniqueid='' @ unique_id @ ''&devicename=roth&updateState=1&'' @ query)"

definition hex_text :: "bytes \<Rightarrow> string" where
  "hex_text d = string_of_bytes (hex d)"

text \<open>A request of the pairing and the check of its answer.\<close>

definition pair_exchange :: "Env \<Rightarrow> bool \<Rightarrow> string \<Rightarrow> bytes act" where
  "pair_exchange ev https query s =
     act_bind (gs_pair_request ev (pair_url https (fst s) query)) (\<lambda>data.
     act_bind (validate_or_one ev data) (\<lambda>_. act_return data)) s"

section \<open>The five stages\<close>

definition server_key :: "Env \<Rightarrow> SERVER_DATA \<Rightarrow> bytes \<Rightarrow> bytes option" where
  "server_key ev server salted_pin =
     (if sd_serverMajorVersion server \<ge> 7 then create_AES_key_from_salt_SHA256 (ev_crypto ev) salted_pin
      else create_AES_key_from_salt_SHA1 (ev_crypto ev) salted_pin)"

definition hash_length :: "SERVER_DATA \<Rightarrow> nat" where
  "hash_length server = (if sd_serverMajorVersion server \<ge> 7 then 32 else 20)"

definition server_hash :: "Env \<Rightarrow> SERVER_DATA \<Rightarrow> bytes \<Rightarrow> bytes" where
  "server_hash ev server d =
     (if sd_serverMajorVersion server \<ge> 7 then pc_sha256 (ev_crypto ev) d else pc_sha1 (ev_crypto ev) d)"

definition stage1 :: "Env \<Rightarrow> bytes \<Rightarrow> (bytes \<times> bytes) act" where
  "stage1 ev pin =
     act_bind (draw_bytes ev 16) (\<lambda>salt.
     act_bind (pair_exchange ev False (''phrase=getservercert&salt='' @ hex_text salt @
                 ''&clientcert='' @ hex_text (pc_cert (ev_crypto ev)))) (\<lambda>data.
     act_bind (search_or (\<lambda>e. e) ev data ''plaincert'') (\<lambda>result.
     act_return (data_append salt pin, bytes_of_string result))))"

definition stage2 :: "Env \<Rightarrow> bytes \<Rightarrow> (bytes \<times> bytes \<times> string) act" where
  "stage2 ev salted_pin s =
     act_bind (act_option (server_key ev (fst s) salted_pin)) (\<lambda>aesKey.
     act_bind (draw_bytes ev 16) (\<lambda>randomChallenge.
     act_bind (pair_exchange ev False (''clientchallenge='' @ hex_text (aes_encrypt (ev_crypto ev) randomChallenge aesKey))) (\<lambda>data.
     act_bind (search_or (\<lambda>_. GS_INVALID) ev data ''challengeresponse'') (\<lambda>result.
     act_return (aesKey, randomChallenge, result))))) s"

definition stage3 :: "Env \<Rightarrow> bytes \<Rightarrow> string \<Rightarrow> (bytes \<times> string) act" where
  "stage3 ev aesKey response s =
     (let c = ev_crypto ev; server = fst s in
      act_bind (act_option (aes_decrypt c (hex_to_bytes (bytes_of_string response)) aesKey)) (\<lambda>decServerChallengeResp.
      act_bind (act_option (subdata 0 (hash_length server) decServerChallengeResp)) (\<lambda>serverResponse.
      act_bind (act_option (subdata (hash_length server) 16 decServerChallengeResp)) (\<lambda>serverChallenge.
      act_bind (draw_bytes ev 16) (\<lambda>clientSecret.
      act_bind (pair_exchange ev False (''serverchallengeresp='' @ hex_text (aes_encrypt c
          (server_hash ev server (data_append (data_append serverChallenge (pc_signature c (pc_cert c))) clientSecret)) aesKey)))
        (\<lambda>data.
      act_bind (search_or (\<lambda>_. GS_INVALID) ev data ''pairingsecret'') (\<lambda>result.
      act_return (clientSecret, result))))))) s)"

text \<open>
  The hash over the own challenge, the certificate of the server and its secret is computed and not used.
\<close>

definition stage4 :: "Env \<Rightarrow> bytes \<Rightarrow> bytes \<Rightarrow> bytes \<Rightarrow> string \<Rightarrow> unit act" where
  "stage4 ev plainCert randomChallenge clientSecret secretText s =
     (let c = ev_crypto ev; server = fst s; serverSecretResp = hex_to_bytes (bytes_of_string secretText) in
      act_bind (act_option (subdata 0 16 serverSecretResp)) (\<lambda>serverSecret.
      act_bind (act_option (subdata 16 256 serverSecretResp)) (\<lambda>serverSignature.
      if \<not> verify_signature serverSecret serverSignature (hex_to_bytes plainCert) then
        act_bind (act_error (Some ''MITM attack detected'')) (\<lambda>_. act_fail GS_FAILED)
      else
        let serverChallengeRespHash = server_hash ev server
              (data_append (data_append randomChallenge (pc_signature c (hex_to_bytes plainCert))) serverSecret) in
        act_bind (pair_exchange ev False (''clientpairingsecret='' @
            hex_text (data_append clientSecret (sign_data c clientSecret (pc_key c))))) (\<lambda>data.
        act_return ()))) s)"

definition stage5 :: "Env \<Rightarrow> unit act" where
  "stage5 ev =
     act_bind (pair_exchange ev True ''phrase=pairchallenge'') (\<lambda>data. act_update (sd_paired_update (\<lambda>_. True)))"

definition pair_stages :: "Env \<Rightarrow> string \<Rightarrow> unit act" where
  "pair_stages ev pin =
     act_bind (stage1 ev (bytes_of_string (c_str pin))) (\<lambda>(salted_pin, plainCert).
     act_bind (stage2 ev salted_pin) (\<lambda>(aesKey, randomChallenge, response).
     act_bind (stage3 ev aesKey response) (\<lambda>(clientSecret, secretText).
     act_bind (stage4 ev plainCert randomChallenge clientSecret secretText) (\<lambda>_.
     stage5 ev))))"

definition gs_pair :: "Env \<Rightarrow> string \<Rightarrow> SERVER_DATA \<times> World \<Rightarrow> (int \<times> SERVER_DATA \<times> World) option" where
  "gs_pair ev pin s =
     (if sd_paired (fst s) then Some (GS_WRONG_STATE, fst s, gs_set_error ''Already paired'' (snd s))
      else if sd_currentGame (fst s) \<noteq> 0 then
        Some (GS_WRONG_STATE, fst s,
          gs_set_error ''The computer is currently in a game. You must close the game before pairing'' (snd s))
      else case pair_stages ev pin s of
             None \<Rightarrow> None
           | Some (r, s') \<Rightarrow> Some (gs_pair_cleanup ev (code_of r) s'))"

end
