(* ===== verification/GameStreamClientCorrect.thy ===== *)
theory GameStreamClientCorrect
  imports GameStreamClient "HOL-Library.Code_Target_Nat"
begin

unbundle bit_operations_syntax

text \<open>
  What the operations of \<open>GameStreamClient\<close> guarantee: requests and their limits, what a successful start of a session has
  established, the guards of the clipboard, and the session address of a proxied session.
\<close>

section \<open>Operations that can give up\<close>

named_theorems keeps

lemma act_bind_return [simp]: "act_bind (act_return x) f = f x"
  by (simp add: act_bind_def act_return_def fun_eq_iff)

lemma act_bind_fail [simp]: "act_bind (act_fail e) f = act_fail e"
  by (simp add: act_bind_def act_fail_def fun_eq_iff)

lemma act_bind_InrE:
  assumes "act_bind m f s = Some (Inr y, s')"
  obtains x s1 where "m s = Some (Inr x, s1)" "f x s1 = Some (Inr y, s')"
  using assms by (auto simp: act_bind_def split: option.splits prod.splits sum.splits)

lemma act_bindE:
  assumes "act_bind m f s = Some (r, s')"
  obtains (stop) e where "m s = Some (Inl e, s')" "r = Inl e"
        | (go) x s1 where "m s = Some (Inr x, s1)" "f x s1 = Some (r, s')"
  using assms by (auto simp: act_bind_def split: option.splits prod.splits sum.splits)

lemma act_error_None [simp]: "act_error None = act_return ()"
  by (simp add: act_error_def act_return_def fun_eq_iff)

lemma act_bind_Inr: "m s = Some (Inr x, s1) \<Longrightarrow> act_bind m f s = f x s1"
  by (simp add: act_bind_def)

lemma act_update_iff [simp]: "act_update f s = Some (r, s') \<longleftrightarrow> r = Inr () \<and> s' = (f (fst s), snd s)"
  by (auto simp: act_update_def)

lemma act_return_iff [simp]: "act_return x s = Some (r, s') \<longleftrightarrow> r = Inr x \<and> s' = s"
  by (auto simp: act_return_def)

lemma act_fail_iff [simp]: "act_fail e s = Some (r, s') \<longleftrightarrow> r = Inl e \<and> s' = s"
  by (auto simp: act_fail_def)

lemma act_option_iff [simp]: "act_option x s = Some (r, s') \<longleftrightarrow> (\<exists>v. x = Some v \<and> r = Inr v \<and> s' = s)"
  by (auto simp: act_option_def split: option.splits)

text \<open>An operation keeps what \<open>view\<close> sees of the server, whatever its outcome.\<close>

definition act_keeps :: "(SERVER_DATA \<Rightarrow> 'v) \<Rightarrow> 'a act \<Rightarrow> bool" where
  "act_keeps view m = (\<forall>s r s'. m s = Some (r, s') \<longrightarrow> view (fst s') = view (fst s))"

lemma act_keepsD: "act_keeps view m \<Longrightarrow> m s = Some (r, s') \<Longrightarrow> view (fst s') = view (fst s)"
  unfolding act_keeps_def by blast

lemma keeps_bind [keeps]: "act_keeps view m \<Longrightarrow> (\<And>x. act_keeps view (f x)) \<Longrightarrow> act_keeps view (act_bind m f)"
  unfolding act_keeps_def by (metis act_bindE)

lemma keeps_return [keeps]: "act_keeps view (act_return x)"
  by (simp add: act_keeps_def)

lemma keeps_fail [keeps]: "act_keeps view (act_fail e)"
  by (simp add: act_keeps_def)

lemma keeps_option [keeps]: "act_keeps view (act_option x)"
  by (auto simp: act_keeps_def)

lemma keeps_error [keeps]: "act_keeps view (act_error e)"
  by (simp add: act_keeps_def act_error_def)

lemma keeps_update: "(\<And>server. view (f server) = view server) \<Longrightarrow> act_keeps view (act_update f)"
  by (simp add: act_keeps_def)

lemma keeps_if [keeps]: "act_keeps view m \<Longrightarrow> act_keeps view n \<Longrightarrow> act_keeps view (if b then m else n)"
  by simp

lemma keeps_request [keeps]: "act_keeps view (request_or f ev url timeout options)"
  by (auto simp: act_keeps_def request_or_def split: prod.splits if_splits)

lemma keeps_search [keeps]: "act_keeps view (search_act ev data node)"
  by (auto simp: search_act_def intro!: keeps split: prod.splits)

lemma keeps_search_or [keeps]: "act_keeps view (search_or f ev data node)"
  by (auto simp: search_or_def split_def intro!: keeps)

lemma keeps_search_int_or [keeps]: "act_keeps view (search_int_or c ev data node)"
  by (auto simp: search_int_or_def intro!: keeps split: prod.splits)

lemma keeps_status [keeps]: "act_keeps view (status_act ev data)"
  by (auto simp: status_act_def intro!: keeps split: prod.splits)

lemma keeps_draw [keeps]: "act_keeps view (draw_bytes ev n)"
  by (simp add: act_keeps_def draw_bytes_def Let_def)

lemma keeps_load_field: "(\<And>t server. view (store t server) = view server) \<Longrightarrow> act_keeps view (load_field ev data node store)"
  by (auto simp: load_field_def intro!: keeps keeps_update)

lemma keeps_load_optional: "(\<And>t server. view (store t server) = view server) \<Longrightarrow> act_keeps view (load_optional ev data node store)"
  by (auto simp: load_optional_def split_def intro!: keeps keeps_update split: option.splits)

text \<open>An operation gives up with a code that is not \<open>GS_OK\<close>.\<close>

named_theorems fails

definition act_fails :: "'a act \<Rightarrow> bool" where
  "act_fails m = (\<forall>s e s'. m s = Some (Inl e, s') \<longrightarrow> e \<noteq> GS_OK)"

lemma act_failsD: "act_fails m \<Longrightarrow> m s = Some (Inl e, s') \<Longrightarrow> e \<noteq> GS_OK"
  unfolding act_fails_def by blast

lemma fails_bind [fails]: "act_fails m \<Longrightarrow> (\<And>x. act_fails (f x)) \<Longrightarrow> act_fails (act_bind m f)"
  unfolding act_fails_def by (metis act_bindE sum.distinct(1) sum.sel(1))

lemma fails_return [fails]: "act_fails (act_return x)"
  by (simp add: act_fails_def)

lemma fails_fail: "e \<noteq> GS_OK \<Longrightarrow> act_fails (act_fail e)"
  by (simp add: act_fails_def)

lemma fails_fail_codes [fails]:
  "act_fails (act_fail GS_FAILED)" "act_fails (act_fail GS_INVALID)" "act_fails (act_fail GS_ERROR)" "act_fails (act_fail 1)"
  "act_fails (act_fail GS_NOT_SUPPORTED_4K)" "act_fails (act_fail GS_WRONG_STATE)"
  by (simp_all add: act_fails_def gs_codes)

lemma fails_option [fails]: "act_fails (act_option x)"
  by (simp add: act_fails_def)

lemma fails_error [fails]: "act_fails (act_error x)"
  by (simp add: act_fails_def act_error_def)

lemma fails_update [fails]: "act_fails (act_update f)"
  by (simp add: act_fails_def)

lemma fails_if [fails]: "act_fails m \<Longrightarrow> act_fails n \<Longrightarrow> act_fails (if b then m else n)"
  by simp

lemma fails_draw [fails]: "act_fails (draw_bytes ev n)"
  by (simp add: act_fails_def draw_bytes_def Let_def)

lemma fails_request [fails]: "act_fails (request_or (\<lambda>e. e) ev url timeout options)"
  by (auto simp: act_fails_def request_or_def split: prod.splits if_splits)

lemma fails_request_io [fails]: "act_fails (request_or (\<lambda>_. GS_IO_ERROR) ev url timeout options)"
  by (auto simp: act_fails_def request_or_def gs_codes split: prod.splits if_splits)

lemma fails_search [fails]: "act_fails (search_act ev data node)"
  by (auto simp: search_act_def intro!: fails split: prod.splits)

lemma fails_search_or [fails]: "act_fails (search_or (\<lambda>e. e) ev data node)"
  unfolding search_or_def split_def by (rule fails_bind [OF fails_search]) (simp add: fails_fail fails_return)

lemma fails_search_invalid [fails]: "act_fails (search_or (\<lambda>_. GS_INVALID) ev data node)"
  unfolding search_or_def split_def by (intro fails)

lemma fails_search_int [fails]: "act_fails (search_int_or GS_INVALID ev data node)"
  by (auto simp: search_int_or_def intro!: fails split: prod.splits)

lemma fails_status [fails]: "act_fails (status_act ev data)"
  by (auto simp: status_act_def intro!: fails split: prod.splits)

lemma fails_status_or_one [fails]: "act_fails (status_or_one ev data)"
  unfolding status_or_one_def by (intro fails)

section \<open>Requests\<close>

lemma receive_body_iff: "length mem \<le> limit \<Longrightarrow>
   receive_body limit cs mem = (if length mem + length (concat cs) \<le> limit then Some (mem @ concat cs) else None)"
  by (induction cs arbitrary: mem) (auto simp: write_curl_def)


lemma http_request_requests:
  "http_request ev url timeout options w = (an, w') \<Longrightarrow>
   w_requests w' = w_requests w @ [\<lparr>rq_url = url, rq_timeout = timeout, rq_options = options\<rparr>]"
  by (auto simp: http_request_def Let_def http_request_failed_def unless_suppressed_def gs_set_error_def
      isCancellationRequested_def split: CurlRun.splits option.splits if_splits prod.splits)

lemma gs_set_error_requests [simp]: "w_requests (gs_set_error e w) = w_requests w"
  by (simp add: gs_set_error_def)

section \<open>Clipboard\<close>

lemma clipboardSync_needs:
  "hc_clipboardSync (detectServerCapabilities server) \<Longrightarrow>
   isApollo server \<and> sd_hasApolloPermissionField server \<and>
   sd_permission server AND (ApolloPermissionClipboardSet OR ApolloPermissionClipboardRead) \<noteq> 0"
  by (simp add: isApollo_def detectServerCapabilities_def fromServerInfo_def Let_def clipboardSet_def clipboardRead_def
      ApolloPermissionClipboardSet_def ApolloPermissionClipboardRead_def split: if_splits)

lemma gs_clipboard_set_outcome:
  assumes "gs_clipboard_set ev server content w = ((ret, status), w')"
  shows "hc_clipboardSync (detectServerCapabilities server) \<and> length content \<le> ApolloClipboardLimit \<and>
           sd_permission server AND ApolloPermissionClipboardSet \<noteq> 0 \<and>
           w_requests w' = w_requests w @ [\<lparr>rq_url = clipboard_url server, rq_timeout = HTTPRequestTimeoutMedium,
             rq_options = no_options\<lparr>ho_method := Post, ho_body := content, ho_contentType := ''text/plain; charset=utf-8'',
                  ho_maxResponseBytes := 4096, ho_sensitive := True\<rparr>\<rparr>] \<or>
         ret \<noteq> GS_OK \<and> w_requests w' = w_requests w"
proof (cases "hc_clipboardSync (detectServerCapabilities server) \<and> length content \<le> ApolloClipboardLimit \<and>
    sd_permission server AND ApolloPermissionClipboardSet \<noteq> 0")
  case True
  then show ?thesis using assms
    by (auto simp: gs_clipboard_set_def dest!: http_request_requests split: prod.splits)
next
  case False
  have "sd_hasApolloPermissionField server" if "hc_clipboardSync (detectServerCapabilities server)"
    using clipboardSync_needs [OF that] by simp
  with False show ?thesis using assms by (auto simp: gs_clipboard_set_def gs_codes split: if_splits)
qed

text \<open>
  Clipboard text leaves the console only to a host of the Apollo family that advertised permissions and granted the upload, and only
  within the limit of 64 KiB; otherwise the operation reports an error and nothing is sent.
\<close>

theorem gs_clipboard_set_guarded:
  assumes "gs_clipboard_set ev server content w = ((ret, status), w')"
  shows "(w_requests w' = w_requests w \<and> ret \<noteq> GS_OK) \<or>
         (isApollo server \<and> sd_hasApolloPermissionField server \<and> sd_permission server AND ApolloPermissionClipboardSet \<noteq> 0 \<and>
          length content \<le> ApolloClipboardLimit \<and>
          (\<exists>rq. w_requests w' = w_requests w @ [rq] \<and> ho_body (rq_options rq) = content \<and> ho_sensitive (rq_options rq) \<and>
             rq_url rq = clipboard_url server))"
  using gs_clipboard_set_outcome [OF assms] clipboardSync_needs [of server] by (auto simp: no_options_def)

section \<open>Start of a session\<close>

text \<open>The part of the server that loading its information leaves alone.\<close>

definition address_view :: "SERVER_DATA \<Rightarrow> string \<times> string \<times> u16" where
  "address_view server = (sd_address server, si_address (sd_serverInfo server), sd_httpPort server)"

lemma keeps_finish: "act_keeps address_view (finish_serverinfo a b c d)"
  by (auto simp: act_keeps_def finish_serverinfo_def address_view_def store_serverinfo_def Let_def)

lemma keeps_commands: "act_keeps address_view (load_commands ev data)"
  by (auto simp: load_commands_def address_view_def intro!: keeps keeps_update split: prod.splits)

lemma address_view_simps:
  "sd_address (store_permission t server) = sd_address server"
  "sd_serverInfo (store_permission t server) = sd_serverInfo server"
  "sd_httpPort (store_permission t server) = sd_httpPort server"
  "sd_address (set_info f server) = sd_address server"
  "sd_serverInfo (set_info f server) = f (sd_serverInfo server)"
  "sd_httpPort (set_info f server) = sd_httpPort server"
  by (simp_all add: set_info_def store_permission_def split: option.split)

lemma keeps_codec: "act_keeps address_view (act_bind (search_int_or c ev data node) (\<lambda>v. act_update (set_info (si_serverCodecModeSupport_update (\<lambda>_. v)))))"
  by (intro keeps_bind keeps_search_int_or keeps_update) (simp add: address_view_def address_view_simps)

lemma keeps_load_answer: "act_keeps address_view (load_answer ev data)"
  unfolding load_answer_def Let_def
  by (rule keeps_bind, (rule keeps_search_or keeps_commands keeps_codec | (rule keeps_load_field keeps_load_optional, simp add: address_view_def address_view_simps)))+
     (rule keeps_finish)

lemma keeps_load_serverinfo: "act_keeps address_view (load_serverinfo ev https)"
proof -
  have "act_keeps address_view (act_bind (request_or f ev url timeout options) (\<lambda>data.
      act_bind (status_act ev data) (\<lambda>res. if res = GS_ERROR then act_fail GS_ERROR else load_answer ev data)))" for f url timeout options
    by (intro keeps keeps_load_answer)
  then show ?thesis unfolding act_keeps_def load_serverinfo_def Let_def by blast
qed

text \<open>What a server looks like after its information has been loaded.\<close>

definition loaded :: "SERVER_DATA \<Rightarrow> bool" where
  "loaded server \<longleftrightarrow> sd_httpsPort server \<noteq> 0 \<and> sd_serverInfoAppVersion server \<noteq> [] \<and>
     sd_serverMajorVersion server = atoi (sd_serverInfoAppVersion server) \<and>
     (sd_supports4K server \<longleftrightarrow> si_serverCodecModeSupport (sd_serverInfo server) \<noteq> 0)"

lemma finish_loaded: "finish_serverinfo a b c d s = Some (Inr (), s') \<Longrightarrow> loaded (fst s')"
  by (auto simp: finish_serverinfo_def store_serverinfo_def loaded_def Let_def split: if_splits)

lemma load_answer_loaded: "load_answer ev data s = Some (Inr (), s') \<Longrightarrow> loaded (fst s')"
  unfolding load_answer_def Let_def by (elim act_bind_InrE) (rule finish_loaded)

lemma load_serverinfo_loaded: "load_serverinfo ev https s = Some (Inr (), s') \<Longrightarrow> loaded (fst s')"
  unfolding load_serverinfo_def Let_def by (elim act_bind_InrE) (auto split: if_splits dest: load_answer_loaded)

lemma twice_loaded: "load_serverinfo_twice ev s = Some (Inr (), s') \<Longrightarrow> loaded (fst s')"
  by (auto simp: load_serverinfo_twice_def dest: load_serverinfo_loaded split: option.splits prod.splits sum.splits if_splits)

lemma keeps_twice: "act_keeps address_view (load_serverinfo_twice ev)"
  unfolding act_keeps_def
proof (intro allI impI)
  fix s r s'
  assume *: "load_serverinfo_twice ev s = Some (r, s')"
  note k = act_keepsD [OF keeps_load_serverinfo]
  show "address_view (fst s') = address_view (fst s)"
  proof (cases "load_serverinfo ev True s")
    case (Some a)
    then obtain q s1 where a: "load_serverinfo ev True s = Some (q, s1)" by (cases a) auto
    show ?thesis
    proof (cases q)
      case (Inl e)
      with * a k [OF a] show ?thesis by (auto simp: load_serverinfo_twice_def dest: k split: if_splits)
    next
      case (Inr u)
      with * a k [OF a] show ?thesis by (simp add: load_serverinfo_twice_def)
    qed
  qed (use * in \<open>simp add: load_serverinfo_twice_def\<close>)
qed

lemma keeps_version_supported: "act_keeps view version_supported"
  by (auto simp: act_keeps_def version_supported_def Let_def split: if_splits)

lemma version_supported_ok: "version_supported s = Some (Inr (), s') \<longleftrightarrow>
   s' = s \<and> MIN_SUPPORTED_GFE_VERSION \<le> sd_serverMajorVersion (fst s) \<and> sd_serverMajorVersion (fst s) \<le> MAX_SUPPORTED_GFE_VERSION"
  by (auto simp: version_supported_def Let_def)

lemma keeps_load_server_status: "act_keeps address_view (load_server_status ev)"
proof -
  have "act_keeps address_view (act_bind (if b then load_serverinfo ev False else act_return ())
      (\<lambda>_. act_bind (load_serverinfo_twice ev) (\<lambda>_. version_supported)))" for b
    by (intro keeps keeps_load_serverinfo keeps_twice keeps_version_supported)
  then show ?thesis unfolding act_keeps_def load_server_status_def by blast
qed

lemma load_server_status_ok:
  assumes "load_server_status ev s = Some (Inr (), s')"
  shows "loaded (fst s')" "MIN_SUPPORTED_GFE_VERSION \<le> sd_serverMajorVersion (fst s')"
    "sd_serverMajorVersion (fst s') \<le> MAX_SUPPORTED_GFE_VERSION"
  using assms unfolding load_server_status_def
  by (auto elim!: act_bind_InrE dest: twice_loaded simp: version_supported_ok)

lemma identity_kind [simp]: "id_kind (identityFor kind) = kind"
  by (simp add: identityFor_def)

lemma detect_known: "hc_kind (detect md) \<noteq> Unknown"
  by (simp add: detect_def Let_def server_defs standardSunshine_def default_capabilities_def)

lemma getProbe_world: "getProbe ev url w = (b, w') \<Longrightarrow> w_error w' = w_error w"
  unfolding getProbe_def Let_def probe_options_def
  by (auto simp: http_request_def Let_def http_request_failed_def unless_suppressed_def isCancellationRequested_def
      split: CurlRun.splits option.splits if_splits prod.splits)

lemma probed_known: "probeHostIdentity ev address hint w = (Some p, w') \<Longrightarrow> id_kind p \<in> {Vibeshine, Punktfunk}"
  by (auto simp: probeHostIdentity_def probePunktfunkIdentity_def parsePunktfunkHealth_def parseVibeshineWebUi_def Let_def
      split: if_splits prod.splits option.splits Option.bind_splits)

lemma host_identity_ok:
  assumes "host_identity ev s = Some (r, s')"
  shows "r = Inr ()" "address_view (fst s') = address_view (fst s)" "loaded (fst s) \<Longrightarrow> loaded (fst s')"
    "sd_serverMajorVersion (fst s') = sd_serverMajorVersion (fst s)" "id_kind (sd_hostIdentity (fst s')) \<noteq> Unknown"
  using assms detect_known [of "metadataFromServerData (fst s)"]
  by (auto simp: host_identity_def Let_def address_view_def loaded_def dest: probed_known split: prod.splits if_splits option.splits)

lemma fails_load_answer: "act_fails (load_answer ev data)"
proof -
  have f: "act_fails (finish_serverinfo a b c d)" for a b c d
    by (simp add: act_fails_def finish_serverinfo_def gs_codes)
  have l: "act_fails (load_field ev data node store)" for node store
    unfolding load_field_def by (intro fails)
  have o1: "act_fails (load_optional ev data node store)" for node store
    unfolding load_optional_def split_def by (auto intro!: fails split: option.split)
  have c: "act_fails (load_commands ev data)"
    unfolding load_commands_def by (auto intro!: fails split: prod.split)
  show ?thesis unfolding load_answer_def Let_def by (intro fails f l o1 c)
qed

lemma fails_load_serverinfo: "act_fails (load_serverinfo ev https)"
proof -
  have "act_fails (act_bind (request_or (\<lambda>_. GS_IO_ERROR) ev url timeout options) (\<lambda>data.
      act_bind (status_act ev data) (\<lambda>res. if res = GS_ERROR then act_fail GS_ERROR else load_answer ev data)))" for url timeout options
    by (intro fails fails_load_answer)
  then show ?thesis unfolding act_fails_def load_serverinfo_def Let_def by blast
qed

lemma fails_load_server_status: "act_fails (load_server_status ev)"
proof -
  have t: "act_fails (load_serverinfo_twice ev)"
    unfolding act_fails_def load_serverinfo_twice_def
    by (auto split: option.splits prod.splits sum.splits if_splits dest: act_failsD [OF fails_load_serverinfo])
  have v: "act_fails version_supported"
    by (auto simp: act_fails_def version_supported_def Let_def gs_codes split: if_splits)
  have "act_fails (act_bind (if b then load_serverinfo ev False else act_return ())
      (\<lambda>_. act_bind (load_serverinfo_twice ev) (\<lambda>_. version_supported)))" for b
    by (intro fails fails_load_serverinfo t v)
  then show ?thesis unfolding act_fails_def load_server_status_def by blast
qed

lemma gs_init_ok:
  assumes "gs_init ev address (server, w) = Some (GS_OK, server', w')"
  obtains server2 where "server' = publish_versions server2" "loaded server2" "id_kind (sd_hostIdentity server2) \<noteq> Unknown"
    "MIN_SUPPORTED_GFE_VERSION \<le> sd_serverMajorVersion server2" "sd_serverMajorVersion server2 \<le> MAX_SUPPORTED_GFE_VERSION"
    "pa_host (parse_host_address address) \<noteq> []"
    "address_view server2 = (pa_host (parse_host_address address), pa_host (parse_host_address address),
       case pa_port (parse_host_address address) of Some p \<Rightarrow> p | None \<Rightarrow> 47989)"
proof -
  let ?p = "parse_host_address address"
  define server1 where "server1 = server\<lparr>sd_address := pa_host ?p,
      sd_serverInfo := (ev_LiInitializeServerInformation ev)\<lparr>si_address := pa_host ?p\<rparr>,
      sd_httpPort := (case pa_port ?p of Some p \<Rightarrow> p | None \<Rightarrow> 47989), sd_httpsPort := 0\<rparr>"
  from assms obtain r server2 where ne: "pa_host ?p \<noteq> []"
    and run: "act_bind (load_server_status ev) (\<lambda>_. host_identity ev) (server1, w) = Some (r, server2, w')"
    and out: "code_of r = GS_OK" "server' = publish_versions server2"
    by (auto simp: gs_init_def Let_def server1_def gs_codes split: if_splits option.splits)
  from run obtain s1 where load: "load_server_status ev (server1, w) = Some (Inr (), s1)" and id: "host_identity ev s1 = Some (r, server2, w')"
    by (cases rule: act_bindE) (use out(1) act_failsD [OF fails_load_server_status] in auto)
  note l = load_server_status_ok [OF load] and k = act_keepsD [OF keeps_load_server_status load] and i = host_identity_ok [OF id]
  show ?thesis by (rule that [OF out(2)]) (use l k i ne in \<open>simp_all add: address_view_def server1_def\<close>)
qed

text \<open>
  C10: when the start of a session with a host reports success, the server record is complete: it has the host and port of the entered
  address (47989 without one), an HTTPS port, a version the client supports, the 4K flag the host's codecs allow, and a known product.
\<close>

theorem gs_init_established:
  assumes "gs_init ev address (server, w) = Some (GS_OK, server', w')"
  shows "sd_address server' = pa_host (parse_host_address address) \<and> sd_address server' \<noteq> [] \<and>
         si_address (sd_serverInfo server') = sd_address server' \<and>
         sd_httpPort server' = (case pa_port (parse_host_address address) of Some p \<Rightarrow> p | None \<Rightarrow> 47989) \<and>
         sd_httpsPort server' \<noteq> 0 \<and>
         sd_serverMajorVersion server' = atoi (sd_serverInfoAppVersion server') \<and>
         3 \<le> sd_serverMajorVersion server' \<and> sd_serverMajorVersion server' \<le> 7 \<and>
         (sd_supports4K server' \<longleftrightarrow> si_serverCodecModeSupport (sd_serverInfo server') \<noteq> 0) \<and>
         si_serverInfoAppVersion (sd_serverInfo server') = c_str (sd_serverInfoAppVersion server') \<and>
         id_kind (sd_hostIdentity server') \<noteq> Unknown"
  by (rule gs_init_ok [OF assms])
     (simp add: publish_versions_def set_info_def loaded_def address_view_def MIN_SUPPORTED_GFE_VERSION_def MAX_SUPPORTED_GFE_VERSION_def)

section \<open>Launch of an application\<close>

lemma find_str_prefix: "find_str p s = Some i \<Longrightarrow> p \<noteq> [] \<Longrightarrow> find_str p (take (i + length p) s @ t) = Some i"
proof (induction s arbitrary: i)
  case (Cons x xs)
  show ?case
  proof (cases "take (length p) (x # xs) = p")
    case True
    with Cons.prems have i: "i = 0" by simp
    have "take (length p) (take (length p) (x # xs) @ t) = p" using True by (metis append_same_eq append_take_drop_id take_all_iff take_take length_take min.idem nat_le_linear take_append diff_self_eq_0 take_0 append_Nil2)
    with i True Cons.prems(2) show ?thesis by (cases p) auto
  next
    case False
    with Cons.prems obtain j where j: "find_str p xs = Some j" "i = Suc j" by auto
    have ne: "take (length p) (x # take (j + length p) xs @ t) \<noteq> p"
      using False find_str_SomeD [OF j(1)] Cons.prems(2) by (cases p) (auto simp: take_append min_def)
    show ?thesis using Cons.IH [OF j(1) Cons.prems(2)] j ne by simp
  qed
qed simp

text \<open>The host of an address with a scheme.\<close>

definition url_host :: "string \<Rightarrow> string" where
  "url_host url = (case find_str ''://'' url of None \<Rightarrow> []
     | Some i \<Rightarrow> takeWhile (\<lambda>c. c \<noteq> CHR '':'' \<and> c \<noteq> CHR ''/'') (drop (i + 3) url))"

definition url_rest :: "string \<Rightarrow> string" where
  "url_rest url = (case find_str ''://'' url of None \<Rightarrow> []
     | Some i \<Rightarrow> dropWhile (\<lambda>c. c \<noteq> CHR '':'' \<and> c \<noteq> CHR ''/'') (drop (i + 3) url))"

lemma takeWhile_host: "takeWhile (\<lambda>c. c \<noteq> CHR '':'' \<and> c \<noteq> CHR ''/'') (''127.0.0.1'' @ dropWhile (\<lambda>c. c \<noteq> CHR '':'' \<and> c \<noteq> CHR ''/'') xs) = ''127.0.0.1''"
  by (induction xs) auto

lemma dropWhile_host: "dropWhile (\<lambda>c. c \<noteq> CHR '':'' \<and> c \<noteq> CHR ''/'') (''127.0.0.1'' @ dropWhile (\<lambda>c. c \<noteq> CHR '':'' \<and> c \<noteq> CHR ''/'') xs)
   = dropWhile (\<lambda>c. c \<noteq> CHR '':'' \<and> c \<noteq> CHR ''/'') xs"
  by (induction xs) auto

lemma rewrite_host:
  assumes "find_str ''://'' url = Some i"
  shows "find_str ''://'' (rewrite_rtsp_host_to_loopback url) = Some i"
    "take (i + 3) (rewrite_rtsp_host_to_loopback url) = take (i + 3) url"
    "url_host (rewrite_rtsp_host_to_loopback url) = ''127.0.0.1''" "url_rest (rewrite_rtsp_host_to_loopback url) = url_rest url"
proof -
  let ?r = "''127.0.0.1'' @ dropWhile (\<lambda>c. c \<noteq> CHR '':'' \<and> c \<noteq> CHR ''/'') (drop (i + 3) url)"
  have r: "rewrite_rtsp_host_to_loopback url = take (i + 3) url @ ?r"
    using assms by (simp add: rewrite_rtsp_host_to_loopback_def Let_def)
  have l3: "length ''://'' = 3" by simp
  have len: "length (take (i + 3) url) = i + 3" using find_str_SomeD [OF assms] by simp
  show f: "find_str ''://'' (rewrite_rtsp_host_to_loopback url) = Some i"
    unfolding r using find_str_prefix [OF assms, of ?r] by (simp only: l3) simp
  show "take (i + 3) (rewrite_rtsp_host_to_loopback url) = take (i + 3) url"
    unfolding r using len by (simp only: take_append) simp
  have d: "drop (i + 3) (rewrite_rtsp_host_to_loopback url) = ?r"
    unfolding r using len by (simp only: drop_append) simp
  show "url_host (rewrite_rtsp_host_to_loopback url) = ''127.0.0.1''"
    unfolding url_host_def by (simp only: f option.case d takeWhile_host)
  show "url_rest (rewrite_rtsp_host_to_loopback url) = url_rest url"
    unfolding url_rest_def by (simp only: f assms option.case d dropWhile_host)
qed

text \<open>A document that was searched once without error can be searched again.\<close>

lemma search_again: "search_or f ev data node s = Some (Inr t, s') \<Longrightarrow> \<exists>txt. search_act ev data node' s'' = Some (Inr (GS_OK, Some txt), s'')"
  by (auto simp: search_or_def search_act_def xml_search_def gs_codes act_error_def act_bind_def act_return_def
      split: prod.splits option.splits)

lemma store_session_url_ok:
  assumes "search_or f ev data node s0 = Some (Inr t, s0')" "store_session_url ev data s = Some (Inr u, s')"
  shows "\<exists>url. fst s' = set_info (si_rtspSessionUrl_update (\<lambda>_. Some (if is_proxied_session (fst s)
           then rewrite_rtsp_host_to_loopback url else url))) (fst s)"
proof -
  obtain found where "search_act ev data ''sessionUrl0'' s = Some (Inr (GS_OK, Some found), s)" using search_again [OF assms(1)] by blast
  with assms(2) show ?thesis by (auto simp: store_session_url_def act_bind_Inr)
qed

lemma start_request_ok:
  assumes "start_request ev config appId sops localaudio gamepad_mask apolloOptions rikey s = Some (Inr (), s')"
  shows "\<exists>url. fst s' = set_info (si_rtspSessionUrl_update (\<lambda>_. Some (if is_proxied_session (fst s)
           then rewrite_rtsp_host_to_loopback url else url))) ((fst s)\<lparr>sd_currentGame := appId\<rparr>)"
proof -
  have lk: "act_keeps id (launch_options apolloOptions)"
    by (auto simp: act_keeps_def launch_options_def Let_def act_bind_def act_error_def split: option.splits if_splits)
  have sk: "act_keeps id (status_or_one ev data)" for data
    unfolding status_or_one_def by (intro keeps)
  obtain q s1 data s2 s3 s4 t s5 where
    1: "launch_options apolloOptions s = Some (Inr q, s1)" and
    2: "request_or (\<lambda>e. e) ev (url4096 (launch_url ev (fst s) config appId sops localaudio gamepad_mask rikey q))
          HTTPRequestTimeoutLong no_options s1 = Some (Inr data, s2)" and
    3: "s3 = ((fst s2)\<lparr>sd_currentGame := appId\<rparr>, snd s2)" and 4: "status_or_one ev data s3 = Some (Inr (), s4)" and
    5: "search_or (\<lambda>e. e) ev data ''gamesession'' s4 = Some (Inr t, s5)" and
    6: "store_session_url ev data s5 = Some (Inr (), s')"
    using assms unfolding start_request_def by (auto elim!: act_bind_InrE split: if_splits)
  have eq: "fst s5 = (fst s)\<lparr>sd_currentGame := appId\<rparr>"
    using act_keepsD [OF lk 1] act_keepsD [OF keeps_request [where view = id] 2] 3 act_keepsD [OF sk 4]
      act_keepsD [OF keeps_search_or [where view = id] 5] by simp
  have "is_proxied_session (fst s5) = is_proxied_session (fst s)" by (simp add: eq is_proxied_session_def)
  with store_session_url_ok [OF 5 6] eq show ?thesis by simp
qed

lemma gs_start_app_ok:
  assumes "gs_start_app ev config appId sops localaudio gamepad_mask apolloOptions (server, w) = Some (GS_OK, rikey, server', w')"
    and "is_proxied_session server"
  shows "\<exists>url. server' = set_info (si_rtspSessionUrl_update (\<lambda>_. Some (rewrite_rtsp_host_to_loopback url))) (server\<lparr>sd_currentGame := appId\<rparr>)"
proof -
  have f: "act_fails (start_request ev config appId sops localaudio gamepad_mask apolloOptions k)" for k
  proof -
    have lo: "act_fails (launch_options apolloOptions)"
      unfolding act_fails_def launch_options_def Let_def
      by (auto simp: act_bind_def act_error_def gs_codes split: option.splits if_splits)
    have st: "act_fails (store_session_url ev data)" for data
      unfolding act_fails_def store_session_url_def
      by (auto elim!: act_bindE dest: act_failsD [OF fails_search] split: option.splits if_splits)
    show ?thesis unfolding act_fails_def [of "start_request a b c d e f g h" for a b c d e f g h] start_request_def
      by (intro allI impI, erule act_failsD [rotated]) (intro fails lo st)
  qed
  from assms(1) obtain k r w1 where
    run: "start_request ev config appId sops localaudio gamepad_mask apolloOptions k (server, w1) = Some (r, server', w')" and r: "code_of r = GS_OK"
    by (auto simp: gs_start_app_def draw_bytes_def Let_def gs_codes split: if_splits option.splits)
  have "r = Inr ()" using r run by (cases r) (auto dest: act_failsD [OF f])
  then show ?thesis using start_request_ok run assms(2) by fastforce
qed

lemma rewritten_url:
  "case find_str ''://'' url of
     None \<Rightarrow> rewrite_rtsp_host_to_loopback url = url
   | Some i \<Rightarrow> url_host (rewrite_rtsp_host_to_loopback url) = ''127.0.0.1'' \<and>
       take (i + 3) (rewrite_rtsp_host_to_loopback url) = take (i + 3) url \<and> url_rest (rewrite_rtsp_host_to_loopback url) = url_rest url"
  using rewrite_host [of url] by (auto simp: rewrite_rtsp_host_to_loopback_def split: option.split)


section \<open>An environment\<close>

definition element :: "string \<times> string \<Rightarrow> xml_event list" where
  "element f = [StartElement (fst f) [], CharData (snd f), EndElement (fst f)]"

definition answer_events :: "(string \<times> string) list \<Rightarrow> xml_event list" where
  "answer_events fs = StartElement ''root'' [(''status_code'', ''200'')] # concat (map element fs) @ [EndElement ''root'']"

text \<open>All text of the elements with a name; what \<open>xml_search\<close> finds in such an answer.\<close>

definition field :: "(string \<times> string) list \<Rightarrow> string \<Rightarrow> string" where
  "field fs node = concat (map snd (filter (\<lambda>f. fst f = node) fs))"

lemma search_elements:
  "xq_start q = 0 \<Longrightarrow> fold (search_event node) (concat (map element fs)) q = q\<lparr>xq_memory := xq_memory q @ field fs node\<rparr>"
  by (induction fs arbitrary: q) (simp_all add: element_def field_def)

lemma xml_search_answer:
  assumes "expat data = (answer_events fs, None)" "node \<noteq> ''root''"
  shows "xml_search expat data node = (GS_OK, Some (c_str (field fs node)), None)"
  using assms by (simp add: xml_search_def answer_events_def search_elements)

lemma status_elements: "fold status_event (concat (map element fs)) st = st"
  by (induction fs) (simp_all add: element_def)

lemma xml_status_answer: "expat data = (answer_events fs, None) \<Longrightarrow> xml_status expat data = (GS_OK, None)"
  by (simp add: xml_status_def answer_events_def status_elements atoi_def strtol_def strtol_digits_def Let_def
      isspace_def isdigit_def dec_value_def clamp_long_def int_of_long_def)

lemma search_act_answer:
  assumes "ev_expat ev data = (answer_events fs, None)" "node \<noteq> ''root''"
  shows "search_act ev data node = act_return (GS_OK, Some (c_str (field fs node)))"
  using xml_search_answer [of "ev_expat ev", OF assms] by (simp add: search_act_def act_error_def act_bind_def act_return_def fun_eq_iff)

lemma search_or_answer:
  assumes "ev_expat ev data = (answer_events fs, None)" "node \<noteq> ''root''"
  shows "search_or f ev data node = act_return (c_str (field fs node))"
  by (simp add: search_or_def search_act_answer [OF assms])

lemma status_act_answer:
  assumes "ev_expat ev data = (answer_events fs, None)"
  shows "status_act ev data = act_return GS_OK"
  using xml_status_answer [of "ev_expat ev", OF assms] by (simp add: status_act_def act_error_def act_bind_def act_return_def fun_eq_iff)

definition example_fields :: "(string \<times> string) list" where
  "example_fields = [(''currentgame'', ''0''), (''PairStatus'', ''1''), (''appversion'', ''7.1.431.-1''), (''state'', ''SERVER_FREE''),
     (''ServerCodecModeSupport'', ''259''), (''HttpsPort'', ''47984''), (''gamesession'', ''1''),
     (''sessionUrl0'', ''rtsp://192.168.1.20:48010''), (''Permission'', ''0x30000'')]"

definition example_crypto :: PairCrypto where
  "example_crypto = \<lparr>pc_sha1 = (\<lambda>_. replicate 20 1), pc_sha256 = (\<lambda>_. replicate 32 2), pc_aes_enc = (\<lambda>_ b. b), pc_aes_dec = (\<lambda>_ b. b),
     pc_signature = (\<lambda>_. [3]), pc_pk_sign = (\<lambda>_ _. [4]), pc_cert = [5], pc_key = [6]\<rparr>"

definition example_env :: Env where
  "example_env = \<lparr>ev_curl = (\<lambda>_. Performed \<lparr>tf_status = 200, tf_chunks = [[60], [62]], tf_failure = None\<rparr>),
     ev_cancelled = (\<lambda>_. False), ev_time = (\<lambda>_. 0), ev_rand = (\<lambda>_ i. i), ev_expat = (\<lambda>_. (answer_events example_fields, None)),
     ev_crypto = example_crypto, ev_load_cert_key_pair = True, ev_generate_new_cert_key_pair = True,
     ev_LiGetLaunchUrlQueryParameters = [],
     ev_LiInitializeServerInformation = \<lparr>si_address = [], si_serverInfoAppVersion = [], si_serverInfoGfeVersion = [],
       si_rtspSessionUrl = None, si_serverCodecModeSupport = 0\<rparr>,
     ev_AUDIO_CONFIGURATION_STEREO = 0x302CA\<rparr>"

definition example_world :: World where
  "example_world = \<lparr>w_requests = [], w_error = [], w_reads = 0, w_draws = 0\<rparr>"

definition example_server :: SERVER_DATA where
  "example_server = \<lparr>sd_address = ''127.0.0.1'', sd_serverInfoAppVersion = [], sd_serverInfoGfeVersion = [], sd_mac = [], sd_gpuType = [],
     sd_paired = False, sd_supports4K = False, sd_currentGame = 0, sd_currentGameUuid = [], sd_serverMajorVersion = 7, sd_gsVersion = [],
     sd_hostname = [],
     sd_serverInfo = \<lparr>si_address = ''127.0.0.1'', si_serverInfoAppVersion = [], si_serverInfoGfeVersion = [],
       si_rtspSessionUrl = None, si_serverCodecModeSupport = 0\<rparr>,
     sd_httpPort = 47989, sd_httpsPort = 47984, sd_virtualDisplayCapable = False, sd_virtualDisplayDriverReady = False,
     sd_permission = 0, sd_hasApolloPermissionField = False, sd_serverCommands = [], sd_hostIdentity = identityFor Unknown\<rparr>"

definition example_config :: STREAM_CONFIGURATION where
  "example_config = \<lparr>sc_width = 1280, sc_height = 720, sc_fps = 60, sc_clientRefreshRateX100 = 0, sc_audioConfiguration = 0x302CA\<rparr>"


theorem gs_clipboard_set_guarded_witness:
  "isApollo (example_server\<lparr>sd_permission := 0x00010000, sd_hasApolloPermissionField := True\<rparr>)"
proof -
  let ?s = "example_server\<lparr>sd_permission := 0x00010000, sd_hasApolloPermissionField := True\<rparr>"
  obtain r st w' where r: "gs_clipboard_set example_env ?s ''text'' example_world = ((r, st), w')" by (metis surj_pair)
  have "w_requests (snd (gs_clipboard_set example_env ?s ''text'' example_world)) \<noteq> []" by code_simp
  then have "w_requests w' \<noteq> w_requests example_world" using r by (simp add: example_world_def)
  with gs_clipboard_set_guarded [OF r] show ?thesis by blast
qed

lemma example_request:
  "http_request example_env url timeout options w = (if ho_maxResponseBytes options < 2 then http_request example_env url timeout options w
   else (\<lparr>an_result = GS_OK, an_data = Some [60, 62], an_status = 200, an_tooLarge = False\<rparr>,
         w\<lparr>w_requests := w_requests w @ [\<lparr>rq_url = url, rq_timeout = timeout, rq_options = options\<rparr>]\<rparr>))"
  by (simp add: http_request_def Let_def example_env_def receive_body_iff del: receive_body.simps)

lemma act_bind_update: "act_bind (act_update f) g s = g () (f (fst s), snd s)"
  by (simp add: act_bind_def act_update_def)

lemma example_load:
  "\<exists>server'. load_serverinfo example_env https s = Some (Inr (), server',
     (snd s)\<lparr>w_requests := w_requests (snd s) @ [\<lparr>rq_url = url4096 (host_url https (fst s) @ ''serverinfo?uniqueid='' @ unique_id),
        rq_timeout = (if is_proxied_session (fst s) then HTTPRequestTimeoutLong else HTTPRequestTimeoutLow), rq_options = no_options\<rparr>]\<rparr>) \<and>
     sd_serverMajorVersion server' = 7"
proof -
  have e: "ev_expat example_env data = (answer_events example_fields, None)" for data by (simp add: example_env_def)
  note a = search_act_answer [OF e] search_or_answer [OF e] status_act_answer [OF e]
  have int: "search_int_or c example_env data ''ServerCodecModeSupport'' = act_return 259" for c data
  proof -
    have "xml_search_int (ev_expat example_env) data ''ServerCodecModeSupport'' = (GS_OK, Some 259, None)" by code_simp
    then show ?thesis by (simp add: search_int_or_def act_error_def act_bind_def act_return_def fun_eq_iff)
  qed
  have f: "c_str (field example_fields ''currentgame'') = ''0''" "c_str (field example_fields ''PairStatus'') = ''1''"
    "c_str (field example_fields ''appversion'') = ''7.1.431.-1''" "c_str (field example_fields ''state'') = ''SERVER_FREE''"
    "c_str (field example_fields ''Permission'') = ''0x30000''" by code_simp+
  have v: "atoi ''7.1.431.-1'' = 7" "stoul0 ''0x30000'' = Some 0x30000" by code_simp+
  have r: "request_or g example_env url t no_options s = Some (Inr [60, 62], fst s, (snd s)\<lparr>w_requests := w_requests (snd s) @
      [\<lparr>rq_url = url, rq_timeout = t, rq_options = no_options\<rparr>]\<rparr>)" for g url t
    by (subst request_or_def, subst example_request) (simp add: no_options_def)
  have c: "load_commands example_env data = act_bind (act_error None) (\<lambda>_. act_update (sd_serverCommands_update (\<lambda>_. [])))" for data
  proof -
    have "xml_search_all (ev_expat example_env) data ''ServerCommand'' = (GS_OK, [], None)" by code_simp
    then show ?thesis by (simp add: load_commands_def)
  qed
  show ?thesis
    unfolding load_serverinfo_def Let_def
    by (subst act_bind_Inr, rule r) (simp add: a load_answer_def Let_def int load_field_def load_optional_def act_bind_update c f
        finish_serverinfo_def store_serverinfo_def v gs_codes store_permission_def set_info_def)
qed

lemma example_init:
  assumes "pa_host (parse_host_address address) \<noteq> []"
  shows "\<exists>server' w'. gs_init example_env address (server, w) = Some (GS_OK, server', w')"
proof -
  have load: "\<exists>s'. load_serverinfo example_env https s = Some (Inr (), s') \<and> sd_serverMajorVersion (fst s') = 7" for https s
    using example_load [of https s] by auto
  have status: "\<exists>s'. load_server_status example_env s = Some (Inr (), s')" for s
  proof -
    obtain s1 where 1: "(if sd_httpsPort (fst s) = 0 then load_serverinfo example_env False else act_return ()) s = Some (Inr (), s1)"
      using load [of False s] by (cases "sd_httpsPort (fst s) = 0") (auto simp: act_return_def)
    obtain s2 where 2: "load_serverinfo example_env True s1 = Some (Inr (), s2)" "sd_serverMajorVersion (fst s2) = 7" using load by blast
    have 3: "act_bind (load_serverinfo_twice example_env) (\<lambda>_. version_supported) s1 = Some (Inr (), s2)"
      using 2 by (simp add: act_bind_def load_serverinfo_twice_def version_supported_def MIN_SUPPORTED_GFE_VERSION_def MAX_SUPPORTED_GFE_VERSION_def)
    show ?thesis unfolding load_server_status_def by (subst act_bind_Inr, rule 1) (use 3 in blast)
  qed
  have "\<exists>s'. host_identity example_env s = Some (Inr (), s')" for s
    by (auto simp: host_identity_def Let_def split: prod.split)
  with status have act: "\<exists>s'. act_bind (load_server_status example_env) (\<lambda>_. host_identity example_env) s = Some (Inr (), s')" for s
    by (metis act_bind_Inr)
  have l: "ev_load_cert_key_pair example_env" by (simp add: example_env_def)
  obtain server2 w2 where "act_bind (load_server_status example_env) (\<lambda>_. host_identity example_env)
      (server\<lparr>sd_address := pa_host (parse_host_address address),
         sd_serverInfo := (ev_LiInitializeServerInformation example_env)\<lparr>si_address := pa_host (parse_host_address address)\<rparr>,
         sd_httpPort := (case pa_port (parse_host_address address) of Some p \<Rightarrow> p | None \<Rightarrow> 47989), sd_httpsPort := 0\<rparr>, w) =
      Some (Inr (), server2, w2)" using act by fastforce
  with assms l show ?thesis by (simp add: gs_init_def Let_def)
qed

theorem gs_init_established_witness:
  "\<exists>server' w'. gs_init example_env '' 10.0.0.7:48000'' (example_server, example_world) = Some (GS_OK, server', w') \<and>
     sd_address server' = ''10.0.0.7'' \<and> sd_httpPort server' = 48000 \<and> sd_httpsPort server' \<noteq> 0"
proof -
  have p: "pa_host (parse_host_address '' 10.0.0.7:48000'') = ''10.0.0.7''" "pa_port (parse_host_address '' 10.0.0.7:48000'') = Some 48000"
    by code_simp+
  obtain server' w' where run: "gs_init example_env '' 10.0.0.7:48000'' (example_server, example_world) = Some (GS_OK, server', w')"
    using example_init [of "'' 10.0.0.7:48000''" example_server example_world] p(1) by auto
  from gs_init_established [OF run] run p show ?thesis by auto
qed


end
