(* ===== verification/GameStreamPairingCorrect.thy ===== *)
theory GameStreamPairingCorrect
  imports GameStreamPairing GameStreamClientCorrect
begin

text \<open>
  What the pairing guarantees: its outcome for every host and every moment of cancellation, and that it completes with a host that
  follows the protocol and was given the same PIN.
\<close>

section \<open>The outcome\<close>

definition pair_request_of :: "bool \<Rightarrow> SERVER_DATA \<Rightarrow> string \<Rightarrow> Request" where
  "pair_request_of https server query = \<lparr>rq_url = pair_url https server query, rq_timeout = HTTPRequestTimeoutLong,
     rq_options = no_options\<lparr>ho_shares_token := True\<rparr>\<rparr>"

text \<open>
  An operation that leaves the server as it is; when it succeeds, it has made exactly the requests of the given phases, in order.
\<close>

type_synonym phase = "bool \<times> string"

definition phase_requests :: "SERVER_DATA \<Rightarrow> phase list \<Rightarrow> string list \<Rightarrow> Request list" where
  "phase_requests server ps qs = map2 (\<lambda>(https, phase) q. pair_request_of https server (phase @ q)) ps qs"

definition act_asks :: "phase list \<Rightarrow> 'a act \<Rightarrow> bool" where
  "act_asks ps m \<longleftrightarrow> (\<forall>s r s'. m s = Some (r, s') \<longrightarrow> fst s' = fst s \<and>
     (\<forall>x. r = Inr x \<longrightarrow> (\<exists>qs. length qs = length ps \<and> w_requests (snd s') = w_requests (snd s) @ phase_requests (fst s) ps qs)))"

lemma act_asksD:
  "act_asks ps m \<Longrightarrow> m s = Some (r, s') \<Longrightarrow> fst s' = fst s"
  "act_asks ps m \<Longrightarrow> m s = Some (Inr x, s') \<Longrightarrow>
     \<exists>qs. length qs = length ps \<and> w_requests (snd s') = w_requests (snd s) @ phase_requests (fst s) ps qs"
  unfolding act_asks_def by blast+

lemma phase_requests_append:
  "length ps = length qs \<Longrightarrow> phase_requests server ps qs @ phase_requests server ps' qs' = phase_requests server (ps @ ps') (qs @ qs')"
  by (simp add: phase_requests_def)

lemma asks_bind:
  assumes "act_asks ps m" "\<And>x. act_asks ps' (f x)"
  shows "act_asks (ps @ ps') (act_bind m f)"
  unfolding act_asks_def
proof (intro allI impI)
  fix s r s'
  assume "act_bind m f s = Some (r, s')"
  then show "fst s' = fst s \<and> (\<forall>x. r = Inr x \<longrightarrow>
      (\<exists>qs. length qs = length (ps @ ps') \<and> w_requests (snd s') = w_requests (snd s) @ phase_requests (fst s) (ps @ ps') qs))"
  proof (cases rule: act_bindE)
    case (stop e)
    then show ?thesis using act_asksD(1) [OF assms(1)] by simp
  next
    case (go x s1)
    note s1 = act_asksD [OF assms(1) go(1)] and s' = act_asksD(1) [OF assms(2) go(2)]
    have "\<exists>qs. length qs = length (ps @ ps') \<and> w_requests (snd s') = w_requests (snd s) @ phase_requests (fst s) (ps @ ps') qs"
      if y: "r = Inr y" for y
    proof -
      obtain qs where qs: "length qs = length ps" "w_requests (snd s1) = w_requests (snd s) @ phase_requests (fst s) ps qs"
        using s1(2) by blast
      obtain qs' where "length qs' = length ps'" "w_requests (snd s') = w_requests (snd s1) @ phase_requests (fst s1) ps' qs'"
        using act_asksD(2) [OF assms(2), of x s1 y s'] go(2) y by auto
      with qs s1(1) show ?thesis by (intro exI [of _ "qs @ qs'"]) (simp add: phase_requests_append)
    qed
    with s1(1) s' show ?thesis by simp
  qed
qed

lemma asks_bind0: "act_asks [] m \<Longrightarrow> (\<And>x. act_asks ps (f x)) \<Longrightarrow> act_asks ps (act_bind m f)"
  using asks_bind [of "[]" m ps f] by simp

lemma asks_cons: "act_asks [p] m \<Longrightarrow> (\<And>x. act_asks ps (f x)) \<Longrightarrow> act_asks (p # ps) (act_bind m f)"
  using asks_bind [of "[p]" m ps f] by simp

lemma asks_bind_end: "act_asks ps m \<Longrightarrow> (\<And>x. act_asks [] (f x)) \<Longrightarrow> act_asks ps (act_bind m f)"
  using asks_bind [of ps m "[]" f] by simp

lemma asks_if: "act_asks ps m \<Longrightarrow> act_asks ps n \<Longrightarrow> act_asks ps (if b then m else n)"
  by simp

lemma asks_nothing: "act_keeps id m \<Longrightarrow> (\<And>s r s'. m s = Some (r, s') \<Longrightarrow> w_requests (snd s') = w_requests (snd s)) \<Longrightarrow> act_asks [] m"
  unfolding act_asks_def by (auto simp: phase_requests_def dest: act_keepsD)

lemma asks_return: "act_asks [] (act_return x)"
  by (rule asks_nothing) (auto intro: keeps)

lemma asks_fail: "act_asks ps (act_fail e)"
  by (simp add: act_asks_def)

lemma asks_option: "act_asks [] (act_option x)"
  by (rule asks_nothing) (auto intro: keeps)

lemma asks_error: "act_asks [] (act_error e)"
  by (rule asks_nothing) (auto intro: keeps simp: act_error_def split: option.splits)

lemma asks_draw: "act_asks [] (draw_bytes ev n)"
  by (rule asks_nothing) (auto intro: keeps simp: draw_bytes_def Let_def)

lemma asks_status: "act_asks [] (status_act ev data)"
  unfolding status_act_def by (auto split: prod.split intro: asks_bind0 asks_error asks_return)

lemma asks_search: "act_asks [] (search_act ev data node)"
  unfolding search_act_def by (auto split: prod.split intro: asks_bind0 asks_error asks_return)

lemma asks_search_or: "act_asks [] (search_or f ev data node)"
  unfolding search_or_def
  unfolding split_def by (intro asks_bind0 asks_if asks_search asks_return asks_fail)

lemma asks_validate: "act_asks [] (validate_or_one ev data)"
  unfolding validate_or_one_def gs_pair_validate_def split_def
  by (intro asks_bind0 asks_if asks_search asks_status asks_return asks_fail)

lemma cancelled_or_cases:
  "cancelled_or ev s = Some (r, s') \<Longrightarrow> fst s' = fst s \<and> w_requests (snd s') = w_requests (snd s)"
  by (auto simp: cancelled_or_def isCancellationRequested_def split: if_splits)

lemma asks_exchange: "act_asks [(https, phase)] (pair_exchange ev https (phase @ q))"
proof -
  have "fst s' = fst s \<and> (\<forall>x. r = Inr x \<longrightarrow> w_requests (snd s') = w_requests (snd s) @ [pair_request_of https (fst s) (phase @ q)])"
    if *: "gs_pair_request ev (pair_url https (fst s) (phase @ q)) s = Some (r, s')" for s r s'
    using * unfolding gs_pair_request_def
  proof (cases rule: act_bindE)
    case (stop e)
    then show ?thesis by (auto dest: cancelled_or_cases)
  next
    case (go u s1)
    obtain an w where h: "http_request ev (pair_url https (fst s) (phase @ q)) HTTPRequestTimeoutLong
        (no_options\<lparr>ho_shares_token := True\<rparr>) (snd s1) = (an, w)" by fastforce
    from go(2) h have "act_bind (cancelled_or ev) (\<lambda>_. if an_result an \<noteq> GS_OK then act_fail (an_result an)
        else act_return (case an_data an of Some d \<Rightarrow> d | None \<Rightarrow> [])) (fst s1, w) = Some (r, s')" by simp
    then have "fst s' = fst s1 \<and> w_requests (snd s') = w_requests w"
      by (cases rule: act_bindE) (auto dest: cancelled_or_cases split: if_splits)
    with cancelled_or_cases [OF go(1)] http_request_requests [OF h] show ?thesis
      by (simp add: pair_request_of_def)
  qed
  note req = this
  show ?thesis
    unfolding act_asks_def pair_exchange_def
  proof (intro allI impI)
    fix s r s'
    assume "act_bind (gs_pair_request ev (pair_url https (fst s) (phase @ q))) (\<lambda>data. act_bind (validate_or_one ev data) (\<lambda>_. act_return data)) s =
        Some (r, s')"
    then show "fst s' = fst s \<and> (\<forall>x. r = Inr x \<longrightarrow> (\<exists>qs. length qs = length [(https, phase)] \<and>
        w_requests (snd s') = w_requests (snd s) @ phase_requests (fst s) [(https, phase)] qs))"
    proof (cases rule: act_bindE)
      case (stop e)
      then show ?thesis using req by simp
    next
      case (go data s1)
      have "act_asks [] (act_bind (validate_or_one ev data) (\<lambda>_. act_return data))"
        by (intro asks_bind0 asks_validate asks_return)
      note d = act_asksD(1) [OF this go(2)] and e = act_asksD(2) [OF this, of s1 _ s']
      show ?thesis
      proof (cases r)
        case (Inr y)
        with e [of y] go(2) d req [OF go(1)] show ?thesis by (auto simp: phase_requests_def intro!: exI [of _ "[q]"])
      qed (use d req [OF go(1)] in simp)
    qed
  qed
qed

lemma asks_stage1: "act_asks [(False, ''phrase=getservercert&salt='')] (stage1 ev pin)"
  unfolding stage1_def
  by (rule asks_bind0 [OF asks_draw], rule asks_bind_end, rule asks_exchange, intro asks_bind0 asks_search_or asks_return)

text \<open>The stages after the first look at the server they start with.\<close>

lemma asks_start: "(\<And>server. act_asks ps (m server)) \<Longrightarrow> act_asks ps (\<lambda>s. m (fst s) s)"
  unfolding act_asks_def by blast

lemma asks_stage2: "act_asks [(False, ''clientchallenge='')] (stage2 ev salted_pin)"
  unfolding stage2_def [abs_def]
  by (rule asks_start [of _ "\<lambda>server. act_bind (act_option (server_key ev server salted_pin)) _"])
     (intro asks_bind0 [OF asks_option] asks_bind0 [OF asks_draw] asks_bind_end asks_exchange asks_search_or asks_return)

lemma asks_stage3: "act_asks [(False, ''serverchallengeresp='')] (stage3 ev aesKey response)"
  unfolding stage3_def [abs_def] Let_def
  by (rule asks_start [of _ "\<lambda>server. act_bind (act_option (aes_decrypt (ev_crypto ev) (hex_to_bytes (bytes_of_string response)) aesKey)) (_ server)"])
     (intro asks_bind0 [OF asks_option] asks_bind0 [OF asks_draw] asks_bind_end asks_exchange asks_search_or asks_return)

lemma asks_stage4: "act_asks [(False, ''clientpairingsecret='')] (stage4 ev plainCert challenge secret answer)"
  unfolding stage4_def Let_def verify_signature_def not_True_eq_False if_False
  by (rule asks_bind0 [OF asks_option], rule asks_bind0 [OF asks_option], rule asks_bind_end, rule asks_exchange, rule asks_return)

lemma asks_start_challenge: "act_asks [(True, ''phrase=pairchallenge'')] (pair_exchange ev True ''phrase=pairchallenge'')"
  using asks_exchange [of True "''phrase=pairchallenge''" ev "[]"] by simp

text \<open>The phases of a pairing: over HTTPS or not, and the text the query starts with.\<close>

definition pair_phases :: "phase list" where
  "pair_phases = [(False, ''phrase=getservercert&salt=''), (False, ''clientchallenge=''), (False, ''serverchallengeresp=''),
     (False, ''clientpairingsecret=''), (True, ''phrase=pairchallenge'')]"

lemma pair_stages_outcome:
  assumes "pair_stages ev pin s = Some (r, s')"
  shows "case r of
      Inl _ \<Rightarrow> fst s' = fst s
    | Inr _ \<Rightarrow> fst s' = (fst s)\<lparr>sd_paired := True\<rparr> \<and>
        (\<exists>qs. length qs = 5 \<and> w_requests (snd s') = w_requests (snd s) @ phase_requests (fst s) pair_phases qs)"
proof -
  let ?m = "\<lambda>k. act_bind (stage1 ev (bytes_of_string (c_str pin))) (\<lambda>(salted_pin, plainCert).
     act_bind (stage2 ev salted_pin) (\<lambda>(aesKey, randomChallenge, response).
     act_bind (stage3 ev aesKey response) (\<lambda>(clientSecret, secretText).
     act_bind (stage4 ev plainCert randomChallenge clientSecret secretText) (\<lambda>_. k))))"
  have assoc: "pair_stages ev pin = act_bind (?m (pair_exchange ev True ''phrase=pairchallenge'')) (\<lambda>_. act_update (sd_paired_update (\<lambda>_. True)))"
    unfolding pair_stages_def stage5_def
    by (simp add: act_bind_def split_def fun_eq_iff split: option.split sum.split)
  have asks: "act_asks pair_phases (?m (pair_exchange ev True ''phrase=pairchallenge''))"
    unfolding pair_phases_def split_def
    by (rule asks_cons [OF asks_stage1], rule asks_cons [OF asks_stage2], rule asks_cons [OF asks_stage3], rule asks_cons [OF asks_stage4],
        rule asks_start_challenge)
  from assms [unfolded assoc] show ?thesis
  proof (cases rule: act_bindE)
    case (stop e)
    then show ?thesis using act_asksD(1) [OF asks] by simp
  next
    case (go x s1)
    have "length pair_phases = 5" by (simp add: pair_phases_def)
    with act_asksD [OF asks go(1)] go(2) show ?thesis by auto
  qed
qed

definition unpair_request :: "SERVER_DATA \<Rightarrow> Request" where
  "unpair_request server = \<lparr>rq_url = url4096 (host_url False server @ ''unpair?uniqueid='' @ unique_id),
     rq_timeout = HTTPRequestTimeoutLow, rq_options = no_options\<rparr>"

lemma gs_unpair_requests: "w_requests (snd (gs_unpair ev server w)) = w_requests w @ [unpair_request server]"
  by (auto simp: gs_unpair_def unpair_request_def dest: http_request_requests split: prod.split)

lemma fails_pair_stages: "act_fails (pair_stages ev pin)"
proof -
  have v: "act_fails (validate_or_one ev data)" for data
  proof -
    have "act_fails (gs_pair_validate ev data)" unfolding gs_pair_validate_def split_def by (intro fails)
    then show ?thesis unfolding validate_or_one_def by (intro fails)
  qed
  have c: "act_fails (cancelled_or ev)"
    by (auto simp: act_fails_def cancelled_or_def gs_codes split: prod.splits if_splits)
  have e: "act_fails (pair_exchange ev https q)" for https q
  proof -
    have "act_fails (gs_pair_request ev url)" for url
      unfolding act_fails_def gs_pair_request_def
      by (auto elim!: act_bindE dest: act_failsD [OF c] split: if_splits prod.splits)
    then have "act_fails (act_bind (gs_pair_request ev url) (\<lambda>data. act_bind (validate_or_one ev data) (\<lambda>_. act_return data)))" for url
      by (intro fails v)
    then show ?thesis unfolding act_fails_def pair_exchange_def by blast
  qed
  have 1: "act_fails (stage1 ev p)" for p unfolding stage1_def by (intro fails e)
  have 2: "act_fails (stage2 ev p)" for p
    unfolding act_fails_def stage2_def by (intro allI impI, erule act_failsD [rotated]) (intro fails e)
  have 3: "act_fails (stage3 ev k t)" for k t
    unfolding act_fails_def stage3_def Let_def by (intro allI impI, erule act_failsD [rotated]) (intro fails e)
  have 4: "act_fails (stage4 ev a b d t)" for a b d t
    unfolding act_fails_def stage4_def Let_def by (intro allI impI, erule act_failsD [rotated]) (intro fails e)
  show ?thesis unfolding pair_stages_def split_def stage5_def by (intro fails 1 2 3 4 e)
qed

text \<open>
  C8: a pairing that was begun ends in one of two ways, whatever the host answers and whenever it is cancelled.  It reports success, the
  server is marked as paired and nothing else of it has changed, exactly the five requests of the protocol were made in order, the last
  over HTTPS, and the token was not cancelled when it was read last.  Or it reports a failure, the server is as before, and the
  last request asks the host to forget the client.
\<close>

theorem gs_pair_outcome:
  assumes "gs_pair ev pin (server, w) = Some (ret, server', w')" "\<not> sd_paired server" "sd_currentGame server = 0"
  shows "ret = GS_OK \<and> server' = server\<lparr>sd_paired := True\<rparr> \<and> \<not> ev_cancelled ev (w_reads w' - 1) \<and>
           (\<exists>qs. length qs = 5 \<and> w_requests w' = w_requests w @ phase_requests server pair_phases qs) \<or>
         ret \<noteq> GS_OK \<and> server' = server \<and> last (w_requests w') = unpair_request server"
proof -
  from assms obtain r server1 w1 where run: "pair_stages ev pin (server, w) = Some (r, server1, w1)"
    and out: "(ret, server', w') = gs_pair_cleanup ev (code_of r) (server1, w1)"
    by (auto simp: gs_pair_def split: option.splits if_splits)
  note o = pair_stages_outcome [OF run]
  have u: "unpair_request (server\<lparr>sd_paired := b\<rparr>) = unpair_request server" for b
    by (simp add: unpair_request_def host_url_def)
  have np: "server\<lparr>sd_paired := False\<rparr> = server" using assms(2) by simp
  show ?thesis
  proof (cases r)
    case (Inl e)
    then have e: "e \<noteq> GS_OK" and s: "server1 = server" using run o by (auto dest: act_failsD [OF fails_pair_stages])
    show ?thesis
      using out Inl e s np
      by (auto simp: gs_pair_cleanup_def isCancellationRequested_def Let_def gs_unpair_requests gs_codes split: if_splits)
  next
    case (Inr x)
    with o have s: "server1 = server\<lparr>sd_paired := True\<rparr>" by simp
    show ?thesis
      using out Inr s o np
      by (auto simp: gs_pair_cleanup_def isCancellationRequested_def Let_def gs_unpair_requests gs_codes u split: if_splits)
  qed
qed

section \<open>A host that follows the protocol\<close>

text \<open>
  The other side as the protocol describes it: the PIN it shows or was told, its certificate, the challenge and the secret of this pairing
  with the signature of the secret, and how it verifies a signature of the client.  It reads the parameters of a request from the
  query of its address.
\<close>

record PairHost =
  h_pin :: string
  h_cert :: bytes
  h_challenge :: bytes
  h_secret :: bytes
  h_signature :: bytes
  h_verify :: "bytes \<Rightarrow> bytes \<Rightarrow> bytes \<Rightarrow> bool"

definition url_param :: "string \<Rightarrow> string \<Rightarrow> bytes" where
  "url_param key url =
     (case [v. p \<leftarrow> pieces (CHR ''&'') url, (k, Some v) \<leftarrow> [cut (CHR ''='') p], k = key] of
        [] \<Rightarrow> []
      | v # _ \<Rightarrow> hex_to_bytes (bytes_of_string v))"

definition request_param :: "string \<Rightarrow> Request list \<Rightarrow> nat \<Rightarrow> bytes" where
  "request_param key rs i = url_param key (rq_url (rs ! i))"

definition host_hash :: "PairCrypto \<Rightarrow> bool \<Rightarrow> bytes \<Rightarrow> bytes" where
  "host_hash c gen7 d = (if gen7 then pc_sha256 c d else pc_sha1 c d)"

definition host_key :: "PairCrypto \<Rightarrow> bool \<Rightarrow> PairHost \<Rightarrow> Request list \<Rightarrow> bytes" where
  "host_key c gen7 h rs = take 16 (host_hash c gen7 (request_param ''salt'' rs 0 @ bytes_of_string (h_pin h)))"

definition host_decrypt :: "PairCrypto \<Rightarrow> bool \<Rightarrow> PairHost \<Rightarrow> Request list \<Rightarrow> bytes \<Rightarrow> bytes" where
  "host_decrypt c gen7 h rs d = (case aes_decrypt c d (host_key c gen7 h rs) of Some p \<Rightarrow> p | None \<Rightarrow> [])"

text \<open>The fields of the answer to the last of the requests of this pairing.\<close>

definition host_fields :: "PairCrypto \<Rightarrow> bool \<Rightarrow> PairHost \<Rightarrow> Request list \<Rightarrow> (string \<times> string) list" where
  "host_fields c gen7 h rs =
     (''paired'', ''1'') #
     (if length rs = 1 then [(''plaincert'', hex_text (h_cert h))]
      else if length rs = 2 then
        [(''challengeresponse'', hex_text (aes_encrypt c
            (host_hash c gen7 (take 16 (host_decrypt c gen7 h rs (request_param ''clientchallenge'' rs 1)) @ pc_signature c (h_cert h) @ h_secret h)
             @ h_challenge h) (host_key c gen7 h rs)))]
      else if length rs = 3 then [(''pairingsecret'', hex_text (h_secret h @ h_signature h))]
      else [])"

text \<open>
  What the host checks when it has the secret of the client: the hash it received before is the hash of its own challenge, the signature
  in the client's certificate and that secret, encrypted under the key of the PIN; and the secret is signed by the client.
\<close>

definition host_accepts :: "PairCrypto \<Rightarrow> bool \<Rightarrow> PairHost \<Rightarrow> Request list \<Rightarrow> bool" where
  "host_accepts c gen7 h rs =
     (let cert = request_param ''clientcert'' rs 0; secret = request_param ''clientpairingsecret'' rs 3 in
      take (if gen7 then 32 else 20) (host_decrypt c gen7 h rs (request_param ''serverchallengeresp'' rs 2)) =
        host_hash c gen7 (h_challenge h @ pc_signature c cert @ take 16 secret) \<and>
      h_verify h cert (take 16 secret) (drop 16 secret))"

section \<open>Reading the parameters back\<close>

lemma bytes_of_string_of_bytes: "bytes_of_string (string_of_bytes d) = d"
proof -
  have "unat b mod 256 = unat b" for b :: u8 using unsigned_less [of b, where 'a = nat] by simp
  then show ?thesis by (induction d) (simp_all add: string_of_bytes_def bytes_of_string_def byte_of_char_def)
qed

lemma hex_text_bytes [simp]: "hex_to_bytes (bytes_of_string (hex_text d)) = d"
  by (simp add: hex_text_def bytes_of_string_of_bytes hex_to_bytes_hex)

lemma upper_hex_char: "n < 16 \<Longrightarrow> char_of (unat (upper_hex n)) \<noteq> CHR ''&'' \<and> char_of (unat (upper_hex n)) \<noteq> CHR 0x00"
proof -
  assume "n < 16"
  then have "n \<in> set [0..<16]" by simp
  moreover have "\<forall>n \<in> set [0..<16]. char_of (unat (upper_hex n)) \<noteq> CHR ''&'' \<and> char_of (unat (upper_hex n)) \<noteq> CHR 0x00" by code_simp
  ultimately show ?thesis by blast
qed

lemma hex_text_chars: "CHR ''&'' \<notin> set (hex_text d)" "CHR 0x00 \<notin> set (hex_text d)"
proof -
  have "unat b div 16 < 16" for b :: u8 using unsigned_less [of b, where 'a = nat] by (simp add: less_mult_imp_div_less)
  moreover have nl: "char_of (10 :: nat) = CHR 0x0A" by code_simp
  ultimately have x: "x \<noteq> CHR ''&'' \<and> x \<noteq> CHR 0x00" if "x \<in> set (hex_text d)" for x
    using that upper_hex_char by (auto simp: nl hex_text_def hex_def string_of_bytes_def split: if_splits)
  show "CHR ''&'' \<notin> set (hex_text d)" "CHR 0x00 \<notin> set (hex_text d)" using x by blast+
qed

lemma c_str_hex_text [simp]: "c_str (hex_text d) = hex_text d"
  using hex_text_chars(2) [of d] by (simp add: c_str_def takeWhile_eq_all_conv) blast

lemma length_hex_text: "length (hex_text d) \<le> 2 * length d + 1"
proof -
  have "length (concat (map (\<lambda>b. [f b, g b]) xs)) = 2 * length xs" for f g :: "u8 \<Rightarrow> u8" and xs by (induction xs) simp_all
  then show ?thesis by (simp add: hex_text_def hex_def string_of_bytes_def)
qed

definition base_url :: "bool \<Rightarrow> SERVER_DATA \<Rightarrow> string" where
  "base_url https server = host_url https server @ ''pair?uniqueid='' @ unique_id"

text \<open>The address of the host has no separator of a query, and the request is not cut off.\<close>

definition plain_address :: "SERVER_DATA \<Rightarrow> bool" where
  "plain_address server = (CHR ''&'' \<notin> set (c_str (si_address (sd_serverInfo server))))"

lemma length_base_url: "length (base_url https server) \<le> length (c_str (si_address (sd_serverInfo server))) + 50"
proof -
  have "length (to_string (unat (x :: u16))) \<le> 5" for x
    using length_to_string_le [of "unat x" 4] unsigned_less [of x, where 'a = nat] by simp
  from this [of "sd_httpsPort server"] this [of "sd_httpPort server"] show ?thesis
    by (simp add: base_url_def host_url_def unique_id_def)
qed

lemma pair_url_uncut:
  "length (c_str (si_address (sd_serverInfo server))) + length query \<le> 4000 \<Longrightarrow>
   pair_url https server query = base_url https server @ ''&devicename=roth&updateState=1&'' @ query"
  using length_base_url [of https server] by (simp add: pair_url_def url4096_def base_url_def)

definition param_values :: "string \<Rightarrow> string list \<Rightarrow> string list" where
  "param_values key ps = [v. p \<leftarrow> ps, (k, Some v) \<leftarrow> [cut (CHR ''='') p], k = key]"

lemma param_values_simps:
  "param_values key [] = []"
  "param_values key (p # ps) = (case cut (CHR ''='') p of (k, Some v) \<Rightarrow> if k = key then v # param_values key ps else param_values key ps
      | _ \<Rightarrow> param_values key ps)"
  by (auto simp: param_values_def split: prod.splits option.splits)

lemma base_url_param: "hd key \<noteq> CHR ''h'' \<Longrightarrow> param_values key (base_url https server # ps) = param_values key ps"
proof -
  assume h: "hd key \<noteq> CHR ''h''"
  obtain t where t: "base_url https server = CHR ''h'' # t" by (cases https) (auto simp: base_url_def host_url_def)
  obtain k v where "cut (CHR ''='') (CHR ''h'' # t) = (CHR ''h'' # k, v)" by (cases "cut (CHR ''='') t") simp
  with t h show ?thesis by (cases key) (auto simp: param_values_simps split: option.split)
qed

lemma url_param_pair:
  assumes "plain_address server" "length (c_str (si_address (sd_serverInfo server))) + length query \<le> 4000"
    and "hd key \<noteq> CHR ''h''" "key \<noteq> ''devicename''" "key \<noteq> ''updateState''"
  shows "url_param key (pair_url https server query) =
     (case param_values key (pieces (CHR ''&'') query) of [] \<Rightarrow> [] | v # _ \<Rightarrow> hex_to_bytes (bytes_of_string v))"
proof -
  have b: "CHR ''&'' \<notin> set (base_url https server)"
    using assms(1) digits_no_sep [of "CHR ''&''"] by (simp add: base_url_def host_url_def plain_address_def unique_id_def isdigit_def)
  have p: "pieces (CHR ''&'') (pair_url https server query) =
      base_url https server # ''devicename=roth'' # ''updateState=1'' # pieces (CHR ''&'') query"
    unfolding pair_url_uncut [OF assms(2)]
    using pieces_append_sep [OF b, of "''devicename=roth&updateState=1&'' @ query"]
      pieces_append_sep [of "CHR ''&''" "''devicename=roth''" "''updateState=1&'' @ query"]
      pieces_append_sep [of "CHR ''&''" "''updateState=1''" query] by simp
  have "param_values key (''devicename=roth'' # ''updateState=1'' # ps) = param_values key ps" for ps
    using assms(4,5) by (auto simp: param_values_simps)
  then show ?thesis
    unfolding url_param_def param_values_def [symmetric] p by (simp add: base_url_param [OF assms(3)])
qed

text \<open>The parameters of the four requests.\<close>

lemma param_value_of: "CHR ''='' \<notin> set key \<Longrightarrow> param_values key ((key @ CHR ''='' # v) # ps) = v # param_values key ps"
  by (simp add: param_values_simps cut_append_sep)

lemma param_single:
  assumes "plain_address server" "length (c_str (si_address (sd_serverInfo server))) + length (key @ ''='' @ hex_text d) \<le> 4000"
    and "hd key \<noteq> CHR ''h''" "key \<noteq> ''devicename''" "key \<noteq> ''updateState''" "CHR ''='' \<notin> set key" "CHR ''&'' \<notin> set key"
  shows "url_param key (pair_url https server (key @ ''='' @ hex_text d)) = d"
  using url_param_pair [OF assms(1-5)] assms(6,7) param_value_of [of key "hex_text d" "[]"] hex_text_chars(1) [of d]
  by (simp add: pieces_no_sep)

lemma param_first:
  assumes "plain_address server" and q: "q = ''phrase=getservercert&salt='' @ hex_text salt @ ''&clientcert='' @ hex_text cert"
    and "length (c_str (si_address (sd_serverInfo server))) + length q \<le> 4000"
  shows "url_param ''salt'' (pair_url False server q) = salt" "url_param ''clientcert'' (pair_url False server q) = cert"
proof -
  have p: "pieces (CHR ''&'') q = [''phrase=getservercert'', ''salt='' @ hex_text salt, ''clientcert='' @ hex_text cert]"
    using pieces_append_sep [of "CHR ''&''" "''phrase=getservercert''" "''salt='' @ hex_text salt @ ''&clientcert='' @ hex_text cert"]
      pieces_append_sep [of "CHR ''&''" "''salt='' @ hex_text salt" "''clientcert='' @ hex_text cert"]
      pieces_no_sep [of "CHR ''&''" "''clientcert='' @ hex_text cert"] hex_text_chars(1)
    by (simp add: q)
  show "url_param ''salt'' (pair_url False server q) = salt" "url_param ''clientcert'' (pair_url False server q) = cert"
    using url_param_pair [OF assms(1,3)] by (simp_all add: p param_values_simps)
qed

section \<open>A pairing with such a host completes\<close>

definition gen7 :: "SERVER_DATA \<Rightarrow> bool" where
  "gen7 server = (sd_serverMajorVersion server \<ge> 7)"

text \<open>What the cryptographic library promises of the sizes and of the signatures of the client.\<close>

definition crypto_ok :: "PairCrypto \<Rightarrow> PairHost \<Rightarrow> bool" where
  "crypto_ok c h \<longleftrightarrow> aes_ok c \<and> (\<forall>d. length (pc_sha256 c d) = 32) \<and> (\<forall>d. length (pc_sha1 c d) = 20) \<and>
     (\<forall>d. h_verify h (pc_cert c) d (sign_data c d (pc_key c)))"

text \<open>
  The network carries every request of the pairing, not cancelled, to the host \<open>h\<close> and its answer back; \<open>doc\<close> is how
  the host writes an answer, and the parser understands it.
\<close>

definition honest :: "Env \<Rightarrow> PairHost \<Rightarrow> ((string \<times> string) list \<Rightarrow> bytes) \<Rightarrow> Request list \<Rightarrow> SERVER_DATA \<Rightarrow> bool" where
  "honest ev h doc old server \<longleftrightarrow>
     crypto_ok (ev_crypto ev) h \<and> length (h_challenge h) = 16 \<and> length (h_secret h) = 16 \<and> length (h_signature h) = 256 \<and>
     plain_address server \<and>
     length (c_str (si_address (sd_serverInfo server))) + 2 * length (pc_cert (ev_crypto ev)) + 100 \<le> 4000 \<and>
     (\<forall>d. length (c_str (si_address (sd_serverInfo server))) + 2 * length (sign_data (ev_crypto ev) d (pc_key (ev_crypto ev))) + 100 \<le> 4000) \<and>
     (\<forall>n. \<not> ev_cancelled ev n) \<and>
     (\<forall>rs. rs \<noteq> [] \<longrightarrow> (let fs = host_fields (ev_crypto ev) (gen7 server) h rs in
        ev_curl ev (old @ rs) = Performed \<lparr>tf_status = 200, tf_chunks = [doc fs], tf_failure = None\<rparr> \<and>
        length (doc fs) \<le> 4 * 1024 * 1024 \<and> ev_expat ev (doc fs) = (answer_events fs, None)))"

lemma honest_answer:
  assumes "honest ev h doc old server" "rs \<noteq> []" "fs = host_fields (ev_crypto ev) (gen7 server) h rs"
  shows "ev_curl ev (old @ rs) = Performed \<lparr>tf_status = 200, tf_chunks = [doc fs], tf_failure = None\<rparr>"
    "length (doc fs) \<le> 4 * 1024 * 1024" "ev_expat ev (doc fs) = (answer_events fs, None)"
  using assms unfolding honest_def Let_def by blast+

lemma exchange_honest:
  assumes "honest ev h doc old server" "w_requests v = old @ rs"
    and fs: "fs = host_fields (ev_crypto ev) (gen7 server) h (rs @ [pair_request_of https server q])"
  shows "\<exists>v'. pair_exchange ev https q (server, v) = Some (Inr (doc fs), server, v') \<and>
     w_requests v' = old @ rs @ [pair_request_of https server q]"
proof -
  have nc: "ev_cancelled ev n = False" for n using assms(1) by (simp add: honest_def)
  note a = honest_answer [OF assms(1) _ fs, simplified]
  let ?v1 = "v\<lparr>w_reads := Suc (w_reads v), w_requests := old @ rs @ [pair_request_of https server q]\<rparr>"
  have req: "http_request ev (pair_url https server q) HTTPRequestTimeoutLong (no_options\<lparr>ho_shares_token := True\<rparr>) (v\<lparr>w_reads := Suc (w_reads v)\<rparr>) =
      (\<lparr>an_result = GS_OK, an_data = Some (doc fs), an_status = 200, an_tooLarge = False\<rparr>, ?v1)"
    using a assms(2)
    by (simp add: http_request_def Let_def pair_request_of_def [symmetric] receive_body_iff no_options_def pair_request_of_def del: receive_body.simps)
  have "gs_pair_request ev (pair_url https server q) (server, v) = Some (Inr (doc fs), server, ?v1\<lparr>w_reads := Suc (Suc (w_reads v))\<rparr>)"
    using req by (simp add: gs_pair_request_def act_bind_def cancelled_or_def isCancellationRequested_def nc act_return_def)
  moreover have "validate_or_one ev (doc fs) = act_return ()"
    unfolding validate_or_one_def gs_pair_validate_def
    by (simp add: status_act_answer [OF a(3)] search_act_answer [OF a(3)] gs_codes)
  ultimately show ?thesis by (simp add: pair_exchange_def act_bind_def act_return_def)
qed

lemma draw_honest: "\<exists>d v'. draw_bytes ev n (server, v) = Some (Inr d, server, v') \<and> length d = n \<and> w_requests v' = w_requests v"
  by (simp add: draw_bytes_def Let_def random_bytes_def)

lemma length_blocks_enc: "aes_ok c \<Longrightarrow> length (aes_encrypt c d key) = get_encrypt_size d"
proof -
  assume c: "aes_ok c"
  have "length (d @ replicate (get_encrypt_size d - length d) (0 :: u8)) = get_encrypt_size d" using encrypt_size(2) [of d] by simp
  with length_blocks [of "pc_aes_enc c key" "d @ replicate (get_encrypt_size d - length d) 0"] c encrypt_size(1) [of d] show ?thesis
    by (simp add: aes_encrypt_def aes_ok_def)
qed

lemma append_data: "data_append d e = d @ e"
  by (simp add: data_append_def)

lemma stage1_honest:
  assumes "honest ev h doc old server" "w_requests v = old"
  shows "\<exists>salt v'. length salt = 16 \<and>
     stage1 ev pin (server, v) = Some (Inr (salt @ pin, bytes_of_string (hex_text (h_cert h))), server, v') \<and>
     w_requests v' = old @ [pair_request_of False server
        (''phrase=getservercert&salt='' @ hex_text salt @ ''&clientcert='' @ hex_text (pc_cert (ev_crypto ev)))]"
proof -
  obtain salt v1 where 1: "draw_bytes ev 16 (server, v) = Some (Inr salt, server, v1)" "length salt = 16" "w_requests v1 = old @ []"
    using draw_honest [of ev 16 server v] assms(2) by auto
  define q where "q = ''phrase=getservercert&salt='' @ hex_text salt @ ''&clientcert='' @ hex_text (pc_cert (ev_crypto ev))"
  define fs where fs: "fs = host_fields (ev_crypto ev) (gen7 server) h [pair_request_of False server q]"
  obtain v2 where 2: "pair_exchange ev False q (server, v1) = Some (Inr (doc fs), server, v2)"
    "w_requests v2 = old @ [pair_request_of False server q]"
    using exchange_honest [OF assms(1) 1(3), of fs False q] by (auto simp: fs)
  have f: "c_str (field fs ''plaincert'') = hex_text (h_cert h)" by (simp add: fs host_fields_def field_def)
  have s: "search_or (\<lambda>e. e) ev (doc fs) ''plaincert'' = act_return (hex_text (h_cert h))"
    using search_or_answer [OF honest_answer(3) [OF assms(1) _ fs]] f by simp
  have "stage1 ev pin (server, v) = Some (Inr (salt @ pin, bytes_of_string (hex_text (h_cert h))), server, v2)"
    unfolding stage1_def using 2(1) by (simp add: act_bind_def 1(1) s act_return_def append_data q_def)
  with 1(2) 2(2) show ?thesis unfolding q_def by blast
qed

lemma server_hash_host: "server_hash ev server d = host_hash (ev_crypto ev) (gen7 server) d"
  by (simp add: server_hash_def host_hash_def gen7_def)

lemma length_host_hash: "honest ev h doc old server \<Longrightarrow> length (host_hash (ev_crypto ev) (gen7 server) d) = hash_length server"
  by (simp add: honest_def crypto_ok_def host_hash_def gen7_def hash_length_def)

lemma hash_length_le: "hash_length server \<ge> 16" "hash_length server \<le> 32"
  by (simp_all add: hash_length_def)

lemma server_key_honest:
  assumes "honest ev h doc old server"
  shows "server_key ev server sp = Some (take 16 (host_hash (ev_crypto ev) (gen7 server) sp))"
  using assms
  by (simp add: server_key_def create_AES_key_from_salt_SHA256_def create_AES_key_from_salt_SHA1_def subdata_def host_hash_def gen7_def
      honest_def crypto_ok_def)

lemma honest_aes: "honest ev h doc old server \<Longrightarrow> aes_ok (ev_crypto ev)"
  by (simp add: honest_def crypto_ok_def)

lemma stage2_honest:
  assumes "honest ev h doc old server" "w_requests v = old @ [r1]" "K = take 16 (host_hash (ev_crypto ev) (gen7 server) sp)"
  shows "\<exists>ch X v'. length ch = 16 \<and> length X = hash_length server \<and>
     stage2 ev sp (server, v) = Some (Inr (K, ch, hex_text (aes_encrypt (ev_crypto ev) (X @ h_challenge h)
       (host_key (ev_crypto ev) (gen7 server) h [r1]))), server, v') \<and>
     w_requests v' = old @ [r1, pair_request_of False server (''clientchallenge='' @ hex_text (aes_encrypt (ev_crypto ev) ch K))]"
proof -
  obtain ch v1 where 1: "draw_bytes ev 16 (server, v) = Some (Inr ch, server, v1)" "length ch = 16" "w_requests v1 = old @ [r1]"
    using draw_honest [of ev 16 server v] assms(2) by auto
  define q where "q = ''clientchallenge='' @ hex_text (aes_encrypt (ev_crypto ev) ch K)"
  define fs where fs: "fs = host_fields (ev_crypto ev) (gen7 server) h ([r1] @ [pair_request_of False server q])"
  obtain v2 where 2: "pair_exchange ev False q (server, v1) = Some (Inr (doc fs), server, v2)"
    "w_requests v2 = old @ [r1] @ [pair_request_of False server q]"
    using exchange_honest [OF assms(1) 1(3) fs] by blast
  obtain X where X: "length X = hash_length server"
    "c_str (field fs ''challengeresponse'') = hex_text (aes_encrypt (ev_crypto ev) (X @ h_challenge h) (host_key (ev_crypto ev) (gen7 server) h [r1]))"
    using length_host_hash [OF assms(1)] by (simp add: fs host_fields_def field_def host_key_def request_param_def) blast
  have s: "search_or (\<lambda>_. GS_INVALID) ev (doc fs) ''challengeresponse'' = act_return (hex_text (aes_encrypt (ev_crypto ev) (X @ h_challenge h)
      (host_key (ev_crypto ev) (gen7 server) h [r1])))"
    using search_or_answer [OF honest_answer(3) [OF assms(1) _ fs]] X(2) by simp
  have "stage2 ev sp (server, v) = Some (Inr (K, ch, hex_text (aes_encrypt (ev_crypto ev) (X @ h_challenge h)
       (host_key (ev_crypto ev) (gen7 server) h [r1]))), server, v2)"
    unfolding stage2_def using 2(1) server_key_honest [OF assms(1), of sp] assms(3)
    by (simp add: act_bind_def act_option_def 1(1) s act_return_def q_def)
  with 1(2) 2(2) X(1) show ?thesis unfolding q_def by (simp, blast)
qed

lemma decrypt_answer:
  assumes "honest ev h doc old server" "length X = hash_length server"
  shows "\<exists>z. aes_decrypt (ev_crypto ev) (aes_encrypt (ev_crypto ev) (X @ h_challenge h) K) K = Some z \<and> subdata 0 (hash_length server) z = Some X \<and> subdata (hash_length server) 16 z = Some (h_challenge h)"
proof -
  have "length (h_challenge h) = 16" using assms(1) by (simp add: honest_def)
  with assms(2) show ?thesis unfolding aes_decrypt_encrypt [OF honest_aes [OF assms(1)]] by (simp add: subdata_def)
qed

lemma stage3_run:
  assumes "honest ev h doc old server" "w_requests v = old @ rs" "length rs = 2"
    and z: "aes_decrypt (ev_crypto ev) R K = Some z" "subdata 0 (hash_length server) z = Some X" "subdata (hash_length server) 16 z = Some challenge"
  shows "\<exists>cs v'. length cs = 16 \<and>
     stage3 ev K (hex_text R) (server, v) = Some (Inr (cs, hex_text (h_secret h @ h_signature h)), server, v') \<and>
     w_requests v' = old @ rs @ [pair_request_of False server (''serverchallengeresp='' @ hex_text (aes_encrypt (ev_crypto ev)
        (host_hash (ev_crypto ev) (gen7 server) (challenge @ pc_signature (ev_crypto ev) (pc_cert (ev_crypto ev)) @ cs)) K))]"
proof -
  obtain cs v1 where 1: "draw_bytes ev 16 (server, v) = Some (Inr cs, server, v1)" "length cs = 16" "w_requests v1 = old @ rs"
    using draw_honest [of ev 16 server v] assms(2) by auto
  define q where "q = ''serverchallengeresp='' @ hex_text (aes_encrypt (ev_crypto ev)
        (host_hash (ev_crypto ev) (gen7 server) (challenge @ pc_signature (ev_crypto ev) (pc_cert (ev_crypto ev)) @ cs)) K)"
  define fs where fs: "fs = host_fields (ev_crypto ev) (gen7 server) h (rs @ [pair_request_of False server q])"
  obtain v2 where 2: "pair_exchange ev False q (server, v1) = Some (Inr (doc fs), server, v2)"
    "w_requests v2 = old @ rs @ [pair_request_of False server q]"
    using exchange_honest [OF assms(1) 1(3) fs] by blast
  have f: "c_str (field fs ''pairingsecret'') = hex_text (h_secret h @ h_signature h)" using assms(3) by (simp add: fs host_fields_def field_def)
  have s: "search_or (\<lambda>_. GS_INVALID) ev (doc fs) ''pairingsecret'' = act_return (hex_text (h_secret h @ h_signature h))"
    using search_or_answer [OF honest_answer(3) [OF assms(1) _ fs]] f by simp
  have "stage3 ev K (hex_text R) (server, v) = Some (Inr (cs, hex_text (h_secret h @ h_signature h)), server, v2)"
    unfolding stage3_def Let_def using 2(1)
    by (simp add: act_bind_def act_option_def z 1(1) s act_return_def append_data server_hash_host q_def)
  with 1(2) 2(2) show ?thesis unfolding q_def by blast
qed

lemma stage3_honest:
  assumes "honest ev h doc old server" "w_requests v = old @ rs" "length rs = 2" "length X = hash_length server"
  shows "\<exists>cs v'. length cs = 16 \<and>
     stage3 ev K (hex_text (aes_encrypt (ev_crypto ev) (X @ h_challenge h) K)) (server, v) =
       Some (Inr (cs, hex_text (h_secret h @ h_signature h)), server, v') \<and>
     w_requests v' = old @ rs @ [pair_request_of False server (''serverchallengeresp='' @ hex_text (aes_encrypt (ev_crypto ev)
        (host_hash (ev_crypto ev) (gen7 server) (h_challenge h @ pc_signature (ev_crypto ev) (pc_cert (ev_crypto ev)) @ cs)) K))]"
  using decrypt_answer [OF assms(1,4), of K] stage3_run [OF assms(1-3)] by blast

lemma stage4_honest:
  assumes "honest ev h doc old server" "w_requests v = old @ rs" "length rs \<ge> 3"
  shows "\<exists>v'. stage4 ev plainCert challenge cs (hex_text (h_secret h @ h_signature h)) (server, v) = Some (Inr (), server, v') \<and>
     w_requests v' = old @ rs @ [pair_request_of False server (''clientpairingsecret='' @
        hex_text (cs @ sign_data (ev_crypto ev) cs (pc_key (ev_crypto ev))))]"
proof -
  define q where "q = ''clientpairingsecret='' @ hex_text (cs @ sign_data (ev_crypto ev) cs (pc_key (ev_crypto ev)))"
  obtain d v2 where 2: "pair_exchange ev False q (server, v) = Some (Inr d, server, v2)"
    "w_requests v2 = old @ rs @ [pair_request_of False server q]"
    using exchange_honest [OF assms(1,2)] by blast
  have "length (h_secret h) = 16" "length (h_signature h) = 256" using assms(1) by (simp_all add: honest_def)
  then have "stage4 ev plainCert challenge cs (hex_text (h_secret h @ h_signature h)) (server, v) = Some (Inr (), server, v2)"
    unfolding stage4_def Let_def verify_signature_def using 2(1)
    by (simp add: act_bind_def act_option_def subdata_def append_data act_return_def q_def)
  with 2(2) show ?thesis unfolding q_def by blast
qed

definition first_query :: "PairCrypto \<Rightarrow> bytes \<Rightarrow> string" where
  "first_query c salt = ''phrase=getservercert&salt='' @ hex_text salt @ ''&clientcert='' @ hex_text (pc_cert c)"

lemma honest_first:
  assumes "honest ev h doc old server" "length salt = 16"
  shows "url_param ''salt'' (pair_url False server (first_query (ev_crypto ev) salt)) = salt"
    "url_param ''clientcert'' (pair_url False server (first_query (ev_crypto ev) salt)) = pc_cert (ev_crypto ev)"
proof -
  have p: "plain_address server" using assms(1) by (simp add: honest_def)
  have "length (c_str (si_address (sd_serverInfo server))) + length (first_query (ev_crypto ev) salt) \<le> 4000"
    using assms length_hex_text [of salt] length_hex_text [of "pc_cert (ev_crypto ev)"] by (simp add: honest_def first_query_def)
  note f = param_first [OF p first_query_def this]
  show "url_param ''salt'' (pair_url False server (first_query (ev_crypto ev) salt)) = salt"
    "url_param ''clientcert'' (pair_url False server (first_query (ev_crypto ev) salt)) = pc_cert (ev_crypto ev)"
    by (rule f)+
qed

lemma host_key_honest:
  assumes "honest ev h doc old server" "length salt = 16"
  shows "host_key (ev_crypto ev) g h (pair_request_of False server (first_query (ev_crypto ev) salt) # rs) =
     take 16 (host_hash (ev_crypto ev) g (salt @ bytes_of_string (h_pin h)))"
  using honest_first(1) [OF assms] by (simp add: host_key_def request_param_def pair_request_of_def)

lemma host_accepts_honest:
  assumes honest: "honest ev h doc old server" and len: "length salt = 16" "length cs = 16"
    and K: "K = take 16 (host_hash (ev_crypto ev) (gen7 server) (salt @ bytes_of_string (h_pin h)))"
    and rs: "rs = [pair_request_of False server (first_query (ev_crypto ev) salt), r2,
        pair_request_of False server (''serverchallengeresp='' @ hex_text (aes_encrypt (ev_crypto ev)
          (host_hash (ev_crypto ev) (gen7 server) (h_challenge h @ pc_signature (ev_crypto ev) (pc_cert (ev_crypto ev)) @ cs)) K)),
        pair_request_of False server (''clientpairingsecret='' @ hex_text (cs @ sign_data (ev_crypto ev) cs (pc_key (ev_crypto ev)))), r5]"
  shows "host_accepts (ev_crypto ev) (gen7 server) h rs"
proof -
  let ?c = "ev_crypto ev"
  define hash where "hash = host_hash ?c (gen7 server) (h_challenge h @ pc_signature ?c (pc_cert ?c) @ cs)"
  have lh: "length hash = hash_length server" by (simp add: hash_def length_host_hash [OF honest])
  have p: "plain_address server" using honest by (simp add: honest_def)
  have key: "host_key ?c (gen7 server) h rs = K" by (simp add: rs K host_key_honest [OF honest len(1)])
  have le: "get_encrypt_size hash \<le> 32" using hash_length_le(2) [of server] lh by (simp add: get_encrypt_size_def)
  have 3: "request_param ''serverchallengeresp'' rs 2 = aes_encrypt ?c hash K"
    using param_single [OF p, of "''serverchallengeresp''" "aes_encrypt ?c hash K" False] honest
      length_hex_text [of "aes_encrypt ?c hash K"] length_blocks_enc [OF honest_aes [OF honest], of hash K] le
    by (simp add: request_param_def rs pair_request_of_def hash_def honest_def)
  have 4: "request_param ''clientpairingsecret'' rs 3 = cs @ sign_data ?c cs (pc_key ?c)"
  proof -
    have "length (c_str (si_address (sd_serverInfo server))) + 2 * length (sign_data ?c cs (pc_key ?c)) + 100 \<le> 4000"
      using honest unfolding honest_def by blast
    then show ?thesis
      using param_single [OF p, of "''clientpairingsecret''" "cs @ sign_data ?c cs (pc_key ?c)" False]
        length_hex_text [of "cs @ sign_data ?c cs (pc_key ?c)"] len
      by (simp add: request_param_def rs pair_request_of_def)
  qed
  have 1: "request_param ''clientcert'' rs 0 = pc_cert ?c"
    using honest_first(2) [OF honest len(1)] by (simp add: request_param_def rs pair_request_of_def)
  have d: "host_decrypt ?c (gen7 server) h rs (aes_encrypt ?c hash K) = hash @ replicate (get_encrypt_size hash - length hash) 0"
    by (simp add: host_decrypt_def key aes_decrypt_encrypt [OF honest_aes [OF honest]])
  have "h_verify h (pc_cert ?c) cs (sign_data ?c cs (pc_key ?c))" using honest by (simp add: honest_def crypto_ok_def)
  then show ?thesis unfolding host_accepts_def Let_def 1 3 4 d using len(2) lh
    by (simp add: hash_def hash_length_def gen7_def)
qed

text \<open>
  C9: with a host that follows the protocol and was given the same PIN, the pairing completes: it reports success, the server is marked as
  paired, and the five requests it made are ones the host accepts, so the client has proved to the host that it knows the PIN and
  holds the private key of its certificate.
\<close>

theorem gs_pair_honest_host:
  assumes "honest ev h doc (w_requests w) server" "h_pin h = c_str pin" "\<not> sd_paired server" "sd_currentGame server = 0"
  shows "\<exists>w' rs. gs_pair ev pin (server, w) = Some (GS_OK, server\<lparr>sd_paired := True\<rparr>, w') \<and>
     w_requests w' = w_requests w @ rs \<and> length rs = 5 \<and> host_accepts (ev_crypto ev) (gen7 server) h rs"
proof -
  let ?c = "ev_crypto ev" and ?old = "w_requests w" and ?pin = "bytes_of_string (c_str pin)"
  obtain salt v1 where 1: "length salt = 16" "stage1 ev ?pin (server, w) = Some (Inr (salt @ ?pin, bytes_of_string (hex_text (h_cert h))), server, v1)"
    "w_requests v1 = ?old @ [pair_request_of False server (first_query ?c salt)]"
    using stage1_honest [OF assms(1) refl, of ?pin] unfolding first_query_def by blast
  define K where K: "K = take 16 (host_hash ?c (gen7 server) (salt @ ?pin))"
  have key: "host_key ?c (gen7 server) h [pair_request_of False server (first_query ?c salt)] = K"
    by (simp add: host_key_honest [OF assms(1) 1(1)] K assms(2))
  obtain ch X v2 r2 where 2: "length X = hash_length server"
    "stage2 ev (salt @ ?pin) (server, v1) = Some (Inr (K, ch, hex_text (aes_encrypt ?c (X @ h_challenge h) K)), server, v2)"
    "w_requests v2 = ?old @ [pair_request_of False server (first_query ?c salt), r2]"
    using stage2_honest [OF assms(1) 1(3) K] unfolding key by blast
  obtain cs v3 where 3: "length cs = 16"
    "stage3 ev K (hex_text (aes_encrypt ?c (X @ h_challenge h) K)) (server, v2) = Some (Inr (cs, hex_text (h_secret h @ h_signature h)), server, v3)"
    "w_requests v3 = ?old @ [pair_request_of False server (first_query ?c salt), r2] @ [pair_request_of False server (''serverchallengeresp='' @
       hex_text (aes_encrypt ?c (host_hash ?c (gen7 server) (h_challenge h @ pc_signature ?c (pc_cert ?c) @ cs)) K))]"
    using stage3_honest [OF assms(1) 2(3) _ 2(1), of K] by auto
  define rs where rs: "rs = [pair_request_of False server (first_query ?c salt), r2] @ [pair_request_of False server (''serverchallengeresp='' @
       hex_text (aes_encrypt ?c (host_hash ?c (gen7 server) (h_challenge h @ pc_signature ?c (pc_cert ?c) @ cs)) K))]"
  have "w_requests v3 = ?old @ rs" "length rs \<ge> 3" using 3(3) by (simp_all add: rs)
  from stage4_honest [OF assms(1) this, of "bytes_of_string (hex_text (h_cert h))" ch cs] obtain v4 where
    4: "stage4 ev (bytes_of_string (hex_text (h_cert h))) ch cs (hex_text (h_secret h @ h_signature h)) (server, v3) = Some (Inr (), server, v4)"
    "w_requests v4 = ?old @ rs @ [pair_request_of False server (''clientpairingsecret='' @ hex_text (cs @ sign_data ?c cs (pc_key ?c)))]"
    by blast
  obtain d v5 where 5: "pair_exchange ev True ''phrase=pairchallenge'' (server, v4) = Some (Inr d, server, v5)"
    "w_requests v5 = w_requests v4 @ [pair_request_of True server ''phrase=pairchallenge'']"
    using exchange_honest [OF assms(1) 4(2)] 4(2) by (metis append.assoc)
  have run: "pair_stages ev pin (server, w) = Some (Inr (), server\<lparr>sd_paired := True\<rparr>, v5)"
    by (simp add: pair_stages_def stage5_def act_bind_def 1(2) 2(2) 3(2) 4(1) 5(1) act_update_def)
  have "\<not> ev_cancelled ev n" for n using assms(1) by (simp add: honest_def)
  with run assms(3,4) have "gs_pair ev pin (server, w) = Some (GS_OK, server\<lparr>sd_paired := True\<rparr>, v5\<lparr>w_reads := w_reads v5 + 1\<rparr>)"
    by (simp add: gs_pair_def gs_pair_cleanup_def isCancellationRequested_def)
  moreover have "host_accepts ?c (gen7 server) h (drop (length ?old) (w_requests v5))"
    by (rule host_accepts_honest [OF assms(1) 1(1) 3(1), where K = K and ?r2.0 = r2 and ?r5.0 = "pair_request_of True server ''phrase=pairchallenge''"])
       (simp_all add: K assms(2) 5(2) 4(2) rs)
  ultimately show ?thesis using 4(2) 5(2) by (auto simp: rs)
qed

text \<open>
  The client itself never compares the PIN: its pairing reports success with a host that has another one, too.
\<close>

lemma decrypt_other_key:
  assumes "honest ev h doc old server" "length X = hash_length server"
  shows "\<exists>z a b. aes_decrypt (ev_crypto ev) (aes_encrypt (ev_crypto ev) (X @ h_challenge h) K') K = Some z \<and>
     subdata 0 (hash_length server) z = Some a \<and> subdata (hash_length server) 16 z = Some b"
proof -
  let ?c = "ev_crypto ev" and ?d = "X @ h_challenge h"
  have "length (h_challenge h) = 16" using assms(1) by (simp add: honest_def)
  then have l: "length (aes_encrypt ?c ?d K') \<ge> hash_length server + 16" "length (aes_encrypt ?c ?d K') mod 16 = 0"
    using length_blocks_enc [OF honest_aes [OF assms(1)], of ?d K'] encrypt_size [of ?d] assms(2) by simp_all
  have "length (blocks (pc_aes_dec ?c K) (aes_encrypt ?c ?d K')) = length (aes_encrypt ?c ?d K')"
    by (rule length_blocks) (use honest_aes [OF assms(1)] l(2) in \<open>simp_all add: aes_ok_def\<close>)
  with l show ?thesis by (simp add: aes_decrypt_def subdata_def)
qed

lemma wrong_pin_accepted:
  assumes "honest ev h doc (w_requests w) server" "\<not> sd_paired server" "sd_currentGame server = 0"
  shows "\<exists>w'. gs_pair ev pin (server, w) = Some (GS_OK, server\<lparr>sd_paired := True\<rparr>, w')"
proof -
  let ?c = "ev_crypto ev" and ?old = "w_requests w" and ?pin = "bytes_of_string (c_str pin)"
  obtain salt v1 r1 where 1: "stage1 ev ?pin (server, w) = Some (Inr (salt @ ?pin, bytes_of_string (hex_text (h_cert h))), server, v1)"
    "w_requests v1 = ?old @ [r1]"
    using stage1_honest [OF assms(1) refl, of ?pin] by blast
  obtain K ch X K' v2 r2 where 2: "length X = hash_length server"
    "stage2 ev (salt @ ?pin) (server, v1) = Some (Inr (K, ch, hex_text (aes_encrypt ?c (X @ h_challenge h) K')), server, v2)"
    "w_requests v2 = ?old @ [r1, r2]"
    using stage2_honest [OF assms(1) 1(2) refl, of "salt @ ?pin"] by blast
  obtain cs v3 r3 where 3: "stage3 ev K (hex_text (aes_encrypt ?c (X @ h_challenge h) K')) (server, v2) =
      Some (Inr (cs, hex_text (h_secret h @ h_signature h)), server, v3)" "w_requests v3 = ?old @ [r1, r2, r3]"
  proof -
    obtain z a b where z: "aes_decrypt ?c (aes_encrypt ?c (X @ h_challenge h) K') K = Some z"
      "subdata 0 (hash_length server) z = Some a" "subdata (hash_length server) 16 z = Some b"
      using decrypt_other_key [OF assms(1) 2(1), of K' K] by blast
    have "length [r1, r2] = 2" by simp
    from stage3_run [OF assms(1) 2(3) this z] that show ?thesis by auto
  qed
  obtain v4 r4 where 4: "stage4 ev (bytes_of_string (hex_text (h_cert h))) ch cs (hex_text (h_secret h @ h_signature h)) (server, v3) =
      Some (Inr (), server, v4)" "w_requests v4 = ?old @ [r1, r2, r3, r4]"
    using stage4_honest [OF assms(1) 3(2), of "bytes_of_string (hex_text (h_cert h))" ch cs] by auto
  obtain d v5 where 5: "pair_exchange ev True ''phrase=pairchallenge'' (server, v4) = Some (Inr d, server, v5)"
    using exchange_honest [OF assms(1) 4(2)] by blast
  have "pair_stages ev pin (server, w) = Some (Inr (), server\<lparr>sd_paired := True\<rparr>, v5)"
    by (simp add: pair_stages_def stage5_def act_bind_def 1(1) 2(2) 3(1) 4(1) 5 act_update_def)
  moreover have "\<not> ev_cancelled ev n" for n using assms(1) by (simp add: honest_def)
  ultimately show ?thesis using assms(2,3) by (simp add: gs_pair_def gs_pair_cleanup_def isCancellationRequested_def)
qed

section \<open>A pairing\<close>

definition example_host :: PairHost where
  "example_host = \<lparr>h_pin = ''1234'', h_cert = [7], h_challenge = replicate 16 8, h_secret = replicate 16 9, h_signature = replicate 256 10,
     h_verify = (\<lambda>_ _ sig. sig = [4])\<rparr>"

text \<open>An answer is sent as one byte that says which of the four it is.\<close>

definition example_answers :: "nat \<Rightarrow> (string \<times> string) list" where
  "example_answers n =
     (if n = 1 then [(''paired'', ''1''), (''plaincert'', hex_text [7])]
      else if n = 2 then [(''paired'', ''1''), (''challengeresponse'', hex_text (aes_encrypt example_crypto (replicate 32 2 @ replicate 16 8) []))]
      else if n = 3 then [(''paired'', ''1''), (''pairingsecret'', hex_text (replicate 16 9 @ replicate 256 10))]
      else [(''paired'', ''1'')])"

definition example_doc :: "(string \<times> string) list \<Rightarrow> bytes" where
  "example_doc fs = (if fs = example_answers 1 then [1] else if fs = example_answers 2 then [2] else if fs = example_answers 3 then [3] else [4])"

definition pair_env :: Env where
  "pair_env = example_env\<lparr>
     ev_curl := (\<lambda>rs. Performed \<lparr>tf_status = 200, tf_chunks = [[if length rs \<le> 3 then word_of_nat (length rs) else 4]], tf_failure = None\<rparr>),
     ev_expat := (\<lambda>d. (answer_events (example_answers (if d = [1] then 1 else if d = [2] then 2 else if d = [3] then 3 else 4)), None))\<rparr>"

lemma example_aes: "aes_encrypt example_crypto d k = aes_encrypt example_crypto d []"
  by (simp add: aes_encrypt_def example_crypto_def)

lemma example_crypto_simps:
  "pc_sha256 example_crypto d = replicate 32 2" "pc_sha1 example_crypto d = replicate 20 1" "sign_data example_crypto d k = [4]"
  "pc_cert example_crypto = [5]"
  by (simp_all add: example_crypto_def sign_data_def)

lemma example_host_fields: "rs \<noteq> [] \<Longrightarrow> host_fields example_crypto True example_host rs = example_answers (min (length rs) 4)"
proof (cases "length rs = 2")
  case True
  then show ?thesis
    by (simp add: host_fields_def example_answers_def example_host_def host_hash_def example_crypto_simps)
       (subst example_aes, rule refl)
next
  case False
  assume "rs \<noteq> []"
  then have "length rs \<ge> 1" by (cases rs) simp_all
  with False show ?thesis by (auto simp: host_fields_def example_answers_def example_host_def)
qed

lemma example_doc_of: "n \<ge> 1 \<Longrightarrow> n \<le> 4 \<Longrightarrow> example_doc (example_answers n) = [word_of_nat n]"
proof -
  assume "n \<ge> 1" "n \<le> 4"
  then have "n = 1 \<or> n = 2 \<or> n = 3 \<or> n = 4" by linarith
  then show ?thesis by (auto simp: example_doc_def example_answers_def)
qed

lemma pair_env_honest: "honest pair_env example_host example_doc [] example_server"
proof -
  have c: "ev_crypto pair_env = example_crypto" by (simp add: pair_env_def example_env_def)
  have g: "gen7 example_server" by (simp add: gen7_def example_server_def)
  have a: "c_str (si_address (sd_serverInfo example_server)) = ''127.0.0.1''" by code_simp
  have ok: "crypto_ok example_crypto example_host"
    by (simp add: crypto_ok_def aes_ok_def example_crypto_def example_host_def sign_data_def)
  have net: "let fs = host_fields example_crypto True example_host rs in
        ev_curl pair_env ([] @ rs) = Performed \<lparr>tf_status = 200, tf_chunks = [example_doc fs], tf_failure = None\<rparr> \<and>
        length (example_doc fs) \<le> 4 * 1024 * 1024 \<and> ev_expat pair_env (example_doc fs) = (answer_events fs, None)" if "rs \<noteq> []" for rs
  proof -
    have n: "min (length rs) 4 \<ge> 1" "min (length rs) 4 \<le> 4" using that by (cases rs; simp)+
    then have "min (length rs) 4 = 1 \<or> min (length rs) 4 = 2 \<or> min (length rs) 4 = 3 \<or> min (length rs) 4 = 4" by linarith
    then show ?thesis
      unfolding Let_def example_host_fields [OF that] example_doc_of [OF n] by (auto simp: pair_env_def min_def split: if_splits)
  qed
  show ?thesis
    unfolding honest_def c a using ok g net
    by (simp add: example_host_def plain_address_def a example_crypto_simps pair_env_def example_env_def)
qed

lemma example_world_requests: "w_requests example_world = []"
  by (simp add: example_world_def)

lemma example_unpaired: "\<not> sd_paired example_server" "sd_currentGame example_server = 0" "h_pin example_host = c_str ''1234''"
  by code_simp+

theorem gs_pair_honest_host_witness:
  "\<exists>w' rs. gs_pair pair_env ''1234'' (example_server, example_world) = Some (GS_OK, example_server\<lparr>sd_paired := True\<rparr>, w') \<and>
     w_requests w' = rs \<and> length rs = 5 \<and> host_accepts example_crypto True example_host rs"
proof -
  have h: "honest pair_env example_host example_doc (w_requests example_world) example_server"
    unfolding example_world_requests by (rule pair_env_honest)
  have "ev_crypto pair_env = example_crypto" "gen7 example_server" by (simp_all add: pair_env_def example_env_def gen7_def example_server_def)
  with gs_pair_honest_host [OF h example_unpaired(3,1,2)] show ?thesis by (simp add: example_world_requests)
qed

theorem gs_pair_outcome_witness:
  "\<exists>w' qs. gs_pair pair_env ''9999'' (example_server, example_world) = Some (GS_OK, example_server\<lparr>sd_paired := True\<rparr>, w') \<and>
     length qs = 5 \<and> w_requests w' = phase_requests example_server pair_phases qs"
proof -
  have h: "honest pair_env example_host example_doc (w_requests example_world) example_server"
    unfolding example_world_requests by (rule pair_env_honest)
  obtain w' where run: "gs_pair pair_env ''9999'' (example_server, example_world) = Some (GS_OK, example_server\<lparr>sd_paired := True\<rparr>, w')"
    using wrong_pin_accepted [OF h example_unpaired(1,2)] by blast
  from gs_pair_outcome [OF run example_unpaired(1,2)] run show ?thesis by (auto simp: example_world_requests)
qed

end
