(* ===== verification/TunnelledSession.thy ===== *)
theory TunnelledSession
  imports RemoteRouting GameStreamPairingCorrect
begin

text \<open>
  The route lease and the GameStream client together: a host that is reached through the tunnel is dialled at the local proxy, and
  whatever the client does with it afterwards stays there.  \<open>session_step\<close> is one operation of the client on a server, in any order
  and with any outcome.
\<close>

inductive session_step :: "Env \<Rightarrow> SERVER_DATA \<times> World \<Rightarrow> SERVER_DATA \<times> World \<Rightarrow> bool" for ev where
  Pair: "gs_pair ev pin s = Some (ret, s') \<Longrightarrow> session_step ev s s'"
| Unpair: "gs_unpair ev (fst s) (snd s) = (ret, w') \<Longrightarrow> session_step ev s (fst s, w')"
| Applist: "gs_applist ev s = Some (r, s') \<Longrightarrow> session_step ev s s'"
| Boxart: "gs_app_boxart ev appId s = Some (r', s') \<Longrightarrow> session_step ev s s'"
| Start: "gs_start_app ev config appId sops localaudio gamepad_mask apolloOptions s = Some (ret, key, s') \<Longrightarrow> session_step ev s s'"
| Quit: "gs_quit_app ev s = Some (q, s') \<Longrightarrow> session_step ev s s'"
| ClipboardGet: "gs_clipboard_get ev (fst s) (snd s) = (g, w') \<Longrightarrow> session_step ev s (fst s, w')"
| ClipboardSet: "gs_clipboard_set ev (fst s) content (snd s) = (p, w') \<Longrightarrow> session_step ev s (fst s, w')"

section \<open>Staying at the proxy\<close>

definition to_loopback :: "Request \<Rightarrow> bool" where
  "to_loopback rq = (starts_with ''http://127.0.0.1:'' (rq_url rq) \<or> starts_with ''https://127.0.0.1:'' (rq_url rq))"

definition loopback_url :: "string \<Rightarrow> bool" where
  "loopback_url u = (find_str ''://'' u = None \<or> url_host u = ''127.0.0.1'')"

definition inside :: "SERVER_DATA \<Rightarrow> bool" where
  "inside server \<longleftrightarrow> si_address (sd_serverInfo server) = ''127.0.0.1'' \<and> sd_address server = ''127.0.0.1'' \<and>
     (\<forall>u. si_rtspSessionUrl (sd_serverInfo server) = Some u \<longrightarrow> loopback_url u)"

definition sent_inside :: "World \<Rightarrow> World \<Rightarrow> bool" where
  "sent_inside w w' \<longleftrightarrow> (\<exists>rs. w_requests w' = w_requests w @ rs \<and> (\<forall>rq \<in> set rs. to_loopback rq))"

lemma sent_inside_refl: "w_requests w' = w_requests w \<Longrightarrow> sent_inside w w'"
  by (simp add: sent_inside_def)

lemma sent_inside_trans: "sent_inside w w1 \<Longrightarrow> sent_inside w1 w2 \<Longrightarrow> sent_inside w w2"
  unfolding sent_inside_def by (metis (no_types, lifting) Un_iff append.assoc set_append)

definition act_inside :: "'a act \<Rightarrow> bool" where
  "act_inside m \<longleftrightarrow> (\<forall>s r s'. inside (fst s) \<longrightarrow> m s = Some (r, s') \<longrightarrow> inside (fst s') \<and> sent_inside (snd s) (snd s'))"

lemma act_insideD: "act_inside m \<Longrightarrow> inside (fst s) \<Longrightarrow> m s = Some (r, s') \<Longrightarrow> inside (fst s') \<and> sent_inside (snd s) (snd s')"
  unfolding act_inside_def by blast

lemma inside_bind:
  assumes "act_inside m" "\<And>x. act_inside (f x)"
  shows "act_inside (act_bind m f)"
  unfolding act_inside_def
proof (intro allI impI)
  fix s r s'
  assume s: "inside (fst s)" and "act_bind m f s = Some (r, s')"
  from this(2) show "inside (fst s') \<and> sent_inside (snd s) (snd s')"
  proof (cases rule: act_bindE)
    case (stop e)
    then show ?thesis using act_insideD [OF assms(1) s] by blast
  next
    case (go x s1)
    from act_insideD [OF assms(1) s go(1)] act_insideD [OF assms(2) _ go(2)] show ?thesis by (blast intro: sent_inside_trans)
  qed
qed

text \<open>Operations that send nothing and leave the server alone, and the others.\<close>

named_theorems quiet

definition act_quiet :: "'a act \<Rightarrow> bool" where
  "act_quiet m \<longleftrightarrow> (\<forall>s r s'. m s = Some (r, s') \<longrightarrow> fst s' = fst s \<and> w_requests (snd s') = w_requests (snd s))"

lemma act_quietD: "act_quiet m \<Longrightarrow> m s = Some (r, s') \<Longrightarrow> fst s' = fst s \<and> w_requests (snd s') = w_requests (snd s)"
  unfolding act_quiet_def by blast

lemma quiet_bind [quiet]: "act_quiet m \<Longrightarrow> (\<And>x. act_quiet (f x)) \<Longrightarrow> act_quiet (act_bind m f)"
  unfolding act_quiet_def [of "act_bind m f"]
proof (intro allI impI)
  fix s r s'
  assume m: "act_quiet m" and f: "\<And>x. act_quiet (f x)" and "act_bind m f s = Some (r, s')"
  from this(3) show "fst s' = fst s \<and> w_requests (snd s') = w_requests (snd s)"
  proof (cases rule: act_bindE)
    case (stop e)
    then show ?thesis using act_quietD [OF m] by blast
  next
    case (go x s1)
    then show ?thesis using act_quietD [OF m go(1)] act_quietD [OF f go(2)] by simp
  qed
qed

lemma quiet_basic [quiet]: "act_quiet (act_return x)" "act_quiet (act_fail e)" "act_quiet (act_option y)"
  by (auto simp: act_quiet_def)

lemma quiet_if [quiet]: "act_quiet m \<Longrightarrow> act_quiet n \<Longrightarrow> act_quiet (if b then m else n)"
  by simp

lemma quiet_error [quiet]: "act_quiet (act_error e)"
  by (auto simp: act_quiet_def act_error_def split: option.splits)

lemma quiet_draw [quiet]: "act_quiet (draw_bytes ev n)"
  by (simp add: act_quiet_def draw_bytes_def Let_def)

lemma quiet_status [quiet]: "act_quiet (status_act ev data)"
  by (auto simp: status_act_def intro!: quiet split: prod.split)

lemma quiet_status_or_one [quiet]: "act_quiet (status_or_one ev data)"
  unfolding status_or_one_def by (intro quiet)

lemma quiet_search [quiet]: "act_quiet (search_act ev data node)"
  by (auto simp: search_act_def intro!: quiet split: prod.split)

lemma quiet_search_or [quiet]: "act_quiet (search_or f ev data node)"
  unfolding search_or_def split_def by (intro quiet)

lemma quiet_search_int [quiet]: "act_quiet (search_int_or c ev data node)"
  by (auto simp: search_int_or_def intro!: quiet split: prod.split)

lemma quiet_validate [quiet]: "act_quiet (validate_or_one ev data)"
  unfolding validate_or_one_def gs_pair_validate_def split_def by (intro quiet)

lemma quiet_cancelled [quiet]: "act_quiet (cancelled_or ev)"
  unfolding act_quiet_def using cancelled_or_cases by blast

lemma quiet_applist [quiet]: "act_quiet (applist_act ev data)"
  unfolding applist_act_def split_def by (auto intro!: quiet split: option.split)

lemma quiet_launch_options [quiet]: "act_quiet (launch_options apolloOptions)"
  by (auto simp: act_quiet_def launch_options_def Let_def act_bind_def act_error_def split: option.splits if_splits)

lemma inside_quiet: "act_quiet m \<Longrightarrow> act_inside m"
  unfolding act_inside_def by (intro allI impI, drule (1) act_quietD) (simp add: sent_inside_refl)

lemma inside_if: "act_inside m \<Longrightarrow> act_inside n \<Longrightarrow> act_inside (if b then m else n)"
  by simp

lemma inside_update: "(\<And>server. inside server \<Longrightarrow> inside (f server)) \<Longrightarrow> act_inside (act_update f)"
  by (auto simp: act_inside_def intro: sent_inside_refl)

text \<open>An operation that looks at the server it starts with.\<close>

lemma inside_start: "(\<And>server. inside server \<Longrightarrow> act_inside (m server)) \<Longrightarrow> act_inside (\<lambda>s. m (fst s) s)"
  unfolding act_inside_def by blast

section \<open>Requests\<close>

lemma host_url_inside:
  "inside server \<Longrightarrow> host_url https server = (if https then ''https://127.0.0.1:'' else ''http://127.0.0.1:'') @
     to_string (unat (if https then sd_httpsPort server else sd_httpPort server)) @ ''/''"
  by (simp add: host_url_def inside_def c_str_def)

lemma url_inside: "inside server \<Longrightarrow> rq_url rq = url4096 (host_url https server @ x) \<Longrightarrow> to_loopback rq"
  by (simp add: to_loopback_def url4096_def host_url_inside starts_with_def)

lemma http_inside: "http_request ev url t opts w = (an, w') \<Longrightarrow> to_loopback \<lparr>rq_url = url, rq_timeout = t, rq_options = opts\<rparr> \<Longrightarrow> sent_inside w w'"
  using http_request_requests [of ev url t opts w an w'] by (auto simp: sent_inside_def)

lemma request_inside: "inside server \<Longrightarrow> act_inside (request_or f ev (url4096 (host_url https server @ x)) t opts)"
  using url_inside [of server]
  by (auto simp: act_inside_def request_or_def dest!: http_inside split: prod.splits if_splits)

lemma pair_exchange_inside: "act_inside (pair_exchange ev https query)"
proof -
  have req: "act_inside (gs_pair_request ev (pair_url https server query))" if "inside server" for server
    unfolding act_inside_def gs_pair_request_def
  proof (intro allI impI)
    fix s r s'
    assume s: "inside (fst s)" and "act_bind (cancelled_or ev) (\<lambda>_ s1. case http_request ev (pair_url https server query) HTTPRequestTimeoutLong
        (no_options\<lparr>ho_shares_token := True\<rparr>) (snd s1) of (an, w) \<Rightarrow> act_bind (cancelled_or ev) (\<lambda>_. if an_result an \<noteq> GS_OK
        then act_fail (an_result an) else act_return (case an_data an of Some d \<Rightarrow> d | None \<Rightarrow> [])) (fst s1, w)) s = Some (r, s')"
    from this(2) show "inside (fst s') \<and> sent_inside (snd s) (snd s')"
    proof (cases rule: act_bindE)
      case (stop e)
      then show ?thesis using act_quietD [OF quiet_cancelled stop(1)] s by (simp add: sent_inside_refl)
    next
      case (go u s1)
      obtain an w where h: "http_request ev (pair_url https server query) HTTPRequestTimeoutLong (no_options\<lparr>ho_shares_token := True\<rparr>) (snd s1) = (an, w)"
        by fastforce
      have "act_quiet (act_bind (cancelled_or ev) (\<lambda>_. if an_result an \<noteq> GS_OK
        then act_fail (an_result an) else act_return (case an_data an of Some d \<Rightarrow> d | None \<Rightarrow> [])))" by (intro quiet)
      from act_quietD [OF this] go(2) h have q: "fst s' = fst s1" "w_requests (snd s') = w_requests w" by fastforce+
      have "sent_inside (snd s1) w" by (rule http_inside [OF h]) (use that in \<open>simp add: pair_url_def url_inside\<close>)
      with q act_quietD [OF quiet_cancelled go(1)] s show ?thesis by (simp add: sent_inside_def)
    qed
  qed
  show ?thesis
    unfolding pair_exchange_def [abs_def]
    by (rule inside_start) (intro inside_bind req inside_quiet quiet; assumption)
qed

lemma app_operations_inside: "act_inside (gs_applist ev)" "act_inside (gs_app_boxart ev appId)" "act_inside (gs_quit_app ev)"
  unfolding gs_applist_def [abs_def] gs_app_boxart_def [abs_def] gs_quit_app_def [abs_def]
  by (rule inside_start, intro inside_bind request_inside inside_quiet quiet; assumption)+

section \<open>The operations\<close>

lemma pair_stages_inside: "act_inside (pair_stages ev pin)"
proof -
  note i = inside_bind pair_exchange_inside
  have 1: "act_inside (stage1 ev p)" for p
    unfolding stage1_def by (intro i inside_quiet quiet)
  have 2: "act_inside (stage2 ev p)" for p
    unfolding stage2_def [abs_def]
    by (rule inside_start [of "\<lambda>server. act_bind (act_option (server_key ev server p)) _"]) (intro i inside_quiet quiet)
  have 3: "act_inside (stage3 ev k t)" for k t
    unfolding stage3_def [abs_def] Let_def
    by (rule inside_start [of "\<lambda>server. act_bind (act_option (aes_decrypt (ev_crypto ev) (hex_to_bytes (bytes_of_string t)) k)) (_ server)"])
       (intro i inside_quiet quiet)
  have 4: "act_inside (stage4 ev a b c t)" for a b c t
    unfolding stage4_def Let_def verify_signature_def not_True_eq_False if_False by (intro i inside_quiet quiet)
  have 5: "act_inside (stage5 ev)"
    unfolding stage5_def by (intro i inside_update) (simp add: inside_def)
  show ?thesis unfolding pair_stages_def split_def by (intro inside_bind 1 2 3 4 5)
qed

lemma unpair_inside: "inside server \<Longrightarrow> gs_unpair ev server w = (ret, w') \<Longrightarrow> sent_inside w w'"
  using url_inside [of server] by (auto simp: gs_unpair_def dest!: http_inside split: prod.splits)

lemma gs_pair_inside:
  assumes "inside (fst s)" "gs_pair ev pin s = Some (ret, s')"
  shows "inside (fst s') \<and> sent_inside (snd s) (snd s')"
proof (cases "sd_paired (fst s) \<or> sd_currentGame (fst s) \<noteq> 0")
  case True
  then show ?thesis using assms by (auto simp: gs_pair_def sent_inside_def split: if_splits)
next
  case False
  then obtain r server1 w1 where run: "pair_stages ev pin s = Some (r, server1, w1)"
    and out: "(ret, s') = gs_pair_cleanup ev (code_of r) (server1, w1)"
    using assms(2) by (auto simp: gs_pair_def split: option.splits)
  from act_insideD [OF pair_stages_inside assms(1) run] have 1: "inside server1" "sent_inside (snd s) w1" by simp_all
  have "to_loopback (unpair_request server1)" by (rule url_inside [OF 1(1)]) (simp add: unpair_request_def)
  then have "sent_inside w1 (snd s')" "inside (fst s')"
    using out 1(1)
    by (auto simp: gs_pair_cleanup_def isCancellationRequested_def Let_def inside_def sent_inside_def gs_unpair_requests split: if_splits)
  with 1(2) show ?thesis by (blast intro: sent_inside_trans)
qed

lemma store_session_url_inside: "act_inside (store_session_url ev data)"
proof -
  have p: "is_proxied_session server" if "inside server" for server
    using that by (simp add: is_proxied_session_def inside_def c_str_def)
  have l: "loopback_url (rewrite_rtsp_host_to_loopback url)" for url
    using rewritten_url [of url] by (auto simp: loopback_url_def split: option.splits)
  have "act_inside (act_update (\<lambda>server. set_info (si_rtspSessionUrl_update
      (\<lambda>_. Some (if is_proxied_session server then rewrite_rtsp_host_to_loopback url else url))) server))" for url
    by (rule inside_update) (use p l in \<open>auto simp: inside_def set_info_def\<close>)
  then show ?thesis
    unfolding store_session_url_def [abs_def] split_def
    by (intro inside_bind inside_quiet [OF quiet_search]) (auto intro: inside_quiet quiet split: option.split)
qed

lemma gs_start_app_inside:
  assumes "inside (fst s)" "gs_start_app ev config appId sops localaudio gamepad_mask apolloOptions s = Some (ret, key, s')"
  shows "inside (fst s') \<and> sent_inside (snd s) (snd s')"
proof -
  have start: "act_inside (start_request ev config appId sops localaudio gamepad_mask apolloOptions k)" for k
  proof -
    have url: "\<exists>https x. launch_url ev server config appId sops localaudio gamepad_mask k q = host_url https server @ x" for server q
      unfolding launch_url_def Let_def by (metis append.assoc)
    have req: "act_inside (request_or (\<lambda>e. e) ev (url4096 (launch_url ev server config appId sops localaudio gamepad_mask k q)) t opts)"
      if "inside server" for server q t opts
      using url [of server q] request_inside [OF that] by metis
    have u: "act_inside (act_update (sd_currentGame_update (\<lambda>_. appId)))" by (rule inside_update) (simp add: inside_def)
    show ?thesis
      unfolding start_request_def [abs_def]
      by (rule inside_start [of "\<lambda>server. act_bind (launch_options apolloOptions) (_ server)"])
         (intro inside_bind inside_if inside_quiet [OF quiet_launch_options] req u inside_quiet [OF quiet_status_or_one]
           inside_quiet [OF quiet_search_or] inside_quiet [OF quiet_basic(2)] store_session_url_inside; assumption)
  qed
  show ?thesis
  proof (cases "sc_height config \<ge> 2160 \<and> \<not> sd_supports4K (fst s)")
    case True
    then show ?thesis using assms by (auto simp: gs_start_app_def sent_inside_def)
  next
    case False
    then obtain k s1 r where 1: "draw_bytes ev 16 s = Some (Inr k, s1)"
      "start_request ev config appId sops localaudio gamepad_mask apolloOptions k s1 = Some (r, s')"
      using assms(2) by (auto simp: gs_start_app_def draw_bytes_def Let_def split: option.splits)
    from act_quietD [OF quiet_draw 1(1)] act_insideD [OF start _ 1(2)] assms(1) show ?thesis by (simp add: sent_inside_def)
  qed
qed

lemma clipboard_inside:
  "inside server \<Longrightarrow> gs_clipboard_get ev server w = (g, w') \<Longrightarrow> sent_inside w w'"
  "inside server \<Longrightarrow> gs_clipboard_set ev server content w = (p, w') \<Longrightarrow> sent_inside w w'"
proof -
  have url: "to_loopback \<lparr>rq_url = clipboard_url server, rq_timeout = t, rq_options = opts\<rparr>" if "inside server" for t opts
    by (rule url_inside [OF that]) (simp add: clipboard_url_def)
  show "sent_inside w w'" if "inside server" "gs_clipboard_get ev server w = (g, w')"
    using that url by (auto simp: gs_clipboard_get_def dest!: http_inside intro: sent_inside_refl split: if_splits prod.splits)
  show "sent_inside w w'" if "inside server" "gs_clipboard_set ev server content w = (p, w')"
    using that url by (auto simp: gs_clipboard_set_def dest!: http_inside intro: sent_inside_refl split: if_splits prod.splits)
qed

lemma session_step_inside:
  assumes "session_step ev s s'" "inside (fst s)"
  shows "inside (fst s') \<and> sent_inside (snd s) (snd s')"
  using assms(1)
proof (cases rule: session_step.cases)
  case (Applist r)
  then show ?thesis using act_insideD [OF app_operations_inside(1) assms(2)] by blast
next
  case (Boxart appId r')
  then show ?thesis using act_insideD [OF app_operations_inside(2) assms(2)] by blast
next
  case (Quit q)
  then show ?thesis using act_insideD [OF app_operations_inside(3) assms(2)] by blast
next
  case (Pair pin ret)
  then show ?thesis using gs_pair_inside [OF assms(2)] by blast
next
  case (Start config appId sops localaudio gamepad_mask apolloOptions ret key)
  then show ?thesis using gs_start_app_inside [OF assms(2)] by blast
next
  case (Unpair ret w')
  then show ?thesis using unpair_inside assms(2) by simp
next
  case (ClipboardGet g w')
  then show ?thesis using clipboard_inside(1) assms(2) by simp
next
  case (ClipboardSet content p w')
  then show ?thesis using clipboard_inside(2) assms(2) by simp
qed

lemma session_inside: "(session_step ev)\<^sup>*\<^sup>* s s' \<Longrightarrow> inside (fst s) \<Longrightarrow> inside (fst s') \<and> sent_inside (snd s) (snd s')"
proof (induction rule: rtranclp_induct)
  case base
  then show ?case by (simp add: sent_inside_refl)
next
  case (step s1 s2)
  then show ?case using session_step_inside [OF step.hyps(2)] sent_inside_trans by blast
qed

section \<open>The start of the session\<close>

lemma load_serverinfo_inside: "act_inside (load_serverinfo ev https)"
proof -
  have u: "act_inside (act_update f)" if "\<And>server. si_rtspSessionUrl (sd_serverInfo (f server)) = si_rtspSessionUrl (sd_serverInfo server)"
    "\<And>server. address_view (f server) = address_view server" for f
    by (rule inside_update) (use that in \<open>auto simp: inside_def address_view_def\<close>)
  have field: "act_inside (load_field ev data node store)"
    if "\<And>t server. sd_serverInfo (store t server) = sd_serverInfo server" "\<And>t server. sd_address (store t server) = sd_address server"
    for data node store
    unfolding load_field_def
    by (intro inside_bind inside_quiet [OF quiet_search_or] inside_update) (use that in \<open>auto simp: inside_def\<close>)
  have optional: "act_inside (load_optional ev data node store)"
    if "\<And>t server. sd_serverInfo (store t server) = sd_serverInfo server" "\<And>t server. sd_address (store t server) = sd_address server"
    for data node store
  proof -
    have "act_inside (act_update (store t))" for t by (rule inside_update) (use that in \<open>auto simp: inside_def\<close>)
    then show ?thesis
      unfolding load_optional_def split_def
      by (intro inside_bind inside_quiet [OF quiet_search]) (auto intro: inside_quiet quiet split: option.split)
  qed
  have commands: "act_inside (load_commands ev data)" for data
    unfolding load_commands_def
    by (auto intro!: inside_bind inside_quiet [OF quiet_error] inside_update simp: inside_def split: prod.split)
  have finish: "act_inside (finish_serverinfo a b c d)" for a b c d
    by (auto simp: act_inside_def finish_serverinfo_def store_serverinfo_def Let_def inside_def sent_inside_def)
  have codec: "act_inside (act_bind (search_int_or c ev data node) (\<lambda>v. act_update (set_info (si_serverCodecModeSupport_update (\<lambda>_. v)))))" for c data node
    by (intro inside_bind inside_quiet [OF quiet_search_int] inside_update) (simp add: inside_def set_info_def)
  have answer: "act_inside (load_answer ev data)" for data
    unfolding load_answer_def Let_def
    by (rule inside_bind, (rule inside_quiet [OF quiet_search_or] commands codec | (rule field optional, simp add: address_view_simps, simp add: store_permission_def split: option.split)))+
       (rule finish)
  show ?thesis
    unfolding load_serverinfo_def [abs_def] Let_def
    by (rule inside_start [of "\<lambda>server. act_bind (request_or (\<lambda>_. GS_IO_ERROR) ev
          (url4096 (host_url https server @ ''serverinfo?uniqueid='' @ unique_id)) (if is_proxied_session server then HTTPRequestTimeoutLong else HTTPRequestTimeoutLow)
          no_options) _"])
       (intro inside_bind inside_if request_inside answer inside_quiet quiet; assumption)
qed

lemma load_server_status_inside: "act_inside (load_server_status ev)"
proof -
  have twice: "act_inside (load_serverinfo_twice ev)"
    unfolding act_inside_def
  proof (intro allI impI)
    fix s r s'
    assume s: "inside (fst s)" and t: "load_serverinfo_twice ev s = Some (r, s')"
    obtain r1 s1 where 1: "load_serverinfo ev True s = Some (r1, s1)" using t by (auto simp: load_serverinfo_twice_def split: option.splits)
    note i = act_insideD [OF load_serverinfo_inside s 1]
    have "load_serverinfo ev False s1 = Some (r, s') \<or> s' = s1"
      using t 1 by (auto simp: load_serverinfo_twice_def split: sum.splits if_splits)
    then show "inside (fst s') \<and> sent_inside (snd s) (snd s')"
      using i act_insideD [OF load_serverinfo_inside, of s1] sent_inside_trans by blast
  qed
  have version: "act_inside version_supported"
    by (auto simp: act_inside_def version_supported_def Let_def sent_inside_def split: if_splits)
  show ?thesis
    unfolding load_server_status_def [abs_def]
    by (rule inside_start [of "\<lambda>server. act_bind (if sd_httpsPort server = 0 then load_serverinfo ev False else act_return ()) _"])
       (intro inside_bind inside_if load_serverinfo_inside twice version inside_quiet [OF quiet_basic(1)])
qed

lemma getProbe_inside: "getProbe ev url w = (b, w') \<Longrightarrow> to_loopback \<lparr>rq_url = url, rq_timeout = HTTPRequestTimeoutLow, rq_options = probe_options\<rparr> \<Longrightarrow>
   sent_inside w w'"
  by (auto simp: getProbe_def Let_def dest!: http_inside split: prod.splits if_splits)

lemma probe_inside: "probeHostIdentity ev ''127.0.0.1'' hint w = (p, w') \<Longrightarrow> sent_inside w w'"
proof -
  have h: "urlHost ''127.0.0.1'' = ''127.0.0.1''" by code_simp
  have l: "to_loopback \<lparr>rq_url = ''https://127.0.0.1'' @ x, rq_timeout = t, rq_options = opts\<rparr>" if "hd x = CHR '':''" "x \<noteq> []" for x t opts
    using that by (cases x) (simp_all add: to_loopback_def starts_with_def)
  have punk: "sent_inside w w'" if "probePunktfunkIdentity ev ''127.0.0.1'' w = (p, w')" for w p w'
    using that l [of "'':47992/api/v1/health''"]
    by (auto simp: probePunktfunkIdentity_def h dest!: getProbe_inside split: prod.splits option.splits)
  assume "probeHostIdentity ev ''127.0.0.1'' hint w = (p, w')"
  then show ?thesis
    using l [of "'':47990/''"] punk
    by (auto simp: probeHostIdentity_def h Let_def dest!: getProbe_inside intro: sent_inside_trans split: prod.splits option.splits if_splits)
qed

lemma host_identity_inside: "act_inside (host_identity ev)"
  unfolding act_inside_def
proof (intro allI impI)
  fix s r s'
  assume s: "inside (fst s)" and run: "host_identity ev s = Some (r, s')"
  obtain p w1 where p: "probeHostIdentity ev (sd_address (fst s)) (sd_virtualDisplayCapable (fst s)) (snd s) = (p, w1)" by fastforce
  have "sent_inside (snd s) w1" using p probe_inside s by (simp add: inside_def)
  then show "inside (fst s') \<and> sent_inside (snd s) (snd s')"
    using s run p by (auto simp: host_identity_def Let_def inside_def intro: sent_inside_refl split: if_splits)
qed



end
