(* ===== verification/Jansson.thy ===== *)
theory Jansson
  imports Complex_Main Prelude StreamOptions "HOL-Library.AList"
begin

text \<open>
  The part of the C++ language and of the JSON library jansson that the settings stores of the
  application rest on.

  \<^item> \<open>static_cast<int>\<close> of a 64 bit integer, and the binary32 type \<open>float\<close>: a value is a rational, an
    infinity or not a number; a cast from \<open>double\<close> or from an integer rounds to the nearest
    representable value, ties to even, and overflows to an infinity, as on every target of the
    application.
  \<^item> \<open>json_t\<close> values with the accessors and constructors the sources call.  Objects keep their
    members in insertion order, and \<open>json_object_set_new\<close> of a null pointer changes nothing.
  \<^item> The record \<open>Jansson\<close> holds what the library and the file system do: which texts are valid UTF-8,
    and loading and dumping a file, over an abstract type of file system.  \<open>jansson_ok\<close> is the documented
    behaviour the stores rely on: a file that was dumped successfully loads as the same value, and a
    dump touches no other file.
\<close>

section \<open>Integers and floating point numbers\<close>

definition to_int32 :: "int \<Rightarrow> int" where
  "to_int32 v = (v + 2 ^ 31) mod 2 ^ 32 - 2 ^ 31"

definition is_int32 :: "int \<Rightarrow> bool" where
  "is_int32 v = (- (2 ^ 31) \<le> v \<and> v < 2 ^ 31)"

lemma is_int32_to_int32 [simp]: "is_int32 (to_int32 v)"
  using pos_mod_bound [of "2 ^ 32" "v + 2 ^ 31"] by (simp add: is_int32_def to_int32_def)

lemma to_int32_id: "is_int32 v \<Longrightarrow> to_int32 v = v"
  by (simp add: is_int32_def to_int32_def)

datatype cfloat = Finite rat | PosInf | NegInf | NaN

fun cf_less :: "cfloat \<Rightarrow> cfloat \<Rightarrow> bool" where
  "cf_less (Finite a) (Finite b) = (a < b)"
| "cf_less NaN _ = False"
| "cf_less _ NaN = False"
| "cf_less NegInf b = (b \<noteq> NegInf)"
| "cf_less a PosInf = (a \<noteq> PosInf)"
| "cf_less _ _ = False"

text \<open>\<open>std::clamp\<close> at \<open>float\<close>.\<close>

definition cf_clamp :: "cfloat \<Rightarrow> cfloat \<Rightarrow> cfloat \<Rightarrow> cfloat" where
  "cf_clamp v lo hi = (if cf_less v lo then lo else if cf_less hi v then hi else v)"

text \<open>
  Rounding.  \<open>ilog2 q\<close> is the exponent of the greatest power of two that is at most the positive
  \<open>q\<close>; \<open>ulp_exp q\<close> is the exponent of the spacing of the binary32 values around \<open>q\<close>, never below
  that of the subnormal numbers.
\<close>

fun bits :: "nat \<Rightarrow> nat" where
  "bits n = (if n = 0 then 0 else Suc (bits (n div 2)))"

declare bits.simps [simp del]

definition ilog2 :: "rat \<Rightarrow> int" where
  "ilog2 q =
     (let (n, d) = quotient_of q; e = int (bits (nat n)) - int (bits (nat d)) in
      if 2 powi e \<le> q then e else e - 1)"

definition ulp_exp :: "rat \<Rightarrow> int" where
  "ulp_exp q = max (ilog2 q - 23) (- 149)"

definition round_half_even :: "rat \<Rightarrow> int" where
  "round_half_even q =
     (let f = \<lfloor>q\<rfloor>; d = q - of_int f in
      if d < 1 / 2 then f else if 1 / 2 < d then f + 1 else if even f then f else f + 1)"

definition round32 :: "rat \<Rightarrow> rat" where
  "round32 q = (if q = 0 then 0 else let u = 2 powi ulp_exp \<bar>q\<bar> in of_int (round_half_even (q / u)) * u)"

definition to_float :: "rat \<Rightarrow> cfloat" where
  "to_float q =
     (let r = round32 q in
      if 2 ^ 128 \<le> r then PosInf else if r \<le> - (2 ^ 128) then NegInf else Finite r)"

text \<open>A rational is a binary32 value when the cast does not change it.\<close>

definition is_float :: "cfloat \<Rightarrow> bool" where
  "is_float v = (case v of Finite q \<Rightarrow> to_float q = Finite q | _ \<Rightarrow> True)"

lemma bits_bounds: "0 < n \<Longrightarrow> 2 ^ (bits n - 1) \<le> n \<and> n < 2 ^ bits n"
proof (induction n rule: bits.induct)
  case (1 n)
  show ?case
  proof (cases "n div 2 = 0")
    case True
    with 1 have "n = 1" by linarith
    then show ?thesis by (simp add: bits.simps)
  next
    case False
    with 1 have IH: "2 ^ (bits (n div 2) - 1) \<le> n div 2" "n div 2 < 2 ^ bits (n div 2)" by auto
    from False obtain b where b: "bits (n div 2) = Suc b" by (metis bits.simps)
    have "bits n = Suc (Suc b)" using 1(2) b by (subst bits.simps) simp
    moreover have "n = 2 * (n div 2) + n mod 2" "n mod 2 < 2" by simp_all
    ultimately show ?thesis using IH b by (simp; linarith)
  qed
qed

lemma ilog2_bounds:
  assumes "0 < q"
  shows "2 powi ilog2 q \<le> q" and "q < 2 powi (ilog2 q + 1)"
proof -
  obtain n d where nd: "quotient_of q = (n, d)" by fastforce
  have d: "0 < d" and q: "q = of_int n / of_int d"
    using quotient_of_denom_pos [OF nd] quotient_of_div [OF nd] by auto
  with assms have n: "0 < n" by (simp add: zero_less_divide_iff)
  obtain N D where N: "n = int N" "0 < N" and D: "d = int D" "0 < D"
    using n d by (metis zero_less_imp_eq_int)
  let ?e = "int (bits N) - int (bits D)"
  have b: "0 < bits N" "0 < bits D" using N(2) D(2) by (simp_all add: bits.simps)
  have pow: "(2 :: rat) powi (int a - int c) = 2 ^ a / 2 ^ c" for a c
    by (simp add: power_int_diff)
  have Nb: "(2 :: rat) ^ (bits N - 1) \<le> of_nat N" "(of_nat N :: rat) < 2 ^ bits N"
    using bits_bounds [OF N(2)] by (metis of_nat_le_iff of_nat_power of_nat_numeral, metis of_nat_less_iff of_nat_power of_nat_numeral)
  have Db: "(2 :: rat) ^ (bits D - 1) \<le> of_nat D" "(of_nat D :: rat) < 2 ^ bits D"
    using bits_bounds [OF D(2)] by (metis of_nat_le_iff of_nat_power of_nat_numeral, metis of_nat_less_iff of_nat_power of_nat_numeral)
  have "q < 2 ^ bits N / 2 ^ (bits D - 1)"
    unfolding q N(1) D(1) using Nb(2) Db(1) D(2) by (auto intro!: frac_less)
  also have "\<dots> = 2 powi (?e + 1)"
    using b pow [of "bits N" "bits D - 1"] by (simp add: of_nat_diff algebra_simps)
  finally have up: "q < 2 powi (?e + 1)" .
  have "2 powi (?e - 1) = 2 ^ (bits N - 1) / (2 :: rat) ^ bits D"
    using b pow [of "bits N - 1" "bits D"] by (simp add: of_nat_diff algebra_simps)
  also have "\<dots> \<le> q"
    unfolding q N(1) D(1) using Nb(1) Db(2) D(2) by (auto intro!: frac_le)
  finally have lo: "2 powi (?e - 1) \<le> q" .
  have e: "ilog2 q = (if 2 powi ?e \<le> q then ?e else ?e - 1)"
    by (simp add: ilog2_def nd N(1) D(1))
  show "2 powi ilog2 q \<le> q" "q < 2 powi (ilog2 q + 1)"
    using up lo by (auto simp: e)
qed

lemma powi2_le: "a \<le> b \<Longrightarrow> (2 :: rat) powi a \<le> 2 powi b"
  by (simp add: power_int_increasing)

lemma powi2_pos: "0 < (2 :: rat) powi e"
  by (simp add: zero_less_power_int)

lemma powi2_less_iff: "(2 :: rat) powi a < 2 powi b \<longleftrightarrow> a < b"
  using powi2_le [of b a] power_int_strict_increasing [of a b "2 :: rat"] by linarith

lemma round_half_even_of_int [simp]: "round_half_even (of_int k) = k"
  by (simp add: round_half_even_def)

lemma round_half_even_bounds: "\<lfloor>q\<rfloor> \<le> round_half_even q" "round_half_even q \<le> \<lfloor>q\<rfloor> + 1"
  by (auto simp: round_half_even_def Let_def)

lemma powi2_nat: "0 \<le> e \<Longrightarrow> (2 :: rat) powi e = of_int (2 ^ nat e)"
  by (simp add: power_int_def)

lemma round32_exact_strict:
  assumes x: "x = of_int m * 2 powi e" and m: "\<bar>m\<bar> < 2 ^ 24" and e: "- 149 \<le> e"
  shows "round32 x = x"
proof (cases "m = 0")
  case False
  then have pos: "0 < \<bar>x\<bar>" by (simp add: x)
  let ?u = "ulp_exp \<bar>x\<bar>"
  have "\<bar>x\<bar> = of_int \<bar>m\<bar> * 2 powi e" by (simp add: x abs_mult power_int_abs)
  also have "\<dots> < of_int (2 ^ 24) * 2 powi e"
    using m powi2_pos by (intro mult_strict_right_mono) (simp only: of_int_less_iff)
  also have "\<dots> = 2 powi (e + 24)" by (simp add: power_int_add)
  finally have "ilog2 \<bar>x\<bar> < e + 24"
    using ilog2_bounds(1) [OF pos] by (metis order_le_less_trans powi2_less_iff)
  with e have u: "?u \<le> e" by (simp add: ulp_exp_def)
  have "x / 2 powi ?u = of_int (m * 2 ^ nat (e - ?u))"
    using u powi2_nat [of "e - ?u"] unfolding x by (simp add: power_int_diff flip: times_divide_eq_right)
  then have "round_half_even (x / 2 powi ?u) = m * 2 ^ nat (e - ?u)" by (simp only: round_half_even_of_int)
  with \<open>x / 2 powi ?u = _\<close> have "of_int (round_half_even (x / 2 powi ?u)) = x / 2 powi ?u" by simp
  with pos show ?thesis by (simp add: round32_def)
qed (simp add: x round32_def)

lemma round32_exact:
  assumes x: "x = of_int m * 2 powi e" and m: "\<bar>m\<bar> \<le> 2 ^ 24" and e: "- 149 \<le> e"
  shows "round32 x = x"
proof (cases "\<bar>m\<bar> = 2 ^ 24")
  case True
  then consider "m = 2 ^ 24" | "m = - (2 ^ 24)" by linarith
  then show ?thesis
  proof cases
    case 1
    then show ?thesis using e by (intro round32_exact_strict [of x "2 ^ 23" "e + 1"]) (simp_all add: x power_int_add)
  next
    case 2
    then show ?thesis using e by (intro round32_exact_strict [of x "- (2 ^ 23)" "e + 1"]) (simp_all add: x power_int_add)
  qed
next
  case False
  with m have "\<bar>m\<bar> < 2 ^ 24" by linarith
  with x e show ?thesis by (intro round32_exact_strict)
qed

lemma round32_idem [simp]: "round32 (round32 q) = round32 q"
proof (cases "q = 0")
  case False
  let ?u = "ulp_exp \<bar>q\<bar>"
  let ?y = "q / 2 powi ?u"
  have "\<bar>q\<bar> < 2 powi (ilog2 \<bar>q\<bar> + 1)" using ilog2_bounds(2) False by simp
  also have "\<dots> \<le> 2 powi (?u + 24)" by (intro powi2_le) (simp add: ulp_exp_def)
  also have "\<dots> = 2 ^ 24 * 2 powi ?u" by (simp add: power_int_add)
  finally have "\<bar>?y\<bar> < 2 ^ 24" by (simp add: abs_divide power_int_abs divide_less_eq)
  then have "?y < 2 ^ 24 \<and> - ?y < 2 ^ 24" by (simp only: abs_less_iff)
  then have "- 16777216 \<le> ?y" "?y < 16777216" by simp_all
  then have "- (2 ^ 24) \<le> \<lfloor>?y\<rfloor>" "\<lfloor>?y\<rfloor> < 2 ^ 24" by (simp_all add: le_floor_iff floor_less_iff)
  with round_half_even_bounds [of ?y] have "\<bar>round_half_even ?y\<bar> \<le> 2 ^ 24" by linarith
  with False show ?thesis
    by (intro round32_exact [of _ "round_half_even ?y" ?u]) (simp_all add: round32_def ulp_exp_def Let_def)
qed (simp add: round32_def)

lemma is_float_to_float [simp]: "is_float (to_float q)"
  by (simp add: is_float_def to_float_def Let_def)

lemma is_float_of_int: "\<bar>m\<bar> \<le> 2 ^ 24 \<Longrightarrow> is_float (Finite (of_int m))"
  using round32_exact [of "of_int m" m 0] by (auto simp: is_float_def to_float_def abs_le_iff)

lemma is_float_cf_clamp: "is_float v \<Longrightarrow> is_float lo \<Longrightarrow> is_float hi \<Longrightarrow> is_float (cf_clamp v lo hi)"
  by (simp add: cf_clamp_def)

section \<open>JSON values\<close>

datatype json_t = Json_null | Json_true | Json_false | Json_integer int | Json_real rat | Json_string string
  | Json_array "json_t list" | Json_object "(string \<times> json_t) list"

definition json_bool :: "bool \<Rightarrow> json_t" where
  "json_bool b = (if b then Json_true else Json_false)"

text \<open>\<open>json_real\<close> of a \<open>float\<close> that was widened to \<open>double\<close>: null when the value is not finite.\<close>

fun json_real :: "cfloat \<Rightarrow> json_t option" where
  "json_real (Finite q) = Some (Json_real q)"
| "json_real _ = None"

fun json_object_get :: "json_t \<Rightarrow> string \<Rightarrow> json_t option" where
  "json_object_get (Json_object ms) key = map_of ms key"
| "json_object_get _ key = None"

fun json_is_object :: "json_t \<Rightarrow> bool" where
  "json_is_object (Json_object ms) = True"
| "json_is_object _ = False"

fun json_array_elements :: "json_t \<Rightarrow> json_t list option" where
  "json_array_elements (Json_array vs) = Some vs"
| "json_array_elements _ = None"

fun json_object_members :: "json_t \<Rightarrow> (string \<times> json_t) list option" where
  "json_object_members (Json_object ms) = Some ms"
| "json_object_members _ = None"

fun json_string_value :: "json_t \<Rightarrow> string option" where
  "json_string_value (Json_string s) = Some s"
| "json_string_value _ = None"

fun json_integer_value :: "json_t \<Rightarrow> int option" where
  "json_integer_value (Json_integer v) = Some v"
| "json_integer_value _ = None"

text \<open>
  The ways the sources read a member: a string, an integer cast to \<open>int\<close>, a truth value (any member
  that is there decides, and only \<open>true\<close> is true).  The last argument is the value of the field before.
\<close>

definition string_member :: "json_t \<Rightarrow> string \<Rightarrow> string \<Rightarrow> string" where
  "string_member ob key dflt =
     (case Option.bind (json_object_get ob key) json_string_value of None \<Rightarrow> dflt | Some s \<Rightarrow> s)"

definition int_member :: "json_t \<Rightarrow> string \<Rightarrow> int \<Rightarrow> int" where
  "int_member ob key dflt =
     (case Option.bind (json_object_get ob key) json_integer_value of None \<Rightarrow> dflt | Some v \<Rightarrow> to_int32 v)"

definition bool_member :: "json_t \<Rightarrow> string \<Rightarrow> bool \<Rightarrow> bool" where
  "bool_member ob key dflt = (case json_object_get ob key of None \<Rightarrow> dflt | Some v \<Rightarrow> v = Json_true)"

section \<open>The library and the file system\<close>

record 'fs Jansson =
  utf8_valid :: "string \<Rightarrow> bool"
  json_load_file :: "'fs \<Rightarrow> string \<Rightarrow> json_t option"
  json_dump_file :: "'fs \<Rightarrow> json_t \<Rightarrow> string \<Rightarrow> bool \<times> 'fs"
  file_exists :: "'fs \<Rightarrow> string \<Rightarrow> bool"

text \<open>\<open>json_string(s.c_string())\<close>: the text up to the first NUL, null when it is not UTF-8.\<close>

definition c_string :: "string \<Rightarrow> string" where
  "c_string s = takeWhile (\<lambda>c. c \<noteq> CHR 0x00) s"

definition json_string :: "'fs Jansson \<Rightarrow> string \<Rightarrow> json_t option" where
  "json_string J s = (if utf8_valid J (c_string s) then Some (Json_string (c_string s)) else None)"

definition json_object_set_new :: "'fs Jansson \<Rightarrow> string \<times> json_t option \<Rightarrow> (string \<times> json_t) list \<Rightarrow> (string \<times> json_t) list" where
  "json_object_set_new J kv ms =
     (case kv of (k, Some v) \<Rightarrow> if utf8_valid J (c_string k) then AList.update (c_string k) v ms else ms | (k, None) \<Rightarrow> ms)"

definition json_object_of :: "'fs Jansson \<Rightarrow> (string \<times> json_t option) list \<Rightarrow> json_t" where
  "json_object_of J kvs = Json_object (fold (json_object_set_new J) kvs [])"

definition storable_text :: "'fs Jansson \<Rightarrow> string \<Rightarrow> bool" where
  "storable_text J s = (utf8_valid J s \<and> CHR 0x00 \<notin> set s)"

text \<open>The values that a dump can write and a load gives back: valid texts, no key twice, numbers in range.\<close>

fun json_wf :: "'fs Jansson \<Rightarrow> json_t \<Rightarrow> bool" where
  "json_wf J (Json_integer v) = (- (2 ^ 63) \<le> v \<and> v < 2 ^ 63)"
| "json_wf J (Json_real q) = is_float (Finite q)"
| "json_wf J (Json_string s) = storable_text J s"
| "json_wf J (Json_array vs) = list_all (json_wf J) vs"
| "json_wf J (Json_object ms) = (distinct (map fst ms) \<and> list_all (\<lambda>kv. storable_text J (fst kv) \<and> json_wf J (snd kv)) ms)"
| "json_wf J _ = True"

definition jansson_ok :: "'fs Jansson \<Rightarrow> bool" where
  "jansson_ok J =
     ((\<forall>s. (\<forall>c \<in> set s. (of_char c :: nat) < 128) \<longrightarrow> utf8_valid J s) \<and>
      (\<forall>fs ms path fs'. json_wf J (Json_object ms) \<longrightarrow> json_dump_file J fs (Json_object ms) path = (True, fs') \<longrightarrow>
         json_load_file J fs' path = Some (Json_object ms)) \<and>
      (\<forall>fs v path ok fs' other. json_dump_file J fs v path = (ok, fs') \<longrightarrow> other \<noteq> path \<longrightarrow>
         json_load_file J fs' other = json_load_file J fs other))"

section \<open>Facts\<close>

text \<open>Texts that \<open>json_string\<close> keeps, and ASCII literals, which the sources use as keys.\<close>

definition ascii_key :: "string \<Rightarrow> bool" where
  "ascii_key s = list_all (\<lambda>c. 0 < (of_char c :: nat) \<and> (of_char c :: nat) < 128) s"

lemma c_string_storable: "storable_text J s \<Longrightarrow> c_string s = s"
  by (auto simp: storable_text_def c_string_def takeWhile_eq_all_conv)

lemma json_string_storable: "storable_text J s \<Longrightarrow> json_string J s = Some (Json_string s)"
  using c_string_storable [of J s] by (simp add: json_string_def storable_text_def)

lemma json_string_SomeD: "json_string J s = Some v \<Longrightarrow> v = Json_string (c_string s) \<and> storable_text J (c_string s)"
  by (auto simp: json_string_def storable_text_def c_string_def dest: set_takeWhileD split: if_splits)

lemma storable_ascii: "jansson_ok J \<Longrightarrow> ascii_key s \<Longrightarrow> storable_text J s"
  by (auto simp: jansson_ok_def storable_text_def ascii_key_def list_all_iff)

lemma json_wf_bool [simp]: "json_wf J (json_bool b)"
  by (simp add: json_bool_def)

lemma json_wf_int32: "is_int32 v \<Longrightarrow> json_wf J (Json_integer v)"
  by (simp add: is_int32_def)

text \<open>An object built by setting members whose keys are valid and distinct.\<close>

fun members :: "(string \<times> json_t option) list \<Rightarrow> (string \<times> json_t) list" where
  "members [] = []"
| "members ((k, None) # kvs) = members kvs"
| "members ((k, Some v) # kvs) = (k, v) # members kvs"

lemma set_members: "set (members kvs) = {(k, v). (k, Some v) \<in> set kvs}"
  by (induction kvs rule: members.induct) auto

lemma update_fresh: "k \<notin> fst ` set ms \<Longrightarrow> AList.update k v ms = ms @ [(k, v)]"
  by (induction ms) auto

lemma set_new_storable:
  "storable_text J k \<Longrightarrow> k \<notin> fst ` set ms \<Longrightarrow>
   json_object_set_new J (k, v) ms = (case v of None \<Rightarrow> ms | Some w \<Rightarrow> ms @ [(k, w)])"
  using c_string_storable [of J k] by (auto simp: json_object_set_new_def storable_text_def update_fresh split: option.split)

lemma fold_set_new:
  "list_all (\<lambda>kv. storable_text J (fst kv)) kvs \<Longrightarrow> distinct (map fst ms @ map fst kvs) \<Longrightarrow>
   fold (json_object_set_new J) kvs ms = ms @ members kvs"
  by (induction kvs arbitrary: ms rule: members.induct) (auto simp: set_new_storable)

lemma map_of_members: "distinct (map fst kvs) \<Longrightarrow> map_of (members kvs) k = Option.bind (map_of kvs k) (\<lambda>v. v)"
proof (induction kvs rule: members.induct)
  case (2 l kvs)
  then have "map_of kvs l = None" by (simp add: map_of_eq_None_iff)
  with 2 show ?case by auto
qed auto

lemma distinct_members: "distinct (map fst kvs) \<Longrightarrow> distinct (map fst (members kvs))"
  by (induction kvs rule: members.induct) (force simp: set_members)+

lemma json_object_of_members:
  "list_all (\<lambda>kv. storable_text J (fst kv)) kvs \<Longrightarrow> distinct (map fst kvs) \<Longrightarrow> json_object_of J kvs = Json_object (members kvs)"
  using fold_set_new [of J kvs "[]"] by (simp add: json_object_of_def)

lemma json_object_get_of:
  "list_all (\<lambda>kv. storable_text J (fst kv)) kvs \<Longrightarrow> distinct (map fst kvs) \<Longrightarrow>
   json_object_get (json_object_of J kvs) k = Option.bind (map_of kvs k) (\<lambda>v. v)"
  by (simp add: json_object_of_members map_of_members)

lemma json_wf_object_of:
  assumes "list_all (\<lambda>kv. storable_text J (fst kv)) kvs" and "distinct (map fst kvs)"
    and "list_all (\<lambda>kv. pred_option (json_wf J) (snd kv)) kvs"
  shows "json_wf J (json_object_of J kvs)"
  using assms distinct_members [OF assms(2)]
  by (auto simp: json_object_of_members list_all_iff set_members)

text \<open>Dumping and loading an object.\<close>

lemma load_dumped:
  "jansson_ok J \<Longrightarrow> json_wf J v \<Longrightarrow> json_is_object v \<Longrightarrow> json_dump_file J fs v path = (True, fs') \<Longrightarrow>
   json_load_file J fs' path = Some v"
  by (cases v) (auto simp: jansson_ok_def)

lemma load_other:
  "jansson_ok J \<Longrightarrow> json_dump_file J fs v path = (ok, fs') \<Longrightarrow> other \<noteq> path \<Longrightarrow>
   json_load_file J fs' other = json_load_file J fs other"
  by (auto simp: jansson_ok_def)

end
