(* ===== verification/StreamProfiles.thy ===== *)
theory StreamProfiles
  imports Jansson
begin

text \<open>
  Model of a stream profile: \<open>StreamAspectRatio.hpp\<close>, \<open>FsrPreset.hpp\<close>, \<open>DefaultStreamProfiles.hpp\<close>,
  \<open>StreamConfigProfileNormalize.hpp\<close>, the pointer modes of \<open>features/input/PointerSettings.cpp\<close>, and of
  \<open>StreamConfigProfileStore\<close> the record, \<open>normalizeProfile\<close>, \<open>profileToJson\<close> and \<open>profileFromJson\<close>.

  The build is the one for the Switch (\<open>__SWITCH__\<close> defined).  Enumerations that the code casts from
  an arbitrary integer (aspect ratio, codec, upscaling mode, audio configuration, audio backend,
  keyboard type) are the \<open>int\<close> underlying them, with their enumerators as constants; the others are
  datatypes.
\<close>

section \<open>Aspect ratio\<close>

definition Ratio16x9 :: int where "Ratio16x9 = 0"
definition Ratio4x3 :: int where "Ratio4x3 = 1"

definition normalizeAspectRatio :: "int \<Rightarrow> int" where
  "normalizeAspectRatio aspect = (if aspect = Ratio4x3 then Ratio4x3 else Ratio16x9)"

definition aspectRatioFromInt :: "int \<Rightarrow> int" where
  "aspectRatioFromInt value = normalizeAspectRatio value"

definition aspectRatioToString :: "int \<Rightarrow> string" where
  "aspectRatioToString aspect = (if normalizeAspectRatio aspect = Ratio4x3 then ''4:3'' else ''16:9'')"

definition aspectRatioFromString :: "string \<Rightarrow> int" where
  "aspectRatioFromString value = (if value = ''4:3'' \<or> value = ''4x3'' then Ratio4x3 else Ratio16x9)"

definition streamWidthFromHeight :: "int \<Rightarrow> int \<Rightarrow> int" where
  "streamWidthFromHeight height aspect =
     (if height \<le> 0 then 0
      else if normalizeAspectRatio aspect = Ratio4x3 then height * 4 sdiv 3
      else height * 16 sdiv 9)"

section \<open>FSR presets\<close>

datatype FsrPreset = FsrOff | FsrPerformance | FsrBalanced | FsrQuality

definition fsr_code :: "FsrPreset \<Rightarrow> int" where
  "fsr_code preset = (case preset of FsrOff \<Rightarrow> 0 | FsrPerformance \<Rightarrow> 1 | FsrBalanced \<Rightarrow> 2 | FsrQuality \<Rightarrow> 3)"

definition normalizeFsrPreset :: "int \<Rightarrow> FsrPreset" where
  "normalizeFsrPreset value =
     (if value = 1 then FsrPerformance else if value = 2 then FsrBalanced else if value = 3 then FsrQuality else FsrOff)"

definition kFsrPresetUpscalingFsr1 :: int where
  "kFsrPresetUpscalingFsr1 = 2"

record FsrPresetValues =
  preset_upscalingMode :: int
  preset_rcas :: bool
  preset_rcasStrength :: cfloat

definition fsrPresetValues :: "FsrPreset \<Rightarrow> FsrPresetValues option" where
  "fsrPresetValues preset =
     (let values = (\<lambda>strength. Some \<lparr>preset_upscalingMode = kFsrPresetUpscalingFsr1, preset_rcas = True,
                                     preset_rcasStrength = to_float strength\<rparr>) in
      case preset of FsrPerformance \<Rightarrow> values (1 / 2)
      | FsrBalanced \<Rightarrow> values (35 / 100)
      | FsrQuality \<Rightarrow> values (1 / 5)
      | FsrOff \<Rightarrow> None)"

text \<open>The three outputs, in order, and whether they were written.\<close>

definition applyFsrPreset :: "int \<Rightarrow> int \<times> bool \<times> cfloat \<Rightarrow> bool \<times> (int \<times> bool \<times> cfloat)" where
  "applyFsrPreset preset out =
     (case fsrPresetValues (normalizeFsrPreset preset) of
        None \<Rightarrow> (False, out)
      | Some v \<Rightarrow> (True, (preset_upscalingMode v, preset_rcas v, preset_rcasStrength v)))"

definition fsrPresetSelectable :: "int \<Rightarrow> bool" where
  "fsrPresetSelectable upscalingMode = (upscalingMode \<noteq> 0)"

section \<open>Built-in profiles\<close>

record DefaultStreamProfileSpec =
  spec_name :: string
  spec_height :: int
  spec_fps :: int
  spec_bitrateKbps :: int
  spec_lowLatencyPacing :: bool
  spec_framesQueueSize :: int

definition preset_spec :: "string \<Rightarrow> int \<Rightarrow> int \<Rightarrow> int \<Rightarrow> DefaultStreamProfileSpec" where
  "preset_spec n h f b = \<lparr>spec_name = n, spec_height = h, spec_fps = f, spec_bitrateKbps = b,
     spec_lowLatencyPacing = False, spec_framesQueueSize = 3\<rparr>"

definition kDefaultStreamProfiles :: "DefaultStreamProfileSpec list" where
  "kDefaultStreamProfiles =
     [preset_spec ''360p 30 0.5M'' 360 30 500,
      preset_spec ''360p 30 1M'' 360 30 1000,
      preset_spec ''480p 30 5M'' 480 30 5000,
      preset_spec ''480p 60 10M'' 480 60 10000,
      preset_spec ''540p 30 5M'' 540 30 5000,
      preset_spec ''540p 60 10M'' 540 60 10000,
      preset_spec ''720p 30 10M'' 720 30 10000,
      preset_spec ''720p 60 10M'' 720 60 10000,
      preset_spec ''720p 60 20M'' 720 60 20000,
      (preset_spec ''720p 60 Low Latency'' 720 60 10000)\<lparr>spec_lowLatencyPacing := True, spec_framesQueueSize := 2\<rparr>,
      preset_spec ''1080p 30 20M'' 1080 30 20000,
      preset_spec ''1080p 60 20M'' 1080 60 20000,
      preset_spec ''1080p 60 50M'' 1080 60 50000,
      preset_spec ''1080p 60 100M'' 1080 60 100000,
      preset_spec ''1440p 30 20M'' 1440 30 20000,
      preset_spec ''1440p 30 50M'' 1440 30 50000,
      preset_spec ''1440p 60 50M'' 1440 60 50000,
      preset_spec ''1440p 60 100M'' 1440 60 100000]"

definition kDefaultActiveProfileName :: string where
  "kDefaultActiveProfileName = ''720p 60 10M''"

definition isDefaultProfileName :: "string \<Rightarrow> bool" where
  "isDefaultProfileName n = list_ex (\<lambda>spec. n = spec_name spec) kDefaultStreamProfiles"

definition missingDefaultProfiles :: "string list \<Rightarrow> DefaultStreamProfileSpec list" where
  "missingDefaultProfiles existingNames =
     filter (\<lambda>spec. \<not> list_ex (\<lambda>n. n = spec_name spec) existingNames) kDefaultStreamProfiles"

section \<open>Value rules\<close>

definition profileStoreFilename :: string where "profileStoreFilename = ''profile.json''"
definition legacyProfileStoreFilename :: string where "legacyProfileStoreFilename = ''artemis_profiles.json''"

definition allowed_heights :: "int list" where
  "allowed_heights = [360, 480, 540, 720, 1080, 1440]"

fun nearest_height :: "int \<Rightarrow> int list \<Rightarrow> int \<times> int \<Rightarrow> int" where
  "nearest_height height [] best = fst best"
| "nearest_height height (v # vs) best =
     (let distance = \<bar>height - v\<bar> in nearest_height height vs (if distance < snd best then (v, distance) else best))"

definition normalizeProfileHeight :: "int \<Rightarrow> int" where
  "normalizeProfileHeight height =
     (if height = - 1 then - 1 else nearest_height height allowed_heights (720, \<bar>height - 720\<bar>))"

definition highResolutionMayLag :: "int \<Rightarrow> int \<Rightarrow> bool" where
  "highResolutionMayLag h nativeScalePercent =
     (if h \<ge> 1440 then True else h < 0 \<and> nativeScalePercent \<ge> 200)"

definition normalizeNativeResolutionScale :: "int \<Rightarrow> int" where
  "normalizeNativeResolutionScale scale = (if scale \<in> {50, 75, 100, 200} then scale else 100)"

definition normalizeCustomDimension :: "int \<Rightarrow> int \<Rightarrow> int" where
  "normalizeCustomDimension value fallback = (if value < 160 then fallback else if value > 7680 then 7680 else value)"

definition normalizeVolume :: "int \<Rightarrow> int" where
  "normalizeVolume v = clamp v 0 100"

record ProfileNormalizeInput =
  in_name :: string
  in_resolutionHeight :: int
  in_fps :: int
  in_bitrateKbps :: int
  in_mouseSpeedMultiplier :: int
  in_deadzoneLeft :: cfloat
  in_deadzoneRight :: cfloat
  in_rumbleForce :: cfloat

definition normalizeProfileFields :: "ProfileNormalizeInput \<Rightarrow> ProfileNormalizeInput" where
  "normalizeProfileFields p = p\<lparr>
     in_resolutionHeight := normalizeProfileHeight (in_resolutionHeight p),
     in_fps := (if in_fps p \<le> 0 then 60 else in_fps p),
     in_bitrateKbps := (if in_bitrateKbps p \<le> 0 then 10000 else in_bitrateKbps p),
     in_mouseSpeedMultiplier := clamp (in_mouseSpeedMultiplier p) 0 100,
     in_deadzoneLeft := cf_clamp (in_deadzoneLeft p) (Finite 0) (Finite 1),
     in_deadzoneRight := cf_clamp (in_deadzoneRight p) (Finite 0) (Finite 1),
     in_rumbleForce := cf_clamp (in_rumbleForce p) (Finite 0) (Finite 1),
     in_name := (if in_name p = [] then ''Profile'' else in_name p)\<rparr>"

section \<open>Enumerations\<close>

datatype ScaleMode = Fit | Fill | Stretch

definition scaleModeToString :: "ScaleMode \<Rightarrow> string" where
  "scaleModeToString mode = (case mode of Fit \<Rightarrow> ''fit'' | Stretch \<Rightarrow> ''stretch'' | Fill \<Rightarrow> ''fill'')"

definition scaleModeFromString :: "string \<Rightarrow> ScaleMode" where
  "scaleModeFromString s = (if s = ''fit'' then Fit else if s = ''stretch'' then Stretch else Fill)"

definition H264 :: int where "H264 = 0"
definition H265 :: int where "H265 = 1"
definition AV1 :: int where "AV1 = 2"

definition codecToString :: "int \<Rightarrow> string" where
  "codecToString codec = (if codec = H264 then ''H264'' else if codec = AV1 then ''AV1'' else ''H265'')"

definition codecFromString :: "string \<Rightarrow> int" where
  "codecFromString s =
     (if s = ''H264'' \<or> s = ''h264'' then H264 else if s = ''AV1'' \<or> s = ''av1'' then AV1 else H265)"

definition SDL :: int where "SDL = 0"
definition AUDREN :: int where "AUDREN = 1"

definition audioBackendToString :: "int \<Rightarrow> string" where
  "audioBackendToString backend = (if backend = AUDREN then ''audren'' else ''sdl'')"

definition audioBackendFromString :: "string \<Rightarrow> int" where
  "audioBackendFromString s = (if s = ''audren'' then AUDREN else SDL)"

datatype PointerMode = MultiTouch | Absolute | AbsoluteSwapped | TrackpadNatural | TrackpadGaming | Disabled

definition pointerModeFromLegacyTouchscreen :: "bool \<Rightarrow> PointerMode" where
  "pointerModeFromLegacyTouchscreen touchscreen = (if touchscreen then MultiTouch else TrackpadNatural)"

definition legacyTouchscreenFromPointerMode :: "PointerMode \<Rightarrow> bool" where
  "legacyTouchscreenFromPointerMode mode = (mode = MultiTouch)"

definition pointerModeName :: "PointerMode \<Rightarrow> string" where
  "pointerModeName mode =
     (case mode of MultiTouch \<Rightarrow> ''multitouch'' | Absolute \<Rightarrow> ''absolute'' | AbsoluteSwapped \<Rightarrow> ''absolute-swapped''
      | TrackpadNatural \<Rightarrow> ''natural-trackpad'' | TrackpadGaming \<Rightarrow> ''gaming-trackpad'' | Disabled \<Rightarrow> ''disabled'')"

definition pointerModeFromName :: "string \<Rightarrow> PointerMode option" where
  "pointerModeFromName n =
     find (\<lambda>candidate. n = pointerModeName candidate)
       [MultiTouch, Absolute, AbsoluteSwapped, TrackpadNatural, TrackpadGaming, Disabled]"

definition isTrackpadMode :: "PointerMode \<Rightarrow> bool" where
  "isTrackpadMode mode = (mode = TrackpadNatural \<or> mode = TrackpadGaming)"

definition isAbsoluteMode :: "PointerMode \<Rightarrow> bool" where
  "isAbsoluteMode mode = (mode = Absolute \<or> mode = AbsoluteSwapped)"

section \<open>The profile\<close>

record StreamConfigProfile =
  profile_id :: string
  profile_name :: string
  resolutionHeight :: int
  aspectRatio :: int
  fps :: int
  clientRefreshRateX100 :: int
  bitrateKbps :: int
  videoCodec :: int
  requestHdr :: bool
  decoderThreads :: int
  nativeResolutionScale :: int
  useHwDecoding :: bool
  forceFullRangeVideo :: bool
  preventPacketLoss :: bool
  lowLatencyPacing :: bool
  framesQueueSize :: int
  packetSize :: int
  customResolutionEnabled :: bool
  customWidth :: int
  customHeight :: int
  scaleMode :: ScaleMode
  rememberZoomPan :: bool
  upscalingMode :: int
  dithering :: bool
  ditheringStrength :: cfloat
  rcas :: bool
  rcasStrength :: cfloat
  fsrPreset :: int
  forwardMotion :: bool
  consoleMotionFallback :: bool
  hidden :: bool
  streamAudioConfiguration :: int
  playAudioOnPc :: bool
  audioBackend :: int
  volumeAmplification :: bool
  volume :: int
  sops :: bool
  terminateAppOnDisconnect :: bool
  keyboardType :: int
  keyboardLocale :: int
  keyboardFingers :: int
  touchscreenMouseMode :: bool
  pointerMode :: PointerMode
  swapMouseKeys :: bool
  swapMouseScroll :: bool
  swapMouseSticks :: bool
  mouseSpeedMultiplier :: int
  swapUiAb :: bool
  swapUiXy :: bool
  deadzoneLeft :: cfloat
  deadzoneRight :: cfloat
  rumbleForce :: cfloat
  swapStickToDpad :: bool
  mappingLayoutTitle :: string


text \<open>\<open>StreamConfigProfile{}\<close>: the default member initializers.\<close>

definition default_profile :: StreamConfigProfile where
  "default_profile = \<lparr>
     profile_id = [], profile_name = [],
     resolutionHeight = 720, aspectRatio = Ratio16x9, fps = 60, clientRefreshRateX100 = 0, bitrateKbps = 10000,
     videoCodec = H264, requestHdr = False, decoderThreads = 4, nativeResolutionScale = 100, useHwDecoding = True,
     forceFullRangeVideo = False, preventPacketLoss = False, lowLatencyPacing = False, framesQueueSize = 3, packetSize = 0,
     customResolutionEnabled = False, customWidth = 1920, customHeight = 1080,
     scaleMode = Fill, rememberZoomPan = False, upscalingMode = 0, dithering = False, ditheringStrength = Finite 3,
     rcas = True, rcasStrength = to_float (1 / 5), fsrPreset = 0,
     forwardMotion = True, consoleMotionFallback = False, hidden = False,
     streamAudioConfiguration = 0, playAudioOnPc = False, audioBackend = AUDREN, volumeAmplification = False, volume = 100,
     sops = False, terminateAppOnDisconnect = False,
     keyboardType = 0, keyboardLocale = 0, keyboardFingers = 3,
     touchscreenMouseMode = False, pointerMode = TrackpadNatural, swapMouseKeys = False, swapMouseScroll = False,
     swapMouseSticks = False, mouseSpeedMultiplier = 47,
     swapUiAb = False, swapUiXy = False, deadzoneLeft = Finite 0, deadzoneRight = Finite 0, rumbleForce = Finite 1,
     swapStickToDpad = False, mappingLayoutTitle = []\<rparr>"

definition resolutionWidth :: "StreamConfigProfile \<Rightarrow> int" where
  "resolutionWidth p = streamWidthFromHeight (resolutionHeight p) (aspectRatio p)"

definition normalizeProfile :: "StreamConfigProfile \<Rightarrow> StreamConfigProfile" where
  "normalizeProfile p = p\<lparr>
     resolutionHeight := normalizeProfileHeight (resolutionHeight p),
     aspectRatio := normalizeAspectRatio (aspectRatio p),
     fps := (if fps p \<le> 0 then 60 else fps p),
     clientRefreshRateX100 := (if clientRefreshRateX100 p < 0 then 0 else clientRefreshRateX100 p),
     bitrateKbps := (if bitrateKbps p \<le> 0 then 10000 else bitrateKbps p),
     decoderThreads := (if decoderThreads p < 0 then 4 else decoderThreads p),
     profile_name := (if profile_name p = [] then ''Profile'' else profile_name p),
     nativeResolutionScale := normalizeNativeResolutionScale (nativeResolutionScale p),
     customWidth := normalizeCustomDimension (customWidth p) 1920,
     customHeight := normalizeCustomDimension (customHeight p) 1080,
     ditheringStrength := cf_clamp (ditheringStrength p) (Finite 1) (Finite 10),
     rcasStrength := cf_clamp (rcasStrength p) (Finite 0) (Finite 1),
     fsrPreset := fsr_code (normalizeFsrPreset (fsrPreset p)),
     deadzoneLeft := cf_clamp (deadzoneLeft p) (Finite 0) (Finite 1),
     deadzoneRight := cf_clamp (deadzoneRight p) (Finite 0) (Finite 1),
     rumbleForce := cf_clamp (rumbleForce p) (Finite 0) (Finite 1),
     mouseSpeedMultiplier := clamp (mouseSpeedMultiplier p) 0 100,
     packetSize := clampPacketSize (packetSize p),
     keyboardFingers := clamp (keyboardFingers p) 0 10,
     keyboardLocale := (if keyboardLocale p < 0 then 0 else keyboardLocale p),
     touchscreenMouseMode := legacyTouchscreenFromPointerMode (pointerMode p)\<rparr>"

section \<open>Profiles as JSON\<close>

definition jsonToFloat :: "json_t option \<Rightarrow> cfloat \<Rightarrow> cfloat" where
  "jsonToFloat value defaultValue =
     (case value of Some (Json_real q) \<Rightarrow> to_float q | Some (Json_integer v) \<Rightarrow> to_float (of_int v) | _ \<Rightarrow> defaultValue)"

definition profile_members :: "'fs Jansson \<Rightarrow> StreamConfigProfile \<Rightarrow> (string \<times> json_t option) list" where
  "profile_members J p =
     (let int = (\<lambda>v. Some (Json_integer v)); bool = (\<lambda>b. Some (json_bool b)) in
      [(''id'', json_string J (profile_id p)),
       (''name'', json_string J (profile_name p)),
       (''resolution_height'', int (resolutionHeight p)),
       (''aspect_ratio'', json_string J (aspectRatioToString (aspectRatio p))),
       (''fps'', int (fps p)),
       (''client_refresh_rate_x100'', int (clientRefreshRateX100 p)),
       (''bitrate_kbps'', int (bitrateKbps p)),
       (''video_codec'', json_string J (codecToString (videoCodec p))),
       (''request_hdr'', bool (requestHdr p)),
       (''decoder_threads'', int (decoderThreads p)),
       (''native_resolution_scale'', int (nativeResolutionScale p)),
       (''use_hw_decoding'', bool (useHwDecoding p)),
       (''force_full_range_video'', bool (forceFullRangeVideo p)),
       (''prevent_packet_loss'', bool (preventPacketLoss p)),
       (''low_latency_pacing'', bool (lowLatencyPacing p)),
       (''frames_queue_size'', int (framesQueueSize p)),
       (''packet_size'', int (clampPacketSize (packetSize p))),
       (''custom_resolution_enabled'', bool (customResolutionEnabled p)),
       (''custom_width'', int (customWidth p)),
       (''custom_height'', int (customHeight p)),
       (''scale_mode'', json_string J (scaleModeToString (scaleMode p))),
       (''remember_zoom_pan'', bool (rememberZoomPan p)),
       (''forward_motion'', bool (forwardMotion p)),
       (''console_motion_fallback'', bool (consoleMotionFallback p)),
       (''upscaling_mode'', int (upscalingMode p)),
       (''dithering'', bool (dithering p)),
       (''dithering_strength'', json_real (ditheringStrength p)),
       (''rcas'', bool (rcas p)),
       (''rcas_strength'', json_real (rcasStrength p)),
       (''fsr_preset'', int (fsrPreset p)),
       (''stream_audio_configuration'', int (streamAudioConfiguration p)),
       (''play_audio_on_pc'', bool (playAudioOnPc p)),
       (''sops'', bool (sops p)),
       (''terminate_app_on_disconnect'', bool (terminateAppOnDisconnect p)),
       (''audio_backend'', json_string J (audioBackendToString (audioBackend p))),
       (''volume_amplification'', bool (volumeAmplification p)),
       (''volume'', int (volume p)),
       (''hidden'', bool (hidden p)),
       (''keyboard_type'', int (keyboardType p)),
       (''keyboard_locale'', int (keyboardLocale p)),
       (''keyboard_fingers'', int (keyboardFingers p)),
       (''touchscreen_mouse_mode'', bool (touchscreenMouseMode p)),
       (''pointer_mode'', json_string J (pointerModeName (pointerMode p))),
       (''swap_mouse_keys'', bool (swapMouseKeys p)),
       (''swap_mouse_scroll'', bool (swapMouseScroll p)),
       (''swap_mouse_sticks'', bool (swapMouseSticks p)),
       (''mouse_speed_multiplier'', int (mouseSpeedMultiplier p)),
       (''swap_ui_ab'', bool (swapUiAb p)),
       (''swap_ui_xy'', bool (swapUiXy p)),
       (''swap_ui_keys'', bool (swapUiAb p \<or> swapUiXy p)),
       (''deadzone_left'', json_real (deadzoneLeft p)),
       (''deadzone_right'', json_real (deadzoneRight p)),
       (''rumble_force'', json_real (rumbleForce p)),
       (''swap_stick_to_dpad'', bool (swapStickToDpad p)),
       (''mapping_layout_title'', json_string J (mappingLayoutTitle p))])"

definition profileToJson :: "'fs Jansson \<Rightarrow> StreamConfigProfile \<Rightarrow> json_t" where
  "profileToJson J p = json_object_of J (profile_members J p)"

text \<open>The fields whose reading is more than one member and a cast.\<close>

definition read_aspectRatio :: "json_t \<Rightarrow> int \<Rightarrow> int" where
  "read_aspectRatio ob dflt =
     (case json_object_get ob ''aspect_ratio'' of
        Some (Json_string s) \<Rightarrow> aspectRatioFromString s
      | Some (Json_integer v) \<Rightarrow> aspectRatioFromInt (to_int32 v)
      | _ \<Rightarrow> dflt)"

definition read_mapped :: "json_t \<Rightarrow> string \<Rightarrow> (string \<Rightarrow> 'a) \<Rightarrow> 'a \<Rightarrow> 'a" where
  "read_mapped ob key parse dflt =
     (case json_object_get ob key of Some (Json_string s) \<Rightarrow> parse s | _ \<Rightarrow> dflt)"

definition read_framesQueueSize :: "json_t \<Rightarrow> int \<Rightarrow> int" where
  "read_framesQueueSize ob dflt =
     (case json_object_get ob ''frames_queue_size'' of
        Some (Json_integer v) \<Rightarrow> (let size = to_int32 v; size = (if size < 1 then 1 else size) in if size > 5 then 5 else size)
      | _ \<Rightarrow> dflt)"

definition read_packetSize :: "json_t \<Rightarrow> int \<Rightarrow> int" where
  "read_packetSize ob dflt =
     (case json_object_get ob ''packet_size'' of Some (Json_integer v) \<Rightarrow> clampPacketSize (to_int32 v) | _ \<Rightarrow> dflt)"

definition read_audioBackend :: "json_t \<Rightarrow> int \<Rightarrow> int" where
  "read_audioBackend ob dflt =
     (case json_object_get ob ''audio_backend'' of
        Some (Json_string s) \<Rightarrow> audioBackendFromString s
      | Some (Json_integer v) \<Rightarrow> to_int32 v
      | _ \<Rightarrow> dflt)"

definition read_volume :: "json_t \<Rightarrow> int \<Rightarrow> int" where
  "read_volume ob dflt =
     (case json_object_get ob ''volume'' of Some (Json_integer v) \<Rightarrow> normalizeVolume (to_int32 v) | _ \<Rightarrow> dflt)"

definition read_pointerMode :: "json_t \<Rightarrow> bool \<Rightarrow> PointerMode" where
  "read_pointerMode ob touchscreen =
     (case Option.bind (Option.bind (json_object_get ob ''pointer_mode'') json_string_value) pointerModeFromName of
        Some mode \<Rightarrow> mode
      | None \<Rightarrow> pointerModeFromLegacyTouchscreen touchscreen)"

definition read_swapUi :: "json_t \<Rightarrow> string \<Rightarrow> bool \<Rightarrow> bool" where
  "read_swapUi ob key dflt = bool_member ob key (bool_member ob ''swap_ui_keys'' dflt)"

definition profileFromJson :: "json_t \<Rightarrow> StreamConfigProfile" where
  "profileFromJson ob =
     (let p = default_profile;
          float = (\<lambda>key dflt. jsonToFloat (json_object_get ob key) dflt);
          mode = read_pointerMode ob (bool_member ob ''touchscreen_mouse_mode'' (touchscreenMouseMode p))
      in
      if \<not> json_is_object ob then p
      else normalizeProfile \<lparr>
        profile_id = string_member ob ''id'' (profile_id p),
        profile_name = string_member ob ''name'' (profile_name p),
        resolutionHeight = int_member ob ''resolution_height'' (resolutionHeight p),
        aspectRatio = read_aspectRatio ob (aspectRatio p),
        fps = int_member ob ''fps'' (fps p),
        clientRefreshRateX100 = int_member ob ''client_refresh_rate_x100'' (clientRefreshRateX100 p),
        bitrateKbps = int_member ob ''bitrate_kbps'' (bitrateKbps p),
        videoCodec = read_mapped ob ''video_codec'' codecFromString (videoCodec p),
        requestHdr = bool_member ob ''request_hdr'' (requestHdr p),
        decoderThreads = int_member ob ''decoder_threads'' (decoderThreads p),
        nativeResolutionScale = int_member ob ''native_resolution_scale'' (nativeResolutionScale p),
        useHwDecoding = bool_member ob ''use_hw_decoding'' (useHwDecoding p),
        forceFullRangeVideo = bool_member ob ''force_full_range_video'' (forceFullRangeVideo p),
        preventPacketLoss = bool_member ob ''prevent_packet_loss'' (preventPacketLoss p),
        lowLatencyPacing = bool_member ob ''low_latency_pacing'' (lowLatencyPacing p),
        framesQueueSize = read_framesQueueSize ob (framesQueueSize p),
        packetSize = read_packetSize ob (packetSize p),
        customResolutionEnabled = bool_member ob ''custom_resolution_enabled'' (customResolutionEnabled p),
        customWidth = int_member ob ''custom_width'' (customWidth p),
        customHeight = int_member ob ''custom_height'' (customHeight p),
        scaleMode = read_mapped ob ''scale_mode'' scaleModeFromString (scaleMode p),
        rememberZoomPan = bool_member ob ''remember_zoom_pan'' (rememberZoomPan p),
        upscalingMode = int_member ob ''upscaling_mode'' (upscalingMode p),
        dithering = bool_member ob ''dithering'' (dithering p),
        ditheringStrength = float ''dithering_strength'' (ditheringStrength p),
        rcas = bool_member ob ''rcas'' (rcas p),
        rcasStrength = float ''rcas_strength'' (rcasStrength p),
        fsrPreset = int_member ob ''fsr_preset'' (fsrPreset p),
        forwardMotion = bool_member ob ''forward_motion'' (forwardMotion p),
        consoleMotionFallback = bool_member ob ''console_motion_fallback'' (consoleMotionFallback p),
        hidden = bool_member ob ''hidden'' (hidden p),
        streamAudioConfiguration = int_member ob ''stream_audio_configuration'' (streamAudioConfiguration p),
        playAudioOnPc = bool_member ob ''play_audio_on_pc'' (playAudioOnPc p),
        audioBackend = read_audioBackend ob (audioBackend p),
        volumeAmplification = bool_member ob ''volume_amplification'' (volumeAmplification p),
        volume = read_volume ob (volume p),
        sops = bool_member ob ''sops'' (sops p),
        terminateAppOnDisconnect = bool_member ob ''terminate_app_on_disconnect'' (terminateAppOnDisconnect p),
        keyboardType = int_member ob ''keyboard_type'' (keyboardType p),
        keyboardLocale = int_member ob ''keyboard_locale'' (keyboardLocale p),
        keyboardFingers = int_member ob ''keyboard_fingers'' (keyboardFingers p),
        touchscreenMouseMode = legacyTouchscreenFromPointerMode mode,
        pointerMode = mode,
        swapMouseKeys = bool_member ob ''swap_mouse_keys'' (swapMouseKeys p),
        swapMouseScroll = bool_member ob ''swap_mouse_scroll'' (swapMouseScroll p),
        swapMouseSticks = bool_member ob ''swap_mouse_sticks'' (swapMouseSticks p),
        mouseSpeedMultiplier = int_member ob ''mouse_speed_multiplier'' (mouseSpeedMultiplier p),
        swapUiAb = read_swapUi ob ''swap_ui_ab'' (swapUiAb p),
        swapUiXy = read_swapUi ob ''swap_ui_xy'' (swapUiXy p),
        deadzoneLeft = float ''deadzone_left'' (deadzoneLeft p),
        deadzoneRight = float ''deadzone_right'' (deadzoneRight p),
        rumbleForce = float ''rumble_force'' (rumbleForce p),
        swapStickToDpad = bool_member ob ''swap_stick_to_dpad'' (swapStickToDpad p),
        mappingLayoutTitle = string_member ob ''mapping_layout_title'' (mappingLayoutTitle p)\<rparr>)"

end
