(* ===== verification/StreamProfilesCorrect.thy ===== *)
theory StreamProfilesCorrect
  imports StreamProfiles
begin

text \<open>
  Stream profiles: the values \<open>normalizeProfile\<close> enforces, and that a profile written as JSON and
  read again is the same profile.
\<close>

section \<open>Normal values\<close>

definition cf_between :: "cfloat \<Rightarrow> cfloat \<Rightarrow> cfloat \<Rightarrow> bool" where
  "cf_between lo hi v = (\<not> cf_less v lo \<and> \<not> cf_less hi v)"

lemma cf_clamp_between: "\<not> cf_less hi lo \<Longrightarrow> cf_between lo hi (cf_clamp v lo hi)"
proof -
  have irrefl: "\<not> cf_less x x" for x by (cases x) auto
  assume "\<not> cf_less hi lo"
  then show ?thesis by (auto simp: cf_between_def cf_clamp_def irrefl)
qed

lemma cf_clamp_id: "cf_between lo hi v \<Longrightarrow> cf_clamp v lo hi = v"
  by (simp add: cf_between_def cf_clamp_def)

lemma nearest_height_mem: "nearest_height h vs best \<in> insert (fst best) (set vs)"
  by (induction h vs best rule: nearest_height.induct) (auto simp: Let_def split: if_splits)

lemma nearest_height_best:
  "\<bar>h - nearest_height h vs (b, \<bar>h - b\<bar>)\<bar> \<le> \<bar>h - b\<bar> \<and> (\<forall>v \<in> set vs. \<bar>h - nearest_height h vs (b, \<bar>h - b\<bar>)\<bar> \<le> \<bar>h - v\<bar>)"
proof (induction vs arbitrary: b)
  case (Cons v vs)
  show ?case using Cons.IH [of b] Cons.IH [of v] by (auto simp: Let_def)
qed simp

definition height_ok :: "int \<Rightarrow> bool" where
  "height_ok h = (h = - 1 \<or> h \<in> set allowed_heights)"

interpretation profile_height: normalizer normalizeProfileHeight height_ok
proof
  show "height_ok (normalizeProfileHeight h)" for h
    using nearest_height_mem [of h allowed_heights "(720, \<bar>h - 720\<bar>)"]
    by (auto simp: height_ok_def normalizeProfileHeight_def allowed_heights_def simp del: nearest_height.simps)
  show "normalizeProfileHeight h = h" if "height_ok h" for h
    using that by (auto simp: height_ok_def normalizeProfileHeight_def allowed_heights_def)
qed

definition profile_normal :: "StreamConfigProfile \<Rightarrow> bool" where
  "profile_normal p =
     (height_ok (resolutionHeight p) \<and> aspectRatio p \<in> {Ratio16x9, Ratio4x3} \<and> 0 < fps p \<and>
      0 \<le> clientRefreshRateX100 p \<and> 0 < bitrateKbps p \<and> 0 \<le> decoderThreads p \<and> profile_name p \<noteq> [] \<and>
      nativeResolutionScale p \<in> {50, 75, 100, 200} \<and> customWidth p \<in> {160..7680} \<and> customHeight p \<in> {160..7680} \<and>
      cf_between (Finite 1) (Finite 10) (ditheringStrength p) \<and> cf_between (Finite 0) (Finite 1) (rcasStrength p) \<and>
      fsrPreset p \<in> {0..3} \<and> cf_between (Finite 0) (Finite 1) (deadzoneLeft p) \<and>
      cf_between (Finite 0) (Finite 1) (deadzoneRight p) \<and> cf_between (Finite 0) (Finite 1) (rumbleForce p) \<and>
      mouseSpeedMultiplier p \<in> {0..100} \<and> packet_size_ok (packetSize p) \<and> keyboardFingers p \<in> {0..10} \<and>
      0 \<le> keyboardLocale p \<and> (touchscreenMouseMode p \<longleftrightarrow> pointerMode p = MultiTouch))"

lemma clamp_range: "lo \<le> hi \<Longrightarrow> lo \<le> clamp v lo hi \<and> clamp v lo hi \<le> hi"
  by (simp add: clamp_def)

lemma clamp_id: "lo \<le> v \<Longrightarrow> v \<le> hi \<Longrightarrow> clamp v lo hi = v"
  by (simp add: clamp_def)

lemma fsr_code_range: "fsr_code x \<in> {0..3}"
  by (cases x) (simp_all add: fsr_code_def)

lemma fsr_code_normalize: "v \<in> {0..3} \<Longrightarrow> fsr_code (normalizeFsrPreset v) = v"
  by (auto simp: fsr_code_def normalizeFsrPreset_def)

lemma custom_dimension_range: "fb \<in> {160..7680} \<Longrightarrow> normalizeCustomDimension v fb \<in> {160..7680}"
  by (simp add: normalizeCustomDimension_def)

interpretation stream_profile: normalizer normalizeProfile profile_normal
proof
  show "profile_normal (normalizeProfile p)" for p
    using profile_height.norm_ok [of "resolutionHeight p"] packet_size.norm_ok [of "packetSize p"]
      fsr_code_range [of "normalizeFsrPreset (fsrPreset p)"] custom_dimension_range [of 1920 "customWidth p"]
      custom_dimension_range [of 1080 "customHeight p"]
    by (simp add: profile_normal_def normalizeProfile_def normalizeAspectRatio_def normalizeNativeResolutionScale_def
        cf_clamp_between clamp_range legacyTouchscreenFromPointerMode_def)
  show "normalizeProfile p = p" if "profile_normal p" for p
  proof -
    have "normalizeProfileHeight (resolutionHeight p) = resolutionHeight p" "normalizeAspectRatio (aspectRatio p) = aspectRatio p"
      "\<not> fps p \<le> 0" "\<not> clientRefreshRateX100 p < 0" "\<not> bitrateKbps p \<le> 0" "\<not> decoderThreads p < 0" "profile_name p \<noteq> []"
      "normalizeNativeResolutionScale (nativeResolutionScale p) = nativeResolutionScale p"
      "normalizeCustomDimension (customWidth p) 1920 = customWidth p" "normalizeCustomDimension (customHeight p) 1080 = customHeight p"
      "cf_clamp (ditheringStrength p) (Finite 1) (Finite 10) = ditheringStrength p"
      "cf_clamp (rcasStrength p) (Finite 0) (Finite 1) = rcasStrength p"
      "fsr_code (normalizeFsrPreset (fsrPreset p)) = fsrPreset p"
      "cf_clamp (deadzoneLeft p) (Finite 0) (Finite 1) = deadzoneLeft p"
      "cf_clamp (deadzoneRight p) (Finite 0) (Finite 1) = deadzoneRight p"
      "cf_clamp (rumbleForce p) (Finite 0) (Finite 1) = rumbleForce p"
      "clamp (mouseSpeedMultiplier p) 0 100 = mouseSpeedMultiplier p" "clampPacketSize (packetSize p) = packetSize p"
      "clamp (keyboardFingers p) 0 10 = keyboardFingers p" "\<not> keyboardLocale p < 0"
      "legacyTouchscreenFromPointerMode (pointerMode p) = touchscreenMouseMode p"
      using that by (simp_all add: profile_normal_def profile_height.norm_id packet_size.norm_id fsr_code_normalize
          normalizeAspectRatio_def normalizeNativeResolutionScale_def normalizeCustomDimension_def
          cf_clamp_id clamp_id legacyTouchscreenFromPointerMode_def, auto)
    then show ?thesis by (cases p) (simp add: normalizeProfile_def)
  qed
qed

text \<open>The rules of \<open>normalizeProfileFields\<close>, which the tests of the application exercise, are those of
  \<open>normalizeProfile\<close> on the fields they share.\<close>

definition shared_fields :: "StreamConfigProfile \<Rightarrow> ProfileNormalizeInput" where
  "shared_fields p = \<lparr>in_name = profile_name p, in_resolutionHeight = resolutionHeight p, in_fps = fps p,
     in_bitrateKbps = bitrateKbps p, in_mouseSpeedMultiplier = mouseSpeedMultiplier p, in_deadzoneLeft = deadzoneLeft p,
     in_deadzoneRight = deadzoneRight p, in_rumbleForce = rumbleForce p\<rparr>"

lemma normalizeProfileFields_agrees: "normalizeProfileFields (shared_fields p) = shared_fields (normalizeProfile p)"
  by (simp add: normalizeProfileFields_def shared_fields_def normalizeProfile_def)

text \<open>A height that is neither native nor a preset becomes the nearest preset.\<close>

lemma normalizeProfileHeight_nearest:
  "h \<noteq> - 1 \<Longrightarrow> v \<in> set allowed_heights \<Longrightarrow> \<bar>h - normalizeProfileHeight h\<bar> \<le> \<bar>h - v\<bar>"
  using nearest_height_best [of h allowed_heights 720] by (simp add: normalizeProfileHeight_def)

section \<open>Profiles as JSON\<close>

definition profile_keys :: "string list" where
  "profile_keys =
    [''id'', ''name'', ''resolution_height'', ''aspect_ratio'', ''fps'', ''client_refresh_rate_x100'',
     ''bitrate_kbps'', ''video_codec'', ''request_hdr'', ''decoder_threads'', ''native_resolution_scale'',
     ''use_hw_decoding'', ''force_full_range_video'', ''prevent_packet_loss'', ''low_latency_pacing'',
     ''frames_queue_size'', ''packet_size'', ''custom_resolution_enabled'', ''custom_width'', ''custom_height'',
     ''scale_mode'', ''remember_zoom_pan'', ''forward_motion'', ''console_motion_fallback'', ''upscaling_mode'',
     ''dithering'', ''dithering_strength'', ''rcas'', ''rcas_strength'', ''fsr_preset'',
     ''stream_audio_configuration'', ''play_audio_on_pc'', ''sops'', ''terminate_app_on_disconnect'',
     ''audio_backend'', ''volume_amplification'', ''volume'', ''hidden'', ''keyboard_type'', ''keyboard_locale'',
     ''keyboard_fingers'', ''touchscreen_mouse_mode'', ''pointer_mode'', ''swap_mouse_keys'', ''swap_mouse_scroll'',
     ''swap_mouse_sticks'', ''mouse_speed_multiplier'', ''swap_ui_ab'', ''swap_ui_xy'', ''swap_ui_keys'',
     ''deadzone_left'', ''deadzone_right'', ''rumble_force'', ''swap_stick_to_dpad'', ''mapping_layout_title'']"

lemma profile_members_keys: "map fst (profile_members J p) = profile_keys"
  by (simp add: profile_keys_def profile_members_def)

lemma profile_keys_distinct: "distinct profile_keys"
  unfolding profile_keys_def by code_simp

lemma profile_keys_ascii: "list_all ascii_key profile_keys"
  unfolding profile_keys_def ascii_key_def by simp

lemma profile_members_storable: "jansson_ok J \<Longrightarrow> list_all (\<lambda>kv. storable_text J (fst kv)) (profile_members J p)"
  using profile_keys_ascii storable_ascii [of J]
  by (auto simp: list_all_iff simp flip: profile_members_keys [of J p])

lemma profileToJson_get:
  "jansson_ok J \<Longrightarrow> json_object_get (profileToJson J p) k = Option.bind (map_of (profile_members J p) k) (\<lambda>v. v)"
  by (simp add: profileToJson_def json_object_get_of profile_members_storable profile_members_keys profile_keys_distinct)

lemma ascii_json_string: "jansson_ok J \<Longrightarrow> ascii_key s \<Longrightarrow> json_string J s = Some (Json_string s)"
  by (simp add: json_string_storable storable_ascii)

lemma name_texts_ascii:
  "ascii_key (aspectRatioToString a)" "ascii_key (codecToString c)" "ascii_key (scaleModeToString m)"
  "ascii_key (audioBackendToString b)" "ascii_key (pointerModeName q)"
  by (auto simp: ascii_key_def aspectRatioToString_def codecToString_def scaleModeToString_def audioBackendToString_def
      pointerModeName_def split: ScaleMode.split PointerMode.split)

lemma pointerModeFromName_name: "pointerModeFromName (pointerModeName m) = Some m"
  by (cases m) (simp_all add: pointerModeFromName_def pointerModeName_def)

text \<open>All members of a profile at once, so that no key is ever searched for.\<close>

lemma map_of_map_fst: "distinct (map fst kvs) \<Longrightarrow> map (\<lambda>k. map_of kvs k) (map fst kvs) = map (\<lambda>kv. Some (snd kv)) kvs"
  by (auto intro: map_of_is_SomeI)

lemma profile_lookups:
  assumes "jansson_ok J"
  shows "map (json_object_get (profileToJson J p)) profile_keys = map snd (profile_members J p)"
proof -
  have "map (json_object_get (profileToJson J p)) (map fst (profile_members J p)) =
      map (\<lambda>v. Option.bind v (\<lambda>v. v)) (map (\<lambda>k. map_of (profile_members J p) k) (map fst (profile_members J p)))"
    by (simp add: profileToJson_get [OF assms])
  also have "\<dots> = map snd (profile_members J p)"
    using map_of_map_fst [of "profile_members J p"] profile_keys_distinct by (simp add: profile_members_keys)
  finally show ?thesis by (simp only: profile_members_keys)
qed

lemmas profile_lookup = profile_lookups [unfolded profile_keys_def profile_members_def, simplified]

lemma int_member_eq: "json_object_get ob k = Some (Json_integer v) \<Longrightarrow> is_int32 v \<Longrightarrow> int_member ob k d = v"
  by (simp add: int_member_def to_int32_id)

lemma bool_member_eq: "json_object_get ob k = Some (json_bool b) \<Longrightarrow> bool_member ob k d = b"
  by (simp add: bool_member_def json_bool_def)

lemma string_member_eq:
  "json_object_get ob k = json_string J s \<Longrightarrow> storable_text J s \<Longrightarrow> string_member ob k d = s"
  by (simp add: string_member_def json_string_storable)

lemma read_mapped_eq:
  "jansson_ok J \<Longrightarrow> json_object_get ob k = json_string J s \<Longrightarrow> ascii_key s \<Longrightarrow> parse s = v \<Longrightarrow> read_mapped ob k parse d = v"
  by (simp add: read_mapped_def ascii_json_string)

definition storable_float :: "cfloat \<Rightarrow> bool" where
  "storable_float v = (case v of Finite q \<Rightarrow> is_float v | _ \<Rightarrow> False)"

lemma jsonToFloat_json_real: "storable_float v \<Longrightarrow> jsonToFloat (json_real v) d = v"
  by (cases v) (auto simp: storable_float_def jsonToFloat_def is_float_def)

text \<open>
  The profiles that survive a round through a file: normal values, and what \<open>normalizeProfile\<close> does not
  enforce but \<open>profileFromJson\<close> does (the queue depth, the volume, known enumerators), texts that JSON
  can hold, and the ranges of the C++ types.
\<close>

definition storable_profile :: "'fs Jansson \<Rightarrow> StreamConfigProfile \<Rightarrow> bool" where
  "storable_profile J p =
     (profile_normal p \<and> framesQueueSize p \<in> {1..5} \<and> volume p \<in> {0..100} \<and>
      videoCodec p \<in> {H264, H265, AV1} \<and> audioBackend p \<in> {SDL, AUDREN} \<and>
      list_all (storable_text J) [profile_id p, profile_name p, mappingLayoutTitle p] \<and>
      list_all storable_float [ditheringStrength p, rcasStrength p, deadzoneLeft p, deadzoneRight p, rumbleForce p] \<and>
      list_all is_int32 [fps p, clientRefreshRateX100 p, bitrateKbps p, decoderThreads p, upscalingMode p,
        streamAudioConfiguration p, keyboardType p, keyboardLocale p])"

lemma enum_texts:
  "a \<in> {Ratio16x9, Ratio4x3} \<Longrightarrow> aspectRatioFromString (aspectRatioToString a) = a"
  "c \<in> {H264, H265, AV1} \<Longrightarrow> codecFromString (codecToString c) = c"
  "b \<in> {SDL, AUDREN} \<Longrightarrow> audioBackendFromString (audioBackendToString b) = b"
  "scaleModeFromString (scaleModeToString m) = m"
  by (auto simp: aspectRatioFromString_def aspectRatioToString_def normalizeAspectRatio_def Ratio16x9_def Ratio4x3_def
      codecFromString_def codecToString_def H264_def H265_def AV1_def audioBackendFromString_def audioBackendToString_def
      SDL_def AUDREN_def scaleModeFromString_def scaleModeToString_def split: ScaleMode.splits)

lemma small_int32: "- 1000000 \<le> v \<Longrightarrow> v \<le> 1000000 \<Longrightarrow> is_int32 v"
  by (simp add: is_int32_def)

lemma profile_normal_int32:
  assumes "profile_normal p"
  shows "is_int32 (resolutionHeight p)" "is_int32 (nativeResolutionScale p)" "is_int32 (customWidth p)" "is_int32 (customHeight p)"
    "is_int32 (fsrPreset p)" "is_int32 (mouseSpeedMultiplier p)" "is_int32 (packetSize p)" "is_int32 (keyboardFingers p)"
proof -
  have *: "height_ok (resolutionHeight p)" "nativeResolutionScale p \<in> {50, 75, 100, 200}" "customWidth p \<in> {160..7680}"
    "customHeight p \<in> {160..7680}" "fsrPreset p \<in> {0..3}" "mouseSpeedMultiplier p \<in> {0..100}" "packet_size_ok (packetSize p)"
    "keyboardFingers p \<in> {0..10}"
    using assms by (simp_all add: profile_normal_def)
  show "is_int32 (resolutionHeight p)" using *(1) by (auto simp: height_ok_def allowed_heights_def is_int32_def)
  show "is_int32 (nativeResolutionScale p)" using *(2) by (auto simp: is_int32_def)
  show "is_int32 (packetSize p)"
    using *(7) by (auto simp: packet_size_ok_def kPacketSizeMin_def kPacketSizeMax_def kPacketSizeAuto_def is_int32_def)
  show "is_int32 (customWidth p)" "is_int32 (customHeight p)" "is_int32 (fsrPreset p)" "is_int32 (mouseSpeedMultiplier p)"
    "is_int32 (keyboardFingers p)"
    using *(3-6,8) by (simp_all add: small_int32)
qed

lemma read_fields:
  assumes J: "jansson_ok J" and p: "storable_profile J p"
  shows "read_aspectRatio (profileToJson J p) d1 = aspectRatio p"
    "read_framesQueueSize (profileToJson J p) d2 = framesQueueSize p"
    "read_packetSize (profileToJson J p) d3 = packetSize p"
    "read_audioBackend (profileToJson J p) d4 = audioBackend p"
    "read_volume (profileToJson J p) d5 = volume p"
    "read_pointerMode (profileToJson J p) d6 = pointerMode p"
    "read_swapUi (profileToJson J p) ''swap_ui_ab'' d7 = swapUiAb p"
    "read_swapUi (profileToJson J p) ''swap_ui_xy'' d7 = swapUiXy p"
    "read_mapped (profileToJson J p) ''video_codec'' codecFromString d8 = videoCodec p"
    "read_mapped (profileToJson J p) ''scale_mode'' scaleModeFromString d9 = scaleMode p"
proof -
  have normal: "profile_normal p" and enums: "videoCodec p \<in> {H264, H265, AV1}" "audioBackend p \<in> {SDL, AUDREN}"
    and range: "1 \<le> framesQueueSize p" "framesQueueSize p \<le> 5" "0 \<le> volume p" "volume p \<le> 100"
    using p by (simp_all add: storable_profile_def)
  have aspect: "aspectRatio p \<in> {Ratio16x9, Ratio4x3}" and packet: "packet_size_ok (packetSize p)"
    using normal by (simp_all add: profile_normal_def)
  have small: "is_int32 (framesQueueSize p)" "is_int32 (volume p)" "is_int32 (packetSize p)"
    using range profile_normal_int32(7) [OF normal] by (simp_all add: small_int32)
  show "read_aspectRatio (profileToJson J p) d1 = aspectRatio p" "read_audioBackend (profileToJson J p) d4 = audioBackend p"
    "read_mapped (profileToJson J p) ''video_codec'' codecFromString d8 = videoCodec p"
    "read_mapped (profileToJson J p) ''scale_mode'' scaleModeFromString d9 = scaleMode p"
    by (simp_all add: read_aspectRatio_def read_audioBackend_def read_mapped_def profile_lookup [OF J]
        ascii_json_string [OF J] name_texts_ascii enum_texts(1) [OF aspect] enum_texts(2) [OF enums(1)] enum_texts(3) [OF enums(2)]
        enum_texts(4))
  show "read_framesQueueSize (profileToJson J p) d2 = framesQueueSize p" "read_packetSize (profileToJson J p) d3 = packetSize p"
    "read_volume (profileToJson J p) d5 = volume p"
    using range small packet
    by (simp_all add: read_framesQueueSize_def read_packetSize_def read_volume_def profile_lookup [OF J] to_int32_id
        packet_size.norm_id normalizeVolume_def clamp_def)
  show "read_pointerMode (profileToJson J p) d6 = pointerMode p" "read_swapUi (profileToJson J p) ''swap_ui_ab'' d7 = swapUiAb p"
    "read_swapUi (profileToJson J p) ''swap_ui_xy'' d7 = swapUiXy p"
    by (simp_all add: read_pointerMode_def read_swapUi_def profile_lookup [OF J] ascii_json_string [OF J] name_texts_ascii
        pointerModeFromName_name bool_member_def json_bool_def)
qed

lemma profile_json_roundtrip:
  assumes J: "jansson_ok J" and p: "storable_profile J p"
  shows "profileFromJson (profileToJson J p) = p"
proof -
  let ?ob = "profileToJson J p"
  have normal: "profile_normal p" using p by (simp add: storable_profile_def)
  have ob: "json_is_object ?ob"
    by (simp add: profileToJson_def json_object_of_def)
  have touch: "legacyTouchscreenFromPointerMode (pointerMode p) = touchscreenMouseMode p"
    using normal by (simp add: profile_normal_def legacyTouchscreenFromPointerMode_def)
  have ints: "is_int32 (fps p)" "is_int32 (clientRefreshRateX100 p)" "is_int32 (bitrateKbps p)" "is_int32 (decoderThreads p)"
    "is_int32 (upscalingMode p)" "is_int32 (streamAudioConfiguration p)" "is_int32 (keyboardType p)" "is_int32 (keyboardLocale p)"
    and texts: "storable_text J (profile_id p)" "storable_text J (profile_name p)" "storable_text J (mappingLayoutTitle p)"
    and floats: "storable_float (ditheringStrength p)" "storable_float (rcasStrength p)" "storable_float (deadzoneLeft p)"
      "storable_float (deadzoneRight p)" "storable_float (rumbleForce p)"
    using p by (simp_all add: storable_profile_def)
  note lookup = profile_lookup [OF J, of p]
  have "profileFromJson ?ob = normalizeProfile p"
    unfolding profileFromJson_def Let_def
    by (simp add: ob read_fields [OF J p] touch lookup int_member_eq bool_member_eq jsonToFloat_json_real floats ints
        profile_normal_int32 [OF normal] string_member_eq [OF _ texts(1)] string_member_eq [OF _ texts(2)]
        string_member_eq [OF _ texts(3)], cases p, simp)
  then show ?thesis by (simp add: stream_profile.norm_id normal)
qed

section \<open>What is read is storable\<close>

lemma cf_clamp_storable:
  assumes "is_float v" and "v \<noteq> NaN" and "\<bar>lo\<bar> \<le> 2 ^ 24" and "\<bar>hi\<bar> \<le> 2 ^ 24"
  shows "storable_float (cf_clamp v (Finite (of_int lo)) (Finite (of_int hi)))"
  using assms is_float_of_int [OF assms(3)] is_float_of_int [OF assms(4)]
  by (cases v) (auto simp: storable_float_def cf_clamp_def)

lemma to_float_not_NaN [simp]: "to_float q \<noteq> NaN"
  by (simp add: to_float_def Let_def)

lemma jsonToFloat_float: "is_float d \<Longrightarrow> d \<noteq> NaN \<Longrightarrow> is_float (jsonToFloat v d) \<and> jsonToFloat v d \<noteq> NaN"
  by (auto simp: jsonToFloat_def split: option.split json_t.split)

lemma string_member_storable:
  assumes "json_wf J ob" and "storable_text J d"
  shows "storable_text J (string_member ob k d)"
proof (cases "json_object_get ob k")
  case (Some v)
  then obtain ms where ob: "ob = Json_object ms" and "(k, v) \<in> set ms"
    by (cases ob) (auto dest: map_of_SomeD)
  with assms(1) have "json_wf J v" by (auto simp: list_all_iff)
  with Some assms(2) show ?thesis by (cases v) (simp_all add: string_member_def)
qed (simp add: string_member_def assms(2))

lemma int_member_int32: "is_int32 d \<Longrightarrow> is_int32 (int_member ob k d)"
  by (simp add: int_member_def split: option.split)

lemma codecFromString_range: "codecFromString s \<in> {H264, H265, AV1}"
  by (simp add: codecFromString_def)

lemma read_ranges:
  "read_framesQueueSize ob 3 \<in> {1..5}" "read_volume ob 100 \<in> {0..100}"
  "read_mapped ob k codecFromString H264 \<in> {H264, H265, AV1}"
  using codecFromString_range
  by (auto simp: read_framesQueueSize_def read_volume_def normalizeVolume_def clamp_def read_mapped_def Let_def
      split: option.split json_t.split)

lemma normalize_int32: "is_int32 v \<Longrightarrow> is_int32 (if v \<le> 0 then 60 else v)" "is_int32 v \<Longrightarrow> is_int32 (if v < 0 then 0 else v)"
  "is_int32 v \<Longrightarrow> is_int32 (if v \<le> 0 then 10000 else v)" "is_int32 v \<Longrightarrow> is_int32 (if v < 0 then 4 else v)"
  by (simp_all add: is_int32_def)

lemma normalizeProfile_storable:
  assumes J: "jansson_ok J"
    and "framesQueueSize p \<in> {1..5}" "volume p \<in> {0..100}" "videoCodec p \<in> {H264, H265, AV1}" "audioBackend p \<in> {SDL, AUDREN}"
    and "list_all (storable_text J) [profile_id p, profile_name p, mappingLayoutTitle p]"
    and "list_all (\<lambda>v. is_float v \<and> v \<noteq> NaN) [ditheringStrength p, rcasStrength p, deadzoneLeft p, deadzoneRight p, rumbleForce p]"
    and "list_all is_int32 [fps p, clientRefreshRateX100 p, bitrateKbps p, decoderThreads p, upscalingMode p,
        streamAudioConfiguration p, keyboardType p, keyboardLocale p]"
  shows "storable_profile J (normalizeProfile p)"
proof -
  have name: "storable_text J ''Profile''" by (rule storable_ascii [OF J]) (simp add: ascii_key_def)
  note cl = cf_clamp_storable [where lo = 0 and hi = 1, simplified] cf_clamp_storable [where lo = 1 and hi = 10, simplified]
  show ?thesis
    using assms(2-) name stream_profile.norm_ok [of p]
    by (simp add: storable_profile_def normalizeProfile_def cl normalize_int32)
qed

lemma profileFromJson_storable:
  assumes J: "jansson_ok J" and wf: "json_wf J ob" "json_is_object ob" and backend: "read_audioBackend ob AUDREN \<in> {SDL, AUDREN}"
  shows "storable_profile J (profileFromJson ob)"
proof -
  have empty: "storable_text J []" by (rule storable_ascii [OF J]) (simp add: ascii_key_def)
  have defaults: "is_float (Finite 3)" "is_float (Finite 0)" "is_float (Finite 1)"
    using is_float_of_int [of 3] is_float_of_int [of 0] is_float_of_int [of 1] by simp_all
  show ?thesis
    unfolding profileFromJson_def Let_def using wf(2) backend
    by (simp add: default_profile_def, intro normalizeProfile_storable [OF J])
      (simp_all add: read_ranges [simplified] string_member_storable [OF wf(1)] empty jsonToFloat_float defaults int_member_int32 small_int32)
qed

lemma json_real_wf: "is_float v \<Longrightarrow> pred_option (json_wf J) (json_real v)"
  by (cases v) simp_all

lemma json_string_wf: "pred_option (json_wf J) (json_string J s)"
  using json_string_SomeD [of J s] by (cases "json_string J s") auto

lemma profileToJson_wf:
  assumes J: "jansson_ok J" and p: "storable_profile J p"
  shows "json_wf J (profileToJson J p)"
proof -
  have normal: "profile_normal p" and "volume p \<in> {0..100}" "framesQueueSize p \<in> {1..5}"
    using p by (simp_all add: storable_profile_def)
  then have small: "is_int32 (volume p)" "is_int32 (framesQueueSize p)" by (simp_all add: small_int32)
  have packet: "clampPacketSize (packetSize p) = packetSize p"
    using normal by (simp add: profile_normal_def packet_size.norm_id)
  have storable_is_float: "storable_float v \<Longrightarrow> is_float v" for v by (cases v) (simp_all add: storable_float_def)
  have ints: "is_int32 (fps p)" "is_int32 (clientRefreshRateX100 p)" "is_int32 (bitrateKbps p)" "is_int32 (decoderThreads p)"
    "is_int32 (upscalingMode p)" "is_int32 (streamAudioConfiguration p)" "is_int32 (keyboardType p)" "is_int32 (keyboardLocale p)"
    and floats: "is_float (ditheringStrength p)" "is_float (rcasStrength p)" "is_float (deadzoneLeft p)"
      "is_float (deadzoneRight p)" "is_float (rumbleForce p)"
    using p by (simp_all add: storable_profile_def storable_is_float)
  have "list_all (\<lambda>kv. pred_option (json_wf J) (snd kv)) (profile_members J p)"
    unfolding profile_members_def Let_def packet
    by (simp add: json_string_wf json_real_wf floats json_wf_int32 [OF ints(1)] json_wf_int32 [OF ints(2)]
        json_wf_int32 [OF ints(3)] json_wf_int32 [OF ints(4)] json_wf_int32 [OF ints(5)] json_wf_int32 [OF ints(6)]
        json_wf_int32 [OF ints(7)] json_wf_int32 [OF ints(8)] json_wf_int32 [OF small(1)] json_wf_int32 [OF small(2)]
        profile_normal_int32 [OF normal, THEN json_wf_int32] del: json_wf.simps(1))
  then show ?thesis
    unfolding profileToJson_def
    by (intro json_wf_object_of) (simp_all add: profile_members_storable [OF J] profile_members_keys profile_keys_distinct)
qed

section \<open>Claims\<close>

text \<open>A document with one profile of one member, to evaluate the claims on.\<close>

definition ascii_jansson :: "(string \<times> json_t) list Jansson" where
  "ascii_jansson = \<lparr>utf8_valid = list_all (\<lambda>c. (of_char c :: nat) < 128), json_load_file = map_of,
     json_dump_file = (\<lambda>fs v path. (True, AList.update path v fs)), file_exists = (\<lambda>fs path. map_of fs path \<noteq> None)\<rparr>"

lemma ascii_jansson_ok: "jansson_ok ascii_jansson"
  by (auto simp: jansson_ok_def ascii_jansson_def list_all_iff AList.update_conv')

definition example_profile_json :: json_t where
  "example_profile_json = Json_object [(''id'', Json_string ''a''), (''volume'', Json_integer 250), (''resolution_height'', Json_integer 800)]"

lemma example_profile_json_ok:
  "json_wf ascii_jansson example_profile_json" "json_is_object example_profile_json"
  "read_audioBackend example_profile_json AUDREN = AUDREN"
  by (simp_all add: example_profile_json_def storable_text_def ascii_jansson_def read_audioBackend_def)



text \<open>A volume above 100, which the settings allow when the amplification is on and which \<open>normalizeProfile\<close>
  leaves alone, does not survive the file.\<close>

lemma amplified_volume_lost:
  assumes "jansson_ok J" and "is_int32 (volume p)" and "100 < volume p"
  shows "volume (normalizeProfile p) = volume p" and "volume (profileFromJson (profileToJson J p)) = 100"
proof -
  have "json_is_object (profileToJson J p)" by (simp add: profileToJson_def json_object_of_def)
  then show "volume (profileFromJson (profileToJson J p)) = 100"
    using assms by (simp add: profileFromJson_def Let_def normalizeProfile_def read_volume_def profile_lookup to_int32_id
        normalizeVolume_def clamp_def)
qed (simp add: normalizeProfile_def)

end
