(* ===== verification/StreamConfigProfileStore.thy ===== *)
theory StreamConfigProfileStore
  imports StreamProfilesCorrect
begin

text \<open>
  Model of the class \<open>StreamConfigProfileStore\<close> (\<open>app/src/streaming/StreamConfigProfileStore.cpp\<close>): the
  list of profiles, the profile chosen for each host and the active profile, all kept in one JSON
  file.

  The state holds the members of the class, the file system, and how many identifiers \<open>makeId\<close> has
  drawn; the environment holds jansson, the working directory and the clock and random values that
  \<open>makeId\<close> reads, by draw.  A \<open>std::map\<close> is an association list with distinct keys: the order of its
  iteration is visible only in the order of the members of the file.  What \<open>snapshotFromSettings\<close> reads
  from the settings is an argument, a profile with those values (\<open>read_settings\<close> of \<open>StreamSettings\<close>).
\<close>

record 'fs StoreEnv =
  jansson :: "'fs Jansson"
  working_dir :: string
  draw :: "nat \<Rightarrow> int \<times> u32"

record 'fs ProfileStore =
  m_profiles :: "StreamConfigProfile list"
  m_hostProfile :: "(string \<times> string) list"
  m_activeProfileId :: string
  m_loaded :: bool
  files :: 'fs
  drawn :: nat

definition empty_store :: "'fs \<Rightarrow> 'fs ProfileStore" where
  "empty_store fs = \<lparr>m_profiles = [], m_hostProfile = [], m_activeProfileId = [], m_loaded = False, files = fs, drawn = 0\<rparr>"

definition SchemaVersion :: int where
  "SchemaVersion = 14"

section \<open>Paths and identifiers\<close>

definition path_join :: "string \<Rightarrow> string \<Rightarrow> string" where
  "path_join dir f = (if dir = [] \<or> last dir = CHR ''/'' then dir @ f else dir @ ''/'' @ f)"

definition storePath :: "'fs StoreEnv \<Rightarrow> string" where
  "storePath env = path_join (working_dir env) profileStoreFilename"

definition legacyStorePath :: "'fs StoreEnv \<Rightarrow> string" where
  "legacyStorePath env = path_join (working_dir env) legacyProfileStoreFilename"

text \<open>\<open>%lld\<close> and \<open>%08x\<close>; the text is at most 31 characters long, so the buffer of 48 never cuts it.\<close>

definition print_lld :: "int \<Rightarrow> string" where
  "print_lld v = (if v < 0 then ''-'' @ to_string (nat (- v)) else to_string (nat v))"

definition lower_hex :: "nat \<Rightarrow> char" where
  "lower_hex d = ''0123456789abcdef'' ! d"

definition print_08x :: "u32 \<Rightarrow> string" where
  "print_08x v = map (\<lambda>i. lower_hex (unat v div 16 ^ i mod 16)) [7, 6, 5, 4, 3, 2, 1, 0]"

definition makeId :: "'fs StoreEnv \<Rightarrow> 'fs ProfileStore \<Rightarrow> string \<times> 'fs ProfileStore" where
  "makeId env s =
     (case draw env (drawn s) of (now, r) \<Rightarrow>
        (''p-'' @ print_lld now @ ''-'' @ print_08x r, s\<lparr>drawn := Suc (drawn s)\<rparr>))"

section \<open>Writing the file\<close>

definition store_members :: "'fs Jansson \<Rightarrow> 'fs ProfileStore \<Rightarrow> (string \<times> json_t option) list" where
  "store_members J s =
     [(''schema_version'', Some (Json_integer SchemaVersion)),
      (''profiles'', Some (Json_array (map (profileToJson J) (m_profiles s)))),
      (''host_profile'', Some (json_object_of J (map (\<lambda>(key, value). (key, json_string J value)) (m_hostProfile s))))] @
     (if m_activeProfileId s = [] then [] else [(''active_profile_id'', json_string J (m_activeProfileId s))])"

text \<open>\<open>exportJson\<close> and \<open>save\<close> of a store that is loaded; the general ones follow \<open>reload\<close>.\<close>

definition export_loaded :: "'fs StoreEnv \<Rightarrow> string \<Rightarrow> 'fs ProfileStore \<Rightarrow> bool \<times> 'fs ProfileStore" where
  "export_loaded env path s =
     (case json_dump_file (jansson env) (files s) (json_object_of (jansson env) (store_members (jansson env) s)) path of
        (ok, fs) \<Rightarrow> (ok, s\<lparr>files := fs\<rparr>))"

definition save_loaded :: "'fs StoreEnv \<Rightarrow> 'fs ProfileStore \<Rightarrow> 'fs ProfileStore" where
  "save_loaded env s = snd (export_loaded env (storePath env) s)"

section \<open>Built-in profiles\<close>

definition find_profile :: "'fs ProfileStore \<Rightarrow> string \<Rightarrow> StreamConfigProfile option" where
  "find_profile s i = (if i = [] then None else find (\<lambda>p. profile_id p = i) (m_profiles s))"

definition profile_of_spec :: "string \<Rightarrow> DefaultStreamProfileSpec \<Rightarrow> StreamConfigProfile" where
  "profile_of_spec i spec = default_profile\<lparr>profile_id := i, profile_name := spec_name spec, resolutionHeight := spec_height spec,
     aspectRatio := Ratio16x9, fps := spec_fps spec, bitrateKbps := spec_bitrateKbps spec,
     lowLatencyPacing := spec_lowLatencyPacing spec, framesQueueSize := spec_framesQueueSize spec,
     videoCodec := H264, scaleMode := Fill\<rparr>"

definition add_spec :: "'fs StoreEnv \<Rightarrow> DefaultStreamProfileSpec \<Rightarrow> 'fs ProfileStore \<Rightarrow> 'fs ProfileStore" where
  "add_spec env spec s = (case makeId env s of (i, s) \<Rightarrow> s\<lparr>m_profiles := m_profiles s @ [profile_of_spec i spec]\<rparr>)"

definition front_id :: "StreamConfigProfile list \<Rightarrow> string" where
  "front_id ps = (case ps of [] \<Rightarrow> [] | p # _ \<Rightarrow> profile_id p)"

definition default_active_id :: "StreamConfigProfile list \<Rightarrow> string" where
  "default_active_id ps =
     (let named = (case find (\<lambda>p. profile_name p = kDefaultActiveProfileName) ps of None \<Rightarrow> [] | Some p \<Rightarrow> profile_id p)
      in if named = [] then front_id ps else named)"

definition choose_default_active :: "'fs ProfileStore \<Rightarrow> 'fs ProfileStore" where
  "choose_default_active s =
     (if m_activeProfileId s = [] \<and> m_profiles s \<noteq> [] then s\<lparr>m_activeProfileId := default_active_id (m_profiles s)\<rparr> else s)"

definition addMissingDefaults_loaded :: "'fs StoreEnv \<Rightarrow> 'fs ProfileStore \<Rightarrow> nat \<times> 'fs ProfileStore" where
  "addMissingDefaults_loaded env s =
     (let specs = missingDefaultProfiles (map profile_name (m_profiles s));
          s = choose_default_active (fold (add_spec env) specs s)
      in (length specs, if 0 < length specs then save_loaded env s else s))"

definition seedDefaultsIfEmpty :: "'fs StoreEnv \<Rightarrow> 'fs ProfileStore \<Rightarrow> 'fs ProfileStore" where
  "seedDefaultsIfEmpty env s = (if m_profiles s \<noteq> [] then s else snd (addMissingDefaults_loaded env s))"

section \<open>Reading the file\<close>

definition load_object :: "'fs StoreEnv \<Rightarrow> 'fs \<Rightarrow> string \<Rightarrow> json_t option" where
  "load_object env fs path =
     (case json_load_file (jansson env) fs path of Some doc \<Rightarrow> if json_is_object doc then Some doc else None | None \<Rightarrow> None)"

definition read_profile :: "'fs StoreEnv \<Rightarrow> json_t \<Rightarrow> 'fs ProfileStore \<Rightarrow> 'fs ProfileStore" where
  "read_profile env item s =
     (let p = profileFromJson item in
      case (if profile_id p = [] then makeId env s else (profile_id p, s)) of
        (i, s) \<Rightarrow> s\<lparr>m_profiles := m_profiles s @ [p\<lparr>profile_id := i\<rparr>]\<rparr>)"

definition read_host :: "string \<times> json_t \<Rightarrow> 'fs ProfileStore \<Rightarrow> 'fs ProfileStore" where
  "read_host kv s =
     (case json_string_value (snd kv) of
        None \<Rightarrow> s
      | Some value \<Rightarrow> s\<lparr>m_hostProfile := AList.update (fst kv) value (m_hostProfile s)\<rparr>)"

definition json_elements :: "json_t option \<Rightarrow> json_t list" where
  "json_elements v = (case Option.bind v json_array_elements of None \<Rightarrow> [] | Some vs \<Rightarrow> vs)"

definition json_entries :: "json_t option \<Rightarrow> (string \<times> json_t) list" where
  "json_entries v = (case Option.bind v json_object_members of None \<Rightarrow> [] | Some ms \<Rightarrow> ms)"

definition read_root :: "'fs StoreEnv \<Rightarrow> json_t \<Rightarrow> 'fs ProfileStore \<Rightarrow> 'fs ProfileStore" where
  "read_root env doc s =
     (let s = fold (read_profile env) (json_elements (json_object_get doc ''profiles'')) s;
          s = fold read_host (json_entries (json_object_get doc ''host_profile'')) s;
          s = s\<lparr>m_activeProfileId := string_member doc ''active_profile_id'' (m_activeProfileId s)\<rparr>
      in if m_activeProfileId s = [] \<or> find_profile s (m_activeProfileId s) = None
         then s\<lparr>m_activeProfileId := front_id (m_profiles s)\<rparr> else s)"

definition reload :: "'fs StoreEnv \<Rightarrow> 'fs ProfileStore \<Rightarrow> 'fs ProfileStore" where
  "reload env s =
     (let s = s\<lparr>m_profiles := [], m_hostProfile := [], m_activeProfileId := [], m_loaded := True\<rparr> in
      case load_object env (files s) (storePath env) of
        Some doc \<Rightarrow> read_root env doc s
      | None \<Rightarrow>
          (case (if file_exists (jansson env) (files s) (legacyStorePath env)
                 then load_object env (files s) (legacyStorePath env) else None) of
             Some doc \<Rightarrow> save_loaded env (read_root env doc s)
           | None \<Rightarrow> save_loaded env (seedDefaultsIfEmpty env s)))"

definition ensureLoaded :: "'fs StoreEnv \<Rightarrow> 'fs ProfileStore \<Rightarrow> 'fs ProfileStore" where
  "ensureLoaded env s = (if \<not> m_loaded s then reload env s else s)"

definition exportJson :: "'fs StoreEnv \<Rightarrow> string \<Rightarrow> 'fs ProfileStore \<Rightarrow> bool \<times> 'fs ProfileStore" where
  "exportJson env path s = export_loaded env path (ensureLoaded env s)"

definition save_store :: "'fs StoreEnv \<Rightarrow> 'fs ProfileStore \<Rightarrow> bool \<times> 'fs ProfileStore" where
  "save_store env s = exportJson env (storePath env) s"

section \<open>Operations\<close>

definition list_profiles :: "'fs StoreEnv \<Rightarrow> 'fs ProfileStore \<Rightarrow> StreamConfigProfile list \<times> 'fs ProfileStore" where
  "list_profiles env s = (let s = ensureLoaded env s in (m_profiles s, s))"

definition get :: "'fs StoreEnv \<Rightarrow> string \<Rightarrow> 'fs ProfileStore \<Rightarrow> StreamConfigProfile option \<times> 'fs ProfileStore" where
  "get env i s = (let s = ensureLoaded env s in (find_profile s i, s))"

definition addMissingDefaults :: "'fs StoreEnv \<Rightarrow> 'fs ProfileStore \<Rightarrow> nat \<times> 'fs ProfileStore" where
  "addMissingDefaults env s = addMissingDefaults_loaded env (ensureLoaded env s)"

definition snapshotFromSettings :: "'fs StoreEnv \<Rightarrow> StreamConfigProfile \<Rightarrow> string \<Rightarrow> 'fs ProfileStore \<Rightarrow> StreamConfigProfile \<times> 'fs ProfileStore" where
  "snapshotFromSettings env current name s =
     (case makeId env s of (i, s) \<Rightarrow>
        (normalizeProfile (current\<lparr>profile_id := i, profile_name := (if name = [] then ''Profile'' else name),
           resolutionHeight := normalizeProfileHeight (resolutionHeight current),
           touchscreenMouseMode := legacyTouchscreenFromPointerMode (pointerMode current),
           packetSize := clampPacketSize (packetSize current),
           fsrPreset := fsrPreset default_profile, hidden := hidden default_profile\<rparr>), s))"

definition create :: "'fs StoreEnv \<Rightarrow> StreamConfigProfile \<Rightarrow> string \<Rightarrow> bool \<Rightarrow> 'fs ProfileStore \<Rightarrow> StreamConfigProfile \<times> 'fs ProfileStore" where
  "create env current name fromCurrentSettings s =
     (let s = ensureLoaded env s;
          (p, s) = (if fromCurrentSettings then
             (case snapshotFromSettings env current name s of (p, s) \<Rightarrow>
                let p = p\<lparr>profile_name := (if name = [] then profile_name p else name)\<rparr> in
                if profile_id p = [] then (case makeId env s of (i, s) \<Rightarrow> (p\<lparr>profile_id := i\<rparr>, s)) else (p, s))
           else
             (case makeId env s of (i, s) \<Rightarrow>
                (default_profile\<lparr>profile_id := i, profile_name := (if name = [] then ''Profile'' else name), resolutionHeight := 720\<rparr>, s)));
          p = normalizeProfile p;
          s = s\<lparr>m_profiles := m_profiles s @ [p]\<rparr>;
          s = (if m_activeProfileId s = [] then s\<lparr>m_activeProfileId := profile_id p\<rparr> else s)
      in (p, save_loaded env s))"

text \<open>The first profile with an identifier is replaced; \<open>None\<close> when there is none.\<close>

fun replace_first :: "string \<Rightarrow> (StreamConfigProfile \<Rightarrow> StreamConfigProfile) \<Rightarrow> StreamConfigProfile list \<Rightarrow> StreamConfigProfile list option" where
  "replace_first i f [] = None"
| "replace_first i f (p # ps) = (if profile_id p \<noteq> i then map_option ((#) p) (replace_first i f ps) else Some (f p # ps))"

definition replace_saved :: "'fs StoreEnv \<Rightarrow> string \<Rightarrow> (StreamConfigProfile \<Rightarrow> StreamConfigProfile) \<Rightarrow> 'fs ProfileStore \<Rightarrow> bool \<times> 'fs ProfileStore" where
  "replace_saved env i f s =
     (case replace_first i f (m_profiles s) of
        None \<Rightarrow> (False, s)
      | Some ps \<Rightarrow> (True, save_loaded env (s\<lparr>m_profiles := ps\<rparr>)))"

definition rename :: "'fs StoreEnv \<Rightarrow> string \<Rightarrow> string \<Rightarrow> 'fs ProfileStore \<Rightarrow> bool \<times> 'fs ProfileStore" where
  "rename env i name s =
     (let s = ensureLoaded env s in
      if name = [] then (False, s) else replace_saved env i (\<lambda>p. p\<lparr>profile_name := name\<rparr>) s)"

definition update :: "'fs StoreEnv \<Rightarrow> StreamConfigProfile \<Rightarrow> 'fs ProfileStore \<Rightarrow> bool \<times> 'fs ProfileStore" where
  "update env p s =
     (let s = ensureLoaded env s in
      if profile_id p = [] then (False, s)
      else replace_saved env (profile_id p) (\<lambda>_. (normalizeProfile p)\<lparr>profile_id := profile_id p\<rparr>) s)"

definition remove :: "'fs StoreEnv \<Rightarrow> string \<Rightarrow> 'fs ProfileStore \<Rightarrow> bool \<times> 'fs ProfileStore" where
  "remove env i s =
     (let s = ensureLoaded env s; kept = filter (\<lambda>p. profile_id p \<noteq> i) (m_profiles s) in
      if length kept = length (m_profiles s) then (False, s)
      else (True, save_loaded env (s\<lparr>m_profiles := kept,
              m_hostProfile := filter (\<lambda>kv. snd kv \<noteq> i) (m_hostProfile s),
              m_activeProfileId := (if m_activeProfileId s = i then front_id kept else m_activeProfileId s)\<rparr>)))"

definition duplicate :: "'fs StoreEnv \<Rightarrow> StreamConfigProfile \<Rightarrow> string \<Rightarrow> string \<Rightarrow> 'fs ProfileStore \<Rightarrow> StreamConfigProfile \<times> 'fs ProfileStore" where
  "duplicate env current i newName s =
     (let s = ensureLoaded env s in
      case find_profile s i of
        None \<Rightarrow> create env current (if newName = [] then ''Profile'' else newName) True s
      | Some existing \<Rightarrow>
          (case makeId env s of (i, s) \<Rightarrow>
             let copy = existing\<lparr>profile_id := i, profile_name := (if newName = [] then profile_name existing @ '' copy'' else newName)\<rparr>
             in (copy, save_loaded env (s\<lparr>m_profiles := m_profiles s @ [copy]\<rparr>))))"

definition selectedForHost :: "'fs StoreEnv \<Rightarrow> string \<Rightarrow> 'fs ProfileStore \<Rightarrow> string \<times> 'fs ProfileStore" where
  "selectedForHost env hostKey s =
     (let s = ensureLoaded env s in
      (if hostKey = [] then []
       else case map_of (m_hostProfile s) hostKey of
              None \<Rightarrow> []
            | Some i \<Rightarrow> if find_profile s i = None then [] else i, s))"

definition setSelectedForHost :: "'fs StoreEnv \<Rightarrow> string \<Rightarrow> string \<Rightarrow> 'fs ProfileStore \<Rightarrow> 'fs ProfileStore" where
  "setSelectedForHost env hostKey i s =
     (let s = ensureLoaded env s in
      if hostKey = [] then s
      else save_loaded env (s\<lparr>m_hostProfile :=
        (if i = [] \<or> find_profile s i = None then AList.delete hostKey (m_hostProfile s)
         else AList.update hostKey i (m_hostProfile s))\<rparr>))"

definition clearSelectedForHost :: "'fs StoreEnv \<Rightarrow> string \<Rightarrow> 'fs ProfileStore \<Rightarrow> 'fs ProfileStore" where
  "clearSelectedForHost env hostKey s = setSelectedForHost env hostKey [] s"

definition activeProfileId :: "'fs StoreEnv \<Rightarrow> 'fs ProfileStore \<Rightarrow> string \<times> 'fs ProfileStore" where
  "activeProfileId env s =
     (let s = ensureLoaded env s in
      (if m_activeProfileId s \<noteq> [] \<and> find_profile s (m_activeProfileId s) \<noteq> None then m_activeProfileId s
       else front_id (m_profiles s), s))"

definition setActiveProfileId :: "'fs StoreEnv \<Rightarrow> string \<Rightarrow> 'fs ProfileStore \<Rightarrow> 'fs ProfileStore" where
  "setActiveProfileId env i s =
     (let s = ensureLoaded env s in
      if i = [] \<or> find_profile s i = None then s else save_loaded env (s\<lparr>m_activeProfileId := i\<rparr>))"

datatype ImportError = InvalidJson | MissingProfilesArray

definition import_profile :: "'fs StoreEnv \<Rightarrow> bool \<Rightarrow> json_t \<Rightarrow> 'fs ProfileStore \<Rightarrow> 'fs ProfileStore" where
  "import_profile env renameOnConflict item s =
     (let p = profileFromJson item in
      case (if profile_id p = [] then makeId env s else (profile_id p, s)) of (i, s) \<Rightarrow>
        if find_profile s i \<noteq> None then
          (if \<not> renameOnConflict then s
           else case makeId env s of (j, s) \<Rightarrow>
             s\<lparr>m_profiles := m_profiles s @ [p\<lparr>profile_id := j, profile_name := profile_name p @ '' (import)''\<rparr>]\<rparr>)
        else s\<lparr>m_profiles := m_profiles s @ [p\<lparr>profile_id := i\<rparr>]\<rparr>)"

definition import_host :: "string \<times> json_t \<Rightarrow> 'fs ProfileStore \<Rightarrow> 'fs ProfileStore" where
  "import_host kv s =
     (case json_string_value (snd kv) of
        None \<Rightarrow> s
      | Some i \<Rightarrow> if find_profile s i = None then s
                  else s\<lparr>m_hostProfile := AList.update (fst kv) i (m_hostProfile s)\<rparr>)"

definition importJson :: "'fs StoreEnv \<Rightarrow> string \<Rightarrow> bool \<Rightarrow> 'fs ProfileStore \<Rightarrow> (ImportError + unit) \<times> 'fs ProfileStore" where
  "importJson env path renameOnConflict s =
     (let s = ensureLoaded env s in
      case load_object env (files s) path of
        None \<Rightarrow> (Inl InvalidJson, s)
      | Some doc \<Rightarrow>
          (case Option.bind (json_object_get doc ''profiles'') json_array_elements of
             None \<Rightarrow> (Inl MissingProfilesArray, s)
           | Some items \<Rightarrow>
               let s = fold (import_profile env renameOnConflict) items s;
                   s = fold import_host (json_entries (json_object_get doc ''host_profile'')) s;
                   activeId = string_member doc ''active_profile_id'' [];
                   s = (if find_profile s activeId = None then s else s\<lparr>m_activeProfileId := activeId\<rparr>)
               in (Inr (), save_loaded env s)))"

end
