(* ===== verification/StreamConfigProfileStoreCorrect.thy ===== *)
theory StreamConfigProfileStoreCorrect
  imports StreamConfigProfileStore
begin

text \<open>
  The profile store: every operation keeps the identifiers of the store consistent, so that the
  active profile can always be resolved; the built-in profiles are added once; and a store that was
  saved is the store that is loaded.
\<close>

section \<open>Saving changes only the file\<close>

lemma save_loaded_simps [simp]:
  "m_profiles (save_loaded env s) = m_profiles s" "m_hostProfile (save_loaded env s) = m_hostProfile s"
  "m_activeProfileId (save_loaded env s) = m_activeProfileId s" "m_loaded (save_loaded env s) = m_loaded s"
  "drawn (save_loaded env s) = drawn s"
  by (simp_all add: save_loaded_def export_loaded_def split: prod.split)

lemma export_loaded_simps:
  assumes "export_loaded env path s = (ok, s')"
  shows "m_profiles s' = m_profiles s" "m_hostProfile s' = m_hostProfile s" "m_activeProfileId s' = m_activeProfileId s"
    "m_loaded s' = m_loaded s" "drawn s' = drawn s"
  using assms by (auto simp: export_loaded_def split: prod.splits)

lemma makeId_eq:
  assumes "makeId env s = (i, s')"
  shows "i \<noteq> []" "s' = s\<lparr>drawn := Suc (drawn s)\<rparr>"
  using assms by (auto simp: makeId_def split: prod.splits)

section \<open>The invariant\<close>

definition store_inv :: "'fs ProfileStore \<Rightarrow> bool" where
  "store_inv s =
     (list_all (\<lambda>p. profile_id p \<noteq> []) (m_profiles s) \<and>
      (m_activeProfileId s = [] \<or> m_activeProfileId s \<in> profile_id ` set (m_profiles s)) \<and>
      distinct (map fst (m_hostProfile s)))"

lemma store_inv_cong:
  "m_profiles s' = m_profiles s \<Longrightarrow> m_hostProfile s' = m_hostProfile s \<Longrightarrow> m_activeProfileId s' = m_activeProfileId s \<Longrightarrow>
   store_inv s' = store_inv s"
  by (simp add: store_inv_def)

lemma store_inv_save [simp]: "store_inv (save_loaded env s) = store_inv s"
  by (simp add: store_inv_def)

lemma find_profile_None: "find_profile s i = None \<longleftrightarrow> i = [] \<or> i \<notin> profile_id ` set (m_profiles s)"
  by (auto simp: find_profile_def find_None_iff)

lemma find_profile_Some: "find_profile s i = Some p \<Longrightarrow> p \<in> set (m_profiles s) \<and> profile_id p = i \<and> i \<noteq> []"
  by (auto simp: find_profile_def dest: find_SomeD split: if_splits)

lemma front_id_mem: "ps \<noteq> [] \<Longrightarrow> front_id ps \<in> profile_id ` set ps"
  by (cases ps) (simp_all add: front_id_def)

lemma front_id_Nil [simp]: "front_id [] = []"
  by (simp add: front_id_def)

text \<open>The elementary changes the operations are made of.\<close>

lemma inv_push: "store_inv s \<Longrightarrow> profile_id p \<noteq> [] \<Longrightarrow> store_inv (s\<lparr>m_profiles := m_profiles s @ [p]\<rparr>)"
  by (auto simp: store_inv_def)

lemma inv_push_drawn:
  "store_inv s \<Longrightarrow> profile_id p \<noteq> [] \<Longrightarrow> store_inv (s\<lparr>drawn := n, m_profiles := m_profiles s @ [p]\<rparr>)"
  by (auto simp: store_inv_def)

lemma inv_drawn [simp]: "store_inv (s\<lparr>drawn := n\<rparr>) = store_inv s"
  by (simp add: store_inv_def)

lemma inv_active: "store_inv s \<Longrightarrow> i = [] \<or> i \<in> profile_id ` set (m_profiles s) \<Longrightarrow> store_inv (s\<lparr>m_activeProfileId := i\<rparr>)"
  by (auto simp: store_inv_def)

lemma inv_host_update: "store_inv s \<Longrightarrow> store_inv (s\<lparr>m_hostProfile := AList.update k v (m_hostProfile s)\<rparr>)"
  by (simp add: store_inv_def AList.distinct_update)

lemma inv_host_filter: "store_inv s \<Longrightarrow> store_inv (s\<lparr>m_hostProfile := filter Q (m_hostProfile s)\<rparr>)"
  by (auto simp: store_inv_def distinct_map_filter)

lemma inv_front: "store_inv s \<Longrightarrow> store_inv (s\<lparr>m_activeProfileId := front_id (m_profiles s)\<rparr>)"
  using front_id_mem [of "m_profiles s"] by (cases "m_profiles s = []") (auto intro!: inv_active)

lemma inv_add_spec: "store_inv s \<Longrightarrow> store_inv (add_spec env spec s)"
proof -
  assume inv: "store_inv s"
  obtain i s' where m: "makeId env s = (i, s')" by fastforce
  have "store_inv s'" "profile_id (profile_of_spec i spec) \<noteq> []"
    using inv makeId_eq [OF m] by (simp_all add: profile_of_spec_def)
  then show ?thesis by (simp add: add_spec_def m inv_push)
qed

lemma default_active_id_mem: "ps \<noteq> [] \<Longrightarrow> default_active_id ps \<in> profile_id ` set ps"
  using front_id_mem [of ps] by (auto simp: default_active_id_def Let_def dest!: find_SomeD split: option.split)

lemma inv_choose_default_active:
  assumes "store_inv s" shows "store_inv (choose_default_active s)"
  using assms default_active_id_mem [of "m_profiles s"] by (auto simp: choose_default_active_def intro!: inv_active)

lemma inv_addMissingDefaults_loaded: "store_inv s \<Longrightarrow> store_inv (snd (addMissingDefaults_loaded env s))"
  by (simp add: addMissingDefaults_loaded_def Let_def inv_choose_default_active fold_inv inv_add_spec)

lemma inv_read_profile: "store_inv s \<Longrightarrow> store_inv (read_profile env item s)"
proof -
  assume inv: "store_inv s"
  obtain i s' where m: "makeId env s = (i, s')" by fastforce
  show ?thesis
    using inv makeId_eq [OF m] by (auto simp: read_profile_def Let_def m intro!: inv_push inv_push_drawn)
qed

lemma inv_read_host: "store_inv s \<Longrightarrow> store_inv (read_host kv s)"
  by (auto simp: read_host_def inv_host_update split: option.split)

lemma read_host_profiles [simp]: "m_profiles (fold read_host kvs s) = m_profiles s"
  by (induction kvs arbitrary: s) (auto simp: read_host_def split: option.split)

lemma inv_cleared: "store_inv (s\<lparr>m_profiles := [], m_hostProfile := [], m_activeProfileId := [], m_loaded := b\<rparr>)"
  by (simp add: store_inv_def)

lemma inv_read_root: "store_inv s \<Longrightarrow> store_inv (read_root env doc s)"
proof -
  assume "store_inv s"
  then have inv: "store_inv (fold read_host hs (fold (read_profile env) ps s))" for hs ps
    by (simp add: fold_inv inv_read_host inv_read_profile)
  have front: "store_inv (s\<lparr>m_activeProfileId := i\<rparr>\<lparr>m_activeProfileId := front_id (m_profiles s)\<rparr>)" if "store_inv s" for s :: "'a ProfileStore" and i
    using inv_front [OF that] by simp
  show ?thesis
    by (auto simp: read_root_def Let_def find_profile_None intro!: inv_active inv_front [OF inv, simplified] inv)
qed

lemma inv_reload: "store_inv (reload env s)"
  by (simp add: reload_def Let_def seedDefaultsIfEmpty_def inv_read_root inv_cleared inv_addMissingDefaults_loaded split: option.split)

lemma inv_ensureLoaded: "store_inv s \<Longrightarrow> store_inv (ensureLoaded env s)"
  by (simp add: ensureLoaded_def inv_reload)

lemma read_profile_loaded: "m_loaded (read_profile env v s) = m_loaded s"
  using makeId_eq(2) [of env s] by (cases "makeId env s") (auto simp: read_profile_def Let_def)

lemma read_host_loaded: "m_loaded (read_host kv s) = m_loaded s"
  by (simp add: read_host_def split: option.split)

lemma add_spec_loaded: "m_loaded (add_spec env spec s) = m_loaded s"
  using makeId_eq(2) [of env s] by (cases "makeId env s") (auto simp: add_spec_def)

lemma read_root_loaded: "m_loaded s \<Longrightarrow> m_loaded (read_root env doc s)"
  by (simp add: read_root_def Let_def fold_inv [where Q = m_loaded] read_host_loaded read_profile_loaded)

lemma addMissingDefaults_loaded_loaded: "m_loaded s \<Longrightarrow> m_loaded (snd (addMissingDefaults_loaded env s))"
  by (simp add: addMissingDefaults_loaded_def choose_default_active_def Let_def fold_inv [where Q = m_loaded] add_spec_loaded)

lemma reload_loaded [simp]: "m_loaded (reload env s)"
  by (simp add: reload_def Let_def seedDefaultsIfEmpty_def read_root_loaded addMissingDefaults_loaded_loaded split: option.split)

lemma ensureLoaded_loaded [simp]: "m_loaded (ensureLoaded env s)"
  by (simp add: ensureLoaded_def)

lemma ensureLoaded_id: "m_loaded s \<Longrightarrow> ensureLoaded env s = s"
  by (simp add: ensureLoaded_def)

section \<open>Every operation keeps the invariant\<close>

lemma normalizeProfile_id [simp]: "profile_id (normalizeProfile p) = profile_id p"
  by (simp add: normalizeProfile_def)

lemma snapshot_eq:
  assumes "snapshotFromSettings env current n s = (p, s')"
  shows "profile_id p \<noteq> []" "s' = s\<lparr>drawn := Suc (drawn s)\<rparr>"
  using assms makeId_eq [of env s] by (auto simp: snapshotFromSettings_def split: prod.splits)

lemma inv_create: "store_inv s \<Longrightarrow> store_inv (snd (create env current n b s))"
proof -
  assume "store_inv s"
  then have inv: "store_inv (ensureLoaded env s)" by (rule inv_ensureLoaded)
  define t where "t = ensureLoaded env s"
  obtain i s' where m: "makeId env t = (i, s')" by fastforce
  obtain p s2 where sn: "snapshotFromSettings env current n t = (p, s2)" by fastforce
  have pushed: "store_inv (if m_activeProfileId r = [] then r\<lparr>m_profiles := m_profiles r @ [q], m_activeProfileId := profile_id q\<rparr>
      else r\<lparr>m_profiles := m_profiles r @ [q]\<rparr>)" if "store_inv r" "profile_id q \<noteq> []" for r :: "'a ProfileStore" and q
    using inv_push [OF that] that(2) by (auto simp: store_inv_def)
  have "store_inv t" using inv by (simp add: t_def)
  then show ?thesis
    unfolding create_def t_def [symmetric] Let_def
    using makeId_eq [OF m] snapshot_eq [OF sn] pushed [of "t\<lparr>drawn := Suc (drawn t)\<rparr>"]
    by (auto simp: m sn split: if_splits)
qed

lemma replace_first_ids:
  "replace_first i f ps = Some ps' \<Longrightarrow> (\<And>p. profile_id p = i \<Longrightarrow> profile_id (f p) = i) \<Longrightarrow> map profile_id ps' = map profile_id ps"
  by (induction ps arbitrary: ps') (auto split: if_splits)

lemma inv_ids:
  assumes "map profile_id ps = map profile_id (m_profiles s)" and "store_inv s"
  shows "store_inv (s\<lparr>m_profiles := ps\<rparr>)"
proof -
  have "profile_id ` set ps = profile_id ` set (m_profiles s)" using assms(1) by (metis set_map)
  moreover have "list_all (\<lambda>p. profile_id p \<noteq> []) qs \<longleftrightarrow> [] \<notin> profile_id ` set qs" for qs :: "StreamConfigProfile list"
    unfolding list_all_iff by force
  ultimately show ?thesis using assms(2) by (simp add: store_inv_def)
qed

lemma inv_replace_saved:
  "store_inv s \<Longrightarrow> (\<And>p. profile_id p = i \<Longrightarrow> profile_id (f p) = i) \<Longrightarrow> store_inv (snd (replace_saved env i f s))"
  using replace_first_ids [of i f "m_profiles s"] by (auto simp: replace_saved_def intro: inv_ids split: option.split)

lemma inv_remove: "store_inv s \<Longrightarrow> store_inv (snd (remove env i s))"
proof -
  assume "store_inv s"
  then have inv: "store_inv (ensureLoaded env s)" by (rule inv_ensureLoaded)
  define t where "t = ensureLoaded env s"
  let ?kept = "filter (\<lambda>p. profile_id p \<noteq> i) (m_profiles t)"
  have "m_activeProfileId t = [] \<or> m_activeProfileId t = i \<or> m_activeProfileId t \<in> profile_id ` set ?kept"
    using inv by (auto simp: store_inv_def t_def)
  then show ?thesis
    using inv front_id_mem [of ?kept]
    unfolding remove_def t_def [symmetric] Let_def
    by (cases "?kept = []") (auto simp: store_inv_def list_all_iff distinct_map_filter t_def [symmetric])
qed

lemma inv_duplicate: "store_inv s \<Longrightarrow> store_inv (snd (duplicate env current i n s))"
proof -
  assume "store_inv s"
  then have inv: "store_inv (ensureLoaded env s)" by (rule inv_ensureLoaded)
  obtain j s' where m: "makeId env (ensureLoaded env s) = (j, s')" by fastforce
  show ?thesis
    using inv makeId_eq [OF m] inv_create [OF inv] by (auto simp: duplicate_def Let_def m intro!: inv_push_drawn split: option.split)
qed

lemma inv_import_profile: "store_inv s \<Longrightarrow> store_inv (import_profile env b item s)"
proof -
  assume inv: "store_inv s"
  obtain i s' where m: "makeId env s = (i, s')" by fastforce
  obtain j s2 where m2: "makeId env s' = (j, s2)" by fastforce
  have inv2: "store_inv s'" "store_inv s2" using inv makeId_eq(2) [OF m] makeId_eq(2) [OF m2] by simp_all
  show ?thesis
    using inv inv2 makeId_eq(1) [OF m] makeId_eq(1) [OF m2]
    by (auto simp: import_profile_def Let_def m m2 intro!: inv_push)
qed

lemma inv_import_host: "store_inv s \<Longrightarrow> store_inv (import_host kv s)"
  by (simp add: import_host_def inv_host_update split: option.split)

lemma inv_importJson:
  assumes "store_inv s"
  shows "store_inv (snd (importJson env path b s))"
proof -
  have "store_inv (fold import_host hs (fold (import_profile env b) ps (ensureLoaded env s)))" for hs ps
    by (simp add: fold_inv inv_import_host inv_import_profile inv_ensureLoaded assms)
  then show ?thesis
    by (auto simp: importJson_def Let_def find_profile_None intro!: inv_active split: option.split)
      (simp add: inv_ensureLoaded assms)+
qed

section \<open>Sequences of operations\<close>

datatype StoreOp = OpReload | OpSave | OpExport string | OpAddDefaults | OpGet string | OpCreate StreamConfigProfile string bool
  | OpRename string string | OpUpdate StreamConfigProfile | OpRemove string | OpDuplicate StreamConfigProfile string string
  | OpSelect string string | OpClear string | OpSetActive string | OpImport string bool

fun exec :: "'fs StoreEnv \<Rightarrow> StoreOp \<Rightarrow> 'fs ProfileStore \<Rightarrow> 'fs ProfileStore" where
  "exec env OpReload s = reload env s"
| "exec env OpSave s = snd (save_store env s)"
| "exec env (OpExport path) s = snd (exportJson env path s)"
| "exec env OpAddDefaults s = snd (addMissingDefaults env s)"
| "exec env (OpGet i) s = snd (get env i s)"
| "exec env (OpCreate current n b) s = snd (create env current n b s)"
| "exec env (OpRename i n) s = snd (rename env i n s)"
| "exec env (OpUpdate p) s = snd (update env p s)"
| "exec env (OpRemove i) s = snd (remove env i s)"
| "exec env (OpDuplicate current i n) s = snd (duplicate env current i n s)"
| "exec env (OpSelect h i) s = setSelectedForHost env h i s"
| "exec env (OpClear h) s = clearSelectedForHost env h s"
| "exec env (OpSetActive i) s = setActiveProfileId env i s"
| "exec env (OpImport path b) s = snd (importJson env path b s)"

lemma inv_export: "store_inv s \<Longrightarrow> store_inv (snd (exportJson env path s))"
proof -
  assume "store_inv s"
  then have "store_inv (ensureLoaded env s)" by (rule inv_ensureLoaded)
  then show ?thesis by (auto simp: exportJson_def export_loaded_def store_inv_def split: prod.split)
qed

lemma inv_setSelectedForHost:
  assumes "store_inv s"
  shows "store_inv (setSelectedForHost env h i s)"
  using inv_ensureLoaded [OF assms, of env]
  by (auto simp: setSelectedForHost_def Let_def AList.delete_eq intro: inv_host_update inv_host_filter)

lemma exec_inv: "store_inv s \<Longrightarrow> store_inv (exec env opn s)"
proof (cases opn)
  case (OpUpdate p)
  assume "store_inv s"
  then have "store_inv (ensureLoaded env s)" by (rule inv_ensureLoaded)
  then show ?thesis by (simp add: OpUpdate update_def Let_def inv_replace_saved)
next
  case (OpSetActive i)
  assume "store_inv s"
  then have "store_inv (ensureLoaded env s)" by (rule inv_ensureLoaded)
  then show ?thesis by (simp add: OpSetActive setActiveProfileId_def Let_def find_profile_None inv_active)
qed (simp_all add: save_store_def inv_export inv_reload inv_ensureLoaded inv_create inv_remove inv_duplicate inv_importJson
    inv_setSelectedForHost clearSelectedForHost_def addMissingDefaults_def inv_addMissingDefaults_loaded get_def Let_def
    rename_def inv_replace_saved)

definition run_ops :: "'fs StoreEnv \<Rightarrow> StoreOp list \<Rightarrow> 'fs \<Rightarrow> 'fs ProfileStore" where
  "run_ops env ops fs = fold (exec env) ops (empty_store fs)"

lemma run_ops_inv: "store_inv (run_ops env ops fs)"
  unfolding run_ops_def by (rule fold_inv [where Q = store_inv]) (simp_all add: exec_inv, simp add: empty_store_def store_inv_def)

section \<open>The built-in profiles\<close>

lemma add_spec_eq: "m_profiles (add_spec env spec s) = m_profiles s @ [profile_of_spec (fst (makeId env s)) spec]"
  using makeId_eq(2) [of env s] by (cases "makeId env s") (auto simp: add_spec_def)

lemma add_specs_profiles:
  "\<exists>ps. m_profiles (fold (add_spec env) specs s) = m_profiles s @ ps \<and> map profile_name ps = map spec_name specs"
proof (induction specs arbitrary: s)
  case (Cons spec specs)
  obtain ps where "m_profiles (fold (add_spec env) specs (add_spec env spec s)) = m_profiles (add_spec env spec s) @ ps"
    "map profile_name ps = map spec_name specs"
    using Cons.IH by blast
  then show ?case by (auto simp: add_spec_eq profile_of_spec_def)
qed simp

lemma choose_default_active_profiles [simp]: "m_profiles (choose_default_active s) = m_profiles s"
  by (simp add: choose_default_active_def Let_def)

lemma choose_default_active_again:
  assumes "m_profiles y = m_profiles x" and "m_activeProfileId y = m_activeProfileId (choose_default_active x)"
  shows "choose_default_active y = y"
proof (cases "m_activeProfileId y = [] \<and> m_profiles y \<noteq> []")
  case True
  with assms have "default_active_id (m_profiles y) = m_activeProfileId y"
    by (auto simp: choose_default_active_def split: if_splits)
  then show ?thesis by (simp add: choose_default_active_def)
qed (auto simp: choose_default_active_def)

lemma missing_names:
  "spec \<in> set (missingDefaultProfiles ns) \<longleftrightarrow> spec \<in> set kDefaultStreamProfiles \<and> spec_name spec \<notin> set ns"
  by (auto simp: missingDefaultProfiles_def list_ex_iff)

lemma addMissingDefaults_profiles:
  assumes "addMissingDefaults_loaded env s = (n, s')"
  obtains ps where "m_profiles s' = m_profiles s @ ps"
    and "map profile_name ps = map spec_name (missingDefaultProfiles (map profile_name (m_profiles s)))" and "length ps = n"
proof -
  let ?specs = "missingDefaultProfiles (map profile_name (m_profiles s))"
  obtain ps where ps: "m_profiles (fold (add_spec env) ?specs s) = m_profiles s @ ps" "map profile_name ps = map spec_name ?specs"
    using add_specs_profiles by blast
  from arg_cong [OF ps(2), of length] have "length ps = length ?specs" by simp
  with assms ps that show ?thesis by (auto simp: addMissingDefaults_loaded_def Let_def split: if_splits)
qed

section \<open>What is saved is what is loaded\<close>

definition storable_store :: "'fs Jansson \<Rightarrow> 'fs ProfileStore \<Rightarrow> bool" where
  "storable_store J s =
     (list_all (storable_profile J) (m_profiles s) \<and>
      list_all (\<lambda>kv. storable_text J (fst kv) \<and> storable_text J (snd kv)) (m_hostProfile s) \<and>
      storable_text J (m_activeProfileId s))"

lemma store_members_keys: "map fst (store_members J s) = [''schema_version'', ''profiles'', ''host_profile''] @
    (if m_activeProfileId s = [] then [] else [''active_profile_id''])"
  by (simp add: store_members_def)

lemma store_members_storable: "jansson_ok J \<Longrightarrow> list_all (\<lambda>kv. storable_text J (fst kv)) (store_members J s)"
  by (simp add: store_members_def storable_ascii ascii_key_def)

lemma store_members_distinct: "distinct (map fst (store_members J s))"
  by (simp add: store_members_def)

lemma fst_comp_pair: "fst \<circ> (\<lambda>(k, v). (k, f v)) = fst"
  by auto

lemma host_object:
  assumes "list_all (\<lambda>kv. storable_text J (fst kv) \<and> storable_text J (snd kv)) hs" and "distinct (map fst hs)"
  shows "json_object_of J (map (\<lambda>(key, value). (key, json_string J value)) hs) = Json_object (map (\<lambda>(k, v). (k, Json_string v)) hs)"
proof -
  have "members (map (\<lambda>(key, value). (key, json_string J value)) hs) = map (\<lambda>(k, v). (k, Json_string v)) hs"
    using assms(1) by (induction hs) (auto simp: json_string_storable)
  then show ?thesis
    using assms by (subst json_object_of_members) (auto simp: list_all_iff fst_comp_pair)
qed

lemma store_json_wf:
  assumes J: "jansson_ok J" and s: "storable_store J s" and hosts: "distinct (map fst (m_hostProfile s))"
  shows "json_wf J (json_object_of J (store_members J s))"
proof (rule json_wf_object_of [OF store_members_storable [OF J] store_members_distinct])
  have profiles: "list_all (json_wf J) (map (profileToJson J) (m_profiles s))"
    using s profileToJson_wf [OF J] by (simp add: storable_store_def list_all_iff)
  have "json_wf J (json_object_of J (map (\<lambda>(key, value). (key, json_string J value)) (m_hostProfile s)))"
    using s hosts by (subst host_object) (auto simp: storable_store_def list_all_iff fst_comp_pair)
  with profiles show "list_all (\<lambda>kv. pred_option (json_wf J) (snd kv)) (store_members J s)"
    by (simp add: store_members_def json_string_wf SchemaVersion_def)
qed

lemma read_profile_stored:
  assumes "jansson_ok (jansson env)" and "storable_profile (jansson env) p" and "profile_id p \<noteq> []"
  shows "read_profile env (profileToJson (jansson env) p) s = s\<lparr>m_profiles := m_profiles s @ [p]\<rparr>"
  using assms by (simp add: read_profile_def profile_json_roundtrip Let_def)

lemma read_profiles_stored:
  assumes "jansson_ok (jansson env)" and "list_all (\<lambda>p. storable_profile (jansson env) p \<and> profile_id p \<noteq> []) ps"
  shows "fold (read_profile env) (map (profileToJson (jansson env)) ps) s = s\<lparr>m_profiles := m_profiles s @ ps\<rparr>"
  using assms(2) by (induction ps arbitrary: s) (simp_all add: read_profile_stored [OF assms(1)])

lemma read_hosts_stored:
  "distinct (map fst (m_hostProfile s @ hs)) \<Longrightarrow>
   fold read_host (map (\<lambda>(k, v). (k, Json_string v)) hs) s = s\<lparr>m_hostProfile := m_hostProfile s @ hs\<rparr>"
proof (induction hs arbitrary: s)
  case (Cons kv hs)
  then have "read_host (fst kv, Json_string (snd kv)) s = s\<lparr>m_hostProfile := m_hostProfile s @ [kv]\<rparr>"
    by (simp add: read_host_def update_fresh)
  with Cons show ?case by (simp add: split_beta)
qed simp

text \<open>Reading the document that a store was written to.\<close>

lemma store_document:
  fixes s :: "'fs ProfileStore"
  assumes J: "jansson_ok J" and s: "storable_store J s" and hosts: "distinct (map fst (m_hostProfile s))"
  defines "doc \<equiv> json_object_of J (store_members J s)"
  shows "json_elements (json_object_get doc ''profiles'') = map (profileToJson J) (m_profiles s)"
    "json_entries (json_object_get doc ''host_profile'') = map (\<lambda>(k, v). (k, Json_string v)) (m_hostProfile s)"
    "string_member doc ''active_profile_id'' [] = m_activeProfileId s"
proof -
  have get: "json_object_get doc k = Option.bind (map_of (store_members J s) k) (\<lambda>v. v)" for k
    unfolding doc_def by (rule json_object_get_of [OF store_members_storable [OF J] store_members_distinct])
  have host: "json_object_of J (map (\<lambda>(key, value). (key, json_string J value)) (m_hostProfile s)) =
      Json_object (map (\<lambda>(k, v). (k, Json_string v)) (m_hostProfile s))"
    using s hosts by (intro host_object) (simp_all add: storable_store_def)
  show "json_elements (json_object_get doc ''profiles'') = map (profileToJson J) (m_profiles s)"
    "json_entries (json_object_get doc ''host_profile'') = map (\<lambda>(k, v). (k, Json_string v)) (m_hostProfile s)"
    by (simp_all add: get store_members_def json_elements_def json_entries_def host)
  show "string_member doc ''active_profile_id'' [] = m_activeProfileId s"
    using s by (simp add: string_member_def get store_members_def json_string_storable storable_store_def)
qed

lemma read_root_document:
  fixes s :: "'fs ProfileStore"
  assumes J: "jansson_ok (jansson env)" and s: "storable_store (jansson env) s" and inv: "store_inv s"
  shows "read_root env (json_object_of (jansson env) (store_members (jansson env) s))
      (t\<lparr>m_profiles := [], m_hostProfile := [], m_activeProfileId := [], m_loaded := True\<rparr>) =
    t\<lparr>m_profiles := m_profiles s, m_hostProfile := m_hostProfile s,
      m_activeProfileId := (if m_activeProfileId s = [] then front_id (m_profiles s) else m_activeProfileId s), m_loaded := True\<rparr>"
proof -
  have hosts: "distinct (map fst (m_hostProfile s))" using inv by (simp add: store_inv_def)
  have ps: "list_all (\<lambda>p. storable_profile (jansson env) p \<and> profile_id p \<noteq> []) (m_profiles s)"
    using s inv by (simp add: storable_store_def store_inv_def list_all_iff)
  have "m_activeProfileId s = [] \<or> m_activeProfileId s \<in> profile_id ` set (m_profiles s)"
    using inv by (simp add: store_inv_def)
  then show ?thesis
    by (auto simp: read_root_def Let_def store_document [OF J s hosts] read_profiles_stored [OF J ps] read_hosts_stored hosts
        find_profile_None)
qed

lemma json_object_of_object [simp]: "json_is_object (json_object_of J kvs)"
  by (simp add: json_object_of_def)

lemma reload_saved:
  assumes J: "jansson_ok (jansson env)" and s: "storable_store (jansson env) s" and inv: "store_inv s"
    and saved: "export_loaded env (storePath env) s = (True, s')"
  shows "reload env s' =
    s'\<lparr>m_activeProfileId := (if m_activeProfileId s = [] then front_id (m_profiles s) else m_activeProfileId s), m_loaded := True\<rparr>"
proof -
  let ?doc = "json_object_of (jansson env) (store_members (jansson env) s)"
  obtain fs where dump: "json_dump_file (jansson env) (files s) ?doc (storePath env) = (True, fs)" and s': "s' = s\<lparr>files := fs\<rparr>"
    using saved by (auto simp: export_loaded_def split: prod.splits)
  have hosts: "distinct (map fst (m_hostProfile s))" using inv by (simp add: store_inv_def)
  have "json_load_file (jansson env) fs (storePath env) = Some ?doc"
    using load_dumped [OF J store_json_wf [OF J s hosts] _ dump] by simp
  then have load: "load_object env fs (storePath env) = Some ?doc" by (simp add: load_object_def)
  show ?thesis
    using read_root_document [OF J s inv, of s'] by (simp add: reload_def Let_def s' load)
qed

section \<open>Claims\<close>

definition example_env :: "(string \<times> json_t) list StoreEnv" where
  "example_env = \<lparr>jansson = ascii_jansson, working_dir = ''/switch'', draw = (\<lambda>n. (int n, word_of_nat n))\<rparr>"

definition example_files :: "(string \<times> json_t) list" where
  "example_files = [(''/switch/profile.json'', Json_object
     [(''profiles'', Json_array [example_profile_json, Json_object [(''id'', Json_string ''b'')]]),
      (''host_profile'', Json_object [(''pc'', Json_string ''b'')]), (''active_profile_id'', Json_string ''b'')])]"

text \<open>
  C27: In every state that the operations of the profile store reach from a fresh store, in any
  order and over any contents of the file system, the active profile resolves: it is the identifier
  of a profile that \<open>get\<close> finds, and it is empty only when the store has no profile.
\<close>

theorem active_profile_resolves:
  "case activeProfileId env (run_ops env ops fs) of (i, s) \<Rightarrow>
     if m_profiles s = [] then i = []
     else \<exists>p. fst (get env i s) = Some p \<and> p \<in> set (m_profiles s) \<and> profile_id p = i"
proof -
  define s where "s = ensureLoaded env (run_ops env ops fs)"
  have inv: "store_inv s" by (simp add: s_def inv_ensureLoaded run_ops_inv)
  have loaded: "ensureLoaded env s = s" by (simp add: s_def ensureLoaded_id)
  have found: "\<exists>p. find_profile s i = Some p \<and> p \<in> set (m_profiles s) \<and> profile_id p = i"
    if "i \<noteq> []" "i \<in> profile_id ` set (m_profiles s)" for i
    using that find_profile_None [of s i] by (cases "find_profile s i") (auto dest: find_profile_Some)
  have front: "front_id (m_profiles s) \<noteq> []" if "m_profiles s \<noteq> []"
    using inv that by (cases "m_profiles s") (simp_all add: store_inv_def front_id_def)
  let ?i = "if m_activeProfileId s \<noteq> [] \<and> find_profile s (m_activeProfileId s) \<noteq> None then m_activeProfileId s
      else front_id (m_profiles s)"
  have active: "activeProfileId env (run_ops env ops fs) = (?i, s)"
    by (simp add: activeProfileId_def Let_def s_def)
  have got: "fst (get env j s) = find_profile s j" for j by (simp add: get_def Let_def loaded)
  show ?thesis
  proof (cases "m_profiles s = []")
    case True
    then have "find_profile s j = None" for j by (simp add: find_profile_def)
    with True show ?thesis by (simp add: active)
  next
    case False
    have "?i \<noteq> []" using front [OF False] by simp
    moreover have "?i \<in> profile_id ` set (m_profiles s)"
      using front_id_mem [OF False] find_profile_None [of s "m_activeProfileId s"] by simp
    ultimately have "\<exists>p. find_profile s ?i = Some p \<and> p \<in> set (m_profiles s) \<and> profile_id p = ?i" by (rule found)
    with False show ?thesis unfolding active prod.case got by (simp only: if_False)
  qed
qed

text \<open>
  Adding the built-in profiles keeps every profile of the store, in order, appends exactly the
  presets whose names were missing, returns their number, and leaves none missing: every built-in
  name is then in the store, and a second call adds nothing and changes nothing.
\<close>

theorem addMissingDefaults_once:
  "case addMissingDefaults env s of (n, s') \<Rightarrow>
     (\<exists>ps. m_profiles s' = m_profiles (ensureLoaded env s) @ ps \<and> length ps = n \<and>
        map profile_name ps = map spec_name (missingDefaultProfiles (map profile_name (m_profiles (ensureLoaded env s))))) \<and>
     spec_name ` set kDefaultStreamProfiles \<subseteq> profile_name ` set (m_profiles s') \<and>
     addMissingDefaults env s' = (0, s')"
proof -
  define t where "t = ensureLoaded env s"
  obtain n s' where res: "addMissingDefaults_loaded env t = (n, s')" by fastforce
  obtain ps where ps: "m_profiles s' = m_profiles t @ ps"
    "map profile_name ps = map spec_name (missingDefaultProfiles (map profile_name (m_profiles t)))" "length ps = n"
    using addMissingDefaults_profiles [OF res] by blast
  have names: "profile_name ` set ps = spec_name ` set (missingDefaultProfiles (map profile_name (m_profiles t)))"
    using ps(2) by (metis set_map)
  have all: "spec_name spec \<in> profile_name ` set (m_profiles s')" if "spec \<in> set kDefaultStreamProfiles" for spec
  proof (cases "spec_name spec \<in> profile_name ` set (m_profiles t)")
    case True then show ?thesis by (auto simp: ps(1))
  next
    case False
    with that have "spec \<in> set (missingDefaultProfiles (map profile_name (m_profiles t)))" by (simp add: missing_names)
    then have "spec_name spec \<in> profile_name ` set ps" unfolding names by (rule imageI)
    then show ?thesis by (auto simp: ps(1))
  qed
  then have none: "missingDefaultProfiles (map profile_name (m_profiles s')) = []"
    by (auto simp: missingDefaultProfiles_def filter_empty_conv list_ex_iff image_iff)
  have loaded: "m_loaded s'" using addMissingDefaults_loaded_loaded [of t env] res by (simp add: t_def)
  have active: "choose_default_active s' = s'"
    using res
    by (intro choose_default_active_again [where x = "fold (add_spec env) (missingDefaultProfiles (map profile_name (m_profiles t))) t"])
      (auto simp: addMissingDefaults_loaded_def Let_def split: if_splits)
  have "addMissingDefaults env s' = (0, s')"
    by (simp add: addMissingDefaults_def ensureLoaded_id loaded addMissingDefaults_loaded_def none active)
  with ps all show ?thesis
    by (auto simp: addMissingDefaults_def t_def [symmetric] res)
qed

text \<open>A loaded store, as the operations see it.\<close>

lemma reached_inv: "store_inv (ensureLoaded env (run_ops env ops fs))"
  by (rule inv_ensureLoaded [OF run_ops_inv])

lemma active_id_eq:
  "m_loaded s \<Longrightarrow> store_inv s \<Longrightarrow>
   fst (activeProfileId env s) = (if m_activeProfileId s = [] then front_id (m_profiles s) else m_activeProfileId s)"
  by (auto simp: activeProfileId_def Let_def ensureLoaded_id find_profile_None store_inv_def)


definition example_store :: "(string \<times> json_t) list ProfileStore" where
  "example_store = ensureLoaded example_env (run_ops example_env [] example_files)"

lemma example_profile_ids: "profile_id (profileFromJson example_profile_json) = ''a''"
  "profile_id (profileFromJson (Json_object [(''id'', Json_string ''b'')])) = ''b''"
  by (simp_all add: profileFromJson_def example_profile_json_def Let_def normalizeProfile_def string_member_def)

lemma example_store_eq:
  "m_profiles example_store = [profileFromJson example_profile_json, profileFromJson (Json_object [(''id'', Json_string ''b'')])]"
  "m_hostProfile example_store = [(''pc'', ''b'')]" "m_activeProfileId example_store = ''b''"
  by (simp_all add: example_store_def run_ops_def empty_store_def ensureLoaded_def reload_def Let_def load_object_def
      example_env_def ascii_jansson_def example_files_def storePath_def path_join_def profileStoreFilename_def read_root_def
      json_elements_def json_entries_def read_profile_def example_profile_ids read_host_def string_member_def find_profile_def)

lemma example_store_storable: "storable_store ascii_jansson example_store"
proof -
  have "json_wf ascii_jansson (Json_object [(''id'', Json_string ''b'')])"
    "read_audioBackend (Json_object [(''id'', Json_string ''b'')]) AUDREN \<in> {SDL, AUDREN}"
    by (simp_all add: storable_text_def ascii_jansson_def read_audioBackend_def)
  then show ?thesis
    using profileFromJson_storable [OF ascii_jansson_ok example_profile_json_ok(1,2)]
      profileFromJson_storable [OF ascii_jansson_ok, of "Json_object [(''id'', Json_string ''b'')]"]
    by (simp add: storable_store_def example_store_eq example_profile_json_ok(3) storable_text_def)
      (simp add: ascii_jansson_def)
qed


text \<open>Removing: what is left resolves as before.\<close>

lemma map_of_filter_snd:
  "distinct (map fst hs) \<Longrightarrow> map_of (filter (\<lambda>kv. snd kv \<noteq> i) hs) k = (case map_of hs k of Some v \<Rightarrow> if v = i then None else Some v | None \<Rightarrow> None)"
proof (induction hs)
  case (Cons kv hs)
  have "map_of hs (fst kv) = None" using Cons.prems by (simp add: map_of_eq_None_iff)
  with Cons show ?case by (cases kv) auto
qed simp

lemma find_filter: "j \<noteq> i \<Longrightarrow> find (\<lambda>p. profile_id p = j) (filter (\<lambda>p. profile_id p \<noteq> i) ps) = find (\<lambda>p. profile_id p = j) ps"
  by (induction ps) auto

lemma selected_eq:
  "m_loaded s \<Longrightarrow> fst (selectedForHost env h s) =
     (if h = [] then [] else case map_of (m_hostProfile s) h of None \<Rightarrow> [] | Some i \<Rightarrow> if find_profile s i = None then [] else i)"
  by (simp add: selectedForHost_def Let_def ensureLoaded_id)

lemma front_id_filter: "front_id ps \<noteq> i \<Longrightarrow> front_id (filter (\<lambda>p. profile_id p \<noteq> i) ps) = front_id ps"
  by (cases ps) (simp_all add: front_id_def)

text \<open>
  C29: Removing a profile removes it and nothing else.  In a store reached by any operations, when
  \<open>remove\<close> succeeds \<open>get\<close> no longer finds the profile, the others stay in order, a host that used it has
  no profile any more while every other host keeps its own, and the active profile changes only if it
  was the removed one.
\<close>

theorem remove_forgets_only:
  assumes s: "s = ensureLoaded env (run_ops env ops fs)" and rem: "remove env i s = (True, s')"
  shows "fst (get env i s') = None \<and> m_profiles s' = filter (\<lambda>p. profile_id p \<noteq> i) (m_profiles s) \<and>
    fst (selectedForHost env h s') = (if fst (selectedForHost env h s) = i then [] else fst (selectedForHost env h s)) \<and>
    (fst (activeProfileId env s) \<noteq> i \<longrightarrow> fst (activeProfileId env s') = fst (activeProfileId env s))"
proof -
  have loaded: "m_loaded s" and inv: "store_inv s" by (simp_all add: s reached_inv)
  let ?kept = "filter (\<lambda>p. profile_id p \<noteq> i) (m_profiles s)"
  have s': "m_profiles s' = ?kept" "m_hostProfile s' = filter (\<lambda>kv. snd kv \<noteq> i) (m_hostProfile s)"
    "m_activeProfileId s' = (if m_activeProfileId s = i then front_id ?kept else m_activeProfileId s)" "m_loaded s'"
    using rem loaded by (auto simp: remove_def Let_def ensureLoaded_id split: if_splits)
  have inv': "store_inv s'" using inv_remove [OF inv, of env i] rem by simp
  have found: "find_profile s' j = (if j = i then None else find_profile s j)" for j
    by (auto simp: find_profile_def s'(1) find_filter find_None_iff)
  have "i \<noteq> []"
  proof
    assume "i = []"
    then have "?kept = m_profiles s" using inv by (simp add: store_inv_def list_all_iff)
    then have "remove env i s = (False, s)" by (simp add: remove_def Let_def ensureLoaded_id loaded)
    with rem show False by simp
  qed
  have hosts: "distinct (map fst (m_hostProfile s))" using inv by (simp add: store_inv_def)
  have "fst (selectedForHost env h s') = (if fst (selectedForHost env h s) = i then [] else fst (selectedForHost env h s))"
    using \<open>i \<noteq> []\<close>
    by (auto simp: selected_eq loaded s' map_of_filter_snd [OF hosts] found split: option.split)
  moreover have "fst (activeProfileId env s') = fst (activeProfileId env s)" if "fst (activeProfileId env s) \<noteq> i"
    using that \<open>i \<noteq> []\<close> front_id_filter [of "m_profiles s" i]
    unfolding active_id_eq [OF loaded inv] active_id_eq [OF s'(4) inv'] by (auto simp: s' split: if_splits)
  moreover have "fst (get env i s') = None" by (simp add: get_def Let_def ensureLoaded_id s'(4) found)
  ultimately show ?thesis using s'(1) by simp
qed

theorem remove_forgets_only_witness:
  "m_profiles (snd (remove example_env ''b'' example_store)) = [profileFromJson example_profile_json] \<and>
   fst (selectedForHost example_env ''pc'' (snd (remove example_env ''b'' example_store))) = []"
proof -
  have loaded: "m_loaded example_store" by (simp add: example_store_def)
  have "fst (remove example_env ''b'' example_store) = True"
    by (simp add: remove_def Let_def ensureLoaded_id loaded example_store_eq example_profile_ids)
  then have rem: "remove example_env ''b'' example_store = (True, snd (remove example_env ''b'' example_store))"
    by (metis prod.collapse)
  have "fst (selectedForHost example_env ''pc'' example_store) = ''b''"
    by (simp add: selected_eq [OF loaded] example_store_eq find_profile_def example_profile_ids)
  then show ?thesis
    using remove_forgets_only [of example_store example_env "[]" example_files, OF _ rem, of "''pc''"]
    by (simp add: example_store_def [symmetric] example_store_eq example_profile_ids)
qed

end
