(* ===== verification/StreamSettings.thy ===== *)
theory StreamSettings
  imports StreamConfigProfileStoreCorrect "HOL-Library.Code_Target_Nat"
begin

text \<open>
  Model of the stream settings of the class \<open>Settings\<close> (\<open>app/src/utils/Settings.hpp\<close>) and of how a profile is
  applied to them and read back (\<open>applyProfileToSettings\<close>, \<open>snapshotFromSettings\<close>), for the Switch build with the
  deko3d renderer and upscaling.  The other stores that the two functions go to (advanced options,
  video scale, zoom, motion, custom resolution, pointer) are not part of it, nor is writing the
  settings file.

  Sharpening and rumble are stored as whole percents and dithering as a whole number, so the setters
  convert a \<open>float\<close>; converting a value that is not a number or does not fit is undefined and gives \<open>None\<close>.
\<close>

section \<open>Float arithmetic\<close>

text \<open>Multiplying by a positive constant, adding a constant, and the conversion to \<open>int\<close>, which truncates.\<close>

definition cf_scale :: "cfloat \<Rightarrow> rat \<Rightarrow> cfloat" where
  "cf_scale v k = (case v of Finite q \<Rightarrow> to_float (q * k) | _ \<Rightarrow> v)"

definition cf_shift :: "cfloat \<Rightarrow> rat \<Rightarrow> cfloat" where
  "cf_shift v c = (case v of Finite q \<Rightarrow> to_float (q + c) | _ \<Rightarrow> v)"

definition cf_to_int :: "cfloat \<Rightarrow> int option" where
  "cf_to_int v =
     (case v of
        Finite q \<Rightarrow> (let t = (if 0 \<le> q then \<lfloor>q\<rfloor> else \<lceil>q\<rceil>) in if is_int32 t then Some t else None)
      | _ \<Rightarrow> None)"

definition percent :: "int \<Rightarrow> cfloat" where
  "percent m = cf_scale (to_float (of_int m)) (1 / 100)"

section \<open>The settings\<close>

record StreamSettings =
  m_resolution :: int
  m_aspect_ratio :: int
  m_native_resolution_scale :: int
  m_fps :: int
  m_client_refresh_rate_x100 :: int
  m_video_codec :: int
  m_audio_backend :: int
  m_bitrate :: int
  m_enable_hdr :: bool
  m_upscaling_mode :: int
  m_enable_dithering :: bool
  m_dithering_strength :: int
  m_enable_rcas :: bool
  m_rcas_strength :: int
  m_decoder_threads :: int
  m_frames_queue_size :: int
  m_low_latency_pacing :: bool
  m_sops :: bool
  m_play_audio :: bool
  m_stream_audio_configuration :: int
  m_terminate_app_on_disconnect :: bool
  m_swap_ui_ab :: bool
  m_swap_ui_xy :: bool
  m_swap_joycon_stick_to_dpad :: bool
  m_touchscreen_mouse_mode :: bool
  m_swap_mouse_keys :: bool
  m_swap_mouse_scroll :: bool
  m_swap_mouse_sticks :: bool
  m_rumble_force :: int
  m_volume :: int
  m_use_hw_decoding :: bool
  m_keyboard_type :: int
  m_keyboard_fingers :: int
  m_keyboard_locale :: int
  m_volume_amplification :: bool
  m_mouse_speed_multiplier :: int
  m_current_mapping_layout :: int
  m_mapping_laouts :: "string list"
  m_deadzone_stick_left :: cfloat
  m_deadzone_stick_right :: cfloat
  app_swap_ab :: bool
  app_swap_xy :: bool

definition UPSCALING_OFF :: int where "UPSCALING_OFF = 0"
definition UPSCALING_FSR1 :: int where "UPSCALING_FSR1 = 2"
definition UPSCALING_SGSR1 :: int where "UPSCALING_SGSR1 = 3"
definition UPSCALING_NIS :: int where "UPSCALING_NIS = 4"

text \<open>The setters that compute: the value they store.\<close>

definition stored_native_scale :: "int \<Rightarrow> int" where
  "stored_native_scale scale = (if scale \<in> {50, 75, 100, 200} then scale else 100)"

definition stored_refresh_rate :: "int \<Rightarrow> int" where
  "stored_refresh_rate v = (if v < 0 then 0 else v)"

definition stored_upscaling_mode :: "int \<Rightarrow> int" where
  "stored_upscaling_mode mode =
     (if mode = UPSCALING_FSR1 \<or> mode = UPSCALING_SGSR1 \<or> mode = UPSCALING_NIS then mode else UPSCALING_OFF)"

definition stored_dithering_strength :: "cfloat \<Rightarrow> int option" where
  "stored_dithering_strength strength =
     (let strength = (if cf_less strength (Finite 1) then Finite 1 else if cf_less (Finite 10) strength then Finite 10 else strength)
      in cf_to_int (cf_shift strength (1 / 2)))"

definition stored_rcas_strength :: "cfloat \<Rightarrow> int option" where
  "stored_rcas_strength strength =
     (let strength = (if cf_less strength (Finite 0) then Finite 0 else if cf_less (Finite 1) strength then Finite 1 else strength)
      in cf_to_int (cf_scale strength 100))"

definition stored_rumble_force :: "cfloat \<Rightarrow> int option" where
  "stored_rumble_force force = cf_to_int (cf_scale force 100)"

text \<open>The getters that compute.\<close>

definition request_hdr :: "StreamSettings \<Rightarrow> bool" where "request_hdr st = False"
definition use_hw_decoding :: "StreamSettings \<Rightarrow> bool" where "use_hw_decoding st = True"

definition dithering_strength :: "StreamSettings \<Rightarrow> cfloat" where
  "dithering_strength st = to_float (of_int (m_dithering_strength st))"

definition rcas_strength :: "StreamSettings \<Rightarrow> cfloat" where
  "rcas_strength st = percent (m_rcas_strength st)"

definition get_rumble_force :: "StreamSettings \<Rightarrow> cfloat" where
  "get_rumble_force st = percent (m_rumble_force st)"

definition mouse_speed_scale :: "StreamSettings \<Rightarrow> cfloat" where
  "mouse_speed_scale st =
     (case to_float (19 / 10) of Finite k \<Rightarrow>
        (case to_float (1 / 10) of Finite c \<Rightarrow> cf_shift (cf_scale (percent (m_mouse_speed_multiplier st)) k) c | v \<Rightarrow> v)
      | v \<Rightarrow> v)"

definition get_current_mapping_layout :: "StreamSettings \<Rightarrow> int" where
  "get_current_mapping_layout st =
     (if m_current_mapping_layout st < 0 \<or> int (length (m_mapping_laouts st)) \<le> m_current_mapping_layout st then 0
      else m_current_mapping_layout st)"

section \<open>Profiles and settings\<close>

definition clamp_queue :: "int \<Rightarrow> int" where
  "clamp_queue n = (let n = (if n < 1 then 1 else n) in if n > 5 then 5 else n)"

definition apply_layout :: "string \<Rightarrow> StreamSettings \<Rightarrow> StreamSettings" where
  "apply_layout title st =
     (if title = [] then st
      else case find_index (\<lambda>t. t = title) (m_mapping_laouts st) of
             None \<Rightarrow> st
           | Some i \<Rightarrow> st\<lparr>m_current_mapping_layout := int i\<rparr>)"

text \<open>\<open>d\<close>, \<open>r\<close> and \<open>f\<close> are the values of the three setters that convert.\<close>

definition apply_values :: "StreamConfigProfile \<Rightarrow> int \<Rightarrow> int \<Rightarrow> int \<Rightarrow> StreamSettings \<Rightarrow> StreamSettings" where
  "apply_values p d r f st = st\<lparr>
     m_resolution := resolutionHeight p,
     m_aspect_ratio := normalizeAspectRatio (aspectRatio p),
     m_fps := fps p,
     m_client_refresh_rate_x100 := stored_refresh_rate (clientRefreshRateX100 p),
     m_bitrate := bitrateKbps p,
     m_video_codec := videoCodec p,
     m_enable_hdr := requestHdr p,
     m_decoder_threads := decoderThreads p,
     m_native_resolution_scale := stored_native_scale (nativeResolutionScale p),
     m_use_hw_decoding := useHwDecoding p,
     m_upscaling_mode := stored_upscaling_mode (upscalingMode p),
     m_enable_dithering := dithering p,
     m_dithering_strength := d,
     m_enable_rcas := rcas p,
     m_rcas_strength := r,
     m_stream_audio_configuration := streamAudioConfiguration p,
     m_play_audio := playAudioOnPc p,
     m_sops := sops p,
     m_terminate_app_on_disconnect := terminateAppOnDisconnect p,
     m_audio_backend := audioBackend p,
     m_volume_amplification := volumeAmplification p,
     m_volume := volume p,
     m_keyboard_type := keyboardType p,
     m_keyboard_locale := keyboardLocale p,
     m_keyboard_fingers := keyboardFingers p,
     m_touchscreen_mouse_mode := touchscreenMouseMode p,
     m_swap_mouse_keys := swapMouseKeys p,
     m_swap_mouse_scroll := swapMouseScroll p,
     m_swap_mouse_sticks := swapMouseSticks p,
     m_mouse_speed_multiplier := mouseSpeedMultiplier p,
     m_swap_ui_ab := swapUiAb p,
     m_swap_ui_xy := swapUiXy p,
     app_swap_ab := swapUiAb p,
     app_swap_xy := swapUiXy p,
     m_deadzone_stick_left := deadzoneLeft p,
     m_deadzone_stick_right := deadzoneRight p,
     m_rumble_force := f,
     m_swap_joycon_stick_to_dpad := swapStickToDpad p,
     m_low_latency_pacing := lowLatencyPacing p,
     m_frames_queue_size := clamp_queue (framesQueueSize p)\<rparr>"

definition applyProfileToSettings :: "StreamConfigProfile \<Rightarrow> StreamSettings \<Rightarrow> StreamSettings option" where
  "applyProfileToSettings p st =
     (case (stored_dithering_strength (ditheringStrength p), stored_rcas_strength (rcasStrength p), stored_rumble_force (rumbleForce p)) of
        (Some d, Some r, Some f) \<Rightarrow> Some (apply_layout (mappingLayoutTitle p) (apply_values p d r f st))
      | _ \<Rightarrow> None)"

text \<open>What \<open>snapshotFromSettings\<close> reads; \<open>p\<close> has the values of the other stores, and \<open>mappingLayoutTitle\<close> stays as it
  was when the current layout does not exist.\<close>

definition read_settings :: "StreamSettings \<Rightarrow> StreamConfigProfile \<Rightarrow> StreamConfigProfile" where
  "read_settings st p = p\<lparr>
     resolutionHeight := normalizeProfileHeight (m_resolution st),
     aspectRatio := m_aspect_ratio st,
     fps := m_fps st,
     clientRefreshRateX100 := m_client_refresh_rate_x100 st,
     bitrateKbps := m_bitrate st,
     videoCodec := m_video_codec st,
     requestHdr := request_hdr st,
     decoderThreads := m_decoder_threads st,
     nativeResolutionScale := m_native_resolution_scale st,
     useHwDecoding := use_hw_decoding st,
     upscalingMode := m_upscaling_mode st,
     dithering := m_enable_dithering st,
     ditheringStrength := dithering_strength st,
     rcas := m_enable_rcas st,
     rcasStrength := rcas_strength st,
     streamAudioConfiguration := m_stream_audio_configuration st,
     playAudioOnPc := m_play_audio st,
     sops := m_sops st,
     terminateAppOnDisconnect := m_terminate_app_on_disconnect st,
     audioBackend := m_audio_backend st,
     volumeAmplification := m_volume_amplification st,
     volume := m_volume st,
     keyboardType := m_keyboard_type st,
     keyboardLocale := m_keyboard_locale st,
     keyboardFingers := m_keyboard_fingers st,
     swapMouseKeys := m_swap_mouse_keys st,
     swapMouseScroll := m_swap_mouse_scroll st,
     swapMouseSticks := m_swap_mouse_sticks st,
     mouseSpeedMultiplier := m_mouse_speed_multiplier st,
     swapUiAb := m_swap_ui_ab st,
     swapUiXy := m_swap_ui_xy st,
     deadzoneLeft := m_deadzone_stick_left st,
     deadzoneRight := m_deadzone_stick_right st,
     rumbleForce := get_rumble_force st,
     swapStickToDpad := m_swap_joycon_stick_to_dpad st,
     mappingLayoutTitle := (let i = get_current_mapping_layout st in
        if 0 \<le> i \<and> i < int (length (m_mapping_laouts st)) then m_mapping_laouts st ! nat i else mappingLayoutTitle p),
     lowLatencyPacing := m_low_latency_pacing st,
     framesQueueSize := m_frames_queue_size st\<rparr>"

section \<open>Rounding positive fractions\<close>

text \<open>The cast to \<open>float\<close> of a positive fraction \<open>n / d\<close> by integer arithmetic: \<open>b\<close> is the power of two, among candidates,
  that leaves 24 significant bits.\<close>

definition div_half_even :: "int \<Rightarrow> int \<Rightarrow> int" where
  "div_half_even a d =
     (let f = a div d; r = 2 * (a mod d) in if r < d then f else if d < r then f + 1 else if even f then f else f + 1)"

definition nearest :: "int list \<Rightarrow> int \<Rightarrow> int \<Rightarrow> (int \<times> int) option" where
  "nearest cands n d =
     map_option (\<lambda>b. (div_half_even (n * b) d, b)) (find (\<lambda>b. 8388608 * d \<le> n * b \<and> n * b < 16777216 * d) cands)"

lemma round_half_even_div: "0 < d \<Longrightarrow> round_half_even (of_int a / of_int d) = div_half_even a d"
proof -
  assume d: "0 < d"
  have "(of_int a :: rat) = of_int (a div d) * of_int d + of_int (a mod d)"
    by (metis div_mult_mod_eq of_int_add of_int_mult)
  then have "(of_int a / of_int d :: rat) - of_int (a div d) = of_int (a mod d) / of_int d"
    using d by (simp add: field_simps)
  moreover have "of_int (a mod d) / of_int d < (1 / 2 :: rat) \<longleftrightarrow> 2 * (a mod d) < d"
    "(1 / 2 :: rat) < of_int (a mod d) / of_int d \<longleftrightarrow> d < 2 * (a mod d)"
    using d by (simp_all add: divide_less_eq less_divide_eq) (metis mult.commute of_int_less_iff of_int_mult of_int_numeral)+
  ultimately show ?thesis
    by (simp only: round_half_even_def div_half_even_def Let_def floor_divide_of_int_eq)
qed

lemma round32_nonzero: "q \<noteq> 0 \<Longrightarrow> round32 q = of_int (round_half_even (q / 2 powi ulp_exp \<bar>q\<bar>)) * 2 powi ulp_exp \<bar>q\<bar>"
  by (simp add: round32_def Let_def)

lemma ilog2_unique:
  assumes "0 < q" and "2 powi a \<le> q" and "q < 2 powi (a + 1)"
  shows "ilog2 q = a"
proof -
  have "a < ilog2 q + 1" using assms(2) ilog2_bounds(2) [OF assms(1)] by (metis order_le_less_trans powi2_less_iff)
  moreover have "ilog2 q < a + 1" using assms(3) ilog2_bounds(1) [OF assms(1)] by (metis order_le_less_trans powi2_less_iff)
  ultimately show ?thesis by simp
qed

lemma to_float_nearest:
  assumes "nearest cands n d = Some (m, b)" and "0 < n" and "0 < d" and b: "b = 2 ^ s" "s < 100"
  shows "to_float (of_int n / of_int d) = Finite (of_int m / of_int b)"
proof -
  let ?q = "of_int n / of_int d :: rat"
  let ?y = "of_int (n * 2 ^ s) / of_int d :: rat"
  have s: "2 ^ 23 * d \<le> n * 2 ^ s" "n * 2 ^ s < 2 ^ 24 * d" and m: "m = div_half_even (n * 2 ^ s) d"
    using assms(1) by (auto simp: nearest_def b dest: find_SomeD)
  have pos: "0 < ?q" using assms(2,3) by simp
  have scale: "?q / 2 powi (- int s) = ?y" "2 powi (- int s) = (1 :: rat) / 2 ^ s"
    by (simp_all add: power_int_minus divide_inverse)
  have y: "2 ^ 23 \<le> ?y" "?y < 2 ^ 24"
  proof -
    have "of_int (2 ^ 23 * d) \<le> (of_int (n * 2 ^ s) :: rat)" using s(1) by (simp only: of_int_le_iff)
    then show "2 ^ 23 \<le> ?y" using assms(3) by (simp add: le_divide_eq)
    have "(of_int (n * 2 ^ s) :: rat) < of_int (2 ^ 24 * d)" using s(2) by (simp only: of_int_less_iff)
    then show "?y < 2 ^ 24" using assms(3) by (simp add: divide_less_eq)
  qed
  have q: "?q = ?y / 2 ^ s" by simp
  have powers: "2 powi (23 - int s) = (2 ^ 23 :: rat) / 2 ^ s" "2 powi (23 - int s + 1) = (2 ^ 24 :: rat) / 2 ^ s"
    using power_int_diff [of "2 :: rat" 23 "int s"] power_int_diff [of "2 :: rat" 24 "int s"] by (simp_all add: algebra_simps)
  have "ilog2 ?q = 23 - int s"
  proof (rule ilog2_unique [OF pos])
    show "2 powi (23 - int s) \<le> ?q" unfolding powers q using y(1) by (intro divide_right_mono) simp_all
    show "?q < 2 powi (23 - int s + 1)" unfolding powers q using y(2) by (intro divide_strict_right_mono) simp_all
  qed
  then have u: "ulp_exp \<bar>?q\<bar> = - int s" using b(2) unfolding abs_of_pos [OF pos] by (simp add: ulp_exp_def)
  have rhe: "round_half_even ?y = m" by (simp only: round_half_even_div [OF assms(3)] m)
  have "?q \<noteq> 0" using pos by (rule less_imp_neq [symmetric])
  then have r: "round32 ?q = of_int m / 2 ^ s"
    unfolding round32_nonzero [OF \<open>?q \<noteq> 0\<close>] u scale(1) rhe by (simp add: scale(2))
  have "\<lfloor>?y\<rfloor> \<le> m" "m \<le> \<lfloor>?y\<rfloor> + 1" using round_half_even_bounds [of ?y] rhe by simp_all
  moreover have "1 \<le> \<lfloor>?y\<rfloor>" "\<lfloor>?y\<rfloor> < 16777216"
  proof -
    have "(1 :: rat) \<le> 2 ^ 23" by simp
    then have "1 \<le> ?y" using y(1) by (rule order_trans)
    then show "1 \<le> \<lfloor>?y\<rfloor>" by (simp only: one_le_floor)
    show "\<lfloor>?y\<rfloor> < 16777216" using y(2) by (simp add: floor_less_iff)
  qed
  ultimately have "0 < m" "m < 33554432" by linarith+
  then have range: "0 < (of_int m :: rat)" "of_int m < (2 ^ 25 :: rat)" by simp_all
  have "of_int m / 2 ^ s \<le> (of_int m :: rat)" using range(1) by (simp add: divide_le_eq)
  with range have "of_int m / 2 ^ s < (2 ^ 128 :: rat)" by simp
  moreover have "- (2 ^ 128) < of_int m / (2 ^ s :: rat)"
    by (rule less_trans [of _ 0]) (use range(1) in simp_all)
  ultimately have "\<not> 2 ^ 128 \<le> of_int m / (2 ^ s :: rat)" "\<not> of_int m / (2 ^ s :: rat) \<le> - (2 ^ 128)" by simp_all
  then show ?thesis by (simp add: to_float_def r b(1))
qed

section \<open>Whole percents\<close>

text \<open>What a setter makes of the \<open>float\<close> of a whole percentage, by integer arithmetic.\<close>

definition places_below_one :: "int list" where
  "places_below_one = [8388608, 16777216, 33554432, 67108864, 134217728, 268435456, 536870912, 1073741824]"

definition places_to_hundred :: "int list" where
  "places_to_hundred = [131072, 262144, 524288, 1048576, 2097152, 4194304, 8388608, 16777216]"

definition percent_after :: "int \<Rightarrow> int option" where
  "percent_after k =
     Option.bind (nearest places_below_one k 100) (\<lambda>(m, b).
       Option.bind (nearest places_to_hundred (m * 100) b) (\<lambda>(m', b'). if 0 < m \<and> m \<le> b then Some (m' div b') else None))"

lemma places_powers: "places_below_one = map (\<lambda>s. 2 ^ s) [23..<31]" "places_to_hundred = map (\<lambda>s. 2 ^ s) [17..<25]"
  by (simp_all add: places_below_one_def places_to_hundred_def upt_rec)

lemma nearest_power:
  assumes "nearest (map (\<lambda>s. 2 ^ s) [a..<c]) n d = Some (m, b)" and "c \<le> 100"
  obtains s where "b = 2 ^ s" and "s < 100"
proof -
  have "b \<in> set (map (\<lambda>s. 2 ^ s) [a..<c])" using assms(1) by (auto simp: nearest_def simp del: set_map dest!: find_SomeD)
  with assms(2) that show ?thesis by auto
qed

lemma to_float_small_int: "\<bar>k\<bar> \<le> 2 ^ 24 \<Longrightarrow> to_float (of_int k) = Finite (of_int k)"
  using is_float_of_int [of k] by (simp add: is_float_def)

lemma percent_after_correct:
  assumes "percent_after k = Some r" and "0 < k" and "k \<le> 100" and "0 \<le> r" and "r \<le> 100"
  shows "stored_rumble_force (percent k) = Some r" and "stored_rcas_strength (percent k) = Some r"
    and "cf_between (Finite 0) (Finite 1) (percent k)"
proof -
  obtain m b m' b' where n: "nearest places_below_one k 100 = Some (m, b)" "nearest places_to_hundred (m * 100) b = Some (m', b')"
    and m: "0 < m" "m \<le> b" and r: "r = m' div b'"
    using assms(1) by (auto simp: percent_after_def split: bind_splits if_splits)
  obtain s where s: "b = 2 ^ s" "s < 100" by (rule nearest_power [OF n(1) [unfolded places_powers]]) simp
  obtain s' where s': "b' = 2 ^ s'" "s' < 100" by (rule nearest_power [OF n(2) [unfolded places_powers]]) simp
  let ?v = "of_int m / of_int b :: rat" and ?w = "of_int m' / of_int b' :: rat"
  have pos: "0 < b" using s(1) by simp
  have pc: "percent k = Finite ?v"
    using to_float_nearest [OF n(1) _ _ s] assms(2,3) by (simp add: percent_def cf_scale_def to_float_small_int)
  have le: "?v \<le> 1" "0 \<le> ?v" using m pos by (simp_all add: divide_le_eq)
  have scaled: "to_float (?v * 100) = Finite ?w"
    using to_float_nearest [OF n(2) _ pos s'] m(1) by simp
  have floor: "\<lfloor>?w\<rfloor> = r" unfolding r by (rule floor_divide_of_int_eq)
  have "0 \<le> ?w" using floor assms(4) by (simp only: flip: zero_le_floor)
  then have conv: "cf_to_int (Finite ?w) = Some r"
    unfolding cf_to_int_def cfloat.case if_P [OF \<open>0 \<le> ?w\<close>] floor Let_def using assms(4,5) by (simp add: is_int32_def)
  show "cf_between (Finite 0) (Finite 1) (percent k)"
    using le by (simp only: cf_between_def pc cf_less.simps not_less simp_thms)
  show "stored_rumble_force (percent k) = Some r"
    by (simp only: stored_rumble_force_def pc cf_scale_def cfloat.case scaled conv)
  show "stored_rcas_strength (percent k) = Some r"
    using le by (simp only: stored_rcas_strength_def pc cf_scale_def cfloat.case scaled conv Let_def cf_less.simps not_less [symmetric] if_False)
qed

lemma percents_after: "list_all (\<lambda>k. percent_after k = Some (if k = 53 \<or> k = 59 then k - 1 else k)) [1..100]"
  by code_simp

lemma zero_percent: "stored_rumble_force (percent 0) = Some 0" "stored_rcas_strength (percent 0) = Some 0"
  "cf_between (Finite 0) (Finite 1) (percent 0)"
  by (simp_all add: cf_between_def stored_rumble_force_def stored_rcas_strength_def percent_def cf_scale_def to_float_def round32_def
      cf_to_int_def is_int32_def)

lemma percent_stored:
  assumes "0 \<le> k" and "k \<le> 100"
  shows "stored_rumble_force (percent k) = Some (if k = 53 \<or> k = 59 then k - 1 else k)"
    "stored_rcas_strength (percent k) = Some (if k = 53 \<or> k = 59 then k - 1 else k)"
    "cf_between (Finite 0) (Finite 1) (percent k)"
proof -
  have *: "percent_after k = Some (if k = 53 \<or> k = 59 then k - 1 else k)" if "0 < k"
    using percents_after that assms(2) by (simp add: list_all_iff)
  show "stored_rumble_force (percent k) = Some (if k = 53 \<or> k = 59 then k - 1 else k)"
    "stored_rcas_strength (percent k) = Some (if k = 53 \<or> k = 59 then k - 1 else k)"
    "cf_between (Finite 0) (Finite 1) (percent k)"
    using percent_after_correct [OF *] zero_percent assms by (cases "k = 0"; force)+
qed

lemma dithering_stored: "1 \<le> d \<Longrightarrow> d \<le> 10 \<Longrightarrow> stored_dithering_strength (Finite (of_int d)) = Some d"
proof -
  assume d: "1 \<le> d" "d \<le> 10"
  have "(of_int d :: rat) + 1 / 2 = of_int (2 * d + 1) * 2 powi (- 1)" by (simp add: power_int_minus field_simps)
  then have "round32 (of_int d + 1 / 2) = of_int d + 1 / 2" using d by (intro round32_exact [where m = "2 * d + 1" and e = "- 1"]) auto
  moreover have "\<lfloor>of_int d + 1 / 2 :: rat\<rfloor> = d" by (simp add: floor_eq_iff)
  moreover have "(1 :: rat) \<le> of_int d" "of_int d \<le> (10 :: rat)" using d by simp_all
  ultimately show ?thesis
    using d by (simp add: stored_dithering_strength_def cf_shift_def to_float_def cf_to_int_def is_int32_def)
qed

section \<open>Applying a profile of the store\<close>

text \<open>\<open>applyToSettings\<close> with \<open>persist\<close> off, the way a stream is started: the settings change in memory only, the
  profile becomes the active one and the store is saved.  \<open>None\<close> is undefined behaviour of a setter.\<close>

definition applyProfile :: "StreamConfigProfile \<Rightarrow> StreamSettings \<Rightarrow> StreamSettings option" where
  "applyProfile p st = applyProfileToSettings (normalizeProfile p) st"

definition applyToSettings :: "'fs StoreEnv \<Rightarrow> string \<Rightarrow> StreamSettings \<Rightarrow> 'fs ProfileStore \<Rightarrow> (bool \<times> StreamSettings \<times> 'fs ProfileStore) option" where
  "applyToSettings env i st s =
     (case get env i s of
        (None, s) \<Rightarrow> Some (False, st, s)
      | (Some p, s) \<Rightarrow>
          (case applyProfile p st of
             None \<Rightarrow> None
           | Some st' \<Rightarrow> Some (True, st', save_loaded env (s\<lparr>m_activeProfileId := profile_id p\<rparr>))))"

lemma applyToSettings_active:
  assumes "applyToSettings env i st s = Some (True, st', s')" and "store_inv s"
  shows "store_inv s' \<and> m_activeProfileId s' = i \<and> i \<in> profile_id ` set (m_profiles s')"
proof -
  have inv: "store_inv (ensureLoaded env s)" using assms(2) by (rule inv_ensureLoaded)
  obtain p where p: "find_profile (ensureLoaded env s) i = Some p"
    and s': "s' = save_loaded env ((ensureLoaded env s)\<lparr>m_activeProfileId := profile_id p\<rparr>)"
    using assms(1) by (auto simp: applyToSettings_def get_def Let_def split: option.splits)
  from find_profile_Some [OF p] show ?thesis using inv_active [OF inv, of i] by (auto simp: s')
qed

lemma find_index_mem: "x \<in> set xs \<Longrightarrow> \<exists>i. find_index (\<lambda>t. t = x) xs = Some i \<and> i < length xs \<and> xs ! i = x"
  by (induction xs) auto

lemma applied_layout:
  assumes "t \<in> set (m_mapping_laouts st)" and "t \<noteq> []"
  shows "\<exists>i. apply_layout t st = st\<lparr>m_current_mapping_layout := int i\<rparr> \<and> i < length (m_mapping_laouts st) \<and> m_mapping_laouts st ! i = t"
  using find_index_mem [OF assms(1)] assms(2) by (auto simp: apply_layout_def)

definition kept_percent :: "int \<Rightarrow> int" where
  "kept_percent k = (if k = 53 \<or> k = 59 then k - 1 else k)"

lemma to_float_digit: "1 \<le> d \<Longrightarrow> d \<le> 10 \<Longrightarrow> to_float (of_int d) = Finite (of_int d)"
  by (simp add: to_float_small_int)

section \<open>Claims\<close>


definition example_settings :: StreamSettings where
  "example_settings = \<lparr>m_resolution = 720, m_aspect_ratio = 0, m_native_resolution_scale = 100, m_fps = 60,
     m_client_refresh_rate_x100 = 0, m_video_codec = H265, m_audio_backend = AUDREN, m_bitrate = 10000, m_enable_hdr = False,
     m_upscaling_mode = 0, m_enable_dithering = False, m_dithering_strength = 3, m_enable_rcas = True, m_rcas_strength = 20,
     m_decoder_threads = 4, m_frames_queue_size = 3, m_low_latency_pacing = False, m_sops = False, m_play_audio = False,
     m_stream_audio_configuration = 0, m_terminate_app_on_disconnect = False, m_swap_ui_ab = False, m_swap_ui_xy = False,
     m_swap_joycon_stick_to_dpad = False, m_touchscreen_mouse_mode = False, m_swap_mouse_keys = False,
     m_swap_mouse_scroll = False, m_swap_mouse_sticks = False, m_rumble_force = 100, m_volume = 100, m_use_hw_decoding = True,
     m_keyboard_type = 0, m_keyboard_fingers = 3, m_keyboard_locale = 0, m_volume_amplification = False,
     m_mouse_speed_multiplier = 47, m_current_mapping_layout = 0, m_mapping_laouts = [''Default'', ''Swapped''],
     m_deadzone_stick_left = Finite 0, m_deadzone_stick_right = Finite 0, app_swap_ab = False, app_swap_xy = False\<rparr>"

definition example_profile :: StreamConfigProfile where
  "example_profile = default_profile\<lparr>profile_name := ''Couch'', rcasStrength := percent 53, rumbleForce := percent 80,
     mappingLayoutTitle := ''Swapped''\<rparr>"

lemma example_profile_normal: "profile_normal example_profile"
  by (simp add: profile_normal_def example_profile_def default_profile_def height_ok_def allowed_heights_def percent_stored(3))
    (simp add: cf_between_def packet_size_ok_def kPacketSizeAuto_def)


end
