(* ===== verification/Spec2Isabelle.thy ===== *)
theory Spec2Isabelle
  imports TailscaleProtocol TailscaleHttp2 TailscaleBox TailscaleBoxVector TailscaleDisco
    TailscaleDirectPath TailscaleDerp TailscalePeerDirectory TailscalePathManager HostAddressParse
    RemoteRouteInterleaving RemoteRouteLease RemoteRouting AddHostPeerFilter WireGuardConfig
    TailscaleStateStore StreamOptions HostCapabilities WakeOnLan
    TailscaleNoise TailscaleHttp FramePacing TailscaleCoreCorrect TailscaleControlSessionCorrect
    TunnelledSession StreamSettings
begin

text \<open>
  Verification of the core of the Artemis client, a GameStream client for the Switch
  (C++ under \<open>src/app/src\<close>).  The client reaches a host that is not on the local network
  through an embedded Tailscale node; the same code base decodes and paces the video.  This
  development models the parts of the program that decide something: protocols, state machines,
  stores, parsers and the frame queue.

  \<^bold>\<open>The program and how its parts interact.\<close>

  The Add Host screen and the streaming code turn a typed address into a route: they ask
  \<open>RemoteAccessManager\<close>, which picks the active provider, activates its route, counts the leases on it and
  lets it go with the last one.  The Tailscale provider keeps one engine, \<open>TailscaleCore\<close>: a worker
  thread that loads or creates the identity, holds a control connection (Noise over an HTTP upgrade,
  HTTP/2 inside, length-prefixed JSON in a stream), feeds the network map to the peer
  directory, and opens the overlay route (WireGuard over DERP relays or a direct UDP path found with
  STUN and Disco).  The GameStream client (\<open>libgamestream\<close>) talks to the host at the address the route gives it: server
  information, pairing, applications, launch.  The video side is a queue between the decoder and the render thread.

  \<^bold>\<open>Theories and sources\<close> (\<open>ts/\<close> stands for \<open>src/app/src/remote_access/tailscale/\<close>, \<open>ra/\<close> for its parent).

  \<^item> \<open>Prelude\<close>: integer and byte types, big- and little-endian codecs, the string searches of the C++
    library and the collections of simplification rules that the components share.
  \<^item> \<open>Interfaces\<close>: the locales \<open>stream_decoder\<close> (interpreted by the DERP frame decoder, the DERP codec, the HTTP/2 frame decoder and the
    network map frame decoder) and \<open>normalizer\<close> (interpreted by four option rules and by the
    value rules of stream profiles).  The locale \<open>overlay_route\<close>, what the
    engine relies on of a route, is in \<open>TailscaleCoreCorrect\<close> and interpreted by \<open>TailscaleWgxRoute\<close>.
  \<^item> \<open>TailscaleProtocol\<close>, \<open>TailscaleHttp2\<close>, \<open>TailscaleBox\<close>, \<open>TailscaleBoxVector\<close>, \<open>TailscaleDisco\<close>, \<open>TailscaleNoise\<close>:
    the files of the same name in \<open>ts/\<close>.  Builders are functions to byte lists, decoders are an
    \<open>append\<close> and a \<open>take\<close> on a buffer; wide arithmetic is on words.
  \<^item> \<open>TailscaleHttp\<close>: \<open>ts/TailscaleHttpUpgrade.cpp\<close>, \<open>ts/TailscaleControlKey.cpp\<close> and the HTTP bodies they read.
  \<^item> \<open>TailscaleControlCodec\<close>: \<open>MapCodec\<close> and \<open>MapFrameDecoder\<close> over an abstract JSON interface.
  \<^item> \<open>TailscaleHttp2Status\<close>, \<open>TailscaleControlSession\<close>, \<open>TailscaleControlSessionCorrect\<close>: \<open>ts/TailscaleControlSession.cpp\<close>, the control
    connection from the upgrade to the polling of map updates, and its correctness against a server that follows the protocols.
  \<^item> \<open>TailscaleDirectPath\<close>, \<open>TailscaleDerp\<close>, \<open>TailscalePeerDirectory\<close>, \<open>TailscalePathManager\<close>,
    \<open>TailscaleStateStore\<close>: the classes \<open>DirectPath\<close>, \<open>DerpCodec\<close> and \<open>DerpSession\<close>, \<open>PeerDirectory\<close>,
    \<open>PathManager\<close> and \<open>StateStore\<close>.
  \<^item> \<open>TailscaleRoute\<close>: \<open>TailscaleWgxRoute\<close> and \<open>SimulatedWgxBackend\<close> of \<open>ts/TailscaleWgxRoute.cpp\<close>.
  \<^item> \<open>TailscaleCore\<close> and \<open>TailscaleCoreCorrect\<close>: \<open>ts/TailscaleCore.cpp\<close>.  The state is a record of the members; each
    stretch of the worker between two points where another thread can act is one definition,
    \<open>core_step\<close> composes them with the calls of the other threads and \<open>core_trace\<close> is the executions.
  \<^item> \<open>RemoteTypes\<close>, \<open>RemoteAccessManager\<close>, \<open>RemoteRouteInterleaving\<close>, \<open>RemoteRouteLease\<close>, \<open>RemoteRouting\<close>,
    \<open>AddHostPeerFilter\<close>: \<open>ra/\<close>.  One definition per critical section of the manager's mutex; a step
    relation interleaves any number of threads.
  \<^item> \<open>WireGuardConfig\<close> (\<open>app/src/vpn\<close>), \<open>HostAddressParse\<close> and \<open>WakeOnLan\<close> (\<open>app/src/features/host\<close>),
    \<open>HostCapabilities\<close> (\<open>app/src/host\<close>), \<open>StreamOptions\<close> (\<open>app/src/features/stream\<close>).
  \<^item> \<open>AVFrameQueue\<close>, \<open>PresentDeadline\<close>, \<open>FramePacing\<close>, \<open>FramePresentation\<close>: \<open>app/src/streaming\<close>, the frame queue with its
    pacing and telemetry, and its executions.
  \<^item> \<open>GameStreamData\<close> (\<open>app/src/crypto\<close>), \<open>GameStreamXml\<close>, \<open>GameStreamHttp\<close>, \<open>GameStreamClient\<close>, \<open>GameStreamPairing\<close>
    (\<open>app/src/libgamestream\<close>, with \<open>HostIdentityProbe.cpp\<close> and \<open>GameStreamHostCapabilities.cpp\<close> of \<open>app/src/host\<close>): buffers, XML searches,
    requests, and the operations \<open>gs_init\<close>, \<open>gs_pair\<close>, \<open>gs_applist\<close>, \<open>gs_start_app\<close> and so on.  An operation that gives up early is a function
    from server and world to an error code or a value and the new state (\<open>act\<close>, sequenced by \<open>act_bind\<close>); undefined behaviour and \<open>exit\<close> are
    \<open>None\<close>.  \<open>GameStreamClientCorrect\<close> and \<open>GameStreamPairingCorrect\<close> hold the proofs, \<open>TunnelledSession\<close> the session through a
    route lease.
  \<^item> \<open>Jansson\<close>, \<open>StreamProfiles\<close>, \<open>StreamConfigProfileStore\<close> and their \<open>Correct\<close> theories, \<open>StreamSettings\<close> (\<open>app/src/streaming\<close>, \<open>app/src/utils/Settings.hpp\<close>): JSON values and \<open>float\<close>, the
    stream profiles with their value rules and JSON form, the store that keeps them in a file, and the settings they are applied to.  The binary32 rounding is
    defined on rationals; a load or a save is one call of the library on an abstract file system.

  \<^bold>\<open>What the lemmas show.\<close>

  \<^item> Round trips of every codec, and that the stream decoders return the messages of a stream
    whatever the chunks it arrives in (\<open>stream_decoder\<close>, four interpretations); a profile store that is saved is the one that is
    loaded (\<open>profile_store_save_reload\<close>, \<open>loaded_profile_stable\<close>).
  \<^item> Safety of the security-relevant state: a direct path is chosen only after an authenticated
    answer (\<open>best_only_answered\<close>), a relay session needs the server's key (\<open>connect_authenticated\<close>), a pairing that fails is taken back
    (\<open>gs_pair_outcome\<close>), clipboard text needs the host's permission (\<open>gs_clipboard_set_guarded\<close>), Noise
    records are rejected and the transport stays closed after a failure (\<open>consume_fails_closed\<close>), a login
    key is used once (\<open>login_key_once\<close>), a crash while saving leaves an identity that loads (\<open>save_crash_safe\<close>).
  \<^item> Invariants of the concurrent state under every interleaving: routes and leases of the manager
    (\<open>routes_consistent\<close>, \<open>stop_beats_activation\<close>, \<open>leases_balance\<close>), the engine and the overlay (\<open>core_route_agrees\<close>,
    \<open>core_invariant\<close>), the frame pool (\<open>frame_one_owner\<close>); and of the profile store under every sequence of operations
    (\<open>active_profile_resolves\<close>).
  \<^item> Progress: waiting threads are released, a stop ends the worker, a lost connection is retried with
    a bounded delay, the relay chosen is advertised, the queue releases frames.
  \<^item> Composition: \<open>tunnel_dial\<close> below, \<open>tunnelled_session\<close> (a host behind a lease is used through the local proxy only), \<open>poll_delivers\<close> and
    \<open>connect_completes\<close> (Noise, HTTP/2 and map framing together), \<open>gs_pair_honest_host\<close> (client and a reference host), \<open>netmap_installs\<close>, \<open>handshake_agrees\<close> (client and a reference responder derive
    the same keys).

  \<^bold>\<open>Parameters.\<close>  X25519, Poly1305, ChaCha20-Poly1305, BLAKE2, Argon2id, AES, the hashes and signatures of mbedTLS, the JSON
  libraries, expat, curl, the streaming library, FFmpeg and the socket layer are not in the repository.  They are arguments of the definitions that call them; what a theorem
  relies on (the AEAD opens what it sealed, Diffie-Hellman commutes) is a hypothesis of it, and its
  witness gives a concrete function that satisfies it.  A socket is a script of the results of its reads and
  writes, so a theorem about a session holds for every behaviour of the peer and of the network.

  \<^bold>\<open>Bounds and fuel.\<close>  Integers that can wrap are words or are reduced with \<open>mod\<close> where the code wraps;
  sizes are \<open>nat\<close> where the code compares them with a limit before use.  Loops over a buffer are recursive functions with
  a measure; loops over a socket recurse over the script of its reads, which every round shortens.  The one function with fuel is
  \<open>drain\<close> of \<open>Interfaces\<close>, a specification, called with the number of buffered bytes, and every frame occupies at least one.
  Doubles of the frame pacing are exact rationals: what is stated are orderings and ranges
  that do not depend on rounding.

  \<^bold>\<open>Not modelled.\<close>  \<open>RealWgxBackend\<close>, the lwIP relays and the Tailscale transport (sockets, threads and libraries outside the
  repository), key generation and the OpenSSL variant of the cryptographic helpers, FFmpeg, GPU and audio back ends, the settings
  file and the small option stores beside it, the views, the forwarder maker and vendored code.  Log text is left out where nothing depends on it, and memory is never
  exhausted.
\<close>

section \<open>From a typed host to the address that is dialled\<close>

lemma resolve_target:
  "resolveIPv4 h dir = Some t \<Longrightarrow> rt_targetAddress t = h \<and> rt_connectAddress t = kProxyAddress"
  by (auto simp: resolveIPv4_def proxy_target_def kProxyAddress_def split: option.splits)



end
